(* ===== verification/Go_Prelude.thy ===== *)
theory Go_Prelude
  imports Main "HOL-Library.Word" "HOL-Library.Sublist" "HOL-Library.List_Lexorder" "HOL-Library.Char_ord"
begin

text \<open>
  The part of Go and of its standard library that the modelled code uses, and the lemmas the
  component theories share.

  A Go \<^verbatim>\<open>string\<close> (and \<^verbatim>\<open>[]byte\<close>) is a sequence of bytes; HOL's \<^typ>\<open>string\<close> is a list of
  8-bit \<^typ>\<open>char\<close>s, so \<^const>\<open>length\<close> is Go's \<^verbatim>\<open>len\<close> and the comparison of strings is the
  lexicographic one of the bytes.
  A Go \<^verbatim>\<open>int\<close> that holds a length is a \<^typ>\<open>nat\<close> (a length never reaches $2^{63}$); an
  \<^verbatim>\<open>int32\<close> is an \<^typ>\<open>int\<close> on which every arithmetic result goes through \<open>i32\<close>, the
  two's complement wrap-around. A \<^verbatim>\<open>map\<close> is a HOL map, a pair \<^verbatim>\<open>(value, error)\<close> a sum with the
  error on the left.
\<close>

named_theorems go_str \<open>definitions of the Go string and path functions\<close>

type_synonym go_string = string
type_synonym 'a go_set = "'a \<Rightarrow> bool"

section \<open>Machine integers\<close>

definition i32 :: "int \<Rightarrow> int" where
  "i32 x = (x + 2 ^ 31) mod 2 ^ 32 - 2 ^ 31"

lemma i32_id: "- (2 ^ 31) \<le> x \<Longrightarrow> x < 2 ^ 31 \<Longrightarrow> i32 x = x"
  by (simp add: i32_def)

lemma i32_small: "0 \<le> x \<Longrightarrow> x < 2 ^ 31 \<Longrightarrow> i32 x = x"
  by (simp add: i32_id)

lemma i32_bounds: "- (2 ^ 31) \<le> i32 x \<and> i32 x < 2 ^ 31"
  by (simp add: i32_def)

lemma i32_0 [simp]: "i32 0 = 0"
  by (simp add: i32_def)

lemma i32_wrap_add: "i32 (i32 a + b) = i32 (a + b)" "i32 (b + i32 a) = i32 (b + a)"
  unfolding i32_def by (simp_all add: mod_simps algebra_simps)

lemma i32_of_nat: "n < 2 ^ 31 \<Longrightarrow> i32 (int n) = int n"
  by (rule i32_id) auto

section \<open>Package strings\<close>

definition HasPrefix :: "string \<Rightarrow> string \<Rightarrow> bool" where
  "HasPrefix s p = (take (length p) s = p)"

definition HasSuffix :: "string \<Rightarrow> string \<Rightarrow> bool" where
  "HasSuffix s p = (length p \<le> length s \<and> drop (length s - length p) s = p)"

definition TrimPrefix :: "string \<Rightarrow> string \<Rightarrow> string" where
  "TrimPrefix s p = (if HasPrefix s p then drop (length p) s else s)"

fun Contains :: "string \<Rightarrow> string \<Rightarrow> bool" where
  "Contains [] p = (p = [])"
| "Contains (c # s) p = (HasPrefix (c # s) p \<or> Contains s p)"

text \<open>\<^verbatim>\<open>strings.ReplaceAll\<close> for a non-empty \<open>old\<close>; for the empty one, which no caller passes,
  the string is returned.\<close>

function ReplaceAll :: "string \<Rightarrow> string \<Rightarrow> string \<Rightarrow> string" where
  "ReplaceAll s old new =
     (if old = [] \<or> s = [] then s
      else if HasPrefix s old then new @ ReplaceAll (drop (length old) s) old new
      else hd s # ReplaceAll (tl s) old new)"
  by pat_completeness auto
termination
  by (relation "measure (\<lambda>(s, old, new). length s)") auto

declare ReplaceAll.simps [simp del]

lemma ReplaceAll_Nil [simp]: "ReplaceAll [] old new = []"
  by (simp add: ReplaceAll.simps)

text \<open>\<^verbatim>\<open>strings.Count(s, c)\<close> for a one-byte \<open>c\<close>.\<close>

definition CountByte :: "string \<Rightarrow> char \<Rightarrow> nat" where
  "CountByte s c = length (filter (\<lambda>x. x = c) s)"

text \<open>\<^verbatim>\<open>strings.Split(s, sep)\<close> for a one-byte separator: always at least one part.\<close>

fun Split :: "string \<Rightarrow> char \<Rightarrow> string list" where
  "Split [] sep = [[]]"
| "Split (c # s) sep =
     (if c = sep then [] # Split s sep
      else (case Split s sep of [] \<Rightarrow> [[c]] | p # ps \<Rightarrow> (c # p) # ps))"

fun Join :: "string list \<Rightarrow> string \<Rightarrow> string" where
  "Join [] sep = []"
| "Join [x] sep = x"
| "Join (x # y # zs) sep = x @ sep @ Join (y # zs) sep"

text \<open>\<^verbatim>\<open>strings.LastIndex(s, c)\<close> for a one-byte \<open>c\<close>: \<open>None\<close> is Go's -1.\<close>

fun LastIndexByte :: "string \<Rightarrow> char \<Rightarrow> nat option" where
  "LastIndexByte [] c = None"
| "LastIndexByte (x # s) c =
     (case LastIndexByte s c of
        Some i \<Rightarrow> Some (Suc i)
      | None \<Rightarrow> if x = c then Some 0 else None)"

text \<open>The runes of \<^verbatim>\<open>unicode.IsSpace\<close> in UTF-8: the ASCII spaces, U+0085, U+00A0, U+1680, U+2000 to U+200A,
  U+2028, U+2029, U+202F, U+205F and U+3000.\<close>

definition space_runes :: "string list" where
  "space_runes = [[CHR '' ''], [CHR 0x09], [CHR 0x0A], [CHR 0x0B], [CHR 0x0C], [CHR 0x0D],
     [CHR 0xC2, CHR 0x85], [CHR 0xC2, CHR 0xA0], [CHR 0xE1, CHR 0x9A, CHR 0x80],
     [CHR 0xE2, CHR 0x80, CHR 0x80], [CHR 0xE2, CHR 0x80, CHR 0x81], [CHR 0xE2, CHR 0x80, CHR 0x82],
     [CHR 0xE2, CHR 0x80, CHR 0x83], [CHR 0xE2, CHR 0x80, CHR 0x84], [CHR 0xE2, CHR 0x80, CHR 0x85],
     [CHR 0xE2, CHR 0x80, CHR 0x86], [CHR 0xE2, CHR 0x80, CHR 0x87], [CHR 0xE2, CHR 0x80, CHR 0x88],
     [CHR 0xE2, CHR 0x80, CHR 0x89], [CHR 0xE2, CHR 0x80, CHR 0x8A], [CHR 0xE2, CHR 0x80, CHR 0xA8],
     [CHR 0xE2, CHR 0x80, CHR 0xA9], [CHR 0xE2, CHR 0x80, CHR 0xAF], [CHR 0xE2, CHR 0x81, CHR 0x9F],
     [CHR 0xE3, CHR 0x80, CHR 0x80]]"

text \<open>The length of the rune of \<open>rs\<close> at the start of a string, 0 if there is none; the runes of \<open>rs\<close> taken
  off the start, and white space off both ends.\<close>

definition lead_len :: "string list \<Rightarrow> string \<Rightarrow> nat" where
  "lead_len rs s = (case List.find (\<lambda>r. take (length r) s = r) rs of Some r \<Rightarrow> length r | None \<Rightarrow> 0)"

function trim_lead :: "string list \<Rightarrow> string \<Rightarrow> string" where
  "trim_lead rs s = (if s = [] \<or> lead_len rs s = 0 then s else trim_lead rs (drop (lead_len rs s) s))"
  by pat_completeness auto
termination
  by (relation "measure (\<lambda>(rs, s). length s)") auto

declare trim_lead.simps [simp del]

definition TrimSpace :: "string \<Rightarrow> string" where
  "TrimSpace s = rev (trim_lead (map rev space_runes) (rev (trim_lead space_runes s)))"

definition TrimByte :: "string \<Rightarrow> char \<Rightarrow> string" where
  "TrimByte s c = rev (dropWhile (\<lambda>x. x = c) (rev (dropWhile (\<lambda>x. x = c) s)))"

text \<open>\<^verbatim>\<open>strings.Fields\<close>: the maximal runs without white space.\<close>

function Fields_acc :: "string \<Rightarrow> string \<Rightarrow> string list" where
  "Fields_acc s cur =
     (if s = [] then (if cur = [] then [] else [rev cur])
      else let n = lead_len space_runes s
           in if n = 0 then Fields_acc (tl s) (hd s # cur)
              else (if cur = [] then [] else [rev cur]) @ Fields_acc (drop n s) [])"
  by pat_completeness auto
termination
  by (relation "measure (\<lambda>(s, cur). length s)") auto

declare Fields_acc.simps [simp del]

definition Fields :: "string \<Rightarrow> string list" where
  "Fields s = Fields_acc s []"

text \<open>\<^verbatim>\<open>strings.ToLower\<close> on ASCII.\<close>

definition lower_char :: "char \<Rightarrow> char" where
  "lower_char c =
     (if of_char c \<ge> (65::nat) \<and> of_char c \<le> (90::nat) then char_of (of_char c + (32::nat)) else c)"

definition ToLower :: "string \<Rightarrow> string" where
  "ToLower s = map lower_char s"

section \<open>Numbers in texts\<close>

definition digit :: "nat \<Rightarrow> char" where
  "digit n = char_of (48 + n)"

fun show_nat :: "nat \<Rightarrow> string" where
  "show_nat n = (if n < 10 then [digit n] else show_nat (n div 10) @ [digit (n mod 10)])"

declare show_nat.simps [simp del]

definition show_int :: "int \<Rightarrow> string" where
  "show_int n = (if n < 0 then CHR ''-'' # show_nat (nat (- n)) else show_nat (nat n))"

section \<open>Package path\<close>

text \<open>\<^verbatim>\<open>path.Ext\<close> scans from the end to the last slash for a dot.\<close>

fun ext_rev :: "string \<Rightarrow> string \<Rightarrow> string" where
  "ext_rev [] acc = []"
| "ext_rev (c # s) acc =
     (if c = CHR ''/'' then []
      else if c = CHR ''.'' then c # acc
      else ext_rev s (c # acc))"

definition path_Ext :: "string \<Rightarrow> string" where
  "path_Ext p = ext_rev (rev p) []"

definition path_Base :: "string \<Rightarrow> string" where
  "path_Base p =
     (if p = [] then ''.''
      else (let q = rev (dropWhile (\<lambda>c. c = CHR ''/'') (rev p));
                b = rev (takeWhile (\<lambda>c. c \<noteq> CHR ''/'') (rev q))
            in if b = [] then ''/'' else b))"

text \<open>\<^verbatim>\<open>path.Clean\<close>: drop empty and \<^verbatim>\<open>.\<close> elements, resolve \<^verbatim>\<open>..\<close> against the element before
  it; the stack holds the elements kept so far, last first.\<close>

fun clean_elems :: "bool \<Rightarrow> string list \<Rightarrow> string list \<Rightarrow> string list" where
  "clean_elems rooted [] stk = rev stk"
| "clean_elems rooted (e # es) stk =
     (if e = [] \<or> e = ''.'' then clean_elems rooted es stk
      else if e = ''..'' then
        (case stk of
           [] \<Rightarrow> clean_elems rooted es (if rooted then [] else [''..''])
         | t # ts \<Rightarrow> if t = ''..'' then clean_elems rooted es (''..'' # stk)
                     else clean_elems rooted es ts)
      else clean_elems rooted es (e # stk))"

definition path_Clean :: "string \<Rightarrow> string" where
  "path_Clean p =
     (let rooted = HasPrefix p ''/'';
          body = Join (clean_elems rooted (Split p (CHR ''/'')) []) ''/''
      in if rooted then ''/'' @ body else if body = [] then ''.'' else body)"

definition path_Dir :: "string \<Rightarrow> string" where
  "path_Dir p = path_Clean (rev (dropWhile (\<lambda>c. c \<noteq> CHR ''/'') (rev p)))"

lemmas [go_str] = HasPrefix_def HasSuffix_def TrimPrefix_def path_Ext_def path_Base_def

section \<open>Lemmas on the string functions\<close>

lemma HasPrefix_append [simp]: "HasPrefix (p @ s) p"
  by (simp add: HasPrefix_def)

lemma HasPrefix_Nil [simp]: "HasPrefix s []"
  by (simp add: HasPrefix_def)

lemma HasPrefix_iff: "HasPrefix s p \<longleftrightarrow> prefix p s"
  by (auto simp: HasPrefix_def prefix_def) (metis append_take_drop_id)

lemma HasSuffix_append [simp]: "HasSuffix (s @ p) p"
  by (simp add: HasSuffix_def)

lemma HasSuffix_iff: "HasSuffix s p \<longleftrightarrow> suffix p s"
  by (auto simp: HasSuffix_def suffix_def)
     (metis append_take_drop_id)

lemma Split_not_Nil [simp]: "Split s sep \<noteq> []"
  by (cases s) (auto split: list.splits)

lemma Join_Split: "Join (Split s sep) [sep] = s"
proof (induction s)
  case (Cons c s)
  obtain p ps where ps: "Split s sep = p # ps"
    using Split_not_Nil by (metis list.exhaust)
  show ?case using Cons.IH by (cases ps) (auto simp: ps)
qed simp

lemma Join_snoc: "ls \<noteq> [] \<Longrightarrow> Join (ls @ [x]) sep = Join ls sep @ sep @ x"
proof (induction ls)
  case (Cons y ys)
  then show ?case by (cases ys) auto
qed simp

lemma Split_append: "c \<notin> set a \<Longrightarrow> Split (a @ c # b) c = a # Split b c"
  by (induction a) auto

lemma Split_none: "c \<notin> set a \<Longrightarrow> Split a c = [a]"
  by (induction a) auto

lemma Split_parts: "p \<in> set (Split s sep) \<Longrightarrow> sep \<notin> set p"
proof (induction s arbitrary: p)
  case (Cons c s)
  obtain q qs where qs: "Split s sep = q # qs"
    using Split_not_Nil by (metis list.exhaust)
  show ?case using Cons by (auto simp: qs split: if_splits)
qed simp

lemma length_Split: "length (Split s sep) = Suc (CountByte s sep)"
proof (induction s)
  case (Cons c s)
  obtain q qs where qs: "Split s sep = q # qs"
    using Split_not_Nil by (metis list.exhaust)
  show ?case using Cons.IH by (auto simp: qs CountByte_def)
qed (simp add: CountByte_def)

lemma CountByte_append [simp]: "CountByte (a @ b) c = CountByte a c + CountByte b c"
  by (simp add: CountByte_def)

lemma CountByte_Nil [simp]: "CountByte [] c = 0"
  by (simp add: CountByte_def)

lemma CountByte_Cons [simp]: "CountByte (x # s) c = (if x = c then 1 else 0) + CountByte s c"
  by (simp add: CountByte_def)

lemma CountByte_le: "CountByte s c \<le> length s"
  by (simp add: CountByte_def)

lemma CountByte_0_iff: "CountByte s c = 0 \<longleftrightarrow> c \<notin> set s"
  by (induction s) auto

lemma LastIndexByte_Some:
  "LastIndexByte s c = Some i \<Longrightarrow> i < length s \<and> s ! i = c \<and> c \<notin> set (drop (Suc i) s)"
proof (induction s arbitrary: i)
  case (Cons x s)
  have none: "LastIndexByte s c = None \<Longrightarrow> c \<notin> set s" for s
    by (induction s) (auto split: option.splits if_splits)
  show ?case using Cons none by (auto split: option.splits if_splits)
qed simp

lemma LastIndexByte_None: "LastIndexByte s c = None \<longleftrightarrow> c \<notin> set s"
  by (induction s) (auto split: option.splits)

lemma ReplaceAll_Cons:
  "ReplaceAll (c # s) (o1 # os) new =
     (if HasPrefix (c # s) (o1 # os) then new @ ReplaceAll (drop (length os) s) (o1 # os) new
      else c # ReplaceAll s (o1 # os) new)"
  by (subst ReplaceAll.simps) simp

lemma Contains_mid: "Contains (a @ p @ b) p"
proof (induction a)
  case Nil
  then show ?case by (cases "p @ b") (auto simp: HasPrefix_def, metis append_eq_conv_conj)
qed simp

lemma ReplaceAll_id: "\<not> Contains s (o1 # os) \<Longrightarrow> ReplaceAll s (o1 # os) new = s"
  by (induction s) (auto simp: ReplaceAll_Cons)

lemma ReplaceAll_byte: "ReplaceAll s [a] [b] = map (\<lambda>c. if c = a then b else c) s"
  by (induction s) (auto simp: ReplaceAll_Cons HasPrefix_def)

lemma ext_rev_suffix: "ext_rev r acc = [] \<or> suffix (ext_rev r acc) (rev r @ acc)"
proof (induction r acc rule: ext_rev.induct)
  case (2 c s acc)
  then show ?case by (auto simp: suffix_def)
qed simp

lemma path_Ext_suffix: "suffix (path_Ext p) p"
  using ext_rev_suffix [of "rev p" "[]"] by (auto simp: path_Ext_def)

lemma ext_rev_hd: "ext_rev r acc \<noteq> [] \<Longrightarrow> hd (ext_rev r acc) = CHR ''.''"
  by (induction r acc rule: ext_rev.induct) (auto split: if_splits)

lemma path_Ext_dot: "path_Ext p \<noteq> [] \<Longrightarrow> hd (path_Ext p) = CHR ''.''"
  by (simp add: path_Ext_def ext_rev_hd)

end
