(* ===== verification/Parser_Domain.thy ===== *)
theory Parser_Domain
  imports Go_Prelude
begin

text \<open>
  The domain types of the parser subsystem
  (\<^verbatim>\<open>src/backend-worker/internal/parser/domain.go\<close>), one record per Go struct with the fields in
  the order of the source. A pointer to a struct is an \<^typ>\<open>'a option\<close> (\<^const>\<open>None\<close> is nil),
  an \<^verbatim>\<open>int32\<close> or \<^verbatim>\<open>int64\<close> field an \<^typ>\<open>int\<close>.
\<close>

record SymbolFlags =
  IsExported :: bool
  IsDefaultExport :: bool
  IsAsync :: bool
  IsGenerator :: bool
  IsStatic :: bool
  IsAbstract :: bool
  IsReadonly :: bool
  IsOptional :: bool
  IsArrowFunction :: bool
  IsReactComponentLike :: bool
  IsHookLike :: bool

record Symbol =
  sym_SymbolID :: string
  sym_Name :: string
  sym_QualifiedName :: string
  sym_Kind :: string
  sym_Signature :: string
  sym_StartLine :: int
  sym_EndLine :: int
  sym_DocText :: string
  sym_SymbolHash :: string
  sym_ParentSymbolID :: string
  sym_Flags :: "SymbolFlags option"
  sym_Modifiers :: "string list"
  sym_ReturnType :: string
  sym_ParameterTypes :: "string list"

record Import =
  imp_SourceSymbolID :: string
  imp_SourceFilePath :: string
  imp_TargetFilePath :: string
  imp_ImportName :: string
  imp_ImportType :: string
  imp_PackageName :: string
  imp_PackageVersion :: string

record Chunk =
  ch_ChunkID :: string
  ch_SymbolID :: string
  ch_ChunkType :: string
  ch_ChunkHash :: string
  ch_Content :: string
  ch_ContextBefore :: string
  ch_ContextAfter :: string
  ch_StartLine :: int
  ch_EndLine :: int
  ch_EstimatedTokens :: int
  ch_OwnerQualifiedName :: string
  ch_OwnerKind :: string
  ch_IsExportedContext :: bool
  ch_SemanticRole :: string

record Issue =
  iss_Code :: string
  iss_Message :: string
  iss_Line :: int
  iss_Column :: int
  iss_Severity :: string

record Export =
  exp_ExportID :: string
  exp_FilePath :: string
  exp_ExportKind :: string
  exp_ExportedName :: string
  exp_LocalName :: string
  exp_SymbolID :: string
  exp_SourceModule :: string
  exp_Line :: int
  exp_Column :: int

record Reference =
  ref_ReferenceID :: string
  ref_SourceFilePath :: string
  ref_SourceSymbolID :: string
  ref_ReferenceKind :: string
  ref_RawText :: string
  ref_TargetName :: string
  ref_QualifiedTargetHint :: string
  ref_StartLine :: int
  ref_StartColumn :: int
  ref_EndLine :: int
  ref_EndColumn :: int
  ref_ResolutionScope :: string
  ref_ResolvedTargetSymbolID :: string
  ref_Confidence :: string

record JsxUsage =
  jsx_UsageID :: string
  jsx_SourceSymbolID :: string
  jsx_ComponentName :: string
  jsx_IsIntrinsic :: bool
  jsx_IsFragment :: bool
  jsx_Line :: int
  jsx_Column :: int
  jsx_ResolvedTargetSymbolID :: string
  jsx_Confidence :: string

record NetworkCall =
  nc_NetworkCallID :: string
  nc_SourceSymbolID :: string
  nc_ClientKind :: string
  nc_Method :: string
  nc_URLLiteral :: string
  nc_URLTemplate :: string
  nc_IsRelative :: bool
  nc_StartLine :: int
  nc_StartColumn :: int
  nc_Confidence :: string

record FileFacts =
  HasJsx :: bool
  HasDefaultExport :: bool
  HasNamedExports :: bool
  HasTopLevelSideEffects :: bool
  HasReactHookCalls :: bool
  HasFetchCalls :: bool
  HasClassDeclarations :: bool
  HasTests :: bool
  HasConfigPatterns :: bool
  JsxRuntime :: string

record ParserMeta =
  ParserVersion :: string
  GrammarVersion :: string
  EnabledExtractors :: "string list"

record ExtractorStatus =
  es_ExtractorName :: string
  es_Status :: string
  es_IssueCount :: int
  es_Message :: string

record ParsedFileResult =
  pf_FilePath :: string
  pf_Language :: string
  pf_FileHash :: string
  pf_SizeBytes :: int
  pf_LineCount :: int
  pf_Symbols :: "Symbol list"
  pf_Imports :: "Import list"
  pf_Chunks :: "Chunk list"
  pf_Issues :: "Issue list"
  pf_Exports :: "Export list"
  pf_References :: "Reference list"
  pf_JsxUsages :: "JsxUsage list"
  pf_NetworkCalls :: "NetworkCall list"
  pf_Facts :: "FileFacts option"
  pf_Metadata :: "ParserMeta option"
  pf_ExtractorStatuses :: "ExtractorStatus list"

text \<open>The zero value of a \<^verbatim>\<open>Chunk\<close>, from which a composite literal that names only some of the
  fields starts.\<close>

definition zero_Chunk :: Chunk where
  "zero_Chunk = \<lparr>ch_ChunkID = [], ch_SymbolID = [], ch_ChunkType = [], ch_ChunkHash = [],
     ch_Content = [], ch_ContextBefore = [], ch_ContextAfter = [], ch_StartLine = 0,
     ch_EndLine = 0, ch_EstimatedTokens = 0, ch_OwnerQualifiedName = [], ch_OwnerKind = [],
     ch_IsExportedContext = False, ch_SemanticRole = []\<rparr>"

definition zero_ParsedFileResult :: ParsedFileResult where
  "zero_ParsedFileResult = \<lparr>pf_FilePath = [], pf_Language = [], pf_FileHash = [], pf_SizeBytes = 0,
     pf_LineCount = 0, pf_Symbols = [], pf_Imports = [], pf_Chunks = [], pf_Issues = [],
     pf_Exports = [], pf_References = [], pf_JsxUsages = [], pf_NetworkCalls = [], pf_Facts = None,
     pf_Metadata = None, pf_ExtractorStatuses = []\<rparr>"

end
