(* ===== verification/Parser_Sort.thy ===== *)
theory Parser_Sort
  imports Parser_Domain "HOL-Library.Multiset"
begin

text \<open>
  The deterministic orderings of extracted artifacts and the import deduplication
  (\<^verbatim>\<open>src/backend-worker/internal/parser/hashing.go\<close>).

  Every \<^verbatim>\<open>Sort*\<close> function of the source calls \<^verbatim>\<open>slices.SortStableFunc\<close> with a three-way
  comparator. The comparators are translated one by one; the library call is a stable insertion
  sort. The locale \<open>three_way\<close> states what such a comparator has to satisfy and proves once what
  every caller relies on: the result is sorted, is a permutation, keeps the order of equal
  elements, and is the only list with these properties, so the choice of the algorithm inside
  \<^verbatim>\<open>SortStableFunc\<close> is immaterial.
\<close>

section \<open>Comparators\<close>

text \<open>\<^verbatim>\<open>cmp.Compare\<close> on an ordered type.\<close>

definition cmp_Compare :: "'a::linorder \<Rightarrow> 'a \<Rightarrow> int" where
  "cmp_Compare x y = (if x < y then -1 else if y < x then 1 else 0)"

fun insert_stable :: "('a \<Rightarrow> 'a \<Rightarrow> int) \<Rightarrow> 'a \<Rightarrow> 'a list \<Rightarrow> 'a list" where
  "insert_stable cmp x [] = [x]"
| "insert_stable cmp x (y # ys) =
     (if cmp x y \<le> 0 then x # y # ys else y # insert_stable cmp x ys)"

fun SortStableFunc :: "('a \<Rightarrow> 'a \<Rightarrow> int) \<Rightarrow> 'a list \<Rightarrow> 'a list" where
  "SortStableFunc cmp [] = []"
| "SortStableFunc cmp (x # xs) = insert_stable cmp x (SortStableFunc cmp xs)"

definition cmp_symbol :: "Symbol \<Rightarrow> Symbol \<Rightarrow> int" where
  "cmp_symbol a b =
     (let c = cmp_Compare (sym_StartLine a) (sym_StartLine b)
      in if c \<noteq> 0 then c else cmp_Compare (sym_Name a) (sym_Name b))"

definition cmp_export :: "Export \<Rightarrow> Export \<Rightarrow> int" where
  "cmp_export a b =
     (let c = cmp_Compare (exp_Line a) (exp_Line b)
      in if c \<noteq> 0 then c else
         let c = cmp_Compare (exp_Column a) (exp_Column b)
         in if c \<noteq> 0 then c else cmp_Compare (exp_ExportedName a) (exp_ExportedName b))"

definition cmp_reference :: "Reference \<Rightarrow> Reference \<Rightarrow> int" where
  "cmp_reference a b =
     (let c = cmp_Compare (ref_StartLine a) (ref_StartLine b)
      in if c \<noteq> 0 then c else
         let c = cmp_Compare (ref_StartColumn a) (ref_StartColumn b)
         in if c \<noteq> 0 then c else
            let c = cmp_Compare (ref_ReferenceKind a) (ref_ReferenceKind b)
            in if c \<noteq> 0 then c else cmp_Compare (ref_TargetName a) (ref_TargetName b))"

definition cmp_jsx :: "JsxUsage \<Rightarrow> JsxUsage \<Rightarrow> int" where
  "cmp_jsx a b =
     (let c = cmp_Compare (jsx_Line a) (jsx_Line b)
      in if c \<noteq> 0 then c else
         let c = cmp_Compare (jsx_Column a) (jsx_Column b)
         in if c \<noteq> 0 then c else cmp_Compare (jsx_ComponentName a) (jsx_ComponentName b))"

definition cmp_network :: "NetworkCall \<Rightarrow> NetworkCall \<Rightarrow> int" where
  "cmp_network a b =
     (let c = cmp_Compare (nc_StartLine a) (nc_StartLine b)
      in if c \<noteq> 0 then c else cmp_Compare (nc_StartColumn a) (nc_StartColumn b))"

definition chunkTypePriority :: "string \<Rightarrow> int" where
  "chunkTypePriority ct =
     (if ct = ''module_context'' then 0
      else if ct = ''class'' then 1
      else if ct = ''function'' then 2
      else 3)"

definition cmp_chunk :: "Chunk \<Rightarrow> Chunk \<Rightarrow> int" where
  "cmp_chunk a b =
     (let c = cmp_Compare (chunkTypePriority (ch_ChunkType a)) (chunkTypePriority (ch_ChunkType b))
      in if c \<noteq> 0 then c else cmp_Compare (ch_StartLine a) (ch_StartLine b))"

definition cmp_issue :: "Issue \<Rightarrow> Issue \<Rightarrow> int" where
  "cmp_issue a b =
     (let c = cmp_Compare (iss_Line a) (iss_Line b)
      in if c \<noteq> 0 then c else
         let c = cmp_Compare (iss_Column a) (iss_Column b)
         in if c \<noteq> 0 then c else cmp_Compare (iss_Code a) (iss_Code b))"

definition SortSymbols :: "Symbol list \<Rightarrow> Symbol list" where
  "SortSymbols s = SortStableFunc cmp_symbol s"

definition SortExports :: "Export list \<Rightarrow> Export list" where
  "SortExports s = SortStableFunc cmp_export s"

definition SortReferences :: "Reference list \<Rightarrow> Reference list" where
  "SortReferences s = SortStableFunc cmp_reference s"

definition SortJsxUsages :: "JsxUsage list \<Rightarrow> JsxUsage list" where
  "SortJsxUsages s = SortStableFunc cmp_jsx s"

definition SortNetworkCalls :: "NetworkCall list \<Rightarrow> NetworkCall list" where
  "SortNetworkCalls s = SortStableFunc cmp_network s"

definition SortChunks :: "Chunk list \<Rightarrow> Chunk list" where
  "SortChunks s = SortStableFunc cmp_chunk s"

definition SortIssues :: "Issue list \<Rightarrow> Issue list" where
  "SortIssues s = SortStableFunc cmp_issue s"

section \<open>Import deduplication\<close>

definition import_key :: "Import \<Rightarrow> string" where
  "import_key imp =
     (let key = imp_TargetFilePath imp;
          key = (if key = [] then imp_ImportName imp else key)
      in imp_ImportType imp @ '':'' @ key)"

fun dedup_loop :: "Import list \<Rightarrow> string set \<Rightarrow> Import list" where
  "dedup_loop [] seen = []"
| "dedup_loop (imp # s) seen =
     (if import_key imp \<in> seen then dedup_loop s seen
      else imp # dedup_loop s (insert (import_key imp) seen))"

definition DeduplicateImports :: "Import list \<Rightarrow> Import list" where
  "DeduplicateImports s = dedup_loop s {}"

section \<open>The contract of a comparator\<close>

locale three_way =
  fixes cmp :: "'a \<Rightarrow> 'a \<Rightarrow> int"
  assumes cmp_flip: "cmp x y \<le> 0 \<longleftrightarrow> 0 \<le> cmp y x"
    and cmp_zero_flip: "cmp x y = 0 \<longleftrightarrow> cmp y x = 0"
    and cmp_trans: "cmp x y \<le> 0 \<Longrightarrow> cmp y z \<le> 0 \<Longrightarrow> cmp x z \<le> 0"
begin

lemma refl0: "cmp x x = 0"
  using cmp_flip [of x x] by linarith

lemma total: "cmp x y \<le> 0 \<or> cmp y x \<le> 0"
  using cmp_flip [of x y] by linarith

lemma zero_iff: "cmp x y = 0 \<longleftrightarrow> cmp x y \<le> 0 \<and> cmp y x \<le> 0"
  using cmp_flip [of x y] cmp_flip [of y x] by linarith

lemma zero_trans: "cmp x y = 0 \<Longrightarrow> cmp y z = 0 \<Longrightarrow> cmp x z = 0"
  by (metis cmp_trans zero_iff)

lemma set_insert_stable: "set (insert_stable cmp x xs) = insert x (set xs)"
  by (induction xs) auto

lemma mset_insert_stable: "mset (insert_stable cmp x xs) = add_mset x (mset xs)"
  by (induction xs) auto

lemma sorted_insert_stable:
  "sorted_wrt (\<lambda>a b. cmp a b \<le> 0) xs \<Longrightarrow> sorted_wrt (\<lambda>a b. cmp a b \<le> 0) (insert_stable cmp x xs)"
proof (induction xs)
  case (Cons y ys)
  then show ?case
    using total [of x y] cmp_trans [of x y] by (auto simp: set_insert_stable)
qed simp

lemma sorted_sort: "sorted_wrt (\<lambda>a b. cmp a b \<le> 0) (SortStableFunc cmp xs)"
  by (induction xs) (auto intro: sorted_insert_stable)

lemma mset_sort: "mset (SortStableFunc cmp xs) = mset xs"
  by (induction xs) (auto simp: mset_insert_stable)

lemma filter_insert_stable:
  "sorted_wrt (\<lambda>a b. cmp a b \<le> 0) xs \<Longrightarrow>
   filter (\<lambda>b. cmp a b = 0) (insert_stable cmp x xs) =
     (if cmp a x = 0 then x # filter (\<lambda>b. cmp a b = 0) xs else filter (\<lambda>b. cmp a b = 0) xs)"
proof (induction xs)
  case (Cons y ys)
  have "\<not> (cmp a x = 0 \<and> cmp a y = 0 \<and> \<not> cmp x y \<le> 0)"
    by (metis cmp_zero_flip zero_trans order_refl)
  with Cons show ?case by auto
qed simp

lemma stable_sort: "filter (\<lambda>b. cmp a b = 0) (SortStableFunc cmp xs) = filter (\<lambda>b. cmp a b = 0) xs"
  by (induction xs) (auto simp: filter_insert_stable sorted_sort)

lemma sorted_stable_unique:
  assumes "sorted_wrt (\<lambda>a b. cmp a b \<le> 0) xs" "sorted_wrt (\<lambda>a b. cmp a b \<le> 0) ys"
    and "\<And>a. filter (\<lambda>b. cmp a b = 0) xs = filter (\<lambda>b. cmp a b = 0) ys"
  shows "xs = ys"
  using assms
proof (induction xs arbitrary: ys)
  case Nil
  have "y \<notin> set ys" for y
    using Nil.prems(3) [of y] refl0 [of y] by (auto simp: filter_empty_conv dest: sym)
  then show ?case by (cases ys) auto
next
  case (Cons x xs)
  have mem: "b \<in> set (x # xs) \<longleftrightarrow> b \<in> set ys" for b
    using arg_cong [OF Cons.prems(3) [of b], of "\<lambda>l. b \<in> set l"] refl0 [of b]
    by (auto split: if_splits)
  obtain y ys' where ys: "ys = y # ys'"
    using mem [of x] by (cases ys) auto
  have "cmp x y \<le> 0"
    using mem [of y] Cons.prems(1) refl0 [of x] by (auto simp: ys)
  moreover have "cmp y x \<le> 0"
    using mem [of x] Cons.prems(2) refl0 [of y] by (auto simp: ys)
  ultimately have "cmp x y = 0" by (simp add: zero_iff)
  then have xy: "x = y"
    using Cons.prems(3) [of x] by (simp add: ys refl0)
  have "filter (\<lambda>b. cmp a b = 0) xs = filter (\<lambda>b. cmp a b = 0) ys'" for a
    using Cons.prems(3) [of a] by (simp add: ys xy split: if_splits)
  with Cons.IH [of ys'] Cons.prems(1,2) show ?case
    by (simp add: ys xy)
qed

lemma sort_unique:
  assumes "sorted_wrt (\<lambda>a b. cmp a b \<le> 0) ys"
    and "\<And>a. filter (\<lambda>b. cmp a b = 0) ys = filter (\<lambda>b. cmp a b = 0) xs"
  shows "ys = SortStableFunc cmp xs"
  using assms(1) sorted_sort [of xs]
  by (rule sorted_stable_unique) (simp add: assms(2) stable_sort)

lemma sort_idem: "SortStableFunc cmp (SortStableFunc cmp xs) = SortStableFunc cmp xs"
  by (rule sort_unique [symmetric]) (simp_all add: sorted_sort)

end

text \<open>A comparator that compares a first key and, where it is equal, falls through to the next
  comparator keeps the contract: this is the shape of every comparator of the file.\<close>

lemma three_way_then:
  fixes k :: "'a \<Rightarrow> 'b::linorder"
  assumes "three_way c"
  shows "three_way (\<lambda>a b. let d = cmp_Compare (k a) (k b) in if d \<noteq> 0 then d else c a b)"
proof -
  note flip = three_way.cmp_flip [OF assms] and zero = three_way.cmp_zero_flip [OF assms]
  show ?thesis
  proof unfold_locales
    fix x y z
    show "(let d = cmp_Compare (k x) (k y) in if d \<noteq> 0 then d else c x y) \<le> 0 \<longleftrightarrow>
          0 \<le> (let d = cmp_Compare (k y) (k x) in if d \<noteq> 0 then d else c y x)"
      by (auto simp: cmp_Compare_def Let_def flip)
    show "(let d = cmp_Compare (k x) (k y) in if d \<noteq> 0 then d else c x y) = 0 \<longleftrightarrow>
          (let d = cmp_Compare (k y) (k x) in if d \<noteq> 0 then d else c y x) = 0"
      by (auto simp: cmp_Compare_def Let_def zero)
    show "(let d = cmp_Compare (k x) (k y) in if d \<noteq> 0 then d else c x y) \<le> 0 \<Longrightarrow>
          (let d = cmp_Compare (k y) (k z) in if d \<noteq> 0 then d else c y z) \<le> 0 \<Longrightarrow>
          (let d = cmp_Compare (k x) (k z) in if d \<noteq> 0 then d else c x z) \<le> 0"
      by (auto simp: cmp_Compare_def Let_def split: if_splits
          intro: three_way.cmp_trans [OF assms])
  qed
qed

lemma three_way_key: "three_way (\<lambda>a b. cmp_Compare (k a :: 'b::linorder) (k b))"
  by unfold_locales (auto simp: cmp_Compare_def split: if_splits)

lemmas three_way_rules = three_way_then [unfolded Let_def] three_way_key

interpretation symbols: three_way cmp_symbol
  unfolding cmp_symbol_def Let_def by (intro three_way_rules)

interpretation exports: three_way cmp_export
  unfolding cmp_export_def Let_def by (intro three_way_rules)

interpretation references: three_way cmp_reference
  unfolding cmp_reference_def Let_def by (intro three_way_rules)

interpretation jsx_usages: three_way cmp_jsx
  unfolding cmp_jsx_def Let_def by (intro three_way_rules)

interpretation network_calls: three_way cmp_network
  unfolding cmp_network_def Let_def by (intro three_way_rules)

interpretation chunks: three_way cmp_chunk
  unfolding cmp_chunk_def Let_def by (intro three_way_rules)

interpretation issues: three_way cmp_issue
  unfolding cmp_issue_def Let_def by (intro three_way_rules)

section \<open>Properties of the sorts\<close>

text \<open>Equal chunks for \<open>cmp_chunk\<close> have the same type priority and start line.\<close>

lemma cmp_chunk_le:
  "cmp_chunk a b \<le> 0 \<longleftrightarrow>
     chunkTypePriority (ch_ChunkType a) < chunkTypePriority (ch_ChunkType b) \<or>
     chunkTypePriority (ch_ChunkType a) = chunkTypePriority (ch_ChunkType b) \<and>
       ch_StartLine a \<le> ch_StartLine b"
  by (auto simp: cmp_chunk_def cmp_Compare_def Let_def)

lemma cmp_chunk_zero:
  "cmp_chunk a b = 0 \<longleftrightarrow>
     chunkTypePriority (ch_ChunkType a) = chunkTypePriority (ch_ChunkType b) \<and>
     ch_StartLine a = ch_StartLine b"
  by (auto simp: cmp_chunk_def cmp_Compare_def Let_def)

text \<open>The chunk order is canonical. A list is the result of \<open>SortChunks xs\<close> exactly when it is
  ordered by type priority (module context, class, function, others) and then by start line, and
  holds the chunks of each (priority, line) class of \<open>xs\<close> in their original order.\<close>

theorem SortChunks_canonical:
  "ys = SortChunks xs \<longleftrightarrow>
     sorted_wrt (\<lambda>a b.
       chunkTypePriority (ch_ChunkType a) < chunkTypePriority (ch_ChunkType b) \<or>
       chunkTypePriority (ch_ChunkType a) = chunkTypePriority (ch_ChunkType b) \<and>
         ch_StartLine a \<le> ch_StartLine b) ys \<and>
     (\<forall>a::Chunk. filter (\<lambda>b. chunkTypePriority (ch_ChunkType a) = chunkTypePriority (ch_ChunkType b) \<and>
                     ch_StartLine a = ch_StartLine b) ys =
          filter (\<lambda>b. chunkTypePriority (ch_ChunkType a) = chunkTypePriority (ch_ChunkType b) \<and>
                     ch_StartLine a = ch_StartLine b) xs)"
proof -
  have eq: "(\<lambda>b. chunkTypePriority (ch_ChunkType a) = chunkTypePriority (ch_ChunkType b) \<and>
    ch_StartLine a = ch_StartLine b) = (\<lambda>b. cmp_chunk a b = 0)" for a :: Chunk
    by (simp add: cmp_chunk_zero)
  show ?thesis
    unfolding SortChunks_def cmp_chunk_le [symmetric] eq
    using chunks.sort_unique [of ys xs] chunks.sorted_sort [of xs] chunks.stable_sort [of _ xs]
    by blast
qed

text \<open>The same holds of the other sorts; here the permutation and idempotence of each.\<close>

lemma sorts_permute:
  "mset (SortSymbols a) = mset a" "mset (SortExports b) = mset b"
  "mset (SortReferences c) = mset c" "mset (SortJsxUsages d) = mset d"
  "mset (SortNetworkCalls e) = mset e" "mset (SortChunks f) = mset f"
  "mset (SortIssues g) = mset g"
  by (simp_all add: SortSymbols_def SortExports_def SortReferences_def SortJsxUsages_def
      SortNetworkCalls_def SortChunks_def SortIssues_def symbols.mset_sort exports.mset_sort
      references.mset_sort jsx_usages.mset_sort network_calls.mset_sort chunks.mset_sort
      issues.mset_sort)

lemma sorts_idem:
  "SortSymbols (SortSymbols a) = SortSymbols a" "SortExports (SortExports b) = SortExports b"
  "SortReferences (SortReferences c) = SortReferences c"
  "SortJsxUsages (SortJsxUsages d) = SortJsxUsages d"
  "SortNetworkCalls (SortNetworkCalls e) = SortNetworkCalls e"
  "SortIssues (SortIssues g) = SortIssues g"
  by (simp_all add: SortSymbols_def SortExports_def SortReferences_def SortJsxUsages_def
      SortNetworkCalls_def SortIssues_def symbols.sort_idem exports.sort_idem
      references.sort_idem jsx_usages.sort_idem network_calls.sort_idem issues.sort_idem)

section \<open>Properties of the deduplication\<close>

lemma dedup_loop_eq:
  "dedup_loop s seen =
     map ((!) s) (filter (\<lambda>i. import_key (s ! i) \<notin> seen \<union> import_key ` set (take i s)) [0..<length s])"
proof (induction s arbitrary: seen)
  case (Cons x s)
  have up: "[0..<length (x # s)] = 0 # map Suc [0..<length s]"
    by (simp add: map_Suc_upt upt_conv_Cons del: upt_Suc)
  show ?case
    unfolding up by (auto simp: Cons.IH filter_map o_def intro!: arg_cong [where f = "map ((!) s)"] filter_cong)
qed simp

text \<open>Deduplication keeps exactly the first import of every key, in order, where the key is
  the import type with the resolved target path or, when there is none, the import name.\<close>

theorem DeduplicateImports_first_occurrences:
  "DeduplicateImports s =
     map ((!) s) (filter (\<lambda>i. import_key (s ! i) \<notin> import_key ` set (take i s)) [0..<length s])"
  by (simp add: DeduplicateImports_def dedup_loop_eq)

lemma dedup_loop_keys:
  "set (map import_key (dedup_loop s seen)) = import_key ` set s - seen \<and>
   distinct (map import_key (dedup_loop s seen))"
  by (induction s arbitrary: seen) (auto simp: set_eq_iff image_iff)

lemma DeduplicateImports_keys:
  "import_key ` set (DeduplicateImports s) = import_key ` set s"
  "distinct (map import_key (DeduplicateImports s))"
  using dedup_loop_keys [of s "{}"] by (simp_all add: DeduplicateImports_def)

lemma dedup_loop_id:
  "distinct (map import_key s) \<Longrightarrow> import_key ` set s \<inter> seen = {} \<Longrightarrow> dedup_loop s seen = s"
  by (induction s arbitrary: seen) auto

lemma DeduplicateImports_idem:
  "DeduplicateImports (DeduplicateImports s) = DeduplicateImports s"
  using dedup_loop_id [OF DeduplicateImports_keys(2) [of s], of "{}"] by (simp add: DeduplicateImports_def)

end
