(* ===== verification/Parser_Text.thy ===== *)
theory Parser_Text
  imports Parser_Domain
begin

text \<open>
  Newline normalisation, line extraction and line counting
  (\<^verbatim>\<open>src/backend-worker/internal/parser/normalize.go\<close>) and the grouping of files into parse
  batches (\<^verbatim>\<open>src/backend-worker/internal/parser/batch.go\<close>).
\<close>

section \<open>Definitions\<close>

abbreviation CR :: char where "CR \<equiv> CHR 0x0D"
abbreviation LF :: char where "LF \<equiv> CHR 0x0A"

definition BOM :: string where
  "BOM = [CHR 0xEF, CHR 0xBB, CHR 0xBF]"

definition NormalizeNewlines :: "string \<Rightarrow> string" where
  "NormalizeNewlines content =
     (let content = TrimPrefix content BOM;
          content = ReplaceAll content [CR, LF] [LF];
          content = ReplaceAll content [CR] [LF]
      in content)"

text \<open>A Go slice expression \<^verbatim>\<open>xs[lo:hi]\<close>; \<^const>\<open>None\<close> is the run-time panic.\<close>

definition go_slice :: "'a list \<Rightarrow> int \<Rightarrow> int \<Rightarrow> 'a list option" where
  "go_slice xs lo hi =
     (if 0 \<le> lo \<and> lo \<le> hi \<and> hi \<le> int (length xs)
      then Some (take (nat hi - nat lo) (drop (nat lo) xs)) else None)"

text \<open>The lines of \<^verbatim>\<open>LineRangeText\<close>: split at newlines, without a trailing empty element.\<close>

definition text_lines :: "string \<Rightarrow> string list" where
  "text_lines content =
     (let lines = Split content LF
      in if length lines > 0 \<and> last lines = [] then butlast lines else lines)"

definition LineRangeText :: "string \<Rightarrow> int \<Rightarrow> int \<Rightarrow> string option" where
  "LineRangeText content startLine endLine =
     (if content = [] then Some []
      else let lines = text_lines content in
        if length lines = 0 then Some []
        else let startLine = (if startLine < 1 then 1 else startLine);
                 endLine = (if endLine > int (length lines) then int (length lines) else endLine)
             in if startLine > endLine then Some []
                else map_option (\<lambda>ls. Join ls [LF]) (go_slice lines (startLine - 1) endLine))"

definition CountLines :: "string \<Rightarrow> int" where
  "CountLines content =
     (if content = [] then 0
      else let n = i32 (int (CountByte content LF))
           in if HasSuffix content [LF] then n else i32 (n + 1))"

definition MaxFilesPerBatch :: nat where
  "MaxFilesPerBatch = 50"

definition MaxBytesPerBatch :: nat where
  "MaxBytesPerBatch = 5 * 1024 * 1024"

record FileInput =
  fi_FilePath :: string
  fi_Content :: string
  fi_Language :: string

text \<open>The loop of \<^verbatim>\<open>BatchFileInputs\<close>, with its three variables as arguments.\<close>

fun batch_loop :: "FileInput list \<Rightarrow> FileInput list list \<Rightarrow> FileInput list \<Rightarrow> nat \<Rightarrow> FileInput list list" where
  "batch_loop [] batches current currentBytes =
     (if length current > 0 then batches @ [current] else batches)"
| "batch_loop (f # files) batches current currentBytes =
     (let contentSize = length (fi_Content f) in
      if length current > 0 \<and>
         (length current \<ge> MaxFilesPerBatch \<or> currentBytes + contentSize > MaxBytesPerBatch)
      then batch_loop files (batches @ [current]) [f] contentSize
      else batch_loop files batches (current @ [f]) (currentBytes + contentSize))"

definition BatchFileInputs :: "FileInput list \<Rightarrow> FileInput list list" where
  "BatchFileInputs files = (if length files = 0 then [] else batch_loop files [] [] 0)"

definition batch_bytes :: "FileInput list \<Rightarrow> nat" where
  "batch_bytes fs = sum_list (map (\<lambda>f. length (fi_Content f)) fs)"

section \<open>Newlines\<close>

text \<open>The reference: one pass that reads a line terminator (CR LF, CR or LF) as one newline.\<close>

fun normalize_ref :: "string \<Rightarrow> string" where
  "normalize_ref [] = []"
| "normalize_ref (c # s) =
     (if c = CR then (case s of d # s' \<Rightarrow> if d = LF then normalize_ref s else LF # normalize_ref s
                      | [] \<Rightarrow> [LF])
      else c # normalize_ref s)"

lemma two_passes_eq: "ReplaceAll (ReplaceAll s [CR, LF] [LF]) [CR] [LF] = normalize_ref s"
proof (induction s rule: normalize_ref.induct)
  case (2 c s)
  show ?case
  proof (cases "c = CR")
    case True
    show ?thesis
    proof (cases s)
      case (Cons d s')
      show ?thesis
        using True Cons 2 by (auto simp: ReplaceAll_byte ReplaceAll_Cons HasPrefix_def split: if_splits)
    qed (use True in \<open>simp add: ReplaceAll_byte ReplaceAll_Cons HasPrefix_def\<close>)
  next
    case False
    then show ?thesis
      using 2(3) by (simp add: ReplaceAll_byte ReplaceAll_Cons HasPrefix_def)
  qed
qed simp

text \<open>The two replacement passes are the one-pass reading of line terminators, after the byte
  order mark is stripped.\<close>

theorem NormalizeNewlines_one_pass:
  "NormalizeNewlines content = normalize_ref (TrimPrefix content BOM)"
  by (simp add: NormalizeNewlines_def two_passes_eq)

lemma NormalizeNewlines_no_CR: "CR \<notin> set (NormalizeNewlines content)"
  by (auto simp: NormalizeNewlines_def ReplaceAll_byte)

section \<open>Lines\<close>

lemma last_Split_Nil: "last (Split s c) = [] \<longleftrightarrow> s = [] \<or> last s = c"
proof (induction s)
  case (Cons x s)
  obtain p ps where ps: "Split s c = p # ps" using Split_not_Nil by (metis list.exhaust)
  have "ps = [] \<longleftrightarrow> c \<notin> set s"
    using length_Split [of s c] CountByte_0_iff [of s c] by (auto simp: ps)
  then show ?case using Cons.IH by (cases "s = []") (auto simp: ps dest: last_in_set)
qed simp

lemma HasSuffix_byte: "HasSuffix s [c] \<longleftrightarrow> s \<noteq> [] \<and> last s = c"
  by (cases s rule: rev_cases) (auto simp: HasSuffix_def)

lemma length_text_lines:
  "length (text_lines s) = (if s = [] then 0 else CountByte s LF + (if last s = LF then 0 else 1))"
  by (auto simp: text_lines_def Let_def length_Split last_Split_Nil)


text \<open>The line count is the number of lines of the text, for every text, up to the wrap-around
  of \<^verbatim>\<open>int32\<close>.\<close>

theorem CountLines_eq_lines: "CountLines content = i32 (int (length (text_lines content)))"
  by (auto simp: CountLines_def length_text_lines HasSuffix_byte i32_wrap_add Let_def)

lemma text_lines_nonempty: "content \<noteq> [] \<Longrightarrow> text_lines content \<noteq> []"
  by (cases content rule: rev_cases) (auto simp: length_text_lines simp flip: length_greater_0_conv)

lemma Join_text_lines:
  "content \<noteq> [] \<Longrightarrow> Join (text_lines content) [LF] @ (if last content = LF then [LF] else []) = content"
proof -
  assume ne: "content \<noteq> []"
  have J: "Join (Split content LF) [LF] = content" by (rule Join_Split)
  show ?thesis
  proof (cases "last content = LF")
    case True
    obtain ls where ls: "Split content LF = ls @ [[]]"
      by (metis True append_butlast_last_id last_Split_Nil Split_not_Nil)
    moreover have "ls \<noteq> []" using text_lines_nonempty [OF ne] ls by (auto simp: text_lines_def)
    ultimately show ?thesis using True J by (simp add: text_lines_def Join_snoc)
  qed (use ne J in \<open>simp add: text_lines_def last_Split_Nil Let_def\<close>)
qed

text \<open>\<open>LineRangeText\<close> never panics: for every request the slice is within bounds, and it
  returns the lines from \<open>max 1 startLine\<close> to \<open>min (number of lines) endLine\<close>, joined by
  newlines.\<close>

theorem LineRangeText_clamped:
  "LineRangeText content startLine endLine =
     Some (Join (take (nat (min endLine (int (length (text_lines content)))) - nat (max 1 startLine - 1))
                  (drop (nat (max 1 startLine - 1)) (text_lines content))) [LF])"
proof -
  have *: "text_lines [] = []" by (simp add: text_lines_def)
  show ?thesis
    by (auto simp: LineRangeText_def go_slice_def Let_def max_def min_def *)
qed

section \<open>Batches\<close>

text \<open>What every batch satisfies.\<close>

definition batch_ok :: "FileInput list \<Rightarrow> bool" where
  "batch_ok b = (b \<noteq> [] \<and> length b \<le> MaxFilesPerBatch \<and>
     (batch_bytes b \<le> MaxBytesPerBatch \<or> length b = 1))"

text \<open>The flush is forced: the first file of a batch did not fit into the batch before it.\<close>

fun batches_forced :: "FileInput list list \<Rightarrow> bool" where
  "batches_forced (b # b' # bs) =
     ((length b = MaxFilesPerBatch \<or> batch_bytes b + length (fi_Content (hd b')) > MaxBytesPerBatch) \<and>
      batches_forced (b' # bs))"
| "batches_forced _ = True"

lemma batch_bytes_simps [simp]:
  "batch_bytes [] = 0" "batch_bytes (f # fs) = length (fi_Content f) + batch_bytes fs"
  "batch_bytes (fs @ gs) = batch_bytes fs + batch_bytes gs"
  by (simp_all add: batch_bytes_def)

lemma concat_batch_loop: "concat (batch_loop files batches current n) = concat batches @ current @ files"
  by (induction files batches current n rule: batch_loop.induct) (auto simp: Let_def)

lemma batch_loop_ok:
  "list_all batch_ok batches \<Longrightarrow> current = [] \<or> batch_ok current \<Longrightarrow> n = batch_bytes current \<Longrightarrow>
   list_all batch_ok (batch_loop files batches current n)"
  by (induction files batches current n rule: batch_loop.induct)
     (auto simp: batch_ok_def Let_def MaxFilesPerBatch_def)

lemma batches_forced_snoc:
  "bs \<noteq> [] \<Longrightarrow> batches_forced (bs @ [b]) \<longleftrightarrow> batches_forced bs \<and>
     (length (last bs) = MaxFilesPerBatch \<or>
      batch_bytes (last bs) + length (fi_Content (hd b)) > MaxBytesPerBatch)"
  by (induction bs rule: batches_forced.induct) auto

lemma batches_forced_extend:
  "batches_forced (bs @ [c]) \<Longrightarrow> c \<noteq> [] \<Longrightarrow> batches_forced (bs @ [c @ [f]])"
  by (induction bs rule: batches_forced.induct) auto

lemma batch_ok_single: "batch_ok [f]"
  by (simp add: batch_ok_def MaxFilesPerBatch_def)

lemma batch_loop_forced:
  "batches_forced (batches @ [current]) \<Longrightarrow> current \<noteq> [] \<Longrightarrow> length current \<le> MaxFilesPerBatch \<Longrightarrow>
   n = batch_bytes current \<Longrightarrow> batches_forced (batch_loop files batches current n)"
proof (induction files batches current n rule: batch_loop.induct)
  case (2 f files batches current n)
  show ?case
  proof (cases "length current \<ge> MaxFilesPerBatch \<or> n + length (fi_Content f) > MaxBytesPerBatch")
    case True
    have "batches_forced ((batches @ [current]) @ [[f]])"
      unfolding batches_forced_snoc [OF snoc_eq_iff_butlast [THEN iffD1, THEN conjunct1, OF refl]]
      using 2 True by (auto simp: MaxFilesPerBatch_def)
    with 2 True show ?thesis by (auto simp: Let_def MaxFilesPerBatch_def)
  next
    case False
    have "batches_forced (batches @ [current @ [f]])"
      using "2.prems"(1,2) by (rule batches_forced_extend)
    with 2 False show ?thesis by (auto simp: Let_def)
  qed
qed auto

text \<open>Batching loses, duplicates and reorders nothing, every batch is non-empty and within both
  limits unless it is one oversized file, and no batch was closed early.\<close>

theorem BatchFileInputs_correct:
  "concat (BatchFileInputs files) = files \<and> list_all batch_ok (BatchFileInputs files) \<and>
   batches_forced (BatchFileInputs files)"
proof (cases files)
  case (Cons f fs)
  have "batches_forced (batch_loop fs [] [f] (length (fi_Content f)))"
    by (rule batch_loop_forced) (simp_all add: MaxFilesPerBatch_def)
  with Cons show ?thesis
    by (simp add: BatchFileInputs_def concat_batch_loop batch_loop_ok batch_ok_single)
qed (simp add: BatchFileInputs_def)

end
