(* ===== verification/Go_Bytes.thy ===== *)
theory Go_Bytes
  imports Go_Prelude
begin

text \<open>
  Byte-level library functions: UTF-8 validity (\<^verbatim>\<open>unicode/utf8\<close>), SHA-256
  (\<^verbatim>\<open>crypto/sha256\<close>, FIPS 180-4) and lowercase hex (\<^verbatim>\<open>encoding/hex\<close>).
\<close>

unbundle bit_operations_syntax

section \<open>UTF-8\<close>

definition byte :: "char \<Rightarrow> nat" where
  "byte c = of_char c"

definition RuneStart :: "char \<Rightarrow> bool" where
  "RuneStart c = (\<not> (128 \<le> byte c \<and> byte c < 192))"

definition cont :: "char \<Rightarrow> bool" where
  "cont c = (\<not> RuneStart c)"

definition in_range :: "nat \<Rightarrow> nat \<Rightarrow> char \<Rightarrow> bool" where
  "in_range lo hi c = (lo \<le> byte c \<and> byte c \<le> hi)"

text \<open>The length of the well-formed UTF-8 sequence at the head of the text; 0 if there is none.
  The ranges of the second byte are those of \<^verbatim>\<open>utf8.acceptRanges\<close>.\<close>

definition second_range :: "nat \<Rightarrow> nat \<times> nat" where
  "second_range b =
     (if b = 224 then (160, 191) else if b = 237 then (128, 159)
      else if b = 240 then (144, 191) else if b = 244 then (128, 143) else (128, 191))"

definition seq_len :: "nat \<Rightarrow> nat" where
  "seq_len b =
     (if b < 128 then 1 else if b < 194 then 0 else if b < 224 then 2
      else if b < 240 then 3 else if b < 245 then 4 else 0)"

definition rune_len :: "string \<Rightarrow> nat" where
  "rune_len s =
     (case s of [] \<Rightarrow> 0
      | c # r \<Rightarrow>
          (let n = seq_len (byte c)
           in if n \<le> 1 then n
              else if length r < n - 1 then 0
              else if \<not> in_range (fst (second_range (byte c))) (snd (second_range (byte c))) (hd r) then 0
              else if \<not> list_all cont (take (n - 2) (tl r)) then 0
              else n))"

function utf8_Valid :: "string \<Rightarrow> bool" where
  "utf8_Valid s =
     (if s = [] then True else if rune_len s = 0 then False else utf8_Valid (drop (rune_len s) s))"
  by pat_completeness auto
termination
  by (relation "measure length") auto

declare utf8_Valid.simps [simp del]

section \<open>SHA-256\<close>

type_synonym w32 = "32 word"

definition rotr :: "nat \<Rightarrow> w32 \<Rightarrow> w32" where
  "rotr n x = (drop_bit n x OR push_bit (32 - n) x)"

text \<open>The constants are the first 32 bits of the fractional parts of the cube roots (\<open>sha_K\<close>) and
  square roots (\<open>sha_H0\<close>) of the first primes; \<open>root_bits k n b 0\<close> is the integer part of the \<open>k\<close>-th
  root of \<open>n\<close>, found bit by bit from \<open>2 ^ b\<close> down.\<close>

fun root_bits :: "nat \<Rightarrow> nat \<Rightarrow> nat \<Rightarrow> nat \<Rightarrow> nat" where
  "root_bits k n 0 r = r"
| "root_bits k n (Suc b) r = root_bits k n b (if (r + 2 ^ b) ^ k \<le> n then r + 2 ^ b else r)"

definition first_primes :: "nat list" where
  "first_primes = filter (\<lambda>n. \<forall>d \<in> set [2..<n]. n mod d \<noteq> 0) [2..<312]"

definition sha_K :: "w32 list" where
  "sha_K = map (\<lambda>p. of_nat (root_bits 3 (p * 2 ^ 96) 36 0)) first_primes"

definition sha_H0 :: "w32 list" where
  "sha_H0 = map (\<lambda>p. of_nat (root_bits 2 (p * 2 ^ 64) 38 0)) (take 8 first_primes)"

definition be_word :: "string \<Rightarrow> w32" where
  "be_word bs = foldl (\<lambda>w c. push_bit 8 w OR of_nat (byte c)) 0 bs"

definition be_bytes :: "nat \<Rightarrow> nat \<Rightarrow> string" where
  "be_bytes n v = map (\<lambda>i. char_of (v div 256 ^ (n - 1 - i) mod 256)) [0..<n]"

fun groups :: "nat \<Rightarrow> nat \<Rightarrow> 'a list \<Rightarrow> 'a list list" where
  "groups 0 k xs = []"
| "groups (Suc m) k xs = take k xs # groups m k (drop k xs)"

definition sha_pad :: "string \<Rightarrow> string" where
  "sha_pad s =
     (let z = (119 - length s mod 64) mod 64
      in s @ [CHR 0x80] @ replicate z (CHR 0x00) @ be_bytes 8 ((8 * length s) mod 2 ^ 64))"

text \<open>The message schedule, newest word first.\<close>

fun sha_schedule :: "nat \<Rightarrow> w32 list \<Rightarrow> w32 list" where
  "sha_schedule 0 ws = ws"
| "sha_schedule (Suc n) ws =
     (let w15 = ws ! 14; w2 = ws ! 1;
          s0 = rotr 7 w15 XOR rotr 18 w15 XOR drop_bit 3 w15;
          s1 = rotr 17 w2 XOR rotr 19 w2 XOR drop_bit 10 w2
      in sha_schedule n ((ws ! 15 + s0 + ws ! 6 + s1) # ws))"

definition sha_round :: "w32 list \<Rightarrow> w32 \<times> w32 \<Rightarrow> w32 list" where
  "sha_round st kw =
     (let a = st ! 0; b = st ! 1; c = st ! 2; d = st ! 3; e = st ! 4; f = st ! 5; g = st ! 6; h = st ! 7;
          t1 = h + (rotr 6 e XOR rotr 11 e XOR rotr 25 e) + ((e AND f) XOR (NOT e AND g)) + fst kw + snd kw;
          t2 = (rotr 2 a XOR rotr 13 a XOR rotr 22 a) + ((a AND b) XOR (a AND c) XOR (b AND c))
      in [t1 + t2, a, b, c, d + t1, e, f, g])"

definition sha_block :: "w32 list \<Rightarrow> string \<Rightarrow> w32 list" where
  "sha_block st blk =
     (let ws = rev (sha_schedule 48 (rev (map be_word (groups 16 4 blk))))
      in map2 (+) st (foldl sha_round st (zip sha_K ws)))"

definition Sum256 :: "string \<Rightarrow> string" where
  "Sum256 s =
     (let p = sha_pad s
      in concat (map (\<lambda>w. be_bytes 4 (unat w)) (foldl sha_block sha_H0 (groups (length p div 64) 64 p))))"

definition hex_digit :: "nat \<Rightarrow> char" where
  "hex_digit n = (if n < 10 then char_of (48 + n) else char_of (87 + n))"

definition EncodeToString :: "string \<Rightarrow> string" where
  "EncodeToString bs = concat (map (\<lambda>c. [hex_digit (byte c div 16), hex_digit (byte c mod 16)]) bs)"

text \<open>\<^verbatim>\<open>hex.EncodeToString(sha256.Sum256(s))\<close>: \<^verbatim>\<open>StableHashBytes\<close> of
  \<^verbatim>\<open>parser/hashing.go\<close> and \<^verbatim>\<open>sha256Hex\<close> of \<^verbatim>\<open>artifact/writer.go\<close>.\<close>

definition StableHashBytes :: "string \<Rightarrow> string" where
  "StableHashBytes content = EncodeToString (Sum256 content)"

section \<open>Rune boundaries\<close>

lemma seq_len_ge2: "2 \<le> seq_len b \<Longrightarrow> 194 \<le> b \<and> b < 245"
  by (auto simp: seq_len_def split: if_splits)

lemma seq_len_le: "seq_len b \<le> 4"
  by (simp add: seq_len_def)

lemma rune_len_bounds: "rune_len s \<le> 4" "rune_len s \<le> length s"
  using seq_len_le by (auto simp: rune_len_def Let_def split: list.splits)

lemma second_range_cont:
  "in_range (fst (second_range b)) (snd (second_range b)) c \<Longrightarrow> cont c"
  by (auto simp: in_range_def second_range_def cont_def RuneStart_def split: if_splits)

lemma rune_len_cont:
  assumes "0 < k" "k < rune_len s"
  shows "cont (s ! k)"
proof -
  from assms obtain c d r where s: "s = c # d # r"
    by (cases s; cases "tl s") (auto simp: rune_len_def Let_def split: if_splits)
  let ?n = "seq_len (byte c)"
  have n: "rune_len s = ?n" "cont d" "list_all cont (take (?n - 2) r)" "?n - 2 \<le> length r"
    using assms second_range_cont by (auto simp: rune_len_def s Let_def split: if_splits)
  show ?thesis
  proof (cases "k = 1")
    case False
    then obtain j where k: "k = Suc (Suc j)" using assms(1) by (metis One_nat_def less_numeral_extra(3) not0_implies_Suc)
    then have "j < ?n - 2" using assms(2) n(1) by simp
    then have "cont (take (?n - 2) r ! j)" using n(3,4) by (simp add: list_all_length)
    with \<open>j < ?n - 2\<close> show ?thesis by (simp add: s k)
  qed (use n in \<open>simp add: s\<close>)
qed

lemma rune_len_start: "0 < rune_len s \<Longrightarrow> RuneStart (s ! 0)"
  by (auto simp: rune_len_def RuneStart_def seq_len_def Let_def split: list.splits if_splits)

lemma rune_len_ascii: "byte c < 128 \<Longrightarrow> rune_len (c # r) = 1"
  by (simp add: rune_len_def seq_len_def)

text \<open>What a positive \<open>rune_len\<close> says of a multi-byte head.\<close>

lemma rune_len_pos:
  "0 < rune_len (c # r) \<longleftrightarrow>
     seq_len (byte c) = 1 \<or>
     (2 \<le> seq_len (byte c) \<and> seq_len (byte c) - 1 \<le> length r \<and>
      in_range (fst (second_range (byte c))) (snd (second_range (byte c))) (hd r) \<and>
      list_all cont (take (seq_len (byte c) - 2) (tl r)))"
  by (simp add: rune_len_def Let_def) linarith

lemma rune_len_val: "0 < rune_len (c # r) \<Longrightarrow> rune_len (c # r) = seq_len (byte c)"
  by (auto simp: rune_len_def Let_def split: if_splits)

lemma rune_len_take:
  assumes i: "rune_len s \<le> i" and pos: "0 < rune_len s"
  shows "rune_len (take i s) = rune_len s"
proof -
  obtain c r where s: "s = c # r" using pos by (cases s) (auto simp: rune_len_def)
  obtain j where j: "i = Suc j" using i pos by (cases i) auto
  let ?n = "seq_len (byte c)"
  have n: "rune_len (c # r) = ?n" using rune_len_val pos s by blast
  have "0 < rune_len (c # take j r)"
  proof (cases "?n = 1")
    case False
    then have m: "2 \<le> ?n" "?n - 1 \<le> length r"
      "in_range (fst (second_range (byte c))) (snd (second_range (byte c))) (hd r)"
      "list_all cont (take (?n - 2) (tl r))"
      using pos by (auto simp: s rune_len_pos)
    have "?n - 1 \<le> j" using i n by (simp add: s j)
    moreover have "hd (take j r) = hd r" using m \<open>?n - 1 \<le> j\<close> by (intro hd_take) simp
    moreover have "take (?n - 2) (tl (take j r)) = take (?n - 2) (tl r)"
      using \<open>?n - 1 \<le> j\<close> by (cases j; cases r) (auto simp: min_def)
    ultimately show ?thesis using m unfolding rune_len_pos by simp
  qed (simp add: rune_len_pos)
  then show ?thesis using rune_len_val [of c "take j r"] n by (simp add: s j)
qed

lemma utf8_Valid_Nil [simp]: "utf8_Valid []"
  by (simp add: utf8_Valid.simps)

lemma utf8_Valid_step:
  "s \<noteq> [] \<Longrightarrow> utf8_Valid s \<longleftrightarrow> 0 < rune_len s \<and> utf8_Valid (drop (rune_len s) s)"
  by (subst utf8_Valid.simps) simp

text \<open>A position of a valid text is a boundary if a rune starts there; cutting there gives two
  valid texts.\<close>

lemma utf8_cut:
  "utf8_Valid s \<Longrightarrow> i < length s \<Longrightarrow> RuneStart (s ! i) \<Longrightarrow> utf8_Valid (take i s) \<and> utf8_Valid (drop i s)"
proof (induction s arbitrary: i rule: utf8_Valid.induct)
  case (1 s)
  let ?n = "rune_len s"
  have ne: "s \<noteq> []" using "1.prems" by auto
  have n: "0 < ?n" "utf8_Valid (drop ?n s)" "s \<noteq> []"
    using "1.prems"(1) utf8_Valid_step [OF ne] ne by auto
  show ?case
  proof (cases "i = 0")
    case False
    have "\<not> i < ?n" using rune_len_cont [of i s] False "1.prems"(3) by (auto simp: cont_def)
    then obtain j where j: "i = ?n + j" using le_Suc_ex by (metis not_less)
    have IH: "utf8_Valid (take j (drop ?n s))" "utf8_Valid (drop j (drop ?n s))"
      using "1.IH" [of j] n "1.prems" j by auto
    have "take i s \<noteq> []" using False n(3) by simp
    moreover have "drop ?n (take i s) = take j (drop ?n s)" by (simp add: j drop_take)
    ultimately have "utf8_Valid (take i s)"
      using utf8_Valid_step [of "take i s"] rune_len_take [of s i] n(1) IH(1) j by simp
    with IH(2) show ?thesis by (simp add: j add.commute)
  qed (use "1.prems" in auto)
qed

lemma utf8_start: "utf8_Valid s \<Longrightarrow> s \<noteq> [] \<Longrightarrow> RuneStart (s ! 0)"
  using rune_len_start utf8_Valid_step by blast

text \<open>After an ASCII byte a rune starts.\<close>

lemma utf8_after_ascii:
  "utf8_Valid s \<Longrightarrow> Suc i < length s \<Longrightarrow> byte (s ! i) < 128 \<Longrightarrow> RuneStart (s ! Suc i)"
proof -
  assume v: "utf8_Valid s" and i: "Suc i < length s" and a: "byte (s ! i) < 128"
  have "RuneStart (s ! i)" using a by (simp add: RuneStart_def)
  then have d: "utf8_Valid (drop i s)" using utf8_cut [OF v, of i] i by simp
  obtain c r where c: "drop i s = c # r" "c = s ! i" using i by (metis Cons_nth_drop_Suc Suc_lessD)
  then have "utf8_Valid r"
    using d a utf8_Valid_step [of "c # r"] rune_len_ascii [of c r] by simp
  moreover have "r = drop (Suc i) s" using c i by (metis drop_Suc list.sel(3) tl_drop)
  ultimately show ?thesis using utf8_start [of "drop (Suc i) s"] i by simp
qed

text \<open>Of four consecutive positions one is a boundary.\<close>

lemma utf8_boundary_near:
  "utf8_Valid s \<Longrightarrow> i < length s \<Longrightarrow> \<exists>k \<le> 3. k \<le> i \<and> RuneStart (s ! (i - k))"
proof (induction s arbitrary: i rule: utf8_Valid.induct)
  case (1 s)
  let ?n = "rune_len s"
  have ne: "s \<noteq> []" using "1.prems" by auto
  have n: "0 < ?n" "utf8_Valid (drop ?n s)" "s \<noteq> []"
    using "1.prems"(1) utf8_Valid_step [OF ne] ne by auto
  show ?case
  proof (cases "i < ?n")
    case True
    then have "i \<le> 3" using rune_len_bounds(1) [of s] by simp
    moreover have "RuneStart (s ! (i - i))" using utf8_start [OF "1.prems"(1) n(3)] by simp
    ultimately show ?thesis by blast
  next
    case False
    have lt: "i - ?n < length (drop ?n s)" using False "1.prems"(2) by simp
    then obtain k where k: "k \<le> 3" "k \<le> i - ?n" "RuneStart (drop ?n s ! (i - ?n - k))"
      using "1.IH" [OF ne _ n(2) lt] n(1) by blast
    then have "RuneStart (s ! (i - k))" using False "1.prems"(2) by (simp add: algebra_simps)
    with k show ?thesis by (intro exI [of _ k]) auto
  qed
qed

end
