(* ===== verification/Api_Domain.thy ===== *)
theory Api_Domain
  imports Go_Bytes
begin

text \<open>
  Shared types of the API service: errors (\<^verbatim>\<open>domain/errors.go\<close>), models and the two role
  hierarchies (\<^verbatim>\<open>domain/models.go\<close>), the conversion of database rows
  (\<^verbatim>\<open>dbconv/dbconv.go\<close>), bearer tokens (\<^verbatim>\<open>auth/token.go\<close>), all under
  \<^verbatim>\<open>src/backend-api/internal\<close>, and the row types of \<^verbatim>\<open>src/datastore/postgres/sqlc/models.go\<close>.

  A \<^verbatim>\<open>pgtype.UUID\<close> is a record of its bytes and its validity flag; a nullable text or time stamp
  is an option; times are integers, 0 standing for Go's zero time.
\<close>

section \<open>Errors\<close>

record AppError =
  err_Status :: nat
  err_Code :: string
  err_Message :: string
  err_Details :: "(string \<rightharpoonup> string) option"

definition NewAppError :: "nat \<Rightarrow> string \<Rightarrow> string \<Rightarrow> AppError" where
  "NewAppError status code message =
     \<lparr>err_Status = status, err_Code = code, err_Message = message, err_Details = None\<rparr>"

definition ErrNotFound :: AppError where "ErrNotFound = NewAppError 404 ''not_found'' ''not found''"
definition ErrConflict :: AppError where "ErrConflict = NewAppError 409 ''conflict'' ''resource already exists''"
definition ErrBadRequest :: AppError where "ErrBadRequest = NewAppError 400 ''bad_request'' ''invalid request''"
definition ErrForbidden :: AppError where "ErrForbidden = NewAppError 403 ''forbidden'' ''forbidden''"
definition ErrUnauthorized :: AppError where "ErrUnauthorized = NewAppError 401 ''unauthorized'' ''authentication required''"
definition ErrInternal :: AppError where "ErrInternal = NewAppError 500 ''internal_error'' ''internal server error''"
definition ErrMethodNotAllowed :: AppError where "ErrMethodNotAllowed = NewAppError 405 ''method_not_allowed'' ''method not allowed''"
definition ErrValidation :: AppError where "ErrValidation = NewAppError 422 ''validation_error'' ''validation failed''"
definition ErrPayloadTooLarge :: AppError where "ErrPayloadTooLarge = NewAppError 413 ''payload_too_large'' ''request body too large''"

definition NotFound :: "string \<Rightarrow> AppError" where
  "NotFound msg = NewAppError (err_Status ErrNotFound) (err_Code ErrNotFound) msg"
definition Conflict :: "string \<Rightarrow> AppError" where
  "Conflict msg = NewAppError (err_Status ErrConflict) (err_Code ErrConflict) msg"
definition Forbidden :: "string \<Rightarrow> AppError" where
  "Forbidden msg = NewAppError (err_Status ErrForbidden) (err_Code ErrForbidden) msg"
definition BadRequest :: "string \<Rightarrow> AppError" where
  "BadRequest msg = NewAppError (err_Status ErrBadRequest) (err_Code ErrBadRequest) msg"
definition Unauthorized :: "string \<Rightarrow> AppError" where
  "Unauthorized msg = NewAppError (err_Status ErrUnauthorized) (err_Code ErrUnauthorized) msg"
definition ValidationError :: "(string \<rightharpoonup> string) \<Rightarrow> AppError" where
  "ValidationError flds =
     (NewAppError (err_Status ErrValidation) (err_Code ErrValidation) (err_Message ErrValidation))
       \<lparr>err_Details := Some flds\<rparr>"

lemmas app_error_defs = NewAppError_def ErrNotFound_def ErrConflict_def ErrBadRequest_def
  ErrForbidden_def ErrUnauthorized_def ErrInternal_def NotFound_def Conflict_def Forbidden_def
  BadRequest_def Unauthorized_def

section \<open>Identifiers\<close>

record UUID =
  uuid_Bytes :: string
  uuid_Valid :: bool

definition wf_UUID :: "UUID \<Rightarrow> bool" where
  "wf_UUID u = (length (uuid_Bytes u) = 16)"

definition null_UUID :: UUID where
  "null_UUID = \<lparr>uuid_Bytes = replicate 16 (CHR 0x00), uuid_Valid = False\<rparr>"

definition dashed :: "string \<Rightarrow> string" where
  "dashed b = EncodeToString (take 4 b) @ ''-'' @ EncodeToString (take 2 (drop 4 b)) @ ''-'' @
     EncodeToString (take 2 (drop 6 b)) @ ''-'' @ EncodeToString (take 2 (drop 8 b)) @ ''-'' @
     EncodeToString (take 6 (drop 10 b))"

definition PgUUIDToString :: "UUID \<Rightarrow> string" where
  "PgUUIDToString u = (if \<not> uuid_Valid u then [] else dashed (uuid_Bytes u))"

type_synonym timestamp = int

section \<open>Models\<close>

record User =
  usr_ID :: string
  usr_Username :: string
  usr_Email :: string
  usr_DisplayName :: string
  usr_AvatarURL :: string
  usr_IsActive :: bool
  usr_CreatedAt :: timestamp
  usr_UpdatedAt :: timestamp

record ProjectMember =
  mem_ID :: string
  mem_ProjectID :: string
  mem_UserID :: string
  mem_Role :: string
  mem_CreatedAt :: timestamp
  mem_UpdatedAt :: timestamp

record APIKeyIdentity =
  aki_KeyHash :: string
  aki_KeyType :: string
  aki_Role :: string

definition RoleOwner :: string where "RoleOwner = ''owner''"
definition RoleAdmin :: string where "RoleAdmin = ''admin''"
definition RoleMember :: string where "RoleMember = ''member''"
definition PlatformRoleAdmin :: string where "PlatformRoleAdmin = ''platform_admin''"
definition KeyTypeProject :: string where "KeyTypeProject = ''project''"
definition KeyTypePersonal :: string where "KeyTypePersonal = ''personal''"
definition KeyRoleRead :: string where "KeyRoleRead = ''read''"
definition KeyRoleWrite :: string where "KeyRoleWrite = ''write''"

lemmas role_defs = RoleOwner_def RoleAdmin_def RoleMember_def KeyRoleRead_def KeyRoleWrite_def

definition KeyRoleValid :: "string \<Rightarrow> bool" where
  "KeyRoleValid role = (role = KeyRoleRead \<or> role = KeyRoleWrite)"

definition PlatformRoleKnown :: "string \<Rightarrow> bool" where
  "PlatformRoleKnown role = (role = PlatformRoleAdmin)"

definition RoleRank :: "string \<Rightarrow> int" where
  "RoleRank role =
     (if role = RoleOwner then 3 else if role = RoleAdmin then 2 else if role = RoleMember then 1 else 0)"

definition RoleKnown :: "string \<Rightarrow> bool" where
  "RoleKnown role = (RoleRank role > 0)"

definition RoleSufficient :: "string \<Rightarrow> string \<Rightarrow> bool" where
  "RoleSufficient userRole minRole =
     (if \<not> RoleKnown minRole then False else RoleRank userRole \<ge> RoleRank minRole)"

definition KeyRoleRank :: "string \<Rightarrow> int" where
  "KeyRoleRank role = (if role = KeyRoleWrite then 2 else if role = KeyRoleRead then 1 else 0)"

definition KeyRoleSufficient :: "string \<Rightarrow> string \<Rightarrow> bool" where
  "KeyRoleSufficient keyRole minKeyRole =
     (if KeyRoleRank minKeyRole = 0 then False else KeyRoleRank keyRole \<ge> KeyRoleRank minKeyRole)"

text \<open>\<^const>\<open>None\<close> is the source's \<^verbatim>\<open>("", false)\<close>.\<close>

definition MembershipRoleToKeyRole :: "string \<Rightarrow> string option" where
  "MembershipRoleToKeyRole r =
     (if r = RoleMember then Some KeyRoleRead else if r = RoleAdmin then Some KeyRoleWrite else None)"

section \<open>Rows and their conversion\<close>

record UserRow =
  u_ID :: UUID
  u_Username :: string
  u_Email :: string
  u_DisplayName :: "string option"
  u_AvatarUrl :: "string option"
  u_IsActive :: bool
  u_CreatedAt :: "timestamp option"
  u_UpdatedAt :: "timestamp option"

record MemberRow =
  pm_ID :: UUID
  pm_ProjectID :: UUID
  pm_UserID :: UUID
  pm_Role :: string
  pm_InvitedBy :: UUID
  pm_CreatedAt :: "timestamp option"
  pm_UpdatedAt :: "timestamp option"

definition text_or_empty :: "string option \<Rightarrow> string" where
  "text_or_empty t = (case t of None \<Rightarrow> [] | Some s \<Rightarrow> s)"

definition time_or_zero :: "timestamp option \<Rightarrow> timestamp" where
  "time_or_zero t = (case t of None \<Rightarrow> 0 | Some x \<Rightarrow> x)"

definition uuid_or_empty :: "UUID \<Rightarrow> string" where
  "uuid_or_empty u = (if uuid_Valid u then PgUUIDToString u else [])"

definition DBUserToDomain :: "UserRow \<Rightarrow> User" where
  "DBUserToDomain u =
     \<lparr>usr_ID = uuid_or_empty (u_ID u), usr_Username = u_Username u, usr_Email = u_Email u,
      usr_DisplayName = text_or_empty (u_DisplayName u), usr_AvatarURL = text_or_empty (u_AvatarUrl u),
      usr_IsActive = u_IsActive u, usr_CreatedAt = time_or_zero (u_CreatedAt u),
      usr_UpdatedAt = time_or_zero (u_UpdatedAt u)\<rparr>"

definition DBMemberToDomain :: "MemberRow \<Rightarrow> ProjectMember" where
  "DBMemberToDomain m =
     \<lparr>mem_ID = uuid_or_empty (pm_ID m), mem_ProjectID = uuid_or_empty (pm_ProjectID m),
      mem_UserID = uuid_or_empty (pm_UserID m), mem_Role = pm_Role m,
      mem_CreatedAt = time_or_zero (pm_CreatedAt m), mem_UpdatedAt = time_or_zero (pm_UpdatedAt m)\<rparr>"

section \<open>Bearer tokens\<close>

text \<open>The argument is the value of the Authorization header, empty when it is missing.
  \<^verbatim>\<open>strings.EqualFold\<close> with the word "bearer" is a comparison up to ASCII case: no other rune
  folds to one of its letters.\<close>

definition HasBearerScheme :: "string \<Rightarrow> bool" where
  "HasBearerScheme h =
     (if length h = 6 then ToLower h = ''bearer''
      else length h > 6 \<and> ToLower (take 7 h) = ''bearer '')"

definition ExtractBearerToken :: "string \<Rightarrow> string" where
  "ExtractBearerToken h =
     (if length h > 7 \<and> ToLower (take 7 h) = ''bearer '' then TrimSpace (drop 7 h) else [])"

definition HashToken :: "string \<Rightarrow> string" where
  "HashToken raw = EncodeToString (Sum256 raw)"

section \<open>Lemmas\<close>

lemma length_Encode [simp]: "length (EncodeToString bs) = 2 * length bs"
  by (induction bs) (auto simp: EncodeToString_def)

lemma hex_digit_inj: "m < 16 \<Longrightarrow> n < 16 \<Longrightarrow> hex_digit m = hex_digit n \<Longrightarrow> m = n"
  by (auto simp: hex_digit_def split: if_splits dest!: arg_cong [where f = "of_char :: char \<Rightarrow> nat"])

lemma Encode_inj: "EncodeToString a = EncodeToString b \<Longrightarrow> a = b"
proof (induction a arbitrary: b)
  case Nil
  then show ?case by (cases b) (auto simp: EncodeToString_def)
next
  case (Cons x a)
  then obtain y b' where b: "b = y # b'" by (cases b) (auto simp: EncodeToString_def)
  have lt: "byte c div 16 < 16" "byte c mod 16 < 16" for c
    using nat_of_char_less_256 [of c] by (simp_all add: byte_def div_less_iff_less_mult)
  have "byte x div 16 = byte y div 16" "byte x mod 16 = byte y mod 16"
    using Cons.prems hex_digit_inj lt by (auto simp: EncodeToString_def b)
  then have "byte x = byte y" by (metis div_mult_mod_eq)
  then have "x = y" by (simp add: byte_def)
  with Cons show ?case by (simp add: b EncodeToString_def)
qed

lemma dashed_inj:
  assumes "length a = 16" "length b = 16" "dashed a = dashed b"
  shows "a = b"
proof -
  have parts: "take 4 a = take 4 b \<and> take 2 (drop 4 a) = take 2 (drop 4 b) \<and>
    take 2 (drop 6 a) = take 2 (drop 6 b) \<and> take 2 (drop 8 a) = take 2 (drop 8 b) \<and>
    take 6 (drop 10 a) = take 6 (drop 10 b)"
    using assms by (auto simp: dashed_def dest!: Encode_inj)
  have "x = take 4 x @ take 2 (drop 4 x) @ take 2 (drop 6 x) @ take 2 (drop 8 x) @ take 6 (drop 10 x)"
    if "length x = 16" for x :: string
  proof -
    have "drop 10 x = take 6 (drop 10 x)" using that by simp
    moreover have "drop 8 x = take 2 (drop 8 x) @ drop 10 x"
      using append_take_drop_id [of 2 "drop 8 x"] by (simp add: add.commute)
    moreover have "drop 6 x = take 2 (drop 6 x) @ drop 8 x"
      using append_take_drop_id [of 2 "drop 6 x"] by (simp add: add.commute)
    moreover have "drop 4 x = take 2 (drop 4 x) @ drop 6 x"
      using append_take_drop_id [of 2 "drop 4 x"] by (simp add: add.commute)
    ultimately show ?thesis using append_take_drop_id [of 4 x] by metis
  qed
  then show ?thesis using parts assms(1,2) by metis
qed

text \<open>Distinct valid identifiers have distinct strings, so the comparisons the services make on
  strings decide equality of the identifiers.\<close>

lemma PgUUIDToString_inj:
  "wf_UUID u \<Longrightarrow> wf_UUID v \<Longrightarrow> uuid_Valid u \<Longrightarrow> uuid_Valid v \<Longrightarrow> PgUUIDToString u = PgUUIDToString v \<Longrightarrow> u = v"
  using dashed_inj by (cases u; cases v) (auto simp: PgUUIDToString_def wf_UUID_def)

lemma length_dashed: "length b = 16 \<Longrightarrow> length (dashed b) = 36"
  by (simp add: dashed_def)

lemma RoleRank_simps [simp]:
  "RoleRank ''owner'' = 3" "RoleRank ''admin'' = 2" "RoleRank ''member'' = 1"
  "RoleRank ''read'' = 0" "RoleRank ''write'' = 0"
  by (simp_all add: RoleRank_def role_defs)

lemma RoleKnown_iff: "RoleKnown r \<longleftrightarrow> r = RoleOwner \<or> r = RoleAdmin \<or> r = RoleMember"
  by (simp add: RoleKnown_def RoleRank_def)

lemma RoleSufficient_admin:
  "RoleSufficient r RoleAdmin \<longleftrightarrow> r = RoleOwner \<or> r = RoleAdmin"
  by (auto simp: RoleSufficient_def RoleKnown_def RoleRank_def role_defs)

end
