(* ===== verification/Pg_Tx.thy ===== *)
theory Pg_Tx
  imports Api_Domain
begin

text \<open>
  Database calls that may fail and transactions with deadlock retry
  (\<^verbatim>\<open>src/backend-api/internal/storage/postgres/tx.go\<close>, \<^verbatim>\<open>postgres.go\<close>).

  The environment decides the outcome of every call: a \<open>faults\<close> function gives, for the name of
  the query, whether it succeeds. A transaction body is a function of the faults of its attempt
  and of the database state. On any error the state of the attempt is discarded; only an error of
  the commit itself may leave the effects behind (the answer of a commit can be lost).
\<close>

datatype fault = NoFault | DeadlockFault | OtherFault | LostAnswer

type_synonym faults = "string \<Rightarrow> fault"

datatype db_error = App AppError | Pg_Deadlock | Pg_Unique | Pg_Other

text \<open>One query: the result of the SQL unless the environment makes it fail.\<close>

definition query :: "faults \<Rightarrow> string \<Rightarrow> (db_error + 'a) \<Rightarrow> db_error + 'a" where
  "query ft name r =
     (case ft name of NoFault \<Rightarrow> r | DeadlockFault \<Rightarrow> Inl Pg_Deadlock | _ \<Rightarrow> Inl Pg_Other)"

text \<open>One statement outside a transaction, on the state \<open>s\<close>: it takes effect at once, also when its
  answer is lost.\<close>

definition exec_query :: "faults \<Rightarrow> string \<Rightarrow> (db_error + 'a \<times> 's) \<Rightarrow> 's \<Rightarrow> (db_error + 'a) \<times> 's" where
  "exec_query ft name r s =
     (case r of
        Inl e \<Rightarrow> (query ft name (Inl e), s)
      | Inr (a, s') \<Rightarrow> (query ft name (Inr a), if ft name \<in> {NoFault, LostAnswer} then s' else s))"

definition IsUniqueViolation :: "db_error \<Rightarrow> bool" where
  "IsUniqueViolation e = (e = Pg_Unique)"

definition IsDeadlock :: "db_error \<Rightarrow> bool" where
  "IsDeadlock e = (e = Pg_Deadlock)"

definition maxDeadlockRetries :: nat where
  "maxDeadlockRetries = 3"

definition execTx ::
  "(faults \<Rightarrow> 's \<Rightarrow> db_error + 'a \<times> 's) \<Rightarrow> faults \<Rightarrow> 's \<Rightarrow> (db_error + 'a) \<times> 's" where
  "execTx fn ft s =
     (case query ft ''Begin'' (Inr ()) of
        Inl e \<Rightarrow> (Inl e, s)
      | Inr _ \<Rightarrow>
          (case fn ft s of
             Inl e \<Rightarrow> (Inl e, s)
           | Inr (a, s') \<Rightarrow>
               (case query ft ''Commit'' (Inr ()) of
                  Inl e \<Rightarrow> (Inl e, if ft ''Commit'' = LostAnswer then s' else s)
                | Inr _ \<Rightarrow> (Inr a, s'))))"

fun tx_attempts ::
  "(faults \<Rightarrow> 's \<Rightarrow> db_error + 'a \<times> 's) \<Rightarrow> (nat \<Rightarrow> faults) \<Rightarrow> nat list \<Rightarrow> (db_error + 'a) \<Rightarrow> 's \<Rightarrow>
   (db_error + 'a) \<times> 's" where
  "tx_attempts fn fts [] lastErr s = (lastErr, s)"
| "tx_attempts fn fts (i # is) lastErr s =
     (if i > 0 \<and> fts i ''ctx.Done'' \<noteq> NoFault then (Inl Pg_Other, s)
      else case execTx fn (fts i) s of
             (Inr a, s') \<Rightarrow> (Inr a, s')
           | (Inl e, s') \<Rightarrow>
               if \<not> IsDeadlock e then (Inl e, s') else tx_attempts fn fts is (Inl e) s')"

definition WithTx ::
  "(faults \<Rightarrow> 's \<Rightarrow> db_error + 'a \<times> 's) \<Rightarrow> (nat \<Rightarrow> faults) \<Rightarrow> 's \<Rightarrow> (db_error + 'a) \<times> 's" where
  "WithTx fn fts s = tx_attempts fn fts [0..<Suc maxDeadlockRetries] (Inl Pg_Other) s"

lemma query_Inr: "query ft n r = Inr x \<longleftrightarrow> ft n = NoFault \<and> r = Inr x"
  by (cases "ft n") (auto simp: query_def)

lemma query_cases: "query ft n r = r \<or> query ft n r = Inl Pg_Deadlock \<or> query ft n r = Inl Pg_Other"
  by (cases "ft n") (auto simp: query_def)

lemma exec_query_snd: "exec_query ft n r s = (x, s') \<Longrightarrow> s' = s \<or> (\<exists>a. r = Inr (a, s'))"
  by (auto simp: exec_query_def split: sum.splits if_splits)

lemma exec_query_Inr: "exec_query ft n r s = (Inr a, s') \<longleftrightarrow> ft n = NoFault \<and> r = Inr (a, s')"
  by (auto simp: exec_query_def query_Inr split: sum.splits)

text \<open>What a client relies on: a body that keeps a relation between the state before and after is
  all it has to provide.\<close>

locale tx_body =
  fixes fn :: "faults \<Rightarrow> 's \<Rightarrow> db_error + 'a \<times> 's"
    and R :: "'s \<Rightarrow> 's \<Rightarrow> bool"
  assumes R_refl: "R s s"
    and body_R: "fn ft s = Inr (a, s') \<Longrightarrow> R s s'"
begin

lemma execTx_R: "execTx fn ft s = (r, s') \<Longrightarrow> R s s'"
  by (auto simp: execTx_def R_refl split: sum.splits prod.splits if_splits dest: body_R)

lemma execTx_retry: "execTx fn ft s = (Inl Pg_Deadlock, s') \<Longrightarrow> s' = s"
  by (cases "ft ''Commit''"; cases "ft ''Begin''")
     (auto simp: execTx_def query_def split: sum.splits prod.splits)

lemma attempts_R: "tx_attempts fn fts is e s = (r, s') \<Longrightarrow> R s s'"
proof (induction "is" arbitrary: e)
  case (Cons i "is")
  obtain r1 s1 where x: "execTx fn (fts i) s = (r1, s1)" by (cases "execTx fn (fts i) s")
  show ?case
    using Cons execTx_R [OF x] execTx_retry [of "fts i" s s1] x R_refl
    by (auto simp: IsDeadlock_def split: if_splits sum.splits)
qed (simp add: R_refl)

lemma WithTx_R: "WithTx fn fts s = (r, s') \<Longrightarrow> R s s'"
  by (simp add: WithTx_def attempts_R del: upt_Suc)

lemma WithTx_R_snd: "R s (snd (WithTx fn fts s))"
  by (rule WithTx_R [OF surjective_pairing])

lemma execTx_Inr: "execTx fn ft s = (Inr a, s') \<Longrightarrow> fn ft s = Inr (a, s')"
  by (auto simp: execTx_def split: sum.splits prod.splits)

lemma attempts_Inr:
  "tx_attempts fn fts is (Inl e) s = (Inr a, s') \<Longrightarrow> \<exists>i \<in> set is. fn (fts i) s = Inr (a, s')"
proof (induction "is" arbitrary: e)
  case (Cons i "is")
  obtain r1 s1 where x: "execTx fn (fts i) s = (r1, s1)" by (cases "execTx fn (fts i) s")
  show ?case
    using Cons execTx_retry [of "fts i" s s1] execTx_Inr [of "fts i" s a s'] x
    by (auto simp: IsDeadlock_def split: if_splits sum.splits)
qed simp

lemma WithTx_Inr: "WithTx fn fts s = (Inr a, s') \<Longrightarrow> \<exists>i. fn (fts i) s = Inr (a, s')"
  using attempts_Inr unfolding WithTx_def by blast

end

text \<open>With no fault at all, one attempt decides.\<close>

lemma WithTx_no_fault:
  "WithTx fn (\<lambda>_ _. NoFault) s =
     (case fn (\<lambda>_. NoFault) s of
        Inr (a, s') \<Rightarrow> (Inr a, s')
      | Inl e \<Rightarrow> (Inl e, s))"
  by (auto simp: WithTx_def execTx_def query_def maxDeadlockRetries_def IsDeadlock_def upt_rec
      split: sum.splits prod.splits)

end
