(* ===== verification/Membership.thy ===== *)
theory Membership
  imports Pg_Tx
begin

text \<open>
  Project membership management
  (\<^verbatim>\<open>src/backend-api/internal/membership/service.go\<close>) over the tables \<^verbatim>\<open>users\<close>,
  \<^verbatim>\<open>projects\<close> and \<^verbatim>\<open>project_members\<close>, whose queries are those of
  \<^verbatim>\<open>src/datastore/postgres/sqlc/auth.sql.go\<close>.

  A service call returns the Go result (an \<open>AppError\<close> on the left) with the database after it.
  The row locks of the source serialise concurrent calls on a project, so a history of the service is a
  sequence of calls, each with the faults its queries meet.
\<close>

section \<open>Tables and queries\<close>

record mdb =
  db_users :: "UserRow list"
  db_projects :: "UUID list"
  db_members :: "MemberRow list"

text \<open>SQL equality of UUID values: NULL equals nothing.\<close>

definition sql_eq :: "UUID \<Rightarrow> UUID \<Rightarrow> bool" where
  "sql_eq a b = (uuid_Valid a \<and> uuid_Valid b \<and> uuid_Bytes a = uuid_Bytes b)"

definition is_row :: "UUID \<Rightarrow> UUID \<Rightarrow> MemberRow \<Rightarrow> bool" where
  "is_row p u m = (sql_eq (pm_ProjectID m) p \<and> sql_eq (pm_UserID m) u)"

definition user_active :: "mdb \<Rightarrow> UUID \<Rightarrow> bool" where
  "user_active s u = list_ex (\<lambda>r. sql_eq (u_ID r) u \<and> u_IsActive r) (db_users s)"

definition GetProjectMemberForUpdate :: "UUID \<Rightarrow> UUID \<Rightarrow> mdb \<Rightarrow> MemberRow option" where
  "GetProjectMemberForUpdate p u s = List.find (is_row p u) (db_members s)"

definition owner_row :: "UUID \<Rightarrow> mdb \<Rightarrow> MemberRow \<Rightarrow> bool" where
  "owner_row p s m = (sql_eq (pm_ProjectID m) p \<and> pm_Role m = ''owner'' \<and> user_active s (pm_UserID m))"

definition CountProjectOwnersForUpdate :: "UUID \<Rightarrow> mdb \<Rightarrow> nat" where
  "CountProjectOwnersForUpdate p s = length (filter (owner_row p s) (db_members s))"

definition UpdateProjectMemberRole ::
  "timestamp \<Rightarrow> UUID \<Rightarrow> UUID \<Rightarrow> string \<Rightarrow> mdb \<Rightarrow> db_error + MemberRow \<times> mdb" where
  "UpdateProjectMemberRole now p u role s =
     (let upd = (\<lambda>m. m\<lparr>pm_Role := role, pm_UpdatedAt := Some now\<rparr>);
          s' = s\<lparr>db_members := map (\<lambda>m. if is_row p u m then upd m else m) (db_members s)\<rparr>
      in if role \<notin> {''owner'', ''admin'', ''member''} then Inl Pg_Other
         else case List.find (is_row p u) (db_members s) of
                None \<Rightarrow> Inl Pg_Other
              | Some m \<Rightarrow> Inr (upd m, s'))"

definition DeleteProjectMember :: "UUID \<Rightarrow> UUID \<Rightarrow> mdb \<Rightarrow> mdb" where
  "DeleteProjectMember p u s = s\<lparr>db_members := filter (\<lambda>m. \<not> is_row p u m) (db_members s)\<rparr>"

text \<open>The INSERT checks the unique pair, the role constraint and the two foreign keys; \<open>fresh\<close> is the
  generated id.\<close>

definition CreateProjectMember ::
  "timestamp \<Rightarrow> UUID \<Rightarrow> UUID \<Rightarrow> UUID \<Rightarrow> string \<Rightarrow> UUID \<Rightarrow> mdb \<Rightarrow> db_error + MemberRow \<times> mdb" where
  "CreateProjectMember now fresh p u role invitedBy s =
     (if \<not> list_ex (\<lambda>q. sql_eq q p) (db_projects s) \<or> \<not> list_ex (\<lambda>r. sql_eq (u_ID r) u) (db_users s) \<or>
         role \<notin> {''owner'', ''admin'', ''member''} then Inl Pg_Other
      else if list_ex (is_row p u) (db_members s) then Inl Pg_Unique
      else let m = \<lparr>pm_ID = fresh, pm_ProjectID = p, pm_UserID = u, pm_Role = role,
                    pm_InvitedBy = invitedBy, pm_CreatedAt = Some now, pm_UpdatedAt = Some now\<rparr>
           in Inr (m, s\<lparr>db_members := db_members s @ [m]\<rparr>))"

definition GetUserByID :: "UUID \<Rightarrow> mdb \<Rightarrow> UserRow option" where
  "GetUserByID u s = List.find (\<lambda>r. sql_eq (u_ID r) u) (db_users s)"

section \<open>The service\<close>

definition validateActor :: "ProjectMember option \<Rightarrow> UUID \<Rightarrow> AppError option" where
  "validateActor actor projectID =
     (case actor of
        None \<Rightarrow> Some (BadRequest ''missing actor context'')
      | Some a \<Rightarrow> if mem_ProjectID a \<noteq> PgUUIDToString projectID
                  then Some (Forbidden ''actor not authorized for this project'') else None)"

definition update_role_body ::
  "timestamp \<Rightarrow> UUID \<Rightarrow> UUID \<Rightarrow> string \<Rightarrow> ProjectMember \<Rightarrow> faults \<Rightarrow> mdb \<Rightarrow> db_error + ProjectMember \<times> mdb" where
  "update_role_body now projectID targetUserID newRole actor ft s =
     (case query ft ''GetProjectMemberForUpdate'' (Inr (GetProjectMemberForUpdate projectID targetUserID s)) of
        Inl e \<Rightarrow> Inl e
      | Inr None \<Rightarrow> Inl (App (NotFound ''user is not a member of this project''))
      | Inr (Some target) \<Rightarrow>
          if mem_Role actor = RoleAdmin \<and> pm_Role target = RoleOwner
          then Inl (App (Forbidden ''requires owner role for this action''))
          else if pm_Role target = newRole then Inr (DBMemberToDomain target, s)
          else case (if pm_Role target = RoleOwner \<and> newRole \<noteq> RoleOwner
                     then (case query ft ''CountProjectOwnersForUpdate'' (Inr (CountProjectOwnersForUpdate projectID s)) of
                             Inl e \<Rightarrow> Some e
                           | Inr count \<Rightarrow> if count \<le> 1 then Some (App (Conflict ''cannot demote the last project owner''))
                                          else None)
                     else None) of
                 Some e \<Rightarrow> Inl e
               | None \<Rightarrow>
                   (case query ft ''UpdateProjectMemberRole'' (UpdateProjectMemberRole now projectID targetUserID newRole s) of
                      Inl e \<Rightarrow> Inl e
                    | Inr (updated, s') \<Rightarrow> Inr (DBMemberToDomain updated, s')))"

text \<open>An error of a transaction that is not an \<open>AppError\<close> is reported as an internal error.\<close>

definition tx_result :: "(db_error + 'a) \<times> mdb \<Rightarrow> (AppError + 'a) \<times> mdb" where
  "tx_result x =
     (case x of
        (Inr a, s) \<Rightarrow> (Inr a, s)
      | (Inl (App e), s) \<Rightarrow> (Inl e, s)
      | (Inl _, s) \<Rightarrow> (Inl ErrInternal, s))"

definition UpdateRole ::
  "timestamp \<Rightarrow> (nat \<Rightarrow> faults) \<Rightarrow> UUID \<Rightarrow> UUID \<Rightarrow> string \<Rightarrow> ProjectMember option \<Rightarrow> mdb \<Rightarrow>
   (AppError + ProjectMember) \<times> mdb" where
  "UpdateRole now fts projectID targetUserID newRole actor s =
     (case validateActor actor projectID of
        Some e \<Rightarrow> (Inl e, s)
      | None \<Rightarrow>
          (case actor of
             None \<Rightarrow> (Inl ErrInternal, s)
           | Some a \<Rightarrow>
               if \<not> RoleKnown newRole then (Inl (BadRequest ''role must be one of: owner, admin, member''), s)
               else if mem_UserID a = PgUUIDToString targetUserID
               then (Inl (BadRequest ''cannot change your own role''), s)
               else if \<not> RoleSufficient (mem_Role a) RoleAdmin
               then (Inl (Forbidden ''requires admin role to update member roles''), s)
               else if mem_Role a = RoleAdmin \<and> newRole = RoleOwner
               then (Inl (Forbidden ''requires owner role for this action''), s)
               else tx_result (WithTx (update_role_body now projectID targetUserID newRole a) fts s)))"

text \<open>\<open>scan\<close> is \<^verbatim>\<open>pgtype.UUID.Scan\<close>, code of the pgx module: it parses a string to an identifier or
  fails.\<close>

definition Add ::
  "(string \<Rightarrow> UUID option) \<Rightarrow> timestamp \<Rightarrow> UUID \<Rightarrow> faults \<Rightarrow> UUID \<Rightarrow> UUID \<Rightarrow> string \<Rightarrow> ProjectMember option \<Rightarrow> mdb \<Rightarrow>
   (AppError + ProjectMember) \<times> mdb" where
  "Add scan now fresh ft projectID targetUserID role actor s =
     (case validateActor actor projectID of
        Some e \<Rightarrow> (Inl e, s)
      | None \<Rightarrow>
          (case actor of
             None \<Rightarrow> (Inl ErrInternal, s)
           | Some a \<Rightarrow>
               if \<not> RoleKnown role then (Inl (BadRequest ''role must be one of: owner, admin, member''), s)
               else if \<not> RoleSufficient (mem_Role a) RoleAdmin
               then (Inl (Forbidden ''requires admin role to add members''), s)
               else if mem_Role a = RoleAdmin \<and> role = RoleOwner
               then (Inl (Forbidden ''requires owner role for this action''), s)
               else case query ft ''GetUserByID'' (Inr (GetUserByID targetUserID s)) of
                      Inl e \<Rightarrow> (Inl ErrInternal, s)
                    | Inr None \<Rightarrow> (Inl (NotFound ''user not found''), s)
                    | Inr (Some user) \<Rightarrow>
                        if \<not> u_IsActive user then (Inl (NotFound ''user not found''), s)
                        else case scan (mem_UserID a) of
                               None \<Rightarrow> (Inl ErrInternal, s)
                             | Some actorID \<Rightarrow>
                                 (case exec_query ft ''CreateProjectMember''
                                         (CreateProjectMember now fresh projectID targetUserID role actorID s) s of
                                    (Inl e, s') \<Rightarrow> if IsUniqueViolation e
                                             then (Inl (Conflict ''user is already a member of this project''), s')
                                             else (Inl ErrInternal, s')
                                  | (Inr row, s') \<Rightarrow> (Inr (DBMemberToDomain row), s'))))"

definition remove_body ::
  "UUID \<Rightarrow> UUID \<Rightarrow> bool \<Rightarrow> ProjectMember \<Rightarrow> faults \<Rightarrow> mdb \<Rightarrow> db_error + unit \<times> mdb" where
  "remove_body projectID targetUserID isSelfRemoval actor ft s =
     (case query ft ''GetProjectMemberForUpdate'' (Inr (GetProjectMemberForUpdate projectID targetUserID s)) of
        Inl e \<Rightarrow> Inl e
      | Inr None \<Rightarrow> Inl (App (NotFound ''user is not a member of this project''))
      | Inr (Some target) \<Rightarrow>
          if \<not> isSelfRemoval \<and> mem_Role actor = RoleAdmin \<and> pm_Role target = RoleOwner
          then Inl (App (Forbidden ''requires owner role for this action''))
          else case (if pm_Role target = RoleOwner
                     then (case query ft ''CountProjectOwnersForUpdate'' (Inr (CountProjectOwnersForUpdate projectID s)) of
                             Inl e \<Rightarrow> Some e
                           | Inr count \<Rightarrow> if count \<le> 1 then Some (App (Conflict ''cannot remove the last project owner''))
                                          else None)
                     else None) of
                 Some e \<Rightarrow> Inl e
               | None \<Rightarrow>
                   (case query ft ''DeleteProjectMember'' (Inr (DeleteProjectMember projectID targetUserID s)) of
                      Inl e \<Rightarrow> Inl e
                    | Inr s' \<Rightarrow> Inr ((), s')))"

definition Remove ::
  "(nat \<Rightarrow> faults) \<Rightarrow> UUID \<Rightarrow> UUID \<Rightarrow> ProjectMember option \<Rightarrow> mdb \<Rightarrow> (AppError + unit) \<times> mdb" where
  "Remove fts projectID targetUserID actor s =
     (case validateActor actor projectID of
        Some e \<Rightarrow> (Inl e, s)
      | None \<Rightarrow>
          (case actor of
             None \<Rightarrow> (Inl ErrInternal, s)
           | Some a \<Rightarrow>
               let isSelfRemoval = (mem_UserID a = PgUUIDToString targetUserID)
               in if \<not> isSelfRemoval \<and> \<not> RoleSufficient (mem_Role a) RoleAdmin
                  then (Inl (Forbidden ''requires admin role to remove other members''), s)
                  else tx_result (WithTx (remove_body projectID targetUserID isSelfRemoval a) fts s)))"

text \<open>A history of the service.\<close>

datatype member_op =
    OpUpdateRole timestamp "nat \<Rightarrow> faults" UUID UUID string "ProjectMember option"
  | OpAdd "string \<Rightarrow> UUID option" timestamp UUID faults UUID UUID string "ProjectMember option"
  | OpRemove "nat \<Rightarrow> faults" UUID UUID "ProjectMember option"

fun member_step :: "member_op \<Rightarrow> mdb \<Rightarrow> mdb" where
  "member_step (OpUpdateRole now fts p u r a) s = snd (UpdateRole now fts p u r a s)"
| "member_step (OpAdd scan now fresh ft p u r a) s = snd (Add scan now fresh ft p u r a s)"
| "member_step (OpRemove fts p u a) s = snd (Remove fts p u a s)"

section \<open>The last-owner invariant\<close>

definition unique_members :: "mdb \<Rightarrow> bool" where
  "unique_members s = (\<forall>p u. length (filter (is_row p u) (db_members s)) \<le> 1)"

definition has_owner :: "UUID \<Rightarrow> mdb \<Rightarrow> bool" where
  "has_owner p s = (0 < CountProjectOwnersForUpdate p s)"

definition keeps_owner :: "mdb \<Rightarrow> mdb \<Rightarrow> bool" where
  "keeps_owner s s' = (unique_members s \<longrightarrow> unique_members s' \<and> (\<forall>p. has_owner p s \<longrightarrow> has_owner p s'))"

lemma keeps_owner_refl [simp]: "keeps_owner s s"
  by (simp add: keeps_owner_def)

lemma filter_split_le:
  "length (filter P xs) \<le> length (filter (\<lambda>x. P x \<and> \<not> Q x) xs) + length (filter Q xs)"
  by (induction xs) auto

lemma sql_eq_sym: "sql_eq a b \<longleftrightarrow> sql_eq b a"
  by (auto simp: sql_eq_def)

lemma sql_eq_trans: "sql_eq a b \<Longrightarrow> sql_eq b c \<Longrightarrow> sql_eq a c"
  by (auto simp: sql_eq_def)

lemma unique_row:
  assumes "unique_members s" "List.find (is_row p u) (db_members s) = Some m"
    and "x \<in> set (db_members s)" "is_row p u x"
  shows "x = m"
proof -
  have "m \<in> set (filter (is_row p u) (db_members s))"
    using assms(2) by (auto simp: find_Some_iff)
  moreover have "x \<in> set (filter (is_row p u) (db_members s))" using assms(3,4) by simp
  moreover have "length (filter (is_row p u) (db_members s)) \<le> 1"
    using assms(1) by (simp add: unique_members_def)
  ultimately show ?thesis
    by (cases "filter (is_row p u) (db_members s)") auto
qed

text \<open>Taking the rows of one member out of the owner rows leaves one, if the member is no owner or
  two owners are counted.\<close>

lemma owners_besides:
  assumes u: "unique_members s" and f: "List.find (is_row p u) (db_members s) = Some m"
    and o: "pm_Role m = ''owner'' \<Longrightarrow> 2 \<le> CountProjectOwnersForUpdate p s" and q: "has_owner q s"
  shows "0 < length (filter (\<lambda>x. owner_row q s x \<and> \<not> is_row p u x) (db_members s))"
proof (cases "\<exists>x \<in> set (db_members s). owner_row q s x \<and> is_row p u x")
  case True
  then obtain x where x: "x \<in> set (db_members s)" "owner_row q s x" "is_row p u x" by blast
  then have "x = m" using unique_row [OF u f] by simp
  then have two: "2 \<le> CountProjectOwnersForUpdate p s" using o x(2) by (simp add: owner_row_def)
  have "owner_row q s = owner_row p s"
  proof
    fix y
    have "sql_eq q p" using x(2,3) sql_eq_sym sql_eq_trans unfolding owner_row_def is_row_def by blast
    then show "owner_row q s y = owner_row p s y"
      using sql_eq_sym sql_eq_trans unfolding owner_row_def by blast
  qed
  then show ?thesis
    using two filter_split_le [of "owner_row p s" "db_members s" "is_row p u"]
      u [unfolded unique_members_def, rule_format, of p u]
    unfolding CountProjectOwnersForUpdate_def by (simp del: length_greater_0_conv)
next
  case False
  then have "filter (\<lambda>x. owner_row q s x \<and> \<not> is_row p u x) (db_members s) = filter (owner_row q s) (db_members s)"
    by (intro filter_cong) auto
  then show ?thesis using q by (simp add: has_owner_def CountProjectOwnersForUpdate_def)
qed

lemma owner_row_users: "db_users s' = db_users s \<Longrightarrow> owner_row q s' = owner_row q s"
  by (intro ext) (simp add: owner_row_def user_active_def)

lemma delete_keeps:
  assumes "List.find (is_row p u) (db_members s) = Some m"
    and "pm_Role m = ''owner'' \<Longrightarrow> 2 \<le> CountProjectOwnersForUpdate p s"
  shows "keeps_owner s (DeleteProjectMember p u s)"
proof -
  have len: "length (filter P (filter Q xs)) \<le> length (filter P xs)" for P Q and xs :: "MemberRow list"
    by (induction xs) auto
  have "unique_members s \<Longrightarrow> unique_members (DeleteProjectMember p u s)"
    using len by (fastforce simp: unique_members_def DeleteProjectMember_def intro: le_trans simp del: filter_filter)
  moreover have "has_owner q (DeleteProjectMember p u s)" if "unique_members s" "has_owner q s" for q
    using owners_besides [OF that(1) assms that(2)] owner_row_users [of "DeleteProjectMember p u s" s q]
    by (auto simp: has_owner_def CountProjectOwnersForUpdate_def DeleteProjectMember_def filter_empty_conv)
  ultimately show ?thesis by (simp add: keeps_owner_def)
qed

lemma is_row_upd: "is_row p' u' (m\<lparr>pm_Role := r, pm_UpdatedAt := t\<rparr>) = is_row p' u' m"
  by (simp add: is_row_def)

lemma update_keeps:
  assumes f: "List.find (is_row p u) (db_members s) = Some m"
    and o: "pm_Role m = ''owner'' \<Longrightarrow> 2 \<le> CountProjectOwnersForUpdate p s"
    and up: "UpdateProjectMemberRole now p u r s = Inr (row, s')"
  shows "keeps_owner s s'"
proof -
  let ?f = "\<lambda>m. if is_row p u m then m\<lparr>pm_Role := r, pm_UpdatedAt := Some now\<rparr> else m"
  have s': "s' = s\<lparr>db_members := map ?f (db_members s)\<rparr>"
    using up f by (auto simp: UpdateProjectMemberRole_def Let_def split: if_splits)
  have row: "is_row p' u' (?f x) = is_row p' u' x" for p' u' x by (simp add: is_row_upd)
  have "unique_members s \<Longrightarrow> unique_members s'"
    by (simp add: unique_members_def s' filter_map o_def row)
  moreover have "has_owner q s'" if "unique_members s" "has_owner q s" for q
  proof -
    have le: "length (filter (\<lambda>x. owner_row q s x \<and> \<not> is_row p u x) xs) \<le> length (filter (owner_row q s) (map ?f xs))" for xs
      by (induction xs) auto
    have "0 < length (filter (\<lambda>x. owner_row q s x \<and> \<not> is_row p u x) (db_members s))"
      by (rule owners_besides [OF that(1) f o that(2)])
    with le [of "db_members s"] have "0 < length (filter (owner_row q s) (map ?f (db_members s)))"
      by linarith
    then show ?thesis
      using owner_row_users [of s' s q]
      by (simp only: has_owner_def CountProjectOwnersForUpdate_def s') simp
  qed
  ultimately show ?thesis by (simp add: keeps_owner_def)
qed

lemma create_keeps:
  assumes "CreateProjectMember now fresh p u r i s = Inr (row, s')"
  shows "keeps_owner s s'"
proof -
  have s': "s' = s\<lparr>db_members := db_members s @ [row]\<rparr>" and no: "\<not> list_ex (is_row p u) (db_members s)"
    and row: "pm_ProjectID row = p" "pm_UserID row = u"
    using assms by (auto simp: CreateProjectMember_def Let_def split: if_splits)
  have "length (filter (is_row p' u') (db_members s')) \<le> 1" if "unique_members s" for p' u'
  proof (cases "is_row p' u' row")
    case True
    then have "is_row p' u' = is_row p u"
      using sql_eq_sym sql_eq_trans unfolding is_row_def row by (intro ext) blast
    with no have "filter (is_row p' u') (db_members s) = []" by (simp add: list_ex_iff filter_empty_conv)
    then show ?thesis by (simp add: s')
  qed (use that in \<open>simp add: s' unique_members_def\<close>)
  then show ?thesis
    using owner_row_users [of s' s]
    by (auto simp: keeps_owner_def unique_members_def has_owner_def CountProjectOwnersForUpdate_def s')
qed

lemma update_role_body_keeps: "update_role_body now p u r a ft s = Inr (x, s') \<Longrightarrow> keeps_owner s s'"
  by (auto simp: update_role_body_def GetProjectMemberForUpdate_def query_Inr RoleOwner_def
      split: sum.splits option.splits if_splits prod.splits intro: update_keeps)

lemma remove_body_keeps: "remove_body p u self a ft s = Inr (x, s') \<Longrightarrow> keeps_owner s s'"
  by (auto simp: remove_body_def GetProjectMemberForUpdate_def query_Inr RoleOwner_def
      split: sum.splits option.splits if_splits intro: delete_keeps)

interpretation upd_tx: tx_body "update_role_body now p u r a" keeps_owner for now p u r a
  by unfold_locales (auto intro: update_role_body_keeps)

interpretation rem_tx: tx_body "remove_body p u self a" keeps_owner for p u self a
  by unfold_locales (auto intro: remove_body_keeps)

lemma tx_result_snd: "snd (tx_result x) = snd x"
  by (auto simp: tx_result_def split: prod.splits sum.splits db_error.splits)

lemma UpdateRole_keeps: "keeps_owner s (snd (UpdateRole now fts p u r a s))"
  by (simp add: UpdateRole_def tx_result_snd upd_tx.WithTx_R_snd keeps_owner_def [of s s] split: option.split)

lemma Remove_keeps: "keeps_owner s (snd (Remove fts p u a s))"
  by (simp add: Remove_def tx_result_snd rem_tx.WithTx_R_snd Let_def keeps_owner_def [of s s] split: option.split)

lemma Add_keeps: "keeps_owner s (snd (Add scan now fresh ft p u r a s))"
  by (auto simp: Add_def query_Inr split: option.splits sum.splits prod.splits if_splits
      dest!: exec_query_snd intro: create_keeps)

lemma member_step_keeps: "keeps_owner s (member_step op s)"
  by (cases op) (auto simp: UpdateRole_keeps Remove_keeps Add_keeps)

text \<open>C1: no sequence of membership calls, by whatever actors, with whatever failures of the
  database, leaves a project that had an active owner without one; and each user stays at most
  once a member of a project.\<close>

theorem membership_keeps_an_owner:
  assumes "unique_members s" "has_owner p s"
  shows "unique_members (fold member_step ops s) \<and> has_owner p (fold member_step ops s)"
  using assms member_step_keeps
  by (induction ops arbitrary: s) (auto simp: keeps_owner_def)

definition ex_uuid :: "nat \<Rightarrow> UUID" where
  "ex_uuid n = \<lparr>uuid_Bytes = replicate 15 (CHR 0x00) @ [char_of n], uuid_Valid = True\<rparr>"

definition ex_user :: "nat \<Rightarrow> bool \<Rightarrow> UserRow" where
  "ex_user n active = \<lparr>u_ID = ex_uuid n, u_Username = [], u_Email = [], u_DisplayName = None,
     u_AvatarUrl = None, u_IsActive = active, u_CreatedAt = None, u_UpdatedAt = None\<rparr>"

definition ex_member :: "nat \<Rightarrow> nat \<Rightarrow> string \<Rightarrow> MemberRow" where
  "ex_member p u role = \<lparr>pm_ID = ex_uuid 99, pm_ProjectID = ex_uuid p, pm_UserID = ex_uuid u,
     pm_Role = role, pm_InvitedBy = null_UUID, pm_CreatedAt = None, pm_UpdatedAt = None\<rparr>"

text \<open>A project 1 with the active owner 1 and the deactivated owner 2.\<close>

definition ex_db :: mdb where
  "ex_db = \<lparr>db_users = [ex_user 1 True, ex_user 2 False], db_projects = [ex_uuid 1],
     db_members = [ex_member 1 1 ''owner'', ex_member 1 2 ''owner'']\<rparr>"

lemma ex_chars: "char_of (Suc 0) = CHR 0x01" "char_of (1 :: nat) = CHR 0x01" "char_of (2 :: nat) = CHR 0x02"
  by code_simp+

lemmas ex_defs = ex_uuid_def ex_user_def ex_member_def ex_db_def ex_chars

lemma ex_db_ok: "unique_members ex_db" "has_owner (ex_uuid 1) ex_db"
  by (auto simp: unique_members_def has_owner_def CountProjectOwnersForUpdate_def owner_row_def
      user_active_def is_row_def sql_eq_def ex_defs dest: sym)

theorem membership_keeps_an_owner_witness:
  "let ops = [OpRemove (\<lambda>_ _. NoFault) (ex_uuid 1) (ex_uuid 1) (Some (DBMemberToDomain (ex_member 1 1 ''owner'')))]
   in unique_members (fold member_step ops ex_db) \<and> has_owner (ex_uuid 1) (fold member_step ops ex_db)"
  unfolding Let_def by (rule membership_keeps_an_owner [OF ex_db_ok])

section \<open>Authorisation\<close>

text \<open>What the transaction of a role change may do.\<close>

definition role_change_ok :: "UUID \<Rightarrow> UUID \<Rightarrow> ProjectMember \<Rightarrow> mdb \<Rightarrow> mdb \<Rightarrow> bool" where
  "role_change_ok p u a s s' =
     (s' = s \<or> (\<exists>t. GetProjectMemberForUpdate p u s = Some t \<and>
        (pm_Role t = RoleOwner \<longrightarrow> mem_Role a \<noteq> RoleAdmin)))"

interpretation upd_auth: tx_body "update_role_body now p u r a" "role_change_ok p u a" for now p u r a
  by unfold_locales
     (auto simp: role_change_ok_def update_role_body_def query_Inr split: sum.splits option.splits if_splits)

text \<open>A role change takes effect only for an actor of the same project who is admin or owner and
  not the target; and an admin neither makes an owner nor changes one.\<close>

theorem UpdateRole_authorised:
  assumes "snd (UpdateRole now fts projectID targetUserID newRole actor s) \<noteq> s"
  shows "\<exists>a t. actor = Some a \<and> mem_ProjectID a = PgUUIDToString projectID \<and>
     mem_UserID a \<noteq> PgUUIDToString targetUserID \<and> RoleKnown newRole \<and>
     GetProjectMemberForUpdate projectID targetUserID s = Some t \<and>
     (mem_Role a = RoleOwner \<or>
      mem_Role a = RoleAdmin \<and> newRole \<noteq> RoleOwner \<and> pm_Role t \<noteq> RoleOwner)"
proof -
  obtain a where a: "actor = Some a" "mem_ProjectID a = PgUUIDToString projectID" "RoleKnown newRole"
    "mem_UserID a \<noteq> PgUUIDToString targetUserID" "RoleSufficient (mem_Role a) RoleAdmin"
    "\<not> (mem_Role a = RoleAdmin \<and> newRole = RoleOwner)"
    "snd (WithTx (update_role_body now projectID targetUserID newRole a) fts s) \<noteq> s"
    using assms by (auto simp: UpdateRole_def validateActor_def tx_result_snd split: option.splits if_splits)
  obtain t where "GetProjectMemberForUpdate projectID targetUserID s = Some t"
    "pm_Role t = RoleOwner \<longrightarrow> mem_Role a \<noteq> RoleAdmin"
    using upd_auth.WithTx_R [of now projectID targetUserID newRole a fts s] a(7)
    by (cases "WithTx (update_role_body now projectID targetUserID newRole a) fts s")
       (auto simp: role_change_ok_def)
  then show ?thesis using a by (auto simp: RoleSufficient_admin)
qed

theorem UpdateRole_authorised_witness:
  "let s = ex_db\<lparr>db_members := [ex_member 1 1 ''owner'', ex_member 1 2 ''member'']\<rparr>;
       act = Some (DBMemberToDomain (ex_member 1 1 ''owner''))
   in \<exists>a t. act = Some a \<and> mem_ProjectID a = PgUUIDToString (ex_uuid 1) \<and>
     mem_UserID a \<noteq> PgUUIDToString (ex_uuid 2) \<and> RoleKnown ''admin'' \<and>
     GetProjectMemberForUpdate (ex_uuid 1) (ex_uuid 2) s = Some t \<and>
     (mem_Role a = RoleOwner \<or> mem_Role a = RoleAdmin \<and> ''admin'' \<noteq> RoleOwner \<and> pm_Role t \<noteq> RoleOwner)"
proof -
  let ?s = "ex_db\<lparr>db_members := [ex_member 1 1 ''owner'', ex_member 1 2 ''member'']\<rparr>"
  let ?a = "Some (DBMemberToDomain (ex_member 1 1 ''owner''))"
  have "PgUUIDToString (ex_uuid 1) \<noteq> PgUUIDToString (ex_uuid 2)"
    using PgUUIDToString_inj [of "ex_uuid 1" "ex_uuid 2"] by (auto simp: ex_uuid_def wf_UUID_def)
  then have "snd (UpdateRole 5 (\<lambda>_ _. NoFault) (ex_uuid 1) (ex_uuid 2) ''admin'' ?a ?s) \<noteq> ?s"
    by (simp add: UpdateRole_def validateActor_def DBMemberToDomain_def uuid_or_empty_def tx_result_snd
        WithTx_no_fault update_role_body_def query_def GetProjectMemberForUpdate_def is_row_def sql_eq_def
        UpdateProjectMemberRole_def RoleKnown_def RoleSufficient_def role_defs ex_defs)
  from UpdateRole_authorised [OF this] show ?thesis unfolding Let_def by simp
qed

text \<open>The actor the middleware makes for an API key (role \<^verbatim>\<open>read\<close> or \<^verbatim>\<open>write\<close>, no user id)
  cannot change any membership: every call leaves the tables as they are.\<close>

theorem api_key_actor_changes_nothing:
  assumes "KeyRoleValid (mem_Role a)" "mem_UserID a = []" "wf_UUID u" "uuid_Valid u"
  shows "snd (UpdateRole now fts p u r (Some a) s) = s \<and>
         snd (Add scan now fresh ft p u r (Some a) s) = s \<and>
         snd (Remove fts p u (Some a) s) = s"
proof -
  have "\<not> RoleSufficient (mem_Role a) RoleAdmin"
    using assms(1) by (auto simp: KeyRoleValid_def RoleSufficient_def role_defs)
  moreover have "mem_UserID a \<noteq> PgUUIDToString u"
    using assms(2-4) by (auto simp: PgUUIDToString_def dashed_def)
  ultimately show ?thesis
    by (auto simp: UpdateRole_def Add_def Remove_def Let_def split: option.split)
qed

theorem api_key_actor_changes_nothing_witness:
  "let a = \<lparr>mem_ID = [], mem_ProjectID = PgUUIDToString (ex_uuid 1), mem_UserID = [], mem_Role = ''write'',
            mem_CreatedAt = 0, mem_UpdatedAt = 0\<rparr>
   in snd (UpdateRole 5 (\<lambda>_ _. NoFault) (ex_uuid 1) (ex_uuid 2) ''admin'' (Some a) ex_db) = ex_db \<and>
      snd (Add (\<lambda>_. None) 5 (ex_uuid 7) (\<lambda>_. NoFault) (ex_uuid 1) (ex_uuid 2) ''admin'' (Some a) ex_db) = ex_db \<and>
      snd (Remove (\<lambda>_ _. NoFault) (ex_uuid 1) (ex_uuid 2) (Some a) ex_db) = ex_db"
  unfolding Let_def
  by (rule api_key_actor_changes_nothing)
     (simp_all add: KeyRoleValid_def KeyRoleWrite_def wf_UUID_def ex_uuid_def)

section \<open>Counting active owners\<close>

text \<open>The last-owner check counts active owners only, so with one active owner left a
  deactivated owner can be neither removed nor demoted: the call is refused as a change of the
  last owner although another owner remains.\<close>

theorem deactivated_owner_cannot_be_removed:
  assumes "GetProjectMemberForUpdate p u s = Some t" "pm_Role t = RoleOwner"
    and "CountProjectOwnersForUpdate p s = 1"
    and "mem_ProjectID a = PgUUIDToString p" "mem_Role a = RoleOwner"
  shows "Remove (\<lambda>_ _. NoFault) p u (Some a) s =
           (Inl (Conflict ''cannot remove the last project owner''), s)"
  using assms RoleSufficient_admin [of RoleOwner]
  by (simp add: Remove_def validateActor_def Let_def WithTx_no_fault remove_body_def
      query_def tx_result_def role_defs)

theorem deactivated_owner_cannot_be_removed_witness:
  "\<not> user_active ex_db (ex_uuid 2) \<and>
   Remove (\<lambda>_ _. NoFault) (ex_uuid 1) (ex_uuid 2) (Some (DBMemberToDomain (ex_member 1 1 ''owner''))) ex_db =
     (Inl (Conflict ''cannot remove the last project owner''), ex_db)"
proof -
  have "GetProjectMemberForUpdate (ex_uuid 1) (ex_uuid 2) ex_db = Some (ex_member 1 2 ''owner'')"
    "CountProjectOwnersForUpdate (ex_uuid 1) ex_db = 1" "\<not> user_active ex_db (ex_uuid 2)"
    by (simp_all add: GetProjectMemberForUpdate_def CountProjectOwnersForUpdate_def owner_row_def
        user_active_def is_row_def sql_eq_def ex_defs)
  then show ?thesis
    using deactivated_owner_cannot_be_removed
      [of "ex_uuid 1" "ex_uuid 2" ex_db "ex_member 1 2 ''owner''" "DBMemberToDomain (ex_member 1 1 ''owner'')"]
    by (simp add: DBMemberToDomain_def uuid_or_empty_def RoleOwner_def ex_member_def) (simp add: ex_uuid_def)
qed

end
