(* ===== verification/Job_Store.thy ===== *)
theory Job_Store
  imports Membership
begin

text \<open>
  Indexing jobs and index snapshots: the tables \<^verbatim>\<open>indexing_jobs\<close>, \<^verbatim>\<open>index_snapshots\<close> and the snapshot
  column of \<^verbatim>\<open>files\<close>, the queries of \<^verbatim>\<open>src/datastore/postgres/sqlc/indexing.sql.go\<close>, and the
  operations over them: \<^verbatim>\<open>src/backend-worker/internal/repository/job.go\<close> and \<^verbatim>\<open>ActivateSnapshotTx\<close>
  of \<^verbatim>\<open>src/backend-worker/internal/indexing/pipeline.go\<close>. \<open>now\<close> is the value of \<^verbatim>\<open>NOW()\<close>, in
  microseconds.
\<close>

section \<open>Tables\<close>

record IndexingJob =
  job_ID :: UUID
  job_ProjectID :: UUID
  job_IndexSnapshotID :: UUID
  job_JobType :: string
  job_Status :: string
  job_FilesProcessed :: int
  job_ChunksUpserted :: int
  job_VectorsDeleted :: int
  job_ErrorDetails :: string
  job_EmbeddingProviderConfigID :: UUID
  job_LlmProviderConfigID :: UUID
  job_WorkerID :: "string option"
  job_StartedAt :: "timestamp option"
  job_FinishedAt :: "timestamp option"
  job_CreatedAt :: "timestamp option"

record IndexSnapshot =
  snap_ID :: UUID
  snap_ProjectID :: UUID
  snap_Branch :: string
  snap_EmbeddingVersionID :: UUID
  snap_GitCommit :: string
  snap_IsActive :: bool
  snap_Status :: string
  snap_CreatedAt :: "timestamp option"
  snap_ActivatedAt :: "timestamp option"
  snap_CommitID :: UUID

record jdb =
  db_jobs :: "IndexingJob list"
  db_snaps :: "IndexSnapshot list"
  db_files :: "(UUID \<times> string) list"

text \<open>\<^verbatim>\<open>UPDATE ... SET f WHERE p\<close> with the number of rows it affects.\<close>

definition update_rows :: "('r \<Rightarrow> bool) \<Rightarrow> ('r \<Rightarrow> 'r) \<Rightarrow> 'r list \<Rightarrow> 'r list" where
  "update_rows p f rows = map (\<lambda>r. if p r then f r else r) rows"

definition update_jobs :: "(IndexingJob \<Rightarrow> bool) \<Rightarrow> (IndexingJob \<Rightarrow> IndexingJob) \<Rightarrow> jdb \<Rightarrow> nat \<times> jdb" where
  "update_jobs p f s = (length (filter p (db_jobs s)), s\<lparr>db_jobs := update_rows p f (db_jobs s)\<rparr>)"

section \<open>Queries on jobs\<close>

definition GetIndexingJob :: "UUID \<Rightarrow> jdb \<Rightarrow> IndexingJob option" where
  "GetIndexingJob i s = List.find (\<lambda>j. sql_eq (job_ID j) i) (db_jobs s)"

text \<open>\<open>fresh\<close> is the id the database generates.\<close>

definition CreateIndexingJob ::
  "timestamp \<Rightarrow> UUID \<Rightarrow> UUID \<Rightarrow> UUID \<Rightarrow> string \<Rightarrow> UUID \<Rightarrow> UUID \<Rightarrow> jdb \<Rightarrow> IndexingJob \<times> jdb" where
  "CreateIndexingJob now fresh projectID snapshotID jobType embID llmID s =
     (let j = \<lparr>job_ID = fresh, job_ProjectID = projectID, job_IndexSnapshotID = snapshotID, job_JobType = jobType,
               job_Status = ''queued'', job_FilesProcessed = 0, job_ChunksUpserted = 0, job_VectorsDeleted = 0,
               job_ErrorDetails = ''[]'', job_EmbeddingProviderConfigID = embID, job_LlmProviderConfigID = llmID,
               job_WorkerID = None, job_StartedAt = None, job_FinishedAt = None, job_CreatedAt = Some now\<rparr>
      in (j, s\<lparr>db_jobs := db_jobs s @ [j]\<rparr>))"

definition ClaimQueuedIndexingJob :: "timestamp \<Rightarrow> string option \<Rightarrow> UUID \<Rightarrow> jdb \<Rightarrow> nat \<times> jdb" where
  "ClaimQueuedIndexingJob now workerID i =
     update_jobs (\<lambda>j. sql_eq (job_ID j) i \<and> job_Status j = ''queued'')
       (\<lambda>j. j\<lparr>job_Status := ''running'', job_StartedAt := Some now, job_WorkerID := workerID\<rparr>)"

definition SetIndexingJobRunning :: "timestamp \<Rightarrow> UUID \<Rightarrow> jdb \<Rightarrow> nat \<times> jdb" where
  "SetIndexingJobRunning now i =
     update_jobs (\<lambda>j. sql_eq (job_ID j) i) (\<lambda>j. j\<lparr>job_Status := ''running'', job_StartedAt := Some now\<rparr>)"

definition SetIndexingJobProgress :: "UUID \<Rightarrow> int \<Rightarrow> int \<Rightarrow> int \<Rightarrow> jdb \<Rightarrow> nat \<times> jdb" where
  "SetIndexingJobProgress i files chunks vectors =
     update_jobs (\<lambda>j. sql_eq (job_ID j) i)
       (\<lambda>j. j\<lparr>job_FilesProcessed := files, job_ChunksUpserted := chunks, job_VectorsDeleted := vectors\<rparr>)"

definition SetIndexingJobCompletedFromRunning :: "timestamp \<Rightarrow> UUID \<Rightarrow> jdb \<Rightarrow> nat \<times> jdb" where
  "SetIndexingJobCompletedFromRunning now i =
     update_jobs (\<lambda>j. sql_eq (job_ID j) i \<and> job_Status j = ''running'')
       (\<lambda>j. j\<lparr>job_Status := ''completed'', job_FinishedAt := Some now\<rparr>)"

definition SetIndexingJobFailedFromRunning :: "timestamp \<Rightarrow> UUID \<Rightarrow> string \<Rightarrow> jdb \<Rightarrow> nat \<times> jdb" where
  "SetIndexingJobFailedFromRunning now i details =
     update_jobs (\<lambda>j. sql_eq (job_ID j) i \<and> job_Status j = ''running'')
       (\<lambda>j. j\<lparr>job_Status := ''failed'', job_ErrorDetails := details, job_FinishedAt := Some now\<rparr>)"

definition FailStaleJob :: "timestamp \<Rightarrow> UUID \<Rightarrow> string \<Rightarrow> jdb \<Rightarrow> nat \<times> jdb" where
  "FailStaleJob now i details =
     update_jobs (\<lambda>j. sql_eq (job_ID j) i \<and> job_Status j = ''running'')
       (\<lambda>j. j\<lparr>job_Status := ''failed'', job_ErrorDetails := details, job_FinishedAt := Some now\<rparr>)"

definition SetIndexingJobFailed :: "timestamp \<Rightarrow> UUID \<Rightarrow> string \<Rightarrow> jdb \<Rightarrow> nat \<times> jdb" where
  "SetIndexingJobFailed now i details =
     update_jobs (\<lambda>j. sql_eq (job_ID j) i)
       (\<lambda>j. j\<lparr>job_Status := ''failed'', job_ErrorDetails := details, job_FinishedAt := Some now\<rparr>)"

definition ListStaleRunningJobs :: "timestamp \<Rightarrow> int \<Rightarrow> jdb \<Rightarrow> IndexingJob list" where
  "ListStaleRunningJobs now threshold s =
     filter (\<lambda>j. job_Status j = ''running'' \<and>
       (case job_StartedAt j of None \<Rightarrow> False | Some t \<Rightarrow> t < now - threshold)) (db_jobs s)"

section \<open>Queries on snapshots\<close>

definition snap_key :: "UUID \<Rightarrow> string \<Rightarrow> UUID \<Rightarrow> string \<Rightarrow> IndexSnapshot \<Rightarrow> bool" where
  "snap_key p branch ev commit r =
     (sql_eq (snap_ProjectID r) p \<and> snap_Branch r = branch \<and> sql_eq (snap_EmbeddingVersionID r) ev \<and>
      snap_GitCommit r = commit)"

text \<open>The INSERT with its ON CONFLICT clause: a snapshot of the same commit is taken over.\<close>

definition CreateIndexSnapshot ::
  "timestamp \<Rightarrow> UUID \<Rightarrow> UUID \<Rightarrow> string \<Rightarrow> UUID \<Rightarrow> string \<Rightarrow> jdb \<Rightarrow> IndexSnapshot \<times> jdb" where
  "CreateIndexSnapshot now fresh p branch ev commit s =
     (let redo = (\<lambda>r. r\<lparr>snap_Status := ''building'', snap_IsActive := False, snap_ActivatedAt := None\<rparr>)
      in case List.find (snap_key p branch ev commit) (db_snaps s) of
           Some r \<Rightarrow> (redo r, s\<lparr>db_snaps := update_rows (snap_key p branch ev commit) redo (db_snaps s)\<rparr>)
         | None \<Rightarrow>
             (let r = \<lparr>snap_ID = fresh, snap_ProjectID = p, snap_Branch = branch, snap_EmbeddingVersionID = ev,
                       snap_GitCommit = commit, snap_IsActive = False, snap_Status = ''building'',
                       snap_CreatedAt = Some now, snap_ActivatedAt = None, snap_CommitID = null_UUID\<rparr>
              in (r, s\<lparr>db_snaps := db_snaps s @ [r]\<rparr>)))"

definition DeactivateActiveSnapshot :: "UUID \<Rightarrow> string \<Rightarrow> jdb \<Rightarrow> jdb" where
  "DeactivateActiveSnapshot p branch s =
     s\<lparr>db_snaps := update_rows (\<lambda>r. sql_eq (snap_ProjectID r) p \<and> snap_Branch r = branch \<and> snap_IsActive r)
                     (\<lambda>r. r\<lparr>snap_IsActive := False\<rparr>) (db_snaps s)\<rparr>"

definition ActivateSnapshot :: "timestamp \<Rightarrow> UUID \<Rightarrow> jdb \<Rightarrow> jdb" where
  "ActivateSnapshot now i s =
     s\<lparr>db_snaps := update_rows (\<lambda>r. sql_eq (snap_ID r) i)
                     (\<lambda>r. r\<lparr>snap_IsActive := True, snap_Status := ''active'', snap_ActivatedAt := Some now\<rparr>) (db_snaps s)\<rparr>"

text \<open>Deleting a snapshot cascades to its files and sets the reference of its jobs to NULL.\<close>

definition DeleteOrphanedBuildingSnapshot :: "UUID \<Rightarrow> jdb \<Rightarrow> jdb" where
  "DeleteOrphanedBuildingSnapshot i s =
     (let dead = (\<lambda>r. sql_eq (snap_ID r) i \<and> snap_Status r = ''building'' \<and> \<not> snap_IsActive r)
      in if \<not> list_ex dead (db_snaps s) then s
         else \<lparr>db_jobs = update_rows (\<lambda>j. sql_eq (job_IndexSnapshotID j) i) (\<lambda>j. j\<lparr>job_IndexSnapshotID := null_UUID\<rparr>) (db_jobs s),
               db_snaps = filter (\<lambda>r. \<not> dead r) (db_snaps s),
               db_files = filter (\<lambda>f. \<not> sql_eq (fst f) i) (db_files s)\<rparr>)"

definition DeleteSnapshotArtifacts :: "UUID \<Rightarrow> jdb \<Rightarrow> jdb" where
  "DeleteSnapshotArtifacts i s = s\<lparr>db_files := filter (\<lambda>f. \<not> sql_eq (fst f) i) (db_files s)\<rparr>"

definition GetIndexSnapshot :: "UUID \<Rightarrow> jdb \<Rightarrow> IndexSnapshot option" where
  "GetIndexSnapshot i s = List.find (\<lambda>r. sql_eq (snap_ID r) i) (db_snaps s)"

definition UpdateSnapshotCommitID :: "UUID \<Rightarrow> UUID \<Rightarrow> UUID \<Rightarrow> jdb \<Rightarrow> nat \<times> jdb" where
  "UpdateSnapshotCommitID p i commit s =
     (let hit = (\<lambda>r. sql_eq (snap_ProjectID r) p \<and> sql_eq (snap_ID r) i)
      in (length (filter hit (db_snaps s)), s\<lparr>db_snaps := update_rows hit (\<lambda>r. r\<lparr>snap_CommitID := commit\<rparr>) (db_snaps s)\<rparr>))"

definition ListOrphanedBuildingSnapshots :: "jdb \<Rightarrow> IndexSnapshot list" where
  "ListOrphanedBuildingSnapshots s =
     filter (\<lambda>r. snap_Status r = ''building'' \<and> \<not> snap_IsActive r \<and>
       \<not> list_ex (\<lambda>j. sql_eq (job_IndexSnapshotID j) (snap_ID r) \<and> job_Status j \<in> {''queued'', ''running''}) (db_jobs s))
       (db_snaps s)"

section \<open>The repository\<close>

datatype job_error = ErrJobNotQueued | ErrProjectLocked | ErrDB db_error

definition db_result :: "(db_error + 'a) \<times> jdb \<Rightarrow> (job_error + 'a) \<times> jdb" where
  "db_result x = (case x of (Inl e, s) \<Rightarrow> (Inl (ErrDB e), s) | (Inr a, s) \<Rightarrow> (Inr a, s))"

definition ClaimJob :: "timestamp \<Rightarrow> faults \<Rightarrow> UUID \<Rightarrow> string \<Rightarrow> jdb \<Rightarrow> (job_error + unit) \<times> jdb" where
  "ClaimJob now ft i workerID s =
     (case exec_query ft ''ClaimQueuedIndexingJob''
             (Inr (ClaimQueuedIndexingJob now (if workerID \<noteq> [] then Some workerID else None) i s)) s of
        (Inl e, s') \<Rightarrow> (Inl (ErrDB e), s')
      | (Inr rows, s') \<Rightarrow> (if rows = 0 then Inl ErrJobNotQueued else Inr (), s'))"

definition CreateSnapshot ::
  "timestamp \<Rightarrow> UUID \<Rightarrow> faults \<Rightarrow> UUID \<Rightarrow> string \<Rightarrow> UUID \<Rightarrow> string \<Rightarrow> jdb \<Rightarrow> (job_error + IndexSnapshot) \<times> jdb" where
  "CreateSnapshot now fresh ft p branch ev commit s =
     db_result (exec_query ft ''CreateIndexSnapshot'' (Inr (CreateIndexSnapshot now fresh p branch ev commit s)) s)"

definition SetJobRunning :: "timestamp \<Rightarrow> faults \<Rightarrow> UUID \<Rightarrow> jdb \<Rightarrow> (job_error + unit) \<times> jdb" where
  "SetJobRunning now ft i s =
     (case exec_query ft ''SetIndexingJobRunning'' (Inr (SetIndexingJobRunning now i s)) s of
        (Inl e, s') \<Rightarrow> (Inl (ErrDB e), s') | (Inr _, s') \<Rightarrow> (Inr (), s'))"

definition SetJobProgress :: "faults \<Rightarrow> UUID \<Rightarrow> int \<Rightarrow> int \<Rightarrow> int \<Rightarrow> jdb \<Rightarrow> (job_error + unit) \<times> jdb" where
  "SetJobProgress ft i files chunks vectors s =
     (case exec_query ft ''SetIndexingJobProgress'' (Inr (SetIndexingJobProgress i files chunks vectors s)) s of
        (Inl e, s') \<Rightarrow> (Inl (ErrDB e), s') | (Inr _, s') \<Rightarrow> (Inr (), s'))"

definition SetJobCompleted :: "timestamp \<Rightarrow> faults \<Rightarrow> UUID \<Rightarrow> jdb \<Rightarrow> (job_error + bool) \<times> jdb" where
  "SetJobCompleted now ft i s =
     (case exec_query ft ''SetIndexingJobCompletedFromRunning'' (Inr (SetIndexingJobCompletedFromRunning now i s)) s of
        (Inl e, s') \<Rightarrow> (Inl (ErrDB e), s') | (Inr rows, s') \<Rightarrow> (Inr (rows > 0), s'))"

definition SetJobFailed :: "timestamp \<Rightarrow> faults \<Rightarrow> UUID \<Rightarrow> string \<Rightarrow> jdb \<Rightarrow> (job_error + bool) \<times> jdb" where
  "SetJobFailed now ft i details s =
     (case exec_query ft ''SetIndexingJobFailedFromRunning'' (Inr (SetIndexingJobFailedFromRunning now i details s)) s of
        (Inl e, s') \<Rightarrow> (Inl (ErrDB e), s') | (Inr rows, s') \<Rightarrow> (Inr (rows > 0), s'))"

text \<open>\<^verbatim>\<open>ActivateSnapshotTx\<close>: both updates in one transaction, no retry.\<close>

definition activate_body :: "timestamp \<Rightarrow> UUID \<Rightarrow> string \<Rightarrow> UUID \<Rightarrow> faults \<Rightarrow> jdb \<Rightarrow> db_error + unit \<times> jdb" where
  "activate_body now p branch i ft s =
     (case query ft ''DeactivateActiveSnapshot'' (Inr (DeactivateActiveSnapshot p branch s)) of
        Inl e \<Rightarrow> Inl e
      | Inr s1 \<Rightarrow>
          (case query ft ''ActivateSnapshot'' (Inr (ActivateSnapshot now i s1)) of
             Inl e \<Rightarrow> Inl e
           | Inr s2 \<Rightarrow> Inr ((), s2)))"

definition ActivateSnapshotTx :: "timestamp \<Rightarrow> faults \<Rightarrow> UUID \<Rightarrow> string \<Rightarrow> UUID \<Rightarrow> jdb \<Rightarrow> (db_error + unit) \<times> jdb" where
  "ActivateSnapshotTx now ft p branch i s = execTx (activate_body now p branch i) ft s"

section \<open>Project locks\<close>

definition be32 :: "string \<Rightarrow> int" where
  "be32 b = i32 (int (foldl (\<lambda>n c. 256 * n + byte c) 0 b))"

definition advisoryLockKeys :: "UUID \<Rightarrow> int \<times> int" where
  "advisoryLockKeys i = (be32 (take 4 (uuid_Bytes i)), be32 (take 4 (drop 4 (uuid_Bytes i))))"

text \<open>The advisory locks held, each by a session. A lock is per session: a session may take a key it
  holds again.\<close>

type_synonym locks = "(int \<times> int) \<rightharpoonup> nat"

definition TryProjectLock :: "faults \<Rightarrow> nat \<Rightarrow> UUID \<Rightarrow> locks \<Rightarrow> (job_error + unit) \<times> locks" where
  "TryProjectLock ft sess p L =
     (case query ft ''acquirePinned'' (Inr ()) of
        Inl e \<Rightarrow> (Inl (ErrDB e), L)
      | Inr _ \<Rightarrow>
          (let k = advisoryLockKeys p;
               free = (case L k of None \<Rightarrow> True | Some t \<Rightarrow> t = sess)
           in case query ft ''TryAdvisoryLockForProject'' (Inr free) of
                Inl e \<Rightarrow> (Inl (ErrDB e), if ft ''TryAdvisoryLockForProject'' = LostAnswer \<and> free then L(k \<mapsto> sess) else L)
              | Inr acquired \<Rightarrow> if \<not> acquired then (Inl ErrProjectLocked, L) else (Inr (), L(k \<mapsto> sess))))"

text \<open>The unlock function: when the release query fails the connection is destroyed, which ends the
  session and frees its locks as well.\<close>

definition unlock_project :: "faults \<Rightarrow> nat \<Rightarrow> UUID \<Rightarrow> locks \<Rightarrow> locks" where
  "unlock_project ft sess p L =
     (case query ft ''ReleaseAdvisoryLockForProject'' (Inr ()) of
        Inr _ \<Rightarrow> (if L (advisoryLockKeys p) = Some sess then L(advisoryLockKeys p := None) else L)
      | Inl _ \<Rightarrow> (\<lambda>k. if L k = Some sess then None else L k))"

section \<open>Histories\<close>

text \<open>The calls that change the tables, by whichever process. The identifiers the database generates are
  new, and a workflow activates a snapshot with the project and branch it was created with. The
  last rule is the API's compensation when a new job cannot be enqueued
  (\<^verbatim>\<open>src/backend-api/internal/handler/project.go\<close>). \<^verbatim>\<open>SetJobRunning\<close> of the repository, which sets the
  status of any job and which no code calls, is not a step; what it does to a finished job is
  \<open>SetJobRunning_revives\<close>.\<close>

definition new_job_id :: "UUID \<Rightarrow> jdb \<Rightarrow> bool" where
  "new_job_id i s = (\<forall>j \<in> set (db_jobs s). \<not> sql_eq (job_ID j) i)"

definition new_snap_id :: "UUID \<Rightarrow> jdb \<Rightarrow> bool" where
  "new_snap_id i s = (\<forall>r \<in> set (db_snaps s). \<not> sql_eq (snap_ID r) i)"

definition snap_of :: "UUID \<Rightarrow> string \<Rightarrow> UUID \<Rightarrow> jdb \<Rightarrow> bool" where
  "snap_of p branch i s =
     (\<forall>r \<in> set (db_snaps s). sql_eq (snap_ID r) i \<longrightarrow> sql_eq (snap_ProjectID r) p \<and> snap_Branch r = branch)"

inductive job_step :: "jdb \<Rightarrow> jdb \<Rightarrow> bool" where
  create: "new_job_id fresh s \<Longrightarrow> job_step s (snd (CreateIndexingJob now fresh p sn jt emb llm s))"
| claim: "job_step s (snd (ClaimJob now ft i w s))"
| progress: "job_step s (snd (SetJobProgress ft i a b c s))"
| complete: "job_step s (snd (SetJobCompleted now ft i s))"
| fail: "job_step s (snd (SetJobFailed now ft i d s))"
| reap: "job_step s (snd (exec_query ft ''FailStaleJob'' (Inr (FailStaleJob now i d s)) s))"
| snapshot: "new_snap_id fresh s \<Longrightarrow> job_step s (snd (CreateSnapshot now fresh ft p branch ev commit s))"
| clean: "job_step s (DeleteSnapshotArtifacts i s)"
| activate: "snap_of p branch i s \<Longrightarrow> job_step s (snd (ActivateSnapshotTx now ft p branch i s))"
| orphan: "job_step s (DeleteOrphanedBuildingSnapshot i s)"
| link: "job_step s (snd (exec_query ft ''UpdateSnapshotCommitID'' (Inr (UpdateSnapshotCommitID p i commit s)) s))"

inductive job_step_any :: "jdb \<Rightarrow> jdb \<Rightarrow> bool" where
  normal: "job_step s s' \<Longrightarrow> job_step_any s s'"
| compensate: "job_step_any s (snd (exec_query ft ''SetIndexingJobFailed'' (Inr (SetIndexingJobFailed now i d s)) s))"

text \<open>\<open>jobs_sat i P s\<close>: the job \<open>i\<close> is there and satisfies \<open>P\<close>.\<close>

definition jobs_sat :: "UUID \<Rightarrow> (string \<Rightarrow> bool) \<Rightarrow> jdb \<Rightarrow> bool" where
  "jobs_sat i P s \<longleftrightarrow> (\<exists>j \<in> set (db_jobs s). sql_eq (job_ID j) i) \<and>
     (\<forall>j \<in> set (db_jobs s). sql_eq (job_ID j) i \<longrightarrow> P (job_Status j))"

lemma jobs_sat_update:
  assumes "jobs_sat i P s" "\<And>j. job_ID (f j) = job_ID j"
    and "\<And>j. sql_eq (job_ID j) i \<Longrightarrow> p j \<Longrightarrow> P (job_Status j) \<Longrightarrow> P (job_Status (f j))"
  shows "jobs_sat i P (snd (update_jobs p f s))"
proof -
  define g where "g = (\<lambda>j. if p j then f j else j)"
  have "job_ID (g j) = job_ID j" "sql_eq (job_ID j) i \<Longrightarrow> P (job_Status j) \<Longrightarrow> P (job_Status (g j))" for j
    using assms(2,3) by (simp_all add: g_def)
  moreover have "db_jobs (snd (update_jobs p f s)) = map g (db_jobs s)"
    by (simp add: update_jobs_def update_rows_def g_def)
  ultimately show ?thesis using assms(1) by (auto simp: jobs_sat_def)
qed

lemma exec_query_keeps:
  assumes "P s" "P s'"
  shows "P (snd (exec_query ft n (Inr (a, s')) s))"
  using assms by (simp add: exec_query_def)

lemma exec_update_keeps:
  assumes "jobs_sat i P s" "\<And>j. job_ID (f j) = job_ID j"
    and "\<And>j. sql_eq (job_ID j) i \<Longrightarrow> p j \<Longrightarrow> P (job_Status j) \<Longrightarrow> P (job_Status (f j))"
  shows "jobs_sat i P (snd (exec_query ft n (Inr (update_jobs p f s)) s))"
  using exec_query_keeps [of "jobs_sat i P" s "snd (update_jobs p f s)" ft n "fst (update_jobs p f s)"]
    jobs_sat_update [OF assms] assms(1) by simp

lemma snd_repo:
  "snd (ClaimJob now ft i w s) =
     snd (exec_query ft ''ClaimQueuedIndexingJob'' (Inr (ClaimQueuedIndexingJob now (if w \<noteq> [] then Some w else None) i s)) s)"
  "snd (SetJobProgress ft i a b c s) = snd (exec_query ft ''SetIndexingJobProgress'' (Inr (SetIndexingJobProgress i a b c s)) s)"
  "snd (SetJobCompleted now ft i s) =
     snd (exec_query ft ''SetIndexingJobCompletedFromRunning'' (Inr (SetIndexingJobCompletedFromRunning now i s)) s)"
  "snd (SetJobFailed now ft i d s) =
     snd (exec_query ft ''SetIndexingJobFailedFromRunning'' (Inr (SetIndexingJobFailedFromRunning now i d s)) s)"
  "snd (CreateSnapshot now fresh ft p branch ev commit s) =
     snd (exec_query ft ''CreateIndexSnapshot'' (Inr (CreateIndexSnapshot now fresh p branch ev commit s)) s)"
  by (simp_all add: ClaimJob_def SetJobProgress_def SetJobCompleted_def SetJobFailed_def CreateSnapshot_def
      db_result_def split: prod.split sum.split)

lemma activate_result:
  "snd (ActivateSnapshotTx now ft p branch i s) = s \<or>
   snd (ActivateSnapshotTx now ft p branch i s) = ActivateSnapshot now i (DeactivateActiveSnapshot p branch s)"
  by (auto simp: ActivateSnapshotTx_def execTx_def activate_body_def query_Inr split: sum.splits)

lemma snap_queries_jobs:
  "db_jobs (DeleteSnapshotArtifacts i s) = db_jobs s" "db_jobs (ActivateSnapshot now i s) = db_jobs s"
  "db_jobs (DeactivateActiveSnapshot p branch s) = db_jobs s"
  "db_jobs (snd (CreateIndexSnapshot now fresh p branch ev commit s)) = db_jobs s"
  by (auto simp: DeleteSnapshotArtifacts_def ActivateSnapshot_def DeactivateActiveSnapshot_def
      CreateIndexSnapshot_def Let_def split: option.split)

lemma link_frame:
  "db_jobs (snd (exec_query ft n (Inr (UpdateSnapshotCommitID p i commit s)) s)) = db_jobs s"
  "\<exists>g. db_snaps (snd (exec_query ft n (Inr (UpdateSnapshotCommitID p i commit s)) s)) = map g (db_snaps s) \<and>
     (\<forall>r. \<exists>c. g r = r\<lparr>snap_CommitID := c\<rparr>)"
proof -
  show "db_jobs (snd (exec_query ft n (Inr (UpdateSnapshotCommitID p i commit s)) s)) = db_jobs s"
    by (simp add: exec_query_def UpdateSnapshotCommitID_def Let_def)
  have id: "\<exists>c. r = r\<lparr>snap_CommitID := c\<rparr>" for r :: IndexSnapshot by (rule exI [of _ "snap_CommitID r"]) simp
  let ?g = "\<lambda>r :: IndexSnapshot. if sql_eq (snap_ProjectID r) p \<and> sql_eq (snap_ID r) i then r\<lparr>snap_CommitID := commit\<rparr> else r"
  have g: "\<exists>c. ?g r = r\<lparr>snap_CommitID := c\<rparr>" for r
    using id [of r] by (cases "sql_eq (snap_ProjectID r) p \<and> sql_eq (snap_ID r) i") (simp_all only: if_True if_False simp_thms, blast)
  show "\<exists>g. db_snaps (snd (exec_query ft n (Inr (UpdateSnapshotCommitID p i commit s)) s)) = map g (db_snaps s) \<and>
     (\<forall>r. \<exists>c. g r = r\<lparr>snap_CommitID := c\<rparr>)"
  proof (cases "ft n \<in> {NoFault, LostAnswer}")
    case True
    then show ?thesis
      using g by (intro exI [of _ ?g] conjI allI) (simp add: exec_query_def UpdateSnapshotCommitID_def Let_def update_rows_def, blast)
  next
    case False
    then show ?thesis
      using id by (intro exI [of _ "\<lambda>r. r"] conjI allI) (simp add: exec_query_def UpdateSnapshotCommitID_def Let_def, blast)
  qed
qed

lemma jobs_sat_jobs: "jobs_sat i P s \<Longrightarrow> db_jobs s' = db_jobs s \<Longrightarrow> jobs_sat i P s'"
  by (simp add: jobs_sat_def)

lemma jobs_sat_orphan:
  assumes "jobs_sat i P s"
  shows "jobs_sat i P (DeleteOrphanedBuildingSnapshot k s)"
proof (cases "db_jobs (DeleteOrphanedBuildingSnapshot k s) = db_jobs s")
  case True
  then show ?thesis by (rule jobs_sat_jobs [OF assms])
next
  case False
  then have "db_jobs (DeleteOrphanedBuildingSnapshot k s) =
      db_jobs (snd (update_jobs (\<lambda>j. sql_eq (job_IndexSnapshotID j) k) (\<lambda>j. j\<lparr>job_IndexSnapshotID := null_UUID\<rparr>) s))"
    by (auto simp: DeleteOrphanedBuildingSnapshot_def update_jobs_def Let_def split: if_splits)
  moreover have "jobs_sat i P (snd (update_jobs (\<lambda>j. sql_eq (job_IndexSnapshotID j) k) (\<lambda>j. j\<lparr>job_IndexSnapshotID := null_UUID\<rparr>) s))"
    by (rule jobs_sat_update [OF assms]) simp_all
  ultimately show ?thesis by (rule jobs_sat_jobs [rotated])
qed

text \<open>Which changes of the status of a job a step can make.\<close>

lemma job_step_sat:
  assumes "job_step s s'" "jobs_sat i P s"
    and "P ''queued'' \<Longrightarrow> P ''running''" "P ''running'' \<Longrightarrow> P ''completed''" "P ''running'' \<Longrightarrow> P ''failed''"
  shows "jobs_sat i P s'"
  using assms
proof (induction rule: job_step.induct)
  case (create fresh s now p sn jt emb llm)
  have "\<not> sql_eq fresh i"
    using create(1,2) sql_eq_sym sql_eq_trans unfolding new_job_id_def jobs_sat_def by blast
  then show ?case using create(2) by (auto simp: jobs_sat_def CreateIndexingJob_def Let_def)
next
  case (snapshot fresh s now ft p branch ev commit)
  have "jobs_sat i P (snd (CreateIndexSnapshot now fresh p branch ev commit s))"
    by (rule jobs_sat_jobs [OF snapshot(2)]) (rule snap_queries_jobs)
  then show ?case
    unfolding snd_repo using snapshot(2) exec_query_keeps [of "jobs_sat i P"] by (metis surjective_pairing)
next
  case (activate p branch i' s now ft)
  then show ?case
    using activate_result [of now ft p branch i' s] by (auto elim: jobs_sat_jobs simp: snap_queries_jobs)
next
  case (clean s i')
  then show ?case by (auto elim: jobs_sat_jobs simp: snap_queries_jobs)
next
  case (orphan s i')
  then show ?case by (simp add: jobs_sat_orphan)
next
  case (link s ft p i' commit)
  then show ?case by (auto elim: jobs_sat_jobs simp: link_frame)
qed (auto simp: snd_repo ClaimQueuedIndexingJob_def SetIndexingJobProgress_def SetIndexingJobCompletedFromRunning_def
    SetIndexingJobFailedFromRunning_def FailStaleJob_def intro!: exec_update_keeps)

lemma job_step_any_sat:
  assumes "job_step_any s s'" "jobs_sat i P s"
    and "P ''queued'' \<Longrightarrow> P ''running''" "P ''running'' \<Longrightarrow> P ''completed''" "P ''failed''"
  shows "jobs_sat i P s'"
  using assms
  by (induction rule: job_step_any.induct)
     (auto simp: SetIndexingJobFailed_def intro: job_step_sat intro!: exec_update_keeps)

lemma claim_success:
  assumes "ClaimJob now ft i w s = (Inr (), s1)"
  shows "jobs_sat i (\<lambda>st. st \<noteq> ''queued'') s1"
proof -
  let ?p = "\<lambda>j. sql_eq (job_ID j) i \<and> job_Status j = ''queued''"
  let ?f = "\<lambda>j. j\<lparr>job_Status := ''running'', job_StartedAt := Some now, job_WorkerID := (if w \<noteq> [] then Some w else None)\<rparr>"
  have "filter ?p (db_jobs s) \<noteq> []" and s1: "db_jobs s1 = map (\<lambda>j. if ?p j then ?f j else j) (db_jobs s)"
    using assms
    by (auto simp: ClaimJob_def ClaimQueuedIndexingJob_def update_jobs_def update_rows_def exec_query_def query_Inr
        split: sum.splits if_splits prod.splits)
  then obtain j where j: "j \<in> set (db_jobs s)" "?p j" by (auto simp: filter_empty_conv)
  then have "?f j \<in> set (db_jobs s1)" unfolding s1 by force
  then have "\<exists>j \<in> set (db_jobs s1). sql_eq (job_ID j) i" using j(2) by (intro bexI [of _ "?f j"]) simp_all
  then show ?thesis unfolding jobs_sat_def s1 by auto
qed

text \<open>C21: once a worker has claimed a job, no later claim of the job by any worker succeeds, whatever
  happens in between: the claim answers that the job is not queued.\<close>

theorem job_claimed_once:
  assumes "ClaimJob now ft i w s = (Inr (), s1)" "job_step_any\<^sup>*\<^sup>* s1 s2"
  shows "fst (ClaimJob now' ft' i w' s2) \<noteq> Inr () \<and>
         (ft' ''ClaimQueuedIndexingJob'' = NoFault \<longrightarrow> fst (ClaimJob now' ft' i w' s2) = Inl ErrJobNotQueued)"
proof -
  let ?P = "\<lambda>st. st \<noteq> ''queued''"
  have "jobs_sat i ?P s1" by (rule claim_success [OF assms(1)])
  with assms(2) have "jobs_sat i ?P s2"
    by (induction rule: rtranclp_induct) (auto intro: job_step_any_sat)
  then have "filter (\<lambda>j. sql_eq (job_ID j) i \<and> job_Status j = ''queued'') (db_jobs s2) = []"
    by (auto simp: jobs_sat_def filter_empty_conv)
  then show ?thesis
    by (auto simp: ClaimJob_def ClaimQueuedIndexingJob_def update_jobs_def exec_query_def query_def
        split: prod.splits sum.splits fault.splits)
qed

definition ex_job :: "string \<Rightarrow> IndexingJob" where
  "ex_job st = \<lparr>job_ID = ex_uuid 1, job_ProjectID = ex_uuid 2, job_IndexSnapshotID = null_UUID, job_JobType = ''full'',
     job_Status = st, job_FilesProcessed = 0, job_ChunksUpserted = 0, job_VectorsDeleted = 0,
     job_ErrorDetails = ''[]'', job_EmbeddingProviderConfigID = null_UUID, job_LlmProviderConfigID = null_UUID,
     job_WorkerID = Some ''w'', job_StartedAt = Some 0, job_FinishedAt = None, job_CreatedAt = Some 0\<rparr>"

definition ex_jdb :: "string \<Rightarrow> jdb" where
  "ex_jdb st = \<lparr>db_jobs = [ex_job st], db_snaps = [], db_files = []\<rparr>"

theorem job_claimed_once_witness:
  "fst (ClaimJob 7 (\<lambda>_. NoFault) (ex_uuid 1) ''w2'' (snd (ClaimJob 5 (\<lambda>_. NoFault) (ex_uuid 1) ''w1'' (ex_jdb ''queued'')))) =
     Inl ErrJobNotQueued"
proof -
  obtain s1 where "ClaimJob 5 (\<lambda>_. NoFault) (ex_uuid 1) ''w1'' (ex_jdb ''queued'') = (Inr (), s1)"
    by (simp add: ClaimJob_def ClaimQueuedIndexingJob_def update_jobs_def exec_query_def query_def ex_jdb_def ex_job_def
        sql_eq_def ex_uuid_def)
  then show ?thesis using job_claimed_once [of 5 "\<lambda>_. NoFault" "ex_uuid 1" "''w1''" _ s1 s1 7 "\<lambda>_. NoFault" "''w2''"] by simp
qed

text \<open>The operations after which a job \<open>i\<close> that is finished stays so: all of them, and also, as long as they are for other jobs, the two
  that set a status without asking for the old one: \<^verbatim>\<open>SetJobRunning\<close> of the repository, which nothing calls, and the compensation of
  the API, which is for the job it has just created.\<close>

inductive other_step :: "UUID \<Rightarrow> jdb \<Rightarrow> jdb \<Rightarrow> bool" for i where
  guarded: "job_step s s' \<Longrightarrow> other_step i s s'"
| run: "\<not> sql_eq k i \<Longrightarrow> other_step i s (snd (SetJobRunning now ft k s))"
| compensate: "\<not> sql_eq k i \<Longrightarrow> other_step i s (snd (exec_query ft ''SetIndexingJobFailed'' (Inr (SetIndexingJobFailed now k d s)) s))"

lemma snd_SetJobRunning: "snd (SetJobRunning now ft k s) = snd (exec_query ft ''SetIndexingJobRunning'' (Inr (SetIndexingJobRunning now k s)) s)"
  by (simp add: SetJobRunning_def split: sum.split prod.split)

lemma other_job: "\<not> sql_eq k i \<Longrightarrow> sql_eq u i \<Longrightarrow> sql_eq u k \<Longrightarrow> False"
  using sql_eq_sym sql_eq_trans by blast

lemma other_step_sat:
  assumes "other_step i s s'" "jobs_sat i (\<lambda>x. x = st) s" "st \<in> {''completed'', ''failed''}"
  shows "jobs_sat i (\<lambda>x. x = st) s'"
  using assms(1)
proof cases
  case guarded
  show ?thesis by (rule job_step_sat [OF guarded assms(2)]) (use assms(3) in auto)
next
  case (run k now ft)
  show ?thesis unfolding run(1) snd_SetJobRunning SetIndexingJobRunning_def
    by (rule exec_update_keeps [OF assms(2)]) (use other_job [OF run(2)] in auto)
next
  case (compensate k ft now d)
  show ?thesis unfolding compensate(1) SetIndexingJobFailed_def
    by (rule exec_update_keeps [OF assms(2)]) (use other_job [OF compensate(2)] in auto)
qed

text \<open>For the job itself it is otherwise: \<^verbatim>\<open>SetJobRunning\<close> sets a finished job back to running.\<close>

lemma SetJobRunning_revives:
  assumes "j \<in> set (db_jobs s)" "sql_eq (job_ID j) i"
  shows "jobs_sat i (\<lambda>st. st = ''running'') (snd (SetJobRunning now (\<lambda>_. NoFault) i s))"
proof -
  have "j\<lparr>job_Status := ''running'', job_StartedAt := Some now\<rparr> \<in> set (db_jobs (snd (SetJobRunning now (\<lambda>_. NoFault) i s)))"
    using assms by (force simp: snd_SetJobRunning exec_query_def SetIndexingJobRunning_def update_jobs_def update_rows_def)
  then have "\<exists>j \<in> set (db_jobs (snd (SetJobRunning now (\<lambda>_. NoFault) i s))). sql_eq (job_ID j) i"
    using assms(2) by (intro bexI) auto
  then show ?thesis
    by (auto simp: jobs_sat_def snd_SetJobRunning exec_query_def SetIndexingJobRunning_def update_jobs_def update_rows_def)
qed

text \<open>C33: a finished job stays finished: no claim, progress, late completion or failure report, reaping or snapshot operation, of this
  or any other job, changes the status of a completed or failed job; neither do the operations that set a status unconditionally,
  the setting to running, which nothing calls, and the compensation of the API, when they are for another job.\<close>

theorem finished_job_stays:
  assumes "(other_step i)\<^sup>*\<^sup>* s s'" "st \<in> {''completed'', ''failed''}"
    and "\<exists>j \<in> set (db_jobs s). sql_eq (job_ID j) i"
    and "\<forall>j \<in> set (db_jobs s). sql_eq (job_ID j) i \<longrightarrow> job_Status j = st"
  shows "(\<exists>j \<in> set (db_jobs s'). sql_eq (job_ID j) i) \<and>
         (\<forall>j \<in> set (db_jobs s'). sql_eq (job_ID j) i \<longrightarrow> job_Status j = st)"
proof -
  have "jobs_sat i (\<lambda>x. x = st) s" using assms(3,4) by (simp add: jobs_sat_def)
  with assms(1) have "jobs_sat i (\<lambda>x. x = st) s'"
    by (induction rule: rtranclp_induct) (use other_step_sat [OF _ _ assms(2)] in auto)
  then show ?thesis by (simp add: jobs_sat_def)
qed

theorem finished_job_stays_witness:
  "let s' = snd (SetJobFailed 7 (\<lambda>_. NoFault) (ex_uuid 1) ''late'' (ex_jdb ''completed''))
   in \<forall>j \<in> set (db_jobs s'). sql_eq (job_ID j) (ex_uuid 1) \<longrightarrow> job_Status j = ''completed''"
  unfolding Let_def
  using finished_job_stays [of "ex_uuid 1" "ex_jdb ''completed''" "snd (SetJobFailed 7 (\<lambda>_. NoFault) (ex_uuid 1) ''late'' (ex_jdb ''completed''))"
      "''completed''"] other_step.guarded [OF job_step.fail [of "ex_jdb ''completed''" 7 "\<lambda>_. NoFault" "ex_uuid 1" "''late''"], of "ex_uuid 1"]
  by (simp add: r_into_rtranclp ex_jdb_def ex_job_def) (simp add: sql_eq_def ex_uuid_def)

section \<open>Active snapshots\<close>

definition active_for :: "UUID \<Rightarrow> string \<Rightarrow> IndexSnapshot \<Rightarrow> bool" where
  "active_for p branch r = (snap_IsActive r \<and> sql_eq (snap_ProjectID r) p \<and> snap_Branch r = branch)"

definition count_active :: "UUID \<Rightarrow> string \<Rightarrow> jdb \<Rightarrow> nat" where
  "count_active p branch s = length (filter (active_for p branch) (db_snaps s))"

definition snaps_ok :: "jdb \<Rightarrow> bool" where
  "snaps_ok s \<longleftrightarrow> (\<forall>i. length (filter (\<lambda>r. sql_eq (snap_ID r) i) (db_snaps s)) \<le> 1) \<and>
     (\<forall>p branch. count_active p branch s \<le> 1)"

lemma snaps_okI:
  assumes "\<And>i. length (filter (\<lambda>r. sql_eq (snap_ID r) i) (db_snaps s)) \<le> 1" "\<And>p branch. count_active p branch s \<le> 1"
  shows "snaps_ok s"
  using assms by (simp add: snaps_ok_def)

lemma snaps_okD:
  assumes "snaps_ok s"
  shows "length (filter (\<lambda>r. sql_eq (snap_ID r) i) (db_snaps s)) \<le> 1" "length (filter (active_for p branch) (db_snaps s)) \<le> 1"
  using assms by (simp_all add: snaps_ok_def count_active_def)

lemma length_filter_map: "(\<And>x. x \<in> set xs \<Longrightarrow> P (g x) = Q x) \<Longrightarrow> length (filter P (map g xs)) = length (filter Q xs)"
  by (induction xs) auto

lemma length_filter_map_le: "(\<And>x. P (g x) \<Longrightarrow> Q x) \<Longrightarrow> length (filter P (map g xs)) \<le> length (filter Q xs)"
  by (induction xs) (auto simp: le_SucI)

text \<open>A change of rows that keeps their keys and makes none active keeps the invariant.\<close>

lemma snaps_ok_map:
  assumes "snaps_ok s" "db_snaps s' = map g (db_snaps s)"
    and g: "\<And>r. snap_ID (g r) = snap_ID r" "\<And>r. snap_ProjectID (g r) = snap_ProjectID r" "\<And>r. snap_Branch (g r) = snap_Branch r"
    and "\<And>r. snap_IsActive (g r) \<Longrightarrow> snap_IsActive r"
  shows "snaps_ok s'"
proof (rule snaps_okI)
  show "length (filter (\<lambda>r. sql_eq (snap_ID r) i) (db_snaps s')) \<le> 1" for i
    using snaps_okD(1) [OF assms(1), of i] by (simp add: assms(2) filter_map o_def g)
  show "count_active p branch s' \<le> 1" for p branch
  proof -
    have "active_for p branch (g r) \<Longrightarrow> active_for p branch r" for r using g assms(6) by (auto simp: active_for_def)
    then show ?thesis
      unfolding count_active_def assms(2) by (rule le_trans [OF length_filter_map_le snaps_okD(2) [OF assms(1)]])
  qed
qed

lemma snaps_ok_filter:
  assumes "snaps_ok s" "db_snaps s' = filter q (db_snaps s)"
  shows "snaps_ok s'"
proof -
  have *: "length (filter P (filter q xs)) \<le> length (filter P xs)" for P and xs :: "IndexSnapshot list"
    by (induction xs) auto
  show ?thesis
    by (rule snaps_okI; unfold count_active_def assms(2))
       (rule le_trans [OF * snaps_okD(1) [OF assms(1)]], rule le_trans [OF * snaps_okD(2) [OF assms(1)]])
qed

lemma snaps_ok_same: "snaps_ok s \<Longrightarrow> db_snaps s' = db_snaps s \<Longrightarrow> snaps_ok s'"
  by (simp add: snaps_ok_def count_active_def)

abbreviation deact :: "UUID \<Rightarrow> string \<Rightarrow> IndexSnapshot \<Rightarrow> IndexSnapshot" where
  "deact p branch r \<equiv>
     (if sql_eq (snap_ProjectID r) p \<and> snap_Branch r = branch \<and> snap_IsActive r then r\<lparr>snap_IsActive := False\<rparr> else r)"

abbreviation act :: "timestamp \<Rightarrow> UUID \<Rightarrow> IndexSnapshot \<Rightarrow> IndexSnapshot" where
  "act now i r \<equiv>
     (if sql_eq (snap_ID r) i then r\<lparr>snap_IsActive := True, snap_Status := ''active'', snap_ActivatedAt := Some now\<rparr> else r)"

lemma Deactivate_map: "db_snaps (DeactivateActiveSnapshot p branch s) = map (deact p branch) (db_snaps s)"
  by (simp add: DeactivateActiveSnapshot_def update_rows_def)

lemma Activate_map: "db_snaps (ActivateSnapshot now i s) = map (act now i) (db_snaps s)"
  by (simp add: ActivateSnapshot_def update_rows_def)

lemma Deactivate_ok: "snaps_ok s \<Longrightarrow> snaps_ok (DeactivateActiveSnapshot p branch s)"
  by (rule snaps_ok_map [OF _ Deactivate_map]) (simp_all split: if_splits)

lemma deact_none: "\<not> active_for p branch (deact p branch r)"
  by (auto simp: active_for_def)

text \<open>After the deactivation the active rows of the branch are exactly those of the new snapshot, and
  those of other branches are as before.\<close>

lemma act_deact_active:
  assumes "sql_eq (snap_ID r) i \<longrightarrow> sql_eq (snap_ProjectID r) p \<and> snap_Branch r = branch"
  shows "active_for q b (act now i (deact p branch r)) =
           (if sql_eq q p \<and> b = branch then sql_eq (snap_ID r) i else active_for q b r)"
proof (cases "sql_eq (snap_ID r) i")
  case True
  then have r: "sql_eq (snap_ProjectID r) p" "snap_Branch r = branch" using assms by simp_all
  have "sql_eq (snap_ProjectID r) q = sql_eq q p" using r(1) sql_eq_sym sql_eq_trans by blast
  then show ?thesis using True r by (auto simp: active_for_def)
next
  case False
  have "sql_eq q p \<Longrightarrow> sql_eq (snap_ProjectID r) q = sql_eq (snap_ProjectID r) p" using sql_eq_sym sql_eq_trans by blast
  then show ?thesis
    using False sql_eq_trans [of "snap_ProjectID r" q p] sql_eq_trans [of q "snap_ProjectID r" p] sql_eq_sym [of q "snap_ProjectID r"]
    by (auto simp: active_for_def)
qed

lemma snap_ofD: "snap_of p branch i s \<Longrightarrow> r \<in> set (db_snaps s) \<Longrightarrow>
    sql_eq (snap_ID r) i \<longrightarrow> sql_eq (snap_ProjectID r) p \<and> snap_Branch r = branch"
  by (simp add: snap_of_def)

lemma count_activate:
  assumes "snap_of p branch i s"
  shows "count_active q b (ActivateSnapshot now i (DeactivateActiveSnapshot p branch s)) =
     (if sql_eq q p \<and> b = branch then length (filter (\<lambda>r. sql_eq (snap_ID r) i) (db_snaps s)) else count_active q b s)"
proof -
  have "count_active q b (ActivateSnapshot now i (DeactivateActiveSnapshot p branch s)) =
      length (filter (active_for q b) (map (\<lambda>r. act now i (deact p branch r)) (db_snaps s)))"
    by (simp only: count_active_def Activate_map Deactivate_map map_map comp_def)
  also have "\<dots> = length (filter (\<lambda>r. if sql_eq q p \<and> b = branch then sql_eq (snap_ID r) i else active_for q b r) (db_snaps s))"
    by (rule length_filter_map) (rule act_deact_active [OF snap_ofD [OF assms]])
  finally show ?thesis by (cases "sql_eq q p \<and> b = branch") (auto simp: count_active_def)
qed

lemma activate_ok:
  assumes "snaps_ok s" "snap_of p branch i s"
  shows "snaps_ok (ActivateSnapshot now i (DeactivateActiveSnapshot p branch s))"
proof (rule snaps_okI)
  have e: "db_snaps (ActivateSnapshot now i (DeactivateActiveSnapshot p branch s)) = map (\<lambda>r. act now i (deact p branch r)) (db_snaps s)"
    by (simp only: Activate_map Deactivate_map map_map comp_def)
  have id: "snap_ID (act now i (deact p branch r)) = snap_ID r" for r by simp
  show "length (filter (\<lambda>r. sql_eq (snap_ID r) k) (db_snaps (ActivateSnapshot now i (DeactivateActiveSnapshot p branch s)))) \<le> 1" for k
    unfolding e filter_map comp_def id using snaps_okD(1) [OF assms(1), of k] by simp
  show "count_active q b (ActivateSnapshot now i (DeactivateActiveSnapshot p branch s)) \<le> 1" for q b
    using snaps_okD [OF assms(1)] by (simp add: count_activate [OF assms(2)]) (simp add: count_active_def)
qed

lemma CreateIndexSnapshot_ok:
  assumes "snaps_ok s" "new_snap_id fresh s"
  shows "snaps_ok (snd (CreateIndexSnapshot now fresh p branch ev commit s))"
proof (cases "List.find (snap_key p branch ev commit) (db_snaps s)")
  case None
  have "sql_eq fresh i \<Longrightarrow> filter (\<lambda>r. sql_eq (snap_ID r) i) (db_snaps s) = []" for i
    using assms(2) sql_eq_sym sql_eq_trans unfolding new_snap_id_def filter_empty_conv by blast
  then show ?thesis
    using snaps_okD [OF assms(1)] None
    by (intro snaps_okI) (auto simp: CreateIndexSnapshot_def count_active_def active_for_def Let_def)
next
  case (Some r)
  show ?thesis
    by (rule snaps_ok_map [OF assms(1), where g = "\<lambda>r. if snap_key p branch ev commit r
          then r\<lparr>snap_Status := ''building'', snap_IsActive := False, snap_ActivatedAt := None\<rparr> else r"])
       (simp_all add: CreateIndexSnapshot_def Some Let_def update_rows_def split: if_splits)
qed

lemma update_jobs_snaps: "db_snaps (snd (update_jobs p f s)) = db_snaps s"
  by (simp add: update_jobs_def)

lemma exec_update_snaps: "snaps_ok s \<Longrightarrow> snaps_ok (snd (exec_query ft n (Inr (update_jobs p f s)) s))"
  using exec_query_keeps [of snaps_ok s "snd (update_jobs p f s)" ft n "fst (update_jobs p f s)"]
    snaps_ok_same [OF _ update_jobs_snaps] by simp

lemma job_step_snaps: "job_step s s' \<Longrightarrow> snaps_ok s \<Longrightarrow> snaps_ok s'"
proof (induction rule: job_step.induct)
  case (snapshot fresh s now ft p branch ev commit)
  then show ?case
    unfolding snd_repo
    using CreateIndexSnapshot_ok [of s fresh now p branch ev commit] exec_query_keeps [of snaps_ok] by (metis surjective_pairing)
next
  case (activate p branch i s now ft)
  then show ?case using activate_result [of now ft p branch i s] activate_ok by metis
next
  case (orphan s i)
  then show ?case
    by (cases "db_snaps (DeleteOrphanedBuildingSnapshot i s) = db_snaps s")
       (auto simp: DeleteOrphanedBuildingSnapshot_def Let_def elim: snaps_ok_same snaps_ok_filter split: if_splits)
next
  case (create fresh s now p sn jt emb llm)
  then show ?case by (auto simp: CreateIndexingJob_def Let_def elim: snaps_ok_same)
next
  case (clean s i)
  then show ?case by (auto simp: DeleteSnapshotArtifacts_def elim: snaps_ok_same)
next
  case (link s ft p i commit)
  obtain g where g: "db_snaps (snd (exec_query ft ''UpdateSnapshotCommitID'' (Inr (UpdateSnapshotCommitID p i commit s)) s)) = map g (db_snaps s)"
    "\<forall>r. \<exists>c. g r = r\<lparr>snap_CommitID := c\<rparr>" using link_frame(2) by blast
  have "snap_ID (g r) = snap_ID r \<and> snap_ProjectID (g r) = snap_ProjectID r \<and> snap_Branch (g r) = snap_Branch r \<and>
      snap_IsActive (g r) = snap_IsActive r" for r
    using g(2) [rule_format, of r] by auto
  then show ?case by (intro snaps_ok_map [OF link g(1)]) simp_all
qed (simp_all add: snd_repo ClaimQueuedIndexingJob_def SetIndexingJobProgress_def SetIndexingJobCompletedFromRunning_def
    SetIndexingJobFailedFromRunning_def FailStaleJob_def exec_update_snaps)

text \<open>C13: at every moment of every history a branch of a project has at most one active snapshot,
  whatever calls fail.\<close>

theorem at_most_one_active_snapshot:
  assumes "job_step\<^sup>*\<^sup>* s s'" "snaps_ok s"
  shows "count_active p branch s' \<le> 1"
proof -
  from assms have "snaps_ok s'" by (induction rule: rtranclp_induct) (auto intro: job_step_snaps)
  then show ?thesis by (simp add: snaps_ok_def)
qed

definition ex_snap :: "nat \<Rightarrow> string \<Rightarrow> bool \<Rightarrow> IndexSnapshot" where
  "ex_snap n st active = \<lparr>snap_ID = ex_uuid n, snap_ProjectID = ex_uuid 2, snap_Branch = ''main'', snap_EmbeddingVersionID = ex_uuid 3,
     snap_GitCommit = ''c'', snap_IsActive = active, snap_Status = st, snap_CreatedAt = None, snap_ActivatedAt = None,
     snap_CommitID = null_UUID\<rparr>"

text \<open>The snapshot 1 is active and a running job builds the snapshot 2.\<close>

definition ex_building :: jdb where
  "ex_building = \<lparr>db_jobs = [ex_job ''running''],
     db_snaps = [ex_snap 1 ''active'' True, ex_snap 2 ''building'' False], db_files = [(ex_uuid 2, ''a.go'')]\<rparr>"

lemma ex_building_ok: "snaps_ok ex_building" "snap_of (ex_uuid 2) ''main'' (ex_uuid 2) ex_building"
  by (auto simp: snaps_ok_def snap_of_def count_active_def active_for_def ex_building_def ex_snap_def sql_eq_def
      ex_uuid_def ex_chars dest: sym)

theorem at_most_one_active_snapshot_witness:
  "count_active (ex_uuid 2) ''main''
     (snd (ActivateSnapshotTx 5 (\<lambda>_. NoFault) (ex_uuid 2) ''main'' (ex_uuid 2) ex_building)) \<le> 1"
  by (rule at_most_one_active_snapshot [OF r_into_rtranclp [where r = job_step, OF job_step.activate [OF ex_building_ok(2)]] ex_building_ok(1)])

text \<open>A successful activation of an existing snapshot makes it the one active snapshot of its branch
  and leaves every other branch as it was; a failed one changes nothing, unless only the answer of
  the commit was lost.\<close>

theorem ActivateSnapshotTx_switches:
  assumes "snaps_ok s" "snap_of p branch i s" "\<not> new_snap_id i s" "uuid_Valid p"
    and "ActivateSnapshotTx now ft p branch i s = (r, s')"
  shows "(r = Inr () \<longrightarrow> count_active p branch s' = 1 \<and> (\<exists>x \<in> set (db_snaps s'). sql_eq (snap_ID x) i \<and> active_for p branch x)) \<and>
         (\<not> (sql_eq q p \<and> b = branch) \<longrightarrow> count_active q b s' = count_active q b s) \<and>
         (r \<noteq> Inr () \<and> ft ''Commit'' \<noteq> LostAnswer \<longrightarrow> s' = s)"
proof -
  let ?a = "ActivateSnapshot now i (DeactivateActiveSnapshot p branch s)"
  have s': "s' = s \<and> r \<noteq> Inr () \<or> s' = ?a \<and> (r \<noteq> Inr () \<longrightarrow> ft ''Commit'' = LostAnswer)"
    using assms(5)
    by (auto simp: ActivateSnapshotTx_def execTx_def activate_body_def query_Inr split: sum.splits if_splits)
  obtain x where x: "x \<in> set (db_snaps s)" "sql_eq (snap_ID x) i" using assms(3) by (auto simp: new_snap_id_def)
  have "filter (\<lambda>r. sql_eq (snap_ID r) i) (db_snaps s) \<noteq> []" using x by (auto simp: filter_empty_conv)
  then have "0 < length (filter (\<lambda>r. sql_eq (snap_ID r) i) (db_snaps s))" by blast
  then have one: "length (filter (\<lambda>r. sql_eq (snap_ID r) i) (db_snaps s)) = 1"
    using snaps_okD(1) [OF assms(1), of i] by linarith
  have p: "sql_eq p p" using assms(4) by (simp add: sql_eq_def)
  have "act now i (deact p branch x) \<in> set (db_snaps ?a)"
    unfolding Activate_map Deactivate_map map_map set_map comp_def using x(1) by (rule imageI)
  moreover have "active_for p branch (act now i (deact p branch x))"
    using act_deact_active [OF snap_ofD [OF assms(2) x(1)], of p branch now] p x(2) by (simp del: if_split)
  moreover have "sql_eq (snap_ID (act now i (deact p branch x))) i" using x(2) by simp
  ultimately have "\<exists>x \<in> set (db_snaps ?a). sql_eq (snap_ID x) i \<and> active_for p branch x" by blast
  then show ?thesis
    using s' count_activate [OF assms(2), of p branch now] count_activate [OF assms(2), of q b now] one p by auto
qed

theorem ActivateSnapshotTx_switches_witness:
  "count_active (ex_uuid 2) ''main'' (snd (ActivateSnapshotTx 5 (\<lambda>_. NoFault) (ex_uuid 2) ''main'' (ex_uuid 2) ex_building)) = 1"
proof -
  have "\<not> new_snap_id (ex_uuid 2) ex_building" "uuid_Valid (ex_uuid 2)"
    by (simp_all add: new_snap_id_def ex_building_def ex_snap_def sql_eq_def ex_uuid_def)
  moreover have "fst (ActivateSnapshotTx 5 (\<lambda>_. NoFault) (ex_uuid 2) ''main'' (ex_uuid 2) ex_building) = Inr ()"
    by (simp add: ActivateSnapshotTx_def execTx_def activate_body_def query_def)
  ultimately show ?thesis
    using ActivateSnapshotTx_switches [OF ex_building_ok _ _ surjective_pairing] by blast
qed

text \<open>Building again the commit whose snapshot is active takes that snapshot out of service at once:
  from the creation of the snapshot until its activation the branch has no active snapshot.\<close>

theorem reindex_takes_active_down:
  assumes "snaps_ok s" "r \<in> set (db_snaps s)" "active_for p branch r" "snap_key p branch ev commit r"
  shows "count_active p branch (snd (CreateSnapshot now fresh (\<lambda>_. NoFault) p branch ev commit s)) = 0"
proof -
  obtain x where x: "List.find (snap_key p branch ev commit) (db_snaps s) = Some x"
    using assms(2,4) by (cases "List.find (snap_key p branch ev commit) (db_snaps s)") (auto simp: find_None_iff)
  have only: "y = r" if "y \<in> set (db_snaps s)" "active_for p branch y" for y
  proof -
    have "{y, r} \<subseteq> set (filter (active_for p branch) (db_snaps s))" using that assms(2,3) by auto
    then show ?thesis
      using snaps_okD(2) [OF assms(1), of p branch]
      by (cases "filter (active_for p branch) (db_snaps s)") auto
  qed
  show ?thesis
    using x only assms(4)
    by (auto simp: CreateSnapshot_def db_result_def exec_query_def query_def CreateIndexSnapshot_def Let_def
        count_active_def update_rows_def filter_empty_conv active_for_def)
qed

theorem reindex_takes_active_down_witness:
  "count_active (ex_uuid 2) ''main''
     (snd (CreateSnapshot 5 (ex_uuid 9) (\<lambda>_. NoFault) (ex_uuid 2) ''main'' (ex_uuid 3) ''c'' ex_building)) = 0"
  by (rule reindex_takes_active_down [OF ex_building_ok(1), of "ex_snap 1 ''active'' True"])
     (simp_all add: ex_building_def ex_snap_def active_for_def snap_key_def sql_eq_def ex_uuid_def)

end
