(* ===== verification/Artifact_Writer.thy ===== *)
theory Artifact_Writer
  imports Parser_Domain Job_Store
begin

text \<open>
  Persisting the artifacts of a parsed file
  (\<^verbatim>\<open>src/backend-worker/internal/artifact/writer.go\<close>).

  The artifact tables are one log of rows in the order of their insertion, each with its generated
  id; the constructor of a row names its table and carries the parameters of the INSERT. A JSON
  column holds the Go value that is serialised. The environment gives, for the number of the call,
  the id the database generates and whether the call fails, with the text of the error. A failed
  call leaves the rows inserted before it.
\<close>

section \<open>Rows\<close>

record UpsertFileContentParams =
  fcp_ProjectID :: UUID
  fcp_ContentHash :: string
  fcp_Content :: string
  fcp_SizeBytes :: int
  fcp_LineCount :: int

record InsertFileParams =
  fp_ProjectID :: UUID
  fp_IndexSnapshotID :: UUID
  fp_FilePath :: string
  fp_Language :: "string option"
  fp_FileHash :: string
  fp_SizeBytes :: int
  fp_LineCount :: int
  fp_FileContentID :: UUID
  fp_FileFacts :: "FileFacts option"
  fp_ParserMeta :: "ParserMeta option"
  fp_ExtractorStatuses :: "ExtractorStatus list"
  fp_Issues :: "Issue list"

record InsertSymbolParams =
  sp_ProjectID :: UUID
  sp_IndexSnapshotID :: UUID
  sp_FileID :: UUID
  sp_Name :: string
  sp_QualifiedName :: "string option"
  sp_Kind :: string
  sp_Signature :: "string option"
  sp_StartLine :: int
  sp_EndLine :: int
  sp_DocText :: "string option"
  sp_SymbolHash :: string
  sp_ParentSymbolID :: UUID
  sp_Flags :: "SymbolFlags option"
  sp_Modifiers :: "string list"
  sp_ReturnType :: "string option"
  sp_ParameterTypes :: "string list"

record InsertCodeChunkParams =
  cp_ProjectID :: UUID
  cp_IndexSnapshotID :: UUID
  cp_FileID :: UUID
  cp_SymbolID :: UUID
  cp_ChunkType :: string
  cp_ChunkHash :: string
  cp_Content :: string
  cp_ContextBefore :: "string option"
  cp_ContextAfter :: "string option"
  cp_StartLine :: int
  cp_EndLine :: int
  cp_EstimatedTokens :: "int option"
  cp_OwnerQualifiedName :: "string option"
  cp_OwnerKind :: "string option"
  cp_IsExportedContext :: bool
  cp_SemanticRole :: "string option"

record InsertDependencyParams =
  dp_ProjectID :: UUID
  dp_IndexSnapshotID :: UUID
  dp_SourceSymbolID :: UUID
  dp_SourceFilePath :: string
  dp_TargetFilePath :: "string option"
  dp_ImportName :: string
  dp_ImportType :: string
  dp_PackageName :: "string option"
  dp_PackageVersion :: "string option"

record InsertExportParams =
  ep_ProjectID :: UUID
  ep_IndexSnapshotID :: UUID
  ep_FileID :: UUID
  ep_ExportKind :: string
  ep_ExportedName :: string
  ep_LocalName :: "string option"
  ep_SymbolID :: UUID
  ep_SourceModule :: "string option"
  ep_Line :: int
  ep_Column :: int

record InsertSymbolReferenceParams =
  rp_ProjectID :: UUID
  rp_IndexSnapshotID :: UUID
  rp_FileID :: UUID
  rp_SourceSymbolID :: UUID
  rp_ReferenceKind :: string
  rp_RawText :: "string option"
  rp_TargetName :: string
  rp_QualifiedTargetHint :: "string option"
  rp_StartLine :: int
  rp_StartColumn :: int
  rp_EndLine :: int
  rp_EndColumn :: int
  rp_ResolutionScope :: "string option"
  rp_ResolvedTargetSymbolID :: UUID
  rp_Confidence :: "string option"

record InsertJsxUsageParams =
  jp_ProjectID :: UUID
  jp_IndexSnapshotID :: UUID
  jp_FileID :: UUID
  jp_SourceSymbolID :: UUID
  jp_ComponentName :: string
  jp_IsIntrinsic :: bool
  jp_IsFragment :: bool
  jp_Line :: int
  jp_Column :: int
  jp_ResolvedTargetSymbolID :: UUID
  jp_Confidence :: "string option"

record InsertNetworkCallParams =
  np_ProjectID :: UUID
  np_IndexSnapshotID :: UUID
  np_FileID :: UUID
  np_SourceSymbolID :: UUID
  np_ClientKind :: string
  np_Method :: string
  np_UrlLiteral :: "string option"
  np_UrlTemplate :: "string option"
  np_IsRelative :: bool
  np_StartLine :: int
  np_StartColumn :: int
  np_Confidence :: "string option"

datatype row =
    RContent UpsertFileContentParams
  | RFile InsertFileParams
  | RSymbol InsertSymbolParams
  | RChunk InsertCodeChunkParams
  | RDependency InsertDependencyParams
  | RExport InsertExportParams
  | RReference InsertSymbolReferenceParams
  | RJsx InsertJsxUsageParams
  | RNetwork InsertNetworkCallParams

record adb =
  a_rows :: "(UUID \<times> row) list"
  a_calls :: nat

record aenv =
  env_id :: "nat \<Rightarrow> UUID"
  env_fail :: "nat \<Rightarrow> string option"

section \<open>Queries\<close>

definition insert_row :: "aenv \<Rightarrow> row \<Rightarrow> adb \<Rightarrow> (string + UUID) \<times> adb" where
  "insert_row env r s =
     (let n = a_calls s
      in case env_fail env n of
           Some msg \<Rightarrow> (Inl msg, s\<lparr>a_calls := Suc n\<rparr>)
         | None \<Rightarrow> (Inr (env_id env n), s\<lparr>a_rows := a_rows s @ [(env_id env n, r)], a_calls := Suc n\<rparr>))"

text \<open>The content of a file is stored once per project and hash: the INSERT answers with the row that
  is there.\<close>

definition same_content :: "UpsertFileContentParams \<Rightarrow> UUID \<times> row \<Rightarrow> bool" where
  "same_content p e =
     (case snd e of
        RContent q \<Rightarrow> sql_eq (fcp_ProjectID q) (fcp_ProjectID p) \<and> fcp_ContentHash q = fcp_ContentHash p
      | _ \<Rightarrow> False)"

definition UpsertFileContent :: "aenv \<Rightarrow> UpsertFileContentParams \<Rightarrow> adb \<Rightarrow> (string + UUID) \<times> adb" where
  "UpsertFileContent env p s =
     (case List.find (same_content p) (a_rows s) of
        None \<Rightarrow> insert_row env (RContent p) s
      | Some e \<Rightarrow>
          (case env_fail env (a_calls s) of
             Some msg \<Rightarrow> (Inl msg, s\<lparr>a_calls := Suc (a_calls s)\<rparr>)
           | None \<Rightarrow> (Inr (fst e), s\<lparr>a_calls := Suc (a_calls s)\<rparr>)))"

definition same_file :: "InsertFileParams \<Rightarrow> UUID \<times> row \<Rightarrow> bool" where
  "same_file p e =
     (case snd e of
        RFile q \<Rightarrow> sql_eq (fp_ProjectID q) (fp_ProjectID p) \<and> sql_eq (fp_IndexSnapshotID q) (fp_IndexSnapshotID p) \<and>
                   fp_FilePath q = fp_FilePath p
      | _ \<Rightarrow> False)"

text \<open>A second row for a path of the snapshot violates the unique constraint of \<^verbatim>\<open>files\<close>.\<close>

definition InsertFile :: "aenv \<Rightarrow> InsertFileParams \<Rightarrow> adb \<Rightarrow> (string + UUID) \<times> adb" where
  "InsertFile env p s =
     (if list_ex (same_file p) (a_rows s)
      then (Inl ''duplicate key value violates unique constraint'', s\<lparr>a_calls := Suc (a_calls s)\<rparr>)
      else insert_row env (RFile p) s)"

text \<open>The file a row hangs on by a foreign key: \<^verbatim>\<open>dependencies\<close> has none.\<close>

fun row_file :: "row \<Rightarrow> UUID option" where
  "row_file (RSymbol p) = Some (sp_FileID p)"
| "row_file (RChunk p) = Some (cp_FileID p)"
| "row_file (RExport p) = Some (ep_FileID p)"
| "row_file (RReference p) = Some (rp_FileID p)"
| "row_file (RJsx p) = Some (jp_FileID p)"
| "row_file (RNetwork p) = Some (np_FileID p)"
| "row_file _ = None"

text \<open>Deleting the files of a snapshot deletes the rows that refer to them, and the dependencies whose
  source symbol goes; every other reference to a symbol that goes becomes NULL.\<close>

definition one_of :: "UUID list \<Rightarrow> UUID \<Rightarrow> bool" where
  "one_of us u = list_ex (\<lambda>v. sql_eq v u) us"

definition set_null :: "UUID list \<Rightarrow> UUID \<Rightarrow> UUID" where
  "set_null us u = (if one_of us u then null_UUID else u)"

fun unlink_symbols :: "UUID list \<Rightarrow> row \<Rightarrow> row" where
  "unlink_symbols us (RSymbol p) = RSymbol (p\<lparr>sp_ParentSymbolID := set_null us (sp_ParentSymbolID p)\<rparr>)"
| "unlink_symbols us (RChunk p) = RChunk (p\<lparr>cp_SymbolID := set_null us (cp_SymbolID p)\<rparr>)"
| "unlink_symbols us (RExport p) = RExport (p\<lparr>ep_SymbolID := set_null us (ep_SymbolID p)\<rparr>)"
| "unlink_symbols us (RReference p) = RReference (p\<lparr>rp_SourceSymbolID := set_null us (rp_SourceSymbolID p),
     rp_ResolvedTargetSymbolID := set_null us (rp_ResolvedTargetSymbolID p)\<rparr>)"
| "unlink_symbols us (RJsx p) = RJsx (p\<lparr>jp_SourceSymbolID := set_null us (jp_SourceSymbolID p),
     jp_ResolvedTargetSymbolID := set_null us (jp_ResolvedTargetSymbolID p)\<rparr>)"
| "unlink_symbols us (RNetwork p) = RNetwork (p\<lparr>np_SourceSymbolID := set_null us (np_SourceSymbolID p)\<rparr>)"
| "unlink_symbols us r = r"

definition file_of_snapshot :: "UUID \<Rightarrow> row \<Rightarrow> bool" where
  "file_of_snapshot i r = (case r of RFile p \<Rightarrow> sql_eq (fp_IndexSnapshotID p) i | _ \<Rightarrow> False)"

definition delete_files :: "UUID \<Rightarrow> adb \<Rightarrow> adb" where
  "delete_files i s =
     (let files = map fst (filter (\<lambda>e. file_of_snapshot i (snd e)) (a_rows s));
          in_files = (\<lambda>r. case row_file r of Some f \<Rightarrow> one_of files f | None \<Rightarrow> False);
          syms = map fst (filter (\<lambda>e. case snd e of RSymbol p \<Rightarrow> in_files (snd e) | _ \<Rightarrow> False) (a_rows s));
          gone = (\<lambda>r. file_of_snapshot i r \<or> in_files r \<or> (case r of RDependency p \<Rightarrow> one_of syms (dp_SourceSymbolID p) | _ \<Rightarrow> False))
      in s\<lparr>a_rows := map (\<lambda>e. (fst e, unlink_symbols syms (snd e))) (filter (\<lambda>e. \<not> gone (snd e)) (a_rows s))\<rparr>)"

section \<open>The writer\<close>

record ChunkForEmbed =
  ce_ChunkDBID :: UUID
  ce_Content :: string
  ce_FilePath :: string
  ce_Language :: string
  ce_SymbolName :: string
  ce_SymbolKind :: string
  ce_ChunkType :: string
  ce_ChunkHash :: string
  ce_StartLine :: int
  ce_EndLine :: int

record WriteResult =
  wr_FileID :: UUID
  wr_Chunks :: "ChunkForEmbed list"

definition sha256Hex :: "string \<Rightarrow> string" where
  "sha256Hex s = EncodeToString (Sum256 s)"

definition textOrNull :: "string \<Rightarrow> string option" where
  "textOrNull s = (if s = [] then None else Some s)"

definition resolveSymbol :: "string \<Rightarrow> (string \<rightharpoonup> UUID) \<Rightarrow> UUID" where
  "resolveSymbol i m = (if i = [] then null_UUID else case m i of Some u \<Rightarrow> u | None \<Rightarrow> null_UUID)"

text \<open>The identifiers a file's rows share.\<close>

record ids =
  id_project :: UUID
  id_snapshot :: UUID
  id_file :: UUID

definition symbol_params :: "ids \<Rightarrow> (string \<rightharpoonup> UUID) \<Rightarrow> Symbol \<Rightarrow> InsertSymbolParams" where
  "symbol_params k symbolMap sy =
     \<lparr>sp_ProjectID = id_project k, sp_IndexSnapshotID = id_snapshot k, sp_FileID = id_file k,
      sp_Name = sym_Name sy, sp_QualifiedName = textOrNull (sym_QualifiedName sy), sp_Kind = sym_Kind sy,
      sp_Signature = textOrNull (sym_Signature sy), sp_StartLine = sym_StartLine sy, sp_EndLine = sym_EndLine sy,
      sp_DocText = textOrNull (sym_DocText sy), sp_SymbolHash = sym_SymbolHash sy,
      sp_ParentSymbolID = resolveSymbol (sym_ParentSymbolID sy) symbolMap,
      sp_Flags = sym_Flags sy, sp_Modifiers = sym_Modifiers sy, sp_ReturnType = textOrNull (sym_ReturnType sy),
      sp_ParameterTypes = sym_ParameterTypes sy\<rparr>"

type_synonym symbol_maps = "(string \<rightharpoonup> UUID) \<times> (string \<rightharpoonup> string \<times> string)"

fun write_symbols :: "aenv \<Rightarrow> string \<Rightarrow> ids \<Rightarrow> Symbol list \<Rightarrow> symbol_maps \<Rightarrow> adb \<Rightarrow> (string + symbol_maps) \<times> adb" where
  "write_symbols env path k [] maps s = (Inr maps, s)"
| "write_symbols env path k (sy # syms) maps s =
     (case insert_row env (RSymbol (symbol_params k (fst maps) sy)) s of
        (Inl e, s') \<Rightarrow> (Inl (''artifact: insert symbol '' @ sym_Name sy @ '' in '' @ path @ '': '' @ e), s')
      | (Inr i, s') \<Rightarrow>
          write_symbols env path k syms
            (if sym_SymbolID sy = [] then maps
             else ((fst maps)(sym_SymbolID sy \<mapsto> i), (snd maps)(sym_SymbolID sy \<mapsto> (sym_Name sy, sym_Kind sy)))) s')"

definition chunk_params :: "ids \<Rightarrow> (string \<rightharpoonup> UUID) \<Rightarrow> Chunk \<Rightarrow> InsertCodeChunkParams" where
  "chunk_params k symbolMap ch =
     \<lparr>cp_ProjectID = id_project k, cp_IndexSnapshotID = id_snapshot k, cp_FileID = id_file k,
      cp_SymbolID = resolveSymbol (ch_SymbolID ch) symbolMap, cp_ChunkType = ch_ChunkType ch,
      cp_ChunkHash = ch_ChunkHash ch, cp_Content = ch_Content ch, cp_ContextBefore = textOrNull (ch_ContextBefore ch),
      cp_ContextAfter = textOrNull (ch_ContextAfter ch), cp_StartLine = ch_StartLine ch, cp_EndLine = ch_EndLine ch,
      cp_EstimatedTokens = (if ch_EstimatedTokens ch > 0 then Some (ch_EstimatedTokens ch) else None),
      cp_OwnerQualifiedName = textOrNull (ch_OwnerQualifiedName ch), cp_OwnerKind = textOrNull (ch_OwnerKind ch),
      cp_IsExportedContext = ch_IsExportedContext ch, cp_SemanticRole = textOrNull (ch_SemanticRole ch)\<rparr>"

definition chunk_for_embed :: "ParsedFileResult \<Rightarrow> (string \<rightharpoonup> string \<times> string) \<Rightarrow> UUID \<Rightarrow> Chunk \<Rightarrow> ChunkForEmbed" where
  "chunk_for_embed parsed infos i ch =
     (let info = (if ch_SymbolID ch = [] then None else infos (ch_SymbolID ch))
      in \<lparr>ce_ChunkDBID = i, ce_Content = ch_Content ch, ce_FilePath = pf_FilePath parsed, ce_Language = pf_Language parsed,
          ce_SymbolName = (case info of Some (n, _) \<Rightarrow> n | None \<Rightarrow> []), ce_SymbolKind = (case info of Some (_, t) \<Rightarrow> t | None \<Rightarrow> []),
          ce_ChunkType = ch_ChunkType ch, ce_ChunkHash = ch_ChunkHash ch, ce_StartLine = ch_StartLine ch, ce_EndLine = ch_EndLine ch\<rparr>)"

fun write_chunks :: "aenv \<Rightarrow> ParsedFileResult \<Rightarrow> ids \<Rightarrow> symbol_maps \<Rightarrow> Chunk list \<Rightarrow> adb \<Rightarrow> (string + ChunkForEmbed list) \<times> adb" where
  "write_chunks env parsed k maps [] s = (Inr [], s)"
| "write_chunks env parsed k maps (ch # chs) s =
     (case insert_row env (RChunk (chunk_params k (fst maps) ch)) s of
        (Inl e, s') \<Rightarrow> (Inl (''artifact: insert chunk in '' @ pf_FilePath parsed @ '': '' @ e), s')
      | (Inr i, s') \<Rightarrow>
          (case write_chunks env parsed k maps chs s' of
             (Inl e, s'') \<Rightarrow> (Inl e, s'')
           | (Inr cs, s'') \<Rightarrow> (Inr (chunk_for_embed parsed (snd maps) i ch # cs), s'')))"

text \<open>The loops over the imports, exports, references, JSX usages and network calls insert one row per
  element.\<close>

fun insert_each :: "aenv \<Rightarrow> ('x \<Rightarrow> row) \<Rightarrow> ('x \<Rightarrow> string) \<Rightarrow> 'x list \<Rightarrow> adb \<Rightarrow> (string + unit) \<times> adb" where
  "insert_each env mk what [] s = (Inr (), s)"
| "insert_each env mk what (x # xs) s =
     (case insert_row env (mk x) s of
        (Inl e, s') \<Rightarrow> (Inl (''artifact: insert '' @ what x @ '': '' @ e), s')
      | (Inr _, s') \<Rightarrow> insert_each env mk what xs s')"

definition dependency_row :: "ids \<Rightarrow> string \<Rightarrow> (string \<rightharpoonup> UUID) \<Rightarrow> Import \<Rightarrow> row" where
  "dependency_row k path m imp = RDependency
     \<lparr>dp_ProjectID = id_project k, dp_IndexSnapshotID = id_snapshot k, dp_SourceSymbolID = resolveSymbol (imp_SourceSymbolID imp) m,
      dp_SourceFilePath = path, dp_TargetFilePath = textOrNull (imp_TargetFilePath imp), dp_ImportName = imp_ImportName imp,
      dp_ImportType = imp_ImportType imp, dp_PackageName = textOrNull (imp_PackageName imp),
      dp_PackageVersion = textOrNull (imp_PackageVersion imp)\<rparr>"

definition export_row :: "ids \<Rightarrow> (string \<rightharpoonup> UUID) \<Rightarrow> Export \<Rightarrow> row" where
  "export_row k m e = RExport
     \<lparr>ep_ProjectID = id_project k, ep_IndexSnapshotID = id_snapshot k, ep_FileID = id_file k, ep_ExportKind = exp_ExportKind e,
      ep_ExportedName = exp_ExportedName e, ep_LocalName = textOrNull (exp_LocalName e), ep_SymbolID = resolveSymbol (exp_SymbolID e) m,
      ep_SourceModule = textOrNull (exp_SourceModule e), ep_Line = exp_Line e, ep_Column = exp_Column e\<rparr>"

definition reference_row :: "ids \<Rightarrow> (string \<rightharpoonup> UUID) \<Rightarrow> Reference \<Rightarrow> row" where
  "reference_row k m r = RReference
     \<lparr>rp_ProjectID = id_project k, rp_IndexSnapshotID = id_snapshot k, rp_FileID = id_file k,
      rp_SourceSymbolID = resolveSymbol (ref_SourceSymbolID r) m, rp_ReferenceKind = ref_ReferenceKind r,
      rp_RawText = textOrNull (ref_RawText r), rp_TargetName = ref_TargetName r,
      rp_QualifiedTargetHint = textOrNull (ref_QualifiedTargetHint r), rp_StartLine = ref_StartLine r,
      rp_StartColumn = ref_StartColumn r, rp_EndLine = ref_EndLine r, rp_EndColumn = ref_EndColumn r,
      rp_ResolutionScope = textOrNull (ref_ResolutionScope r), rp_ResolvedTargetSymbolID = resolveSymbol (ref_ResolvedTargetSymbolID r) m,
      rp_Confidence = textOrNull (ref_Confidence r)\<rparr>"

definition jsx_row :: "ids \<Rightarrow> (string \<rightharpoonup> UUID) \<Rightarrow> JsxUsage \<Rightarrow> row" where
  "jsx_row k m j = RJsx
     \<lparr>jp_ProjectID = id_project k, jp_IndexSnapshotID = id_snapshot k, jp_FileID = id_file k,
      jp_SourceSymbolID = resolveSymbol (jsx_SourceSymbolID j) m, jp_ComponentName = jsx_ComponentName j,
      jp_IsIntrinsic = jsx_IsIntrinsic j, jp_IsFragment = jsx_IsFragment j, jp_Line = jsx_Line j, jp_Column = jsx_Column j,
      jp_ResolvedTargetSymbolID = resolveSymbol (jsx_ResolvedTargetSymbolID j) m, jp_Confidence = textOrNull (jsx_Confidence j)\<rparr>"

definition network_row :: "ids \<Rightarrow> (string \<rightharpoonup> UUID) \<Rightarrow> NetworkCall \<Rightarrow> row" where
  "network_row k m n = RNetwork
     \<lparr>np_ProjectID = id_project k, np_IndexSnapshotID = id_snapshot k, np_FileID = id_file k,
      np_SourceSymbolID = resolveSymbol (nc_SourceSymbolID n) m, np_ClientKind = nc_ClientKind n, np_Method = nc_Method n,
      np_UrlLiteral = textOrNull (nc_URLLiteral n), np_UrlTemplate = textOrNull (nc_URLTemplate n), np_IsRelative = nc_IsRelative n,
      np_StartLine = nc_StartLine n, np_StartColumn = nc_StartColumn n, np_Confidence = textOrNull (nc_Confidence n)\<rparr>"

definition bind_err :: "(string + 'a) \<times> adb \<Rightarrow> ('a \<Rightarrow> adb \<Rightarrow> (string + 'b) \<times> adb) \<Rightarrow> (string + 'b) \<times> adb" where
  "bind_err x f = (case x of (Inl e, s) \<Rightarrow> (Inl e, s) | (Inr a, s) \<Rightarrow> f a s)"

definition wrap_err :: "string \<Rightarrow> (string + 'a) \<times> adb \<Rightarrow> (string + 'a) \<times> adb" where
  "wrap_err pre x = (case x of (Inl e, s) \<Rightarrow> (Inl (pre @ e), s) | (Inr a, s) \<Rightarrow> (Inr a, s))"

definition file_params :: "UUID \<Rightarrow> UUID \<Rightarrow> ParsedFileResult \<Rightarrow> UUID \<Rightarrow> InsertFileParams" where
  "file_params projectID snapshotID parsed contentID =
     \<lparr>fp_ProjectID = projectID, fp_IndexSnapshotID = snapshotID, fp_FilePath = pf_FilePath parsed,
      fp_Language = textOrNull (pf_Language parsed), fp_FileHash = pf_FileHash parsed, fp_SizeBytes = pf_SizeBytes parsed,
      fp_LineCount = pf_LineCount parsed, fp_FileContentID = contentID, fp_FileFacts = pf_Facts parsed,
      fp_ParserMeta = pf_Metadata parsed, fp_ExtractorStatuses = pf_ExtractorStatuses parsed, fp_Issues = pf_Issues parsed\<rparr>"

definition content_params :: "UUID \<Rightarrow> ParsedFileResult \<Rightarrow> string \<Rightarrow> UpsertFileContentParams" where
  "content_params projectID parsed fileContent =
     \<lparr>fcp_ProjectID = projectID, fcp_ContentHash = sha256Hex fileContent, fcp_Content = fileContent,
      fcp_SizeBytes = pf_SizeBytes parsed, fcp_LineCount = pf_LineCount parsed\<rparr>"

text \<open>Steps 3 to 9.\<close>

definition write_details :: "aenv \<Rightarrow> ids \<Rightarrow> ParsedFileResult \<Rightarrow> adb \<Rightarrow> (string + WriteResult) \<times> adb" where
  "write_details env k parsed s =
     (let path = pf_FilePath parsed
      in bind_err (write_symbols env path k (pf_Symbols parsed) (Map.empty, Map.empty) s) (\<lambda>maps s.
         let m = fst maps
         in bind_err (write_chunks env parsed k maps (pf_Chunks parsed) s) (\<lambda>chunks s.
            bind_err (insert_each env (dependency_row k path m) (\<lambda>i. ''dependency '' @ imp_ImportName i @ '' in '' @ path) (pf_Imports parsed) s) (\<lambda>_ s.
            bind_err (insert_each env (export_row k m) (\<lambda>e. ''export '' @ exp_ExportedName e @ '' in '' @ path) (pf_Exports parsed) s) (\<lambda>_ s.
            bind_err (insert_each env (reference_row k m) (\<lambda>r. ''reference '' @ ref_TargetName r @ '' in '' @ path) (pf_References parsed) s) (\<lambda>_ s.
            bind_err (insert_each env (jsx_row k m) (\<lambda>j. ''jsx usage '' @ jsx_ComponentName j @ '' in '' @ path) (pf_JsxUsages parsed) s) (\<lambda>_ s.
            bind_err (insert_each env (network_row k m) (\<lambda>n. ''network call in '' @ path) (pf_NetworkCalls parsed) s) (\<lambda>_ s.
              (Inr \<lparr>wr_FileID = id_file k, wr_Chunks = chunks\<rparr>, s)))))))))"

definition WriteFile :: "aenv \<Rightarrow> UUID \<Rightarrow> UUID \<Rightarrow> ParsedFileResult \<Rightarrow> string \<Rightarrow> adb \<Rightarrow> (string + WriteResult) \<times> adb" where
  "WriteFile env projectID snapshotID parsed fileContent s =
     bind_err (wrap_err (''artifact: upsert file content '' @ pf_FilePath parsed @ '': '')
                 (UpsertFileContent env (content_params projectID parsed fileContent) s)) (\<lambda>contentID s.
     bind_err (wrap_err (''artifact: insert file '' @ pf_FilePath parsed @ '': '')
                 (InsertFile env (file_params projectID snapshotID parsed contentID) s)) (\<lambda>fileID s.
       write_details env \<lparr>id_project = projectID, id_snapshot = snapshotID, id_file = fileID\<rparr> parsed s))"

section \<open>What a successful call has written\<close>

text \<open>What a row stores of an element of the parsed file: the keys of the file, the rows of the symbols it names (\<open>f\<close> gives the row
  of a symbol id), and columns from which the rest of the element is read back. An empty text is a NULL.\<close>

definition text_of :: "string option \<Rightarrow> string" where
  "text_of x = (case x of None \<Rightarrow> [] | Some t \<Rightarrow> t)"

lemma text_of_textOrNull [simp]: "text_of (textOrNull t) = t"
  by (simp add: text_of_def textOrNull_def)

definition stores_file :: "UUID \<Rightarrow> UUID \<Rightarrow> InsertFileParams \<Rightarrow> ParsedFileResult \<Rightarrow> bool" where
  "stores_file project snapshot p x \<longleftrightarrow> fp_ProjectID p = project \<and> fp_IndexSnapshotID p = snapshot \<and>
     x = x\<lparr>pf_FilePath := fp_FilePath p, pf_Language := text_of (fp_Language p), pf_FileHash := fp_FileHash p, pf_SizeBytes := fp_SizeBytes p,
       pf_LineCount := fp_LineCount p, pf_Issues := fp_Issues p, pf_Facts := fp_FileFacts p, pf_Metadata := fp_ParserMeta p,
       pf_ExtractorStatuses := fp_ExtractorStatuses p\<rparr>"

definition stores_symbol :: "ids \<Rightarrow> (string \<Rightarrow> UUID) \<Rightarrow> InsertSymbolParams \<Rightarrow> Symbol \<Rightarrow> bool" where
  "stores_symbol k f p x \<longleftrightarrow> sp_ProjectID p = id_project k \<and> sp_IndexSnapshotID p = id_snapshot k \<and> sp_FileID p = id_file k \<and>
     sp_ParentSymbolID p = f (sym_ParentSymbolID x) \<and>
     x = x\<lparr>sym_Name := sp_Name p, sym_QualifiedName := text_of (sp_QualifiedName p), sym_Kind := sp_Kind p,
       sym_Signature := text_of (sp_Signature p), sym_StartLine := sp_StartLine p, sym_EndLine := sp_EndLine p, sym_DocText := text_of (sp_DocText p),
       sym_SymbolHash := sp_SymbolHash p, sym_Flags := sp_Flags p, sym_Modifiers := sp_Modifiers p, sym_ReturnType := text_of (sp_ReturnType p),
       sym_ParameterTypes := sp_ParameterTypes p\<rparr>"

definition stores_chunk :: "ids \<Rightarrow> (string \<Rightarrow> UUID) \<Rightarrow> InsertCodeChunkParams \<Rightarrow> Chunk \<Rightarrow> bool" where
  "stores_chunk k f p x \<longleftrightarrow> cp_ProjectID p = id_project k \<and> cp_IndexSnapshotID p = id_snapshot k \<and> cp_FileID p = id_file k \<and>
     cp_SymbolID p = f (ch_SymbolID x) \<and> (case cp_EstimatedTokens p of None \<Rightarrow> ch_EstimatedTokens x \<le> 0 | Some t \<Rightarrow> ch_EstimatedTokens x = t) \<and>
     x = x\<lparr>ch_ChunkType := cp_ChunkType p, ch_ChunkHash := cp_ChunkHash p, ch_Content := cp_Content p, ch_ContextBefore := text_of (cp_ContextBefore p),
       ch_ContextAfter := text_of (cp_ContextAfter p), ch_StartLine := cp_StartLine p, ch_EndLine := cp_EndLine p,
       ch_OwnerQualifiedName := text_of (cp_OwnerQualifiedName p), ch_OwnerKind := text_of (cp_OwnerKind p),
       ch_IsExportedContext := cp_IsExportedContext p, ch_SemanticRole := text_of (cp_SemanticRole p)\<rparr>"

definition stores_import :: "ids \<Rightarrow> string \<Rightarrow> (string \<Rightarrow> UUID) \<Rightarrow> InsertDependencyParams \<Rightarrow> Import \<Rightarrow> bool" where
  "stores_import k path f p x \<longleftrightarrow> dp_ProjectID p = id_project k \<and> dp_IndexSnapshotID p = id_snapshot k \<and> dp_SourceFilePath p = path \<and>
     dp_SourceSymbolID p = f (imp_SourceSymbolID x) \<and>
     x = x\<lparr>imp_TargetFilePath := text_of (dp_TargetFilePath p), imp_ImportName := dp_ImportName p, imp_ImportType := dp_ImportType p,
       imp_PackageName := text_of (dp_PackageName p), imp_PackageVersion := text_of (dp_PackageVersion p)\<rparr>"

definition stores_export :: "ids \<Rightarrow> (string \<Rightarrow> UUID) \<Rightarrow> InsertExportParams \<Rightarrow> Export \<Rightarrow> bool" where
  "stores_export k f p x \<longleftrightarrow> ep_ProjectID p = id_project k \<and> ep_IndexSnapshotID p = id_snapshot k \<and> ep_FileID p = id_file k \<and>
     ep_SymbolID p = f (exp_SymbolID x) \<and>
     x = x\<lparr>exp_ExportKind := ep_ExportKind p, exp_ExportedName := ep_ExportedName p, exp_LocalName := text_of (ep_LocalName p),
       exp_SourceModule := text_of (ep_SourceModule p), exp_Line := ep_Line p, exp_Column := ep_Column p\<rparr>"

definition stores_reference :: "ids \<Rightarrow> (string \<Rightarrow> UUID) \<Rightarrow> InsertSymbolReferenceParams \<Rightarrow> Reference \<Rightarrow> bool" where
  "stores_reference k f p x \<longleftrightarrow> rp_ProjectID p = id_project k \<and> rp_IndexSnapshotID p = id_snapshot k \<and> rp_FileID p = id_file k \<and>
     rp_SourceSymbolID p = f (ref_SourceSymbolID x) \<and> rp_ResolvedTargetSymbolID p = f (ref_ResolvedTargetSymbolID x) \<and>
     x = x\<lparr>ref_ReferenceKind := rp_ReferenceKind p, ref_RawText := text_of (rp_RawText p), ref_TargetName := rp_TargetName p,
       ref_QualifiedTargetHint := text_of (rp_QualifiedTargetHint p), ref_StartLine := rp_StartLine p, ref_StartColumn := rp_StartColumn p,
       ref_EndLine := rp_EndLine p, ref_EndColumn := rp_EndColumn p, ref_ResolutionScope := text_of (rp_ResolutionScope p),
       ref_Confidence := text_of (rp_Confidence p)\<rparr>"

definition stores_jsx :: "ids \<Rightarrow> (string \<Rightarrow> UUID) \<Rightarrow> InsertJsxUsageParams \<Rightarrow> JsxUsage \<Rightarrow> bool" where
  "stores_jsx k f p x \<longleftrightarrow> jp_ProjectID p = id_project k \<and> jp_IndexSnapshotID p = id_snapshot k \<and> jp_FileID p = id_file k \<and>
     jp_SourceSymbolID p = f (jsx_SourceSymbolID x) \<and> jp_ResolvedTargetSymbolID p = f (jsx_ResolvedTargetSymbolID x) \<and>
     x = x\<lparr>jsx_ComponentName := jp_ComponentName p, jsx_IsIntrinsic := jp_IsIntrinsic p, jsx_IsFragment := jp_IsFragment p, jsx_Line := jp_Line p,
       jsx_Column := jp_Column p, jsx_Confidence := text_of (jp_Confidence p)\<rparr>"

definition stores_network :: "ids \<Rightarrow> (string \<Rightarrow> UUID) \<Rightarrow> InsertNetworkCallParams \<Rightarrow> NetworkCall \<Rightarrow> bool" where
  "stores_network k f p x \<longleftrightarrow> np_ProjectID p = id_project k \<and> np_IndexSnapshotID p = id_snapshot k \<and> np_FileID p = id_file k \<and>
     np_SourceSymbolID p = f (nc_SourceSymbolID x) \<and>
     x = x\<lparr>nc_ClientKind := np_ClientKind p, nc_Method := np_Method p, nc_URLLiteral := text_of (np_UrlLiteral p),
       nc_URLTemplate := text_of (np_UrlTemplate p), nc_IsRelative := np_IsRelative p, nc_StartLine := np_StartLine p,
       nc_StartColumn := np_StartColumn p, nc_Confidence := text_of (np_Confidence p)\<rparr>"

text \<open>The row of a symbol id, among the rows written for the symbols: the last one with that id, NULL when there is none.\<close>

definition symbol_row :: "Symbol list \<Rightarrow> (UUID \<times> row) list \<Rightarrow> string \<Rightarrow> UUID" where
  "symbol_row ys rows i =
     (if i = [] then null_UUID
      else case map_of (rev (zip (map sym_SymbolID ys) (map fst rows))) i of Some u \<Rightarrow> u | None \<Rightarrow> null_UUID)"

text \<open>The rows of the symbols, in their order: the parent of a symbol is one of the symbols before it.\<close>

definition stores_symbols :: "ids \<Rightarrow> Symbol list \<Rightarrow> (UUID \<times> row) list \<Rightarrow> bool" where
  "stores_symbols k ys rows \<longleftrightarrow> length rows = length ys \<and>
     (\<forall>i < length ys. \<exists>p. snd (rows ! i) = RSymbol p \<and> stores_symbol k (symbol_row (take i ys) (take i rows)) p (ys ! i))"

text \<open>The two maps the code builds from the symbols agree with it.\<close>

definition symbol_map_ok :: "(string \<rightharpoonup> UUID) \<Rightarrow> Symbol list \<Rightarrow> (UUID \<times> row) list \<Rightarrow> bool" where
  "symbol_map_ok m ys rows \<longleftrightarrow> (\<forall>i. i \<noteq> [] \<longrightarrow> m i = map_of (rev (zip (map sym_SymbolID ys) (map fst rows))) i)"

lemma resolveSymbol_row: "symbol_map_ok m ys rows \<Longrightarrow> resolveSymbol i m = symbol_row ys rows i"
  by (simp add: symbol_map_ok_def resolveSymbol_def symbol_row_def)

lemma symbol_map_ok_snoc:
  assumes "symbol_map_ok m ys rows" "length rows = length ys"
  shows "symbol_map_ok (if sym_SymbolID y = [] then m else m(sym_SymbolID y \<mapsto> fst e)) (ys @ [y]) (rows @ [e])"
  using assms by (auto simp: symbol_map_ok_def)

lemma stored_rows:
  "symbol_map_ok m ys rows \<Longrightarrow> stores_symbol k (symbol_row ys rows) (symbol_params k m y) y"
  "symbol_map_ok m ys rows \<Longrightarrow> stores_chunk k (symbol_row ys rows) (chunk_params k m c) c"
  "symbol_map_ok m ys rows \<Longrightarrow> \<exists>p. dependency_row k path m i = RDependency p \<and> stores_import k path (symbol_row ys rows) p i"
  "symbol_map_ok m ys rows \<Longrightarrow> \<exists>p. export_row k m x = RExport p \<and> stores_export k (symbol_row ys rows) p x"
  "symbol_map_ok m ys rows \<Longrightarrow> \<exists>p. reference_row k m rf = RReference p \<and> stores_reference k (symbol_row ys rows) p rf"
  "symbol_map_ok m ys rows \<Longrightarrow> \<exists>p. jsx_row k m j = RJsx p \<and> stores_jsx k (symbol_row ys rows) p j"
  "symbol_map_ok m ys rows \<Longrightarrow> \<exists>p. network_row k m n = RNetwork p \<and> stores_network k (symbol_row ys rows) p n"
  by (simp_all add: resolveSymbol_row stores_symbol_def stores_chunk_def stores_import_def stores_export_def stores_reference_def stores_jsx_def
      stores_network_def symbol_params_def chunk_params_def dependency_row_def export_row_def reference_row_def jsx_row_def network_row_def)

lemma stored_each:
  "map snd new = map mk xs \<Longrightarrow> (\<And>x. \<exists>p. mk x = C p \<and> Q p x) \<Longrightarrow> list_all2 (\<lambda>e x. \<exists>p. snd e = C p \<and> Q p x) new xs"
  by (induction xs arbitrary: new) auto

lemma insert_row_Inr:
  "insert_row env r s = (Inr i, s') \<Longrightarrow> a_rows s' = a_rows s @ [(i, r)]"
  by (auto simp: insert_row_def Let_def split: option.splits)

lemma bind_err_Inr: "bind_err x f = (Inr b, s') \<longleftrightarrow> (\<exists>a s. x = (Inr a, s) \<and> f a s = (Inr b, s'))"
  by (auto simp: bind_err_def split: prod.splits sum.splits)

lemma wrap_err_Inr: "wrap_err pre x = (Inr a, s) \<longleftrightarrow> x = (Inr a, s)"
  by (auto simp: wrap_err_def split: prod.splits sum.splits)

lemma insert_each_Inr:
  "insert_each env mk what xs s = (Inr (), s') \<Longrightarrow>
     \<exists>new. a_rows s' = a_rows s @ new \<and> map snd new = map mk xs"
proof (induction xs arbitrary: s)
  case (Cons x xs)
  then obtain i s1 where i: "insert_row env (mk x) s = (Inr i, s1)" "insert_each env mk what xs s1 = (Inr (), s')"
    by (auto split: prod.splits sum.splits)
  from Cons.IH [OF i(2)] obtain new where "a_rows s' = a_rows s1 @ new" "map snd new = map mk xs" by blast
  then show ?case using insert_row_Inr [OF i(1)] by (intro exI [of _ "(i, mk x) # new"]) simp
qed simp

lemma write_chunks_Inr:
  "write_chunks env parsed k maps chs s = (Inr cs, s') \<Longrightarrow>
     \<exists>new. a_rows s' = a_rows s @ new \<and> map snd new = map (\<lambda>ch. RChunk (chunk_params k (fst maps) ch)) chs \<and>
       cs = map2 (\<lambda>e ch. chunk_for_embed parsed (snd maps) (fst e) ch) new chs"
proof (induction chs arbitrary: s cs)
  case (Cons ch chs)
  then obtain i s1 cs' where i: "insert_row env (RChunk (chunk_params k (fst maps) ch)) s = (Inr i, s1)"
    "write_chunks env parsed k maps chs s1 = (Inr cs', s')" "cs = chunk_for_embed parsed (snd maps) i ch # cs'"
    by (auto split: prod.splits sum.splits)
  from Cons.IH [OF i(2)] obtain new where "a_rows s' = a_rows s1 @ new"
    "map snd new = map (\<lambda>ch. RChunk (chunk_params k (fst maps) ch)) chs"
    "cs' = map2 (\<lambda>e ch. chunk_for_embed parsed (snd maps) (fst e) ch) new chs" by blast
  then show ?case
    using insert_row_Inr [OF i(1)] i(3) by (intro exI [of _ "(i, RChunk (chunk_params k (fst maps) ch)) # new"]) simp
qed simp

definition is_symbol_of :: "ids \<Rightarrow> UUID \<times> row \<Rightarrow> bool" where
  "is_symbol_of k e = (\<exists>p. snd e = RSymbol p \<and> sp_FileID p = id_file k)"

lemma write_symbols_Inr:
  "write_symbols env path k syms maps s = (Inr maps', s') \<Longrightarrow> symbol_map_ok (fst maps) ys rows \<Longrightarrow> length rows = length ys \<Longrightarrow>
     \<exists>new. a_rows s' = a_rows s @ new \<and> length new = length syms \<and> list_all (is_symbol_of k) new \<and>
       symbol_map_ok (fst maps') (ys @ syms) (rows @ new) \<and>
       (\<forall>i < length syms. \<exists>p. snd (new ! i) = RSymbol p \<and> stores_symbol k (symbol_row (ys @ take i syms) (rows @ take i new)) p (syms ! i))"
proof (induction syms arbitrary: s maps ys rows)
  case (Cons y syms)
  let ?r = "RSymbol (symbol_params k (fst maps) y)"
  obtain i s1 where i: "insert_row env ?r s = (Inr i, s1)" using Cons.prems by (auto split: prod.splits sum.splits)
  define maps1 where "maps1 = (if sym_SymbolID y = [] then maps
    else ((fst maps)(sym_SymbolID y \<mapsto> i), (snd maps)(sym_SymbolID y \<mapsto> (sym_Name y, sym_Kind y))))"
  have "fst maps1 = (if sym_SymbolID y = [] then fst maps else (fst maps)(sym_SymbolID y \<mapsto> fst (i, ?r)))" by (simp add: maps1_def)
  then have ok: "symbol_map_ok (fst maps1) (ys @ [y]) (rows @ [(i, ?r)])" using symbol_map_ok_snoc [OF Cons.prems(2,3), of y "(i, ?r)"] by simp
  have "write_symbols env path k syms maps1 s1 = (Inr maps', s')" using Cons.prems(1) i by (simp add: maps1_def)
  from Cons.IH [OF this ok] Cons.prems(3) obtain new where new: "a_rows s' = a_rows s1 @ new" "length new = length syms" "list_all (is_symbol_of k) new"
    "symbol_map_ok (fst maps') (ys @ y # syms) (rows @ (i, ?r) # new)"
    "\<forall>n < length syms. \<exists>p. snd (new ! n) = RSymbol p \<and>
       stores_symbol k (symbol_row (ys @ y # take n syms) (rows @ (i, ?r) # take n new)) p (syms ! n)" by auto
  have "is_symbol_of k (i, ?r)" by (simp add: is_symbol_of_def symbol_params_def)
  moreover have "\<exists>p. snd (((i, ?r) # new) ! n) = RSymbol p \<and>
      stores_symbol k (symbol_row (ys @ take n (y # syms)) (rows @ take n ((i, ?r) # new))) p ((y # syms) ! n)" if "n < length (y # syms)" for n
    using that new(5) stored_rows(1) [OF Cons.prems(2)] by (cases n) auto
  ultimately show ?case
    using insert_row_Inr [OF i] new(1-4) by (intro exI [of _ "(i, ?r) # new"]) simp
qed simp

text \<open>The rows of the last five steps.\<close>

definition other_rows :: "ids \<Rightarrow> (string \<rightharpoonup> UUID) \<Rightarrow> ParsedFileResult \<Rightarrow> row list" where
  "other_rows k m parsed =
     map (dependency_row k (pf_FilePath parsed) m) (pf_Imports parsed) @ map (export_row k m) (pf_Exports parsed) @
     map (reference_row k m) (pf_References parsed) @ map (jsx_row k m) (pf_JsxUsages parsed) @
     map (network_row k m) (pf_NetworkCalls parsed)"

lemma map_append_parts:
  assumes "map f xs = a @ b @ c @ d @ e"
  obtains p q r s t where "xs = p @ q @ r @ s @ t" "map f p = a" "map f q = b" "map f r = c" "map f s = d" "map f t = e"
proof -
  have split: "\<exists>p q. zs = p @ q \<and> map f p = u \<and> map f q = v" if "map f zs = u @ v" for zs u v
    using that by (metis map_eq_append_conv)
  obtain p x1 where 1: "xs = p @ x1" "map f p = a" "map f x1 = b @ c @ d @ e" using split [OF assms] by blast
  obtain q x2 where 2: "x1 = q @ x2" "map f q = b" "map f x2 = c @ d @ e" using split [OF 1(3)] by blast
  obtain r x3 where 3: "x2 = r @ x3" "map f r = c" "map f x3 = d @ e" using split [OF 2(3)] by blast
  obtain s t where 4: "x3 = s @ t" "map f s = d" "map f t = e" using split [OF 3(3)] by blast
  show ?thesis by (rule that [of p q r s t]) (use 1 2 3 4 in simp_all)
qed

lemma write_details_Inr:
  assumes "write_details env k parsed s = (Inr res, s')"
  shows "\<exists>maps syms chs rest. a_rows s' = a_rows s @ syms @ chs @ rest \<and> wr_FileID res = id_file k \<and>
    stores_symbols k (pf_Symbols parsed) syms \<and> list_all (is_symbol_of k) syms \<and> symbol_map_ok (fst maps) (pf_Symbols parsed) syms \<and>
    map snd chs = map (\<lambda>ch. RChunk (chunk_params k (fst maps) ch)) (pf_Chunks parsed) \<and>
    wr_Chunks res = map2 (\<lambda>e ch. chunk_for_embed parsed (snd maps) (fst e) ch) chs (pf_Chunks parsed) \<and>
    map snd rest = other_rows k (fst maps) parsed"
proof -
  obtain maps cs s1 s2 s3 s4 s5 s6 where st:
    "write_symbols env (pf_FilePath parsed) k (pf_Symbols parsed) (Map.empty, Map.empty) s = (Inr maps, s1)"
    "write_chunks env parsed k maps (pf_Chunks parsed) s1 = (Inr cs, s2)"
    "insert_each env (dependency_row k (pf_FilePath parsed) (fst maps))
       (\<lambda>i. ''dependency '' @ imp_ImportName i @ '' in '' @ pf_FilePath parsed) (pf_Imports parsed) s2 = (Inr (), s3)"
    "insert_each env (export_row k (fst maps)) (\<lambda>e. ''export '' @ exp_ExportedName e @ '' in '' @ pf_FilePath parsed) (pf_Exports parsed) s3 = (Inr (), s4)"
    "insert_each env (reference_row k (fst maps)) (\<lambda>r. ''reference '' @ ref_TargetName r @ '' in '' @ pf_FilePath parsed) (pf_References parsed) s4 = (Inr (), s5)"
    "insert_each env (jsx_row k (fst maps)) (\<lambda>j. ''jsx usage '' @ jsx_ComponentName j @ '' in '' @ pf_FilePath parsed) (pf_JsxUsages parsed) s5 = (Inr (), s6)"
    "insert_each env (network_row k (fst maps)) (\<lambda>n. ''network call in '' @ pf_FilePath parsed) (pf_NetworkCalls parsed) s6 = (Inr (), s')"
    and res: "res = \<lparr>wr_FileID = id_file k, wr_Chunks = cs\<rparr>"
    using assms by (fastforce simp: write_details_def Let_def bind_err_Inr)
  have "symbol_map_ok (fst (Map.empty :: string \<rightharpoonup> UUID, Map.empty :: string \<rightharpoonup> string \<times> string)) [] []" by (simp add: symbol_map_ok_def)
  from write_symbols_Inr [OF st(1) this] obtain syms where sy: "a_rows s1 = a_rows s @ syms" "stores_symbols k (pf_Symbols parsed) syms"
    "list_all (is_symbol_of k) syms" "symbol_map_ok (fst maps) (pf_Symbols parsed) syms"
    by (auto simp: stores_symbols_def)
  obtain chs where ch: "a_rows s2 = a_rows s1 @ chs" "map snd chs = map (\<lambda>ch. RChunk (chunk_params k (fst maps) ch)) (pf_Chunks parsed)"
    "cs = map2 (\<lambda>e ch. chunk_for_embed parsed (snd maps) (fst e) ch) chs (pf_Chunks parsed)"
    using write_chunks_Inr [OF st(2)] by blast
  obtain n3 n4 n5 n6 n7 where n: "a_rows s' = a_rows s2 @ n3 @ n4 @ n5 @ n6 @ n7" "map snd (n3 @ n4 @ n5 @ n6 @ n7) = other_rows k (fst maps) parsed"
    using insert_each_Inr [OF st(3)] insert_each_Inr [OF st(4)] insert_each_Inr [OF st(5)] insert_each_Inr [OF st(6)] insert_each_Inr [OF st(7)]
    unfolding other_rows_def by force
  show ?thesis
    using sy ch n res
    by (intro exI [of _ maps] exI [of _ syms] exI [of _ chs] exI [of _ "n3 @ n4 @ n5 @ n6 @ n7"]) simp
qed

lemma UpsertFileContent_Inr:
  assumes "UpsertFileContent env p s = (Inr i, s')"
  shows "\<exists>cont. a_rows s' = a_rows s @ cont \<and> (cont = [] \<or> cont = [(i, RContent p)]) \<and>
    (\<exists>c. (i, RContent c) \<in> set (a_rows s') \<and> (c = p \<or> sql_eq (fcp_ProjectID c) (fcp_ProjectID p) \<and> fcp_ContentHash c = fcp_ContentHash p))"
proof (cases "List.find (same_content p) (a_rows s)")
  case None
  then show ?thesis using assms insert_row_Inr [of env "RContent p" s i s'] by (auto simp: UpsertFileContent_def)
next
  case (Some e)
  then have "same_content p e" "e \<in> set (a_rows s)" by (auto simp: find_Some_iff)
  then show ?thesis
    using assms Some
    by (cases e) (auto simp: UpsertFileContent_def same_content_def split: option.splits row.splits)
qed

text \<open>The ids of the chunk rows of a part of the log.\<close>

definition is_chunk :: "row \<Rightarrow> bool" where
  "is_chunk r = (case r of RChunk _ \<Rightarrow> True | _ \<Rightarrow> False)"

definition chunk_ids :: "(UUID \<times> row) list \<Rightarrow> UUID list" where
  "chunk_ids rows = map fst (filter (\<lambda>e. is_chunk (snd e)) rows)"

lemma chunk_ids_append [simp]: "chunk_ids (a @ b) = chunk_ids a @ chunk_ids b"
  by (simp add: chunk_ids_def)

lemma chunk_ids_Nil [simp]: "chunk_ids [] = []"
  by (simp add: chunk_ids_def)

lemma chunk_ids_Cons: "chunk_ids (e # xs) = (if is_chunk (snd e) then fst e # chunk_ids xs else chunk_ids xs)"
  by (simp add: chunk_ids_def)

lemma chunk_ids_none: "(\<And>r. r \<in> set (map snd rows) \<Longrightarrow> \<not> is_chunk r) \<Longrightarrow> chunk_ids rows = []"
  by (auto simp: chunk_ids_def filter_empty_conv)

lemma chunk_ids_all: "(\<And>r. r \<in> set (map snd rows) \<Longrightarrow> is_chunk r) \<Longrightarrow> chunk_ids rows = map fst rows"
  by (simp add: chunk_ids_def)

lemma UpsertFileContent_chunks:
  assumes "UpsertFileContent env p s = (Inr i, s')"
  shows "\<exists>cont. a_rows s' = a_rows s @ cont \<and> chunk_ids cont = []"
  using assms insert_row_Inr [of env "RContent p" s i s']
  by (auto simp: UpsertFileContent_def chunk_ids_def is_chunk_def split: option.splits)

text \<open>The chunk rows a successful call has written are those handed on for embedding.\<close>

lemma WriteFile_chunk_rows:
  assumes "WriteFile env projectID snapshotID parsed fileContent s = (Inr res, s')"
  shows "\<exists>new. a_rows s' = a_rows s @ new \<and> chunk_ids new = map ce_ChunkDBID (wr_Chunks res) \<and>
    map ce_Content (wr_Chunks res) = map ch_Content (pf_Chunks parsed)"
proof -
  obtain ci s1 fi s2 where st: "UpsertFileContent env (content_params projectID parsed fileContent) s = (Inr ci, s1)"
    "InsertFile env (file_params projectID snapshotID parsed ci) s1 = (Inr fi, s2)"
    "write_details env \<lparr>id_project = projectID, id_snapshot = snapshotID, id_file = fi\<rparr> parsed s2 = (Inr res, s')"
    using assms by (auto simp: WriteFile_def bind_err_Inr wrap_err_Inr)
  let ?k = "\<lparr>id_project = projectID, id_snapshot = snapshotID, id_file = fi\<rparr>"
  let ?f = "file_params projectID snapshotID parsed ci"
  obtain cont where cont: "a_rows s1 = a_rows s @ cont" "chunk_ids cont = []" using UpsertFileContent_chunks [OF st(1)] by blast
  have s2: "a_rows s2 = a_rows s1 @ [(fi, RFile ?f)]"
    using st(2) insert_row_Inr [of env "RFile ?f" s1 fi s2] by (auto simp: InsertFile_def split: if_splits)
  obtain maps syms chs rest where d: "a_rows s' = a_rows s2 @ syms @ chs @ rest" "list_all (is_symbol_of ?k) syms"
    "map snd chs = map (\<lambda>ch. RChunk (chunk_params ?k (fst maps) ch)) (pf_Chunks parsed)"
    "wr_Chunks res = map2 (\<lambda>e ch. chunk_for_embed parsed (snd maps) (fst e) ch) chs (pf_Chunks parsed)"
    "map snd rest = other_rows ?k (fst maps) parsed"
    using write_details_Inr [OF st(3)] by blast
  have len: "length chs = length (pf_Chunks parsed)" using arg_cong [OF d(3), of length] by simp
  have "chunk_ids syms = []"
    using d(2) by (intro chunk_ids_none) (auto simp: list_all_iff is_symbol_of_def is_chunk_def)
  moreover have "chunk_ids rest = []"
    unfolding chunk_ids_def filter_empty_conv map_is_Nil_conv
  proof (intro ballI)
    fix e assume "e \<in> set rest"
    then have "snd e \<in> set (map snd rest)" by simp
    then show "\<not> is_chunk (snd e)" unfolding d(5)
      by (auto simp: other_rows_def is_chunk_def dependency_row_def export_row_def reference_row_def jsx_row_def network_row_def)
  qed
  moreover have "chunk_ids chs = map fst chs" by (rule chunk_ids_all, unfold d(3)) (auto simp: is_chunk_def)
  moreover have "map ce_ChunkDBID (wr_Chunks res) = map fst chs" "map ce_Content (wr_Chunks res) = map ch_Content (pf_Chunks parsed)"
    unfolding d(4) by (rule nth_equalityI; simp add: len chunk_for_embed_def Let_def)+
  moreover have "chunk_ids [(fi, RFile ?f)] = []" by (simp add: chunk_ids_def is_chunk_def)
  ultimately show ?thesis
    using cont s2 d(1) by (intro exI [of _ "cont @ [(fi, RFile ?f)] @ syms @ chs @ rest"]) (simp add: chunk_ids_Cons is_chunk_def)
qed

text \<open>C31: a file is written completely and exactly: after success the log has grown by at most one content row, which holds the text,
  the file row, which stores the file's facts and refers to a content row of the project with the hash of the text, and one row for each symbol, chunk, import,
  export, reference, JSX usage and network call, in their order. Each of them is a row of its kind, carries the project, the snapshot and the
  file (a dependency the path), stores its element so that it can be read back, and refers to the row just written for the
  symbol it names, or to NULL when the file has none (the parent of a symbol: when none is before it). The chunks handed on for
  embedding are, in order, the chunks of the file with the ids of their rows.\<close>

theorem WriteFile_complete:
  assumes "WriteFile env projectID snapshotID parsed fileContent s = (Inr res, s')"
  shows "\<exists>cont f syms chs deps exps refs jsxs nets.
    a_rows s' = a_rows s @ cont @ (wr_FileID res, RFile f) # syms @ chs @ deps @ exps @ refs @ jsxs @ nets \<and>
    (cont = [] \<or> (\<exists>c. cont = [(fp_FileContentID f, RContent c)] \<and> fcp_Content c = fileContent)) \<and> stores_file projectID snapshotID f parsed \<and>
    (\<exists>c. (fp_FileContentID f, RContent c) \<in> set (a_rows s @ cont) \<and> fcp_ContentHash c = sha256Hex fileContent \<and>
       (fcp_ProjectID c = projectID \<or> sql_eq (fcp_ProjectID c) projectID)) \<and>
    (let k = \<lparr>id_project = projectID, id_snapshot = snapshotID, id_file = wr_FileID res\<rparr>; row_of = symbol_row (pf_Symbols parsed) syms
     in stores_symbols k (pf_Symbols parsed) syms \<and>
       list_all2 (\<lambda>e x. \<exists>p. snd e = RChunk p \<and> stores_chunk k row_of p x) chs (pf_Chunks parsed) \<and>
       list_all2 (\<lambda>e x. \<exists>p. snd e = RDependency p \<and> stores_import k (pf_FilePath parsed) row_of p x) deps (pf_Imports parsed) \<and>
       list_all2 (\<lambda>e x. \<exists>p. snd e = RExport p \<and> stores_export k row_of p x) exps (pf_Exports parsed) \<and>
       list_all2 (\<lambda>e x. \<exists>p. snd e = RReference p \<and> stores_reference k row_of p x) refs (pf_References parsed) \<and>
       list_all2 (\<lambda>e x. \<exists>p. snd e = RJsx p \<and> stores_jsx k row_of p x) jsxs (pf_JsxUsages parsed) \<and>
       list_all2 (\<lambda>e x. \<exists>p. snd e = RNetwork p \<and> stores_network k row_of p x) nets (pf_NetworkCalls parsed)) \<and>
    map (\<lambda>c. (ce_ChunkDBID c, ce_Content c)) (wr_Chunks res) = zip (map fst chs) (map ch_Content (pf_Chunks parsed))"
proof -
  obtain ci s1 fi s2 where st: "UpsertFileContent env (content_params projectID parsed fileContent) s = (Inr ci, s1)"
    "InsertFile env (file_params projectID snapshotID parsed ci) s1 = (Inr fi, s2)"
    "write_details env \<lparr>id_project = projectID, id_snapshot = snapshotID, id_file = fi\<rparr> parsed s2 = (Inr res, s')"
    using assms by (auto simp: WriteFile_def bind_err_Inr wrap_err_Inr)
  let ?k = "\<lparr>id_project = projectID, id_snapshot = snapshotID, id_file = fi\<rparr>"
  let ?f = "file_params projectID snapshotID parsed ci" and ?c = "content_params projectID parsed fileContent"
  obtain cont where cont: "a_rows s1 = a_rows s @ cont" "cont = [] \<or> cont = [(ci, RContent ?c)]"
    "\<exists>c. (ci, RContent c) \<in> set (a_rows s1) \<and> (c = ?c \<or> sql_eq (fcp_ProjectID c) (fcp_ProjectID ?c) \<and> fcp_ContentHash c = fcp_ContentHash ?c)"
    using UpsertFileContent_Inr [OF st(1)] by blast
  have s2: "a_rows s2 = a_rows s1 @ [(fi, RFile ?f)]"
    using st(2) insert_row_Inr [of env "RFile ?f" s1 fi s2] by (auto simp: InsertFile_def split: if_splits)
  obtain maps syms chs rest where d: "a_rows s' = a_rows s2 @ syms @ chs @ rest" "wr_FileID res = id_file ?k"
    "stores_symbols ?k (pf_Symbols parsed) syms" "symbol_map_ok (fst maps) (pf_Symbols parsed) syms"
    "map snd chs = map (\<lambda>ch. RChunk (chunk_params ?k (fst maps) ch)) (pf_Chunks parsed)"
    "wr_Chunks res = map2 (\<lambda>e ch. chunk_for_embed parsed (snd maps) (fst e) ch) chs (pf_Chunks parsed)"
    "map snd rest = other_rows ?k (fst maps) parsed"
    using write_details_Inr [OF st(3)] by blast
  obtain deps exps refs jsxs nets where rest: "rest = deps @ exps @ refs @ jsxs @ nets"
    "map snd deps = map (dependency_row ?k (pf_FilePath parsed) (fst maps)) (pf_Imports parsed)"
    "map snd exps = map (export_row ?k (fst maps)) (pf_Exports parsed)" "map snd refs = map (reference_row ?k (fst maps)) (pf_References parsed)"
    "map snd jsxs = map (jsx_row ?k (fst maps)) (pf_JsxUsages parsed)" "map snd nets = map (network_row ?k (fst maps)) (pf_NetworkCalls parsed)"
    using d(7) unfolding other_rows_def by (rule map_append_parts)
  note stored = stored_rows [OF d(4), of ?k]
  have "\<exists>p. RChunk (chunk_params ?k (fst maps) c) = RChunk p \<and> stores_chunk ?k (symbol_row (pf_Symbols parsed) syms) p c" for c using stored(2) by blast
  note lists = stored_each [OF d(5) this] stored_each [OF rest(2) stored(3)] stored_each [OF rest(3) stored(4)] stored_each [OF rest(4) stored(5)]
    stored_each [OF rest(5) stored(6)] stored_each [OF rest(6) stored(7)]
  have len: "length chs = length (pf_Chunks parsed)" using arg_cong [OF d(5), of length] by simp
  have embed: "map (\<lambda>c. (ce_ChunkDBID c, ce_Content c)) (wr_Chunks res) = zip (map fst chs) (map ch_Content (pf_Chunks parsed))"
    unfolding d(6) by (rule nth_equalityI) (simp_all add: len chunk_for_embed_def Let_def)
  have "a_rows s' = a_rows s @ cont @ (wr_FileID res, RFile ?f) # syms @ chs @ deps @ exps @ refs @ jsxs @ nets"
    using cont(1) s2 d(1,2) rest(1) by simp
  moreover have "stores_file projectID snapshotID ?f parsed" by (simp add: stores_file_def file_params_def)
  moreover have "cont = [] \<or> (\<exists>c. cont = [(fp_FileContentID ?f, RContent c)] \<and> fcp_Content c = fileContent)"
    using cont(2) by (auto simp: file_params_def content_params_def)
  moreover have "\<exists>c. (fp_FileContentID ?f, RContent c) \<in> set (a_rows s @ cont) \<and> fcp_ContentHash c = sha256Hex fileContent \<and>
       (fcp_ProjectID c = projectID \<or> sql_eq (fcp_ProjectID c) projectID)"
    using cont(3) unfolding cont(1) by (auto simp: file_params_def content_params_def)
  ultimately show ?thesis
    using d(3) lists embed unfolding d(2) Let_def ids.simps
    apply -
    apply (rule exI [of _ cont], rule exI [of _ ?f], rule exI [of _ syms], rule exI [of _ chs], rule exI [of _ deps], rule exI [of _ exps],
        rule exI [of _ refs], rule exI [of _ jsxs], rule exI [of _ nets])
    apply (intro conjI)
    apply assumption+
    done
qed

definition ex_env :: aenv where
  "ex_env = \<lparr>env_id = ex_uuid, env_fail = (\<lambda>_. None)\<rparr>"

definition ex_parsed :: ParsedFileResult where
  "ex_parsed = zero_ParsedFileResult\<lparr>pf_FilePath := ''a.go'', pf_Chunks := [zero_Chunk\<lparr>ch_Content := ''x''\<rparr>]\<rparr>"

lemma ex_WriteFile: "\<exists>res s'. WriteFile ex_env p sn ex_parsed t \<lparr>a_rows = [], a_calls = 0\<rparr> = (Inr res, s')"
  by (simp add: WriteFile_def bind_err_def wrap_err_def UpsertFileContent_def InsertFile_def insert_row_def ex_env_def
      same_file_def write_details_def ex_parsed_def zero_ParsedFileResult_def)

theorem WriteFile_complete_witness:
  "\<exists>res s'. WriteFile ex_env (ex_uuid 1) (ex_uuid 2) ex_parsed ''x'' \<lparr>a_rows = [], a_calls = 0\<rparr> = (Inr res, s') \<and>
     (\<exists>cont f c p. a_rows s' = cont @ [(wr_FileID res, RFile f), (c, RChunk p)] \<and> cp_Content p = ''x'' \<and> cp_FileID p = wr_FileID res)"
proof -
  obtain res s' where w: "WriteFile ex_env (ex_uuid 1) (ex_uuid 2) ex_parsed ''x'' \<lparr>a_rows = [], a_calls = 0\<rparr> = (Inr res, s')"
    using ex_WriteFile by blast
  have empty: "pf_Symbols ex_parsed = []" "pf_Imports ex_parsed = []" "pf_Exports ex_parsed = []" "pf_References ex_parsed = []" "pf_JsxUsages ex_parsed = []"
    "pf_NetworkCalls ex_parsed = []" "pf_Chunks ex_parsed = [zero_Chunk\<lparr>ch_Content := ''x''\<rparr>]"
    by (simp_all add: ex_parsed_def zero_ParsedFileResult_def)
  from WriteFile_complete [OF w, unfolded empty Let_def list_all2_Nil2] obtain cont f chs where
    r: "a_rows s' = cont @ (wr_FileID res, RFile f) # chs"
    "list_all2 (\<lambda>e x. \<exists>p. snd e = RChunk p \<and> stores_chunk \<lparr>id_project = ex_uuid 1, id_snapshot = ex_uuid 2, id_file = wr_FileID res\<rparr> (symbol_row [] []) p x)
       chs [zero_Chunk\<lparr>ch_Content := ''x''\<rparr>]"
    by (auto simp: stores_symbols_def)
  then obtain e p where e: "chs = [e]" "snd e = RChunk p" and
    p: "stores_chunk \<lparr>id_project = ex_uuid 1, id_snapshot = ex_uuid 2, id_file = wr_FileID res\<rparr> (symbol_row [] []) p (zero_Chunk\<lparr>ch_Content := ''x''\<rparr>)"
    by (auto simp: list_all2_Cons2)
  have "cp_Content p = ''x''" "cp_FileID p = wr_FileID res" using p by (simp_all add: stores_chunk_def zero_Chunk_def)
  moreover have "a_rows s' = cont @ [(wr_FileID res, RFile f), (fst e, RChunk p)]" using r(1) e by (cases e) simp
  ultimately show ?thesis using w by blast
qed

section \<open>Cleaning up before a second attempt\<close>

lemma one_of_null: "\<not> one_of us null_UUID"
  by (auto simp: one_of_def list_ex_iff sql_eq_def null_UUID_def)

text \<open>Deleting the files of a snapshot before it is written again leaves the dependencies without a source
  symbol behind: an import at the top of a file, written by an attempt that failed or by an
  earlier indexing of the same commit, stays in the table next to the row the next attempt writes.\<close>

theorem cleanup_keeps_stale_dependencies:
  assumes "(u, RDependency p) \<in> set (a_rows s)" "dp_SourceSymbolID p = null_UUID"
  shows "(u, RDependency p) \<in> set (a_rows (delete_files snapshotID s))"
proof -
  have "\<not> one_of us (dp_SourceSymbolID p)" for us using assms(2) one_of_null by simp
  then show ?thesis
    using assms(1) by (force simp: delete_files_def Let_def file_of_snapshot_def)
qed

definition ex_dependency :: InsertDependencyParams where
  "ex_dependency = \<lparr>dp_ProjectID = ex_uuid 1, dp_IndexSnapshotID = ex_uuid 2, dp_SourceSymbolID = null_UUID, dp_SourceFilePath = ''a.go'',
     dp_TargetFilePath = None, dp_ImportName = ''fmt'', dp_ImportType = ''STDLIB'', dp_PackageName = None, dp_PackageVersion = None\<rparr>"

theorem cleanup_keeps_stale_dependencies_witness:
  "(ex_uuid 7, RDependency ex_dependency) \<in> set (a_rows (delete_files (ex_uuid 2) \<lparr>a_rows = [(ex_uuid 7, RDependency ex_dependency)], a_calls = 1\<rparr>))"
  by (rule cleanup_keeps_stale_dependencies) (simp_all add: ex_dependency_def)

end
