(* ===== verification/Import_Resolve.thy ===== *)
theory Import_Resolve
  imports Parser_Domain
begin

text \<open>
  Resolution of import targets against the known files of a project
  (\<^verbatim>\<open>src/backend-worker/internal/indexing/resolve.go\<close>) and the module path of a \<^verbatim>\<open>go.mod\<close>
  (\<^verbatim>\<open>ExtractGoModulePath\<close> of \<^verbatim>\<open>indexing/pipeline.go\<close>).
  The four lookup tables of the source are the fields of the record \<open>lookups\<close>. The in-place update of the
  imports returns the updated files.
\<close>

section \<open>Definitions\<close>

definition indexFileNames :: "string \<Rightarrow> (string set) option" where
  "indexFileNames b =
     (if b = ''index'' then Some {''.ts'', ''.tsx'', ''.js'', ''.jsx'', ''.mjs'', ''.cjs''}
      else if b = ''__init__'' then Some {''.py''}
      else if b = ''mod'' then Some {''.rs''}
      else None)"

definition isDTS :: "string \<Rightarrow> bool" where
  "isDTS fp = HasSuffix fp ''.d.ts''"

definition stripExt :: "string \<Rightarrow> string" where
  "stripExt p = (let ext = path_Ext p in if ext = [] then p else take (length p - length ext) p)"

record lookups =
  lk_exact :: "string set"
  lk_stemMap :: "string \<rightharpoonup> string"
  lk_dirIndex :: "string \<rightharpoonup> string"
  lk_goDir :: "string \<rightharpoonup> string"

definition empty_lookups :: lookups where
  "empty_lookups = \<lparr>lk_exact = {}, lk_stemMap = Map.empty, lk_dirIndex = Map.empty, lk_goDir = Map.empty\<rparr>"

definition reg_primary :: "string \<Rightarrow> (string \<rightharpoonup> string) \<Rightarrow> (string \<rightharpoonup> string)" where
  "reg_primary fp stemMap =
     (let primaryStem = stripExt fp
      in if primaryStem \<noteq> fp then
           (case stemMap primaryStem of
              None \<Rightarrow> stemMap(primaryStem \<mapsto> fp)
            | Some existing \<Rightarrow> if isDTS existing then stemMap(primaryStem \<mapsto> fp) else stemMap)
         else stemMap)"

definition reg_secondary :: "string \<Rightarrow> (string \<rightharpoonup> string) \<Rightarrow> (string \<rightharpoonup> string)" where
  "reg_secondary fp stemMap =
     (if isDTS fp then
        (let primaryStem = stripExt fp; secondaryStem = stripExt primaryStem
         in if secondaryStem \<noteq> primaryStem
            then (if stemMap secondaryStem = None then stemMap(secondaryStem \<mapsto> fp) else stemMap)
            else stemMap)
      else stemMap)"

definition reg_goDir :: "string \<Rightarrow> (string \<rightharpoonup> string) \<Rightarrow> (string \<rightharpoonup> string)" where
  "reg_goDir fp goDir =
     (if HasSuffix fp ''.go'' then
        (if goDir (path_Dir fp) = None then goDir(path_Dir fp \<mapsto> fp) else goDir)
      else goDir)"

text \<open>\<^verbatim>\<open>registerPath\<close>. The index-file block returns early when the extension does not fit, before
  the second, identical Go-directory block.\<close>

definition registerPath :: "string \<Rightarrow> lookups \<Rightarrow> lookups" where
  "registerPath fp lk =
     (let lk = lk\<lparr>lk_exact := insert fp (lk_exact lk)\<rparr>;
          lk = lk\<lparr>lk_stemMap := reg_primary fp (lk_stemMap lk)\<rparr>;
          lk = lk\<lparr>lk_stemMap := reg_secondary fp (lk_stemMap lk)\<rparr>;
          lk = lk\<lparr>lk_goDir := reg_goDir fp (lk_goDir lk)\<rparr>;
          baseStem = stripExt (path_Base fp);
          baseStem = (if isDTS fp then stripExt baseStem else baseStem)
      in case indexFileNames baseStem of
           Some allowedExts \<Rightarrow>
             if path_Ext fp \<notin> allowedExts then lk
             else let dir = path_Dir fp;
                      lk = (case lk_dirIndex lk dir of
                              None \<Rightarrow> lk\<lparr>lk_dirIndex := (lk_dirIndex lk)(dir \<mapsto> fp)\<rparr>
                            | Some existing \<Rightarrow>
                                if isDTS existing then lk\<lparr>lk_dirIndex := (lk_dirIndex lk)(dir \<mapsto> fp)\<rparr> else lk)
                  in lk\<lparr>lk_goDir := reg_goDir fp (lk_goDir lk)\<rparr>
         | None \<Rightarrow> lk\<lparr>lk_goDir := reg_goDir fp (lk_goDir lk)\<rparr>)"

definition convertImportToPath :: "string \<Rightarrow> string \<Rightarrow> string \<Rightarrow> string" where
  "convertImportToPath importName language goModulePath =
     (if language = ''go'' then
        (if goModulePath = [] then []
         else if \<not> HasPrefix importName (goModulePath @ ''/'') then []
         else TrimPrefix importName (goModulePath @ ''/''))
      else if language = ''java'' \<or> language = ''kotlin'' then ReplaceAll importName ''.'' ''/''
      else if language = ''csharp'' then ReplaceAll importName ''.'' ''/''
      else if language = ''php'' then ReplaceAll (TrimPrefix importName [CHR 0x5C]) [CHR 0x5C] ''/''
      else if language = ''python'' then
        (if HasPrefix importName ''.'' then [] else ReplaceAll importName ''.'' ''/'')
      else [])"

text \<open>The deduplicating collection of the paths, in the order of the two loops.\<close>

fun collect_paths :: "string list \<Rightarrow> string set \<Rightarrow> string list" where
  "collect_paths [] seen = []"
| "collect_paths (fp # fps) seen =
     (if fp \<in> seen then collect_paths fps seen else fp # collect_paths fps (insert fp seen))"

definition build_lookups :: "ParsedFileResult list \<Rightarrow> string list \<Rightarrow> lookups" where
  "build_lookups files allPaths =
     (let paths = sort (collect_paths (allPaths @ map pf_FilePath files) {})
      in fold registerPath paths empty_lookups)"

definition resolve_internal :: "lookups \<Rightarrow> Import \<Rightarrow> Import" where
  "resolve_internal lk imp =
     (if imp_ImportType imp \<noteq> ''INTERNAL'' \<or> imp_TargetFilePath imp = [] then imp
      else if imp_TargetFilePath imp \<in> lk_exact lk then imp
      else case lk_stemMap lk (imp_TargetFilePath imp) of
             Some resolved \<Rightarrow> imp\<lparr>imp_TargetFilePath := resolved\<rparr>
           | None \<Rightarrow>
               (case lk_dirIndex lk (imp_TargetFilePath imp) of
                  Some resolved \<Rightarrow> imp\<lparr>imp_TargetFilePath := resolved\<rparr>
                | None \<Rightarrow> imp))"

definition as_internal :: "Import \<Rightarrow> string \<Rightarrow> Import" where
  "as_internal imp target = imp\<lparr>imp_TargetFilePath := target, imp_ImportType := ''INTERNAL''\<rparr>"

definition reclassify :: "lookups \<Rightarrow> string \<Rightarrow> string \<Rightarrow> Import \<Rightarrow> Import" where
  "reclassify lk lang goModulePath imp =
     (if imp_ImportType imp \<noteq> ''EXTERNAL'' \<or> imp_TargetFilePath imp \<noteq> [] then imp
      else let candidate = convertImportToPath (imp_ImportName imp) lang goModulePath
           in if candidate = [] then imp
              else if candidate \<in> lk_exact lk then as_internal imp candidate
              else case lk_stemMap lk candidate of
                     Some resolved \<Rightarrow> as_internal imp resolved
                   | None \<Rightarrow>
                       (case lk_dirIndex lk candidate of
                          Some resolved \<Rightarrow> as_internal imp resolved
                        | None \<Rightarrow>
                            if lang = ''go'' then
                              (case lk_goDir lk candidate of
                                 Some resolved \<Rightarrow> as_internal imp resolved
                               | None \<Rightarrow> imp)
                            else imp))"

definition ResolveImportTargets ::
  "ParsedFileResult list \<Rightarrow> string list \<Rightarrow> string \<Rightarrow> ParsedFileResult list" where
  "ResolveImportTargets files allPaths goModulePath =
     (let lk = build_lookups files allPaths;
          files = map (\<lambda>f. f\<lparr>pf_Imports := map (resolve_internal lk) (pf_Imports f)\<rparr>) files
      in map (\<lambda>f. f\<lparr>pf_Imports := map (reclassify lk (pf_Language f) goModulePath) (pf_Imports f)\<rparr>) files)"

fun module_line :: "string list \<Rightarrow> string" where
  "module_line [] = []"
| "module_line (line # lines) =
     (let fields = Fields line
      in if length fields < 2 \<or> fields ! 0 \<noteq> ''module'' then module_line lines
         else if HasPrefix (fields ! 1) ''//'' then module_line lines
         else TrimByte (fields ! 1) (CHR 0x22))"

definition ExtractGoModulePath :: "string \<Rightarrow> string" where
  "ExtractGoModulePath content = module_line (Split content (CHR 0x0A))"

section \<open>The tables\<close>

lemma set_collect_paths: "set (collect_paths fps seen) = set fps - seen"
  by (induction fps arbitrary: seen) auto

lemma distinct_collect_paths: "distinct (collect_paths fps seen)"
  by (induction fps arbitrary: seen) (auto simp: set_collect_paths)

lemma reg_goDir_idem: "reg_goDir fp (reg_goDir fp m) = reg_goDir fp m"
  by (simp add: reg_goDir_def)

text \<open>The fields of \<open>registerPath\<close>: the second Go-directory block never changes anything.\<close>

lemma registerPath_fields:
  "lk_exact (registerPath fp lk) = insert fp (lk_exact lk)"
  "lk_stemMap (registerPath fp lk) = reg_secondary fp (reg_primary fp (lk_stemMap lk))"
  "lk_goDir (registerPath fp lk) = reg_goDir fp (lk_goDir lk)"
  by (simp_all add: registerPath_def Let_def reg_goDir_idem split: option.splits)

lemma registerPath_dirIndex:
  "lk_dirIndex (registerPath fp lk) d = lk_dirIndex lk d \<or> lk_dirIndex (registerPath fp lk) d = Some fp"
  by (simp add: registerPath_def Let_def split: option.splits)

text \<open>Every table leads to a registered path.\<close>

definition lookups_sound :: "lookups \<Rightarrow> bool" where
  "lookups_sound lk = (ran (lk_stemMap lk) \<subseteq> lk_exact lk \<and> ran (lk_dirIndex lk) \<subseteq> lk_exact lk \<and>
     ran (lk_goDir lk) \<subseteq> lk_exact lk)"

lemma ran_step:
  assumes "ran m \<subseteq> S" "\<And>x. m' x = m x \<or> m' x = Some fp"
  shows "ran m' \<subseteq> insert fp S"
proof
  fix y assume "y \<in> ran m'"
  then obtain x where "m' x = Some y" by (auto simp: ran_def)
  with assms(2) [of x] assms(1) show "y \<in> insert fp S" by (metis insertCI ranI subsetD option.inject)
qed

lemma reg_step:
  "reg_primary fp m x = m x \<or> reg_primary fp m x = Some fp"
  "reg_secondary fp m x = m x \<or> reg_secondary fp m x = Some fp"
  "reg_goDir fp m x = m x \<or> reg_goDir fp m x = Some fp"
  by (auto simp: reg_primary_def reg_secondary_def reg_goDir_def Let_def split: option.splits)

lemma registerPath_sound: "lookups_sound lk \<Longrightarrow> lookups_sound (registerPath fp lk)"
  unfolding lookups_sound_def registerPath_fields
proof (intro conjI)
  assume a: "ran (lk_stemMap lk) \<subseteq> lk_exact lk \<and> ran (lk_dirIndex lk) \<subseteq> lk_exact lk \<and>
    ran (lk_goDir lk) \<subseteq> lk_exact lk"
  show "ran (reg_secondary fp (reg_primary fp (lk_stemMap lk))) \<subseteq> insert fp (lk_exact lk)"
    by (rule ran_step [where m = "lk_stemMap lk"]) (use a reg_step(1,2) in metis)+
  show "ran (lk_dirIndex (registerPath fp lk)) \<subseteq> insert fp (lk_exact lk)"
    by (rule ran_step [where m = "lk_dirIndex lk"]) (use a registerPath_dirIndex in auto)
  show "ran (reg_goDir fp (lk_goDir lk)) \<subseteq> insert fp (lk_exact lk)"
    by (rule ran_step [where m = "lk_goDir lk"]) (use a reg_step(3) in auto)
qed

lemma fold_register_sound: "lookups_sound lk \<Longrightarrow> lookups_sound (fold registerPath ps lk)"
  by (induction ps arbitrary: lk) (auto intro: registerPath_sound)

lemma fold_register_exact: "lk_exact (fold registerPath ps lk) = set ps \<union> lk_exact lk"
  by (induction ps arbitrary: lk) (auto simp: registerPath_fields)

lemma build_lookups_sound: "lookups_sound (build_lookups files allPaths)"
  unfolding build_lookups_def Let_def
  by (rule fold_register_sound) (simp add: lookups_sound_def empty_lookups_def)

lemma build_lookups_exact:
  "lk_exact (build_lookups files allPaths) = set allPaths \<union> pf_FilePath ` set files"
  by (simp add: build_lookups_def Let_def fold_register_exact empty_lookups_def set_collect_paths)

lemma build_lookups_cong:
  assumes "set allPaths \<union> pf_FilePath ` set files = set allPaths' \<union> pf_FilePath ` set files'"
  shows "build_lookups files allPaths = build_lookups files' allPaths'"
proof -
  have "sort (collect_paths (allPaths @ map pf_FilePath files) {}) =
        sort (collect_paths (allPaths' @ map pf_FilePath files') {})"
    by (rule sorted_distinct_set_unique)
       (use assms in \<open>simp_all add: distinct_collect_paths set_collect_paths\<close>)
  then show ?thesis by (simp add: build_lookups_def)
qed

section \<open>Implementation files win over declaration files\<close>

definition stem_impls :: "string \<Rightarrow> string list \<Rightarrow> string list" where
  "stem_impls s ps = filter (\<lambda>p. \<not> isDTS p \<and> stripExt p = s \<and> p \<noteq> s) ps"

lemma reg_primary_at:
  "reg_primary fp m s =
     (if stripExt fp = s \<and> fp \<noteq> s \<and> (\<forall>d. m s = Some d \<longrightarrow> isDTS d) then Some fp else m s)"
  by (auto simp: reg_primary_def Let_def split: option.splits)

lemma reg_secondary_at:
  "reg_secondary fp m s = m s \<or> isDTS fp \<and> m s = None \<and> reg_secondary fp m s = Some fp"
  by (auto simp: reg_secondary_def Let_def)

definition stem_inv :: "string \<Rightarrow> string list \<Rightarrow> (string \<rightharpoonup> string) \<Rightarrow> bool" where
  "stem_inv s ps m = (case stem_impls s ps of
     q # _ \<Rightarrow> m s = Some q | [] \<Rightarrow> (\<forall>d. m s = Some d \<longrightarrow> isDTS d))"

lemma stem_impls_snoc:
  "stem_impls s (ps @ [fp]) =
     stem_impls s ps @ (if \<not> isDTS fp \<and> stripExt fp = s \<and> fp \<noteq> s then [fp] else [])"
  by (simp add: stem_impls_def)

lemma stem_inv_step:
  assumes "stem_inv s ps m"
  shows "stem_inv s (ps @ [fp]) (reg_secondary fp (reg_primary fp m))"
proof (cases "stem_impls s ps")
  case Nil
  then have d: "\<forall>d. m s = Some d \<longrightarrow> isDTS d" using assms by (simp add: stem_inv_def)
  then show ?thesis
    using Nil reg_secondary_at [of fp "reg_primary fp m" s] reg_primary_at [of fp m s]
    by (auto simp: stem_inv_def stem_impls_snoc split: if_splits)
next
  case (Cons q qs)
  then have "q \<in> set (stem_impls s ps)" by simp
  then have "\<not> isDTS q" "m s = Some q" using assms Cons by (auto simp: stem_impls_def stem_inv_def)
  then show ?thesis
    using Cons reg_secondary_at [of fp "reg_primary fp m" s] reg_primary_at [of fp m s]
    by (auto simp: stem_inv_def stem_impls_snoc)
qed

lemma stem_inv_fold: "stem_inv s ps (lk_stemMap (fold registerPath ps empty_lookups))"
proof (induction ps rule: rev_induct)
  case (snoc fp ps)
  show ?case using stem_inv_step [OF snoc, of fp] by (simp add: registerPath_fields)
qed (simp add: stem_inv_def stem_impls_def empty_lookups_def)

text \<open>An extensionless internal import resolves to an implementation file whenever the project
  has one with that stem, never to its declaration file, and among several (\<^verbatim>\<open>foo.js\<close>,
  \<^verbatim>\<open>foo.ts\<close>) to the first in path order.\<close>

theorem resolve_internal_prefers_implementation:
  assumes "imp_ImportType imp = ''INTERNAL''" "t = imp_TargetFilePath imp" "t \<noteq> []"
    and "t \<notin> set allPaths \<union> pf_FilePath ` set files"
    and "p \<in> set allPaths \<union> pf_FilePath ` set files" "\<not> isDTS p" "stripExt p = t"
  shows "\<exists>q. resolve_internal (build_lookups files allPaths) imp = imp\<lparr>imp_TargetFilePath := q\<rparr> \<and>
     q \<in> set allPaths \<union> pf_FilePath ` set files \<and> \<not> isDTS q \<and> stripExt q = t \<and> q \<le> p"
proof -
  let ?ps = "sort (collect_paths (allPaths @ map pf_FilePath files) {})"
  have set_ps: "set ?ps = set allPaths \<union> pf_FilePath ` set files"
    by (simp add: set_collect_paths)
  have pin: "p \<in> set (stem_impls t ?ps)"
    using assms set_ps by (auto simp: stem_impls_def)
  then obtain q qs where q: "stem_impls t ?ps = q # qs" by (cases "stem_impls t ?ps") auto
  have sorted: "sorted (stem_impls t ?ps)"
    unfolding stem_impls_def by (rule sorted_wrt_filter) simp
  have "q \<in> set (stem_impls t ?ps)" using q by simp
  then have qin: "q \<in> set ?ps" "\<not> isDTS q" "stripExt q = t" by (auto simp: stem_impls_def)
  have "lk_stemMap (build_lookups files allPaths) t = Some q"
    using stem_inv_fold [of t ?ps] q by (simp add: build_lookups_def stem_inv_def)
  moreover have "t \<notin> lk_exact (build_lookups files allPaths)"
    using assms(4) by (simp add: build_lookups_exact)
  moreover have "q \<le> p" using pin sorted q by auto
  ultimately show ?thesis
    using assms(1,2,3) qin set_ps by (auto simp: resolve_internal_def)
qed

theorem resolve_internal_prefers_implementation_witness:
  "let imp = \<lparr>imp_SourceSymbolID = [], imp_SourceFilePath = ''a.ts'', imp_TargetFilePath = ''src/foo'',
        imp_ImportName = ''./foo'', imp_ImportType = ''INTERNAL'', imp_PackageName = [], imp_PackageVersion = []\<rparr>;
      paths = [''src/foo.d.ts'', ''src/foo.ts'', ''a.ts'']
   in \<exists>q. resolve_internal (build_lookups [] paths) imp = imp\<lparr>imp_TargetFilePath := q\<rparr> \<and>
     q \<in> set paths \<and> \<not> isDTS q \<and> stripExt q = ''src/foo'' \<and> q \<le> ''src/foo.ts''"
  unfolding Let_def
  using resolve_internal_prefers_implementation
    [of "\<lparr>imp_SourceSymbolID = [], imp_SourceFilePath = ''a.ts'', imp_TargetFilePath = ''src/foo'',
        imp_ImportName = ''./foo'', imp_ImportType = ''INTERNAL'', imp_PackageName = [], imp_PackageVersion = []\<rparr>"
        "''src/foo''" "[''src/foo.d.ts'', ''src/foo.ts'', ''a.ts'']" "[]" "''src/foo.ts''"]
  by (simp add: isDTS_def HasSuffix_def stripExt_def path_Ext_def)

section \<open>What a path resolves to\<close>

text \<open>How a file can be what a path without extension names: by its stem (a declaration file also by its stem without \<^verbatim>\<open>.d\<close>), as
  the index file of the directory, or as a Go file of the directory.\<close>

definition stem_of :: "string \<Rightarrow> string \<Rightarrow> bool" where
  "stem_of c q \<longleftrightarrow> stripExt q = c \<and> q \<noteq> c \<or> isDTS q \<and> stripExt (stripExt q) = c \<and> stripExt q \<noteq> c"

definition index_of :: "string \<Rightarrow> string \<Rightarrow> bool" where
  "index_of c q \<longleftrightarrow> path_Dir q = c \<and>
     (case indexFileNames (if isDTS q then stripExt (stripExt (path_Base q)) else stripExt (path_Base q)) of
        None \<Rightarrow> False | Some exts \<Rightarrow> path_Ext q \<in> exts)"

definition go_of :: "string \<Rightarrow> string \<Rightarrow> bool" where
  "go_of c q \<longleftrightarrow> path_Dir q = c \<and> HasSuffix q ''.go''"

text \<open>A path that is a file resolves to it. Else it resolves to a file with that stem, the first in path order that is no declaration
  file if there is one; else to an index file of the directory; else, in Go, to a Go file of the directory. It
  is not resolved only when there is none of them.\<close>

definition impl_of :: "string \<Rightarrow> string \<Rightarrow> bool" where
  "impl_of c q \<longleftrightarrow> \<not> isDTS q \<and> stripExt q = c \<and> q \<noteq> c"

definition resolves :: "string set \<Rightarrow> bool \<Rightarrow> string \<Rightarrow> string option \<Rightarrow> bool" where
  "resolves known go c r \<longleftrightarrow>
     (if c \<in> known then r = Some c
      else if \<exists>p \<in> known. stem_of c p then
        \<exists>q \<in> known. r = Some q \<and> stem_of c q \<and> ((\<exists>p \<in> known. impl_of c p) \<longrightarrow> impl_of c q \<and> (\<forall>p \<in> known. impl_of c p \<longrightarrow> q \<le> p))
      else if \<exists>p \<in> known. index_of c p then \<exists>q \<in> known. r = Some q \<and> index_of c q
      else if go \<and> (\<exists>p \<in> known. go_of c p) then \<exists>q \<in> known. r = Some q \<and> go_of c q
      else r = None)"

text \<open>A table that leads from each path to a file in the given relation to it, if a registered file is.\<close>

definition table_of :: "(string \<Rightarrow> string \<Rightarrow> bool) \<Rightarrow> string set \<Rightarrow> (string \<rightharpoonup> string) \<Rightarrow> bool" where
  "table_of R S m \<longleftrightarrow> (\<forall>c. case m c of None \<Rightarrow> \<forall>p \<in> S. \<not> R c p | Some q \<Rightarrow> q \<in> S \<and> R c q)"

lemma table_of_step:
  assumes "table_of R S m" "\<And>c. m' c = m c \<and> (m c = None \<longrightarrow> \<not> R c fp) \<or> m' c = Some fp \<and> R c fp"
  shows "table_of R (insert fp S) m'"
  unfolding table_of_def
proof
  fix c
  have "case m c of None \<Rightarrow> \<forall>p \<in> S. \<not> R c p | Some q \<Rightarrow> q \<in> S \<and> R c q" using assms(1) by (simp add: table_of_def)
  then show "case m' c of None \<Rightarrow> \<forall>p \<in> insert fp S. \<not> R c p | Some q \<Rightarrow> q \<in> insert fp S \<and> R c q"
    using assms(2) [of c] by (auto split: option.splits)
qed

lemma reg_stem_at:
  "(let m' = reg_secondary fp (reg_primary fp m) in m' c = m c \<and> (m c = None \<longrightarrow> \<not> stem_of c fp) \<or> m' c = Some fp \<and> stem_of c fp)"
  by (auto simp: reg_primary_def reg_secondary_def stem_of_def Let_def split: option.split)

lemma reg_go_at: "reg_goDir fp m c = m c \<and> (m c = None \<longrightarrow> \<not> go_of c fp) \<or> reg_goDir fp m c = Some fp \<and> go_of c fp"
  by (auto simp: reg_goDir_def go_of_def)

lemma reg_index_at:
  "lk_dirIndex (registerPath fp lk) c = lk_dirIndex lk c \<and> (lk_dirIndex lk c = None \<longrightarrow> \<not> index_of c fp) \<or>
   lk_dirIndex (registerPath fp lk) c = Some fp \<and> index_of c fp"
  by (auto simp: registerPath_def index_of_def Let_def split: option.split)

definition lookups_of :: "lookups \<Rightarrow> bool" where
  "lookups_of lk \<longleftrightarrow> table_of stem_of (lk_exact lk) (lk_stemMap lk) \<and> table_of index_of (lk_exact lk) (lk_dirIndex lk) \<and>
     table_of go_of (lk_exact lk) (lk_goDir lk)"

lemma registerPath_of: "lookups_of lk \<Longrightarrow> lookups_of (registerPath fp lk)"
  unfolding lookups_of_def registerPath_fields
  by (intro conjI table_of_step [of _ _ "lk_stemMap lk"] table_of_step [of _ _ "lk_dirIndex lk"] table_of_step [of _ _ "lk_goDir lk"])
     (use reg_stem_at [unfolded Let_def] reg_index_at reg_go_at in auto)

lemma build_lookups_of: "lookups_of (build_lookups files allPaths)"
proof -
  have "lookups_of (fold registerPath ps lk)" if "lookups_of lk" for ps lk
    using that by (induction ps arbitrary: lk) (auto intro: registerPath_of)
  then show ?thesis
    unfolding build_lookups_def Let_def by (simp add: lookups_of_def table_of_def empty_lookups_def)
qed

lemma build_lookups_impl:
  assumes "p \<in> lk_exact (build_lookups files allPaths)" "impl_of c p"
  shows "\<exists>q. lk_stemMap (build_lookups files allPaths) c = Some q \<and> impl_of c q \<and>
    (\<forall>p \<in> lk_exact (build_lookups files allPaths). impl_of c p \<longrightarrow> q \<le> p)"
proof -
  let ?ps = "sort (collect_paths (allPaths @ map pf_FilePath files) {})"
  have impls: "x \<in> set (stem_impls c ?ps) \<longleftrightarrow> x \<in> lk_exact (build_lookups files allPaths) \<and> impl_of c x" for x
    by (auto simp: stem_impls_def impl_of_def build_lookups_exact set_collect_paths)
  then obtain q qs where q: "stem_impls c ?ps = q # qs" using assms by (cases "stem_impls c ?ps") auto
  have "sorted (q # qs)" unfolding q [symmetric] stem_impls_def by (rule sorted_wrt_filter) simp
  then have "\<forall>x \<in> set (stem_impls c ?ps). q \<le> x" using q by simp
  moreover have "q \<in> set (stem_impls c ?ps)" using q by simp
  moreover have "lk_stemMap (build_lookups files allPaths) c = Some q"
    using stem_inv_fold [of c ?ps] q by (simp add: build_lookups_def stem_inv_def)
  ultimately show ?thesis using impls by blast
qed

section \<open>Properties of the resolution\<close>

lemma set_target_internal:
  "imp_ImportType imp = ''INTERNAL'' \<Longrightarrow> imp\<lparr>imp_TargetFilePath := q\<rparr> = as_internal imp q"
  by (cases imp) (simp add: as_internal_def)

lemma lookups_soundD:
  assumes "lookups_sound lk"
  shows "lk_stemMap lk x = Some y \<Longrightarrow> y \<in> lk_exact lk" "lk_dirIndex lk x = Some y \<Longrightarrow> y \<in> lk_exact lk"
    "lk_goDir lk x = Some y \<Longrightarrow> y \<in> lk_exact lk"
  using assms ranI [of "lk_stemMap lk"] ranI [of "lk_dirIndex lk"] ranI [of "lk_goDir lk"]
  by (auto simp: lookups_sound_def)

lemma resolve_internal_cases:
  assumes "lookups_sound lk"
  shows "resolve_internal lk imp = imp \<or>
    (\<exists>q \<in> lk_exact lk. resolve_internal lk imp = as_internal imp q \<and>
       imp_ImportType imp = ''INTERNAL'' \<and> imp_TargetFilePath imp \<notin> lk_exact lk)"
  using lookups_soundD [OF assms]
  by (auto simp: resolve_internal_def set_target_internal split: option.splits)

text \<open>The table lookups of the second pass as one optional hit.\<close>

definition table_hit :: "lookups \<Rightarrow> string \<Rightarrow> string \<Rightarrow> string option" where
  "table_hit lk lang c =
     (if c \<in> lk_exact lk then Some c
      else if lk_stemMap lk c \<noteq> None then lk_stemMap lk c
      else if lk_dirIndex lk c \<noteq> None then lk_dirIndex lk c
      else if lang = ''go'' then lk_goDir lk c else None)"

lemma reclassify_hit:
  "reclassify lk lang g imp =
     (let c = convertImportToPath (imp_ImportName imp) lang g
      in if imp_ImportType imp \<noteq> ''EXTERNAL'' \<or> imp_TargetFilePath imp \<noteq> [] \<or> c = [] then imp
         else case table_hit lk lang c of Some q \<Rightarrow> as_internal imp q | None \<Rightarrow> imp)"
  by (simp add: reclassify_def table_hit_def Let_def split: option.split)

lemma table_hit_exact: "lookups_sound lk \<Longrightarrow> table_hit lk lang c = Some q \<Longrightarrow> q \<in> lk_exact lk"
  using lookups_soundD [of lk c q] by (simp add: table_hit_def split: if_splits)

lemma reclassify_cases:
  assumes "lookups_sound lk"
  shows "reclassify lk lang g imp = imp \<or>
    (\<exists>q \<in> lk_exact lk. reclassify lk lang g imp = as_internal imp q \<and>
       imp_ImportType imp = ''EXTERNAL'' \<and> imp_TargetFilePath imp = [])"
  using table_hit_exact [OF assms, of lang "convertImportToPath (imp_ImportName imp) lang g"]
  by (cases "table_hit lk lang (convertImportToPath (imp_ImportName imp) lang g)")
     (auto simp: reclassify_hit Let_def)

text \<open>The lookups find what the path resolves to; the first pass has no Go directories.\<close>

lemma table_hit_resolves:
  assumes "lk = build_lookups files allPaths"
  shows "resolves (lk_exact lk) (lang = ''go'') c (table_hit lk lang c)"
proof -
  have t: "case lk_stemMap lk c of None \<Rightarrow> \<forall>p \<in> lk_exact lk. \<not> stem_of c p | Some q \<Rightarrow> q \<in> lk_exact lk \<and> stem_of c q"
    "case lk_dirIndex lk c of None \<Rightarrow> \<forall>p \<in> lk_exact lk. \<not> index_of c p | Some q \<Rightarrow> q \<in> lk_exact lk \<and> index_of c q"
    "case lk_goDir lk c of None \<Rightarrow> \<forall>p \<in> lk_exact lk. \<not> go_of c p | Some q \<Rightarrow> q \<in> lk_exact lk \<and> go_of c q"
    using build_lookups_of [of files allPaths] unfolding assms lookups_of_def table_of_def by blast+
  show ?thesis
  proof (cases "lk_stemMap lk c")
    case (Some q)
    have "(\<exists>p \<in> lk_exact lk. impl_of c p) \<longrightarrow> impl_of c q \<and> (\<forall>p \<in> lk_exact lk. impl_of c p \<longrightarrow> q \<le> p)"
      using build_lookups_impl [of _ files allPaths c] Some assms by fastforce
    then show ?thesis using t(1) Some by (auto simp: resolves_def table_hit_def)
  next
    case None
    then show ?thesis using t by (auto simp: resolves_def table_hit_def split: option.splits)
  qed
qed

lemma resolve_internal_hit:
  "resolve_internal lk imp =
     (if imp_ImportType imp \<noteq> ''INTERNAL'' \<or> imp_TargetFilePath imp = [] then imp
      else case table_hit lk [] (imp_TargetFilePath imp) of Some q \<Rightarrow> imp\<lparr>imp_TargetFilePath := q\<rparr> | None \<Rightarrow> imp)"
  by (simp add: resolve_internal_def table_hit_def split: option.split)

lemma as_internal_sel [simp]:
  "imp_TargetFilePath (as_internal imp q) = q" "imp_ImportType (as_internal imp q) = ''INTERNAL''"
  "imp_ImportName (as_internal imp q) = imp_ImportName imp"
  by (simp_all add: as_internal_def)

lemma resolve_both:
  "reclassify lk lang g (resolve_internal lk imp) =
     (if imp_ImportType imp = ''INTERNAL'' then resolve_internal lk imp else reclassify lk lang g imp)"
  by (auto simp: resolve_internal_def reclassify_def split: option.splits)

lemma resolve_exact_fixed:
  "q \<in> lk_exact lk \<Longrightarrow> reclassify lk lang g (resolve_internal lk (as_internal imp q)) = as_internal imp q"
  by (simp add: resolve_internal_def reclassify_def)

lemma resolve_step_idem:
  assumes "lookups_sound lk"
  shows "reclassify lk lang g (resolve_internal lk (reclassify lk lang g (resolve_internal lk imp))) =
         reclassify lk lang g (resolve_internal lk imp)"
  using resolve_internal_cases [OF assms, of imp] reclassify_cases [OF assms, of lang g imp]
    resolve_exact_fixed [of _ lk lang g imp] resolve_both [of lk lang g imp]
  by metis

definition resolve_file :: "lookups \<Rightarrow> string \<Rightarrow> ParsedFileResult \<Rightarrow> ParsedFileResult" where
  "resolve_file lk g f =
     f\<lparr>pf_Imports := map (\<lambda>i. reclassify lk (pf_Language f) g (resolve_internal lk i)) (pf_Imports f)\<rparr>"

lemma ResolveImportTargets_map:
  "ResolveImportTargets files allPaths g = map (resolve_file (build_lookups files allPaths) g) files"
  by (simp add: ResolveImportTargets_def Let_def resolve_file_def o_def)

lemma resolve_file_sel [simp]:
  "pf_FilePath (resolve_file lk g f) = pf_FilePath f" "pf_Language (resolve_file lk g f) = pf_Language f"
  by (simp_all add: resolve_file_def)

text \<open>What the resolution does to an import of a file in the given language: an internal one with a target gets the file the target
  resolves to; an external one without target becomes internal with the file its name, converted to a path, resolves to; and it
  stays as it is when there is no such file, and in every other case.\<close>

definition resolved_import :: "string set \<Rightarrow> string \<Rightarrow> string \<Rightarrow> Import \<Rightarrow> Import \<Rightarrow> bool" where
  "resolved_import known lang goModulePath imp imp' \<longleftrightarrow>
     (let c = convertImportToPath (imp_ImportName imp) lang goModulePath
      in if imp_ImportType imp = ''INTERNAL'' \<and> imp_TargetFilePath imp \<noteq> [] then
           \<exists>r. resolves known False (imp_TargetFilePath imp) r \<and>
             imp' = (case r of None \<Rightarrow> imp | Some q \<Rightarrow> imp\<lparr>imp_TargetFilePath := q\<rparr>)
         else if imp_ImportType imp = ''EXTERNAL'' \<and> imp_TargetFilePath imp = [] \<and> c \<noteq> [] then
           \<exists>r. resolves known (lang = ''go'') c r \<and>
             imp' = (case r of None \<Rightarrow> imp | Some q \<Rightarrow> imp\<lparr>imp_TargetFilePath := q, imp_ImportType := ''INTERNAL''\<rparr>)
         else imp' = imp)"

lemma resolve_step_import:
  assumes "lk = build_lookups files allPaths"
  shows "resolved_import (lk_exact lk) lang g imp (reclassify lk lang g (resolve_internal lk imp))"
proof (cases "imp_ImportType imp = ''INTERNAL''")
  case True
  then show ?thesis
    using table_hit_resolves [OF assms, of "[]" "imp_TargetFilePath imp"]
    unfolding resolve_both unfolding resolved_import_def resolve_internal_hit Let_def by auto
next
  case False
  then show ?thesis
    using table_hit_resolves [OF assms, of lang "convertImportToPath (imp_ImportName imp) lang g"]
    unfolding resolve_both unfolding resolved_import_def reclassify_hit as_internal_def Let_def by auto
qed

text \<open>C32: the resolution changes nothing but imports, and each import exactly as \<open>resolved_import\<close> says: the target is the file of the
  project that the given target, or the path converted from the name of an external import, resolves to: that file itself, else one with that
  stem (the first implementation in path order before any declaration file), else the index file of that directory, else, for external
  imports in Go, a Go file of that directory. An import no file matches is unchanged.\<close>

theorem ResolveImportTargets_sound:
  "list_all2 (\<lambda>f f'. f' = f\<lparr>pf_Imports := pf_Imports f'\<rparr> \<and>
      list_all2 (resolved_import (set allPaths \<union> pf_FilePath ` set files) (pf_Language f) goModulePath) (pf_Imports f) (pf_Imports f'))
     files (ResolveImportTargets files allPaths goModulePath)"
  unfolding ResolveImportTargets_map build_lookups_exact [symmetric]
  by (auto simp: list_all2_conv_all_nth resolve_file_def intro!: resolve_step_import)

text \<open>The resolution is idempotent: resolved imports are stable and unresolved ones stay so.\<close>

theorem ResolveImportTargets_idempotent:
  "ResolveImportTargets (ResolveImportTargets files allPaths goModulePath) allPaths goModulePath =
   ResolveImportTargets files allPaths goModulePath"
proof -
  let ?lk = "build_lookups files allPaths"
  have "build_lookups (ResolveImportTargets files allPaths goModulePath) allPaths = ?lk"
    by (rule build_lookups_cong) (auto simp: ResolveImportTargets_map image_image)
  moreover have "resolve_file ?lk goModulePath (resolve_file ?lk goModulePath f) = resolve_file ?lk goModulePath f" for f
    using resolve_step_idem [OF build_lookups_sound]
    by (simp add: resolve_file_def o_def)
  ultimately show ?thesis
    by (simp add: ResolveImportTargets_map)
qed

text \<open>The resolution does not depend on the order in which the known paths are listed, nor on
  duplicates: stem and index collisions are resolved by the path order alone.\<close>

theorem ResolveImportTargets_order_independent:
  assumes "set allPaths = set allPaths'"
  shows "ResolveImportTargets files allPaths goModulePath = ResolveImportTargets files allPaths' goModulePath"
  using build_lookups_cong [of allPaths files allPaths' files] assms
  by (simp add: ResolveImportTargets_map)

theorem ResolveImportTargets_order_independent_witness:
  "ResolveImportTargets [zero_ParsedFileResult\<lparr>pf_FilePath := ''m.ts''\<rparr>] [''a.js'', ''a.ts''] [] =
   ResolveImportTargets [zero_ParsedFileResult\<lparr>pf_FilePath := ''m.ts''\<rparr>] [''a.ts'', ''a.js'', ''a.ts''] []"
  by (rule ResolveImportTargets_order_independent) auto

end
