(* ===== verification/Chunk_Split.thy ===== *)
theory Chunk_Split
  imports Parser_Text Go_Bytes
begin

text \<open>
  The byte-bounded splitting of file contents and of oversized parser chunks
  (\<^verbatim>\<open>splitRawChunks\<close>, \<^verbatim>\<open>splitOversizedChunks\<close>, \<^verbatim>\<open>splitChunkContent\<close> of
  \<^verbatim>\<open>src/backend-worker/internal/workflow/fullindex/handler.go\<close>; the incremental workflow holds
  the same code).

  The Go loop makes no progress when the cut position is 0, which happens on bytes that are not
  UTF-8. So the loop is a \<^theory_text>\<open>partial_function (option)\<close>: \<^const>\<open>None\<close> is "does not return". That it
  returns is proved for every text without a run of continuation bytes as long as a chunk (\<open>rune_every\<close>), valid UTF-8 in particular.
\<close>

section \<open>Definitions\<close>

definition DefaultMaxInputChars :: nat where
  "DefaultMaxInputChars = 7500"

text \<open>The inner loop: move \<open>end\<close> back while it is inside a multi-byte rune.\<close>

fun back_up :: "string \<Rightarrow> nat \<Rightarrow> nat" where
  "back_up remaining 0 = 0"
| "back_up remaining (Suc e) =
     (if Suc e < length remaining \<and> byte (remaining ! e) \<ge> 128
      then (if RuneStart (remaining ! Suc e) then Suc e else back_up remaining e)
      else Suc e)"

definition split_end :: "nat \<Rightarrow> string \<Rightarrow> nat" where
  "split_end maxBytes remaining =
     (if length remaining > maxBytes
      then (case LastIndexByte (take maxBytes remaining) LF of
              Some cutAt \<Rightarrow> if cutAt > 0 then cutAt + 1 else back_up remaining maxBytes
            | None \<Rightarrow> back_up remaining maxBytes)
      else length remaining)"

text \<open>The end line of a piece, as \<^verbatim>\<open>splitRawChunks\<close> and as \<^verbatim>\<open>splitChunkContent\<close> write it.\<close>

definition raw_endLine :: "int \<Rightarrow> string \<Rightarrow> string \<Rightarrow> int" where
  "raw_endLine currentLine chunk remaining =
     (let newlines = i32 (int (CountByte chunk LF));
          endLine = i32 (currentLine + newlines)
      in if newlines > 0 \<or> length remaining = 0 then
           (if length remaining = 0 \<and> length chunk > 0 \<and> last chunk \<noteq> LF then endLine
            else if newlines > 0 then i32 (i32 (currentLine + newlines) - 1) else endLine)
         else endLine)"

definition sub_endLine :: "int \<Rightarrow> string \<Rightarrow> string \<Rightarrow> int" where
  "sub_endLine currentLine chunk remaining =
     (let newlines = i32 (int (CountByte chunk LF));
          endLine = i32 (currentLine + newlines)
      in if length remaining = 0 \<and> length chunk > 0 \<and> last chunk \<noteq> LF then endLine
         else if newlines > 0 then i32 (i32 (currentLine + newlines) - 1) else endLine)"

text \<open>The outer loop, which both functions share but for the end line and the composite literal
  they append.\<close>

partial_function (option) split_loop ::
  "(int \<Rightarrow> string \<Rightarrow> string \<Rightarrow> int) \<Rightarrow> (string \<Rightarrow> int \<Rightarrow> int \<Rightarrow> Chunk) \<Rightarrow> nat \<Rightarrow>
   string \<Rightarrow> int \<Rightarrow> Chunk list \<Rightarrow> Chunk list option" where
  "split_loop eline mk maxBytes remaining currentLine chunks =
     (if remaining = [] then Some chunks
      else let e = split_end maxBytes remaining;
               chunk = take e remaining;
               rest = drop e remaining;
               endLine = eline currentLine chunk rest
           in split_loop eline mk maxBytes rest (i32 (endLine + 1))
                (chunks @ [mk chunk currentLine endLine]))"

definition raw_chunk :: "string \<Rightarrow> int \<Rightarrow> int \<Rightarrow> Chunk" where
  "raw_chunk chunk startLine endLine =
     zero_Chunk\<lparr>ch_ChunkType := ''raw'', ch_ChunkHash := StableHashBytes chunk,
       ch_Content := chunk, ch_StartLine := startLine, ch_EndLine := endLine\<rparr>"

definition splitRawChunks :: "string \<Rightarrow> int \<Rightarrow> Chunk list option" where
  "splitRawChunks content totalLines =
     (let maxBytes = DefaultMaxInputChars
      in if length content \<le> maxBytes
         then Some [raw_chunk content 1 totalLines]
         else split_loop raw_endLine raw_chunk maxBytes content 1 [])"

definition sub_chunk :: "Chunk \<Rightarrow> string \<Rightarrow> int \<Rightarrow> int \<Rightarrow> Chunk" where
  "sub_chunk orig chunk startLine endLine =
     zero_Chunk\<lparr>ch_ChunkType := ch_ChunkType orig, ch_ChunkHash := StableHashBytes chunk,
       ch_Content := chunk, ch_StartLine := startLine, ch_EndLine := endLine,
       ch_SymbolID := ch_SymbolID orig, ch_OwnerQualifiedName := ch_OwnerQualifiedName orig,
       ch_OwnerKind := ch_OwnerKind orig, ch_IsExportedContext := ch_IsExportedContext orig,
       ch_SemanticRole := ch_SemanticRole orig\<rparr>"

definition splitChunkContent :: "Chunk \<Rightarrow> nat \<Rightarrow> Chunk list option" where
  "splitChunkContent orig maxBytes =
     split_loop sub_endLine (sub_chunk orig) maxBytes (ch_Content orig) (ch_StartLine orig) []"

text \<open>\<^verbatim>\<open>splitOversizedChunks\<close>: the inner loop over the chunks of one file gives the new list and
  whether anything was split; the file is written back only then.\<close>

fun oversized_loop :: "nat \<Rightarrow> Chunk list \<Rightarrow> Chunk list \<Rightarrow> bool \<Rightarrow> (Chunk list \<times> bool) option" where
  "oversized_loop maxBytes [] out changed = Some (out, changed)"
| "oversized_loop maxBytes (c # cs) out changed =
     (if length (ch_Content c) \<le> maxBytes then oversized_loop maxBytes cs (out @ [c]) changed
      else case splitChunkContent c maxBytes of
             None \<Rightarrow> None
           | Some subs \<Rightarrow> oversized_loop maxBytes cs (out @ subs) True)"

fun splitOversizedChunks :: "ParsedFileResult list \<Rightarrow> nat \<Rightarrow> ParsedFileResult list option" where
  "splitOversizedChunks [] maxBytes = Some []"
| "splitOversizedChunks (r # rs) maxBytes =
     (case oversized_loop maxBytes (pf_Chunks r) [] False of
        None \<Rightarrow> None
      | Some (out, changed) \<Rightarrow>
          map_option (\<lambda>rs'. (if changed then r\<lparr>pf_Chunks := out\<rparr> else r) # rs')
            (splitOversizedChunks rs maxBytes))"

section \<open>The cut position\<close>

lemma back_up_le: "back_up r m \<le> m"
  by (induction m) auto

lemma back_up_boundary:
  assumes "utf8_Valid r" "m < length r"
  shows "back_up r m = 0 \<or> RuneStart (r ! back_up r m)"
  using assms(2)
proof (induction m)
  case (Suc m)
  then show ?case
    using utf8_after_ascii [OF assms(1), of m] by auto
qed simp

lemma back_up_near:
  assumes "k \<le> m" "m < length r" "RuneStart (r ! (m - k))"
  shows "m - k \<le> back_up r m"
  using assms
proof (induction m arbitrary: k)
  case (Suc m)
  then show ?case
    by (cases k) (auto split: if_splits)
qed simp

lemma split_end_le: "split_end m r \<le> length r"
  using LastIndexByte_Some [of "take m r" LF] back_up_le [of r m]
  by (fastforce simp: split_end_def split: option.splits)

lemma split_end_bound: "split_end m r \<le> m \<or> length r \<le> m"
  using LastIndexByte_Some [of "take m r" LF] back_up_le [of r m]
  by (fastforce simp: split_end_def split: option.splits)

lemma split_end_le_max: "split_end m r \<le> m"
  using split_end_bound [of m r] split_end_le [of m r] by linarith

text \<open>The loop is stuck only where \<open>m\<close> bytes in a row continue a rune. Valid UTF-8 never has more than three of them, and
  neither has a text cut out of it at arbitrary bytes.\<close>

definition rune_every :: "nat \<Rightarrow> string \<Rightarrow> bool" where
  "rune_every m r \<longleftrightarrow> (\<forall>i. i + m \<le> length r \<longrightarrow> (\<exists>k < m. RuneStart (r ! (i + k))))"

lemma rune_every_drop: "rune_every m r \<Longrightarrow> rune_every m (drop n r)"
  unfolding rune_every_def
proof (intro allI impI)
  fix i assume r: "\<forall>i. i + m \<le> length r \<longrightarrow> (\<exists>k < m. RuneStart (r ! (i + k)))" and i: "i + m \<le> length (drop n r)"
  show "\<exists>k < m. RuneStart (drop n r ! (i + k))"
  proof (cases "n \<le> length r")
    case True
    then have "\<exists>k < m. RuneStart (r ! (n + i + k))" using r i by simp
    then show ?thesis using True by (simp add: add.assoc)
  next
    case False
    then show ?thesis using i r [rule_format, of 0] by simp
  qed
qed

lemma rune_every_take: "rune_every m r \<Longrightarrow> rune_every m (take n r)"
  by (fastforce simp: rune_every_def)

lemma rune_every_mono: "rune_every m r \<Longrightarrow> m \<le> n \<Longrightarrow> rune_every n r"
  unfolding rune_every_def by (meson add_le_mono1 dual_order.trans nat_add_left_cancel_le order_less_le_trans)

lemma rune_every_append:
  assumes "rune_every m r" "rune_every m t" "t \<noteq> [] \<Longrightarrow> RuneStart (t ! 0)"
  shows "rune_every m (r @ t)"
  unfolding rune_every_def
proof (intro allI impI)
  fix i assume i: "i + m \<le> length (r @ t)"
  consider "i + m \<le> length r" | "length r \<le> i" | (across) "i < length r" "length r < i + m" by linarith
  then show "\<exists>k < m. RuneStart ((r @ t) ! (i + k))"
  proof cases
    case 1
    then obtain k where "k < m" "RuneStart (r ! (i + k))" using assms(1) unfolding rune_every_def by blast
    then show ?thesis using 1 by (intro exI [of _ k]) (simp add: nth_append)
  next
    case 2
    then have "i - length r + m \<le> length t" using i by simp
    then obtain k where "k < m" "RuneStart (t ! (i - length r + k))" using assms(2) unfolding rune_every_def by blast
    then show ?thesis using 2 by (intro exI [of _ k]) (simp add: nth_append)
  next
    case across
    then have "t \<noteq> []" using i by auto
    then show ?thesis using across assms(3) by (intro exI [of _ "length r - i"]) (auto simp: nth_append)
  qed
qed

lemma utf8_rune_every:
  assumes "utf8_Valid r" "4 \<le> m"
  shows "rune_every m r"
proof -
  have "rune_every 4 r"
    unfolding rune_every_def
  proof (intro allI impI)
    fix i assume i: "i + 4 \<le> length r"
    obtain k where "k \<le> 3" "RuneStart (r ! (i + 3 - k))" using utf8_boundary_near [OF assms(1), of "i + 3"] i by auto
    then show "\<exists>k < 4. RuneStart (r ! (i + k))" by (intro exI [of _ "3 - k"]) (simp add: algebra_simps)
  qed
  then show ?thesis using assms(2) by (rule rune_every_mono)
qed

lemma split_end_pos:
  assumes "rune_every m r" "r \<noteq> []" "0 < m"
  shows "0 < split_end m r"
proof (cases "length r > m")
  case True
  obtain k where k: "k < m" "RuneStart (r ! (1 + k))" using assms(1) [unfolded rune_every_def, rule_format, of 1] True by auto
  then have "RuneStart (r ! (m - (m - Suc k)))" by simp
  then have "m - (m - Suc k) \<le> back_up r m" using True by (intro back_up_near) auto
  then show ?thesis using True k(1) by (auto simp: split_end_def split: option.split)
qed (use assms(2) in \<open>simp add: split_end_def\<close>)

text \<open>On valid UTF-8, with room for one rune, the cut is not at 0 and on a rune boundary.\<close>

lemma split_end_valid:
  assumes v: "utf8_Valid r" and ne: "r \<noteq> []" and m: "4 \<le> m"
  shows "0 < split_end m r" "utf8_Valid (take (split_end m r) r)" "utf8_Valid (drop (split_end m r) r)"
proof -
  let ?e = "split_end m r"
  have "0 < ?e \<and> (?e = length r \<or> ?e < length r \<and> RuneStart (r ! ?e))"
  proof (cases "length r > m")
    case True
    obtain k where k: "k \<le> 3" "k \<le> m" "RuneStart (r ! (m - k))"
      using utf8_boundary_near [OF v True] by blast
    have pos: "0 < back_up r m" using back_up_near [OF k(2) True k(3)] k m by linarith
    have bu: "back_up r m < length r" "RuneStart (r ! back_up r m)"
      using back_up_boundary [OF v True] back_up_le [of r m] pos True by auto
    show ?thesis
    proof (cases "LastIndexByte (take m r) LF")
      case (Some i)
      then have cut: "i < m" "r ! i = LF" using LastIndexByte_Some [OF Some] True by auto
      then have "Suc i < length r" using True by linarith
      moreover have "RuneStart (r ! Suc i)"
        using utf8_after_ascii [OF v \<open>Suc i < length r\<close>] cut(2) by (simp add: byte_def)
      ultimately show ?thesis using True Some pos bu by (auto simp: split_end_def)
    qed (use True pos bu in \<open>simp add: split_end_def\<close>)
  qed (use ne in \<open>simp add: split_end_def\<close>)
  then show "0 < ?e" "utf8_Valid (take ?e r)" "utf8_Valid (drop ?e r)"
    using utf8_cut [OF v, of ?e] v by auto
qed

section \<open>The pieces\<close>

text \<open>The pieces the loop cuts, as a total function: where the loop would be stuck the rest is
  one piece.\<close>

function pieces :: "nat \<Rightarrow> string \<Rightarrow> string list" where
  "pieces m r =
     (if r = [] then [] else if split_end m r = 0 then [r]
      else take (split_end m r) r # pieces m (drop (split_end m r) r))"
  by pat_completeness auto
termination
  by (relation "measure (length \<circ> snd)") auto

declare pieces.simps [simp del]

fun label :: "(int \<Rightarrow> string \<Rightarrow> string \<Rightarrow> int) \<Rightarrow> (string \<Rightarrow> int \<Rightarrow> int \<Rightarrow> Chunk) \<Rightarrow> int \<Rightarrow> string list \<Rightarrow> Chunk list" where
  "label eline mk cur [] = []"
| "label eline mk cur (p # ps) =
     (let e = eline cur p (concat ps) in mk p cur e # label eline mk (i32 (e + 1)) ps)"

lemma concat_pieces [simp]: "concat (pieces m r) = r"
  by (induction m r rule: pieces.induct) (subst pieces.simps, auto)

lemma split_loop_pieces:
  assumes "rune_every m r" "0 < m"
  shows "split_loop el mk m r cur acc = Some (acc @ label el mk cur (pieces m r))"
  using assms
proof (induction m r arbitrary: cur acc rule: pieces.induct)
  case (1 m r)
  show ?case
  proof (cases "r = []")
    case False
    note v = split_end_pos [OF "1.prems"(1) False "1.prems"(2)]
    show ?thesis
      using False v "1.IH" [OF False _ rune_every_drop [OF "1.prems"(1)] "1.prems"(2)]
      by (subst split_loop.simps, subst pieces.simps) (simp add: Let_def)
  qed (simp add: split_loop.simps pieces.simps)
qed

lemma pieces_bound:
  assumes "rune_every m r" "0 < m"
  shows "list_all (\<lambda>p. p \<noteq> [] \<and> length p \<le> m) (pieces m r)"
  using assms
proof (induction m r rule: pieces.induct)
  case (1 m r)
  show ?case
  proof (cases "r = []")
    case False
    note v = split_end_pos [OF "1.prems"(1) False "1.prems"(2)]
    show ?thesis
      using False v "1.IH" [OF False _ rune_every_drop [OF "1.prems"(1)] "1.prems"(2)] split_end_le_max [of m r]
      by (subst pieces.simps) simp
  qed (simp add: pieces.simps)
qed

lemma pieces_ok:
  assumes "utf8_Valid r" "4 \<le> m"
  shows "list_all (\<lambda>p. p \<noteq> [] \<and> length p \<le> m \<and> utf8_Valid p) (pieces m r)"
  using assms
proof (induction m r rule: pieces.induct)
  case (1 m r)
  show ?case
  proof (cases "r = []")
    case False
    note v = split_end_valid [OF "1.prems"(1) False "1.prems"(2)]
    show ?thesis
      using False v "1.IH" [OF False _ v(3) "1.prems"(2)] split_end_le_max [of m r]
      by (subst pieces.simps) simp
  qed (simp add: pieces.simps)
qed

text \<open>Each piece starts on the line after the end line of the one before.\<close>

fun line_chain :: "int \<Rightarrow> Chunk list \<Rightarrow> bool" where
  "line_chain cur [] = True"
| "line_chain cur (c # cs) = (ch_StartLine c = cur \<and> line_chain (i32 (ch_EndLine c + 1)) cs)"

lemma line_chain_label:
  "(\<And>p a b. ch_StartLine (mk p a b) = a \<and> ch_EndLine (mk p a b) = b) \<Longrightarrow> line_chain cur (label el mk cur ps)"
  by (induction ps arbitrary: cur) (auto simp: Let_def)

lemma map_Content_label:
  "(\<And>p a b. ch_Content (mk p a b) = p) \<Longrightarrow> map ch_Content (label el mk cur ps) = ps"
  by (induction ps arbitrary: cur) (auto simp: Let_def)

lemma set_label: "c \<in> set (label el mk cur ps) \<Longrightarrow> \<exists>p a b. c = mk p a b \<and> p \<in> set ps"
  by (induction ps arbitrary: cur) (auto simp: Let_def, metis)

lemma chunk_contents [simp]:
  "ch_Content (raw_chunk p a b) = p" "ch_Content (sub_chunk orig p a b) = p"
  "ch_StartLine (raw_chunk p a b) = a" "ch_StartLine (sub_chunk orig p a b) = a"
  "ch_EndLine (raw_chunk p a b) = b" "ch_EndLine (sub_chunk orig p a b) = b"
  "ch_ChunkHash (raw_chunk p a b) = StableHashBytes p"
  "ch_ChunkHash (sub_chunk orig p a b) = StableHashBytes p"
  by (simp_all add: raw_chunk_def sub_chunk_def)

lemma map_Content_raw [simp]: "map ch_Content (label el raw_chunk cur ps) = ps"
  by (rule map_Content_label) simp

lemma map_Content_sub [simp]: "map ch_Content (label el (sub_chunk orig) cur ps) = ps"
  by (rule map_Content_label) simp

text \<open>What every chunk list made of a text satisfies.\<close>

definition chunks_of_text :: "nat \<Rightarrow> string \<Rightarrow> Chunk list \<Rightarrow> bool" where
  "chunks_of_text m content cs =
     (concat (map ch_Content cs) = content \<and>
      list_all (\<lambda>c. length (ch_Content c) \<le> m \<and> utf8_Valid (ch_Content c) \<and>
                    ch_ChunkHash c = StableHashBytes (ch_Content c)) cs)"

lemma chunks_of_text_label:
  assumes "utf8_Valid r" "4 \<le> m"
    and "\<And>p a b. ch_Content (mk p a b) = p" "\<And>p a b. ch_ChunkHash (mk p a b) = StableHashBytes p"
  shows "chunks_of_text m r (label el mk cur (pieces m r))"
  using pieces_ok [OF assms(1,2)]
  by (auto simp: chunks_of_text_def map_Content_label assms list_all_iff dest!: set_label)

section \<open>Losslessness and size\<close>

lemma utf8_Valid_ascii: "list_all (\<lambda>c. byte c < 128) s \<Longrightarrow> utf8_Valid s"
proof (induction s)
  case (Cons c s)
  then show ?case by (simp add: utf8_Valid_step rune_len_ascii)
qed simp

lemma splitRawChunks_ok:
  assumes "utf8_Valid content"
  shows "\<exists>cs. splitRawChunks content totalLines = Some cs \<and> chunks_of_text DefaultMaxInputChars content cs \<and>
           (if length content \<le> DefaultMaxInputChars then cs = [raw_chunk content 1 totalLines]
            else list_all (\<lambda>c. ch_Content c \<noteq> [] \<and> ch_ChunkType c = ''raw'') cs \<and> line_chain 1 cs)"
proof (cases "length content \<le> DefaultMaxInputChars")
  case True
  then show ?thesis
    using assms by (simp add: splitRawChunks_def chunks_of_text_def)
next
  case False
  have m: "4 \<le> DefaultMaxInputChars" by (simp add: DefaultMaxInputChars_def)
  let ?ps = "pieces DefaultMaxInputChars content"
  have "list_all (\<lambda>c. ch_Content c \<noteq> [] \<and> ch_ChunkType c = ''raw'') (label raw_endLine raw_chunk 1 ?ps)"
    using pieces_ok [OF assms m] by (auto simp: list_all_iff raw_chunk_def dest!: set_label)
  moreover have "line_chain 1 (label raw_endLine raw_chunk 1 ?ps)" by (rule line_chain_label) simp
  ultimately show ?thesis
    using False split_loop_pieces [OF utf8_rune_every [OF assms m]] chunks_of_text_label [OF assms m, of raw_chunk] m
    by (simp add: splitRawChunks_def Let_def)
qed

text \<open>C20: for every valid UTF-8 file content the splitting of raw files returns, the chunk contents
  put together are the content, every chunk is valid UTF-8 of at most 7500 bytes and carries the
  hash of its own content. A content within the limit, the empty one included, is one chunk over all its lines; a longer one is cut into
  raw chunks that are not empty, the first starting on line 1 and each on the line after the end of the one before.\<close>

theorem splitRawChunks_lossless:
  assumes "utf8_Valid content"
  shows "\<exists>cs. splitRawChunks content totalLines = Some cs \<and> chunks_of_text DefaultMaxInputChars content cs \<and>
           (if length content \<le> DefaultMaxInputChars then cs = [raw_chunk content 1 totalLines]
            else list_all (\<lambda>c. ch_Content c \<noteq> [] \<and> ch_ChunkType c = ''raw'') cs \<and> line_chain 1 cs)"
  using assms by (rule splitRawChunks_ok)

theorem splitRawChunks_lossless_witness:
  "\<exists>cs. splitRawChunks (replicate 8000 (CHR ''a'')) 1 = Some cs \<and>
     chunks_of_text DefaultMaxInputChars (replicate 8000 (CHR ''a'')) cs \<and> list_all (\<lambda>c. ch_Content c \<noteq> []) cs"
proof -
  have "utf8_Valid (replicate 8000 (CHR ''a''))" by (rule utf8_Valid_ascii) (simp add: list_all_iff byte_def)
  from splitRawChunks_lossless [OF this, of 1] show ?thesis by (auto simp: DefaultMaxInputChars_def list_all_iff)
qed

text \<open>What becomes of a chunk: within the limit it stays as it is, else it is cut into pieces that are not empty, each with the hash
  of its own text and the type, symbol, owner and role of the chunk, on consecutive lines from its start line.\<close>

definition split_of :: "nat \<Rightarrow> Chunk \<Rightarrow> Chunk list \<Rightarrow> bool" where
  "split_of m c cs \<longleftrightarrow>
     (if length (ch_Content c) \<le> m then cs = [c]
      else concat (map ch_Content cs) = ch_Content c \<and> line_chain (ch_StartLine c) cs \<and>
        list_all (\<lambda>d. ch_Content d \<noteq> [] \<and> length (ch_Content d) \<le> m \<and>
          d = c\<lparr>ch_ChunkID := [], ch_ChunkHash := StableHashBytes (ch_Content d), ch_Content := ch_Content d, ch_ContextBefore := [],
                ch_ContextAfter := [], ch_StartLine := ch_StartLine d, ch_EndLine := ch_EndLine d, ch_EstimatedTokens := 0\<rparr>) cs)"

lemma splitChunkContent_split:
  assumes "rune_every m (ch_Content c)" "0 < m" "m < length (ch_Content c)"
  shows "\<exists>cs. splitChunkContent c m = Some cs \<and> split_of m c cs"
proof -
  let ?cs = "label sub_endLine (sub_chunk c) (ch_StartLine c) (pieces m (ch_Content c))"
  have "line_chain (ch_StartLine c) ?cs" by (rule line_chain_label) simp
  then have "split_of m c ?cs"
    using pieces_bound [OF assms(1,2)] assms(3)
    by (auto simp: split_of_def list_all_iff sub_chunk_def zero_Chunk_def dest!: set_label)
  then show ?thesis using split_loop_pieces [OF assms(1,2)] by (simp add: splitChunkContent_def)
qed

lemma oversized_loop_ok:
  assumes "list_all (\<lambda>c. rune_every m (ch_Content c)) cs" "0 < m"
  shows "\<exists>css ch'. oversized_loop m cs out ch = Some (out @ concat css, ch') \<and> list_all2 (split_of m) cs css \<and>
     (\<not> ch' \<longrightarrow> \<not> ch \<and> concat css = cs)"
  using assms(1)
proof (induction cs arbitrary: out ch)
  case (Cons c cs)
  show ?case
  proof (cases "length (ch_Content c) \<le> m")
    case True
    obtain css ch' where "oversized_loop m cs (out @ [c]) ch = Some ((out @ [c]) @ concat css, ch')" "list_all2 (split_of m) cs css"
      "\<not> ch' \<longrightarrow> \<not> ch \<and> concat css = cs" using Cons.IH [of "out @ [c]" ch] Cons.prems by auto
    moreover have "split_of m c [c]" using True by (simp add: split_of_def)
    ultimately show ?thesis using True by (intro exI [of _ "[c] # css"] exI [of _ ch']) simp
  next
    case False
    obtain subs where subs: "splitChunkContent c m = Some subs" "split_of m c subs"
      using splitChunkContent_split [of m c] Cons.prems assms(2) False by auto
    obtain css ch' where "oversized_loop m cs (out @ subs) True = Some ((out @ subs) @ concat css, ch')" "list_all2 (split_of m) cs css"
      "\<not> ch' \<longrightarrow> \<not> True \<and> concat css = cs" using Cons.IH [of "out @ subs" True] Cons.prems by auto
    then show ?thesis using False subs by (intro exI [of _ "subs # css"] exI [of _ ch']) simp
  qed
qed simp

lemma splitOversizedChunks_ok:
  assumes "list_all (\<lambda>r. list_all (\<lambda>c. rune_every m (ch_Content c)) (pf_Chunks r)) results" "0 < m"
  shows "\<exists>results'. splitOversizedChunks results m = Some results' \<and>
     list_all2 (\<lambda>r r'. \<exists>css. list_all2 (split_of m) (pf_Chunks r) css \<and> r' = r\<lparr>pf_Chunks := concat css\<rparr>) results results'"
  using assms(1)
proof (induction results)
  case (Cons r rs)
  obtain css ch where o: "oversized_loop m (pf_Chunks r) [] False = Some (concat css, ch)" "list_all2 (split_of m) (pf_Chunks r) css"
    "\<not> ch \<longrightarrow> concat css = pf_Chunks r"
    using oversized_loop_ok [of m "pf_Chunks r" "[]" False] Cons.prems assms(2) by auto
  then have "(if ch then r\<lparr>pf_Chunks := concat css\<rparr> else r) = r\<lparr>pf_Chunks := concat css\<rparr>" using o(3) by (cases ch) auto
  moreover obtain rs' where "splitOversizedChunks rs m = Some rs'"
    "list_all2 (\<lambda>r r'. \<exists>css. list_all2 (split_of m) (pf_Chunks r) css \<and> r' = r\<lparr>pf_Chunks := concat css\<rparr>) rs rs'"
    using Cons.IH Cons.prems by auto
  ultimately show ?case using o(1,2) by auto
qed simp

text \<open>What every chunk and file text is after the splitting.\<close>

lemma split_of_size: "split_of m c cs \<Longrightarrow> list_all (\<lambda>d. length (ch_Content d) \<le> m) cs \<and> concat (map ch_Content cs) = ch_Content c"
  by (auto simp: split_of_def list_all_iff split: if_splits)

lemma split_of_sizes:
  "list_all2 (split_of m) cs css \<Longrightarrow>
     list_all (\<lambda>d. length (ch_Content d) \<le> m) (concat css) \<and> concat (map ch_Content (concat css)) = concat (map ch_Content cs)"
  by (induction rule: list_all2_induct) (auto dest!: split_of_size)

text \<open>C35: when the limit is positive and no chunk has so many continuation bytes of a rune in a row (valid UTF-8 has at most three),
  \<open>splitOversizedChunks\<close> returns. Every chunk within the limit stays as it is, where it is; every longer chunk is replaced by pieces
  within the limit that are not empty, whose text put together is its text, on consecutive lines from its start line, each with the hash
  of its own text and the type, symbol, owner and role of the chunk. Nothing else of a file changes.\<close>

theorem splitOversizedChunks_bounded:
  assumes "list_all (\<lambda>r. list_all (\<lambda>c. rune_every m (ch_Content c)) (pf_Chunks r)) results" "0 < m"
  shows "\<exists>results'. splitOversizedChunks results m = Some results' \<and>
     list_all2 (\<lambda>r r'. \<exists>css. list_all2 (split_of m) (pf_Chunks r) css \<and> r' = r\<lparr>pf_Chunks := concat css\<rparr>) results results'"
  using assms by (rule splitOversizedChunks_ok)

theorem splitOversizedChunks_bounded_witness:
  "\<exists>results'. splitOversizedChunks
       [zero_ParsedFileResult\<lparr>pf_Chunks := [zero_Chunk\<lparr>ch_Content := ''abcdefgh''\<rparr>, zero_Chunk\<lparr>ch_Content := ''ab''\<rparr>]\<rparr>] 4 = Some results' \<and>
     list_all2 (\<lambda>r r'. \<exists>css. list_all2 (split_of 4) (pf_Chunks r) css \<and> r' = r\<lparr>pf_Chunks := concat css\<rparr>)
       [zero_ParsedFileResult\<lparr>pf_Chunks := [zero_Chunk\<lparr>ch_Content := ''abcdefgh''\<rparr>, zero_Chunk\<lparr>ch_Content := ''ab''\<rparr>]\<rparr>] results'"
  by (rule splitOversizedChunks_bounded) (simp_all add: utf8_rune_every utf8_Valid_ascii byte_def)

section \<open>Line numbers\<close>

lemma endLine_eq: "raw_endLine cur chunk rest = sub_endLine cur chunk rest"
  by (auto simp: raw_endLine_def sub_endLine_def Let_def)

text \<open>The chunks carry exact line ranges: each starts on the line after the newlines before it and
  ends on its own last line.\<close>

fun lines_exact :: "int \<Rightarrow> Chunk list \<Rightarrow> bool" where
  "lines_exact cur [] = True"
| "lines_exact cur (c # cs) =
     (ch_StartLine c = cur \<and> ch_EndLine c = cur + int (length (text_lines (ch_Content c))) - 1 \<and>
      lines_exact (cur + int (CountByte (ch_Content c) LF)) cs)"

text \<open>Every line, with its newline, is shorter than the limit.\<close>

definition short_lines :: "nat \<Rightarrow> string \<Rightarrow> bool" where
  "short_lines m s = list_all (\<lambda>l. length l + 1 < m) (Split s LF)"

lemma short_lines_drop: "short_lines m (a @ [LF] @ b) \<Longrightarrow> short_lines m b"
proof (induction a)
  case (Cons c a)
  obtain p ps where "Split (a @ [LF] @ b) LF = p # ps"
    using Split_not_Nil by (metis list.exhaust)
  with Cons show ?case by (auto simp: short_lines_def split: if_splits)
qed (simp add: short_lines_def)

lemma Split_hd_no_sep: "LF \<notin> set a \<Longrightarrow> length a \<le> length (hd (Split (a @ b) LF))"
proof (induction a)
  case (Cons c a)
  obtain p ps where "Split (a @ b) LF = p # ps"
    using Split_not_Nil by (metis list.exhaust)
  with Cons show ?case by auto
qed simp

lemma short_lines_prefix:
  assumes "short_lines m (a @ b)" "LF \<notin> set a"
  shows "length a + 1 < m"
proof -
  have "hd (Split (a @ b) LF) \<in> set (Split (a @ b) LF)" by simp
  then have "length (hd (Split (a @ b) LF)) + 1 < m"
    using assms(1) by (auto simp: short_lines_def list_all_iff)
  then show ?thesis using Split_hd_no_sep [OF assms(2), of b] by linarith
qed

lemma split_end_short:
  assumes "short_lines m r" "m < length r"
  shows "0 < split_end m r \<and> split_end m r < length r \<and> r ! (split_end m r - 1) = LF"
proof -
  have r: "r = take m r @ drop m r" by simp
  have "LF \<in> set (take m r)"
    using short_lines_prefix [of m "take m r" "drop m r"] assms by auto
  then obtain i where i: "LastIndexByte (take m r) LF = Some i"
    using LastIndexByte_None by (metis option.exhaust)
  note li = LastIndexByte_Some [OF i]
  have "i \<noteq> 0"
  proof
    assume "i = 0"
    then obtain t where t: "take m r = LF # t" "LF \<notin> set t" "length t = m - 1"
      using li assms(2) by (cases "take m r") (auto dest: arg_cong [where f = length])
    then have "short_lines m (t @ drop m r)"
      using short_lines_drop [of m "[]" "t @ drop m r"] assms(1) r by (metis append_Cons append_Nil)
    then show False using short_lines_prefix t(2,3) by fastforce
  qed
  then show ?thesis using i li assms(2) by (auto simp: split_end_def)
qed

lemma sub_endLine_exact:
  assumes "p \<noteq> []" "rest \<noteq> [] \<Longrightarrow> last p = LF" "0 \<le> cur" "cur + int (CountByte p LF) < 2 ^ 31"
  shows "sub_endLine cur p rest = cur + int (length (text_lines p)) - 1"
proof -
  have "last p = LF \<Longrightarrow> 0 < CountByte p LF"
    using assms(1) CountByte_0_iff [of p LF] by (metis last_in_set neq0_conv)
  moreover have "i32 (int (CountByte p LF)) = int (CountByte p LF)"
    using assms(3,4) by (intro i32_small) auto
  moreover have "i32 (cur + int (CountByte p LF)) = cur + int (CountByte p LF)"
    using assms(3,4) by (intro i32_small) auto
  moreover have "0 < CountByte p LF \<Longrightarrow> i32 (cur + int (CountByte p LF) - 1) = cur + int (CountByte p LF) - 1"
    using assms(3,4) by (intro i32_small) auto
  ultimately show ?thesis
    using assms(1,2) by (auto simp: sub_endLine_def Let_def length_text_lines)
qed

lemma lines_exact_label:
  assumes "utf8_Valid r" "4 \<le> m" "short_lines m r" "0 \<le> cur" "cur + int (CountByte r LF) + 1 < 2 ^ 31"
  shows "lines_exact cur (label sub_endLine (sub_chunk orig) cur (pieces m r))"
  using assms
proof (induction m r arbitrary: cur rule: pieces.induct)
  case (1 m r)
  show ?case
  proof (cases "r = []")
    case False
    let ?e = "split_end m r"
    let ?p = "take ?e r" and ?q = "drop ?e r"
    note v = split_end_valid [OF "1.prems"(1) False "1.prems"(2)]
    have cnt: "CountByte r LF = CountByte ?p LF + CountByte ?q LF"
      by (metis CountByte_append append_take_drop_id)
    have pne: "?p \<noteq> []" using v(1) False by simp
    have lst: "last ?p = LF" "short_lines m ?q" if "?q \<noteq> []"
    proof -
      have "m < length r" using that by (auto simp: split_end_def split: if_splits)
      note ss = split_end_short [OF "1.prems"(3) this]
      show l: "last ?p = LF" using ss pne by (simp add: last_conv_nth min_def)
      have "r = butlast ?p @ [LF] @ ?q"
        using l append_butlast_last_id [OF pne] append_take_drop_id [of ?e r] by (metis append.assoc)
      then show "short_lines m ?q" using short_lines_drop "1.prems"(3) by metis
    qed
    have el: "sub_endLine cur ?p ?q = cur + int (length (text_lines ?p)) - 1"
      using sub_endLine_exact [OF pne _ "1.prems"(4), of ?q] lst(1) "1.prems"(5) cnt by simp
    show ?thesis
    proof (cases "?q = []")
      case True
      then show ?thesis using False v(1) el by (simp add: pieces.simps [of m r] pieces.simps [of m "[]"] Let_def)
    next
      case q: False
      have tl: "int (length (text_lines ?p)) = int (CountByte ?p LF)"
        using lst(1) [OF q] pne by (simp add: length_text_lines)
      have nx: "i32 (cur + int (CountByte ?p LF)) = cur + int (CountByte ?p LF)"
        using "1.prems"(4,5) cnt by (intro i32_small) auto
      have "lines_exact (cur + int (CountByte ?p LF))
              (label sub_endLine (sub_chunk orig) (cur + int (CountByte ?p LF)) (pieces m ?q))"
        using "1.IH" [OF False _ v(3) "1.prems"(2) lst(2) [OF q]] v(1) "1.prems"(4,5) cnt by simp
      then show ?thesis using False v(1) el tl nx by (subst pieces.simps) (simp add: Let_def)
    qed
  qed (simp add: pieces.simps)
qed

text \<open>Where every line with its newline is shorter than the limit, the sub-chunks carry exact
  line ranges: each starts where the previous one ended and covers just the lines of its
  content.\<close>

theorem splitChunkContent_lines_exact:
  assumes "utf8_Valid (ch_Content orig)" "4 \<le> m" "short_lines m (ch_Content orig)"
    and "0 \<le> ch_StartLine orig" "ch_StartLine orig + int (CountByte (ch_Content orig) LF) + 1 < 2 ^ 31"
  shows "\<exists>cs. splitChunkContent orig m = Some cs \<and> concat (map ch_Content cs) = ch_Content orig \<and>
           lines_exact (ch_StartLine orig) cs"
  using split_loop_pieces [OF utf8_rune_every [OF assms(1,2)]] lines_exact_label [OF assms] assms(2)
  by (auto simp: splitChunkContent_def)

theorem splitChunkContent_lines_exact_witness:
  "let orig = zero_Chunk\<lparr>ch_Content := [CHR ''a'', LF, CHR ''b'', LF, CHR ''c'', LF, CHR ''d''], ch_StartLine := 7\<rparr>
   in \<exists>cs. splitChunkContent orig 4 = Some cs \<and> concat (map ch_Content cs) = ch_Content orig \<and>
        lines_exact 7 cs"
  using splitChunkContent_lines_exact
    [of "zero_Chunk\<lparr>ch_Content := [CHR ''a'', LF, CHR ''b'', LF, CHR ''c'', LF, CHR ''d''], ch_StartLine := 7\<rparr>" 4]
  by (simp add: utf8_Valid_ascii byte_def short_lines_def)

lemma label_drift:
  assumes "LF \<notin> set (concat ps)" "0 \<le> cur" "cur + int (length ps) < 2 ^ 31"
  shows "map ch_StartLine (label sub_endLine (sub_chunk orig) cur ps) =
           map (\<lambda>k. cur + int k) [0..<length ps]"
  using assms
proof (induction ps arbitrary: cur)
  case (Cons p ps)
  have c0: "CountByte p LF = 0" using Cons.prems(1) by (simp add: CountByte_0_iff)
  have el: "sub_endLine cur p (concat ps) = cur"
    using Cons.prems(2,3) by (auto simp: sub_endLine_def c0 i32_small)
  have i: "i32 (cur + 1) = cur + 1" using Cons.prems(2,3) by (intro i32_small) auto
  have "map (\<lambda>k. cur + 1 + int k) [0..<length ps] = map (\<lambda>k. cur + int k) (map Suc [0..<length ps])"
    by simp
  then show ?case
    using Cons.IH [of "cur + 1"] Cons.prems el i
    by (simp add: map_Suc_upt upt_conv_Cons del: upt_Suc)
qed simp

text \<open>A text without a newline is one line, but every sub-chunk the splitting makes of it gets a
  line number of its own: the start lines count up from the original start line.\<close>

theorem splitChunkContent_long_line_drift:
  assumes "utf8_Valid (ch_Content orig)" "4 \<le> m" "LF \<notin> set (ch_Content orig)"
    and "0 \<le> ch_StartLine orig" "ch_StartLine orig + int (length (ch_Content orig)) < 2 ^ 31"
  shows "\<exists>cs. splitChunkContent orig m = Some cs \<and> concat (map ch_Content cs) = ch_Content orig \<and>
           map ch_StartLine cs = map (\<lambda>k. ch_StartLine orig + int k) [0..<length cs]"
proof -
  let ?ps = "pieces m (ch_Content orig)"
  have "length ps \<le> length (concat ps)" if "list_all (\<lambda>p. p \<noteq> []) ps" for ps :: "string list"
    using that by (induction ps) (auto simp: Suc_le_eq add_strict_increasing)
  moreover have "list_all (\<lambda>p. p \<noteq> []) ?ps" using pieces_ok [OF assms(1,2)] by (auto simp: list_all_iff)
  ultimately have le: "length ?ps \<le> length (ch_Content orig)" by fastforce
  have len: "length (label sub_endLine (sub_chunk orig) (ch_StartLine orig) ?ps) = length ?ps"
    using map_Content_sub [of sub_endLine orig "ch_StartLine orig" ?ps] by (metis length_map)
  show ?thesis
    using split_loop_pieces [OF utf8_rune_every [OF assms(1,2)]] assms(2) label_drift [of ?ps "ch_StartLine orig" orig] assms(3,4,5) le len
    by (simp add: splitChunkContent_def)
qed

theorem splitChunkContent_long_line_drift_witness:
  "\<exists>cs. splitChunkContent (zero_Chunk\<lparr>ch_Content := ''abcdefghij'', ch_StartLine := 1\<rparr>) 4 = Some cs \<and>
     concat (map ch_Content cs) = ''abcdefghij'' \<and>
     map ch_StartLine cs = map (\<lambda>k. 1 + int k) [0..<length cs]"
  using splitChunkContent_long_line_drift
    [of "zero_Chunk\<lparr>ch_Content := ''abcdefghij'', ch_StartLine := 1\<rparr>" 4]
  by (simp add: utf8_Valid_ascii byte_def)

end
