(* ===== verification/Go_Json.thy ===== *)
theory Go_Json
  imports Go_Bytes
begin

text \<open>
  The part of \<^verbatim>\<open>encoding/json\<close> the services use to write events: strings (with the escapes of the
  default HTML-safe encoder), objects whose values are strings, and the members of a struct with and
  without \<^verbatim>\<open>omitempty\<close>. The theorem of this file is that encoded text contains no control byte, so
  it always fits on one line.
\<close>

definition u00 :: "nat \<Rightarrow> string" where
  "u00 b = CHR 0x5C # ''u00'' @ [hex_digit (b div 16), hex_digit (b mod 16)]"

definition escape_ascii :: "char \<Rightarrow> string" where
  "escape_ascii c =
     (if c = CHR 0x22 then [CHR 0x5C, CHR 0x22]
      else if c = CHR 0x5C then [CHR 0x5C, CHR 0x5C]
      else if c = CHR 0x08 then CHR 0x5C # ''b''
      else if c = CHR 0x0C then CHR 0x5C # ''f''
      else if c = CHR 0x0A then CHR 0x5C # ''n''
      else if c = CHR 0x0D then CHR 0x5C # ''r''
      else if c = CHR 0x09 then CHR 0x5C # ''t''
      else if byte c < 32 \<or> c \<in> {CHR ''<'', CHR ''>'', CHR ''&''} then u00 (byte c)
      else [c])"

text \<open>The line separators U+2028 and U+2029 are escaped, a byte that starts no UTF-8 sequence becomes
  the replacement character.\<close>

definition escape_seq :: "string \<Rightarrow> string" where
  "escape_seq q =
     (if q = [CHR 0xE2, CHR 0x80, CHR 0xA8] then CHR 0x5C # ''u2028''
      else if q = [CHR 0xE2, CHR 0x80, CHR 0xA9] then CHR 0x5C # ''u2029''
      else q)"

function appendString :: "string \<Rightarrow> string" where
  "appendString s =
     (case s of [] \<Rightarrow> []
      | c # r \<Rightarrow>
          if byte c < 128 then escape_ascii c @ appendString r
          else if rune_len s = 0 then CHR 0x5C # ''ufffd'' @ appendString r
          else escape_seq (take (rune_len s) s) @ appendString (drop (rune_len s) s))"
  by pat_completeness auto
termination
  by (relation "measure length") auto

declare appendString.simps [simp del]

definition json_string :: "string \<Rightarrow> string" where
  "json_string s = CHR 0x22 # appendString s @ [CHR 0x22]"

definition json_member :: "string \<times> string \<Rightarrow> string" where
  "json_member kv = json_string (fst kv) @ '':'' @ snd kv"

definition json_object :: "(string \<times> string) list \<Rightarrow> string" where
  "json_object ms = ''{'' @ Join (map json_member ms) '','' @ ''}''"

definition omitempty :: "string \<Rightarrow> string \<Rightarrow> (string \<times> string) list" where
  "omitempty k v = (if v = [] then [] else [(k, json_string v)])"

text \<open>A map with string keys is written in the order of its keys.\<close>

definition json_map :: "(string \<times> string) list \<Rightarrow> string" where
  "json_map m = json_object (map (\<lambda>(k, v). (k, json_string v)) (sort_key fst m))"

section \<open>No control bytes\<close>

definition printable :: "string \<Rightarrow> bool" where
  "printable s = list_all (\<lambda>c. 32 \<le> byte c) s"

lemma printable_simps [simp]:
  "printable []" "printable (c # s) = (32 \<le> byte c \<and> printable s)"
  "printable (s @ t) = (printable s \<and> printable t)"
  by (simp_all add: printable_def)

lemma hex_digit_printable: "n < 16 \<Longrightarrow> 32 \<le> byte (hex_digit n)"
  by (simp add: hex_digit_def byte_def)

lemma byte_less: "byte c < 256"
  by (simp add: byte_def nat_of_char_less_256)

lemma u00_printable: "printable (u00 (byte c))"
  using byte_less [of c] by (simp add: u00_def hex_digit_printable) (simp add: byte_def)

lemma escape_ascii_printable: "printable (escape_ascii c)"
  unfolding escape_ascii_def by (simp add: u00_printable) (simp add: byte_def)

lemma escape_seq_printable:
  assumes "rune_len s = n" "n \<noteq> 0" "128 \<le> byte (hd s)"
  shows "printable (escape_seq (take n s))"
proof -
  have "list_all (\<lambda>c. 32 \<le> byte c) (take n s)"
    unfolding list_all_length
  proof (intro allI impI)
    fix i assume i: "i < length (take n s)"
    show "32 \<le> byte (take n s ! i)"
    proof (cases i)
      case 0
      with assms i show ?thesis by (cases s) auto
    next
      case (Suc k)
      with i assms(1) have "cont (s ! i)" by (intro rune_len_cont) auto
      then show ?thesis using i by (simp add: RuneStart_def cont_def)
    qed
  qed
  then show ?thesis by (auto simp: escape_seq_def printable_def byte_def)
qed

lemma appendString_printable: "printable (appendString s)"
proof (induction s rule: appendString.induct)
  case (1 s)
  show ?case
  proof (cases s)
    case (Cons c r)
    show ?thesis
    proof (cases "byte c < 128")
      case False
      with 1 Cons escape_seq_printable [of s "rune_len s"] show ?thesis
        by (subst appendString.simps) (auto simp: byte_def)
    qed (use 1 Cons escape_ascii_printable in \<open>subst appendString.simps, auto\<close>)
  qed (simp add: appendString.simps)
qed

lemma json_string_printable [simp]: "printable (json_string s)"
  by (simp add: json_string_def appendString_printable) (simp add: byte_def)

lemma Join_printable: "list_all printable xs \<Longrightarrow> printable sep \<Longrightarrow> printable (Join xs sep)"
  by (induction xs sep rule: Join.induct) auto

lemma json_object_printable:
  assumes "list_all (\<lambda>kv. printable (snd kv)) ms"
  shows "printable (json_object ms)"
proof -
  have "printable (Join (map json_member ms) '','')"
    using assms by (intro Join_printable) (auto simp: list_all_iff json_member_def byte_def)
  then show ?thesis by (simp add: json_object_def byte_def)
qed

lemma json_map_printable [simp]: "printable (json_map m)"
  unfolding json_map_def by (rule json_object_printable) (auto simp: list_all_iff)

lemma printable_no_LF: "printable s \<Longrightarrow> CHR 0x0A \<notin> set s"
  by (auto simp: printable_def list_all_iff byte_def)

end
