(* ===== verification/Job_Reaper.thy ===== *)
theory Job_Reaper
  imports Job_Store Go_Json "HOL-Library.AList"
begin

text \<open>
  Worker heartbeats and the detection of dead workers: the worker's registry
  (\<^verbatim>\<open>src/backend-worker/internal/registry/registry.go\<close>), the reaper that runs when a worker starts
  (\<^verbatim>\<open>src/backend-worker/internal/reaper/reaper.go\<close>) and the check the API makes when it reads a
  running job (\<^verbatim>\<open>src/backend-api/internal/jobhealth/checker.go\<close>).

  A Redis key holds the heartbeat of a worker; reading it gives an error, nothing, or a payload
  that decodes to a \<open>workerStatus\<close> or not at all.
\<close>

section \<open>The registry of a worker\<close>

record Registry =
  reg_workerID :: string
  reg_hostname :: string
  reg_startedAt :: string
  reg_workflows :: "string list"
  reg_status :: string
  reg_activeJobs :: "(string \<times> string) list"

record statusPayload =
  sp_WorkerID :: string
  sp_Status :: string
  sp_StartedAt :: string
  sp_LastHeartbeatAt :: string
  sp_Hostname :: string
  sp_SupportedWorkflows :: "string list"
  sp_CurrentJobID :: string
  sp_CurrentProjectID :: string
  sp_ActiveJobs :: "(string \<times> string) list"

definition StatusStarting :: string where "StatusStarting = ''starting''"
definition StatusIdle :: string where "StatusIdle = ''idle''"
definition StatusBusy :: string where "StatusBusy = ''busy''"
definition StatusDraining :: string where "StatusDraining = ''draining''"

definition NewRegistry :: "string \<Rightarrow> string \<Rightarrow> string \<Rightarrow> string list \<Rightarrow> Registry option" where
  "NewRegistry workerID hostname startedAt workflows =
     (if workerID = [] then None
      else Some \<lparr>reg_workerID = workerID, reg_hostname = hostname, reg_startedAt = startedAt, reg_workflows = workflows,
                 reg_status = StatusStarting, reg_activeJobs = []\<rparr>)"

definition SetStatus :: "string \<Rightarrow> Registry \<Rightarrow> Registry" where
  "SetStatus status r = r\<lparr>reg_status := status, reg_activeJobs := []\<rparr>"

definition SetBusy :: "string \<Rightarrow> string \<Rightarrow> Registry \<Rightarrow> Registry" where
  "SetBusy jobID projectID r =
     r\<lparr>reg_activeJobs := AList.update jobID projectID (reg_activeJobs r), reg_status := StatusBusy\<rparr>"

definition ClearJob :: "string \<Rightarrow> Registry \<Rightarrow> Registry" where
  "ClearJob jobID r =
     (let active = AList.delete jobID (reg_activeJobs r)
      in r\<lparr>reg_activeJobs := active,
           reg_status := (if active = [] \<and> reg_status r = StatusBusy then StatusIdle else reg_status r)\<rparr>)"

text \<open>The registry part of \<^verbatim>\<open>Close\<close>.\<close>

definition reg_Close :: "Registry \<Rightarrow> Registry" where
  "reg_Close r = r\<lparr>reg_status := StatusDraining, reg_activeJobs := []\<rparr>"

text \<open>The payload a heartbeat publishes; the job picked for \<^verbatim>\<open>current_job_id\<close> is the first one the
  iteration over the map visits.\<close>

definition publish :: "string \<Rightarrow> Registry \<Rightarrow> statusPayload" where
  "publish now r =
     \<lparr>sp_WorkerID = reg_workerID r, sp_Status = reg_status r, sp_StartedAt = reg_startedAt r,
      sp_LastHeartbeatAt = now, sp_Hostname = reg_hostname r, sp_SupportedWorkflows = reg_workflows r,
      sp_CurrentJobID = (case reg_activeJobs r of [] \<Rightarrow> [] | (j, p) # _ \<Rightarrow> j),
      sp_CurrentProjectID = (case reg_activeJobs r of [] \<Rightarrow> [] | (j, p) # _ \<Rightarrow> p),
      sp_ActiveJobs = reg_activeJobs r\<rparr>"

section \<open>Reading heartbeats\<close>

record workerStatus =
  ws_CurrentJobID :: string
  ws_ActiveJobs :: "(string \<times> string) list"

datatype redis_value = RErr | RNil | RPayload "workerStatus option"

definition isActiveJob :: "workerStatus \<Rightarrow> string \<Rightarrow> bool" where
  "isActiveJob ws jobID =
     (if ws_ActiveJobs ws \<noteq> [] then jobID \<in> fst ` set (ws_ActiveJobs ws) else ws_CurrentJobID ws = jobID)"

text \<open>The fields the readers decode out of a published payload.\<close>

definition decode_status :: "statusPayload \<Rightarrow> workerStatus" where
  "decode_status sp = \<lparr>ws_CurrentJobID = sp_CurrentJobID sp, ws_ActiveJobs = sp_ActiveJobs sp\<rparr>"

definition reaper_fmtUUID :: "UUID \<Rightarrow> string" where
  "reaper_fmtUUID u = (if \<not> uuid_Valid u then [] else dashed (uuid_Bytes u))"

definition maxScanIterations :: nat where
  "maxScanIterations = 1000"

text \<open>\<open>scan\<close> answers a SCAN call for a cursor, \<open>done n\<close> says that the context is done when \<open>n\<close> more
  iterations are left.\<close>

fun scan_loop ::
  "(string \<Rightarrow> redis_value) \<Rightarrow> (nat \<Rightarrow> (string list \<times> nat) option) \<Rightarrow> (nat \<Rightarrow> bool) \<Rightarrow> string \<Rightarrow> nat \<Rightarrow> nat \<Rightarrow> bool" where
  "scan_loop get scan done jobStr 0 cursor = False"
| "scan_loop get scan done jobStr (Suc n) cursor =
     (if done n then True
      else case scan cursor of
             None \<Rightarrow> True
           | Some (keys, nxt) \<Rightarrow>
               if list_ex (\<lambda>k. case get k of RPayload (Some ws) \<Rightarrow> isActiveJob ws jobStr | _ \<Rightarrow> False) keys then True
               else if nxt = 0 then False
               else scan_loop get scan done jobStr n nxt)"

definition scanForJobOwner ::
  "(string \<Rightarrow> redis_value) \<Rightarrow> (nat \<Rightarrow> (string list \<times> nat) option) \<Rightarrow> (nat \<Rightarrow> bool) \<Rightarrow> UUID \<Rightarrow> bool" where
  "scanForJobOwner get scan done jobID = scan_loop get scan done (reaper_fmtUUID jobID) maxScanIterations 0"

definition isWorkerAlive ::
  "(string \<Rightarrow> redis_value) \<Rightarrow> (nat \<Rightarrow> (string list \<times> nat) option) \<Rightarrow> (nat \<Rightarrow> bool) \<Rightarrow> string \<Rightarrow> UUID \<Rightarrow> bool" where
  "isWorkerAlive get scan done workerID jobID =
     (if workerID = [] then scanForJobOwner get scan done jobID
      else case get (''worker:status:'' @ workerID) of
             RErr \<Rightarrow> True
           | RNil \<Rightarrow> False
           | RPayload None \<Rightarrow> False
           | RPayload (Some ws) \<Rightarrow> isActiveJob ws (reaper_fmtUUID jobID))"

section \<open>The reaper\<close>

definition reaperErrorDetails :: string where
  "reaperErrorDetails = CHR ''['' # json_object
     [(''category'', json_string ''worker_crash''),
      (''message'', json_string ''Worker process became unreachable during indexing. The job was automatically marked as failed.''),
      (''step'', json_string ''reaper'')] @ '']''"

text \<open>The loop over the stale jobs: the jobs reaped, in order (each is published as failed), and the
  database. \<open>alive\<close> is \<^verbatim>\<open>isWorkerAlive\<close>; \<open>fts\<close> gives the faults of each iteration.\<close>

fun reap_loop ::
  "timestamp \<Rightarrow> (string \<Rightarrow> UUID \<Rightarrow> bool) \<Rightarrow> (nat \<Rightarrow> faults) \<Rightarrow> nat \<Rightarrow> IndexingJob list \<Rightarrow> jdb \<Rightarrow> IndexingJob list \<times> jdb" where
  "reap_loop now alive fts k [] s = ([], s)"
| "reap_loop now alive fts k (job # jobs) s =
     (let workerID = (case job_WorkerID job of Some w \<Rightarrow> w | None \<Rightarrow> [])
      in if alive workerID (job_ID job) then reap_loop now alive fts (Suc k) jobs s
         else case exec_query (fts k) ''FailStaleJob'' (Inr (FailStaleJob now (job_ID job) reaperErrorDetails s)) s of
                (Inl e, s') \<Rightarrow> reap_loop now alive fts (Suc k) jobs s'
              | (Inr rows, s') \<Rightarrow>
                  if rows = 0 then reap_loop now alive fts (Suc k) jobs s'
                  else let (js, s'') = reap_loop now alive fts (Suc k) jobs s' in (job # js, s''))"

fun clean_loop :: "(nat \<Rightarrow> faults) \<Rightarrow> nat \<Rightarrow> IndexSnapshot list \<Rightarrow> jdb \<Rightarrow> jdb" where
  "clean_loop fts k [] s = s"
| "clean_loop fts k (snap # snaps) s =
     clean_loop fts (Suc k) snaps
       (snd (exec_query (fts k) ''DeleteOrphanedBuildingSnapshot'' (Inr ((), DeleteOrphanedBuildingSnapshot (snap_ID snap) s)) s))"

definition RunOnce ::
  "timestamp \<Rightarrow> int \<Rightarrow> (string \<Rightarrow> UUID \<Rightarrow> bool) \<Rightarrow> faults \<Rightarrow> (nat \<Rightarrow> faults) \<Rightarrow> jdb \<Rightarrow> (db_error + IndexingJob list) \<times> jdb" where
  "RunOnce now threshold alive ft fts s =
     (case query ft ''ListStaleRunningJobs'' (Inr (ListStaleRunningJobs now threshold s)) of
        Inl e \<Rightarrow> (Inl e, s)
      | Inr staleJobs \<Rightarrow>
          (let (reaped, s1) = reap_loop now alive fts 0 staleJobs s
           in case query ft ''ListOrphanedBuildingSnapshots'' (Inr (ListOrphanedBuildingSnapshots s1)) of
                Inl e \<Rightarrow> (Inr reaped, s1)
              | Inr snaps \<Rightarrow> (Inr reaped, clean_loop fts 0 snaps s1)))"

section \<open>The check of the API\<close>

text \<open>\<open>scan\<close> is \<^verbatim>\<open>pgtype.UUID.Scan\<close>. The second result is whether the failure was published.\<close>

definition reap ::
  "(string \<Rightarrow> UUID option) \<Rightarrow> timestamp \<Rightarrow> faults \<Rightarrow> string \<Rightarrow> string \<Rightarrow> jdb \<Rightarrow> (string \<times> bool) \<times> jdb" where
  "reap scan now ft jobID snapshotID s =
     (case scan jobID of
        None \<Rightarrow> ((''running'', False), s)
      | Some pgJobID \<Rightarrow>
          (case exec_query ft ''FailStaleJob'' (Inr (FailStaleJob now pgJobID reaperErrorDetails s)) s of
             (Inl e, s1) \<Rightarrow> ((''running'', False), s1)
           | (Inr rows, s1) \<Rightarrow>
               if rows = 0 then ((''failed'', False), s1)
               else let s2 = (if snapshotID = [] then s1
                              else case scan snapshotID of
                                     None \<Rightarrow> s1
                                   | Some i \<Rightarrow> snd (exec_query ft ''DeleteOrphanedBuildingSnapshot''
                                                     (Inr ((), DeleteOrphanedBuildingSnapshot i s1)) s1))
                    in ((''failed'', True), s2)))"

text \<open>\<open>get\<close> reads the heartbeat key; an empty payload counts as a missing key and is \<open>RNil\<close> here.
  \<open>startedAt\<close> is \<open>None\<close> for the zero time.\<close>

definition CheckAndReapIfDead ::
  "(string \<Rightarrow> UUID option) \<Rightarrow> timestamp \<Rightarrow> int \<Rightarrow> (string \<Rightarrow> redis_value) \<Rightarrow> faults \<Rightarrow>
   string \<Rightarrow> string \<Rightarrow> string \<Rightarrow> timestamp option \<Rightarrow> string \<Rightarrow> jdb \<Rightarrow> (string \<times> bool) \<times> jdb" where
  "CheckAndReapIfDead scan now threshold get ft jobID workerID currentStatus startedAt snapshotID s =
     (if currentStatus \<noteq> ''running'' then ((currentStatus, False), s)
      else if (case startedAt of None \<Rightarrow> False | Some t \<Rightarrow> now - t < threshold) then ((currentStatus, False), s)
      else if workerID = [] then reap scan now ft jobID snapshotID s
      else case get (''worker:status:'' @ workerID) of
             RErr \<Rightarrow> ((currentStatus, False), s)
           | RNil \<Rightarrow> reap scan now ft jobID snapshotID s
           | RPayload None \<Rightarrow> ((currentStatus, False), s)
           | RPayload (Some ws) \<Rightarrow>
               if isActiveJob ws jobID then ((''running'', False), s)
               else reap scan now ft jobID snapshotID s)"

section \<open>Heartbeats report the running jobs\<close>

datatype reg_op = Busy string string | Clear string

fun reg_apply :: "reg_op \<Rightarrow> Registry \<Rightarrow> Registry" where
  "reg_apply (Busy j p) r = SetBusy j p r"
| "reg_apply (Clear j) r = ClearJob j r"

text \<open>The jobs started and not finished, as a set.\<close>

fun running_jobs :: "reg_op list \<Rightarrow> string set \<Rightarrow> string set" where
  "running_jobs [] S = S"
| "running_jobs (Busy j p # ops) S = running_jobs ops (insert j S)"
| "running_jobs (Clear j # ops) S = running_jobs ops (S - {j})"

lemma SetBusy_keys: "fst ` set (reg_activeJobs (SetBusy j p r)) = insert j (fst ` set (reg_activeJobs r))"
  by (simp add: SetBusy_def dom_map_of_conv_image_fst [symmetric] update_conv')

lemma ClearJob_keys: "fst ` set (reg_activeJobs (ClearJob j r)) = fst ` set (reg_activeJobs r) - {j}"
  by (simp add: ClearJob_def Let_def dom_map_of_conv_image_fst [symmetric] delete_conv')

lemma reg_fold_keys: "fst ` set (reg_activeJobs (fold reg_apply ops r)) = running_jobs ops (fst ` set (reg_activeJobs r))"
proof (induction ops arbitrary: r)
  case (Cons op ops)
  then show ?case by (cases op) (simp_all add: SetBusy_keys ClearJob_keys)
qed simp

lemma publish_active:
  "j \<noteq> [] \<Longrightarrow> isActiveJob (decode_status (publish t r)) j \<longleftrightarrow> j \<in> fst ` set (reg_activeJobs r)"
  by (auto simp: isActiveJob_def decode_status_def publish_def)

text \<open>For any sequence of jobs starting and finishing, in any interleaving, the heartbeat of the
  worker reports exactly the jobs that have started and not finished.\<close>

theorem heartbeat_reports_running_jobs:
  assumes "NewRegistry w host t0 wfs = Some r0" "jobID \<noteq> []"
  shows "isActiveJob (decode_status (publish t (fold reg_apply ops r0))) jobID \<longleftrightarrow> jobID \<in> running_jobs ops {}"
proof -
  have "reg_activeJobs r0 = []" using assms(1) by (auto simp: NewRegistry_def split: if_splits)
  then show ?thesis using publish_active [OF assms(2)] reg_fold_keys [of ops r0] by simp
qed

theorem heartbeat_reports_running_jobs_witness:
  "isActiveJob (decode_status (publish ''t'' (fold reg_apply [Busy ''a'' ''p'', Busy ''b'' ''p'', Clear ''a'']
     \<lparr>reg_workerID = ''w'', reg_hostname = ''h'', reg_startedAt = ''t'', reg_workflows = [], reg_status = StatusStarting,
      reg_activeJobs = []\<rparr>))) ''b''"
  using heartbeat_reports_running_jobs [of "''w''" "''h''" "''t''" "[]" _ "''b''" "''t''" "[Busy ''a'' ''p'', Busy ''b'' ''p'', Clear ''a'']"]
  by (simp add: NewRegistry_def)

section \<open>Live jobs are spared\<close>

abbreviation worker_of :: "IndexingJob \<Rightarrow> string" where
  "worker_of job \<equiv> (case job_WorkerID job of Some w \<Rightarrow> w | None \<Rightarrow> [])"

lemma reap_loop_snd:
  "snd (reap_loop now alive fts k (job # jobs) s) = snd (reap_loop now alive fts (Suc k) jobs
     (if alive (worker_of job) (job_ID job) then s
      else snd (exec_query (fts k) ''FailStaleJob'' (Inr (FailStaleJob now (job_ID job) reaperErrorDetails s)) s)))"
  by (simp add: Let_def split: prod.split sum.split)

text \<open>A property of the database that failing the jobs without a live worker keeps is kept by the loop.\<close>

lemma reap_loop_induct:
  assumes "\<And>job s ft. job \<in> set js \<Longrightarrow> \<not> alive (worker_of job) (job_ID job) \<Longrightarrow> Q s \<Longrightarrow>
      Q (snd (exec_query ft ''FailStaleJob'' (Inr (FailStaleJob now (job_ID job) reaperErrorDetails s)) s))"
    and "Q s"
  shows "Q (snd (reap_loop now alive fts k js s))"
  using assms
proof (induction js arbitrary: k s)
  case (Cons job js)
  show ?case unfolding reap_loop_snd by (rule Cons.IH) (use Cons.prems in auto)
qed simp

lemma clean_loop_induct:
  assumes "\<And>snap s. snap \<in> set snaps \<Longrightarrow> Q s \<Longrightarrow> Q (DeleteOrphanedBuildingSnapshot (snap_ID snap) s)" and "Q s"
  shows "Q (clean_loop fts k snaps s)"
  using assms
  by (induction snaps arbitrary: k s) (simp_all add: exec_query_keeps [of Q])











text \<open>While the heartbeat in Redis is the one a worker publishes with the job among its active jobs,
  both detectors find the worker alive: the reaper skips the job and the check of the API answers
  \<^verbatim>\<open>running\<close> and changes nothing.\<close>

theorem live_worker_job_not_reaped:
  assumes "get (''worker:status:'' @ w) = RPayload (Some (decode_status (publish t r)))" "w \<noteq> []"
    and "uuid_Valid i" "PgUUIDToString i \<in> fst ` set (reg_activeJobs r)"
  shows "isWorkerAlive get scan don w i \<and>
    CheckAndReapIfDead scanUUID now threshold get ft (PgUUIDToString i) w ''running'' startedAt snapshotID s = ((''running'', False), s)"
proof -
  have "isActiveJob (decode_status (publish t r)) (PgUUIDToString i)"
    using assms(3,4) by (subst publish_active) (auto simp: PgUUIDToString_def dashed_def)
  moreover have "reaper_fmtUUID i = PgUUIDToString i" by (simp add: reaper_fmtUUID_def PgUUIDToString_def)
  ultimately show ?thesis
    using assms(1,2) by (auto simp: isWorkerAlive_def CheckAndReapIfDead_def)
qed

definition ex_registry :: Registry where
  "ex_registry = \<lparr>reg_workerID = ''w'', reg_hostname = ''h'', reg_startedAt = ''t'', reg_workflows = [],
     reg_status = StatusBusy, reg_activeJobs = [(PgUUIDToString (ex_uuid 1), ''p'')]\<rparr>"

theorem live_worker_job_not_reaped_witness:
  "CheckAndReapIfDead (\<lambda>_. Some (ex_uuid 1)) 100 5 (\<lambda>_. RPayload (Some (decode_status (publish ''t'' ex_registry))))
     (\<lambda>_. NoFault) (PgUUIDToString (ex_uuid 1)) ''w'' ''running'' (Some 0) [] (ex_jdb ''running'') = ((''running'', False), ex_jdb ''running'')"
  using live_worker_job_not_reaped [of "\<lambda>_. RPayload (Some (decode_status (publish ''t'' ex_registry)))" "''w''" "''t''" ex_registry "ex_uuid 1"
      "\<lambda>_. None" "\<lambda>_. False" "\<lambda>_. Some (ex_uuid 1)" 100 5 "\<lambda>_. NoFault" "Some 0" "[]" "ex_jdb ''running''"]
  by (simp add: ex_registry_def) (simp add: ex_uuid_def)

section \<open>Where the detectors go wrong\<close>

text \<open>\<^verbatim>\<open>SetStatus\<close> drops the active jobs. The queue starts before the worker sets its status to idle, so
  a job that begins in between runs on but is in no heartbeat: once it is older than the threshold
  the API marks the running job as failed.\<close>

theorem idle_status_forgets_running_job:
  assumes "get (''worker:status:'' @ w) = RPayload (Some (decode_status (publish t (SetStatus StatusIdle (SetBusy jobID projectID r)))))"
    and "jobID \<noteq> []" "w \<noteq> []" "scan jobID = Some i" "threshold \<le> now - started"
    and "\<exists>j \<in> set (db_jobs s). sql_eq (job_ID j) i" "\<forall>j \<in> set (db_jobs s). sql_eq (job_ID j) i \<longrightarrow> job_Status j = ''running''"
  shows "fst (CheckAndReapIfDead scan now threshold get (\<lambda>_. NoFault) jobID w ''running'' (Some started) [] s) = (''failed'', True) \<and>
    (\<forall>j \<in> set (db_jobs (snd (CheckAndReapIfDead scan now threshold get (\<lambda>_. NoFault) jobID w ''running'' (Some started) [] s))).
       sql_eq (job_ID j) i \<longrightarrow> job_Status j = ''failed'')"
proof -
  have "\<not> isActiveJob (decode_status (publish t (SetStatus StatusIdle (SetBusy jobID projectID r)))) jobID"
    using assms(2) by (simp add: publish_active SetStatus_def)
  then have c: "CheckAndReapIfDead scan now threshold get (\<lambda>_. NoFault) jobID w ''running'' (Some started) [] s =
      reap scan now (\<lambda>_. NoFault) jobID [] s"
    using assms(1,3,5) by (auto simp: CheckAndReapIfDead_def)
  have "filter (\<lambda>j. sql_eq (job_ID j) i \<and> job_Status j = ''running'') (db_jobs s) \<noteq> []"
    using assms(6,7) by (auto simp: filter_empty_conv)
  then have "reap scan now (\<lambda>_. NoFault) jobID [] s = ((''failed'', True), snd (FailStaleJob now i reaperErrorDetails s))"
    using assms(4) by (simp add: reap_def exec_query_def query_def FailStaleJob_def update_jobs_def)
  then show ?thesis
    using assms(7) unfolding c by (auto simp: FailStaleJob_def update_jobs_def update_rows_def)
qed

theorem idle_status_forgets_running_job_witness:
  "fst (CheckAndReapIfDead (\<lambda>_. Some (ex_uuid 1)) 100 5
      (\<lambda>_. RPayload (Some (decode_status (publish ''t'' (SetStatus StatusIdle (SetBusy ''j'' ''p'' ex_registry))))))
      (\<lambda>_. NoFault) ''j'' ''w'' ''running'' (Some 0) [] (ex_jdb ''running'')) = (''failed'', True)"
  using idle_status_forgets_running_job
    [of "\<lambda>_. RPayload (Some (decode_status (publish ''t'' (SetStatus StatusIdle (SetBusy ''j'' ''p'' ex_registry)))))" "''w''" "''t''" "''j''" "''p''" ex_registry
      "\<lambda>_. Some (ex_uuid 1)" "ex_uuid 1" 5 100 0 "ex_jdb ''running''"]
  by (simp add: ex_jdb_def ex_job_def) (simp add: sql_eq_def ex_uuid_def)

text \<open>A snapshot all of whose rows are building and inactive is removed by a cleaning that lists it.\<close>

lemma DeleteOrphaned_snaps:
  "set (db_snaps (DeleteOrphanedBuildingSnapshot i s)) =
     {r \<in> set (db_snaps s). \<not> (sql_eq (snap_ID r) i \<and> snap_Status r = ''building'' \<and> \<not> snap_IsActive r)}"
  by (auto simp: DeleteOrphanedBuildingSnapshot_def Let_def list_ex_iff)

definition all_building :: "UUID \<Rightarrow> jdb \<Rightarrow> bool" where
  "all_building i s = (\<forall>r \<in> set (db_snaps s). sql_eq (snap_ID r) i \<longrightarrow> snap_Status r = ''building'' \<and> \<not> snap_IsActive r)"

lemma clean_loop_removes:
  assumes "all_building i s" "\<exists>x \<in> set snaps. sql_eq (snap_ID x) i"
  shows "new_snap_id i (clean_loop (\<lambda>_ _. NoFault) k snaps s)"
  using assms
proof (induction snaps arbitrary: k s)
  case (Cons x snaps)
  let ?s = "DeleteOrphanedBuildingSnapshot (snap_ID x) s"
  have step: "clean_loop (\<lambda>_ _. NoFault) k (x # snaps) s = clean_loop (\<lambda>_ _. NoFault) (Suc k) snaps ?s"
    by (simp add: exec_query_def)
  have all: "all_building i ?s" using Cons.prems(1) by (simp add: all_building_def DeleteOrphaned_snaps)
  show ?case
  proof (cases "\<exists>x \<in> set snaps. sql_eq (snap_ID x) i")
    case True
    then show ?thesis unfolding step by (rule Cons.IH [OF all])
  next
    case False
    then have x: "sql_eq (snap_ID x) i" using Cons.prems(2) by auto
    have "\<not> sql_eq (snap_ID r) i" if "r \<in> set (db_snaps ?s)" for r
      using that Cons.prems(1) x sql_eq_sym sql_eq_trans unfolding DeleteOrphaned_snaps all_building_def by blast
    then have "new_snap_id i ?s" by (simp add: new_snap_id_def)
    then show ?thesis
      unfolding step by (rule clean_loop_induct [where Q = "new_snap_id i", rotated]) (auto simp: new_snap_id_def DeleteOrphaned_snaps)
  qed
qed simp

text \<open>No job refers to a snapshot.\<close>

definition unlinked :: "jdb \<Rightarrow> bool" where
  "unlinked s = (\<forall>j \<in> set (db_jobs s). \<not> uuid_Valid (job_IndexSnapshotID j))"

lemma FailStaleJob_frame:
  "db_snaps (snd (FailStaleJob now k d s)) = db_snaps s" "unlinked s \<Longrightarrow> unlinked (snd (FailStaleJob now k d s))"
  by (auto simp: FailStaleJob_def update_jobs_def update_rows_def unlinked_def)

lemma fail_stale_frame:
  assumes "db_snaps s = db_snaps s0 \<and> unlinked s"
  shows "db_snaps (snd (exec_query ft n (Inr (FailStaleJob now k d s)) s)) = db_snaps s0 \<and>
    unlinked (snd (exec_query ft n (Inr (FailStaleJob now k d s)) s))"
  using exec_query_keeps [of "\<lambda>x. db_snaps x = db_snaps s0 \<and> unlinked x" s "snd (FailStaleJob now k d s)" ft n "fst (FailStaleJob now k d s)"]
    assms by (simp add: FailStaleJob_frame)

text \<open>The API creates jobs without a snapshot and nothing links the snapshot a worker builds to its
  job, so a reap cycle, run by any worker that starts, takes every snapshot under construction for
  an orphan and deletes it with its files, also while the worker that builds it is alive. When the
  builder then activates the snapshot, the activation succeeds and leaves the branch with no
  active snapshot.\<close>

theorem reaper_deletes_snapshot_in_progress:
  assumes "snaps_ok s" "r \<in> set (db_snaps s)" "snap_Status r = ''building''" "\<not> snap_IsActive r" "uuid_Valid (snap_ID r)"
    and "unlinked s" "uuid_Valid p"
    and s': "s' = snd (RunOnce now threshold (isWorkerAlive get scan don) (\<lambda>_. NoFault) (\<lambda>_ _. NoFault) s)"
  shows "new_snap_id (snap_ID r) s' \<and>
    fst (ActivateSnapshotTx now' (\<lambda>_. NoFault) p branch (snap_ID r) s') = Inr () \<and>
    count_active p branch (snd (ActivateSnapshotTx now' (\<lambda>_. NoFault) p branch (snap_ID r) s')) = 0"
proof -
  let ?i = "snap_ID r"
  define s1 where "s1 = snd (reap_loop now (isWorkerAlive get scan don) (\<lambda>_ _. NoFault) 0 (ListStaleRunningJobs now threshold s) s)"
  have s1: "db_snaps s1 = db_snaps s \<and> unlinked s1"
    unfolding s1_def
    by (rule reap_loop_induct [where Q = "\<lambda>x. db_snaps x = db_snaps s \<and> unlinked x"])
       (rule fail_stale_frame, assumption, simp add: assms(6))
  have ri: "sql_eq ?i ?i" using assms(5) by (simp add: sql_eq_def)
  have only: "x = r" if "x \<in> set (db_snaps s)" "sql_eq (snap_ID x) ?i" for x
  proof -
    have "{x, r} \<subseteq> set (filter (\<lambda>y. sql_eq (snap_ID y) ?i) (db_snaps s))" using that assms(2) ri by auto
    then show ?thesis
      using snaps_okD(1) [OF assms(1), of ?i] by (cases "filter (\<lambda>y. sql_eq (snap_ID y) ?i) (db_snaps s)") auto
  qed
  have "all_building ?i s1" using only s1 assms(3,4) by (auto simp: all_building_def)
  moreover have "r \<in> set (ListOrphanedBuildingSnapshots s1)"
    using s1 assms(2-4) by (auto simp: ListOrphanedBuildingSnapshots_def list_ex_iff sql_eq_def unlinked_def)
  ultimately have "new_snap_id ?i (clean_loop (\<lambda>_ _. NoFault) 0 (ListOrphanedBuildingSnapshots s1) s1)"
    using ri by (intro clean_loop_removes) auto
  moreover have "s' = clean_loop (\<lambda>_ _. NoFault) 0 (ListOrphanedBuildingSnapshots s1) s1"
    by (simp add: s' RunOnce_def query_def s1_def Let_def split: prod.split)
  ultimately have gone: "new_snap_id ?i s'" by simp
  then have "snap_of p branch ?i s'" "filter (\<lambda>x. sql_eq (snap_ID x) ?i) (db_snaps s') = []"
    by (auto simp: snap_of_def new_snap_id_def filter_empty_conv)
  moreover have "ActivateSnapshotTx now' (\<lambda>_. NoFault) p branch ?i s' =
      (Inr (), ActivateSnapshot now' ?i (DeactivateActiveSnapshot p branch s'))"
    by (simp add: ActivateSnapshotTx_def execTx_def activate_body_def query_def)
  moreover have "sql_eq p p" using assms(7) by (simp add: sql_eq_def)
  ultimately show ?thesis using gone count_activate [of p branch ?i s' p branch now'] by simp
qed

theorem reaper_deletes_snapshot_in_progress_witness:
  "let s' = snd (RunOnce 100 500 (isWorkerAlive (\<lambda>_. RPayload (Some (decode_status (publish ''t'' ex_registry)))) (\<lambda>_. None) (\<lambda>_. False))
                   (\<lambda>_. NoFault) (\<lambda>_ _. NoFault) ex_building)
   in count_active (ex_uuid 2) ''main'' ex_building = 1 \<and>
      count_active (ex_uuid 2) ''main'' (snd (ActivateSnapshotTx 200 (\<lambda>_. NoFault) (ex_uuid 2) ''main'' (ex_uuid 2) s')) = 0"
proof -
  let ?r = "ex_snap 2 ''building'' False"
  have r: "?r \<in> set (db_snaps ex_building)" "snap_Status ?r = ''building''" "\<not> snap_IsActive ?r" "uuid_Valid (snap_ID ?r)"
    "unlinked ex_building" "uuid_Valid (ex_uuid 2)"
    by (simp_all add: unlinked_def ex_building_def ex_snap_def ex_job_def null_UUID_def ex_uuid_def)
  have "count_active (ex_uuid 2) ''main'' ex_building = 1"
    by (simp add: count_active_def active_for_def ex_building_def ex_snap_def sql_eq_def ex_uuid_def)
  then show ?thesis
    unfolding Let_def using reaper_deletes_snapshot_in_progress [OF ex_building_ok(1) r refl, where branch = "''main''" and now' = 200]
    by (simp add: ex_snap_def)
qed

text \<open>The two detectors treat a heartbeat they cannot decode in opposite ways: the reaper takes the
  worker for dead, the check of the API for alive.\<close>

theorem malformed_heartbeat_divergence:
  assumes "get (''worker:status:'' @ w) = RPayload None" "w \<noteq> []"
  shows "\<not> isWorkerAlive get scan don w i \<and>
    CheckAndReapIfDead scanUUID now threshold get ft jobID w ''running'' startedAt snapshotID s = ((''running'', False), s)"
  using assms by (simp add: isWorkerAlive_def CheckAndReapIfDead_def)

theorem malformed_heartbeat_divergence_witness:
  "\<not> isWorkerAlive (\<lambda>_. RPayload None) (\<lambda>_. None) (\<lambda>_. False) ''w'' (ex_uuid 1)"
  using malformed_heartbeat_divergence [of "\<lambda>_. RPayload None" "''w''" "\<lambda>_. None" "\<lambda>_. False" "ex_uuid 1"] by simp

end
