(* ===== verification/Index_Pipeline.thy ===== *)
theory Index_Pipeline
  imports Artifact_Writer Import_Resolve Chunk_Split Job_Reaper
begin

text \<open>
  From parsed files to stored vectors: the embedding client
  (\<^verbatim>\<open>src/backend-worker/internal/embedding/client.go\<close>), version labels (\<^verbatim>\<open>version.go\<close>), collection
  names (\<^verbatim>\<open>src/backend-worker/internal/vectorstore/collection.go\<close>), the storage pipeline
  (\<^verbatim>\<open>src/backend-worker/internal/indexing/pipeline.go\<close>) and the classification of its errors
  (\<^verbatim>\<open>src/backend-worker/internal/workflow/fullindex/handler.go\<close>).

  The embedding service and the vector database answer through parameters, by the number of the
  call. The components of a vector are of an arbitrary type. Errors are their texts.
\<close>

section \<open>The embedding client\<close>

definition DefaultEmbedBatchSize :: nat where
  "DefaultEmbedBatchSize = 50"

record OllamaClient =
  oc_endpointURL :: string
  oc_model :: string
  oc_dimensions :: int
  oc_batchSize :: nat
  oc_maxInputChars :: int

definition NewOllamaClient :: "string \<Rightarrow> string \<Rightarrow> int \<Rightarrow> int \<Rightarrow> OllamaClient" where
  "NewOllamaClient endpointURL model dimensions maxTokens =
     \<lparr>oc_endpointURL = endpointURL, oc_model = model, oc_dimensions = dimensions, oc_batchSize = DefaultEmbedBatchSize,
      oc_maxInputChars = (if maxTokens \<le> 0 then int DefaultMaxInputChars else maxTokens)\<rparr>"

record embedRequest =
  er_Model :: string
  er_Input :: "string list"
  er_Truncate :: bool

text \<open>What a request can lead to: a URL no request can be made for, no response, a response with another status than 200, a body that
  does not decode, or the embeddings.\<close>

datatype 'f reply = NoRequest string | ReqFailed string | StatusNot200 int string | BadBody string | Embeddings "'f list list"

definition first_mismatch :: "int \<Rightarrow> 'f list list \<Rightarrow> nat option" where
  "first_mismatch dims vecs = List.find (\<lambda>i. i32 (int (length (vecs ! i))) \<noteq> dims) [0..<length vecs]"

definition embedBatch ::
  "OllamaClient \<Rightarrow> (nat \<Rightarrow> string \<Rightarrow> embedRequest \<Rightarrow> 'f reply) \<Rightarrow> nat \<Rightarrow> string list \<Rightarrow> string + 'f list list" where
  "embedBatch c post k texts =
     (let url = oc_endpointURL c @ ''/api/embed'';
          req = \<lparr>er_Model = oc_model c, er_Input = texts, er_Truncate = True\<rparr>
      in case post k url req of
           NoRequest e \<Rightarrow> Inl (''embedding: create request: '' @ e)
         | ReqFailed e \<Rightarrow> Inl (''embedding: request '' @ url @ '': '' @ e)
         | StatusNot200 st body \<Rightarrow> Inl (''embedding: '' @ url @ '' returned '' @ show_int st @ '': '' @ body)
         | BadBody e \<Rightarrow> Inl (''embedding: decode response: '' @ e)
         | Embeddings vecs \<Rightarrow>
             if length vecs \<noteq> length texts
             then Inl (''embedding: expected '' @ show_nat (length texts) @ '' embeddings, got '' @ show_nat (length vecs))
             else case first_mismatch (oc_dimensions c) vecs of
                    Some i \<Rightarrow> Inl (''embedding: dimension mismatch at index '' @ show_nat i @ '': got '' @
                                show_nat (length (vecs ! i)) @ '', want '' @ show_int (oc_dimensions c))
                  | None \<Rightarrow> Inr vecs)"

text \<open>A text longer than the limit is cut at that byte.\<close>

definition truncate_text :: "OllamaClient \<Rightarrow> string \<Rightarrow> string" where
  "truncate_text c t = (if int (length t) > oc_maxInputChars c then take (nat (oc_maxInputChars c)) t else t)"

text \<open>The loop over the batches does not end for a batch size of 0: \<open>None\<close>.\<close>

partial_function (option) embed_loop ::
  "OllamaClient \<Rightarrow> (nat \<Rightarrow> string \<Rightarrow> embedRequest \<Rightarrow> 'f reply) \<Rightarrow> nat \<Rightarrow> string list \<Rightarrow> 'f list list \<Rightarrow> (string + 'f list list) option" where
  "embed_loop c post k texts result =
     (if texts = [] then Some (Inr result)
      else case embedBatch c post k (take (oc_batchSize c) texts) of
             Inl e \<Rightarrow> Some (Inl e)
           | Inr vecs \<Rightarrow> embed_loop c post (Suc k) (drop (oc_batchSize c) texts) (result @ vecs))"

definition Embed ::
  "OllamaClient \<Rightarrow> (nat \<Rightarrow> string \<Rightarrow> embedRequest \<Rightarrow> 'f reply) \<Rightarrow> string list \<Rightarrow> (string + 'f list list) option" where
  "Embed c post texts = embed_loop c post 0 (map (truncate_text c) texts) []"

section \<open>Labels and names\<close>

definition VersionLabel :: "string \<Rightarrow> string \<Rightarrow> int \<Rightarrow> string" where
  "VersionLabel provider model dimensions =
     (let safeModel = ReplaceAll model ''/'' ''-''
      in provider @ ''-'' @ safeModel @ ''-'' @ show_int dimensions)"

definition vs_formatUUID :: "UUID \<Rightarrow> string" where
  "vs_formatUUID u =
     (if \<not> uuid_Valid u then replicate 32 (CHR ''0'')
      else let b = uuid_Bytes u
           in EncodeToString (take 4 b) @ EncodeToString (take 2 (drop 4 b)) @ EncodeToString (take 2 (drop 6 b)) @
              EncodeToString (take 2 (drop 8 b)) @ EncodeToString (take 6 (drop 10 b)))"

definition CollectionName :: "UUID \<Rightarrow> string \<Rightarrow> string" where
  "CollectionName projectID versionLabel = ''project_'' @ vs_formatUUID projectID @ ''__emb_'' @ versionLabel"

section \<open>The pipeline\<close>

record PipelineInput =
  pi_ProjectID :: UUID
  pi_SnapshotID :: UUID
  pi_JobID :: UUID
  pi_Branch :: string
  pi_GitCommit :: string
  pi_VersionLabel :: string
  pi_Dimensions :: int
  pi_ParsedFiles :: "ParsedFileResult list"
  pi_FileContents :: "string \<rightharpoonup> string"
  pi_AllFilePaths :: "string list"
  pi_GoModulePath :: string

datatype payload_value = PStr string | PInt int

record 'f Point =
  pt_ID :: string
  pt_Vector :: "'f list"
  pt_Payload :: "(string \<times> payload_value) list"

text \<open>The state a run changes: the artifact tables, the tables of jobs and snapshots and the batches of
  points stored in the vector database.\<close>

record 'f pstate =
  ps_db :: adb
  ps_jobs :: jdb
  ps_upserts :: "(string \<times> 'f Point list) list"

text \<open>The services: the error of making sure the collection exists, the error of the \<open>k\<close>-th upsert, the
  replies of the embedding service, and the faults of the progress report after a number of files
  (0 for the final one) and of the activation. \<open>sv_pg_text\<close> is the text of a database error.\<close>

record 'f services =
  sv_db :: aenv
  sv_ensure :: "string \<Rightarrow> int \<Rightarrow> string option"
  sv_upsert :: "nat \<Rightarrow> string option"
  sv_client :: OllamaClient
  sv_post :: "nat \<Rightarrow> string \<Rightarrow> embedRequest \<Rightarrow> 'f reply"
  sv_progress :: "nat \<Rightarrow> faults"
  sv_activate :: faults
  sv_pg_text :: "db_error \<Rightarrow> string"

definition vectorUpsertBatchSize :: nat where
  "vectorUpsertBatchSize = 100"

definition pipeline_formatUUID :: "UUID \<Rightarrow> string" where
  "pipeline_formatUUID u = (if \<not> uuid_Valid u then [] else dashed (uuid_Bytes u))"

definition mk_point :: "PipelineInput \<Rightarrow> ChunkForEmbed \<Rightarrow> 'f list \<Rightarrow> 'f Point" where
  "mk_point input ch v =
     \<lparr>pt_ID = pipeline_formatUUID (ce_ChunkDBID ch), pt_Vector = v,
      pt_Payload =
        [(''project_id'', PStr (pipeline_formatUUID (pi_ProjectID input))),
         (''index_snapshot_id'', PStr (pipeline_formatUUID (pi_SnapshotID input))),
         (''file_path'', PStr (ce_FilePath ch)), (''language'', PStr (ce_Language ch)),
         (''symbol_name'', PStr (ce_SymbolName ch)), (''symbol_type'', PStr (ce_SymbolKind ch)),
         (''chunk_type'', PStr (ce_ChunkType ch)), (''chunk_hash'', PStr (ce_ChunkHash ch)),
         (''start_line'', PInt (ce_StartLine ch)), (''end_line'', PInt (ce_EndLine ch)),
         (''branch'', PStr (pi_Branch input)), (''git_commit'', PStr (pi_GitCommit input)),
         (''embedding_version'', PStr (pi_VersionLabel input)),
         (''raw_text_ref'', PStr (''db://code_chunks/'' @ pipeline_formatUUID (ce_ChunkDBID ch)))]\<rparr>"

text \<open>A progress report; when it fails the run goes on.\<close>

definition report_progress :: "'f services \<Rightarrow> PipelineInput \<Rightarrow> nat \<Rightarrow> nat \<Rightarrow> nat \<Rightarrow> 'f pstate \<Rightarrow> 'f pstate" where
  "report_progress sv input k files chunks s =
     s\<lparr>ps_jobs := snd (exec_query (sv_progress sv k) ''SetIndexingJobProgress''
         (Inr (SetIndexingJobProgress (pi_JobID input) (i32 (int files)) (i32 (int chunks)) 0 (ps_jobs s))) (ps_jobs s))\<rparr>"

text \<open>Phase 1: the file number \<open>i\<close> (from 0) of \<open>n\<close>; progress is reported every 500 files and after the
  last.\<close>

fun write_files ::
  "'f services \<Rightarrow> PipelineInput \<Rightarrow> nat \<Rightarrow> nat \<Rightarrow> ParsedFileResult list \<Rightarrow> ChunkForEmbed list \<Rightarrow> 'f pstate \<Rightarrow>
   (string + ChunkForEmbed list) \<times> 'f pstate" where
  "write_files sv input n i [] allChunks s = (Inr allChunks, s)"
| "write_files sv input n i (parsed # files) allChunks s =
     (let fileContent = (case pi_FileContents input (pf_FilePath parsed) of Some t \<Rightarrow> t | None \<Rightarrow> [])
      in case WriteFile (sv_db sv) (pi_ProjectID input) (pi_SnapshotID input) parsed fileContent (ps_db s) of
           (Inl e, d) \<Rightarrow> (Inl (''indexing: file '' @ show_nat (Suc i) @ ''/'' @ show_nat n @ '' '' @ pf_FilePath parsed @ '': '' @ e), s\<lparr>ps_db := d\<rparr>)
         | (Inr result, d) \<Rightarrow>
             (let s1 = s\<lparr>ps_db := d\<rparr>;
                  s2 = (if Suc i mod 500 = 0 \<or> Suc i = n then report_progress sv input (Suc i) (Suc i) 0 s1 else s1)
              in write_files sv input n (Suc i) files (allChunks @ wr_Chunks result) s2))"

text \<open>Phase 3: the batch number \<open>k\<close>.\<close>

function upsert_loop :: "'f services \<Rightarrow> string \<Rightarrow> nat \<Rightarrow> 'f Point list \<Rightarrow> 'f pstate \<Rightarrow> (string + unit) \<times> 'f pstate" where
  "upsert_loop sv collection k points s =
     (if points = [] then (Inr (), s)
      else let start = k * vectorUpsertBatchSize; batch = take vectorUpsertBatchSize points
           in case sv_upsert sv k of
                Some e \<Rightarrow> (Inl (''indexing: upsert vectors batch '' @ show_nat start @ ''-'' @ show_nat (start + length batch) @ '': '' @ e), s)
              | None \<Rightarrow> upsert_loop sv collection (Suc k) (drop vectorUpsertBatchSize points)
                          (s\<lparr>ps_upserts := ps_upserts s @ [(collection, batch)]\<rparr>))"
  by pat_completeness auto
termination
  by (relation "measure (\<lambda>(sv, c, k, points, s). length points)") (auto simp: vectorUpsertBatchSize_def)

declare upsert_loop.simps [simp del]

definition go_module_path :: "PipelineInput \<Rightarrow> string" where
  "go_module_path input =
     (if pi_GoModulePath input = []
      then (case pi_FileContents input ''go.mod'' of Some content \<Rightarrow> ExtractGoModulePath content | None \<Rightarrow> [])
      else pi_GoModulePath input)"

text \<open>Phases 2 and 3, once the artifacts are written.\<close>

definition embed_and_upsert ::
  "'f services \<Rightarrow> PipelineInput \<Rightarrow> string \<Rightarrow> nat \<Rightarrow> ChunkForEmbed list \<Rightarrow> 'f pstate \<Rightarrow> ((string + unit) \<times> 'f pstate) option" where
  "embed_and_upsert sv input collection nfiles allChunks s =
     (if allChunks = [] then Some (Inr (), s)
      else let texts = map ce_Content allChunks
           in case Embed (sv_client sv) (sv_post sv) texts of
                None \<Rightarrow> None
              | Some (Inl e) \<Rightarrow> Some (Inl (''indexing: embed chunks: '' @ e), s)
              | Some (Inr vectors) \<Rightarrow>
                  if length vectors \<noteq> length texts
                  then Some (Inl (''indexing: embed: got '' @ show_nat (length vectors) @ '' vectors for '' @ show_nat (length texts) @ '' texts''), s)
                  else case upsert_loop sv collection 0 (map2 (mk_point input) allChunks vectors) s of
                         (Inl e, s') \<Rightarrow> Some (Inl e, s')
                       | (Inr _, s') \<Rightarrow>
                           Some (Inr (), report_progress sv input 0 nfiles (length allChunks) s'))"

definition processFiles :: "'f services \<Rightarrow> PipelineInput \<Rightarrow> 'f pstate \<Rightarrow> ((string + unit) \<times> 'f pstate) option" where
  "processFiles sv input s =
     (let collection = CollectionName (pi_ProjectID input) (pi_VersionLabel input)
      in case sv_ensure sv collection (pi_Dimensions input) of
           Some e \<Rightarrow> Some (Inl (''indexing: ensure collection: '' @ e), s)
         | None \<Rightarrow>
             (let files = ResolveImportTargets (pi_ParsedFiles input) (pi_AllFilePaths input) (go_module_path input)
              in case write_files sv input (length files) 0 files [] s of
                   (Inl e, s') \<Rightarrow> Some (Inl e, s')
                 | (Inr allChunks, s') \<Rightarrow> embed_and_upsert sv input collection (length files) allChunks s'))"

text \<open>The incremental workflow activates later; a full run activates once everything is stored.\<close>

definition RunWithoutActivation :: "'f services \<Rightarrow> PipelineInput \<Rightarrow> 'f pstate \<Rightarrow> ((string + unit) \<times> 'f pstate) option" where
  "RunWithoutActivation sv input s = processFiles sv input s"

definition pipeline_Run :: "'f services \<Rightarrow> timestamp \<Rightarrow> PipelineInput \<Rightarrow> 'f pstate \<Rightarrow> ((string + unit) \<times> 'f pstate) option" where
  "pipeline_Run sv now input s =
     (case processFiles sv input s of
        None \<Rightarrow> None
      | Some (Inl e, s') \<Rightarrow> Some (Inl e, s')
      | Some (Inr _, s') \<Rightarrow>
          (case ActivateSnapshotTx now (sv_activate sv) (pi_ProjectID input) (pi_Branch input) (pi_SnapshotID input) (ps_jobs s') of
             (Inl e, j) \<Rightarrow> Some (Inl (''indexing: activate snapshot: '' @ sv_pg_text sv e), s'\<lparr>ps_jobs := j\<rparr>)
           | (Inr _, j) \<Rightarrow> Some (Inr (), s'\<lparr>ps_jobs := j\<rparr>)))"

definition categorizePipelineError :: "string \<Rightarrow> string" where
  "categorizePipelineError msg =
     (if Contains msg ''ensure collection'' then ''vector_write''
      else if Contains msg ''upsert vectors'' then ''vector_write''
      else if Contains msg ''embed'' then ''embedding''
      else if Contains msg ''activate snapshot'' then ''activation''
      else ''artifact_write'')"

section \<open>One vector per text\<close>

lemma embedBatch_Inr:
  assumes "embedBatch c post k texts = Inr vecs"
  shows "post k (oc_endpointURL c @ ''/api/embed'') \<lparr>er_Model = oc_model c, er_Input = texts, er_Truncate = True\<rparr> = Embeddings vecs"
    and "length vecs = length texts" "\<And>v. v \<in> set vecs \<Longrightarrow> i32 (int (length v)) = oc_dimensions c"
proof -
  show "post k (oc_endpointURL c @ ''/api/embed'') \<lparr>er_Model = oc_model c, er_Input = texts, er_Truncate = True\<rparr> = Embeddings vecs"
    "length vecs = length texts"
    using assms by (auto simp: embedBatch_def Let_def split: reply.splits option.splits if_splits)
  have "first_mismatch (oc_dimensions c) vecs = None"
    using assms by (auto simp: embedBatch_def Let_def split: reply.splits option.splits if_splits)
  then show "i32 (int (length v)) = oc_dimensions c" if "v \<in> set vecs" for v
    using that by (auto simp: first_mismatch_def find_None_iff in_set_conv_nth)
qed

lemma embed_loop_total:
  assumes "0 < oc_batchSize c"
  shows "\<exists>r. embed_loop c post k texts res = Some r"
  using assms
proof (induction texts arbitrary: k res rule: length_induct)
  case (1 texts)
  have "texts \<noteq> [] \<Longrightarrow> length (drop (oc_batchSize c) texts) < length texts" using 1(2) by simp
  then show ?case using 1 by (subst embed_loop.simps) (auto split: sum.split)
qed

text \<open>Where the \<open>i\<close>-th vector comes from: position \<open>i mod b\<close> of the reply to request \<open>i div b\<close>.\<close>

lemma embed_loop_vectors:
  assumes "0 < oc_batchSize c" "embed_loop c post k texts res = Some (Inr out)"
  shows "\<exists>vecs. out = res @ vecs \<and> length vecs = length texts \<and> (\<forall>v \<in> set vecs. i32 (int (length v)) = oc_dimensions c) \<and>
    (\<forall>i < length texts. \<exists>ans. post (k + i div oc_batchSize c) (oc_endpointURL c @ ''/api/embed'')
       \<lparr>er_Model = oc_model c, er_Input = take (oc_batchSize c) (drop (oc_batchSize c * (i div oc_batchSize c)) texts), er_Truncate = True\<rparr>
         = Embeddings ans \<and> vecs ! i = ans ! (i mod oc_batchSize c))"
  using assms
proof (induction texts arbitrary: k res rule: length_induct)
  case (1 texts)
  let ?b = "oc_batchSize c"
  show ?case
  proof (cases "texts = []")
    case True
    then show ?thesis using 1(3) by (simp add: embed_loop.simps)
  next
    case False
    then obtain vs where vs: "embedBatch c post k (take ?b texts) = Inr vs" "embed_loop c post (Suc k) (drop ?b texts) (res @ vs) = Some (Inr out)"
      using 1(3) by (subst (asm) embed_loop.simps) (auto split: sum.splits)
    have "length (drop ?b texts) < length texts" using False 1(2) by simp
    with 1(1) vs(2) 1(2) obtain ws where ws: "out = (res @ vs) @ ws" "length ws = length (drop ?b texts)"
      "\<forall>v \<in> set ws. i32 (int (length v)) = oc_dimensions c"
      "\<forall>i < length (drop ?b texts). \<exists>ans. post (Suc k + i div ?b) (oc_endpointURL c @ ''/api/embed'')
         \<lparr>er_Model = oc_model c, er_Input = take ?b (drop (?b * (i div ?b)) (drop ?b texts)), er_Truncate = True\<rparr> = Embeddings ans \<and> ws ! i = ans ! (i mod ?b)"
      by blast
    note b1 = embedBatch_Inr [OF vs(1)]
    have nth: "\<exists>ans. post (k + i div ?b) (oc_endpointURL c @ ''/api/embed'')
         \<lparr>er_Model = oc_model c, er_Input = take ?b (drop (?b * (i div ?b)) texts), er_Truncate = True\<rparr> = Embeddings ans \<and> (vs @ ws) ! i = ans ! (i mod ?b)"
      if "i < length texts" for i
    proof (cases "i < ?b")
      case True
      then show ?thesis using b1(1,2) that by (intro exI [of _ vs]) (simp add: nth_append)
    next
      case False
      then obtain j where j: "i = ?b + j" using le_Suc_ex not_less by blast
      have q: "i div ?b = Suc (j div ?b)" "i mod ?b = j mod ?b" using j 1(2) by (simp_all add: div_add_self1)
      have "length vs = ?b" using b1(2) that False by simp
      then have "(vs @ ws) ! i = ws ! j" using j by (simp add: nth_append)
      moreover have "drop (?b * (i div ?b)) texts = drop (?b * (j div ?b)) (drop ?b texts)" by (simp add: q add.commute)
      moreover have "j < length (drop ?b texts)" using that j by simp
      ultimately show ?thesis using ws(4) q by auto
    qed
    have "length vs = min (length texts) ?b" using b1(2) by simp
    then have "length (vs @ ws) = length texts" using ws(2) by (simp add: min_def split: if_splits)
    then show ?thesis
      using ws(1,3) b1(3) nth by (intro exI [of _ "vs @ ws"]) auto
  qed
qed

text \<open>The client of a configuration always ends with an answer; if it is not an error there is one
  vector per text, in order, each of the configured dimension, and the \<open>i\<close>-th vector is the one the
  service returned for the \<open>i\<close>-th text.\<close>

theorem Embed_one_vector_per_text:
  assumes "c = NewOllamaClient url model dims maxTokens"
  shows "\<exists>r. Embed c post texts = Some r \<and> (\<forall>vecs. r = Inr vecs \<longrightarrow>
    length vecs = length texts \<and> (\<forall>v \<in> set vecs. i32 (int (length v)) = dims) \<and>
    (\<forall>i < length texts. \<exists>ans. post (i div 50) (url @ ''/api/embed'')
       \<lparr>er_Model = model, er_Input = map (truncate_text c) (take 50 (drop (50 * (i div 50)) texts)), er_Truncate = True\<rparr>
         = Embeddings ans \<and> vecs ! i = ans ! (i mod 50)))"
proof -
  have b: "oc_batchSize c = 50" "oc_endpointURL c = url" "oc_model c = model" "oc_dimensions c = dims"
    using assms by (simp_all add: NewOllamaClient_def DefaultEmbedBatchSize_def)
  obtain r where r: "Embed c post texts = Some r"
    using embed_loop_total [of c post 0 "map (truncate_text c) texts" "[]"] b by (auto simp: Embed_def)
  show ?thesis
    using r embed_loop_vectors [of c post 0 "map (truncate_text c) texts" "[]"] b
    by (intro exI [of _ r]) (auto simp: Embed_def take_map drop_map)
qed

theorem Embed_one_vector_per_text_witness:
  "\<exists>r. Embed (NewOllamaClient ''u'' ''m'' 1 0) (\<lambda>k url req. Embeddings (map (\<lambda>t. [length t]) (er_Input req))) [''a'', ''bc''] = Some r \<and>
     (\<forall>vecs. r = Inr vecs \<longrightarrow> length vecs = 2)"
  using Embed_one_vector_per_text [OF refl, of "''u''" "''m''" 1 0 "\<lambda>k url req. Embeddings (map (\<lambda>t. [length t]) (er_Input req))" "[''a'', ''bc'']"]
  by auto

section \<open>Stored vectors and activation\<close>

lemma upsert_loop_Inr:
  "upsert_loop sv collection k points s = (Inr (), s') \<Longrightarrow>
     \<exists>batches. s' = s\<lparr>ps_upserts := ps_upserts s @ map (\<lambda>b. (collection, b)) batches\<rparr> \<and> concat batches = points \<and>
       (\<forall>b \<in> set batches. b \<noteq> [] \<and> length b \<le> vectorUpsertBatchSize)"
proof (induction sv collection k points s rule: upsert_loop.induct)
  case (1 sv collection k points s)
  show ?case
  proof (cases "points = []")
    case True
    then show ?thesis using 1(2) by (intro exI [of _ "[]"]) (simp add: upsert_loop.simps)
  next
    case False
    let ?b = "take vectorUpsertBatchSize points"
    let ?s = "s\<lparr>ps_upserts := ps_upserts s @ [(collection, ?b)]\<rparr>"
    have ok: "sv_upsert sv k = None" "upsert_loop sv collection (Suc k) (drop vectorUpsertBatchSize points) ?s = (Inr (), s')"
      using 1(2) False by (subst (asm) upsert_loop.simps, simp add: Let_def split: option.splits)+
    from 1(1) [OF False refl refl ok] obtain bs where "s' = ?s\<lparr>ps_upserts := ps_upserts ?s @ map (\<lambda>b. (collection, b)) bs\<rparr>"
      "concat bs = drop vectorUpsertBatchSize points" "\<forall>b \<in> set bs. b \<noteq> [] \<and> length b \<le> vectorUpsertBatchSize" by blast
    then show ?thesis
      using False by (intro exI [of _ "?b # bs"]) (simp add: vectorUpsertBatchSize_def)
  qed
qed

lemma Resolve_chunks: "map pf_Chunks (ResolveImportTargets files paths m) = map pf_Chunks files"
  by (simp add: ResolveImportTargets_def Let_def)

lemma report_progress_frame:
  "ps_db (report_progress sv input k a b s) = ps_db s" "ps_upserts (report_progress sv input k a b s) = ps_upserts s"
  "db_snaps (ps_jobs (report_progress sv input k a b s)) = db_snaps (ps_jobs s)"
  by (simp_all add: report_progress_def exec_query_def SetIndexingJobProgress_def update_jobs_def)

text \<open>Phases 1 to 3 leave the snapshots as they are, whatever happens.\<close>

lemma write_files_snaps: "db_snaps (ps_jobs (snd (write_files sv input n i files cs s))) = db_snaps (ps_jobs s)"
  by (induction files arbitrary: i cs s) (auto simp: Let_def report_progress_frame split: prod.split sum.split)

lemma upsert_loop_frame:
  "ps_jobs (snd (upsert_loop sv collection k points s)) = ps_jobs s" "ps_db (snd (upsert_loop sv collection k points s)) = ps_db s"
  by (induction sv collection k points s rule: upsert_loop.induct; subst upsert_loop.simps; auto simp: Let_def split: option.split)+

lemma processFiles_snaps: "processFiles sv input s = Some (r, s') \<Longrightarrow> db_snaps (ps_jobs s') = db_snaps (ps_jobs s)"
  using write_files_snaps [of sv input] upsert_loop_frame(1) [of sv]
  by (auto simp: processFiles_def embed_and_upsert_def Let_def report_progress_frame
      split: option.splits sum.splits prod.splits if_splits) (metis snd_conv)+

lemma write_files_Inr:
  "write_files sv input n i files cs s = (Inr cs', s') \<Longrightarrow>
     \<exists>new chunks. cs' = cs @ chunks \<and> a_rows (ps_db s') = a_rows (ps_db s) @ new \<and> chunk_ids new = map ce_ChunkDBID chunks \<and>
       map ce_Content chunks = concat (map (\<lambda>f. map ch_Content (pf_Chunks f)) files) \<and> ps_upserts s' = ps_upserts s"
proof (induction files arbitrary: i cs s)
  case (Cons f files)
  let ?t = "case pi_FileContents input (pf_FilePath f) of Some t \<Rightarrow> t | None \<Rightarrow> []"
  obtain res d where w: "WriteFile (sv_db sv) (pi_ProjectID input) (pi_SnapshotID input) f ?t (ps_db s) = (Inr res, d)"
    using Cons.prems by (auto simp: Let_def split: prod.splits sum.splits)
  define s2 where "s2 = (let s1 = s\<lparr>ps_db := d\<rparr> in if Suc i mod 500 = 0 \<or> Suc i = n then report_progress sv input (Suc i) (Suc i) 0 s1 else s1)"
  have s2: "ps_db s2 = d" "ps_upserts s2 = ps_upserts s" by (simp_all add: s2_def Let_def report_progress_frame)
  have "write_files sv input n (Suc i) files (cs @ wr_Chunks res) s2 = (Inr cs', s')"
    using Cons.prems w by (simp add: Let_def s2_def)
  from Cons.IH [OF this] obtain new chunks where IH: "cs' = (cs @ wr_Chunks res) @ chunks" "a_rows (ps_db s') = a_rows d @ new"
    "chunk_ids new = map ce_ChunkDBID chunks" "map ce_Content chunks = concat (map (\<lambda>f. map ch_Content (pf_Chunks f)) files)"
    "ps_upserts s' = ps_upserts s" using s2 by auto
  obtain new1 where n1: "a_rows d = a_rows (ps_db s) @ new1" "chunk_ids new1 = map ce_ChunkDBID (wr_Chunks res)"
    "map ce_Content (wr_Chunks res) = map ch_Content (pf_Chunks f)" using WriteFile_chunk_rows [OF w] by blast
  show ?case
    using IH n1 by (intro exI [of _ "new1 @ new"] exI [of _ "wr_Chunks res @ chunks"]) simp
qed simp

text \<open>A point carries the id of its chunk.\<close>

lemma map2_mk_point:
  "length vs = length cs \<Longrightarrow> map pt_ID (map2 (mk_point input) cs vs) = map (\<lambda>c. pipeline_formatUUID (ce_ChunkDBID c)) cs"
  "length vs = length cs \<Longrightarrow> map pt_Vector (map2 (mk_point input) cs vs) = vs"
  by (rule nth_equalityI; simp add: mk_point_def)+

text \<open>What is stored when the three phases succeed: \<open>stored sv input s s'\<close> says that the chunk rows written
  are exactly those of the parsed files, in order, and that the points are exactly one per chunk
  row, under the id of the row, with the vector of its text.\<close>

definition stored :: "'f services \<Rightarrow> PipelineInput \<Rightarrow> 'f pstate \<Rightarrow> 'f pstate \<Rightarrow> bool" where
  "stored sv input s s' \<longleftrightarrow> (\<exists>new batches texts vecs. a_rows (ps_db s') = a_rows (ps_db s) @ new \<and>
    texts = concat (map (\<lambda>f. map ch_Content (pf_Chunks f)) (pi_ParsedFiles input)) \<and> length (chunk_ids new) = length texts \<and>
    ps_upserts s' = ps_upserts s @ map (\<lambda>b. (CollectionName (pi_ProjectID input) (pi_VersionLabel input), b)) batches \<and>
    (\<forall>b \<in> set batches. length b \<le> 100) \<and>
    map pt_ID (concat batches) = map pipeline_formatUUID (chunk_ids new) \<and>
    map pt_Vector (concat batches) = vecs \<and>
    (texts \<noteq> [] \<longrightarrow> Embed (sv_client sv) (sv_post sv) texts = Some (Inr vecs)))"

lemma processFiles_stored:
  assumes "processFiles sv input s = Some (Inr (), s')"
  shows "stored sv input s s'"
proof -
  let ?col = "CollectionName (pi_ProjectID input) (pi_VersionLabel input)"
  let ?files = "ResolveImportTargets (pi_ParsedFiles input) (pi_AllFilePaths input) (go_module_path input)"
  obtain cs s1 where p: "write_files sv input (length ?files) 0 ?files [] s = (Inr cs, s1)"
    "embed_and_upsert sv input ?col (length ?files) cs s1 = Some (Inr (), s')"
    using assms by (auto simp: processFiles_def Let_def split: option.splits sum.splits prod.splits)
  obtain new where w: "a_rows (ps_db s1) = a_rows (ps_db s) @ new" "chunk_ids new = map ce_ChunkDBID cs"
    "map ce_Content cs = concat (map (\<lambda>f. map ch_Content (pf_Chunks f)) ?files)" "ps_upserts s1 = ps_upserts s"
    using write_files_Inr [OF p(1)] by auto
  have "map (\<lambda>f. map ch_Content (pf_Chunks f)) ?files = map (map ch_Content) (map pf_Chunks ?files)" by (simp add: comp_def)
  then have texts: "map ce_Content cs = concat (map (\<lambda>f. map ch_Content (pf_Chunks f)) (pi_ParsedFiles input))"
    using w(3) unfolding Resolve_chunks by (simp add: comp_def)
  show ?thesis
  proof (cases "cs = []")
    case True
    then have "s' = s1" using p(2) by (simp add: embed_and_upsert_def)
    then show ?thesis
      using w texts True unfolding stored_def by (intro exI [of _ new] exI [of _ "[]"] exI [of _ "[]"]) simp
  next
    case False
    then obtain vecs s2 where v: "Embed (sv_client sv) (sv_post sv) (map ce_Content cs) = Some (Inr vecs)" "length vecs = length cs"
      "upsert_loop sv ?col 0 (map2 (mk_point input) cs vecs) s1 = (Inr (), s2)" "ps_upserts s' = ps_upserts s2" "ps_db s' = ps_db s2"
      using p(2) by (auto simp: embed_and_upsert_def Let_def report_progress_frame split: option.splits sum.splits prod.splits if_splits)
    obtain batches where b: "s2 = s1\<lparr>ps_upserts := ps_upserts s1 @ map (\<lambda>b. (?col, b)) batches\<rparr>"
      "concat batches = map2 (mk_point input) cs vecs" "\<forall>b \<in> set batches. b \<noteq> [] \<and> length b \<le> vectorUpsertBatchSize"
      using upsert_loop_Inr [OF v(3)] by blast
    have "map pt_ID (concat batches) = map pipeline_formatUUID (chunk_ids new)" "map pt_Vector (concat batches) = vecs"
      using map2_mk_point [OF v(2), of input] b(2) w(2) by (simp_all add: comp_def)
    moreover have "length (chunk_ids new) = length (map ce_Content cs)" using w(2) by simp
    ultimately show ?thesis
      using v(1,4,5) b(1,3) w(1,4) unfolding texts [symmetric] stored_def
      by (intro exI [of _ new] exI [of _ batches] exI [of _ "map ce_Content cs"] exI [of _ vecs]) (simp add: vectorUpsertBatchSize_def)
  qed
qed

text \<open>C3: a run touches the snapshots only after it has stored a vector for every chunk: when
  the run changes them, the chunk rows it wrote are exactly those of the parsed files, in order,
  and the points stored in the collection of the version, in batches of at most 100, are exactly
  one per chunk row, under the id of the row, with the vector of its text.\<close>

theorem Run_activates_complete_snapshot:
  assumes "pipeline_Run sv now input s = Some (r, s')" "db_snaps (ps_jobs s') \<noteq> db_snaps (ps_jobs s)"
  shows "\<exists>new batches texts vecs. a_rows (ps_db s') = a_rows (ps_db s) @ new \<and>
    texts = concat (map (\<lambda>f. map ch_Content (pf_Chunks f)) (pi_ParsedFiles input)) \<and> length (chunk_ids new) = length texts \<and>
    ps_upserts s' = ps_upserts s @ map (\<lambda>b. (CollectionName (pi_ProjectID input) (pi_VersionLabel input), b)) batches \<and>
    (\<forall>b \<in> set batches. length b \<le> 100) \<and>
    map pt_ID (concat batches) = map pipeline_formatUUID (chunk_ids new) \<and>
    map pt_Vector (concat batches) = vecs \<and>
    (texts \<noteq> [] \<longrightarrow> Embed (sv_client sv) (sv_post sv) texts = Some (Inr vecs))"
proof -
  obtain s1 j where s1: "processFiles sv input s = Some (Inr (), s1)" "s' = s1\<lparr>ps_jobs := j\<rparr>"
    using assms processFiles_snaps [of sv input s "Inl _"]
    by (auto simp: pipeline_Run_def split: option.splits sum.splits prod.splits)
  then have "stored sv input s s'" using processFiles_stored [OF s1(1)] by (simp add: stored_def)
  then show ?thesis unfolding stored_def .
qed

definition ex_services :: "nat services" where
  "ex_services = \<lparr>sv_db = ex_env, sv_ensure = (\<lambda>_ _. None), sv_upsert = (\<lambda>_. None), sv_client = NewOllamaClient ''u'' ''m'' 1 0,
     sv_post = (\<lambda>k url req. Embeddings (map (\<lambda>t. [length t]) (er_Input req))), sv_progress = (\<lambda>_ _. NoFault),
     sv_activate = (\<lambda>_. NoFault), sv_pg_text = (\<lambda>_. ''error'')\<rparr>"

definition ex_input :: PipelineInput where
  "ex_input = \<lparr>pi_ProjectID = ex_uuid 2, pi_SnapshotID = ex_uuid 2, pi_JobID = ex_uuid 1, pi_Branch = ''main'', pi_GitCommit = ''c'',
     pi_VersionLabel = ''o-m-1'', pi_Dimensions = 1, pi_ParsedFiles = [ex_parsed], pi_FileContents = [''a.go'' \<mapsto> ''x''],
     pi_AllFilePaths = [], pi_GoModulePath = ''m''\<rparr>"

definition ex_state :: "nat pstate" where
  "ex_state = \<lparr>ps_db = \<lparr>a_rows = [], a_calls = 0\<rparr>, ps_jobs = ex_building, ps_upserts = []\<rparr>"

lemma ex_resolved: "ResolveImportTargets [ex_parsed] paths m = [ex_parsed]"
  by (simp add: ResolveImportTargets_def Let_def ex_parsed_def zero_ParsedFileResult_def)

lemma ex_embed: "Embed (NewOllamaClient ''u'' ''m'' 1 0) (\<lambda>k url req. Embeddings (map (\<lambda>t. [length t]) (er_Input req))) [''x''] = Some (Inr [[1]])"
  by (simp add: Embed_def embed_loop.simps embedBatch_def Let_def NewOllamaClient_def DefaultEmbedBatchSize_def truncate_text_def
      DefaultMaxInputChars_def first_mismatch_def i32_def)

lemma ex_written:
  "\<exists>cs s'. write_files ex_services ex_input 1 0 [ex_parsed] [] ex_state = (Inr cs, s') \<and> map ce_Content cs = [''x''] \<and> ps_jobs s' = snd (SetIndexingJobProgress (ex_uuid 1) 1 0 0 ex_building)"
proof -
  have d: "ps_db ex_state = \<lparr>a_rows = [], a_calls = 0\<rparr>" "sv_db ex_services = ex_env" by (simp_all add: ex_state_def ex_services_def)
  obtain res s1 where w: "WriteFile ex_env (ex_uuid 2) (ex_uuid 2) ex_parsed ''x'' \<lparr>a_rows = [], a_calls = 0\<rparr> = (Inr res, s1)"
    using ex_WriteFile by blast
  have "map ce_Content (wr_Chunks res) = [''x'']"
    using WriteFile_chunk_rows [OF w] by (auto simp: ex_parsed_def)
  then show ?thesis
    using w by (simp add: d Let_def ex_input_def) (simp add: ex_parsed_def zero_ParsedFileResult_def report_progress_def ex_services_def ex_state_def exec_query_def i32_def split: prod.split)
qed

lemma ex_upsert: "\<exists>s'. upsert_loop ex_services col 0 [p] s = (Inr (), s')"
  by (simp add: upsert_loop.simps ex_services_def Let_def vectorUpsertBatchSize_def)

lemma ex_processed: "\<exists>s'. processFiles ex_services ex_input ex_state = Some (Inr (), s')"
proof -
  obtain cs s1 where w: "write_files ex_services ex_input 1 0 [ex_parsed] [] ex_state = (Inr cs, s1)" "map ce_Content cs = [''x'']"
    using ex_written by (elim exE conjE)
  then obtain c where c: "cs = [c]" "ce_Content c = ''x''" by auto
  obtain s2 where "upsert_loop ex_services (CollectionName (ex_uuid 2) ''o-m-1'') 0 [mk_point ex_input c [1]] s1 = (Inr (), s2)"
    using ex_upsert by blast
  moreover have "Embed (sv_client ex_services) (sv_post ex_services) [''x''] = Some (Inr [[1]])"
    using ex_embed by (simp add: ex_services_def)
  moreover have "pi_ParsedFiles ex_input = [ex_parsed]" "pi_ProjectID ex_input = ex_uuid 2" "pi_VersionLabel ex_input = ''o-m-1''"
    "sv_ensure ex_services = (\<lambda>_ _. None)" by (simp_all add: ex_input_def ex_services_def)
  ultimately show ?thesis using w(1) c by (simp add: processFiles_def Let_def ex_resolved embed_and_upsert_def)
qed

lemma ex_run:
  "\<exists>s'. pipeline_Run ex_services 5 ex_input ex_state = Some (Inr (), s') \<and> db_snaps (ps_jobs s') \<noteq> db_snaps (ps_jobs ex_state)"
proof -
  obtain s1 where s1: "processFiles ex_services ex_input ex_state = Some (Inr (), s1)" using ex_processed by blast
  have sn: "db_snaps (ps_jobs s1) = db_snaps ex_building" using processFiles_snaps [OF s1] by (simp add: ex_state_def)
  let ?s2 = "ActivateSnapshot 5 (ex_uuid 2) (DeactivateActiveSnapshot (ex_uuid 2) ''main'' (ps_jobs s1))"
  have "ActivateSnapshotTx 5 (sv_activate ex_services) (pi_ProjectID ex_input) (pi_Branch ex_input) (pi_SnapshotID ex_input) (ps_jobs s1) = (Inr (), ?s2)"
    by (simp add: ActivateSnapshotTx_def execTx_def activate_body_def query_def ex_services_def ex_input_def)
  moreover have "db_snaps ?s2 \<noteq> db_snaps ex_building"
    by (simp add: ActivateSnapshot_def DeactivateActiveSnapshot_def update_rows_def sn ex_building_def ex_snap_def sql_eq_def ex_uuid_def)
  ultimately show ?thesis using s1 by (simp add: pipeline_Run_def ex_state_def)
qed

theorem Run_activates_complete_snapshot_witness:
  "\<exists>s'. pipeline_Run ex_services 5 ex_input ex_state = Some (Inr (), s') \<and>
     (\<exists>new. a_rows (ps_db s') = new \<and> length (chunk_ids new) = 1)"
proof -
  obtain s' where s': "pipeline_Run ex_services 5 ex_input ex_state = Some (Inr (), s')" "db_snaps (ps_jobs s') \<noteq> db_snaps (ps_jobs ex_state)"
    using ex_run by blast
  from Run_activates_complete_snapshot [OF s'] show ?thesis
    using s'(1) by (auto simp: ex_state_def ex_input_def ex_parsed_def)
qed

section \<open>Embedding versions\<close>

record EmbeddingConfig =
  ec_ID :: UUID
  ec_Provider :: string
  ec_EndpointURL :: string
  ec_Model :: string
  ec_Dimensions :: int
  ec_MaxTokens :: int

record EmbeddingVersion =
  ev_ID :: UUID
  ev_EmbeddingProviderConfigID :: UUID
  ev_Provider :: string
  ev_Model :: string
  ev_Dimensions :: int
  ev_VersionLabel :: string
  ev_CreatedAt :: "timestamp option"

text \<open>The label is unique in the table.\<close>

definition GetEmbeddingVersionByLabel :: "string \<Rightarrow> EmbeddingVersion list \<Rightarrow> EmbeddingVersion option" where
  "GetEmbeddingVersionByLabel lbl vs = List.find (\<lambda>v. ev_VersionLabel v = lbl) vs"

definition CreateEmbeddingVersion ::
  "UUID \<Rightarrow> timestamp \<Rightarrow> EmbeddingConfig \<Rightarrow> string \<Rightarrow> EmbeddingVersion list \<Rightarrow> db_error + EmbeddingVersion \<times> EmbeddingVersion list" where
  "CreateEmbeddingVersion fresh now cfg lbl vs =
     (if GetEmbeddingVersionByLabel lbl vs \<noteq> None then Inl Pg_Unique
      else let v = \<lparr>ev_ID = fresh, ev_EmbeddingProviderConfigID = ec_ID cfg, ev_Provider = ec_Provider cfg, ev_Model = ec_Model cfg,
                    ev_Dimensions = ec_Dimensions cfg, ev_VersionLabel = lbl, ev_CreatedAt = Some now\<rparr>
           in Inr (v, vs @ [v]))"

datatype version_error = VLookup string db_error | VCreate string db_error | VRetry string "db_error option"

text \<open>\<open>race\<close>: the versions other workers create between the lookup and the insertion. The two lookups have
  faults of their own.\<close>

definition ResolveVersion ::
  "UUID \<Rightarrow> timestamp \<Rightarrow> (nat \<Rightarrow> faults) \<Rightarrow> EmbeddingVersion list \<Rightarrow> EmbeddingConfig \<Rightarrow> EmbeddingVersion list \<Rightarrow>
   (version_error + EmbeddingVersion) \<times> EmbeddingVersion list" where
  "ResolveVersion fresh now fts race cfg vs =
     (let lbl = VersionLabel (ec_Provider cfg) (ec_Model cfg) (ec_Dimensions cfg)
      in case query (fts 0) ''GetEmbeddingVersionByLabel'' (Inr (GetEmbeddingVersionByLabel lbl vs)) of
           Inl e \<Rightarrow> (Inl (VLookup lbl e), vs)
         | Inr (Some ver) \<Rightarrow> (Inr ver, vs)
         | Inr None \<Rightarrow>
             (let vs1 = vs @ race
              in case exec_query (fts 0) ''CreateEmbeddingVersion'' (CreateEmbeddingVersion fresh now cfg lbl vs1) vs1 of
                   (Inr ver, vs2) \<Rightarrow> (Inr ver, vs2)
                 | (Inl e, vs2) \<Rightarrow>
                     if IsUniqueViolation e
                     then (case query (fts 1) ''GetEmbeddingVersionByLabel'' (Inr (GetEmbeddingVersionByLabel lbl vs2)) of
                             Inl e' \<Rightarrow> (Inl (VRetry lbl (Some e')), vs2)
                           | Inr None \<Rightarrow> (Inl (VRetry lbl None), vs2)
                           | Inr (Some ver) \<Rightarrow> (Inr ver, vs2))
                     else (Inl (VCreate lbl e), vs2)))"

definition labels_unique :: "EmbeddingVersion list \<Rightarrow> bool" where
  "labels_unique vs = distinct (map ev_VersionLabel vs)"

lemma GetEmbeddingVersionByLabel_Some:
  "labels_unique vs \<Longrightarrow> GetEmbeddingVersionByLabel lbl vs = Some v \<longleftrightarrow> v \<in> set vs \<and> ev_VersionLabel v = lbl"
proof (induction vs)
  case (Cons a vs)
  have "ev_VersionLabel w \<noteq> ev_VersionLabel a" if "w \<in> set vs" for w
    using Cons.prems that by (auto simp: labels_unique_def rev_image_eqI)
  moreover have "labels_unique vs" using Cons.prems by (simp add: labels_unique_def)
  ultimately show ?case using Cons.IH
    by (cases "ev_VersionLabel a = lbl") (simp_all add: GetEmbeddingVersionByLabel_def, blast+)
qed (simp add: GetEmbeddingVersionByLabel_def)

lemma GetEmbeddingVersionByLabel_None: "GetEmbeddingVersionByLabel lbl vs = None \<longleftrightarrow> lbl \<notin> ev_VersionLabel ` set vs"
  by (auto simp: GetEmbeddingVersionByLabel_def find_None_iff)

text \<open>Resolving the version of a configuration keeps the labels of the table unique and every row it had;
  on success the version returned is in the table and is the only one with the label of the
  configuration, also when another worker creates it between the lookup and the insertion.\<close>

theorem ResolveVersion_unique_row:
  assumes "labels_unique (vs @ race)" "ResolveVersion fresh now fts race cfg vs = (r, vs')"
  shows "labels_unique vs' \<and> set vs \<subseteq> set vs' \<and>
    (\<forall>ver. r = Inr ver \<longrightarrow> (\<forall>v. v \<in> set vs' \<and> ev_VersionLabel v = VersionLabel (ec_Provider cfg) (ec_Model cfg) (ec_Dimensions cfg) \<longleftrightarrow> v = ver))"
proof -
  let ?l = "VersionLabel (ec_Provider cfg) (ec_Model cfg) (ec_Dimensions cfg)"
  have u: "labels_unique vs" "labels_unique (vs @ race)" using assms(1) by (simp_all add: labels_unique_def)
  have new: "labels_unique vs2 \<and> ver \<in> set vs2 \<and> ev_VersionLabel ver = ?l \<and> set (vs @ race) \<subseteq> set vs2"
    if "CreateEmbeddingVersion fresh now cfg ?l (vs @ race) = Inr (ver, vs2)" for ver vs2
    using that u(2) GetEmbeddingVersionByLabel_None [of ?l "vs @ race"]
    by (auto simp: CreateEmbeddingVersion_def Let_def labels_unique_def split: if_splits)
  have "(vs' = vs \<and> (\<forall>ver. r = Inr ver \<longrightarrow> GetEmbeddingVersionByLabel ?l vs = Some ver)) \<or>
    (vs' = vs @ race \<and> (\<forall>ver. r = Inr ver \<longrightarrow> GetEmbeddingVersionByLabel ?l (vs @ race) = Some ver)) \<or>
    (\<exists>ver. CreateEmbeddingVersion fresh now cfg ?l (vs @ race) = Inr (ver, vs') \<and> (\<forall>v. r = Inr v \<longrightarrow> v = ver))"
  proof (cases "query (fts 0) ''GetEmbeddingVersionByLabel'' (Inr (GetEmbeddingVersionByLabel ?l vs))")
    case (Inr x)
    then have x: "x = GetEmbeddingVersionByLabel ?l vs" by (simp add: query_Inr)
    show ?thesis
    proof (cases x)
      case None
      show ?thesis
      proof (cases "CreateEmbeddingVersion fresh now cfg ?l (vs @ race)")
        case (Inl e)
        then show ?thesis
          using assms(2) None Inr by (auto simp: ResolveVersion_def Let_def exec_query_def query_Inr split: sum.splits option.splits if_splits)
      next
        case created: (Inr y)
        have "query (fts 0) ''CreateEmbeddingVersion'' (Inr (fst y)) \<noteq> Inl Pg_Unique"
          using query_cases [of "fts 0" "''CreateEmbeddingVersion''" "Inr (fst y)"] by auto
        then show ?thesis
          using assms(2) None Inr created
          by (cases y) (auto simp: ResolveVersion_def Let_def exec_query_def query_Inr IsUniqueViolation_def split: sum.splits if_splits)
      qed
    qed (use assms(2) Inr x in \<open>auto simp: ResolveVersion_def Let_def\<close>)
  qed (use assms(2) in \<open>auto simp: ResolveVersion_def Let_def\<close>)
  then consider (old) "vs' = vs" "\<forall>ver. r = Inr ver \<longrightarrow> GetEmbeddingVersionByLabel ?l vs = Some ver"
    | (race) "vs' = vs @ race" "\<forall>ver. r = Inr ver \<longrightarrow> GetEmbeddingVersionByLabel ?l (vs @ race) = Some ver"
    | (created) ver where "CreateEmbeddingVersion fresh now cfg ?l (vs @ race) = Inr (ver, vs')" "\<forall>v. r = Inr v \<longrightarrow> v = ver"
    by blast
  then show ?thesis
  proof cases
    case old
    then show ?thesis using u(1) GetEmbeddingVersionByLabel_Some [OF u(1)] by (metis option.inject order_refl)
  next
    case race
    then show ?thesis using u(2) GetEmbeddingVersionByLabel_Some [OF u(2)] by (metis option.inject set_append sup.cobounded1)
  next
    case created
    then show ?thesis
      using new [OF created(1)] GetEmbeddingVersionByLabel_Some [of vs' ?l] by (metis option.inject set_append sup.bounded_iff)
  qed
qed

definition ex_config :: "string \<Rightarrow> EmbeddingConfig" where
  "ex_config m = \<lparr>ec_ID = ex_uuid 4, ec_Provider = ''ollama'', ec_EndpointURL = ''u'', ec_Model = m, ec_Dimensions = 768, ec_MaxTokens = 0\<rparr>"

theorem ResolveVersion_unique_row_witness:
  "labels_unique (snd (ResolveVersion (ex_uuid 3) 5 (\<lambda>_ _. NoFault) [] (ex_config ''a/b'') []))"
  using ResolveVersion_unique_row [of "[]" "[]" "ex_uuid 3" 5 "\<lambda>_ _. NoFault" "ex_config ''a/b''"
      "fst (ResolveVersion (ex_uuid 3) 5 (\<lambda>_ _. NoFault) [] (ex_config ''a/b'') [])"
      "snd (ResolveVersion (ex_uuid 3) 5 (\<lambda>_ _. NoFault) [] (ex_config ''a/b'') [])"]
  by (simp add: labels_unique_def)

text \<open>The label does not identify the model: a slash and a hyphen in its name give the same label, so
  once a version exists for one of the two models, resolving the other one returns it, and both
  models share a collection.\<close>

theorem VersionLabel_conflates_models:
  assumes "GetEmbeddingVersionByLabel (VersionLabel (ec_Provider cfg) model (ec_Dimensions cfg)) vs = Some ver"
    and "ec_Model cfg = map (\<lambda>c. if c = CHR ''/'' then CHR ''-'' else c) model"
    and "fts 0 ''GetEmbeddingVersionByLabel'' = NoFault"
  shows "VersionLabel (ec_Provider cfg) (ec_Model cfg) (ec_Dimensions cfg) = VersionLabel (ec_Provider cfg) model (ec_Dimensions cfg) \<and>
    ResolveVersion fresh now fts race cfg vs = (Inr ver, vs)"
proof -
  have l: "VersionLabel (ec_Provider cfg) (ec_Model cfg) (ec_Dimensions cfg) = VersionLabel (ec_Provider cfg) model (ec_Dimensions cfg)"
    using assms(2) by (simp add: VersionLabel_def ReplaceAll_byte Let_def comp_def if_distrib cong: if_cong)
  then show ?thesis using assms(1,3) by (simp add: ResolveVersion_def Let_def query_def)
qed

definition ex_version :: "string \<Rightarrow> EmbeddingVersion" where
  "ex_version m = \<lparr>ev_ID = ex_uuid 3, ev_EmbeddingProviderConfigID = ex_uuid 4, ev_Provider = ''ollama'', ev_Model = m, ev_Dimensions = 768,
     ev_VersionLabel = VersionLabel ''ollama'' m 768, ev_CreatedAt = None\<rparr>"

theorem VersionLabel_conflates_models_witness:
  "ev_Model (ex_version ''jina/base'') \<noteq> ec_Model (ex_config ''jina-base'') \<and>
   ResolveVersion (ex_uuid 5) 5 (\<lambda>_ _. NoFault) [] (ex_config ''jina-base'') [ex_version ''jina/base''] =
     (Inr (ex_version ''jina/base''), [ex_version ''jina/base''])"
  using VersionLabel_conflates_models [of "ex_config ''jina-base''" "''jina/base''" "[ex_version ''jina/base'']" "ex_version ''jina/base''"
      "\<lambda>_ _. NoFault" "ex_uuid 5" 5 "[]"]
  by (simp add: ex_config_def ex_version_def GetEmbeddingVersionByLabel_def)

section \<open>Categories of errors\<close>

text \<open>The category is read off the text of the error, which contains the path of the file: the failure
  to store a file below a directory such as \<^verbatim>\<open>embedding/\<close> is reported as a failure of the embedding
  service (or of the vector database, for a path with one of its phrases), never as a failed write
  of artifacts.\<close>

theorem artifact_error_miscategorised:
  assumes "write_files sv input n i (parsed # files) cs s = (Inl e, s')" "pf_FilePath parsed = dir @ ''embed'' @ rest"
    and "WriteFile (sv_db sv) (pi_ProjectID input) (pi_SnapshotID input) parsed
           (case pi_FileContents input (pf_FilePath parsed) of Some t \<Rightarrow> t | None \<Rightarrow> []) (ps_db s) = (Inl e', d)"
  shows "categorizePipelineError e \<in> {''embedding'', ''vector_write''}"
proof -
  have "e = (''indexing: file '' @ show_nat (Suc i) @ ''/'' @ show_nat n @ '' '' @ dir) @ ''embed'' @ rest @ '': '' @ e'"
    using assms by (simp add: Let_def)
  then have "Contains e ''embed''" by (simp only: Contains_mid)
  then show ?thesis by (simp add: categorizePipelineError_def)
qed

definition ex_failing :: "nat services" where
  "ex_failing = ex_services\<lparr>sv_db := ex_env\<lparr>env_fail := (\<lambda>_. Some ''disk full'')\<rparr>\<rparr>"

theorem artifact_error_miscategorised_witness:
  "\<exists>e s'. write_files ex_failing ex_input 1 0 [ex_parsed\<lparr>pf_FilePath := ''embed.go''\<rparr>] [] ex_state = (Inl e, s') \<and>
     categorizePipelineError e \<in> {''embedding'', ''vector_write''}"
proof -
  obtain e' d where w: "WriteFile (sv_db ex_failing) (pi_ProjectID ex_input) (pi_SnapshotID ex_input) (ex_parsed\<lparr>pf_FilePath := ''embed.go''\<rparr>)
      (case pi_FileContents ex_input (pf_FilePath (ex_parsed\<lparr>pf_FilePath := ''embed.go''\<rparr>)) of Some t \<Rightarrow> t | None \<Rightarrow> []) (ps_db ex_state) = (Inl e', d)"
    by (simp add: WriteFile_def bind_err_def wrap_err_def UpsertFileContent_def insert_row_def ex_failing_def ex_services_def ex_env_def ex_state_def)
  then obtain e s' where "write_files ex_failing ex_input 1 0 [ex_parsed\<lparr>pf_FilePath := ''embed.go''\<rparr>] [] ex_state = (Inl e, s')"
    by (simp add: Let_def)
  then show ?thesis
    using artifact_error_miscategorised [OF _ _ w, of 1 0 "[]" "[]" e s' "[]" "''.go''"] by simp
qed

end
