(* ===== verification/Language_Registry.thy ===== *)
theory Language_Registry
  imports Go_Prelude
begin

text \<open>
  The languages the parser knows (\<^verbatim>\<open>src/backend-worker/internal/parser/registry/registry.go\<close> and
  \<^verbatim>\<open>languages.go\<close>): one record per language, the maps from extensions and file names to
  languages, and the detection of the language of a file. The record fields follow
  \<^verbatim>\<open>LanguageConfig\<close>; a set of strings is the list of its elements.
\<close>

section \<open>Languages\<close>

definition DocJSDoc :: string where
  "DocJSDoc = ''jsdoc''"

definition DocDocstring :: string where
  "DocDocstring = ''docstring''"

definition DocTripleSlash :: string where
  "DocTripleSlash = ''slashslashslash''"

definition DocXMLDoc :: string where
  "DocXMLDoc = ''xmldoc''"

definition DocHash :: string where
  "DocHash = ''hash''"

definition DocDoxygen :: string where
  "DocDoxygen = ''doxygen''"

definition DocNone :: string where
  "DocNone = ''none''"

record ExportStrategy =
  xs_Type :: string
  xs_Keyword :: string
  xs_Convention :: string
  xs_PrivatePrefix :: string

record LanguageConfig =
  lc_ID :: string
  lc_Tier :: nat
  lc_Extensions :: "string list"
  lc_Basenames :: "string list"
  lc_SymbolNodeTypes :: "(string \<times> string) list"
  lc_DocCommentStyle :: string
  lc_ImportNodeTypes :: "string list"
  lc_StdlibModules :: "string list"
  lc_StdlibPrefixes :: "string list"
  lc_InternalImportPatterns :: "string list"
  lc_Export :: ExportStrategy
  lc_BuiltinTypes :: "string list"
  lc_TestFilePatterns :: "string list"
  lc_ConfigFilePatterns :: "string list"
  lc_TestBlockPatterns :: "string list"
  lc_NestingNodeTypes :: "string list"
  lc_HasExplicitExports :: bool

definition lang_javascript :: LanguageConfig where
  "lang_javascript = \<lparr>lc_ID = ''javascript'', lc_Tier = 1,
     lc_Extensions = [''.js'', ''.mjs'', ''.cjs''], lc_Basenames = [],
     lc_SymbolNodeTypes = [(''function_declaration'', ''function''), (''arrow_function'', ''function''),
     (''class_declaration'', ''class''), (''method_definition'', ''method''),
     (''lexical_declaration'', ''variable''), (''variable_declaration'', ''variable'')],
     lc_DocCommentStyle = DocJSDoc, lc_ImportNodeTypes = [''import_statement'', ''call_expression''],
     lc_StdlibModules = [''fs'', ''path'', ''os'', ''util'', ''events'', ''stream'', ''http'', ''https'', ''url'', ''querystring'',
     ''crypto'', ''zlib'', ''buffer'', ''child_process'', ''cluster'', ''dgram'', ''dns'', ''net'', ''readline'',
     ''repl'', ''tls'', ''tty'', ''v8'', ''vm'', ''worker_threads'', ''perf_hooks'', ''async_hooks'',
     ''diagnostics_channel'', ''inspector'', ''trace_events'', ''wasi'', ''assert'', ''console'', ''process'',
     ''timers'', ''module''],
     lc_StdlibPrefixes = [''node:''], lc_InternalImportPatterns = [''./'', ''../''],
     lc_Export = \<lparr>xs_Type = ''keyword'', xs_Keyword = ''export'', xs_Convention = [], xs_PrivatePrefix = []\<rparr>,
     lc_BuiltinTypes = [''string'', ''number'', ''boolean'', ''void'', ''null'', ''undefined'', ''any'', ''never'', ''unknown'',
     ''object'', ''symbol'', ''bigint''],
     lc_TestFilePatterns = [''*.test.*'', ''*.spec.*'', ''**/__tests__/**''], lc_ConfigFilePatterns = [''*.config.*''],
     lc_TestBlockPatterns = [(''^'' @ [CHR 0x5C] @ ''s*(?:describe|it|test)'' @ [CHR 0x5C] @ ''s*'' @ [CHR 0x5C] @ ''('')],
     lc_NestingNodeTypes = [''if_statement'', ''for_statement'', ''for_in_statement'', ''while_statement'', ''do_statement'',
     ''try_statement'', ''switch_statement''],
     lc_HasExplicitExports = True\<rparr>"

definition lang_typescript :: LanguageConfig where
  "lang_typescript = \<lparr>lc_ID = ''typescript'', lc_Tier = 1,
     lc_Extensions = [''.ts''], lc_Basenames = [],
     lc_SymbolNodeTypes = [(''function_declaration'', ''function''), (''arrow_function'', ''function''),
     (''class_declaration'', ''class''), (''method_definition'', ''method''),
     (''interface_declaration'', ''interface''), (''type_alias_declaration'', ''type_alias''),
     (''enum_declaration'', ''enum''), (''lexical_declaration'', ''variable''),
     (''variable_declaration'', ''variable''), (''internal_module'', ''namespace'')],
     lc_DocCommentStyle = DocJSDoc, lc_ImportNodeTypes = [''import_statement'', ''call_expression''],
     lc_StdlibModules = [''fs'', ''path'', ''os'', ''util'', ''events'', ''stream'', ''http'', ''https'', ''url'', ''querystring'',
     ''crypto'', ''zlib'', ''buffer'', ''child_process'', ''cluster'', ''dgram'', ''dns'', ''net'', ''readline'',
     ''repl'', ''tls'', ''tty'', ''v8'', ''vm'', ''worker_threads'', ''perf_hooks'', ''async_hooks'',
     ''diagnostics_channel'', ''inspector'', ''trace_events'', ''wasi'', ''assert'', ''console'', ''process'',
     ''timers'', ''module''],
     lc_StdlibPrefixes = [''node:''], lc_InternalImportPatterns = [''./'', ''../''],
     lc_Export = \<lparr>xs_Type = ''keyword'', xs_Keyword = ''export'', xs_Convention = [], xs_PrivatePrefix = []\<rparr>,
     lc_BuiltinTypes = [''string'', ''number'', ''boolean'', ''void'', ''null'', ''undefined'', ''any'', ''never'', ''unknown'',
     ''object'', ''symbol'', ''bigint''],
     lc_TestFilePatterns = [''*.test.*'', ''*.spec.*'', ''**/__tests__/**''], lc_ConfigFilePatterns = [''*.config.*''],
     lc_TestBlockPatterns = [(''^'' @ [CHR 0x5C] @ ''s*(?:describe|it|test)'' @ [CHR 0x5C] @ ''s*'' @ [CHR 0x5C] @ ''('')],
     lc_NestingNodeTypes = [''if_statement'', ''for_statement'', ''for_in_statement'', ''while_statement'', ''do_statement'',
     ''try_statement'', ''switch_statement''],
     lc_HasExplicitExports = True\<rparr>"

definition lang_jsx :: LanguageConfig where
  "lang_jsx = \<lparr>lc_ID = ''jsx'', lc_Tier = 1,
     lc_Extensions = [''.jsx''], lc_Basenames = [],
     lc_SymbolNodeTypes = [(''function_declaration'', ''function''), (''arrow_function'', ''function''),
     (''class_declaration'', ''class''), (''method_definition'', ''method''),
     (''lexical_declaration'', ''variable''), (''variable_declaration'', ''variable'')],
     lc_DocCommentStyle = DocJSDoc, lc_ImportNodeTypes = [''import_statement'', ''call_expression''],
     lc_StdlibModules = [''fs'', ''path'', ''os'', ''util'', ''events'', ''stream'', ''http'', ''https'', ''url'', ''querystring'',
     ''crypto'', ''zlib'', ''buffer'', ''child_process'', ''cluster'', ''dgram'', ''dns'', ''net'', ''readline'',
     ''repl'', ''tls'', ''tty'', ''v8'', ''vm'', ''worker_threads'', ''perf_hooks'', ''async_hooks'',
     ''diagnostics_channel'', ''inspector'', ''trace_events'', ''wasi'', ''assert'', ''console'', ''process'',
     ''timers'', ''module''],
     lc_StdlibPrefixes = [''node:''], lc_InternalImportPatterns = [''./'', ''../''],
     lc_Export = \<lparr>xs_Type = ''keyword'', xs_Keyword = ''export'', xs_Convention = [], xs_PrivatePrefix = []\<rparr>,
     lc_BuiltinTypes = [''string'', ''number'', ''boolean'', ''void'', ''null'', ''undefined'', ''any'', ''never'', ''unknown'',
     ''object'', ''symbol'', ''bigint''],
     lc_TestFilePatterns = [''*.test.*'', ''*.spec.*'', ''**/__tests__/**''], lc_ConfigFilePatterns = [''*.config.*''],
     lc_TestBlockPatterns = [(''^'' @ [CHR 0x5C] @ ''s*(?:describe|it|test)'' @ [CHR 0x5C] @ ''s*'' @ [CHR 0x5C] @ ''('')],
     lc_NestingNodeTypes = [''if_statement'', ''for_statement'', ''for_in_statement'', ''while_statement'', ''do_statement'',
     ''try_statement'', ''switch_statement''],
     lc_HasExplicitExports = True\<rparr>"

definition lang_tsx :: LanguageConfig where
  "lang_tsx = \<lparr>lc_ID = ''tsx'', lc_Tier = 1,
     lc_Extensions = [''.tsx''], lc_Basenames = [],
     lc_SymbolNodeTypes = [(''function_declaration'', ''function''), (''arrow_function'', ''function''),
     (''class_declaration'', ''class''), (''method_definition'', ''method''),
     (''interface_declaration'', ''interface''), (''type_alias_declaration'', ''type_alias''),
     (''enum_declaration'', ''enum''), (''lexical_declaration'', ''variable''),
     (''variable_declaration'', ''variable''), (''internal_module'', ''namespace'')],
     lc_DocCommentStyle = DocJSDoc, lc_ImportNodeTypes = [''import_statement'', ''call_expression''],
     lc_StdlibModules = [''fs'', ''path'', ''os'', ''util'', ''events'', ''stream'', ''http'', ''https'', ''url'', ''querystring'',
     ''crypto'', ''zlib'', ''buffer'', ''child_process'', ''cluster'', ''dgram'', ''dns'', ''net'', ''readline'',
     ''repl'', ''tls'', ''tty'', ''v8'', ''vm'', ''worker_threads'', ''perf_hooks'', ''async_hooks'',
     ''diagnostics_channel'', ''inspector'', ''trace_events'', ''wasi'', ''assert'', ''console'', ''process'',
     ''timers'', ''module''],
     lc_StdlibPrefixes = [''node:''], lc_InternalImportPatterns = [''./'', ''../''],
     lc_Export = \<lparr>xs_Type = ''keyword'', xs_Keyword = ''export'', xs_Convention = [], xs_PrivatePrefix = []\<rparr>,
     lc_BuiltinTypes = [''string'', ''number'', ''boolean'', ''void'', ''null'', ''undefined'', ''any'', ''never'', ''unknown'',
     ''object'', ''symbol'', ''bigint''],
     lc_TestFilePatterns = [''*.test.*'', ''*.spec.*'', ''**/__tests__/**''], lc_ConfigFilePatterns = [''*.config.*''],
     lc_TestBlockPatterns = [(''^'' @ [CHR 0x5C] @ ''s*(?:describe|it|test)'' @ [CHR 0x5C] @ ''s*'' @ [CHR 0x5C] @ ''('')],
     lc_NestingNodeTypes = [''if_statement'', ''for_statement'', ''for_in_statement'', ''while_statement'', ''do_statement'',
     ''try_statement'', ''switch_statement''],
     lc_HasExplicitExports = True\<rparr>"

definition lang_python :: LanguageConfig where
  "lang_python = \<lparr>lc_ID = ''python'', lc_Tier = 1,
     lc_Extensions = [''.py'', ''.pyw'', ''.pyi''], lc_Basenames = [],
     lc_SymbolNodeTypes = [(''function_definition'', ''function''), (''class_definition'', ''class''),
     (''decorated_definition'', ''_unwrap''), (''assignment'', ''variable'')],
     lc_DocCommentStyle = DocDocstring, lc_ImportNodeTypes = [''import_statement'', ''import_from_statement''],
     lc_StdlibModules = [''sys'', ''os'', ''re'', ''json'', ''typing'', ''collections'', ''pathlib'', ''io'', ''math'', ''datetime'',
     ''logging'', ''unittest'', ''functools'', ''itertools'', ''abc'', ''argparse'', ''asyncio'', ''base64'',
     ''binascii'', ''bisect'', ''calendar'', ''codecs'', ''copy'', ''csv'', ''ctypes'', ''dataclasses'',
     ''decimal'', ''difflib'', ''email'', ''enum'', ''errno'', ''glob'', ''hashlib'', ''heapq'', ''hmac'',
     ''html'', ''http'', ''importlib'', ''inspect'', ''ipaddress'', ''locale'', ''marshal'', ''mimetypes'',
     ''multiprocessing'', ''operator'', ''pickle'', ''platform'', ''pprint'', ''queue'', ''random'', ''secrets'',
     ''select'', ''shelve'', ''shlex'', ''shutil'', ''signal'', ''socket'', ''sqlite3'', ''ssl'', ''stat'',
     ''string'', ''struct'', ''subprocess'', ''tempfile'', ''textwrap'', ''threading'', ''time'', ''timeit'',
     ''traceback'', ''types'', ''urllib'', ''uuid'', ''warnings'', ''weakref'', ''xml'', ''zipfile'', ''zlib''],
     lc_StdlibPrefixes = [], lc_InternalImportPatterns = [''.''],
     lc_Export = \<lparr>xs_Type = ''prefix'', xs_Keyword = [], xs_Convention = [], xs_PrivatePrefix = ''_''\<rparr>,
     lc_BuiltinTypes = [''int'', ''float'', ''str'', ''bool'', ''bytes'', ''list'', ''dict'', ''tuple'', ''set'', ''frozenset'',
     ''None'', ''object'', ''type'', ''complex'', ''range'', ''memoryview'', ''bytearray''],
     lc_TestFilePatterns = [''test_*.py'', ''*_test.py'', ''**/tests/**/*.py''], lc_ConfigFilePatterns = [''setup.py'', ''setup.cfg'', ''pyproject.toml'', ''requirements*.txt'', ''Pipfile'', ''tox.ini''],
     lc_TestBlockPatterns = [(''^'' @ [CHR 0x5C] @ ''s*def'' @ [CHR 0x5C] @ ''s+test_''),
     (''^'' @ [CHR 0x5C] @ ''s*class'' @ [CHR 0x5C] @ ''s+Test'')],
     lc_NestingNodeTypes = [''if_statement'', ''for_statement'', ''while_statement'', ''try_statement'', ''with_statement'',
     ''match_statement''],
     lc_HasExplicitExports = False\<rparr>"

definition lang_go :: LanguageConfig where
  "lang_go = \<lparr>lc_ID = ''go'', lc_Tier = 1,
     lc_Extensions = [''.go''], lc_Basenames = [],
     lc_SymbolNodeTypes = [(''function_declaration'', ''function''), (''method_declaration'', ''method''),
     (''type_declaration'', ''_unwrap''), (''type_spec'', ''_type_spec_dispatch''),
     (''type_alias'', ''type_alias''), (''const_declaration'', ''variable''), (''var_declaration'', ''variable'')],
     lc_DocCommentStyle = DocTripleSlash, lc_ImportNodeTypes = [''import_declaration''],
     lc_StdlibModules = [''fmt'', ''io'', ''io/fs'', ''os'', ''os/exec'', ''os/signal'', ''os/user'', ''bufio'', ''bytes'',
     ''strings'', ''strconv'', ''unicode'', ''unicode/utf8'', ''sort'', ''slices'', ''maps'', ''cmp'', ''iter'',
     ''container/heap'', ''container/list'', ''container/ring'', ''encoding'', ''encoding/json'',
     ''encoding/xml'', ''encoding/base64'', ''encoding/csv'', ''encoding/hex'', ''encoding/binary'',
     ''encoding/pem'', ''encoding/gob'', ''encoding/ascii85'', ''crypto'', ''crypto/sha256'', ''crypto/sha512'',
     ''crypto/md5'', ''crypto/tls'', ''crypto/x509'', ''crypto/rand'', ''crypto/aes'', ''crypto/hmac'',
     ''crypto/ecdsa'', ''crypto/ed25519'', ''crypto/rsa'', ''crypto/elliptic'', ''crypto/subtle'', ''net'',
     ''net/http'', ''net/http/httptest'', ''net/http/httputil'', ''net/url'', ''net/smtp'', ''net/rpc'',
     ''net/mail'', ''net/textproto'', ''sync'', ''sync/atomic'', ''context'', ''testing'', ''testing/fstest'',
     ''testing/iotest'', ''runtime'', ''runtime/debug'', ''runtime/pprof'', ''reflect'', ''unsafe'', ''embed'',
     ''log'', ''log/slog'', ''path'', ''path/filepath'', ''flag'', ''regexp'', ''text/template'',
     ''html/template'', ''text/scanner'', ''text/tabwriter'', ''math'', ''math/big'', ''math/rand'', ''hash'',
     ''hash/crc32'', ''hash/fnv'', ''time'', ''errors'', ''compress/gzip'', ''compress/zlib'', ''compress/flate'',
     ''archive/zip'', ''archive/tar'', ''database/sql'', ''database/sql/driver'', ''go/ast'', ''go/parser'',
     ''go/token'', ''go/format'', ''go/types'', ''go/build'', ''go/doc'', ''go/printer'', ''html'', ''mime'',
     ''mime/multipart'', ''expvar'', ''image'', ''image/png'', ''image/jpeg'', ''plugin'', ''debug/elf'',
     ''debug/dwarf''],
     lc_StdlibPrefixes = [], lc_InternalImportPatterns = [],
     lc_Export = \<lparr>xs_Type = ''convention'', xs_Keyword = [], xs_Convention = ''uppercase_first_letter'', xs_PrivatePrefix = []\<rparr>,
     lc_BuiltinTypes = [''int'', ''int8'', ''int16'', ''int32'', ''int64'', ''uint'', ''uint8'', ''uint16'', ''uint32'', ''uint64'',
     ''float32'', ''float64'', ''complex64'', ''complex128'', ''string'', ''bool'', ''byte'', ''rune'', ''error'',
     ''any'', ''comparable''],
     lc_TestFilePatterns = [''*_test.go''], lc_ConfigFilePatterns = [''go.mod'', ''go.sum''],
     lc_TestBlockPatterns = [(''^func'' @ [CHR 0x5C] @ ''s+Test[A-Z]''), (''^func'' @ [CHR 0x5C] @ ''s+Benchmark[A-Z]'')],
     lc_NestingNodeTypes = [''if_statement'', ''for_statement'', ''select_statement'', ''switch_statement'', ''type_switch_statement''],
     lc_HasExplicitExports = True\<rparr>"

definition lang_rust :: LanguageConfig where
  "lang_rust = \<lparr>lc_ID = ''rust'', lc_Tier = 1,
     lc_Extensions = [''.rs''], lc_Basenames = [],
     lc_SymbolNodeTypes = [(''function_item'', ''function''), (''struct_item'', ''class''), (''enum_item'', ''enum''),
     (''trait_item'', ''interface''), (''impl_item'', ''_recurse''), (''type_item'', ''type_alias''),
     (''const_item'', ''variable''), (''static_item'', ''variable''), (''let_declaration'', ''variable''),
     (''mod_item'', ''namespace''), (''macro_definition'', ''function'')],
     lc_DocCommentStyle = DocTripleSlash, lc_ImportNodeTypes = [''use_declaration''],
     lc_StdlibModules = [''std''],
     lc_StdlibPrefixes = [''std::''], lc_InternalImportPatterns = [''crate::'', ''super::'', ''self::''],
     lc_Export = \<lparr>xs_Type = ''keyword'', xs_Keyword = ''pub'', xs_Convention = [], xs_PrivatePrefix = []\<rparr>,
     lc_BuiltinTypes = [''i8'', ''i16'', ''i32'', ''i64'', ''i128'', ''isize'', ''u8'', ''u16'', ''u32'', ''u64'', ''u128'',
     ''usize'', ''f32'', ''f64'', ''bool'', ''char'', ''str'', ''String'', ''Vec'', ''Option'', ''Result'',
     ''Box'', ''Self''],
     lc_TestFilePatterns = [''**/tests/**/*.rs''], lc_ConfigFilePatterns = [''Cargo.toml'', ''Cargo.lock''],
     lc_TestBlockPatterns = [(''#'' @ [CHR 0x5C] @ ''[test'' @ [CHR 0x5C] @ '']''),
     (''#'' @ [CHR 0x5C] @ ''[cfg'' @ [CHR 0x5C] @ ''(test'' @ [CHR 0x5C] @ '')'' @ [CHR 0x5C] @ '']'')],
     lc_NestingNodeTypes = [''if_expression'', ''for_expression'', ''loop_expression'', ''while_expression'', ''match_expression''],
     lc_HasExplicitExports = True\<rparr>"

definition lang_java :: LanguageConfig where
  "lang_java = \<lparr>lc_ID = ''java'', lc_Tier = 1,
     lc_Extensions = [''.java''], lc_Basenames = [],
     lc_SymbolNodeTypes = [(''method_declaration'', ''method''), (''constructor_declaration'', ''method''),
     (''class_declaration'', ''class''), (''interface_declaration'', ''interface''),
     (''enum_declaration'', ''enum''), (''annotation_type_declaration'', ''interface''),
     (''field_declaration'', ''variable''), (''record_declaration'', ''class'')],
     lc_DocCommentStyle = DocJSDoc, lc_ImportNodeTypes = [''import_declaration''],
     lc_StdlibModules = [],
     lc_StdlibPrefixes = [''java.'', ''javax.''], lc_InternalImportPatterns = [],
     lc_Export = \<lparr>xs_Type = ''keyword'', xs_Keyword = ''public'', xs_Convention = [], xs_PrivatePrefix = []\<rparr>,
     lc_BuiltinTypes = [''int'', ''long'', ''short'', ''byte'', ''float'', ''double'', ''boolean'', ''char'', ''void'', ''String'',
     ''Object'', ''Integer'', ''Long'', ''Double'', ''Float'', ''Boolean'', ''Byte'', ''Short'', ''Character''],
     lc_TestFilePatterns = [''*Test.java'', ''*Tests.java'', ''**/src/test/**/*.java''], lc_ConfigFilePatterns = [''pom.xml'', ''build.gradle'', ''build.gradle.kts'', ''settings.gradle'', ''settings.gradle.kts''],
     lc_TestBlockPatterns = [''@Test'', ''@ParameterizedTest''],
     lc_NestingNodeTypes = [''if_statement'', ''for_statement'', ''enhanced_for_statement'', ''while_statement'', ''do_statement'',
     ''try_statement'', ''switch_expression''],
     lc_HasExplicitExports = True\<rparr>"

definition lang_kotlin :: LanguageConfig where
  "lang_kotlin = \<lparr>lc_ID = ''kotlin'', lc_Tier = 1,
     lc_Extensions = [''.kt'', ''.kts''], lc_Basenames = [],
     lc_SymbolNodeTypes = [(''function_declaration'', ''function''), (''class_declaration'', ''class''),
     (''object_declaration'', ''class''), (''interface_declaration'', ''interface''),
     (''property_declaration'', ''variable''), (''type_alias'', ''type_alias''),
     (''enum_class_body'', ''_recurse'')],
     lc_DocCommentStyle = DocJSDoc, lc_ImportNodeTypes = [''import_header''],
     lc_StdlibModules = [],
     lc_StdlibPrefixes = [''kotlin.'', ''kotlinx.''], lc_InternalImportPatterns = [],
     lc_Export = \<lparr>xs_Type = ''all_public'', xs_Keyword = [], xs_Convention = [], xs_PrivatePrefix = []\<rparr>,
     lc_BuiltinTypes = [''Int'', ''Long'', ''Short'', ''Byte'', ''Float'', ''Double'', ''Boolean'', ''Char'', ''String'', ''Unit'',
     ''Nothing'', ''Any''],
     lc_TestFilePatterns = [''*Test.kt'', ''*Tests.kt'', ''**/src/test/**/*.kt''], lc_ConfigFilePatterns = [''build.gradle.kts'', ''settings.gradle.kts''],
     lc_TestBlockPatterns = [''@Test''],
     lc_NestingNodeTypes = [''if_expression'', ''for_statement'', ''while_statement'', ''try_expression'', ''when_expression''],
     lc_HasExplicitExports = False\<rparr>"

definition lang_c :: LanguageConfig where
  "lang_c = \<lparr>lc_ID = ''c'', lc_Tier = 1,
     lc_Extensions = [''.c''], lc_Basenames = [],
     lc_SymbolNodeTypes = [(''function_definition'', ''function''), (''declaration'', ''_declaration_dispatch''),
     (''struct_specifier'', ''class''), (''enum_specifier'', ''enum''), (''union_specifier'', ''class''),
     (''type_definition'', ''type_alias'')],
     lc_DocCommentStyle = DocDoxygen, lc_ImportNodeTypes = [''preproc_include''],
     lc_StdlibModules = [''stdio.h'', ''stdlib.h'', ''string.h'', ''math.h'', ''ctype.h'', ''errno.h'', ''float.h'', ''limits.h'',
     ''locale.h'', ''setjmp.h'', ''signal.h'', ''stdarg.h'', ''stddef.h'', ''time.h'', ''assert.h'',
     ''stdbool.h'', ''stdint.h'', ''inttypes.h'', ''complex.h'', ''fenv.h'', ''tgmath.h'', ''wchar.h'',
     ''wctype.h'', ''threads.h'', ''stdatomic.h'', ''uchar.h'', ''unistd.h'', ''fcntl.h'', ''sys/types.h'',
     ''sys/stat.h'', ''pthread.h''],
     lc_StdlibPrefixes = [], lc_InternalImportPatterns = [[CHR 0x22]],
     lc_Export = \<lparr>xs_Type = ''all_public'', xs_Keyword = [], xs_Convention = [], xs_PrivatePrefix = []\<rparr>,
     lc_BuiltinTypes = [''int'', ''char'', ''float'', ''double'', ''void'', ''long'', ''short'', ''unsigned'', ''signed'',
     ''size_t'', ''ptrdiff_t'', ''bool'', ''_Bool''],
     lc_TestFilePatterns = [], lc_ConfigFilePatterns = [''Makefile'', ''CMakeLists.txt'', ''configure.ac'', ''meson.build''],
     lc_TestBlockPatterns = [],
     lc_NestingNodeTypes = [''if_statement'', ''for_statement'', ''while_statement'', ''do_statement'', ''switch_statement''],
     lc_HasExplicitExports = False\<rparr>"

definition lang_cpp :: LanguageConfig where
  "lang_cpp = \<lparr>lc_ID = ''cpp'', lc_Tier = 1,
     lc_Extensions = [''.cpp'', ''.cc'', ''.cxx'', ''.hpp'', ''.hxx'', ''.h''], lc_Basenames = [],
     lc_SymbolNodeTypes = [(''function_definition'', ''function''), (''declaration'', ''_declaration_dispatch''),
     (''class_specifier'', ''class''), (''struct_specifier'', ''class''), (''enum_specifier'', ''enum''),
     (''namespace_definition'', ''namespace''), (''template_declaration'', ''_unwrap''),
     (''type_definition'', ''type_alias''), (''alias_declaration'', ''type_alias'')],
     lc_DocCommentStyle = DocDoxygen, lc_ImportNodeTypes = [''preproc_include''],
     lc_StdlibModules = [''iostream'', ''vector'', ''string'', ''map'', ''unordered_map'', ''set'', ''unordered_set'', ''algorithm'',
     ''memory'', ''utility'', ''functional'', ''numeric'', ''array'', ''deque'', ''list'', ''queue'', ''stack'',
     ''tuple'', ''optional'', ''variant'', ''any'', ''filesystem'', ''chrono'', ''thread'', ''mutex'',
     ''condition_variable'', ''future'', ''regex'', ''random'', ''cmath'', ''cstdlib'', ''cstring'', ''cstdio'',
     ''cassert'', ''stdexcept'', ''typeinfo'', ''type_traits'', ''concepts'', ''ranges'', ''format'', ''span'',
     ''coroutine''],
     lc_StdlibPrefixes = [], lc_InternalImportPatterns = [[CHR 0x22]],
     lc_Export = \<lparr>xs_Type = ''all_public'', xs_Keyword = [], xs_Convention = [], xs_PrivatePrefix = []\<rparr>,
     lc_BuiltinTypes = [''int'', ''char'', ''float'', ''double'', ''void'', ''long'', ''short'', ''unsigned'', ''signed'', ''bool'',
     ''auto'', ''size_t'', ''nullptr_t'', ''wchar_t'', ''char8_t'', ''char16_t'', ''char32_t''],
     lc_TestFilePatterns = [''*_test.cpp'', ''*_test.cc'', ''*Test.cpp''], lc_ConfigFilePatterns = [''CMakeLists.txt'', ''Makefile'', ''meson.build'', ''conanfile.txt'', ''conanfile.py'', ''vcpkg.json''],
     lc_TestBlockPatterns = [],
     lc_NestingNodeTypes = [''if_statement'', ''for_statement'', ''for_range_loop'', ''while_statement'', ''do_statement'',
     ''switch_statement'', ''try_statement''],
     lc_HasExplicitExports = False\<rparr>"

definition lang_csharp :: LanguageConfig where
  "lang_csharp = \<lparr>lc_ID = ''csharp'', lc_Tier = 1,
     lc_Extensions = [''.cs''], lc_Basenames = [],
     lc_SymbolNodeTypes = [(''method_declaration'', ''method''), (''constructor_declaration'', ''method''),
     (''class_declaration'', ''class''), (''struct_declaration'', ''class''),
     (''interface_declaration'', ''interface''), (''enum_declaration'', ''enum''),
     (''namespace_declaration'', ''namespace''), (''property_declaration'', ''variable''),
     (''field_declaration'', ''variable''), (''record_declaration'', ''class''),
     (''delegate_declaration'', ''type_alias'')],
     lc_DocCommentStyle = DocXMLDoc, lc_ImportNodeTypes = [''using_directive''],
     lc_StdlibModules = [''System'', ''Microsoft''],
     lc_StdlibPrefixes = [''System.'', ''Microsoft.''], lc_InternalImportPatterns = [],
     lc_Export = \<lparr>xs_Type = ''keyword'', xs_Keyword = ''public'', xs_Convention = [], xs_PrivatePrefix = []\<rparr>,
     lc_BuiltinTypes = [''int'', ''long'', ''short'', ''byte'', ''float'', ''double'', ''decimal'', ''bool'', ''char'', ''string'',
     ''object'', ''void'', ''dynamic'', ''var'', ''nint'', ''nuint''],
     lc_TestFilePatterns = [''*Test.cs'', ''*Tests.cs'', ''**/*Test*/**/*.cs''], lc_ConfigFilePatterns = [''*.csproj'', ''*.sln'', ''Directory.Build.props'', ''nuget.config''],
     lc_TestBlockPatterns = [([CHR 0x5C] @ ''[Test'' @ [CHR 0x5C] @ '']''), ([CHR 0x5C] @ ''[Fact'' @ [CHR 0x5C] @ '']''),
     ([CHR 0x5C] @ ''[Theory'' @ [CHR 0x5C] @ '']'')],
     lc_NestingNodeTypes = [''if_statement'', ''for_statement'', ''foreach_statement'', ''while_statement'', ''do_statement'',
     ''try_statement'', ''switch_statement'', ''switch_expression''],
     lc_HasExplicitExports = True\<rparr>"

definition lang_swift :: LanguageConfig where
  "lang_swift = \<lparr>lc_ID = ''swift'', lc_Tier = 1,
     lc_Extensions = [''.swift''], lc_Basenames = [],
     lc_SymbolNodeTypes = [(''function_declaration'', ''function''), (''class_declaration'', ''class''),
     (''struct_declaration'', ''class''), (''protocol_declaration'', ''interface''),
     (''enum_declaration'', ''enum''), (''typealias_declaration'', ''type_alias''),
     (''variable_declaration'', ''variable''), (''init_declaration'', ''method'')],
     lc_DocCommentStyle = DocTripleSlash, lc_ImportNodeTypes = [''import_declaration''],
     lc_StdlibModules = [''Foundation'', ''UIKit'', ''SwiftUI'', ''Combine'', ''CoreData'', ''CoreGraphics'', ''CoreLocation'',
     ''MapKit'', ''AVFoundation'', ''XCTest'', ''os'', ''Darwin''],
     lc_StdlibPrefixes = [], lc_InternalImportPatterns = [],
     lc_Export = \<lparr>xs_Type = ''keyword'', xs_Keyword = ''public'', xs_Convention = [], xs_PrivatePrefix = []\<rparr>,
     lc_BuiltinTypes = [''Int'', ''Int8'', ''Int16'', ''Int32'', ''Int64'', ''UInt'', ''UInt8'', ''UInt16'', ''UInt32'', ''UInt64'',
     ''Float'', ''Double'', ''Bool'', ''String'', ''Character'', ''Void'', ''Any'', ''AnyObject'', ''Never'',
     ''Optional'', ''Array'', ''Dictionary'', ''Set''],
     lc_TestFilePatterns = [''*Tests.swift'', ''**/*Tests/**/*.swift''], lc_ConfigFilePatterns = [''Package.swift''],
     lc_TestBlockPatterns = [(''func'' @ [CHR 0x5C] @ ''s+test[A-Z]'')],
     lc_NestingNodeTypes = [''if_statement'', ''for_statement'', ''while_statement'', ''guard_statement'', ''switch_statement'',
     ''do_statement''],
     lc_HasExplicitExports = True\<rparr>"

definition lang_ruby :: LanguageConfig where
  "lang_ruby = \<lparr>lc_ID = ''ruby'', lc_Tier = 1,
     lc_Extensions = [''.rb'', ''.rake'', ''.gemspec''], lc_Basenames = [''Gemfile'', ''Rakefile''],
     lc_SymbolNodeTypes = [(''method'', ''function''), (''singleton_method'', ''function''), (''class'', ''class''),
     (''module'', ''namespace''), (''assignment'', ''variable'')],
     lc_DocCommentStyle = DocHash, lc_ImportNodeTypes = [''call''],
     lc_StdlibModules = [''json'', ''net/http'', ''fileutils'', ''csv'', ''yaml'', ''set'', ''ostruct'', ''open-uri'', ''uri'',
     ''digest'', ''base64'', ''date'', ''time'', ''pathname'', ''tempfile'', ''logger'', ''socket'', ''openssl'',
     ''erb'', ''cgi'', ''webrick'', ''optparse'', ''benchmark'', ''singleton'', ''forwardable'', ''delegate'',
     ''observer'', ''pp'', ''English'', ''abbrev'', ''strscan''],
     lc_StdlibPrefixes = [], lc_InternalImportPatterns = [''./''],
     lc_Export = \<lparr>xs_Type = ''all_public'', xs_Keyword = [], xs_Convention = [], xs_PrivatePrefix = []\<rparr>,
     lc_BuiltinTypes = [''Integer'', ''Float'', ''String'', ''Symbol'', ''Array'', ''Hash'', ''NilClass'', ''TrueClass'',
     ''FalseClass'', ''Object'', ''BasicObject'', ''Kernel'', ''Comparable'', ''Enumerable''],
     lc_TestFilePatterns = [''*_spec.rb'', ''*_test.rb'', ''**/spec/**/*.rb'', ''**/test/**/*.rb''], lc_ConfigFilePatterns = [''Gemfile'', ''Rakefile'', ''*.gemspec''],
     lc_TestBlockPatterns = [(''^'' @ [CHR 0x5C] @ ''s*(?:describe|it|context|specify)'' @ [CHR 0x5C] @ ''s''),
     (''^'' @ [CHR 0x5C] @ ''s*def'' @ [CHR 0x5C] @ ''s+test_'')],
     lc_NestingNodeTypes = [''if'', ''unless'', ''while'', ''until'', ''for'', ''begin'', ''case''],
     lc_HasExplicitExports = False\<rparr>"

definition lang_php :: LanguageConfig where
  "lang_php = \<lparr>lc_ID = ''php'', lc_Tier = 1,
     lc_Extensions = [''.php''], lc_Basenames = [],
     lc_SymbolNodeTypes = [(''function_definition'', ''function''), (''method_declaration'', ''method''),
     (''class_declaration'', ''class''), (''interface_declaration'', ''interface''),
     (''trait_declaration'', ''interface''), (''enum_declaration'', ''enum''),
     (''property_declaration'', ''variable''), (''const_declaration'', ''variable''),
     (''namespace_definition'', ''namespace'')],
     lc_DocCommentStyle = DocJSDoc, lc_ImportNodeTypes = [''namespace_use_declaration'', ''include_expression'', ''include_once_expression'', ''require_expression'',
     ''require_once_expression''],
     lc_StdlibModules = [],
     lc_StdlibPrefixes = [], lc_InternalImportPatterns = [],
     lc_Export = \<lparr>xs_Type = ''keyword'', xs_Keyword = ''public'', xs_Convention = [], xs_PrivatePrefix = []\<rparr>,
     lc_BuiltinTypes = [''int'', ''float'', ''string'', ''bool'', ''array'', ''object'', ''null'', ''void'', ''mixed'', ''never'',
     ''callable'', ''iterable'', ''self'', ''static'', ''parent''],
     lc_TestFilePatterns = [''*Test.php'', ''**/tests/**/*.php''], lc_ConfigFilePatterns = [''composer.json'', ''composer.lock'', ''phpunit.xml'', ''php.ini''],
     lc_TestBlockPatterns = [''@test'', (''public'' @ [CHR 0x5C] @ ''s+function'' @ [CHR 0x5C] @ ''s+test[A-Z]'')],
     lc_NestingNodeTypes = [''if_statement'', ''for_statement'', ''foreach_statement'', ''while_statement'', ''do_statement'',
     ''try_statement'', ''switch_statement''],
     lc_HasExplicitExports = True\<rparr>"

definition lang_bash :: LanguageConfig where
  "lang_bash = \<lparr>lc_ID = ''bash'', lc_Tier = 2,
     lc_Extensions = [''.sh'', ''.bash'', ''.zsh''], lc_Basenames = [''.bashrc'', ''.zshrc'', ''.bash_profile'', ''.profile''],
     lc_SymbolNodeTypes = [(''function_definition'', ''function''), (''variable_assignment'', ''variable'')],
     lc_DocCommentStyle = DocHash, lc_ImportNodeTypes = [''command''],
     lc_StdlibModules = [],
     lc_StdlibPrefixes = [], lc_InternalImportPatterns = [''./'', ''../''],
     lc_Export = \<lparr>xs_Type = ''none'', xs_Keyword = [], xs_Convention = [], xs_PrivatePrefix = []\<rparr>,
     lc_BuiltinTypes = [],
     lc_TestFilePatterns = [''*.bats'', ''test_*.sh''], lc_ConfigFilePatterns = [''.bashrc'', ''.zshrc'', ''.bash_profile''],
     lc_TestBlockPatterns = [],
     lc_NestingNodeTypes = [''if_statement'', ''for_statement'', ''while_statement'', ''case_statement''],
     lc_HasExplicitExports = False\<rparr>"

definition lang_sql :: LanguageConfig where
  "lang_sql = \<lparr>lc_ID = ''sql'', lc_Tier = 2,
     lc_Extensions = [''.sql''], lc_Basenames = [],
     lc_SymbolNodeTypes = [(''create_table_statement'', ''class''), (''create_function_statement'', ''function''),
     (''create_procedure_statement'', ''function''), (''create_view_statement'', ''variable''),
     (''create_index_statement'', ''variable''), (''create_type_statement'', ''type_alias'')],
     lc_DocCommentStyle = DocNone, lc_ImportNodeTypes = [],
     lc_StdlibModules = [],
     lc_StdlibPrefixes = [], lc_InternalImportPatterns = [],
     lc_Export = \<lparr>xs_Type = ''none'', xs_Keyword = [], xs_Convention = [], xs_PrivatePrefix = []\<rparr>,
     lc_BuiltinTypes = [''INTEGER'', ''TEXT'', ''REAL'', ''BLOB'', ''NULL'', ''VARCHAR'', ''BOOLEAN'', ''DATE'', ''TIMESTAMP'',
     ''BIGINT'', ''SMALLINT'', ''DECIMAL'', ''NUMERIC'', ''FLOAT'', ''DOUBLE'', ''CHAR'', ''UUID'', ''SERIAL'',
     ''JSON'', ''JSONB'', ''BYTEA'', ''ARRAY''],
     lc_TestFilePatterns = [], lc_ConfigFilePatterns = [],
     lc_TestBlockPatterns = [],
     lc_NestingNodeTypes = [''if_statement'', ''case_expression''],
     lc_HasExplicitExports = False\<rparr>"

definition lang_graphql :: LanguageConfig where
  "lang_graphql = \<lparr>lc_ID = ''graphql'', lc_Tier = 2,
     lc_Extensions = [''.graphql'', ''.gql''], lc_Basenames = [],
     lc_SymbolNodeTypes = [(''type_definition'', ''class''), (''input_type_definition'', ''class''),
     (''interface_type_definition'', ''interface''), (''enum_type_definition'', ''enum''),
     (''union_type_definition'', ''type_alias''), (''scalar_type_definition'', ''type_alias''),
     (''field_definition'', ''variable''), (''operation_definition'', ''function'')],
     lc_DocCommentStyle = DocNone, lc_ImportNodeTypes = [],
     lc_StdlibModules = [],
     lc_StdlibPrefixes = [], lc_InternalImportPatterns = [],
     lc_Export = \<lparr>xs_Type = ''none'', xs_Keyword = [], xs_Convention = [], xs_PrivatePrefix = []\<rparr>,
     lc_BuiltinTypes = [''String'', ''Int'', ''Float'', ''Boolean'', ''ID''],
     lc_TestFilePatterns = [], lc_ConfigFilePatterns = [],
     lc_TestBlockPatterns = [],
     lc_NestingNodeTypes = [],
     lc_HasExplicitExports = False\<rparr>"

definition lang_dockerfile :: LanguageConfig where
  "lang_dockerfile = \<lparr>lc_ID = ''dockerfile'', lc_Tier = 2,
     lc_Extensions = [''.dockerfile''], lc_Basenames = [''Dockerfile''],
     lc_SymbolNodeTypes = [(''from_instruction'', ''variable''), (''arg_instruction'', ''variable''),
     (''env_instruction'', ''variable''), (''label_instruction'', ''variable'')],
     lc_DocCommentStyle = DocHash, lc_ImportNodeTypes = [''from_instruction''],
     lc_StdlibModules = [],
     lc_StdlibPrefixes = [], lc_InternalImportPatterns = [],
     lc_Export = \<lparr>xs_Type = ''none'', xs_Keyword = [], xs_Convention = [], xs_PrivatePrefix = []\<rparr>,
     lc_BuiltinTypes = [],
     lc_TestFilePatterns = [], lc_ConfigFilePatterns = [''Dockerfile'', ''Dockerfile.*'', ''*.dockerfile''],
     lc_TestBlockPatterns = [],
     lc_NestingNodeTypes = [],
     lc_HasExplicitExports = False\<rparr>"

definition lang_hcl :: LanguageConfig where
  "lang_hcl = \<lparr>lc_ID = ''hcl'', lc_Tier = 2,
     lc_Extensions = [''.tf'', ''.tfvars'', ''.tofu''], lc_Basenames = [],
     lc_SymbolNodeTypes = [(''block'', ''variable'')],
     lc_DocCommentStyle = DocHash, lc_ImportNodeTypes = [''block''],
     lc_StdlibModules = [],
     lc_StdlibPrefixes = [], lc_InternalImportPatterns = [''./'', ''../''],
     lc_Export = \<lparr>xs_Type = ''none'', xs_Keyword = [], xs_Convention = [], xs_PrivatePrefix = []\<rparr>,
     lc_BuiltinTypes = [],
     lc_TestFilePatterns = [], lc_ConfigFilePatterns = [''*.tf'', ''*.tfvars'', ''*.tofu'', ''terraform.tfvars'', ''*.auto.tfvars''],
     lc_TestBlockPatterns = [],
     lc_NestingNodeTypes = [''block''],
     lc_HasExplicitExports = False\<rparr>"

definition lang_html :: LanguageConfig where
  "lang_html = \<lparr>lc_ID = ''html'', lc_Tier = 3,
     lc_Extensions = [''.html'', ''.htm''], lc_Basenames = [],
     lc_SymbolNodeTypes = [(''element'', ''_element_dispatch'')],
     lc_DocCommentStyle = DocNone, lc_ImportNodeTypes = [''element''],
     lc_StdlibModules = [],
     lc_StdlibPrefixes = [], lc_InternalImportPatterns = [''./'', ''../''],
     lc_Export = \<lparr>xs_Type = ''none'', xs_Keyword = [], xs_Convention = [], xs_PrivatePrefix = []\<rparr>,
     lc_BuiltinTypes = [],
     lc_TestFilePatterns = [], lc_ConfigFilePatterns = [],
     lc_TestBlockPatterns = [],
     lc_NestingNodeTypes = [],
     lc_HasExplicitExports = False\<rparr>"

definition lang_css :: LanguageConfig where
  "lang_css = \<lparr>lc_ID = ''css'', lc_Tier = 3,
     lc_Extensions = [''.css''], lc_Basenames = [],
     lc_SymbolNodeTypes = [(''rule_set'', ''variable''), (''keyframes_statement'', ''function''), (''media_statement'', ''namespace'')],
     lc_DocCommentStyle = DocNone, lc_ImportNodeTypes = [''import_statement''],
     lc_StdlibModules = [],
     lc_StdlibPrefixes = [], lc_InternalImportPatterns = [''./'', ''../''],
     lc_Export = \<lparr>xs_Type = ''none'', xs_Keyword = [], xs_Convention = [], xs_PrivatePrefix = []\<rparr>,
     lc_BuiltinTypes = [],
     lc_TestFilePatterns = [], lc_ConfigFilePatterns = [],
     lc_TestBlockPatterns = [],
     lc_NestingNodeTypes = [''media_statement''],
     lc_HasExplicitExports = False\<rparr>"

definition lang_scss :: LanguageConfig where
  "lang_scss = \<lparr>lc_ID = ''scss'', lc_Tier = 3,
     lc_Extensions = [''.scss''], lc_Basenames = [],
     lc_SymbolNodeTypes = [(''rule_set'', ''variable''), (''keyframes_statement'', ''function''), (''media_statement'', ''namespace'')],
     lc_DocCommentStyle = DocNone, lc_ImportNodeTypes = [''import_statement''],
     lc_StdlibModules = [],
     lc_StdlibPrefixes = [], lc_InternalImportPatterns = [''./'', ''../''],
     lc_Export = \<lparr>xs_Type = ''none'', xs_Keyword = [], xs_Convention = [], xs_PrivatePrefix = []\<rparr>,
     lc_BuiltinTypes = [],
     lc_TestFilePatterns = [], lc_ConfigFilePatterns = [],
     lc_TestBlockPatterns = [],
     lc_NestingNodeTypes = [''media_statement''],
     lc_HasExplicitExports = False\<rparr>"

definition lang_json :: LanguageConfig where
  "lang_json = \<lparr>lc_ID = ''json'', lc_Tier = 3,
     lc_Extensions = [''.json'', ''.jsonc''], lc_Basenames = [],
     lc_SymbolNodeTypes = [(''pair'', ''variable'')],
     lc_DocCommentStyle = DocNone, lc_ImportNodeTypes = [],
     lc_StdlibModules = [],
     lc_StdlibPrefixes = [], lc_InternalImportPatterns = [],
     lc_Export = \<lparr>xs_Type = ''none'', xs_Keyword = [], xs_Convention = [], xs_PrivatePrefix = []\<rparr>,
     lc_BuiltinTypes = [],
     lc_TestFilePatterns = [], lc_ConfigFilePatterns = [''package.json'', ''tsconfig.json'', ''composer.json'', ''.eslintrc.json''],
     lc_TestBlockPatterns = [],
     lc_NestingNodeTypes = [],
     lc_HasExplicitExports = False\<rparr>"

definition lang_yaml :: LanguageConfig where
  "lang_yaml = \<lparr>lc_ID = ''yaml'', lc_Tier = 3,
     lc_Extensions = [''.yaml'', ''.yml''], lc_Basenames = [],
     lc_SymbolNodeTypes = [(''block_mapping_pair'', ''variable'')],
     lc_DocCommentStyle = DocNone, lc_ImportNodeTypes = [],
     lc_StdlibModules = [],
     lc_StdlibPrefixes = [], lc_InternalImportPatterns = [],
     lc_Export = \<lparr>xs_Type = ''none'', xs_Keyword = [], xs_Convention = [], xs_PrivatePrefix = []\<rparr>,
     lc_BuiltinTypes = [],
     lc_TestFilePatterns = [], lc_ConfigFilePatterns = [],
     lc_TestBlockPatterns = [],
     lc_NestingNodeTypes = [],
     lc_HasExplicitExports = False\<rparr>"

definition lang_toml :: LanguageConfig where
  "lang_toml = \<lparr>lc_ID = ''toml'', lc_Tier = 3,
     lc_Extensions = [''.toml''], lc_Basenames = [],
     lc_SymbolNodeTypes = [(''pair'', ''variable''), (''table'', ''namespace'')],
     lc_DocCommentStyle = DocNone, lc_ImportNodeTypes = [],
     lc_StdlibModules = [],
     lc_StdlibPrefixes = [], lc_InternalImportPatterns = [],
     lc_Export = \<lparr>xs_Type = ''none'', xs_Keyword = [], xs_Convention = [], xs_PrivatePrefix = []\<rparr>,
     lc_BuiltinTypes = [],
     lc_TestFilePatterns = [], lc_ConfigFilePatterns = [],
     lc_TestBlockPatterns = [],
     lc_NestingNodeTypes = [],
     lc_HasExplicitExports = False\<rparr>"

definition lang_markdown :: LanguageConfig where
  "lang_markdown = \<lparr>lc_ID = ''markdown'', lc_Tier = 3,
     lc_Extensions = [''.md'', ''.markdown'', ''.mdx''], lc_Basenames = [],
     lc_SymbolNodeTypes = [(''atx_heading'', ''function''), (''setext_heading'', ''function'')],
     lc_DocCommentStyle = DocNone, lc_ImportNodeTypes = [''inline_link''],
     lc_StdlibModules = [],
     lc_StdlibPrefixes = [], lc_InternalImportPatterns = [''./'', ''../''],
     lc_Export = \<lparr>xs_Type = ''none'', xs_Keyword = [], xs_Convention = [], xs_PrivatePrefix = []\<rparr>,
     lc_BuiltinTypes = [],
     lc_TestFilePatterns = [], lc_ConfigFilePatterns = [],
     lc_TestBlockPatterns = [],
     lc_NestingNodeTypes = [],
     lc_HasExplicitExports = False\<rparr>"

definition lang_xml :: LanguageConfig where
  "lang_xml = \<lparr>lc_ID = ''xml'', lc_Tier = 3,
     lc_Extensions = [''.xml'', ''.svg'', ''.xsl'', ''.xsd'', ''.plist''], lc_Basenames = [],
     lc_SymbolNodeTypes = [(''element'', ''variable'')],
     lc_DocCommentStyle = DocNone, lc_ImportNodeTypes = [],
     lc_StdlibModules = [],
     lc_StdlibPrefixes = [], lc_InternalImportPatterns = [],
     lc_Export = \<lparr>xs_Type = ''none'', xs_Keyword = [], xs_Convention = [], xs_PrivatePrefix = []\<rparr>,
     lc_BuiltinTypes = [],
     lc_TestFilePatterns = [], lc_ConfigFilePatterns = [''pom.xml'', ''web.xml'', ''AndroidManifest.xml'', ''*.csproj''],
     lc_TestBlockPatterns = [],
     lc_NestingNodeTypes = [],
     lc_HasExplicitExports = False\<rparr>"

definition languages :: "(string \<times> LanguageConfig) list" where
  "languages = [(''javascript'', lang_javascript), (''typescript'', lang_typescript), (''jsx'', lang_jsx),
     (''tsx'', lang_tsx), (''python'', lang_python), (''go'', lang_go), (''rust'', lang_rust),
     (''java'', lang_java), (''kotlin'', lang_kotlin), (''c'', lang_c), (''cpp'', lang_cpp),
     (''csharp'', lang_csharp), (''swift'', lang_swift), (''ruby'', lang_ruby), (''php'', lang_php),
     (''bash'', lang_bash), (''sql'', lang_sql), (''graphql'', lang_graphql), (''dockerfile'', lang_dockerfile),
     (''hcl'', lang_hcl), (''html'', lang_html), (''css'', lang_css), (''scss'', lang_scss),
     (''json'', lang_json), (''yaml'', lang_yaml), (''toml'', lang_toml), (''markdown'', lang_markdown),
     (''xml'', lang_xml)]"

section \<open>Extensions and file names\<close>

definition extensionMap :: "(string \<times> string) list" where
  "extensionMap =
     [(''.ts'', ''typescript''), (''.tsx'', ''tsx''), (''.js'', ''javascript''), (''.mjs'', ''javascript''),
     (''.cjs'', ''javascript''), (''.jsx'', ''jsx''), (''.py'', ''python''), (''.pyw'', ''python''),
     (''.pyi'', ''python''), (''.go'', ''go''), (''.rs'', ''rust''), (''.java'', ''java''), (''.kt'', ''kotlin''),
     (''.kts'', ''kotlin''), (''.c'', ''c''), (''.h'', ''cpp''), (''.cpp'', ''cpp''), (''.cc'', ''cpp''),
     (''.cxx'', ''cpp''), (''.hpp'', ''cpp''), (''.hxx'', ''cpp''), (''.cs'', ''csharp''),
     (''.swift'', ''swift''), (''.rb'', ''ruby''), (''.rake'', ''ruby''), (''.gemspec'', ''ruby''),
     (''.php'', ''php''), (''.html'', ''html''), (''.htm'', ''html''), (''.css'', ''css''), (''.scss'', ''scss''),
     (''.json'', ''json''), (''.jsonc'', ''json''), (''.yaml'', ''yaml''), (''.yml'', ''yaml''),
     (''.toml'', ''toml''), (''.md'', ''markdown''), (''.markdown'', ''markdown''), (''.mdx'', ''markdown''),
     (''.xml'', ''xml''), (''.svg'', ''xml''), (''.xsl'', ''xml''), (''.xsd'', ''xml''), (''.plist'', ''xml''),
     (''.sh'', ''bash''), (''.bash'', ''bash''), (''.zsh'', ''bash''), (''.dockerfile'', ''dockerfile''),
     (''.sql'', ''sql''), (''.graphql'', ''graphql''), (''.gql'', ''graphql''), (''.tf'', ''hcl''),
     (''.tfvars'', ''hcl''), (''.tofu'', ''hcl'')]"

definition basenameMap :: "(string \<times> string) list" where
  "basenameMap =
     [(''Dockerfile'', ''dockerfile''), (''Gemfile'', ''ruby''), (''Rakefile'', ''ruby''),
     (''Makefile'', ''bash''), (''.bashrc'', ''bash''), (''.zshrc'', ''bash''), (''.bash_profile'', ''bash''),
     (''.profile'', ''bash'')]"

text \<open>A key of the maps is plain lower-case ASCII. Beyond ASCII, lower-casing yields an ASCII letter only for
  the Kelvin sign and the dotted capital I; the bytes of other sequences stay above ASCII and
  cannot make a key, so they are left as they are.\<close>

fun lower_key :: "string \<Rightarrow> string" where
  "lower_key [] = []"
| "lower_key (c # s) =
     (if HasPrefix (c # s) [CHR 0xE2, CHR 0x84, CHR 0xAA] then CHR ''k'' # lower_key (drop 2 s)
      else if HasPrefix (c # s) [CHR 0xC4, CHR 0xB0] then CHR ''i'' # lower_key (drop 1 s)
      else lower_char c # lower_key s)"

definition GetLanguageConfig :: "string \<Rightarrow> LanguageConfig option" where
  "GetLanguageConfig langID = map_of languages langID"

definition GetLanguageByExtension :: "string \<Rightarrow> string option" where
  "GetLanguageByExtension ext = map_of extensionMap (lower_key ext)"

definition GetLanguageByBasename :: "string \<Rightarrow> string option" where
  "GetLanguageByBasename basename = map_of basenameMap basename"

definition AllLanguageIDs :: "string list" where
  "AllLanguageIDs = sort (map fst languages)"

definition GetTier :: "string \<Rightarrow> nat" where
  "GetTier langID = (case map_of languages langID of None \<Rightarrow> 0 | Some cfg \<Rightarrow> lc_Tier cfg)"

definition DetectLanguage :: "string \<Rightarrow> string + string" where
  "DetectLanguage filePath =
     (let basename = path_Base filePath
      in case map_of basenameMap basename of
           Some langID \<Rightarrow> Inr langID
         | None \<Rightarrow>
             if HasPrefix basename ''Dockerfile.'' \<or> HasPrefix basename ''dockerfile.'' then Inr ''dockerfile''
             else (case map_of extensionMap (lower_key (path_Ext filePath)) of
                     Some langID \<Rightarrow> Inr langID
                   | None \<Rightarrow> Inl (''unsupported language for file: '' @ basename)))"

section \<open>The tables agree\<close>

named_theorems lang_sel

lemma lang_javascript_keys [lang_sel]: "lc_ID lang_javascript = ''javascript''" "lc_Tier lang_javascript = 1"
    "lc_Extensions lang_javascript = [''.js'', ''.mjs'', ''.cjs'']"
    "lc_Basenames lang_javascript = []"
  by (simp_all add: lang_javascript_def)

lemma lang_typescript_keys [lang_sel]: "lc_ID lang_typescript = ''typescript''" "lc_Tier lang_typescript = 1"
    "lc_Extensions lang_typescript = [''.ts'']"
    "lc_Basenames lang_typescript = []"
  by (simp_all add: lang_typescript_def)

lemma lang_jsx_keys [lang_sel]: "lc_ID lang_jsx = ''jsx''" "lc_Tier lang_jsx = 1"
    "lc_Extensions lang_jsx = [''.jsx'']"
    "lc_Basenames lang_jsx = []"
  by (simp_all add: lang_jsx_def)

lemma lang_tsx_keys [lang_sel]: "lc_ID lang_tsx = ''tsx''" "lc_Tier lang_tsx = 1"
    "lc_Extensions lang_tsx = [''.tsx'']"
    "lc_Basenames lang_tsx = []"
  by (simp_all add: lang_tsx_def)

lemma lang_python_keys [lang_sel]: "lc_ID lang_python = ''python''" "lc_Tier lang_python = 1"
    "lc_Extensions lang_python = [''.py'', ''.pyw'', ''.pyi'']"
    "lc_Basenames lang_python = []"
  by (simp_all add: lang_python_def)

lemma lang_go_keys [lang_sel]: "lc_ID lang_go = ''go''" "lc_Tier lang_go = 1"
    "lc_Extensions lang_go = [''.go'']"
    "lc_Basenames lang_go = []"
  by (simp_all add: lang_go_def)

lemma lang_rust_keys [lang_sel]: "lc_ID lang_rust = ''rust''" "lc_Tier lang_rust = 1"
    "lc_Extensions lang_rust = [''.rs'']"
    "lc_Basenames lang_rust = []"
  by (simp_all add: lang_rust_def)

lemma lang_java_keys [lang_sel]: "lc_ID lang_java = ''java''" "lc_Tier lang_java = 1"
    "lc_Extensions lang_java = [''.java'']"
    "lc_Basenames lang_java = []"
  by (simp_all add: lang_java_def)

lemma lang_kotlin_keys [lang_sel]: "lc_ID lang_kotlin = ''kotlin''" "lc_Tier lang_kotlin = 1"
    "lc_Extensions lang_kotlin = [''.kt'', ''.kts'']"
    "lc_Basenames lang_kotlin = []"
  by (simp_all add: lang_kotlin_def)

lemma lang_c_keys [lang_sel]: "lc_ID lang_c = ''c''" "lc_Tier lang_c = 1"
    "lc_Extensions lang_c = [''.c'']"
    "lc_Basenames lang_c = []"
  by (simp_all add: lang_c_def)

lemma lang_cpp_keys [lang_sel]: "lc_ID lang_cpp = ''cpp''" "lc_Tier lang_cpp = 1"
    "lc_Extensions lang_cpp = [''.cpp'', ''.cc'', ''.cxx'', ''.hpp'', ''.hxx'', ''.h'']"
    "lc_Basenames lang_cpp = []"
  by (simp_all add: lang_cpp_def)

lemma lang_csharp_keys [lang_sel]: "lc_ID lang_csharp = ''csharp''" "lc_Tier lang_csharp = 1"
    "lc_Extensions lang_csharp = [''.cs'']"
    "lc_Basenames lang_csharp = []"
  by (simp_all add: lang_csharp_def)

lemma lang_swift_keys [lang_sel]: "lc_ID lang_swift = ''swift''" "lc_Tier lang_swift = 1"
    "lc_Extensions lang_swift = [''.swift'']"
    "lc_Basenames lang_swift = []"
  by (simp_all add: lang_swift_def)

lemma lang_ruby_keys [lang_sel]: "lc_ID lang_ruby = ''ruby''" "lc_Tier lang_ruby = 1"
    "lc_Extensions lang_ruby = [''.rb'', ''.rake'', ''.gemspec'']"
    "lc_Basenames lang_ruby = [''Gemfile'', ''Rakefile'']"
  by (simp_all add: lang_ruby_def)

lemma lang_php_keys [lang_sel]: "lc_ID lang_php = ''php''" "lc_Tier lang_php = 1"
    "lc_Extensions lang_php = [''.php'']"
    "lc_Basenames lang_php = []"
  by (simp_all add: lang_php_def)

lemma lang_bash_keys [lang_sel]: "lc_ID lang_bash = ''bash''" "lc_Tier lang_bash = 2"
    "lc_Extensions lang_bash = [''.sh'', ''.bash'', ''.zsh'']"
    "lc_Basenames lang_bash = [''.bashrc'', ''.zshrc'', ''.bash_profile'', ''.profile'']"
  by (simp_all add: lang_bash_def)

lemma lang_sql_keys [lang_sel]: "lc_ID lang_sql = ''sql''" "lc_Tier lang_sql = 2"
    "lc_Extensions lang_sql = [''.sql'']"
    "lc_Basenames lang_sql = []"
  by (simp_all add: lang_sql_def)

lemma lang_graphql_keys [lang_sel]: "lc_ID lang_graphql = ''graphql''" "lc_Tier lang_graphql = 2"
    "lc_Extensions lang_graphql = [''.graphql'', ''.gql'']"
    "lc_Basenames lang_graphql = []"
  by (simp_all add: lang_graphql_def)

lemma lang_dockerfile_keys [lang_sel]: "lc_ID lang_dockerfile = ''dockerfile''" "lc_Tier lang_dockerfile = 2"
    "lc_Extensions lang_dockerfile = [''.dockerfile'']"
    "lc_Basenames lang_dockerfile = [''Dockerfile'']"
  by (simp_all add: lang_dockerfile_def)

lemma lang_hcl_keys [lang_sel]: "lc_ID lang_hcl = ''hcl''" "lc_Tier lang_hcl = 2"
    "lc_Extensions lang_hcl = [''.tf'', ''.tfvars'', ''.tofu'']"
    "lc_Basenames lang_hcl = []"
  by (simp_all add: lang_hcl_def)

lemma lang_html_keys [lang_sel]: "lc_ID lang_html = ''html''" "lc_Tier lang_html = 3"
    "lc_Extensions lang_html = [''.html'', ''.htm'']"
    "lc_Basenames lang_html = []"
  by (simp_all add: lang_html_def)

lemma lang_css_keys [lang_sel]: "lc_ID lang_css = ''css''" "lc_Tier lang_css = 3"
    "lc_Extensions lang_css = [''.css'']"
    "lc_Basenames lang_css = []"
  by (simp_all add: lang_css_def)

lemma lang_scss_keys [lang_sel]: "lc_ID lang_scss = ''scss''" "lc_Tier lang_scss = 3"
    "lc_Extensions lang_scss = [''.scss'']"
    "lc_Basenames lang_scss = []"
  by (simp_all add: lang_scss_def)

lemma lang_json_keys [lang_sel]: "lc_ID lang_json = ''json''" "lc_Tier lang_json = 3"
    "lc_Extensions lang_json = [''.json'', ''.jsonc'']"
    "lc_Basenames lang_json = []"
  by (simp_all add: lang_json_def)

lemma lang_yaml_keys [lang_sel]: "lc_ID lang_yaml = ''yaml''" "lc_Tier lang_yaml = 3"
    "lc_Extensions lang_yaml = [''.yaml'', ''.yml'']"
    "lc_Basenames lang_yaml = []"
  by (simp_all add: lang_yaml_def)

lemma lang_toml_keys [lang_sel]: "lc_ID lang_toml = ''toml''" "lc_Tier lang_toml = 3"
    "lc_Extensions lang_toml = [''.toml'']"
    "lc_Basenames lang_toml = []"
  by (simp_all add: lang_toml_def)

lemma lang_markdown_keys [lang_sel]: "lc_ID lang_markdown = ''markdown''" "lc_Tier lang_markdown = 3"
    "lc_Extensions lang_markdown = [''.md'', ''.markdown'', ''.mdx'']"
    "lc_Basenames lang_markdown = []"
  by (simp_all add: lang_markdown_def)

lemma lang_xml_keys [lang_sel]: "lc_ID lang_xml = ''xml''" "lc_Tier lang_xml = 3"
    "lc_Extensions lang_xml = [''.xml'', ''.svg'', ''.xsl'', ''.xsd'', ''.plist'']"
    "lc_Basenames lang_xml = []"
  by (simp_all add: lang_xml_def)

lemma language_keys:
  "list_all (\<lambda>(l, cfg). lc_ID cfg = l \<and> lc_Tier cfg \<in> {1, 2, 3}) languages"
  by (simp add: languages_def lang_sel)

lemma language_extensions:
  "list_all (\<lambda>(l, cfg). list_all (\<lambda>e. map_of extensionMap e = Some l) (lc_Extensions cfg)) languages"
  unfolding languages_def by (simp add: lang_sel) code_simp

lemma language_basenames:
  "list_all (\<lambda>(l, cfg). list_all (\<lambda>b. map_of basenameMap b = Some l) (lc_Basenames cfg)) languages"
  by (simp add: languages_def basenameMap_def lang_sel)

lemma language_lookup:
  "map_of languages ''javascript'' = Some lang_javascript"
  "map_of languages ''typescript'' = Some lang_typescript"
  "map_of languages ''jsx'' = Some lang_jsx"
  "map_of languages ''tsx'' = Some lang_tsx"
  "map_of languages ''python'' = Some lang_python"
  "map_of languages ''go'' = Some lang_go"
  "map_of languages ''rust'' = Some lang_rust"
  "map_of languages ''java'' = Some lang_java"
  "map_of languages ''kotlin'' = Some lang_kotlin"
  "map_of languages ''c'' = Some lang_c"
  "map_of languages ''cpp'' = Some lang_cpp"
  "map_of languages ''csharp'' = Some lang_csharp"
  "map_of languages ''swift'' = Some lang_swift"
  "map_of languages ''ruby'' = Some lang_ruby"
  "map_of languages ''php'' = Some lang_php"
  "map_of languages ''bash'' = Some lang_bash"
  "map_of languages ''sql'' = Some lang_sql"
  "map_of languages ''graphql'' = Some lang_graphql"
  "map_of languages ''dockerfile'' = Some lang_dockerfile"
  "map_of languages ''hcl'' = Some lang_hcl"
  "map_of languages ''html'' = Some lang_html"
  "map_of languages ''css'' = Some lang_css"
  "map_of languages ''scss'' = Some lang_scss"
  "map_of languages ''json'' = Some lang_json"
  "map_of languages ''yaml'' = Some lang_yaml"
  "map_of languages ''toml'' = Some lang_toml"
  "map_of languages ''markdown'' = Some lang_markdown"
  "map_of languages ''xml'' = Some lang_xml"
  by (simp_all add: languages_def)

lemma extension_languages:
  "list_all (\<lambda>(e, l). case map_of languages l of None \<Rightarrow> False | Some cfg \<Rightarrow> e \<in> set (lc_Extensions cfg)) extensionMap"
  by (simp add: extensionMap_def language_lookup lang_sel)

lemma basename_languages: "list_all (\<lambda>(b, l). map_of languages l \<noteq> None) basenameMap"
  by (simp add: basenameMap_def language_lookup)

lemma GetLanguageByExtension_config:
  assumes "GetLanguageByExtension ext = Some l"
  shows "\<exists>cfg. GetLanguageConfig l = Some cfg \<and> lower_key ext \<in> set (lc_Extensions cfg)"
proof -
  have "(lower_key ext, l) \<in> set extensionMap" using assms by (simp add: GetLanguageByExtension_def map_of_SomeD)
  then show ?thesis
    using extension_languages by (auto simp: list_all_iff GetLanguageConfig_def split: option.splits)
qed

text \<open>The map of extensions and the languages' own lists of extensions describe the same relation, so
  that each extension, in any case, belongs to exactly one language; and the language it belongs
  to is registered under its own name, with a tier between 1 and 3.\<close>

theorem extension_table_exact:
  "GetLanguageByExtension ext = Some l \<longleftrightarrow>
     (\<exists>cfg. GetLanguageConfig l = Some cfg \<and> lower_key ext \<in> set (lc_Extensions cfg) \<and> lc_ID cfg = l \<and> GetTier l \<in> {1, 2, 3})"
    (is "?A \<longleftrightarrow> ?B")
proof
  assume ?A
  then obtain cfg where cfg: "map_of languages l = Some cfg" "lower_key ext \<in> set (lc_Extensions cfg)"
    using GetLanguageByExtension_config by (auto simp: GetLanguageConfig_def)
  then have "(l, cfg) \<in> set languages" by (simp add: map_of_SomeD)
  then have "lc_ID cfg = l \<and> lc_Tier cfg \<in> {1, 2, 3}" using language_keys by (auto simp: list_all_iff)
  with cfg show ?B by (simp add: GetLanguageConfig_def GetTier_def)
next
  assume ?B
  then obtain cfg where "map_of languages l = Some cfg" "lower_key ext \<in> set (lc_Extensions cfg)"
    by (auto simp: GetLanguageConfig_def)
  then have "(l, cfg) \<in> set languages" "lower_key ext \<in> set (lc_Extensions cfg)" by (simp_all add: map_of_SomeD)
  then show ?A using language_extensions by (auto simp: list_all_iff GetLanguageByExtension_def)
qed

text \<open>The engine finds a configuration for whatever detection answers.\<close>

lemma DetectLanguage_registered:
  assumes "DetectLanguage f = Inr l"
  shows "\<exists>cfg. GetLanguageConfig l = Some cfg"
proof -
  consider "l = ''dockerfile''" | "map_of basenameMap (path_Base f) = Some l" | "GetLanguageByExtension (path_Ext f) = Some l"
    using assms by (auto simp: DetectLanguage_def GetLanguageByExtension_def Let_def split: option.splits if_splits)
  then show ?thesis
  proof cases
    case 1
    then show ?thesis by (simp add: GetLanguageConfig_def language_lookup)
  next
    case 2
    then have "(path_Base f, l) \<in> set basenameMap" by (simp add: map_of_SomeD)
    then show ?thesis using basename_languages by (auto simp: list_all_iff GetLanguageConfig_def)
  next
    case 3
    then show ?thesis using GetLanguageByExtension_config by blast
  qed
qed

end
