(* ===== verification/Workflow.thy ===== *)
theory Workflow
  imports Index_Pipeline Language_Registry Go_Json
begin

text \<open>
  What the two indexing workflows share: loading the execution context of a job
  (\<^verbatim>\<open>src/backend-worker/internal/repository/job.go\<close>), reading and parsing files, and the frame of a
  handler that locks the project, claims the job and marks it failed when a step fails
  (\<^verbatim>\<open>src/backend-worker/internal/workflow/fullindex/handler.go\<close>; the handler of the incremental workflow
  has its own copies of these functions).

  The git workspace, the parser engine, the commit indexer and the decryption of keys answer
  through the parameters in \<open>henv\<close>, as do the rows of tables the workflows only read. \<open>None\<close> as the
  result of a handler would be a loop that does not end.

  The locale \<open>claimed_body\<close> states what the part of a handler after the claim promises; the properties
  of a whole handler are proved from it once.
\<close>

section \<open>The execution context\<close>

record GetProjectSSHKeyForExecutionRow =
  sk_ID :: UUID
  sk_Name :: string
  sk_PublicKey :: string
  sk_PrivateKeyEncrypted :: string
  sk_KeyType :: string
  sk_Fingerprint :: string
  sk_RepoUrl :: string
  sk_DefaultBranch :: string

record exec_Context =
  xc_JobID :: UUID
  xc_JobType :: string
  xc_ProjectID :: UUID
  xc_RepoURL :: string
  xc_Branch :: string
  xc_SSHKeyID :: UUID
  xc_SSHPrivateKey :: string
  xc_Embedding :: EmbeddingConfig

record workspace_Result =
  ws_RepoDir :: string
  ws_CommitSHA :: string
  ws_SourceFiles :: "string list"

record commits_Result =
  cr_CommitsIndexed :: int
  cr_DiffsIndexed :: int
  cr_HeadCommitDBID :: UUID

record WorkflowTask =
  wt_JobID :: string
  wt_Workflow :: string
  wt_EnqueuedAt :: string
  wt_ProjectID :: string
  wt_TraceID :: string
  wt_RequestedBy :: string
  wt_WorkerID :: string

text \<open>\<open>he_parse_uuid\<close> reads a job id or gives the quoted id with the reason it is none. \<open>he_db_text\<close> is the text
  of a database error, of a missing row for \<open>None\<close>. \<open>he_read\<close> reads a file of the
  worktree by its relative path.\<close>

record 'f henv =
  he_now :: timestamp
  he_session :: nat
  he_ft :: faults
  he_version_ft :: "nat \<Rightarrow> faults"
  he_fresh_version :: UUID
  he_fresh_snapshot :: UUID
  he_race :: "EmbeddingVersion list"
  he_parse_uuid :: "string \<Rightarrow> string + UUID"
  he_ssh :: "UUID \<Rightarrow> GetProjectSSHKeyForExecutionRow option"
  he_config :: "UUID \<Rightarrow> EmbeddingConfig option"
  he_decrypt :: "string \<Rightarrow> string + string"
  he_prepare :: "exec_Context \<Rightarrow> string + workspace_Result"
  he_commits :: "(string + commits_Result) option"
  he_read :: "string \<Rightarrow> string + string"
  he_parse :: "FileInput list \<Rightarrow> string + ParsedFileResult list"
  he_services :: "'f services"
  he_db_text :: "db_error option \<Rightarrow> string"
  he_job_text :: "job_error \<Rightarrow> string"
  he_version_text :: "version_error \<Rightarrow> string"

record 'f world =
  w_ps :: "'f pstate"
  w_versions :: "EmbeddingVersion list"
  w_locks :: locks

definition job_fmtUUID :: "UUID \<Rightarrow> string" where
  "job_fmtUUID u = (if \<not> uuid_Valid u then ''<nil>'' else dashed (uuid_Bytes u))"

text \<open>A query that returns one row: an error, no row, or the row.\<close>

definition one_row :: "'f henv \<Rightarrow> string \<Rightarrow> string \<Rightarrow> 'r option \<Rightarrow> string + 'r" where
  "one_row e name msg r =
     (case query (he_ft e) name (Inr r) of
        Inl x \<Rightarrow> Inl (msg @ he_db_text e (Some x))
      | Inr None \<Rightarrow> Inl (msg @ he_db_text e None)
      | Inr (Some a) \<Rightarrow> Inr a)"

definition context_branch :: "'f henv \<Rightarrow> IndexingJob \<Rightarrow> string \<Rightarrow> jdb \<Rightarrow> string + string" where
  "context_branch e job defaultBranch s =
     (if \<not> uuid_Valid (job_IndexSnapshotID job) then Inr defaultBranch
      else case one_row e ''GetIndexSnapshot'' (''repository: load index snapshot '' @ job_fmtUUID (job_IndexSnapshotID job) @ '': '')
                  (GetIndexSnapshot (job_IndexSnapshotID job) s) of
             Inl x \<Rightarrow> Inl x
           | Inr snap \<Rightarrow> Inr (if snap_Branch snap \<noteq> [] then snap_Branch snap else defaultBranch))"

definition LoadExecutionContext :: "'f henv \<Rightarrow> UUID \<Rightarrow> jdb \<Rightarrow> string + exec_Context" where
  "LoadExecutionContext e jobID s =
     (case one_row e ''GetIndexingJob'' (''repository: load job '' @ job_fmtUUID jobID @ '': '') (GetIndexingJob jobID s) of
        Inl x \<Rightarrow> Inl x
      | Inr job \<Rightarrow>
     (case one_row e ''GetProjectSSHKeyForExecution''
             (''repository: load project SSH key for project '' @ job_fmtUUID (job_ProjectID job) @ '': '') (he_ssh e (job_ProjectID job)) of
        Inl x \<Rightarrow> Inl x
      | Inr row \<Rightarrow>
     (case he_decrypt e (sk_PrivateKeyEncrypted row) of
        Inl x \<Rightarrow> Inl (''repository: decrypt SSH key '' @ job_fmtUUID (sk_ID row) @ '': '' @ x)
      | Inr privateKey \<Rightarrow>
     (if \<not> uuid_Valid (job_EmbeddingProviderConfigID job)
      then Inl (''repository: job '' @ job_fmtUUID jobID @ '' has no embedding provider config ID'')
      else case one_row e ''GetEmbeddingProviderConfigByID''
                  (''repository: load embedding config '' @ job_fmtUUID (job_EmbeddingProviderConfigID job) @ '': '')
                  (he_config e (job_EmbeddingProviderConfigID job)) of
             Inl x \<Rightarrow> Inl x
           | Inr cfg \<Rightarrow>
     (case context_branch e job (sk_DefaultBranch row) s of
        Inl x \<Rightarrow> Inl x
      | Inr branch \<Rightarrow>
          Inr \<lparr>xc_JobID = job_ID job, xc_JobType = job_JobType job, xc_ProjectID = job_ProjectID job, xc_RepoURL = sk_RepoUrl row,
               xc_Branch = branch, xc_SSHKeyID = sk_ID row, xc_SSHPrivateKey = privateKey, xc_Embedding = cfg\<rparr>)))))"

section \<open>Files\<close>

definition HasParserSupport :: "string \<Rightarrow> bool" where
  "HasParserSupport ext = (GetLanguageByExtension ext \<noteq> None)"

fun readSourceFiles :: "(string \<Rightarrow> string + string) \<Rightarrow> string list \<Rightarrow> (string \<rightharpoonup> string) \<Rightarrow> string + (string \<rightharpoonup> string)" where
  "readSourceFiles rd [] contents = Inr contents"
| "readSourceFiles rd (f # files) contents =
     (case rd f of
        Inl x \<Rightarrow> Inl (''read '' @ f @ '': '' @ x)
      | Inr data \<Rightarrow>
          readSourceFiles rd files
            (if \<not> utf8_Valid data \<or> CHR 0x00 \<in> set data then contents else contents(f \<mapsto> data)))"

definition splitByParserSupport :: "string list \<Rightarrow> string list \<times> string list" where
  "splitByParserSupport files =
     (filter (\<lambda>f. HasParserSupport (path_Ext f)) files, filter (\<lambda>f. \<not> HasParserSupport (path_Ext f)) files)"

definition languageForExt :: "string \<Rightarrow> string" where
  "languageForExt ext = (case GetLanguageByExtension ext of None \<Rightarrow> [] | Some l \<Rightarrow> l)"

definition content_of :: "(string \<rightharpoonup> string) \<Rightarrow> string \<Rightarrow> string" where
  "content_of contents f = (case contents f of None \<Rightarrow> [] | Some t \<Rightarrow> t)"

definition buildFileInputs :: "string list \<Rightarrow> (string \<rightharpoonup> string) \<Rightarrow> FileInput list" where
  "buildFileInputs files contents =
     map (\<lambda>f. \<lparr>fi_FilePath = f, fi_Content = content_of contents f, fi_Language = languageForExt (path_Ext f)\<rparr>)
       (filter (\<lambda>f. languageForExt (path_Ext f) \<noteq> []) files)"

definition raw_line_count :: "string \<Rightarrow> int" where
  "raw_line_count content =
     (let lineCount = i32 (int (CountByte content (CHR 0x0A)))
      in if last content \<noteq> CHR 0x0A then i32 (lineCount + 1) else lineCount)"

definition raw_file_result :: "(string \<rightharpoonup> string) \<Rightarrow> string \<Rightarrow> ParsedFileResult option" where
  "raw_file_result contents f =
     (let content = content_of contents f;
          lang = (case DetectLanguage f of Inr l \<Rightarrow> l | Inl _ \<Rightarrow> TrimPrefix (path_Ext f) ''.'');
          result = zero_ParsedFileResult\<lparr>pf_FilePath := f, pf_Language := lang, pf_FileHash := StableHashBytes content,
                     pf_SizeBytes := int (length content)\<rparr>
      in if content = [] then Some result
         else map_option (\<lambda>cs. result\<lparr>pf_LineCount := raw_line_count content, pf_Chunks := cs\<rparr>)
                (splitRawChunks content (raw_line_count content)))"

fun buildRawFileResults :: "string list \<Rightarrow> (string \<rightharpoonup> string) \<Rightarrow> ParsedFileResult list option" where
  "buildRawFileResults [] contents = Some []"
| "buildRawFileResults (f # files) contents =
     (case raw_file_result contents f of
        None \<Rightarrow> None
      | Some r \<Rightarrow> map_option (\<lambda>rs. r # rs) (buildRawFileResults files contents))"

section \<open>The handler\<close>

definition marshalErrorDetails :: "string \<Rightarrow> string \<Rightarrow> string \<Rightarrow> string" where
  "marshalErrorDetails category message step =
     ''['' @ json_object [(''category'', json_string category), (''message'', json_string message), (''step'', json_string step)] @ '']''"

definition set_jobs :: "'f world \<Rightarrow> jdb \<Rightarrow> 'f world" where
  "set_jobs w j = w\<lparr>w_ps := (w_ps w)\<lparr>ps_jobs := j\<rparr>\<rparr>"

abbreviation jobs_of :: "'f world \<Rightarrow> jdb" where
  "jobs_of w \<equiv> ps_jobs (w_ps w)"

definition failJob :: "'f henv \<Rightarrow> UUID \<Rightarrow> string \<Rightarrow> string \<Rightarrow> string \<Rightarrow> 'f world \<Rightarrow> 'f world" where
  "failJob e jobID category msg step w =
     set_jobs w (snd (SetJobFailed (he_now e) (he_ft e) jobID (marshalErrorDetails category msg step) (jobs_of w)))"

abbreviation fail_with :: "'f henv \<Rightarrow> UUID \<Rightarrow> string \<times> string \<times> string \<Rightarrow> 'f world \<Rightarrow> 'f world" where
  "fail_with e jobID f w \<equiv> failJob e jobID (fst f) (fst (snd f)) (snd (snd f)) w"

text \<open>The steps below answer with the category, message and step name of a failure, or a result.\<close>

definition prepare_job :: "'f henv \<Rightarrow> exec_Context \<Rightarrow> 'f world \<Rightarrow> (string \<times> string \<times> string + EmbeddingVersion \<times> workspace_Result) \<times> 'f world" where
  "prepare_job e xc w =
     (case ResolveVersion (he_fresh_version e) (he_now e) (he_version_ft e) (he_race e) (xc_Embedding xc) (w_versions w) of
        (Inl x, vs) \<Rightarrow> (Inl (''context_load'', he_version_text e x, ''resolve_embedding_version''), w\<lparr>w_versions := vs\<rparr>)
      | (Inr ver, vs) \<Rightarrow>
          (case he_prepare e xc of
             Inl x \<Rightarrow> (Inl (''repo_access'', x, ''prepare_workspace''), w\<lparr>w_versions := vs\<rparr>)
           | Inr ws \<Rightarrow> (Inr (ver, ws), w\<lparr>w_versions := vs\<rparr>)))"

definition parse_sources ::
  "'f henv \<Rightarrow> string \<Rightarrow> string \<Rightarrow> string list \<Rightarrow> (string \<times> string \<times> string + (string \<rightharpoonup> string) \<times> ParsedFileResult list) option" where
  "parse_sources e readStep parseStep files =
     (case readSourceFiles (he_read e) files Map.empty of
        Inl x \<Rightarrow> Some (Inl (''repo_access'', x, readStep))
      | Inr fileContents \<Rightarrow>
     (case splitByParserSupport files of (parseableFiles, rawFiles) \<Rightarrow>
      case he_parse e (buildFileInputs parseableFiles fileContents) of
        Inl x \<Rightarrow> Some (Inl (''parser'', x, parseStep))
      | Inr parsed \<Rightarrow>
     (case buildRawFileResults rawFiles fileContents of
        None \<Rightarrow> None
      | Some rawResults \<Rightarrow>
          map_option (\<lambda>parsedFiles. Inr (fileContents, parsedFiles)) (splitOversizedChunks (parsed @ rawResults) DefaultMaxInputChars))))"

definition open_snapshot ::
  "'f henv \<Rightarrow> exec_Context \<Rightarrow> EmbeddingVersion \<Rightarrow> workspace_Result \<Rightarrow> 'f world \<Rightarrow> (string \<times> string \<times> string + IndexSnapshot) \<times> 'f world" where
  "open_snapshot e xc ver ws w =
     (case CreateSnapshot (he_now e) (he_fresh_snapshot e) (he_ft e) (xc_ProjectID xc) (xc_Branch xc) (ev_ID ver) (ws_CommitSHA ws) (jobs_of w) of
        (Inl x, j) \<Rightarrow> (Inl (''artifact_write'', he_job_text e x, ''create_snapshot''), set_jobs w j)
      | (Inr snapshot, j) \<Rightarrow>
     (let w = set_jobs w j
      in case exec_query (he_ft e) ''DeleteSnapshotArtifacts''
                (Inr ((), (w_ps w)\<lparr>ps_jobs := DeleteSnapshotArtifacts (snap_ID snapshot) (jobs_of w),
                                   ps_db := delete_files (snap_ID snapshot) (ps_db (w_ps w))\<rparr>)) (w_ps w) of
           (Inl x, p) \<Rightarrow> (Inl (''artifact_write'', he_db_text e (Some x), ''cleanup_stale_artifacts''), w\<lparr>w_ps := p\<rparr>)
         | (Inr _, p) \<Rightarrow> (Inr snapshot, w\<lparr>w_ps := p\<rparr>)))"

definition job_services :: "'f henv \<Rightarrow> exec_Context \<Rightarrow> 'f services" where
  "job_services e xc =
     (let cfg = xc_Embedding xc
      in (he_services e)\<lparr>sv_client := NewOllamaClient (ec_EndpointURL cfg) (ec_Model cfg) (ec_Dimensions cfg) (ec_MaxTokens cfg)\<rparr>)"

definition job_version_label :: "exec_Context \<Rightarrow> string" where
  "job_version_label xc = (let cfg = xc_Embedding xc in VersionLabel (ec_Provider cfg) (ec_Model cfg) (ec_Dimensions cfg))"

definition detect_go_module :: "'f henv \<Rightarrow> string" where
  "detect_go_module e = (case he_read e ''go.mod'' of Inr data \<Rightarrow> ExtractGoModulePath data | Inl _ \<Rightarrow> [])"

definition job_input ::
  "'f henv \<Rightarrow> UUID \<Rightarrow> exec_Context \<Rightarrow> workspace_Result \<Rightarrow> UUID \<Rightarrow> (string \<rightharpoonup> string) \<Rightarrow> ParsedFileResult list \<Rightarrow> string list \<Rightarrow> PipelineInput" where
  "job_input e jobID xc ws snapshotID fileContents parsedFiles allPaths =
     \<lparr>pi_ProjectID = xc_ProjectID xc, pi_SnapshotID = snapshotID, pi_JobID = jobID, pi_Branch = xc_Branch xc,
      pi_GitCommit = ws_CommitSHA ws, pi_VersionLabel = job_version_label xc, pi_Dimensions = ec_Dimensions (xc_Embedding xc),
      pi_ParsedFiles = parsedFiles, pi_FileContents = fileContents, pi_AllFilePaths = allPaths, pi_GoModulePath = detect_go_module e\<rparr>"

text \<open>The id of the head commit, NULL when the commits were not indexed.\<close>

definition commitHeadDBID :: "commits_Result option \<Rightarrow> UUID" where
  "commitHeadDBID r = (case r of None \<Rightarrow> null_UUID | Some cr \<Rightarrow> if uuid_Valid (cr_HeadCommitDBID cr) then cr_HeadCommitDBID cr else null_UUID)"

text \<open>The link to the head commit and the completion; a failure of either is only logged.\<close>

definition finish_job :: "'f henv \<Rightarrow> UUID \<Rightarrow> exec_Context \<Rightarrow> UUID \<Rightarrow> UUID \<Rightarrow> 'f world \<Rightarrow> 'f world" where
  "finish_job e jobID xc snapshotID head w =
     (let w = (if uuid_Valid head
               then set_jobs w (snd (exec_query (he_ft e) ''UpdateSnapshotCommitID''
                      (Inr (UpdateSnapshotCommitID (xc_ProjectID xc) snapshotID head (jobs_of w))) (jobs_of w)))
               else w)
      in set_jobs w (snd (SetJobCompleted (he_now e) (he_ft e) jobID (jobs_of w))))"

definition runFullPipeline ::
  "'f henv \<Rightarrow> UUID \<Rightarrow> exec_Context \<Rightarrow> EmbeddingVersion \<Rightarrow> workspace_Result \<Rightarrow> UUID \<Rightarrow> 'f world \<Rightarrow> 'f world option" where
  "runFullPipeline e jobID xc ver ws head w =
     (case parse_sources e ''read_source_files'' ''parse_files'' (ws_SourceFiles ws) of
        None \<Rightarrow> None
      | Some (Inl f) \<Rightarrow> Some (fail_with e jobID f w)
      | Some (Inr (fileContents, parsedFiles)) \<Rightarrow>
     (case open_snapshot e xc ver ws w of
        (Inl f, w) \<Rightarrow> Some (fail_with e jobID f w)
      | (Inr snapshot, w) \<Rightarrow>
     (case pipeline_Run (job_services e xc) (he_now e) (job_input e jobID xc ws (snap_ID snapshot) fileContents parsedFiles []) (w_ps w) of
        None \<Rightarrow> None
      | Some (Inl msg, p) \<Rightarrow> Some (failJob e jobID (categorizePipelineError msg) msg ''pipeline'' (w\<lparr>w_ps := p\<rparr>))
      | Some (Inr _, p) \<Rightarrow> Some (finish_job e jobID xc (snap_ID snapshot) head (w\<lparr>w_ps := p\<rparr>)))))"

text \<open>The frame of a handler: \<open>body\<close> is the part after the claim, where every error marks the job failed. The
  lock is released by a deferred call, whatever happens after it was taken.\<close>

definition run_job ::
  "'f henv \<Rightarrow> string \<Rightarrow> (UUID \<Rightarrow> exec_Context \<Rightarrow> 'f world \<Rightarrow> 'f world option) \<Rightarrow> WorkflowTask \<Rightarrow> 'f world \<Rightarrow> ((string + unit) \<times> 'f world) option" where
  "run_job e name body task w =
     (case he_parse_uuid e (wt_JobID task) of
        Inl x \<Rightarrow> Some (Inl (name @ '': invalid job_id '' @ x), w)
      | Inr jobID \<Rightarrow>
     (case LoadExecutionContext e jobID (jobs_of w) of
        Inl x \<Rightarrow> Some (Inl (name @ '': load context: '' @ x), w)
      | Inr xc \<Rightarrow>
     (case TryProjectLock (he_ft e) (he_session e) (xc_ProjectID xc) (w_locks w) of
        (Inl x, L) \<Rightarrow> Some (Inl (name @ '': project lock: '' @ he_job_text e x), w\<lparr>w_locks := L\<rparr>)
      | (Inr _, L) \<Rightarrow>
     (let unlock = (\<lambda>w. w\<lparr>w_locks := unlock_project (he_ft e) (he_session e) (xc_ProjectID xc) (w_locks w)\<rparr>);
          w = w\<lparr>w_locks := L\<rparr>
      in case ClaimJob (he_now e) (he_ft e) jobID (wt_WorkerID task) (jobs_of w) of
           (Inl x, j) \<Rightarrow>
             (if x = ErrJobNotQueued then Some (Inr (), unlock (set_jobs w j))
              else Some (Inl (name @ '': claim job: '' @ he_job_text e x), unlock (set_jobs w j)))
         | (Inr _, j) \<Rightarrow> map_option (\<lambda>w'. (Inr (), unlock w')) (body jobID xc (set_jobs w j))))))"

section \<open>The calls of a run as job operations\<close>

lemma set_jobs_simps [simp]:
  "jobs_of (set_jobs w j) = j" "w_versions (set_jobs w j) = w_versions w" "w_locks (set_jobs w j) = w_locks w"
  by (simp_all add: set_jobs_def)

text \<open>A step that leaves the status of every job alone.\<close>

definition statuses :: "jdb \<Rightarrow> (UUID \<times> string) list" where
  "statuses s = map (\<lambda>j. (job_ID j, job_Status j)) (db_jobs s)"

definition quiet_step :: "jdb \<Rightarrow> jdb \<Rightarrow> bool" where
  "quiet_step s s' \<longleftrightarrow> job_step s s' \<and> statuses s' = statuses s"

lemma quiet_steps:
  assumes "quiet_step\<^sup>*\<^sup>* s s'"
  shows "job_step\<^sup>*\<^sup>* s s'" "statuses s' = statuses s"
  using assms by (induction rule: rtranclp_induct) (auto simp: quiet_step_def intro: rtranclp.rtrancl_into_rtrancl)

lemma quiet_stepI: "job_step s s' \<Longrightarrow> db_jobs s' = db_jobs s \<Longrightarrow> quiet_step s s'"
  by (simp add: quiet_step_def statuses_def)

lemma quiet_progress: "quiet_step s (snd (SetJobProgress ft i a b c s))"
proof -
  have "statuses (snd (SetIndexingJobProgress i a b c s)) = statuses s"
    by (simp add: statuses_def SetIndexingJobProgress_def update_jobs_def update_rows_def)
  then have "statuses (snd (SetJobProgress ft i a b c s)) = statuses s"
    unfolding snd_repo by (auto simp: exec_query_def split: prod.split)
  then show ?thesis using job_step.progress by (simp add: quiet_step_def)
qed

lemma quiet_snapshot: "new_snap_id fresh s \<Longrightarrow> quiet_step s (snd (CreateSnapshot now fresh ft p branch ev commit s))"
  using job_step.snapshot [of fresh s now ft p branch ev commit] snap_queries_jobs(4) [of now fresh p branch ev commit s]
  unfolding snd_repo by (intro quiet_stepI) (auto simp: exec_query_def split: prod.splits)

lemma quiet_clean: "quiet_step s (DeleteSnapshotArtifacts i s)"
  by (rule quiet_stepI [OF job_step.clean]) (rule snap_queries_jobs)

lemma quiet_activate:
  assumes "snap_of p branch i s"
  shows "quiet_step s (snd (ActivateSnapshotTx now ft p branch i s))"
  by (rule quiet_stepI [OF job_step.activate [OF assms]])
     (use activate_result [of now ft p branch i s] in \<open>auto simp: snap_queries_jobs\<close>)

lemma quiet_link: "quiet_step s (snd (exec_query ft ''UpdateSnapshotCommitID'' (Inr (UpdateSnapshotCommitID p i commit s)) s))"
  by (rule quiet_stepI [OF job_step.link]) (rule link_frame)

lemma report_progress_step: "quiet_step\<^sup>*\<^sup>* (ps_jobs s) (ps_jobs (report_progress sv input k a b s))"
  using quiet_progress [of "ps_jobs s" "sv_progress sv k" "pi_JobID input" "i32 (int a)" "i32 (int b)" 0]
  by (simp add: report_progress_def snd_repo r_into_rtranclp)

lemma write_files_steps: "quiet_step\<^sup>*\<^sup>* (ps_jobs s) (ps_jobs (snd (write_files sv input n i files cs s)))"
proof (induction files arbitrary: i cs s)
  case (Cons f files)
  let ?w = "WriteFile (sv_db sv) (pi_ProjectID input) (pi_SnapshotID input) f (case pi_FileContents input (pf_FilePath f) of None \<Rightarrow> [] | Some t \<Rightarrow> t) (ps_db s)"
  obtain r d where w: "?w = (r, d)" by (cases ?w)
  show ?case
  proof (cases r)
    case (Inr res)
    let ?s1 = "s\<lparr>ps_db := d\<rparr>"
    let ?s2 = "if Suc i mod 500 = 0 \<or> Suc i = n then report_progress sv input (Suc i) (Suc i) 0 ?s1 else ?s1"
    have "quiet_step\<^sup>*\<^sup>* (ps_jobs s) (ps_jobs ?s2)" using report_progress_step [of ?s1 sv input "Suc i" "Suc i" 0] by simp
    also have "quiet_step\<^sup>*\<^sup>* (ps_jobs ?s2) (ps_jobs (snd (write_files sv input n (Suc i) files (cs @ wr_Chunks res) ?s2)))" by (rule Cons.IH)
    finally show ?thesis using w Inr by (simp add: Let_def)
  qed (use w in \<open>simp add: Let_def\<close>)
qed simp

lemma processFiles_steps:
  assumes "processFiles sv input s = Some (r, s')"
  shows "quiet_step\<^sup>*\<^sup>* (ps_jobs s) (ps_jobs s')"
proof (cases "sv_ensure sv (CollectionName (pi_ProjectID input) (pi_VersionLabel input)) (pi_Dimensions input)")
  case None
  let ?col = "CollectionName (pi_ProjectID input) (pi_VersionLabel input)"
  let ?files = "ResolveImportTargets (pi_ParsedFiles input) (pi_AllFilePaths input) (go_module_path input)"
  obtain x s1 where w: "write_files sv input (length ?files) 0 ?files [] s = (x, s1)"
    by (cases "write_files sv input (length ?files) 0 ?files [] s")
  have 1: "quiet_step\<^sup>*\<^sup>* (ps_jobs s) (ps_jobs s1)" using write_files_steps [of s sv input "length ?files" 0 ?files "[]"] w by simp
  have "ps_jobs s' = ps_jobs s1 \<or> (\<exists>k a b s2. ps_jobs s2 = ps_jobs s1 \<and> s' = report_progress sv input k a b s2)"
  proof (cases x)
    case (Inl m)
    then show ?thesis using assms None w by (simp add: processFiles_def Let_def)
  next
    case (Inr cs)
    obtain y s2 where u: "upsert_loop sv ?col 0 (map2 (mk_point input) cs (the (case Embed (sv_client sv) (sv_post sv) (map ce_Content cs) of Some (Inr v) \<Rightarrow> Some v | _ \<Rightarrow> None))) s1 = (y, s2)"
      by fastforce
    have "ps_jobs s2 = ps_jobs s1" using upsert_loop_frame(1) [of sv ?col 0 _ s1] u by (metis snd_conv)
    then show ?thesis
      using assms None w Inr u
      by (auto simp: processFiles_def embed_and_upsert_def Let_def split: option.splits sum.splits prod.splits if_splits)
  qed
  then show ?thesis using 1 report_progress_step by (metis rtranclp_trans)
qed (use assms in \<open>simp add: processFiles_def Let_def\<close>)

lemma pipeline_Run_steps:
  assumes "pipeline_Run sv now input s = Some (r, s')" "snap_of (pi_ProjectID input) (pi_Branch input) (pi_SnapshotID input) (ps_jobs s)"
  shows "quiet_step\<^sup>*\<^sup>* (ps_jobs s) (ps_jobs s')"
proof -
  obtain x s1 where p: "processFiles sv input s = Some (x, s1)" using assms(1) by (auto simp: pipeline_Run_def split: option.splits)
  have 1: "quiet_step\<^sup>*\<^sup>* (ps_jobs s) (ps_jobs s1)" by (rule processFiles_steps [OF p])
  have "snap_of (pi_ProjectID input) (pi_Branch input) (pi_SnapshotID input) (ps_jobs s1)"
    using assms(2) processFiles_snaps [OF p] by (simp add: snap_of_def)
  from quiet_activate [OF this, of now "sv_activate sv"] have
    "quiet_step\<^sup>*\<^sup>* (ps_jobs s1) (snd (ActivateSnapshotTx now (sv_activate sv) (pi_ProjectID input) (pi_Branch input) (pi_SnapshotID input) (ps_jobs s1)))"
    by (rule r_into_rtranclp)
  with 1 show ?thesis
    using assms(1) p by (cases x) (auto simp: pipeline_Run_def split: prod.splits sum.splits intro: rtranclp_trans)
qed

text \<open>The snapshot a run creates or takes over is one of the project and branch, for the commit.\<close>

lemma unique_snapshot:
  assumes "snaps_ok s" "r \<in> set (db_snaps s)" "q \<in> set (db_snaps s)" "sql_eq (snap_ID q) (snap_ID r)"
  shows "q = r"
proof -
  let ?F = "filter (\<lambda>x. sql_eq (snap_ID x) (snap_ID r)) (db_snaps s)"
  have "sql_eq (snap_ID r) (snap_ID r)" using assms(4) by (auto simp: sql_eq_def)
  then have "q \<in> set ?F" "r \<in> set ?F" using assms by auto
  moreover have "length ?F \<le> 1" by (rule snaps_okD(1) [OF assms(1)])
  ultimately show ?thesis by (cases ?F; cases "tl ?F") auto
qed

lemma CreateIndexSnapshot_row:
  assumes "snaps_ok s" "new_snap_id fresh s" "uuid_Valid p" "uuid_Valid ev" "CreateIndexSnapshot now fresh p branch ev commit s = (r, s')"
  shows "snap_of p branch (snap_ID r) s' \<and> r \<in> set (db_snaps s') \<and> snap_key p branch ev commit r"
proof (cases "List.find (snap_key p branch ev commit) (db_snaps s)")
  case None
  have "\<not> sql_eq (snap_ID q) fresh" if "q \<in> set (db_snaps s)" for q using that assms(2) by (simp add: new_snap_id_def)
  then show ?thesis
    using assms(3-5) None by (auto simp: CreateIndexSnapshot_def Let_def snap_of_def snap_key_def sql_eq_def)
next
  case (Some q)
  let ?g = "\<lambda>r. r\<lparr>snap_Status := ''building'', snap_IsActive := False, snap_ActivatedAt := None\<rparr>"
  have q: "q \<in> set (db_snaps s)" "snap_key p branch ev commit q" using Some by (auto simp: find_Some_iff)
  have r: "r = ?g q" "db_snaps s' = map (\<lambda>x. if snap_key p branch ev commit x then ?g x else x) (db_snaps s)"
    using assms(5) Some by (auto simp: CreateIndexSnapshot_def Let_def update_rows_def)
  have "snap_of p branch (snap_ID r) s'"
    unfolding snap_of_def
  proof (intro ballI impI)
    fix x assume x: "x \<in> set (db_snaps s')" "sql_eq (snap_ID x) (snap_ID r)"
    then obtain y where y: "y \<in> set (db_snaps s)" "snap_ID x = snap_ID y" "snap_ProjectID x = snap_ProjectID y" "snap_Branch x = snap_Branch y"
      unfolding r(2) by auto
    have "y = q" using unique_snapshot [OF assms(1) q(1) y(1)] x(2) y(2) r(1) by simp
    then show "sql_eq (snap_ProjectID x) p \<and> snap_Branch x = branch" using y q(2) by (simp add: snap_key_def)
  qed
  moreover have "r \<in> set (db_snaps s')" unfolding r(2) using q r(1) by (auto intro: rev_image_eqI)
  moreover have "snap_key p branch ev commit r" using q(2) r(1) by (simp add: snap_key_def)
  ultimately show ?thesis by blast
qed

lemma CreateSnapshot_Inr:
  "CreateSnapshot now fresh ft p branch ev commit s = (Inr r, s') \<Longrightarrow> CreateIndexSnapshot now fresh p branch ev commit s = (r, s')"
  by (cases "CreateIndexSnapshot now fresh p branch ev commit s")
     (auto simp: CreateSnapshot_def db_result_def exec_query_def query_Inr split: sum.splits if_splits)

lemma CreateSnapshot_step:
  "new_snap_id fresh s \<Longrightarrow> CreateSnapshot now fresh ft p branch ev commit s = (x, s') \<Longrightarrow> quiet_step\<^sup>*\<^sup>* s s'"
  using quiet_snapshot [of fresh s now ft p branch ev commit] by (simp add: r_into_rtranclp)

lemma link_steps: "quiet_step\<^sup>*\<^sup>* s (snd (exec_query ft ''UpdateSnapshotCommitID'' (Inr (UpdateSnapshotCommitID p i c s)) s))"
  by (rule r_into_rtranclp) (rule quiet_link)

text \<open>\<open>indexed xc commit s\<close>: the branch has an active snapshot, of the commit.\<close>

definition indexed :: "exec_Context \<Rightarrow> string \<Rightarrow> jdb \<Rightarrow> bool" where
  "indexed xc commit s \<longleftrightarrow>
     list_ex (\<lambda>r. active_for (xc_ProjectID xc) (xc_Branch xc) r \<and> snap_GitCommit r = commit) (db_snaps s)"

text \<open>\<open>ends_job e i A s s'\<close>: operations that leave the status of every job alone lead from \<open>s\<close> to a state in which the job is marked as
  completed, where \<open>A\<close> holds, or as failed.\<close>

definition ends_job :: "'f henv \<Rightarrow> UUID \<Rightarrow> (jdb \<Rightarrow> bool) \<Rightarrow> jdb \<Rightarrow> jdb \<Rightarrow> bool" where
  "ends_job e i A s s' \<longleftrightarrow> (\<exists>s1. quiet_step\<^sup>*\<^sup>* s s1 \<and>
     (A s1 \<and> s' = snd (SetJobCompleted (he_now e) (he_ft e) i s1) \<or> (\<exists>d. s' = snd (SetJobFailed (he_now e) (he_ft e) i d s1))))"

lemma ends_job_steps: "ends_job e i A s s' \<Longrightarrow> job_step\<^sup>*\<^sup>* s s'"
  using quiet_steps(1) job_step.complete job_step.fail unfolding ends_job_def by (metis rtranclp.rtrancl_into_rtrancl)

lemma ends_job_fail:
  assumes "quiet_step\<^sup>*\<^sup>* s (jobs_of w)"
  shows "ends_job e i A s (jobs_of (failJob e i c m st w))"
  using assms by (auto simp: ends_job_def failJob_def)

lemma ends_job_complete:
  assumes "quiet_step\<^sup>*\<^sup>* s (jobs_of w)" "A (jobs_of w)"
  shows "ends_job e i A s (jobs_of (set_jobs w (snd (SetJobCompleted (he_now e) (he_ft e) i (jobs_of w)))))"
  using assms by (auto simp: ends_job_def)

lemma ends_job_mono: "ends_job e i A s s' \<Longrightarrow> (\<And>x. A x \<Longrightarrow> B x) \<Longrightarrow> ends_job e i B s s'"
  unfolding ends_job_def by blast

lemma pipeline_Run_activates:
  assumes "pipeline_Run sv now input s = Some (Inr u, s')"
  shows "\<exists>s1. processFiles sv input s = Some (Inr (), s1) \<and>
    ActivateSnapshotTx now (sv_activate sv) (pi_ProjectID input) (pi_Branch input) (pi_SnapshotID input) (ps_jobs s1) = (Inr (), ps_jobs s')"
  using assms by (auto simp: pipeline_Run_def split: option.splits sum.splits prod.splits)

lemma indexed_link:
  assumes "indexed xc commit s"
  shows "indexed xc commit (snd (exec_query ft n (Inr (UpdateSnapshotCommitID p i c s)) s))"
proof -
  obtain g where g: "db_snaps (snd (exec_query ft n (Inr (UpdateSnapshotCommitID p i c s)) s)) = map g (db_snaps s)"
    "\<forall>r. \<exists>c. g r = r\<lparr>snap_CommitID := c\<rparr>" using link_frame(2) by blast
  have "active_for q b (g r) = active_for q b r \<and> snap_GitCommit (g r) = snap_GitCommit r" for q b r
    using g(2) [rule_format, of r] by (auto simp: active_for_def)
  then show ?thesis using assms by (simp add: indexed_def list_ex_iff g(1))
qed

text \<open>What the tables guarantee: primary keys and the project of a job are not null, and the identifiers
  the database generates for this run are new.\<close>

definition jobs_ok :: "UUID \<Rightarrow> jdb \<Rightarrow> bool" where
  "jobs_ok fresh s \<longleftrightarrow> snaps_ok s \<and> new_snap_id fresh s \<and> uuid_Valid fresh \<and>
     list_all (\<lambda>r. uuid_Valid (snap_ID r)) (db_snaps s) \<and> list_all (\<lambda>j. uuid_Valid (job_ProjectID j)) (db_jobs s)"

lemma CreateIndexSnapshot_valid:
  assumes "jobs_ok fresh s" "CreateIndexSnapshot now fresh p branch ev commit s = (r, s')"
  shows "uuid_Valid (snap_ID r)"
  using assms by (auto simp: jobs_ok_def CreateIndexSnapshot_def Let_def list_all_iff find_Some_iff split: option.splits)

lemma finish_job_ends:
  assumes "quiet_step\<^sup>*\<^sup>* s (jobs_of w)" "indexed xc commit (jobs_of w)"
  shows "ends_job e i (indexed xc commit) s (jobs_of (finish_job e i xc sn head w))"
proof -
  define w2 where "w2 = (if uuid_Valid head
       then set_jobs w (snd (exec_query (he_ft e) ''UpdateSnapshotCommitID'' (Inr (UpdateSnapshotCommitID (xc_ProjectID xc) sn head (jobs_of w))) (jobs_of w)))
       else w)"
  have "quiet_step\<^sup>*\<^sup>* (jobs_of w) (jobs_of w2)" using link_steps [of "jobs_of w"] by (simp add: w2_def)
  then have "quiet_step\<^sup>*\<^sup>* s (jobs_of w2)" by (rule rtranclp_trans [OF assms(1)])
  moreover have "indexed xc commit (jobs_of w2)" using assms(2) indexed_link by (simp add: w2_def)
  moreover have "finish_job e i xc sn head w = set_jobs w2 (snd (SetJobCompleted (he_now e) (he_ft e) i (jobs_of w2)))"
    by (simp only: finish_job_def w2_def Let_def)
  ultimately show ?thesis using ends_job_complete [of s w2 "indexed xc commit"] by simp
qed

text \<open>The snapshot a job writes to: one row of the project, the branch and the commit.\<close>

definition opened :: "exec_Context \<Rightarrow> string \<Rightarrow> IndexSnapshot \<Rightarrow> jdb \<Rightarrow> bool" where
  "opened xc commit r s \<longleftrightarrow> snap_of (xc_ProjectID xc) (xc_Branch xc) (snap_ID r) s \<and> r \<in> set (db_snaps s) \<and> uuid_Valid (snap_ID r) \<and>
     sql_eq (snap_ProjectID r) (xc_ProjectID xc) \<and> snap_Branch r = xc_Branch xc \<and> snap_GitCommit r = commit"

lemma opened_snaps: "opened xc commit r s \<Longrightarrow> db_snaps s' = db_snaps s \<Longrightarrow> opened xc commit r s'"
  by (simp add: opened_def snap_of_def)

lemma activate_indexed:
  assumes "ActivateSnapshotTx now ft (xc_ProjectID xc) (xc_Branch xc) (snap_ID r) s = (Inr u, s')" "opened xc commit r s"
  shows "indexed xc commit s'"
proof -
  let ?p = "xc_ProjectID xc" and ?b = "xc_Branch xc"
  have s': "s' = ActivateSnapshot now (snap_ID r) (DeactivateActiveSnapshot ?p ?b s)"
    using assms(1) by (auto simp: ActivateSnapshotTx_def execTx_def activate_body_def query_Inr split: sum.splits)
  have "act now (snap_ID r) (deact ?p ?b r) \<in> set (db_snaps s')"
    unfolding s' Activate_map Deactivate_map map_map set_map comp_def by (rule imageI) (use assms(2) in \<open>simp add: opened_def\<close>)
  moreover have "active_for ?p ?b (act now (snap_ID r) (deact ?p ?b r)) \<and> snap_GitCommit (act now (snap_ID r) (deact ?p ?b r)) = commit"
    using assms(2) by (auto simp: opened_def active_for_def sql_eq_def)
  ultimately show ?thesis unfolding indexed_def list_ex_iff by blast
qed

lemma open_snapshot_steps:
  assumes "open_snapshot e xc ver ws w = (x, w1)"
    and ok: "jobs_ok (he_fresh_snapshot e) (jobs_of w)" and v: "uuid_Valid (xc_ProjectID xc)" "uuid_Valid (ev_ID ver)"
  shows "quiet_step\<^sup>*\<^sup>* (jobs_of w) (jobs_of w1) \<and> (\<forall>snapshot. x = Inr snapshot \<longrightarrow> opened xc (ws_CommitSHA ws) snapshot (jobs_of w1))"
proof -
  have ok': "snaps_ok (jobs_of w)" "new_snap_id (he_fresh_snapshot e) (jobs_of w)" using ok by (simp_all add: jobs_ok_def)
  let ?c = "CreateSnapshot (he_now e) (he_fresh_snapshot e) (he_ft e) (xc_ProjectID xc) (xc_Branch xc) (ev_ID ver) (ws_CommitSHA ws) (jobs_of w)"
  obtain y j where c: "?c = (y, j)" by (cases ?c)
  have 1: "quiet_step\<^sup>*\<^sup>* (jobs_of w) j" by (rule CreateSnapshot_step [OF ok'(2) c])
  show ?thesis
  proof (cases y)
    case (Inl m)
    then have "w1 = set_jobs w j" "x = Inl (''artifact_write'', he_job_text e m, ''create_snapshot'')"
      using assms(1) c by (simp_all add: open_snapshot_def)
    then show ?thesis using 1 by simp
  next
    case (Inr snapshot)
    note created = CreateSnapshot_Inr [OF c [unfolded Inr]]
    have op: "opened xc (ws_CommitSHA ws) snapshot j"
      using CreateIndexSnapshot_row [OF ok' v created] CreateIndexSnapshot_valid [OF ok created] by (simp add: opened_def snap_key_def)
    let ?w0 = "set_jobs w j"
    let ?p = "(w_ps ?w0)\<lparr>ps_jobs := DeleteSnapshotArtifacts (snap_ID snapshot) j, ps_db := delete_files (snap_ID snapshot) (ps_db (w_ps ?w0))\<rparr>"
    obtain z p where d: "exec_query (he_ft e) ''DeleteSnapshotArtifacts'' (Inr ((), ?p)) (w_ps ?w0) = (z, p)" by fastforce
    have "p = ?p \<or> p = w_ps ?w0" using exec_query_snd [OF d] by auto
    then have pj: "ps_jobs p = DeleteSnapshotArtifacts (snap_ID snapshot) j \<or> ps_jobs p = j" by auto
    have w1: "jobs_of w1 = ps_jobs p" "x = Inr snapshot' \<Longrightarrow> snapshot' = snapshot" for snapshot'
      using assms(1) c Inr d by (auto simp: open_snapshot_def Let_def split: sum.splits)
    have "quiet_step\<^sup>*\<^sup>* j (ps_jobs p)" using pj quiet_clean [of j "snap_ID snapshot"] by auto
    then have "quiet_step\<^sup>*\<^sup>* (jobs_of w) (ps_jobs p)" by (rule rtranclp_trans [OF 1])
    moreover have "opened xc (ws_CommitSHA ws) snapshot (ps_jobs p)"
      using pj by (intro opened_snaps [OF op]) (auto simp: DeleteSnapshotArtifacts_def)
    ultimately show ?thesis using w1 by auto
  qed
qed

lemma runFullPipeline_ends:
  assumes "runFullPipeline e i xc ver ws head w = Some w'"
    and ok: "jobs_ok (he_fresh_snapshot e) (jobs_of w)" and v: "uuid_Valid (xc_ProjectID xc)" "uuid_Valid (ev_ID ver)"
  shows "ends_job e i (indexed xc (ws_CommitSHA ws)) (jobs_of w) (jobs_of w')"
proof -
  obtain ps where ps: "parse_sources e ''read_source_files'' ''parse_files'' (ws_SourceFiles ws) = Some ps"
    using assms(1) by (auto simp: runFullPipeline_def split: option.splits)
  show ?thesis
  proof (cases ps)
    case (Inl f)
    then show ?thesis using assms(1) ps by (auto simp: runFullPipeline_def intro: ends_job_fail)
  next
    case (Inr q)
    obtain fc files where q: "q = (fc, files)" by (cases q)
    obtain x w1 where o: "open_snapshot e xc ver ws w = (x, w1)" by fastforce
    note op = open_snapshot_steps [OF o ok v]
    show ?thesis
    proof (cases x)
      case f: (Inl f)
      have "w' = fail_with e i f w1" using assms(1) ps Inr q o f by (simp add: runFullPipeline_def)
      then show ?thesis using op by (auto intro: ends_job_fail)
    next
      case sn: (Inr snapshot)
      have opened: "opened xc (ws_CommitSHA ws) snapshot (jobs_of w1)" using op sn by simp
      let ?in = "job_input e i xc ws (snap_ID snapshot) fc files []"
      have i: "pi_ProjectID ?in = xc_ProjectID xc" "pi_Branch ?in = xc_Branch xc" "pi_SnapshotID ?in = snap_ID snapshot"
        by (simp_all add: job_input_def)
      obtain z p where run: "pipeline_Run (job_services e xc) (he_now e) ?in (w_ps w1) = Some (z, p)"
        using assms(1) ps Inr q o sn by (auto simp: runFullPipeline_def split: option.splits)
      have "quiet_step\<^sup>*\<^sup>* (jobs_of w1) (ps_jobs p)"
        by (rule pipeline_Run_steps [OF run]) (use opened i in \<open>simp add: opened_def\<close>)
      with op have st: "quiet_step\<^sup>*\<^sup>* (jobs_of w) (jobs_of (w1\<lparr>w_ps := p\<rparr>))" by (auto intro: rtranclp_trans)
      show ?thesis
      proof (cases z)
        case (Inl m)
        then have "w' = failJob e i (categorizePipelineError m) m ''pipeline'' (w1\<lparr>w_ps := p\<rparr>)"
          using assms(1) ps Inr q o sn run by (simp add: runFullPipeline_def)
        then show ?thesis using ends_job_fail [OF st] by simp
      next
        case fin: (Inr u)
        obtain s1 where s1: "processFiles (job_services e xc) ?in (w_ps w1) = Some (Inr (), s1)"
          "ActivateSnapshotTx (he_now e) (sv_activate (job_services e xc)) (xc_ProjectID xc) (xc_Branch xc) (snap_ID snapshot) (ps_jobs s1) = (Inr (), ps_jobs p)"
          using pipeline_Run_activates [OF run [unfolded fin]] unfolding i by blast
        have "indexed xc (ws_CommitSHA ws) (ps_jobs p)"
          by (rule activate_indexed [OF s1(2) opened_snaps [OF opened processFiles_snaps [OF s1(1)]]])
        then have "ends_job e i (indexed xc (ws_CommitSHA ws)) (jobs_of w) (jobs_of (finish_job e i xc (snap_ID snapshot) head (w1\<lparr>w_ps := p\<rparr>)))"
          using finish_job_ends [OF st] by simp
        moreover have "w' = finish_job e i xc (snap_ID snapshot) head (w1\<lparr>w_ps := p\<rparr>)"
          using assms(1) ps Inr q o sn run fin by (simp add: runFullPipeline_def)
        ultimately show ?thesis by simp
      qed
    qed
  qed
qed

text \<open>The version found or created has a valid id.\<close>

lemma ResolveVersion_valid:
  assumes "ResolveVersion fresh now fts race cfg vs = (Inr ver, vs')" "uuid_Valid fresh" "list_all (\<lambda>v. uuid_Valid (ev_ID v)) (vs @ race)"
  shows "uuid_Valid (ev_ID ver)"
proof -
  have *: "v \<in> set us" if "GetEmbeddingVersionByLabel lbl us = Some v" for lbl us v
    using that by (auto simp: GetEmbeddingVersionByLabel_def find_Some_iff)
  show ?thesis
    using assms
    by (auto simp: ResolveVersion_def Let_def exec_query_def query_Inr CreateEmbeddingVersion_def list_all_iff
        split: sum.splits option.splits if_splits dest!: *)
qed

text \<open>What a run needs of the tables, the versions included.\<close>

definition world_ok :: "'f henv \<Rightarrow> 'f world \<Rightarrow> bool" where
  "world_ok e w \<longleftrightarrow> jobs_ok (he_fresh_snapshot e) (jobs_of w) \<and> uuid_Valid (he_fresh_version e) \<and>
     list_all (\<lambda>v. uuid_Valid (ev_ID v)) (w_versions w @ he_race e)"

definition indexed_head :: "'f henv \<Rightarrow> exec_Context \<Rightarrow> jdb \<Rightarrow> bool" where
  "indexed_head e xc s \<longleftrightarrow> (case he_prepare e xc of Inl _ \<Rightarrow> False | Inr ws \<Rightarrow> indexed xc (ws_CommitSHA ws) s)"

lemma prepare_job_ok:
  assumes "prepare_job e xc w = (x, w1)" "world_ok e w"
  shows "jobs_of w1 = jobs_of w \<and> w_locks w1 = w_locks w \<and>
    (\<forall>ver ws. x = Inr (ver, ws) \<longrightarrow> uuid_Valid (ev_ID ver) \<and> he_prepare e xc = Inr ws \<and> jobs_ok (he_fresh_snapshot e) (jobs_of w1))"
proof -
  let ?v = "ResolveVersion (he_fresh_version e) (he_now e) (he_version_ft e) (he_race e) (xc_Embedding xc) (w_versions w)"
  obtain y vs where v: "?v = (y, vs)" by (cases ?v)
  have "y = Inr ver \<Longrightarrow> uuid_Valid (ev_ID ver)" for ver
    using ResolveVersion_valid v assms(2) unfolding world_ok_def by blast
  then show ?thesis using assms v by (auto simp: prepare_job_def world_ok_def split: sum.splits)
qed

section \<open>The handler as a whole\<close>

text \<open>How a call of the handler can go: it stops before the claim, the claim is refused, or the claimed
  job is processed.\<close>

lemma run_job_cases:
  assumes "run_job e name body task w = Some (r, w')"
  obtains (early) m where "r = Inl m" "jobs_of w' = jobs_of w"
  | (refused) i x where "he_parse_uuid e (wt_JobID task) = Inr i"
      "ClaimJob (he_now e) (he_ft e) i (wt_WorkerID task) (jobs_of w) = (Inl x, jobs_of w')" "r = Inr () \<longleftrightarrow> x = ErrJobNotQueued"
  | (ran) i xc w1 w2 where "he_parse_uuid e (wt_JobID task) = Inr i" "LoadExecutionContext e i (jobs_of w) = Inr xc"
      "ClaimJob (he_now e) (he_ft e) i (wt_WorkerID task) (jobs_of w) = (Inr (), jobs_of w1)" "w_versions w1 = w_versions w"
      "body i xc w1 = Some w2" "jobs_of w' = jobs_of w2" "r = Inr ()"
proof (cases "he_parse_uuid e (wt_JobID task)")
  case i: (Inr i)
  show ?thesis
  proof (cases "LoadExecutionContext e i (jobs_of w)")
    case xc: (Inr xc)
    obtain x L where L: "TryProjectLock (he_ft e) (he_session e) (xc_ProjectID xc) (w_locks w) = (x, L)" by fastforce
    obtain y j where j: "ClaimJob (he_now e) (he_ft e) i (wt_WorkerID task) (jobs_of w) = (y, j)" by fastforce
    show ?thesis
    proof (cases x)
      case x: (Inr u)
      show ?thesis
      proof (cases y)
        case (Inl z)
        show ?thesis
          by (rule refused [of i z])
             (use assms i xc L x j Inl in \<open>auto simp: run_job_def Let_def split: if_splits\<close>)
      next
        case (Inr v)
        obtain w2 where "body i xc (set_jobs (w\<lparr>w_locks := L\<rparr>) j) = Some w2" "jobs_of w' = jobs_of w2" "r = Inr ()"
          using assms i xc L x j Inr by (auto simp: run_job_def Let_def)
        then show ?thesis by (intro ran [of i xc "set_jobs (w\<lparr>w_locks := L\<rparr>) j" w2]) (use i xc j Inr in simp_all)
      qed
    qed (use assms i xc L early in \<open>auto simp: run_job_def Let_def\<close>)
  qed (use assms i early in \<open>auto simp: run_job_def\<close>)
qed (use assms early in \<open>auto simp: run_job_def\<close>)

lemma claim_world_ok:
  assumes "world_ok e w" "ClaimJob now ft i wid (jobs_of w) = (x, jobs_of w1)" "w_versions w1 = w_versions w"
  shows "world_ok e w1"
proof -
  have "jobs_of w1 = snd (exec_query ft ''ClaimQueuedIndexingJob'' (Inr (ClaimQueuedIndexingJob now (if wid \<noteq> [] then Some wid else None) i (jobs_of w))) (jobs_of w))"
    using assms(2) snd_repo(1) [of now ft i wid "jobs_of w"] by simp
  then have "db_snaps (jobs_of w1) = db_snaps (jobs_of w)" "map job_ProjectID (db_jobs (jobs_of w1)) = map job_ProjectID (db_jobs (jobs_of w))"
    by (auto simp: exec_query_def ClaimQueuedIndexingJob_def update_jobs_def update_rows_def)
  moreover have "list_all (\<lambda>j. uuid_Valid (job_ProjectID j)) (db_jobs (jobs_of w1)) = list_all (\<lambda>j. uuid_Valid (job_ProjectID j)) (db_jobs (jobs_of w))"
    using calculation(2) by (metis (no_types) comp_def list.pred_map list.pred_cong)
  ultimately show ?thesis
    using assms(1,3) by (simp add: world_ok_def jobs_ok_def snaps_ok_def count_active_def new_snap_id_def)
qed

lemma context_project:
  assumes "LoadExecutionContext e i s = Inr xc" "jobs_ok fresh s"
  shows "uuid_Valid (xc_ProjectID xc)"
proof -
  obtain job where "GetIndexingJob i s = Some job" "xc_ProjectID xc = job_ProjectID job"
    using assms(1) by (auto simp: LoadExecutionContext_def one_row_def query_Inr split: sum.splits option.splits if_splits)
  then show ?thesis using assms(2) by (auto simp: GetIndexingJob_def find_Some_iff jobs_ok_def list_all_iff)
qed

lemma jobs_sat_statuses:
  "jobs_sat i P s \<longleftrightarrow> (\<exists>x \<in> set (statuses s). sql_eq (fst x) i) \<and> (\<forall>x \<in> set (statuses s). sql_eq (fst x) i \<longrightarrow> P (snd x))"
  by (auto simp: jobs_sat_def statuses_def)

text \<open>A fault that keeps a statement from taking effect; a lost answer does not.\<close>

definition no_effect :: "faults \<Rightarrow> string \<Rightarrow> bool" where
  "no_effect ft n = (ft n \<notin> {NoFault, LostAnswer})"

lemma exec_no_effect: "no_effect ft n \<Longrightarrow> snd (exec_query ft n (Inr (a, s')) s) = s"
  by (simp add: no_effect_def exec_query_def)

text \<open>A guarded change of status, when it takes effect, applied to a job in the state it asks for.\<close>

lemma jobs_sat_change:
  assumes "jobs_sat i (\<lambda>st. st = old) s" "\<And>j. job_ID (f j) = job_ID j \<and> job_Status (f j) = new" "\<not> no_effect ft n"
  shows "jobs_sat i (\<lambda>st. st = new) (snd (exec_query ft n (Inr (update_jobs (\<lambda>j. sql_eq (job_ID j) i \<and> job_Status j = old) f s)) s))"
proof -
  define g where "g = (\<lambda>j. if sql_eq (job_ID j) i \<and> job_Status j = old then f j else j)"
  have "job_ID (g j) = job_ID j" "sql_eq (job_ID j) i \<Longrightarrow> job_Status j = old \<Longrightarrow> job_Status (g j) = new" for j
    using assms(2) [of j] by (simp_all add: g_def)
  then have "jobs_sat i (\<lambda>st. st = new) (s\<lparr>db_jobs := map g (db_jobs s)\<rparr>)" using assms(1) by (auto simp: jobs_sat_def)
  then show ?thesis using assms(3) by (simp add: no_effect_def exec_query_def update_jobs_def update_rows_def g_def)
qed

lemma ends_job_settles:
  assumes "ends_job e i A s s'" "jobs_sat i (\<lambda>st. st = ''running'') s"
  shows "jobs_sat i (\<lambda>st. st = ''failed'') s' \<or>
         jobs_sat i (\<lambda>st. st = ''completed'') s' \<and> (\<exists>s1. A s1 \<and> db_snaps s' = db_snaps s1) \<or>
         jobs_sat i (\<lambda>st. st = ''running'') s' \<and>
           (no_effect (he_ft e) ''SetIndexingJobFailedFromRunning'' \<or>
            no_effect (he_ft e) ''SetIndexingJobCompletedFromRunning'' \<and> (\<exists>s1. A s1 \<and> db_snaps s' = db_snaps s1))"
proof -
  obtain s1 where s1: "quiet_step\<^sup>*\<^sup>* s s1"
    "A s1 \<and> s' = snd (SetJobCompleted (he_now e) (he_ft e) i s1) \<or> (\<exists>d. s' = snd (SetJobFailed (he_now e) (he_ft e) i d s1))"
    using assms(1) by (auto simp: ends_job_def)
  have r: "jobs_sat i (\<lambda>st. st = ''running'') s1" using assms(2) quiet_steps(2) [OF s1(1)] by (simp add: jobs_sat_statuses)
  have none: "snd (exec_query (he_ft e) n (Inr (update_jobs P f s1)) s1) = s1" if "no_effect (he_ft e) n" for n P f
    using exec_no_effect [OF that] by (metis prod.collapse)
  have "jobs_sat i (\<lambda>st. st = ''failed'') (snd (SetJobFailed (he_now e) (he_ft e) i d s1)) \<or>
      no_effect (he_ft e) ''SetIndexingJobFailedFromRunning'' \<and> snd (SetJobFailed (he_now e) (he_ft e) i d s1) = s1" for d
    unfolding snd_repo SetIndexingJobFailedFromRunning_def
    using none jobs_sat_change [OF r, of _ "''failed''" "he_ft e" "''SetIndexingJobFailedFromRunning''"]
    by (cases "no_effect (he_ft e) ''SetIndexingJobFailedFromRunning''") simp_all
  moreover have "jobs_sat i (\<lambda>st. st = ''completed'') (snd (SetJobCompleted (he_now e) (he_ft e) i s1)) \<or>
      no_effect (he_ft e) ''SetIndexingJobCompletedFromRunning'' \<and> snd (SetJobCompleted (he_now e) (he_ft e) i s1) = s1"
    unfolding snd_repo SetIndexingJobCompletedFromRunning_def
    using none jobs_sat_change [OF r, of _ "''completed''" "he_ft e" "''SetIndexingJobCompletedFromRunning''"]
    by (cases "no_effect (he_ft e) ''SetIndexingJobCompletedFromRunning''") simp_all
  moreover have "db_snaps (snd (SetJobCompleted (he_now e) (he_ft e) i s1)) = db_snaps s1"
    unfolding snd_repo by (simp add: exec_query_def SetIndexingJobCompletedFromRunning_def update_jobs_def)
  ultimately show ?thesis using s1(2) r by metis
qed

lemma claim_running:
  assumes "ClaimJob now ft i wid s = (Inr (), s1)" "jobs_sat i (\<lambda>st. st = ''queued'') s"
  shows "jobs_sat i (\<lambda>st. st = ''running'') s1"
proof -
  have "ft ''ClaimQueuedIndexingJob'' = NoFault"
    using assms(1) by (auto simp: ClaimJob_def exec_query_def query_Inr split: prod.splits sum.splits if_splits)
  then have "jobs_sat i (\<lambda>st. st = ''running'') (snd (ClaimJob now ft i wid s))"
    unfolding snd_repo ClaimQueuedIndexingJob_def by (intro jobs_sat_change [OF assms(2)]) (simp_all add: no_effect_def)
  then show ?thesis using assms(1) by simp
qed

lemma claim_refused:
  assumes "fst (ClaimJob now ft i wid s) = Inl ErrJobNotQueued"
  shows "\<not> jobs_sat i (\<lambda>st. st = ''queued'') s"
  using assms
  by (auto simp: ClaimJob_def ClaimQueuedIndexingJob_def update_jobs_def exec_query_def query_Inr jobs_sat_def filter_empty_conv
      split: prod.splits sum.splits if_splits)

lemma claim_error:
  assumes "ClaimJob now ft i wid s = (Inl x, s1)" "jobs_sat i (\<lambda>st. st = ''queued'') s"
  shows "jobs_sat i (\<lambda>st. st = ''queued'') s1 \<or> jobs_sat i (\<lambda>st. st = ''running'') s1 \<and> ft ''ClaimQueuedIndexingJob'' = LostAnswer"
proof -
  let ?c = "ClaimQueuedIndexingJob now (if wid \<noteq> [] then Some wid else None) i s"
  have s1: "s1 = snd (exec_query ft ''ClaimQueuedIndexingJob'' (Inr ?c) s)" using assms(1) snd_repo(1) [of now ft i wid s] by simp
  show ?thesis
  proof (cases "no_effect ft ''ClaimQueuedIndexingJob''")
    case True
    then have "s1 = s" unfolding s1 by (metis exec_no_effect prod.collapse)
    then show ?thesis using assms(2) by simp
  next
    case False
    then have "jobs_sat i (\<lambda>st. st = ''running'') s1"
      unfolding s1 ClaimQueuedIndexingJob_def by (intro jobs_sat_change [OF assms(2)]) simp_all
    moreover have "ft ''ClaimQueuedIndexingJob'' \<noteq> NoFault"
    proof
      assume n: "ft ''ClaimQueuedIndexingJob'' = NoFault"
      then have "x = ErrJobNotQueued" using assms(1)
        by (auto simp: ClaimJob_def exec_query_def query_def split: prod.splits if_splits)
      then show False using claim_refused [of now ft i wid s] assms by simp
    qed
    ultimately show ?thesis using False by (auto simp: no_effect_def)
  qed
qed

text \<open>How a call of a handler for a queued job leaves it: \<open>r\<close> is what the handler returns. A run that returns without an error has failed
  the job, or completed it with the branch indexed, or has left it running because the statement that ends it did not take effect
  (the handlers only log that). A run that returns an error has not begun, but for a claim whose answer was lost.\<close>

definition job_settled :: "'f henv \<Rightarrow> UUID \<Rightarrow> string + unit \<Rightarrow> jdb \<Rightarrow> jdb \<Rightarrow> bool" where
  "job_settled e i r s s' \<longleftrightarrow>
     (let branch_indexed = (\<exists>xc ws. LoadExecutionContext e i s = Inr xc \<and> he_prepare e xc = Inr ws \<and> indexed xc (ws_CommitSHA ws) s')
      in case r of
           Inr _ \<Rightarrow> jobs_sat i (\<lambda>st. st = ''failed'') s' \<or>
             jobs_sat i (\<lambda>st. st = ''completed'') s' \<and> branch_indexed \<or>
             jobs_sat i (\<lambda>st. st = ''running'') s' \<and>
               (no_effect (he_ft e) ''SetIndexingJobFailedFromRunning'' \<or> no_effect (he_ft e) ''SetIndexingJobCompletedFromRunning'' \<and> branch_indexed)
         | Inl _ \<Rightarrow> jobs_sat i (\<lambda>st. st = ''queued'') s' \<or>
             jobs_sat i (\<lambda>st. st = ''running'') s' \<and> he_ft e ''ClaimQueuedIndexingJob'' = LostAnswer)"

lemma settled_no_fault:
  assumes "job_settled e i (Inr ()) s s'" "he_ft e = (\<lambda>_. NoFault)"
  shows "jobs_sat i (\<lambda>st. st = ''failed'' \<or> st = ''completed'') s'"
  using assms by (auto simp: job_settled_def no_effect_def jobs_sat_def)

lemma unlock_after_lock:
  assumes "TryProjectLock ft sess p L = (Inr u, L1)" "\<And>k. L k \<noteq> Some sess"
  shows "unlock_project ft sess p L1 = L"
proof -
  have "L (advisoryLockKeys p) = None" "L1 = L(advisoryLockKeys p \<mapsto> sess)"
    using assms by (auto simp: TryProjectLock_def Let_def query_Inr split: sum.splits if_splits option.splits)
  then show ?thesis
    using assms(2) by (cases "query ft ''ReleaseAdvisoryLockForProject'' (Inr ())") (auto simp: unlock_project_def simp del: split_paired_All)
qed

text \<open>What the part of a handler after the claim promises: it ends the job, completed only with an active
  snapshot of the commit that was checked out, and leaves the locks alone.\<close>

locale claimed_body =
  fixes e :: "'f henv" and body :: "UUID \<Rightarrow> exec_Context \<Rightarrow> 'f world \<Rightarrow> 'f world option"
  assumes body_ends: "body i xc w = Some w' \<Longrightarrow> world_ok e w \<Longrightarrow> uuid_Valid (xc_ProjectID xc) \<Longrightarrow>
      ends_job e i (indexed_head e xc) (jobs_of w) (jobs_of w')"
    and body_locks: "body i xc w = Some w' \<Longrightarrow> w_locks w' = w_locks w"
begin

lemma ran_ends:
  assumes "world_ok e w" "LoadExecutionContext e i (jobs_of w) = Inr xc" "ClaimJob now ft i wid (jobs_of w) = (Inr (), jobs_of w1)"
    "w_versions w1 = w_versions w" "body i xc w1 = Some w2"
  shows "ends_job e i (indexed_head e xc) (jobs_of w1) (jobs_of w2)"
  by (rule body_ends [OF assms(5) claim_world_ok [OF assms(1,3,4)] context_project [OF assms(2), of "he_fresh_snapshot e"]])
     (use assms(1) in \<open>simp add: world_ok_def\<close>)

lemma refines:
  assumes "run_job e name body task w = Some (r, w')" "world_ok e w"
  shows "job_step\<^sup>*\<^sup>* (jobs_of w) (jobs_of w')"
  using assms(1)
proof (cases rule: run_job_cases)
  case (refused i x)
  then show ?thesis using job_step.claim [of "jobs_of w" "he_now e" "he_ft e" i "wt_WorkerID task"] by auto
next
  case (ran i xc w1 w2)
  have "job_step (jobs_of w) (jobs_of w1)" using job_step.claim [of "jobs_of w" "he_now e" "he_ft e" i "wt_WorkerID task"] ran(3) by simp
  moreover have "job_step\<^sup>*\<^sup>* (jobs_of w1) (jobs_of w2)" by (rule ends_job_steps [OF ran_ends [OF assms(2) ran(2-5)]])
  ultimately show ?thesis unfolding ran(6) by (rule converse_rtranclp_into_rtranclp)
qed simp

lemma settles:
  assumes "run_job e name body task w = Some (r, w')" "world_ok e w"
    and "he_parse_uuid e (wt_JobID task) = Inr i" "jobs_sat i (\<lambda>st. st = ''queued'') (jobs_of w)"
  shows "job_settled e i r (jobs_of w) (jobs_of w')"
  using assms(1)
proof (cases rule: run_job_cases)
  case (early m)
  then show ?thesis using assms(4) by (simp add: job_settled_def)
next
  case (refused k x)
  then have k: "k = i" using assms(3) by simp
  have "r \<noteq> Inr ()" using refused assms(4) claim_refused [of "he_now e" "he_ft e" k "wt_WorkerID task" "jobs_of w"] by (auto simp: k)
  then obtain m where "r = Inl m" by (cases r) auto
  then show ?thesis using claim_error [OF refused(2) [unfolded k] assms(4)] by (simp add: job_settled_def)
next
  case (ran k xc w1 w2)
  have k: "k = i" using ran(1) assms(3) by simp
  have o: "jobs_sat i (\<lambda>st. st = ''failed'') (jobs_of w2) \<or>
      jobs_sat i (\<lambda>st. st = ''completed'') (jobs_of w2) \<and> (\<exists>s1. indexed_head e xc s1 \<and> db_snaps (jobs_of w2) = db_snaps s1) \<or>
      jobs_sat i (\<lambda>st. st = ''running'') (jobs_of w2) \<and> (no_effect (he_ft e) ''SetIndexingJobFailedFromRunning'' \<or>
        no_effect (he_ft e) ''SetIndexingJobCompletedFromRunning'' \<and> (\<exists>s1. indexed_head e xc s1 \<and> db_snaps (jobs_of w2) = db_snaps s1))"
    by (rule ends_job_settles [OF ran_ends [OF assms(2) ran(2-5), unfolded k] claim_running [OF ran(3) [unfolded k] assms(4)]])
  have "\<exists>ws. he_prepare e xc = Inr ws \<and> indexed xc (ws_CommitSHA ws) s'"
    if "indexed_head e xc s1" "db_snaps s' = db_snaps s1" for s1 s'
    using that by (auto simp: indexed_head_def indexed_def split: sum.splits)
  with o ran(2) show ?thesis unfolding job_settled_def Let_def ran(6,7) k sum.case by blast
qed

lemma releases_lock:
  assumes "run_job e name body task w = Some (r, w')" "\<And>k. w_locks w k \<noteq> Some (he_session e)"
  shows "w_locks w' = w_locks w \<or>
    r \<noteq> Inr () \<and> he_ft e ''TryAdvisoryLockForProject'' = LostAnswer \<and>
    (\<exists>k. w_locks w k = None \<and> w_locks w' = (w_locks w)(k \<mapsto> he_session e))"
proof (cases "\<exists>i xc. he_parse_uuid e (wt_JobID task) = Inr i \<and> LoadExecutionContext e i (jobs_of w) = Inr xc")
  case True
  then obtain i xc where c: "he_parse_uuid e (wt_JobID task) = Inr i" "LoadExecutionContext e i (jobs_of w) = Inr xc" by blast
  obtain x L where L: "TryProjectLock (he_ft e) (he_session e) (xc_ProjectID xc) (w_locks w) = (x, L)" by fastforce
  show ?thesis
  proof (cases x)
    case (Inl m)
    then have "L = w_locks w \<or> he_ft e ''TryAdvisoryLockForProject'' = LostAnswer \<and>
        (\<exists>k. w_locks w k = None \<and> L = (w_locks w)(k \<mapsto> he_session e))"
      using L by (auto simp: TryProjectLock_def query_def Let_def simp del: split_paired_Ex split: sum.splits if_splits option.splits fault.splits
          intro!: exI [of _ "advisoryLockKeys (xc_ProjectID xc)"])
    then show ?thesis using assms(1) c L Inl by (auto simp: run_job_def simp del: split_paired_Ex)
  next
    case (Inr u)
    have "w_locks w' = unlock_project (he_ft e) (he_session e) (xc_ProjectID xc) L"
      using assms(1) c L Inr by (auto simp: run_job_def Let_def split: prod.splits sum.splits if_splits dest!: body_locks)
    then show ?thesis using unlock_after_lock [OF L [unfolded Inr] assms(2)] by simp
  qed
next
  case False
  then show ?thesis using assms(1) by (auto simp: run_job_def split: sum.splits)
qed

end

section \<open>Termination\<close>

lemma Embed_total: "0 < oc_batchSize c \<Longrightarrow> \<exists>r. Embed c post texts = Some r"
  by (auto simp: Embed_def intro: embed_loop_total)

lemma pipeline_Run_total:
  assumes "0 < oc_batchSize (sv_client sv)"
  shows "\<exists>r. pipeline_Run sv now input s = Some r"
proof -
  have "\<exists>r. embed_and_upsert sv input col n cs t = Some r" for col n cs t
    using Embed_total [OF assms, of "sv_post sv" "map ce_Content cs"]
    by (auto simp: embed_and_upsert_def Let_def split: sum.split prod.split)
  then have "\<exists>r. processFiles sv input s = Some r"
    by (auto simp: processFiles_def Let_def split: option.split sum.split prod.split)
  then show ?thesis by (auto simp: pipeline_Run_def split: option.split sum.split prod.split)
qed

lemma readSourceFiles_valid:
  assumes "readSourceFiles rd files contents = Inr contents'" "\<And>f t. contents f = Some t \<Longrightarrow> utf8_Valid t"
  shows "utf8_Valid (content_of contents' f)"
  using assms
proof (induction files arbitrary: contents)
  case Nil
  then show ?case by (simp add: content_of_def split: option.split)
next
  case (Cons g files)
  obtain data where data: "rd g = Inr data" using Cons.prems(1) by (auto split: sum.splits)
  let ?c = "if \<not> utf8_Valid data \<or> CHR 0x00 \<in> set data then contents else contents(g \<mapsto> data)"
  show ?case
  proof (rule Cons.IH)
    show "readSourceFiles rd files ?c = Inr contents'" using Cons.prems(1) data by simp
    show "utf8_Valid t" if "?c f = Some t" for f t using that Cons.prems(2) [of f t] by (auto split: if_splits)
  qed
qed

text \<open>No chunk of the results has as many continuation bytes of a rune in a row as a chunk may have bytes.\<close>

definition splittable :: "ParsedFileResult list \<Rightarrow> bool" where
  "splittable rs = list_all (\<lambda>r. list_all (\<lambda>c. rune_every DefaultMaxInputChars (ch_Content c)) (pf_Chunks r)) rs"

lemma splittable_utf8:
  "list_all (\<lambda>r. list_all (\<lambda>c. utf8_Valid (ch_Content c)) (pf_Chunks r)) rs \<Longrightarrow> splittable rs"
  by (auto simp: splittable_def list_all_iff DefaultMaxInputChars_def intro: utf8_rune_every)

text \<open>What is assumed of the parser: on files of valid UTF-8 it returns such results.\<close>

definition parser_splittable :: "'f henv \<Rightarrow> bool" where
  "parser_splittable e \<longleftrightarrow>
     (\<forall>inputs out. list_all (\<lambda>i. utf8_Valid (fi_Content i)) inputs \<longrightarrow> he_parse e inputs = Inr out \<longrightarrow> splittable out)"

lemma raw_file_result_total:
  assumes "utf8_Valid (content_of contents f)"
  shows "\<exists>r. raw_file_result contents f = Some r \<and> splittable [r]"
proof -
  obtain cs where "splitRawChunks (content_of contents f) (raw_line_count (content_of contents f)) = Some cs"
    "list_all (\<lambda>c. utf8_Valid (ch_Content c)) cs"
    using splitRawChunks_ok [OF assms, of "raw_line_count (content_of contents f)"] by (auto simp: chunks_of_text_def list_all_iff)
  then show ?thesis by (auto simp: raw_file_result_def Let_def zero_ParsedFileResult_def intro!: splittable_utf8)
qed

lemma buildRawFileResults_total:
  assumes "\<And>f. utf8_Valid (content_of contents f)"
  shows "\<exists>rs. buildRawFileResults files contents = Some rs \<and> splittable rs"
proof (induction files)
  case (Cons f files)
  then show ?case using raw_file_result_total [OF assms, of f] by (auto simp: splittable_def)
qed (simp add: splittable_def)

lemma parse_sources_total:
  assumes "parser_splittable e"
  shows "\<exists>r. parse_sources e a b files = Some r"
proof (cases "readSourceFiles (he_read e) files Map.empty")
  case (Inr fc)
  note valid = readSourceFiles_valid [OF Inr]
  let ?in = "buildFileInputs (fst (splitByParserSupport files)) fc"
  show ?thesis
  proof (cases "he_parse e ?in")
    case p: (Inr parsed)
    obtain raw where raw: "buildRawFileResults (snd (splitByParserSupport files)) fc = Some raw" "splittable raw"
      using buildRawFileResults_total [of fc, OF valid] by auto
    have "list_all (\<lambda>i. utf8_Valid (fi_Content i)) ?in" using valid by (auto simp: buildFileInputs_def list_all_iff)
    then have "splittable (parsed @ raw)"
      using assms [unfolded parser_splittable_def, rule_format, OF _ p] raw(2) by (simp add: splittable_def)
    then obtain out where "splitOversizedChunks (parsed @ raw) DefaultMaxInputChars = Some out"
      using splitOversizedChunks_ok [of DefaultMaxInputChars "parsed @ raw"] by (auto simp: splittable_def DefaultMaxInputChars_def)
    then show ?thesis using Inr p raw(1) by (simp add: parse_sources_def case_prod_beta)
  qed (simp add: parse_sources_def case_prod_beta Inr)
qed (simp add: parse_sources_def)

lemma job_services_batch: "0 < oc_batchSize (sv_client (job_services e xc))"
  by (simp add: job_services_def Let_def NewOllamaClient_def DefaultEmbedBatchSize_def)

lemma runFullPipeline_total:
  assumes "parser_splittable e"
  shows "\<exists>w'. runFullPipeline e i xc ver ws head w = Some w'"
proof -
  obtain ps where ps: "parse_sources e ''read_source_files'' ''parse_files'' (ws_SourceFiles ws) = Some ps"
    using parse_sources_total [OF assms] by blast
  have "\<exists>w'. (case pipeline_Run (job_services e xc) now input s of None \<Rightarrow> None | Some (Inl m, p) \<Rightarrow> Some (f m p) | Some (Inr _, p) \<Rightarrow> Some (g p)) = Some w'"
    for now input s and f :: "string \<Rightarrow> 'a pstate \<Rightarrow> 'a world" and g
    using pipeline_Run_total [OF job_services_batch, of e xc now input s] by (auto split: sum.split)
  then show ?thesis using ps by (simp add: runFullPipeline_def split: sum.split prod.split)
qed

lemma run_job_total:
  assumes "\<And>i xc v. \<exists>w'. body i xc v = Some w'"
  shows "\<exists>r w'. run_job e name body task w = Some (r, w')"
proof -
  have "body i xc v \<noteq> None" for i xc v using assms by (metis option.distinct(1))
  then show ?thesis by (auto simp: run_job_def Let_def split: sum.split prod.split option.split)
qed

section \<open>Locks\<close>

lemma open_snapshot_locks: "open_snapshot e xc ver ws w = (x, w1) \<Longrightarrow> w_locks w1 = w_locks w"
  by (auto simp: open_snapshot_def Let_def split: sum.splits prod.splits)

lemma finish_locks: "w_locks (failJob e i c m st w) = w_locks w" "w_locks (finish_job e i xc sn head w) = w_locks w"
  by (simp_all add: failJob_def finish_job_def Let_def)

lemma runFullPipeline_locks: "runFullPipeline e i xc ver ws head w = Some w' \<Longrightarrow> w_locks w' = w_locks w"
  by (auto simp: runFullPipeline_def finish_locks dest: open_snapshot_locks split: option.splits sum.splits prod.splits)

lemma prepare_job_locks: "prepare_job e xc w = (x, w1) \<Longrightarrow> w_locks w1 = w_locks w"
  by (auto simp: prepare_job_def split: sum.splits prod.splits)

end
