(* ===== verification/Copy_Forward.thy ===== *)
theory Copy_Forward
  imports Workflow "HOL-Library.AList" "HOL-Library.Multiset"
begin

text \<open>
  Copying the artifacts and vectors of unchanged files from one snapshot to the next
  (\<^verbatim>\<open>src/backend-worker/internal/workflow/incremental/copyforward.go\<close>), with the queries of
  \<^verbatim>\<open>src/datastore/postgres/sqlc\<close> it reads from.

  \<open>cv_scan\<close> is the order in which the database finds the rows of a table: a query with ORDER BY sorts it
  stably, one without returns it. \<open>cv_keys\<close> is the order in which Go iterates over the keys of a map.
  \<open>cv_get k\<close> and \<open>cv_upsert k\<close> are the answers of the vector database to the \<open>k\<close>-th batch. The copied
  payload of a point is a list of keys and values.
\<close>

record 'f cenv =
  cv_db :: aenv
  cv_scan :: "(UUID \<times> row) list \<Rightarrow> (UUID \<times> row) list"
  cv_keys :: "string list \<Rightarrow> string list"
  cv_get :: "nat \<Rightarrow> string \<Rightarrow> string list \<Rightarrow> string + 'f Point list"
  cv_upsert :: "nat \<Rightarrow> string option"

section \<open>Queries\<close>

text \<open>A read: it takes a call of its own and may fail.\<close>

definition read_query :: "aenv \<Rightarrow> 'a \<Rightarrow> adb \<Rightarrow> (string + 'a) \<times> adb" where
  "read_query env r s =
     (case env_fail env (a_calls s) of
        Some msg \<Rightarrow> (Inl msg, s\<lparr>a_calls := Suc (a_calls s)\<rparr>)
      | None \<Rightarrow> (Inr r, s\<lparr>a_calls := Suc (a_calls s)\<rparr>))"

definition rows_where :: "(row \<Rightarrow> 'p option) \<Rightarrow> (UUID \<times> row) list \<Rightarrow> (UUID \<times> 'p) list" where
  "rows_where f rows = List.map_filter (\<lambda>e. map_option (Pair (fst e)) (f (snd e))) rows"

definition ListSnapshotFiles :: "UUID \<Rightarrow> (UUID \<times> row) list \<Rightarrow> (UUID \<times> InsertFileParams) list" where
  "ListSnapshotFiles i rows = rows_where (\<lambda>r. case r of RFile p \<Rightarrow> if sql_eq (fp_IndexSnapshotID p) i then Some p else None | _ \<Rightarrow> None) rows"

definition ListSymbolsByFileID :: "UUID \<Rightarrow> (UUID \<times> row) list \<Rightarrow> (UUID \<times> InsertSymbolParams) list" where
  "ListSymbolsByFileID f rows = sort_key (\<lambda>e. sp_StartLine (snd e))
     (rows_where (\<lambda>r. case r of RSymbol p \<Rightarrow> if sql_eq (sp_FileID p) f then Some p else None | _ \<Rightarrow> None) rows)"

definition ListChunksByFileID :: "UUID \<Rightarrow> (UUID \<times> row) list \<Rightarrow> (UUID \<times> InsertCodeChunkParams) list" where
  "ListChunksByFileID f rows = sort_key (\<lambda>e. cp_StartLine (snd e))
     (rows_where (\<lambda>r. case r of RChunk p \<Rightarrow> if sql_eq (cp_FileID p) f then Some p else None | _ \<Rightarrow> None) rows)"

definition ListDependenciesBySnapshotAndFile :: "UUID \<Rightarrow> string \<Rightarrow> (UUID \<times> row) list \<Rightarrow> (UUID \<times> InsertDependencyParams) list" where
  "ListDependenciesBySnapshotAndFile i path rows =
     rows_where (\<lambda>r. case r of RDependency p \<Rightarrow> if sql_eq (dp_IndexSnapshotID p) i \<and> dp_SourceFilePath p = path then Some p else None | _ \<Rightarrow> None) rows"

definition ListExportsByFileID :: "UUID \<Rightarrow> (UUID \<times> row) list \<Rightarrow> (UUID \<times> InsertExportParams) list" where
  "ListExportsByFileID f rows = sort_key (\<lambda>e. ep_Line (snd e))
     (rows_where (\<lambda>r. case r of RExport p \<Rightarrow> if sql_eq (ep_FileID p) f then Some p else None | _ \<Rightarrow> None) rows)"

definition ListSymbolReferencesByFileID :: "UUID \<Rightarrow> (UUID \<times> row) list \<Rightarrow> (UUID \<times> InsertSymbolReferenceParams) list" where
  "ListSymbolReferencesByFileID f rows = sort_key (\<lambda>e. rp_StartLine (snd e))
     (rows_where (\<lambda>r. case r of RReference p \<Rightarrow> if sql_eq (rp_FileID p) f then Some p else None | _ \<Rightarrow> None) rows)"

definition ListJsxUsagesByFileID :: "UUID \<Rightarrow> (UUID \<times> row) list \<Rightarrow> (UUID \<times> InsertJsxUsageParams) list" where
  "ListJsxUsagesByFileID f rows = sort_key (\<lambda>e. jp_Line (snd e))
     (rows_where (\<lambda>r. case r of RJsx p \<Rightarrow> if sql_eq (jp_FileID p) f then Some p else None | _ \<Rightarrow> None) rows)"

definition ListNetworkCallsByFileID :: "UUID \<Rightarrow> (UUID \<times> row) list \<Rightarrow> (UUID \<times> InsertNetworkCallParams) list" where
  "ListNetworkCallsByFileID f rows = sort_key (\<lambda>e. np_StartLine (snd e))
     (rows_where (\<lambda>r. case r of RNetwork p \<Rightarrow> if sql_eq (np_FileID p) f then Some p else None | _ \<Rightarrow> None) rows)"

section \<open>Rows of a file\<close>

record CopyForwardResult =
  cf_FilesCopied :: int
  cf_ChunksCopied :: int
  cf_ChunkIDMapping :: "(string \<times> string) list"

type_synonym symbol_map = "string \<rightharpoonup> UUID"

definition remapSymbol :: "UUID \<Rightarrow> symbol_map \<Rightarrow> UUID" where
  "remapSymbol oldID m =
     (if \<not> uuid_Valid oldID then null_UUID
      else case m (uuid_Bytes oldID) of Some mapped \<Rightarrow> mapped | None \<Rightarrow> null_UUID)"

definition copy_file_row :: "ids \<Rightarrow> InsertFileParams \<Rightarrow> InsertFileParams" where
  "copy_file_row k p = p\<lparr>fp_ProjectID := id_project k, fp_IndexSnapshotID := id_snapshot k\<rparr>"

definition copy_symbol_row :: "ids \<Rightarrow> symbol_map \<Rightarrow> InsertSymbolParams \<Rightarrow> row" where
  "copy_symbol_row k m p = RSymbol (p\<lparr>sp_ProjectID := id_project k, sp_IndexSnapshotID := id_snapshot k, sp_FileID := id_file k,
     sp_ParentSymbolID := remapSymbol (sp_ParentSymbolID p) m\<rparr>)"

definition copy_chunk_row :: "ids \<Rightarrow> symbol_map \<Rightarrow> InsertCodeChunkParams \<Rightarrow> row" where
  "copy_chunk_row k m p = RChunk (p\<lparr>cp_ProjectID := id_project k, cp_IndexSnapshotID := id_snapshot k, cp_FileID := id_file k,
     cp_SymbolID := remapSymbol (cp_SymbolID p) m\<rparr>)"

definition copy_dependency_row :: "ids \<Rightarrow> symbol_map \<Rightarrow> InsertDependencyParams \<Rightarrow> row" where
  "copy_dependency_row k m p = RDependency (p\<lparr>dp_ProjectID := id_project k, dp_IndexSnapshotID := id_snapshot k,
     dp_SourceSymbolID := remapSymbol (dp_SourceSymbolID p) m\<rparr>)"

definition copy_export_row :: "ids \<Rightarrow> symbol_map \<Rightarrow> InsertExportParams \<Rightarrow> row" where
  "copy_export_row k m p = RExport (p\<lparr>ep_ProjectID := id_project k, ep_IndexSnapshotID := id_snapshot k, ep_FileID := id_file k,
     ep_SymbolID := remapSymbol (ep_SymbolID p) m\<rparr>)"

definition copy_reference_row :: "ids \<Rightarrow> symbol_map \<Rightarrow> InsertSymbolReferenceParams \<Rightarrow> row" where
  "copy_reference_row k m p = RReference (p\<lparr>rp_ProjectID := id_project k, rp_IndexSnapshotID := id_snapshot k, rp_FileID := id_file k,
     rp_SourceSymbolID := remapSymbol (rp_SourceSymbolID p) m, rp_ResolvedTargetSymbolID := remapSymbol (rp_ResolvedTargetSymbolID p) m\<rparr>)"

definition copy_jsx_row :: "ids \<Rightarrow> symbol_map \<Rightarrow> InsertJsxUsageParams \<Rightarrow> row" where
  "copy_jsx_row k m p = RJsx (p\<lparr>jp_ProjectID := id_project k, jp_IndexSnapshotID := id_snapshot k, jp_FileID := id_file k,
     jp_SourceSymbolID := remapSymbol (jp_SourceSymbolID p) m, jp_ResolvedTargetSymbolID := remapSymbol (jp_ResolvedTargetSymbolID p) m\<rparr>)"

definition copy_network_row :: "ids \<Rightarrow> symbol_map \<Rightarrow> InsertNetworkCallParams \<Rightarrow> row" where
  "copy_network_row k m p = RNetwork (p\<lparr>np_ProjectID := id_project k, np_IndexSnapshotID := id_snapshot k, np_FileID := id_file k,
     np_SourceSymbolID := remapSymbol (np_SourceSymbolID p) m\<rparr>)"

fun copy_symbols :: "aenv \<Rightarrow> ids \<Rightarrow> (UUID \<times> InsertSymbolParams) list \<Rightarrow> symbol_map \<Rightarrow> adb \<Rightarrow> (string + symbol_map) \<times> adb" where
  "copy_symbols env k [] m s = (Inr m, s)"
| "copy_symbols env k ((i, p) # syms) m s =
     (case insert_row env (copy_symbol_row k m p) s of
        (Inl x, s') \<Rightarrow> (Inl (''insert symbol '' @ sp_Name p @ '': '' @ x), s')
      | (Inr j, s') \<Rightarrow> copy_symbols env k syms (m(uuid_Bytes i \<mapsto> j)) s')"

fun copy_chunks ::
  "aenv \<Rightarrow> ids \<Rightarrow> symbol_map \<Rightarrow> (UUID \<times> InsertCodeChunkParams) list \<Rightarrow> CopyForwardResult \<Rightarrow> adb \<Rightarrow> (string + CopyForwardResult) \<times> adb" where
  "copy_chunks env k m [] result s = (Inr result, s)"
| "copy_chunks env k m ((i, p) # chunks) result s =
     (case insert_row env (copy_chunk_row k m p) s of
        (Inl x, s') \<Rightarrow> (Inl (''insert chunk: '' @ x), s')
      | (Inr j, s') \<Rightarrow>
          copy_chunks env k m chunks
            (result\<lparr>cf_ChunkIDMapping := AList.update (job_fmtUUID i) (job_fmtUUID j) (cf_ChunkIDMapping result),
                    cf_ChunksCopied := cf_ChunksCopied result + 1\<rparr>) s')"

fun copy_each :: "aenv \<Rightarrow> ('p \<Rightarrow> row) \<Rightarrow> string \<Rightarrow> (UUID \<times> 'p) list \<Rightarrow> adb \<Rightarrow> (string + unit) \<times> adb" where
  "copy_each env mk what [] s = (Inr (), s)"
| "copy_each env mk what ((i, p) # ps) s =
     (case insert_row env (mk p) s of
        (Inl x, s') \<Rightarrow> (Inl (''insert '' @ what @ '': '' @ x), s')
      | (Inr _, s') \<Rightarrow> copy_each env mk what ps s')"

text \<open>One of the steps that list the old rows and insert a copy of each.\<close>

definition copy_table ::
  "'f cenv \<Rightarrow> ((UUID \<times> row) list \<Rightarrow> (UUID \<times> 'p) list) \<Rightarrow> ('p \<Rightarrow> row) \<Rightarrow> string \<Rightarrow> string \<Rightarrow> adb \<Rightarrow> (string + unit) \<times> adb" where
  "copy_table v q mk plural what s =
     bind_err (wrap_err (''list '' @ plural @ '': '') (read_query (cv_db v) (q (cv_scan v (a_rows s))) s))
       (\<lambda>old s. copy_each (cv_db v) mk what old s)"

definition copyOneFile ::
  "'f cenv \<Rightarrow> UUID \<Rightarrow> UUID \<Rightarrow> UUID \<Rightarrow> UUID \<times> InsertFileParams \<Rightarrow> CopyForwardResult \<Rightarrow> adb \<Rightarrow> (string + CopyForwardResult) \<times> adb" where
  "copyOneFile v projectID oldSnapshotID newSnapshotID oldFile result s =
     (let env = cv_db v; old = fst oldFile; params = snd oldFile
      in bind_err (wrap_err ''insert file: '' (InsertFile env (copy_file_row \<lparr>id_project = projectID, id_snapshot = newSnapshotID, id_file = null_UUID\<rparr> params) s)) (\<lambda>fileID s.
         let k = \<lparr>id_project = projectID, id_snapshot = newSnapshotID, id_file = fileID\<rparr>
         in bind_err (wrap_err ''list symbols: '' (read_query env (ListSymbolsByFileID old (cv_scan v (a_rows s))) s)) (\<lambda>oldSymbols s.
            bind_err (copy_symbols env k oldSymbols Map.empty s) (\<lambda>m s.
            bind_err (wrap_err ''list chunks: '' (read_query env (ListChunksByFileID old (cv_scan v (a_rows s))) s)) (\<lambda>oldChunks s.
            bind_err (copy_chunks env k m oldChunks result s) (\<lambda>result s.
            bind_err (copy_table v (ListDependenciesBySnapshotAndFile oldSnapshotID (fp_FilePath params)) (copy_dependency_row k m) ''dependencies'' ''dependency'' s) (\<lambda>_ s.
            bind_err (copy_table v (ListExportsByFileID old) (copy_export_row k m) ''exports'' ''export'' s) (\<lambda>_ s.
            bind_err (copy_table v (ListSymbolReferencesByFileID old) (copy_reference_row k m) ''symbol references'' ''symbol reference'' s) (\<lambda>_ s.
            bind_err (copy_table v (ListJsxUsagesByFileID old) (copy_jsx_row k m) ''jsx usages'' ''jsx usage'' s) (\<lambda>_ s.
            bind_err (copy_table v (ListNetworkCallsByFileID old) (copy_network_row k m) ''network calls'' ''network call'' s) (\<lambda>_ s.
              (Inr (result\<lparr>cf_FilesCopied := cf_FilesCopied result + 1\<rparr>), s))))))))))))"

fun copy_files ::
  "'f cenv \<Rightarrow> UUID \<Rightarrow> UUID \<Rightarrow> UUID \<Rightarrow> string set \<Rightarrow> (UUID \<times> InsertFileParams) list \<Rightarrow> CopyForwardResult \<Rightarrow> adb \<Rightarrow> (string + CopyForwardResult) \<times> adb" where
  "copy_files v projectID oldID newID unchanged [] result s = (Inr result, s)"
| "copy_files v projectID oldID newID unchanged (f # files) result s =
     (if fp_FilePath (snd f) \<notin> unchanged then copy_files v projectID oldID newID unchanged files result s
      else case copyOneFile v projectID oldID newID f result s of
             (Inl x, s') \<Rightarrow> (Inl (''copyforward: file '' @ fp_FilePath (snd f) @ '': '' @ x), s')
           | (Inr result', s') \<Rightarrow> copy_files v projectID oldID newID unchanged files result' s')"

definition CopyForwardFiles ::
  "'f cenv \<Rightarrow> UUID \<Rightarrow> UUID \<Rightarrow> UUID \<Rightarrow> string set \<Rightarrow> (UUID \<times> InsertFileParams) list \<Rightarrow> adb \<Rightarrow> (string + CopyForwardResult) \<times> adb" where
  "CopyForwardFiles v projectID oldID newID unchanged oldFiles s =
     copy_files v projectID oldID newID unchanged oldFiles \<lparr>cf_FilesCopied = 0, cf_ChunksCopied = 0, cf_ChunkIDMapping = []\<rparr> s"

section \<open>Vectors\<close>

definition vectorCopyBatchSize :: nat where
  "vectorCopyBatchSize = 100"

definition copy_point :: "string \<Rightarrow> string \<Rightarrow> string \<Rightarrow> 'f Point \<Rightarrow> 'f Point" where
  "copy_point newSnapshotID gitCommit newID pt =
     \<lparr>pt_ID = newID, pt_Vector = pt_Vector pt,
      pt_Payload = AList.update ''raw_text_ref'' (PStr (''db://code_chunks/'' @ newID))
        (AList.update ''git_commit'' (PStr gitCommit) (AList.update ''index_snapshot_id'' (PStr newSnapshotID) (pt_Payload pt)))\<rparr>"

definition copy_points :: "(string \<times> string) list \<Rightarrow> string \<Rightarrow> string \<Rightarrow> 'f Point list \<Rightarrow> 'f Point list" where
  "copy_points mapping newSnapshotID gitCommit points =
     List.map_filter (\<lambda>pt. map_option (\<lambda>newID. copy_point newSnapshotID gitCommit newID pt) (map_of mapping (pt_ID pt))) points"

text \<open>The batch number \<open>k\<close>.\<close>

function vector_loop ::
  "'f cenv \<Rightarrow> string \<Rightarrow> (string \<times> string) list \<Rightarrow> string \<Rightarrow> string \<Rightarrow> nat \<Rightarrow> string list \<Rightarrow> (string \<times> 'f Point list) list \<Rightarrow>
   (string + unit) \<times> (string \<times> 'f Point list) list" where
  "vector_loop v collection mapping newSnapshotID gitCommit k oldIDs ups =
     (if oldIDs = [] then (Inr (), ups)
      else case cv_get v k collection (take vectorCopyBatchSize oldIDs) of
             Inl x \<Rightarrow> (Inl (''copyforward: get vectors: '' @ x), ups)
           | Inr points \<Rightarrow>
               (let newPoints = copy_points mapping newSnapshotID gitCommit points
                in if newPoints = []
                   then vector_loop v collection mapping newSnapshotID gitCommit (Suc k) (drop vectorCopyBatchSize oldIDs) ups
                   else case cv_upsert v k of
                          Some x \<Rightarrow> (Inl (''copyforward: upsert vectors: '' @ x), ups)
                        | None \<Rightarrow> vector_loop v collection mapping newSnapshotID gitCommit (Suc k) (drop vectorCopyBatchSize oldIDs)
                                    (ups @ [(collection, newPoints)])))"
  by pat_completeness auto
termination
  by (relation "measure (\<lambda>(v, c, m, n, g, k, ids, u). length ids)") (auto simp: vectorCopyBatchSize_def)

declare vector_loop.simps [simp del]

definition CopyForwardVectors ::
  "'f cenv \<Rightarrow> string \<Rightarrow> (string \<times> string) list \<Rightarrow> string \<Rightarrow> string \<Rightarrow> (string \<times> 'f Point list) list \<Rightarrow>
   (string + unit) \<times> (string \<times> 'f Point list) list" where
  "CopyForwardVectors v collection mapping newSnapshotID gitCommit ups =
     (if mapping = [] then (Inr (), ups)
      else vector_loop v collection mapping newSnapshotID gitCommit 0 (cv_keys v (map fst mapping)) ups)"

section \<open>What a copied file has\<close>

text \<open>The id of the new symbol that stands for an old one: \<open>olds\<close> are the old symbols copied and \<open>news\<close> their copies. An id that is
  NULL, or of no copied symbol, becomes NULL.\<close>

definition symbol_map_of :: "(UUID \<times> 'a) list \<Rightarrow> (UUID \<times> 'b) list \<Rightarrow> string \<rightharpoonup> UUID" where
  "symbol_map_of olds news = map_of (rev (zip (map (\<lambda>e. uuid_Bytes (fst e)) olds) (map fst news)))"

definition linked_id :: "(UUID \<times> 'a) list \<Rightarrow> (UUID \<times> 'b) list \<Rightarrow> UUID \<Rightarrow> UUID" where
  "linked_id olds news u =
     (if uuid_Valid u then case symbol_map_of olds news (uuid_Bytes u) of Some j \<Rightarrow> j | None \<Rightarrow> null_UUID else null_UUID)"

lemma remap_linked: "remapSymbol u (symbol_map_of olds news) = linked_id olds news u"
  by (simp add: remapSymbol_def linked_id_def)

text \<open>The copy of a row: the same row in the new project, snapshot and file, its symbols replaced by \<open>f\<close>.\<close>

fun copied_row :: "ids \<Rightarrow> (UUID \<Rightarrow> UUID) \<Rightarrow> row \<Rightarrow> row" where
  "copied_row k f (RSymbol p) = RSymbol (p\<lparr>sp_ProjectID := id_project k, sp_IndexSnapshotID := id_snapshot k, sp_FileID := id_file k,
     sp_ParentSymbolID := f (sp_ParentSymbolID p)\<rparr>)"
| "copied_row k f (RChunk p) = RChunk (p\<lparr>cp_ProjectID := id_project k, cp_IndexSnapshotID := id_snapshot k, cp_FileID := id_file k,
     cp_SymbolID := f (cp_SymbolID p)\<rparr>)"
| "copied_row k f (RDependency p) = RDependency (p\<lparr>dp_ProjectID := id_project k, dp_IndexSnapshotID := id_snapshot k,
     dp_SourceSymbolID := f (dp_SourceSymbolID p)\<rparr>)"
| "copied_row k f (RExport p) = RExport (p\<lparr>ep_ProjectID := id_project k, ep_IndexSnapshotID := id_snapshot k, ep_FileID := id_file k,
     ep_SymbolID := f (ep_SymbolID p)\<rparr>)"
| "copied_row k f (RReference p) = RReference (p\<lparr>rp_ProjectID := id_project k, rp_IndexSnapshotID := id_snapshot k, rp_FileID := id_file k,
     rp_SourceSymbolID := f (rp_SourceSymbolID p), rp_ResolvedTargetSymbolID := f (rp_ResolvedTargetSymbolID p)\<rparr>)"
| "copied_row k f (RJsx p) = RJsx (p\<lparr>jp_ProjectID := id_project k, jp_IndexSnapshotID := id_snapshot k, jp_FileID := id_file k,
     jp_SourceSymbolID := f (jp_SourceSymbolID p), jp_ResolvedTargetSymbolID := f (jp_ResolvedTargetSymbolID p)\<rparr>)"
| "copied_row k f (RNetwork p) = RNetwork (p\<lparr>np_ProjectID := id_project k, np_IndexSnapshotID := id_snapshot k, np_FileID := id_file k,
     np_SourceSymbolID := f (np_SourceSymbolID p)\<rparr>)"
| "copied_row k f r = r"

text \<open>The copies of the symbols, in the order of the old ones: each parent is linked to the copies made before it.\<close>

definition symbol_copies :: "ids \<Rightarrow> (UUID \<times> InsertSymbolParams) list \<Rightarrow> (UUID \<times> row) list \<Rightarrow> bool" where
  "symbol_copies k olds news \<longleftrightarrow> length news = length olds \<and>
     (\<forall>i < length olds. snd (news ! i) = copied_row k (linked_id (take i olds) (take i news)) (RSymbol (snd (olds ! i))))"

text \<open>The rows of a file: those that refer to it, and the dependencies of its path in the snapshot.\<close>

definition belongs :: "UUID \<Rightarrow> UUID \<Rightarrow> string \<Rightarrow> row \<Rightarrow> bool" where
  "belongs snap f path r =
     (case r of
        RDependency p \<Rightarrow> sql_eq (dp_IndexSnapshotID p) snap \<and> dp_SourceFilePath p = path
      | _ \<Rightarrow> (case row_file r of Some g \<Rightarrow> sql_eq g f | None \<Rightarrow> False))"

definition detail_of :: "UUID \<Rightarrow> UUID \<Rightarrow> string \<Rightarrow> row \<Rightarrow> bool" where
  "detail_of snap f path r \<longleftrightarrow> belongs snap f path r \<and> (case r of RSymbol _ \<Rightarrow> False | RChunk _ \<Rightarrow> False | _ \<Rightarrow> True)"

lemma copy_rows:
  "copy_symbol_row k m p1 = copied_row k (\<lambda>u. remapSymbol u m) (RSymbol p1)" "copy_chunk_row k m p2 = copied_row k (\<lambda>u. remapSymbol u m) (RChunk p2)"
  "copy_dependency_row k m p3 = copied_row k (\<lambda>u. remapSymbol u m) (RDependency p3)" "copy_export_row k m p4 = copied_row k (\<lambda>u. remapSymbol u m) (RExport p4)"
  "copy_reference_row k m p5 = copied_row k (\<lambda>u. remapSymbol u m) (RReference p5)" "copy_jsx_row k m p6 = copied_row k (\<lambda>u. remapSymbol u m) (RJsx p6)"
  "copy_network_row k m p7 = copied_row k (\<lambda>u. remapSymbol u m) (RNetwork p7)"
  by (simp_all add: copy_symbol_row_def copy_chunk_row_def copy_dependency_row_def copy_export_row_def copy_reference_row_def
      copy_jsx_row_def copy_network_row_def)

text \<open>The copies do not belong to the old file, when the file row and the snapshot are others.\<close>

lemma copy_rows_new:
  assumes "\<not> sql_eq (id_file k) f" "\<not> sql_eq (id_snapshot k) snap"
  shows "\<not> belongs snap f path (copy_symbol_row k m p1)" "\<not> belongs snap f path (copy_chunk_row k m p2)"
    "\<not> belongs snap f path (copy_dependency_row k m p3)" "\<not> belongs snap f path (copy_export_row k m p4)"
    "\<not> belongs snap f path (copy_reference_row k m p5)" "\<not> belongs snap f path (copy_jsx_row k m p6)"
    "\<not> belongs snap f path (copy_network_row k m p7)"
  using assms
  by (simp_all add: belongs_def copy_symbol_row_def copy_chunk_row_def copy_dependency_row_def copy_export_row_def copy_reference_row_def
      copy_jsx_row_def copy_network_row_def)

lemma rows_where_eq: "rows_where f rows = map (\<lambda>e. (fst e, the (f (snd e)))) (filter (\<lambda>e. f (snd e) \<noteq> None) rows)"
  by (induction rows) (auto simp: rows_where_def List.map_filter_simps split: option.split)

lemma rows_where_mset: "mset xs = mset ys \<Longrightarrow> mset (rows_where f xs) = mset (rows_where f ys)"
  by (simp add: rows_where_eq)

lemma rows_where_append: "rows_where f (xs @ ys) = rows_where f xs @ rows_where f ys"
  by (simp add: rows_where_eq)

lemma rows_where_none: "list_all (\<lambda>e. f (snd e) = None) ys \<Longrightarrow> rows_where f ys = []"
  by (auto simp: rows_where_eq list_all_iff filter_empty_conv)

lemma read_query_Inr: "read_query env r s = (Inr a, s') \<Longrightarrow> a = r \<and> a_rows s' = a_rows s"
  by (auto simp: read_query_def split: option.splits)

lemma copy_each_Inr:
  "copy_each env mk what ps s = (Inr (), s') \<Longrightarrow> \<exists>new. a_rows s' = a_rows s @ new \<and> map snd new = map (\<lambda>e. mk (snd e)) ps"
proof (induction ps arbitrary: s)
  case (Cons e ps)
  obtain i p where e: "e = (i, p)" by (cases e)
  obtain j s1 where j: "insert_row env (mk p) s = (Inr j, s1)" "copy_each env mk what ps s1 = (Inr (), s')"
    using Cons.prems e by (auto split: prod.splits sum.splits)
  from Cons.IH [OF j(2)] obtain new where "a_rows s' = a_rows s1 @ new" "map snd new = map (\<lambda>e. mk (snd e)) ps" by blast
  then show ?case using insert_row_Inr [OF j(1)] e by (intro exI [of _ "(j, mk p) # new"]) simp
qed simp

lemma copy_table_Inr:
  assumes "copy_table v q mk pl what s = (Inr (), s')"
  shows "\<exists>new. a_rows s' = a_rows s @ new \<and> map snd new = map (\<lambda>e. mk (snd e)) (q (cv_scan v (a_rows s)))"
proof -
  obtain s1 where "read_query (cv_db v) (q (cv_scan v (a_rows s))) s = (Inr (q (cv_scan v (a_rows s))), s1)" "a_rows s1 = a_rows s"
    "copy_each (cv_db v) mk what (q (cv_scan v (a_rows s))) s1 = (Inr (), s')"
    using assms by (auto simp: copy_table_def bind_err_Inr wrap_err_Inr dest: read_query_Inr)
  then show ?thesis using copy_each_Inr by metis
qed

lemma symbol_map_of_snoc:
  "length olds = length news \<Longrightarrow> symbol_map_of (olds @ [o1]) (news @ [n]) = (symbol_map_of olds news)(uuid_Bytes (fst o1) \<mapsto> fst n)"
  by (simp add: symbol_map_of_def)

lemma copy_symbols_Inr:
  "copy_symbols env k syms (symbol_map_of olds news) s = (Inr m', s') \<Longrightarrow> length olds = length news \<Longrightarrow>
     \<exists>new. a_rows s' = a_rows s @ new \<and> length new = length syms \<and> m' = symbol_map_of (olds @ syms) (news @ new) \<and>
       (\<forall>i < length syms. snd (new ! i) = copied_row k (linked_id (olds @ take i syms) (news @ take i new)) (RSymbol (snd (syms ! i))))"
proof (induction syms arbitrary: s olds news)
  case (Cons y syms)
  obtain i p where y: "y = (i, p)" by (cases y)
  let ?r = "copy_symbol_row k (symbol_map_of olds news) p"
  obtain j s1 where j: "insert_row env ?r s = (Inr j, s1)" "copy_symbols env k syms ((symbol_map_of olds news)(uuid_Bytes i \<mapsto> j)) s1 = (Inr m', s')"
    using Cons.prems(1) y by (auto split: prod.splits sum.splits)
  have "copy_symbols env k syms (symbol_map_of (olds @ [y]) (news @ [(j, ?r)])) s1 = (Inr m', s')"
    using j(2) Cons.prems(2) by (simp add: symbol_map_of_snoc y)
  from Cons.IH [OF this] Cons.prems(2) obtain new where new: "a_rows s' = a_rows s1 @ new" "length new = length syms"
    "m' = symbol_map_of (olds @ y # syms) (news @ (j, ?r) # new)"
    "\<forall>i < length syms. snd (new ! i) =
       copied_row k (linked_id (olds @ y # take i syms) (news @ (j, ?r) # take i new)) (RSymbol (snd (syms ! i)))" by auto
  have "snd (((j, ?r) # new) ! i) = copied_row k (linked_id (olds @ take i (y # syms)) (news @ take i ((j, ?r) # new))) (RSymbol (snd ((y # syms) ! i)))"
    if "i < length (y # syms)" for i
    using that new(4) by (cases i) (simp_all add: copy_rows(1) remap_linked y)
  then show ?case
    using insert_row_Inr [OF j(1)] new(1-3) by (intro exI [of _ "(j, ?r) # new"]) simp
qed (simp add: symbol_map_of_def)

text \<open>The mapping records each copied chunk.\<close>

definition map_chunks :: "(string \<times> string) list \<Rightarrow> (UUID \<times> 'a) list \<Rightarrow> (UUID \<times> 'b) list \<Rightarrow> (string \<times> string) list" where
  "map_chunks m olds news = fold (\<lambda>(o1, n). AList.update (job_fmtUUID (fst o1)) (job_fmtUUID (fst n))) (zip olds news) m"

lemma copy_chunks_Inr:
  "copy_chunks env k m chs res s = (Inr res', s') \<Longrightarrow>
     \<exists>new. a_rows s' = a_rows s @ new \<and> map snd new = map (\<lambda>e. copy_chunk_row k m (snd e)) chs \<and>
       cf_ChunkIDMapping res' = map_chunks (cf_ChunkIDMapping res) chs new \<and> cf_ChunksCopied res' = cf_ChunksCopied res + int (length chs) \<and>
       cf_FilesCopied res' = cf_FilesCopied res"
proof (induction chs arbitrary: s res)
  case (Cons c chs)
  obtain i p where c: "c = (i, p)" by (cases c)
  define res1 where "res1 j = res\<lparr>cf_ChunkIDMapping := AList.update (job_fmtUUID i) (job_fmtUUID j) (cf_ChunkIDMapping res),
     cf_ChunksCopied := cf_ChunksCopied res + 1\<rparr>" for j
  obtain j s1 where j: "insert_row env (copy_chunk_row k m p) s = (Inr j, s1)" "copy_chunks env k m chs (res1 j) s1 = (Inr res', s')"
    using Cons.prems c by (auto simp: res1_def split: prod.splits sum.splits)
  from Cons.IH [OF j(2)] obtain new where new: "a_rows s' = a_rows s1 @ new" "map snd new = map (\<lambda>e. copy_chunk_row k m (snd e)) chs"
    "cf_ChunkIDMapping res' = map_chunks (cf_ChunkIDMapping (res1 j)) chs new" "cf_ChunksCopied res' = cf_ChunksCopied (res1 j) + int (length chs)"
    "cf_FilesCopied res' = cf_FilesCopied (res1 j)" by blast
  show ?case
    by (rule exI [of _ "(j, copy_chunk_row k m p) # new"]) (use insert_row_Inr [OF j(1)] new c in \<open>simp add: res1_def map_chunks_def\<close>)
qed (simp add: map_chunks_def)

lemmas list_queries = ListSymbolsByFileID_def ListChunksByFileID_def ListDependenciesBySnapshotAndFile_def ListExportsByFileID_def
  ListSymbolReferencesByFileID_def ListJsxUsagesByFileID_def ListNetworkCallsByFileID_def

text \<open>The queries after the symbols and chunks together find exactly the other rows of a file.\<close>

lemma details_split:
  "image_mset (\<lambda>e. g (snd e)) (mset (filter (\<lambda>e. detail_of snap f path (snd e)) rows)) =
     image_mset (\<lambda>e. g (RDependency (snd e))) (mset (ListDependenciesBySnapshotAndFile snap path rows)) +
     image_mset (\<lambda>e. g (RExport (snd e))) (mset (ListExportsByFileID f rows)) +
     image_mset (\<lambda>e. g (RReference (snd e))) (mset (ListSymbolReferencesByFileID f rows)) +
     image_mset (\<lambda>e. g (RJsx (snd e))) (mset (ListJsxUsagesByFileID f rows)) +
     image_mset (\<lambda>e. g (RNetwork (snd e))) (mset (ListNetworkCallsByFileID f rows))"
proof (induction rows)
  case (Cons e rows)
  obtain i r where e: "e = (i, r)" by (cases e)
  show ?case
    using Cons.IH unfolding e list_queries
    by (cases r) (simp_all add: rows_where_eq belongs_def detail_of_def)
qed (simp add: list_queries rows_where_eq)

text \<open>Rows that do not belong to the file, and the order in which the database finds the rows, do not
  matter to the queries.\<close>

lemma rows_where_frame:
  assumes "\<forall>xs. mset (scan xs) = mset xs" "\<forall>e \<in> set new. f (snd e) = None"
  shows "mset (rows_where f (scan (rows @ new))) = mset (rows_where f rows)"
proof -
  have "mset (rows_where f (scan (rows @ new))) = mset (rows_where f (rows @ new))" by (rule rows_where_mset) (simp add: assms(1))
  then show ?thesis using assms(2) by (simp add: rows_where_append rows_where_none list_all_iff)
qed

lemma belongs_none:
  assumes "\<not> belongs snap f path r"
  shows "(case r of RSymbol p \<Rightarrow> if sql_eq (sp_FileID p) f then Some p else None | _ \<Rightarrow> None) = None"
    "(case r of RChunk p \<Rightarrow> if sql_eq (cp_FileID p) f then Some p else None | _ \<Rightarrow> None) = None"
    "(case r of RDependency p \<Rightarrow> if sql_eq (dp_IndexSnapshotID p) snap \<and> dp_SourceFilePath p = path then Some p else None | _ \<Rightarrow> None) = None"
    "(case r of RExport p \<Rightarrow> if sql_eq (ep_FileID p) f then Some p else None | _ \<Rightarrow> None) = None"
    "(case r of RReference p \<Rightarrow> if sql_eq (rp_FileID p) f then Some p else None | _ \<Rightarrow> None) = None"
    "(case r of RJsx p \<Rightarrow> if sql_eq (jp_FileID p) f then Some p else None | _ \<Rightarrow> None) = None"
    "(case r of RNetwork p \<Rightarrow> if sql_eq (np_FileID p) f then Some p else None | _ \<Rightarrow> None) = None"
  using assms by (cases r; simp add: belongs_def)+

lemma queries_frame:
  assumes "\<forall>xs. mset (scan xs) = mset xs" "\<forall>e \<in> set new. \<not> belongs snap f path (snd e)"
  shows "mset (ListSymbolsByFileID f (scan (rows @ new))) = mset (ListSymbolsByFileID f rows)"
    "mset (ListChunksByFileID f (scan (rows @ new))) = mset (ListChunksByFileID f rows)"
    "mset (ListDependenciesBySnapshotAndFile snap path (scan (rows @ new))) = mset (ListDependenciesBySnapshotAndFile snap path rows)"
    "mset (ListExportsByFileID f (scan (rows @ new))) = mset (ListExportsByFileID f rows)"
    "mset (ListSymbolReferencesByFileID f (scan (rows @ new))) = mset (ListSymbolReferencesByFileID f rows)"
    "mset (ListJsxUsagesByFileID f (scan (rows @ new))) = mset (ListJsxUsagesByFileID f rows)"
    "mset (ListNetworkCallsByFileID f (scan (rows @ new))) = mset (ListNetworkCallsByFileID f rows)"
  unfolding list_queries mset_sort
  by (rule rows_where_frame [OF assms(1)], rule ballI, rule belongs_none, rule assms(2) [rule_format], assumption)+

lemma InsertFile_Inr: "InsertFile env p s = (Inr i, s') \<Longrightarrow> a_rows s' = a_rows s @ [(i, RFile p)] \<and> i = env_id env (a_calls s)"
  by (auto simp: InsertFile_def insert_row_def Let_def split: if_splits option.splits)

text \<open>The steps of a successful copy: what each inserts, over the rows it finds.\<close>

lemma copyOneFile_steps:
  assumes "copyOneFile v pid oldS newS (old, params) res s = (Inr res', s')"
  obtains n k m syl syms chs dps exs rfs jxs nws r0 oldChunks where
    "k = \<lparr>id_project = pid, id_snapshot = newS, id_file = env_id (cv_db v) n\<rparr>"
    "r0 = a_rows s @ [(id_file k, RFile (copy_file_row k params))]"
    "syl = ListSymbolsByFileID old (cv_scan v r0)" "symbol_copies k syl syms" "m = symbol_map_of syl syms"
    "oldChunks = ListChunksByFileID old (cv_scan v (r0 @ syms))"
    "map snd chs = map (\<lambda>e. copy_chunk_row k m (snd e)) oldChunks"
    "map snd dps = map (\<lambda>e. copy_dependency_row k m (snd e)) (ListDependenciesBySnapshotAndFile oldS (fp_FilePath params) (cv_scan v (r0 @ syms @ chs)))"
    "map snd exs = map (\<lambda>e. copy_export_row k m (snd e)) (ListExportsByFileID old (cv_scan v (r0 @ syms @ chs @ dps)))"
    "map snd rfs = map (\<lambda>e. copy_reference_row k m (snd e)) (ListSymbolReferencesByFileID old (cv_scan v (r0 @ syms @ chs @ dps @ exs)))"
    "map snd jxs = map (\<lambda>e. copy_jsx_row k m (snd e)) (ListJsxUsagesByFileID old (cv_scan v (r0 @ syms @ chs @ dps @ exs @ rfs)))"
    "map snd nws = map (\<lambda>e. copy_network_row k m (snd e)) (ListNetworkCallsByFileID old (cv_scan v (r0 @ syms @ chs @ dps @ exs @ rfs @ jxs)))"
    "a_rows s' = r0 @ syms @ chs @ dps @ exs @ rfs @ jxs @ nws"
    "cf_ChunkIDMapping res' = map_chunks (cf_ChunkIDMapping res) oldChunks chs" "cf_ChunksCopied res' = cf_ChunksCopied res + int (length oldChunks)"
    "cf_FilesCopied res' = cf_FilesCopied res + 1"
proof -
  obtain i s1 where 1: "InsertFile (cv_db v) (copy_file_row \<lparr>id_project = pid, id_snapshot = newS, id_file = null_UUID\<rparr> params) s = (Inr i, s1)"
    using assms by (auto simp: copyOneFile_def Let_def bind_err_Inr wrap_err_Inr)
  define k where "k = \<lparr>id_project = pid, id_snapshot = newS, id_file = i\<rparr>"
  define r0 where "r0 = a_rows s @ [(id_file k, RFile (copy_file_row k params))]"
  have s1: "a_rows s1 = r0" "i = env_id (cv_db v) (a_calls s)"
    using InsertFile_Inr [OF 1] by (simp_all add: r0_def k_def copy_file_row_def)
  obtain syl s2 m s3 chl s4 s5 res1 s6 s7 s8 s9 where st:
    "read_query (cv_db v) (ListSymbolsByFileID old (cv_scan v r0)) s1 = (Inr syl, s2)"
    "copy_symbols (cv_db v) k syl Map.empty s2 = (Inr m, s3)"
    "read_query (cv_db v) (ListChunksByFileID old (cv_scan v (a_rows s3))) s3 = (Inr chl, s4)"
    "copy_chunks (cv_db v) k m chl res s4 = (Inr res1, s5)"
    "copy_table v (ListDependenciesBySnapshotAndFile oldS (fp_FilePath params)) (copy_dependency_row k m) ''dependencies'' ''dependency'' s5 = (Inr (), s6)"
    "copy_table v (ListExportsByFileID old) (copy_export_row k m) ''exports'' ''export'' s6 = (Inr (), s7)"
    "copy_table v (ListSymbolReferencesByFileID old) (copy_reference_row k m) ''symbol references'' ''symbol reference'' s7 = (Inr (), s8)"
    "copy_table v (ListJsxUsagesByFileID old) (copy_jsx_row k m) ''jsx usages'' ''jsx usage'' s8 = (Inr (), s9)"
    "copy_table v (ListNetworkCallsByFileID old) (copy_network_row k m) ''network calls'' ''network call'' s9 = (Inr (), s')"
    and res': "res' = res1\<lparr>cf_FilesCopied := cf_FilesCopied res1 + 1\<rparr>"
    using assms 1 s1(1)
    by (simp add: copyOneFile_def Let_def bind_err_Inr wrap_err_Inr flip: k_def) (elim exE conjE, simp)
  have r: "syl = ListSymbolsByFileID old (cv_scan v r0)" "a_rows s2 = r0" "chl = ListChunksByFileID old (cv_scan v (a_rows s3))" "a_rows s4 = a_rows s3"
    using read_query_Inr [OF st(1)] read_query_Inr [OF st(3)] s1(1) by simp_all
  have "copy_symbols (cv_db v) k syl (symbol_map_of [] []) s2 = (Inr m, s3)" using st(2) by (simp add: symbol_map_of_def)
  from copy_symbols_Inr [OF this] obtain syms where y: "a_rows s3 = r0 @ syms" "symbol_copies k syl syms" "m = symbol_map_of syl syms"
    by (auto simp: symbol_copies_def r(2))
  obtain chs where c: "a_rows s5 = r0 @ syms @ chs" "map snd chs = map (\<lambda>e. copy_chunk_row k m (snd e)) chl"
    "cf_ChunkIDMapping res1 = map_chunks (cf_ChunkIDMapping res) chl chs" "cf_ChunksCopied res1 = cf_ChunksCopied res + int (length chl)"
    "cf_FilesCopied res1 = cf_FilesCopied res"
    using copy_chunks_Inr [OF st(4)] r(4) y(1) by auto
  note t5 = copy_table_Inr [OF st(5), unfolded c(1)]
  then obtain dps where d: "a_rows s6 = r0 @ syms @ chs @ dps"
    "map snd dps = map (\<lambda>e. copy_dependency_row k m (snd e)) (ListDependenciesBySnapshotAndFile oldS (fp_FilePath params) (cv_scan v (r0 @ syms @ chs)))" by auto
  obtain exs where x: "a_rows s7 = r0 @ syms @ chs @ dps @ exs"
    "map snd exs = map (\<lambda>e. copy_export_row k m (snd e)) (ListExportsByFileID old (cv_scan v (r0 @ syms @ chs @ dps)))"
    using copy_table_Inr [OF st(6), unfolded d(1)] by auto
  obtain rfs where f: "a_rows s8 = r0 @ syms @ chs @ dps @ exs @ rfs"
    "map snd rfs = map (\<lambda>e. copy_reference_row k m (snd e)) (ListSymbolReferencesByFileID old (cv_scan v (r0 @ syms @ chs @ dps @ exs)))"
    using copy_table_Inr [OF st(7), unfolded x(1)] by auto
  obtain jxs where j: "a_rows s9 = r0 @ syms @ chs @ dps @ exs @ rfs @ jxs"
    "map snd jxs = map (\<lambda>e. copy_jsx_row k m (snd e)) (ListJsxUsagesByFileID old (cv_scan v (r0 @ syms @ chs @ dps @ exs @ rfs)))"
    using copy_table_Inr [OF st(8), unfolded f(1)] by auto
  obtain nws where n: "a_rows s' = r0 @ syms @ chs @ dps @ exs @ rfs @ jxs @ nws"
    "map snd nws = map (\<lambda>e. copy_network_row k m (snd e)) (ListNetworkCallsByFileID old (cv_scan v (r0 @ syms @ chs @ dps @ exs @ rfs @ jxs)))"
    using copy_table_Inr [OF st(9), unfolded j(1)] by auto
  show ?thesis
    by (rule that [of k "a_calls s" r0 syl syms m chl chs dps exs rfs jxs nws])
       (use k_def s1(2) r0_def y r c d(2) x(2) f(2) j(2) n res' in simp_all)
qed

lemma map_snd_mem: "map snd xs = map (\<lambda>e. mk (snd e)) ys \<Longrightarrow> e \<in> set xs \<Longrightarrow> \<exists>p. snd e = mk p"
  by (induction xs arbitrary: ys) auto

lemma copied_mset:
  assumes "map snd new = map (\<lambda>e. mk (snd e)) q" "mset q = mset q0" "\<And>p. mk p = g (con p)"
  shows "image_mset snd (mset new) = image_mset (\<lambda>e. g (con (snd e))) (mset q0)"
proof -
  have "mset (map snd new) = mset (map (\<lambda>e. g (con (snd e))) q)" unfolding assms(1) by (simp add: assms(3))
  then show ?thesis by (simp add: assms(2))
qed

text \<open>C11: A copied file has a file row of the new snapshot; a copy of each symbol of the old file, in the order of their start lines;
  a copy of each of its chunks, whose ids the mapping records; and copies of exactly its dependencies, exports, references, JSX usages and
  network calls, each as often. A copy is the old row but for the project, the snapshot, the file and the symbols it refers to: an old
  symbol of the file becomes the copy of that symbol, and any other becomes NULL. The parent of a symbol is looked up among the symbols
  copied before it only, so a parent that comes later in the order is lost.\<close>

theorem copyOneFile_faithful:
  assumes "copyOneFile v pid oldS newS (old, params) res s = (Inr res', s')"
    and perm: "\<forall>xs. mset (cv_scan v xs) = mset xs" and fresh: "\<forall>n. \<not> sql_eq (env_id (cv_db v) n) old" and snaps: "\<not> sql_eq newS oldS"
  shows "\<exists>k olds syms oldChunks chs rest. id_project k = pid \<and> id_snapshot k = newS \<and>
    a_rows s' = a_rows s @ (id_file k, RFile (params\<lparr>fp_ProjectID := pid, fp_IndexSnapshotID := newS\<rparr>)) # syms @ chs @ rest \<and>
    mset olds = mset (ListSymbolsByFileID old (a_rows s)) \<and> sorted (map (\<lambda>e. sp_StartLine (snd e)) olds) \<and> symbol_copies k olds syms \<and>
    mset oldChunks = mset (ListChunksByFileID old (a_rows s)) \<and>
    map snd chs = map (\<lambda>e. copied_row k (linked_id olds syms) (RChunk (snd e))) oldChunks \<and>
    cf_ChunkIDMapping res' = map_chunks (cf_ChunkIDMapping res) oldChunks chs \<and>
    image_mset snd (mset rest) =
      image_mset (\<lambda>e. copied_row k (linked_id olds syms) (snd e)) (mset (filter (\<lambda>e. detail_of oldS old (fp_FilePath params) (snd e)) (a_rows s)))"
  using assms(1)
proof (rule copyOneFile_steps)
  fix n k m syl syms chs dps exs rfs jxs nws r0 oldChunks
  let ?P = "\<lambda>r. \<not> belongs oldS old (fp_FilePath params) r"
  assume k: "k = \<lparr>id_project = pid, id_snapshot = newS, id_file = env_id (cv_db v) n\<rparr>"
    and r0: "r0 = a_rows s @ [(id_file k, RFile (copy_file_row k params))]"
    and syl: "syl = ListSymbolsByFileID old (cv_scan v r0)" and sy: "symbol_copies k syl syms" and m: "m = symbol_map_of syl syms"
    and oc: "oldChunks = ListChunksByFileID old (cv_scan v (r0 @ syms))"
    and 2: "map snd chs = map (\<lambda>e. copy_chunk_row k m (snd e)) oldChunks"
    and 3: "map snd dps = map (\<lambda>e. copy_dependency_row k m (snd e)) (ListDependenciesBySnapshotAndFile oldS (fp_FilePath params) (cv_scan v (r0 @ syms @ chs)))"
    and 4: "map snd exs = map (\<lambda>e. copy_export_row k m (snd e)) (ListExportsByFileID old (cv_scan v (r0 @ syms @ chs @ dps)))"
    and 5: "map snd rfs = map (\<lambda>e. copy_reference_row k m (snd e)) (ListSymbolReferencesByFileID old (cv_scan v (r0 @ syms @ chs @ dps @ exs)))"
    and 6: "map snd jxs = map (\<lambda>e. copy_jsx_row k m (snd e)) (ListJsxUsagesByFileID old (cv_scan v (r0 @ syms @ chs @ dps @ exs @ rfs)))"
    and 7: "map snd nws = map (\<lambda>e. copy_network_row k m (snd e)) (ListNetworkCallsByFileID old (cv_scan v (r0 @ syms @ chs @ dps @ exs @ rfs @ jxs)))"
    and s': "a_rows s' = r0 @ syms @ chs @ dps @ exs @ rfs @ jxs @ nws"
    and mapping: "cf_ChunkIDMapping res' = map_chunks (cf_ChunkIDMapping res) oldChunks chs"
  have kk: "\<not> sql_eq (id_file k) old" "\<not> sql_eq (id_snapshot k) oldS" using fresh snaps by (simp_all add: k)
  note not_old = copy_rows_new [OF kk]
  let ?F = "[(id_file k, RFile (copy_file_row k params))]"
  have fl: "\<forall>e \<in> set ?F. ?P (snd e)" by (simp add: belongs_def)
  have "\<forall>e \<in> set syms. \<exists>f p. snd e = copied_row k f (RSymbol p)"
    using sy unfolding symbol_copies_def by (metis in_set_conv_nth)
  then have "\<forall>e \<in> set syms. ?P (snd e)" using kk(1) by (auto simp: belongs_def dest!: bspec)
  then have P: "\<forall>e \<in> set syms. ?P (snd e)" "\<forall>e \<in> set chs. ?P (snd e)" "\<forall>e \<in> set dps. ?P (snd e)" "\<forall>e \<in> set exs. ?P (snd e)"
    "\<forall>e \<in> set rfs. ?P (snd e)" "\<forall>e \<in> set jxs. ?P (snd e)"
    using not_old map_snd_mem [OF 2] map_snd_mem [OF 3] map_snd_mem [OF 4] map_snd_mem [OF 5] map_snd_mem [OF 6] by metis+
  have q: "mset (ListSymbolsByFileID old (cv_scan v (a_rows s @ ?F))) = mset (ListSymbolsByFileID old (a_rows s))"
    "mset (ListChunksByFileID old (cv_scan v (a_rows s @ ?F @ syms))) = mset (ListChunksByFileID old (a_rows s))"
    "mset (ListDependenciesBySnapshotAndFile oldS (fp_FilePath params) (cv_scan v (a_rows s @ ?F @ syms @ chs))) = mset (ListDependenciesBySnapshotAndFile oldS (fp_FilePath params) (a_rows s))"
    "mset (ListExportsByFileID old (cv_scan v (a_rows s @ ?F @ syms @ chs @ dps))) = mset (ListExportsByFileID old (a_rows s))"
    "mset (ListSymbolReferencesByFileID old (cv_scan v (a_rows s @ ?F @ syms @ chs @ dps @ exs))) = mset (ListSymbolReferencesByFileID old (a_rows s))"
    "mset (ListJsxUsagesByFileID old (cv_scan v (a_rows s @ ?F @ syms @ chs @ dps @ exs @ rfs))) = mset (ListJsxUsagesByFileID old (a_rows s))"
    "mset (ListNetworkCallsByFileID old (cv_scan v (a_rows s @ ?F @ syms @ chs @ dps @ exs @ rfs @ jxs))) = mset (ListNetworkCallsByFileID old (a_rows s))"
    by (rule queries_frame [OF perm, of _ oldS old "fp_FilePath params"], use fl P in \<open>simp only: set_append ball_Un simp_thms\<close>)+
  let ?g = "copied_row k (linked_id syl syms)"
  have g: "(\<lambda>u. remapSymbol u m) = linked_id syl syms" by (rule ext) (simp add: m remap_linked)
  note rows = copy_rows [of k m, unfolded g]
  note parts = copied_mset [OF 3 [unfolded r0 append_assoc] q(3), of ?g, OF rows(3)] copied_mset [OF 4 [unfolded r0 append_assoc] q(4), of ?g, OF rows(4)]
    copied_mset [OF 5 [unfolded r0 append_assoc] q(5), of ?g, OF rows(5)] copied_mset [OF 6 [unfolded r0 append_assoc] q(6), of ?g, OF rows(6)]
    copied_mset [OF 7 [unfolded r0 append_assoc] q(7), of ?g, OF rows(7)]
  let ?rest = "dps @ exs @ rfs @ jxs @ nws"
  have "image_mset snd (mset ?rest) = image_mset (\<lambda>e. ?g (snd e)) (mset (filter (\<lambda>e. detail_of oldS old (fp_FilePath params) (snd e)) (a_rows s)))"
    unfolding details_split by (simp only: mset_append image_mset_union parts add.assoc)
  moreover have "mset syl = mset (ListSymbolsByFileID old (a_rows s))" "mset oldChunks = mset (ListChunksByFileID old (a_rows s))"
    using q(1,2) by (simp_all add: syl oc r0)
  moreover have "sorted (map (\<lambda>e. sp_StartLine (snd e)) syl)" by (simp add: syl ListSymbolsByFileID_def)
  moreover have "map snd chs = map (\<lambda>e. ?g (RChunk (snd e))) oldChunks" using 2 by (simp add: rows(2))
  moreover have "a_rows s' = a_rows s @ (id_file k, RFile (params\<lparr>fp_ProjectID := pid, fp_IndexSnapshotID := newS\<rparr>)) # syms @ chs @ ?rest"
    by (simp add: s' r0 k copy_file_row_def)
  ultimately show ?thesis using k sy mapping
    by (intro exI [of _ k] exI [of _ syl] exI [of _ syms] exI [of _ oldChunks] exI [of _ chs] exI [of _ ?rest]) (simp del: mset_append)
qed


section \<open>What is copied of the vectors\<close>

lemma map_filter_append: "List.map_filter f (xs @ ys) = List.map_filter f xs @ List.map_filter f ys"
  by (simp add: List.map_filter_def)

lemma map_filter_mset: "mset xs = mset ys \<Longrightarrow> mset (List.map_filter f xs) = mset (List.map_filter f ys)"
  by (simp add: List.map_filter_def)

lemma length_map_filter: "length (List.map_filter f xs) \<le> length xs"
  by (simp add: List.map_filter_def)

definition copied_point :: "(string \<times> string) list \<Rightarrow> string \<Rightarrow> string \<Rightarrow> (string \<Rightarrow> 'f Point option) \<Rightarrow> string \<Rightarrow> 'f Point option" where
  "copied_point mapping sn commit store i =
     (case store i of None \<Rightarrow> None | Some pt \<Rightarrow> map_option (\<lambda>n. copy_point sn commit n pt) (map_of mapping i))"

lemma copy_points_store:
  assumes "\<forall>i pt. store i = Some pt \<longrightarrow> pt_ID pt = i"
  shows "copy_points mapping sn commit (List.map_filter store ids) = List.map_filter (copied_point mapping sn commit store) ids"
  using assms by (induction ids) (auto simp: copy_points_def copied_point_def List.map_filter_simps split: option.split)

lemma vector_loop_exact:
  assumes "vector_loop v col mapping sn commit k ids ups = (Inr (), ups')"
    and "\<forall>k ids. cv_get v k col ids = Inr (List.map_filter store ids)" "\<forall>i pt. store i = Some pt \<longrightarrow> pt_ID pt = i"
  shows "\<exists>batches. ups' = ups @ map (Pair col) batches \<and> (\<forall>b \<in> set batches. length b \<le> vectorCopyBatchSize) \<and>
     concat batches = List.map_filter (copied_point mapping sn commit store) ids"
  using assms(1)
proof (induction ids arbitrary: k ups rule: length_induct)
  case (1 ids)
  show ?case
  proof (cases "ids = []")
    case True
    then show ?thesis using 1(2) by (simp add: vector_loop.simps List.map_filter_simps)
  next
    case False
    let ?c = "copied_point mapping sn commit store"
    let ?b = "List.map_filter ?c (take vectorCopyBatchSize ids)" and ?r = "drop vectorCopyBatchSize ids"
    define u where "u = (if ?b = [] then ups else ups @ [(col, ?b)])"
    have "vector_loop v col mapping sn commit (Suc k) ?r u = (Inr (), ups')"
      using 1(2) False assms(2) by (subst (asm) vector_loop.simps) (auto simp: copy_points_store [OF assms(3)] u_def Let_def split: option.splits if_splits)
    moreover have "length ?r < length ids" using False by (simp add: vectorCopyBatchSize_def)
    ultimately obtain batches where b: "ups' = u @ map (Pair col) batches" "\<forall>b \<in> set batches. length b \<le> vectorCopyBatchSize"
      "concat batches = List.map_filter ?c ?r" using 1(1) by blast
    have "length ?b \<le> vectorCopyBatchSize" using length_map_filter [of ?c "take vectorCopyBatchSize ids"] by simp
    moreover have "List.map_filter ?c ids = ?b @ List.map_filter ?c ?r" by (simp flip: map_filter_append)
    ultimately show ?thesis
      using b by (intro exI [of _ "(if ?b = [] then [] else [?b]) @ batches"]) (auto simp: u_def)
  qed
qed

text \<open>C12: When the copy of the vectors succeeds and the vector database returns the points it stores, each under its id,
  the points stored under the new ids, in batches of at most 100, are exactly the copies of the points the old chunks had: a
  chunk whose vector is missing is left without one, with no error.\<close>

theorem CopyForwardVectors_exact:
  assumes "CopyForwardVectors v col mapping sn commit ups = (Inr (), ups')" "distinct (map fst mapping)"
    and "\<forall>ids. mset (cv_keys v ids) = mset ids" "\<forall>k ids. cv_get v k col ids = Inr (List.map_filter store ids)"
    and "\<forall>i pt. store i = Some pt \<longrightarrow> pt_ID pt = i"
  shows "\<exists>batches. ups' = ups @ map (Pair col) batches \<and> (\<forall>b \<in> set batches. length b \<le> 100) \<and>
     mset (concat batches) = mset (List.map_filter (\<lambda>(old, new). map_option (copy_point sn commit new) (store old)) mapping)"
proof -
  have eq: "List.map_filter (copied_point m sn commit store) (map fst mapping) =
      List.map_filter (\<lambda>(old, new). map_option (copy_point sn commit new) (store old)) mapping"
    if "\<forall>x \<in> set mapping. map_of m (fst x) = Some (snd x)" for m
    using that by (induction mapping) (auto simp: List.map_filter_simps copied_point_def split: option.split)
  have "\<forall>x \<in> set mapping. map_of mapping (fst x) = Some (snd x)" using assms(2) by (simp add: map_of_eq_Some_iff)
  note eq = eq [OF this]
  show ?thesis
  proof (cases "mapping = []")
    case True
    then show ?thesis using assms(1) by (simp add: CopyForwardVectors_def List.map_filter_simps)
  next
    case False
    then have "vector_loop v col mapping sn commit 0 (cv_keys v (map fst mapping)) ups = (Inr (), ups')"
      using assms(1) by (simp add: CopyForwardVectors_def)
    then obtain batches where b: "ups' = ups @ map (Pair col) batches" "\<forall>b \<in> set batches. length b \<le> vectorCopyBatchSize"
      "concat batches = List.map_filter (copied_point mapping sn commit store) (cv_keys v (map fst mapping))"
      using vector_loop_exact [OF _ assms(4,5)] by blast
    have "mset (concat batches) = mset (List.map_filter (copied_point mapping sn commit store) (map fst mapping))"
      unfolding b(3) by (rule map_filter_mset) (use assms(3) in simp)
    then show ?thesis using b(1,2) eq by (auto simp: vectorCopyBatchSize_def)
  qed
qed

section \<open>An example\<close>

definition ex_cenv :: "nat cenv" where
  "ex_cenv = \<lparr>cv_db = \<lparr>env_id = (\<lambda>n. ex_uuid (if n = 0 then 9 else 8)), env_fail = (\<lambda>_. None)\<rparr>, cv_scan = rev, cv_keys = rev,
     cv_get = (\<lambda>_ _ ids. Inr (List.map_filter (\<lambda>i. if i = ''a'' then Some \<lparr>pt_ID = ''a'', pt_Vector = [7], pt_Payload = []\<rparr> else None) ids)),
     cv_upsert = (\<lambda>_. None)\<rparr>"

definition ex_file :: InsertFileParams where
  "ex_file = \<lparr>fp_ProjectID = ex_uuid 2, fp_IndexSnapshotID = ex_uuid 3, fp_FilePath = ''a.go'', fp_Language = None, fp_FileHash = [],
     fp_SizeBytes = 1, fp_LineCount = 1, fp_FileContentID = null_UUID, fp_FileFacts = None, fp_ParserMeta = None, fp_ExtractorStatuses = [],
     fp_Issues = []\<rparr>"

definition ex_chunk_row :: InsertCodeChunkParams where
  "ex_chunk_row = \<lparr>cp_ProjectID = ex_uuid 2, cp_IndexSnapshotID = ex_uuid 3, cp_FileID = ex_uuid 1, cp_SymbolID = null_UUID, cp_ChunkType = ''raw'',
     cp_ChunkHash = [], cp_Content = ''x'', cp_ContextBefore = None, cp_ContextAfter = None, cp_StartLine = 1, cp_EndLine = 1, cp_EstimatedTokens = None,
     cp_OwnerQualifiedName = None, cp_OwnerKind = None, cp_IsExportedContext = False, cp_SemanticRole = None\<rparr>"

definition ex_rows :: adb where
  "ex_rows = \<lparr>a_rows = [(ex_uuid 1, RFile ex_file), (ex_uuid 5, RChunk ex_chunk_row)], a_calls = 0\<rparr>"

lemma ex_copy:
  "\<exists>res s'. copyOneFile ex_cenv (ex_uuid 2) (ex_uuid 3) (ex_uuid 4) (ex_uuid 1, ex_file) \<lparr>cf_FilesCopied = 0, cf_ChunksCopied = 0, cf_ChunkIDMapping = []\<rparr> ex_rows = (Inr res, s') \<and>
     a_rows s' = a_rows ex_rows @ [(ex_uuid 9, RFile (ex_file\<lparr>fp_IndexSnapshotID := ex_uuid 4\<rparr>)),
       (ex_uuid 8, RChunk (ex_chunk_row\<lparr>cp_IndexSnapshotID := ex_uuid 4, cp_FileID := ex_uuid 9\<rparr>))]"
  by (simp add: copyOneFile_def Let_def ex_cenv_def ex_rows_def InsertFile_def insert_row_def same_file_def copy_file_row_def bind_err_def wrap_err_def
      read_query_def list_queries rows_where_def List.map_filter_simps copy_table_def copy_chunk_row_def remapSymbol_def ex_file_def ex_chunk_row_def
      sql_eq_def ex_uuid_def ex_chars null_UUID_def)

theorem copyOneFile_faithful_witness:
  "\<exists>res s' k c. copyOneFile ex_cenv (ex_uuid 2) (ex_uuid 3) (ex_uuid 4) (ex_uuid 1, ex_file) \<lparr>cf_FilesCopied = 0, cf_ChunksCopied = 0, cf_ChunkIDMapping = []\<rparr> ex_rows = (Inr res, s') \<and>
     a_rows s' = a_rows ex_rows @ [(id_file k, RFile (ex_file\<lparr>fp_ProjectID := ex_uuid 2, fp_IndexSnapshotID := ex_uuid 4\<rparr>)), (c, copied_row k (\<lambda>_. null_UUID) (RChunk ex_chunk_row))]"
proof -
  obtain res s' where c: "copyOneFile ex_cenv (ex_uuid 2) (ex_uuid 3) (ex_uuid 4) (ex_uuid 1, ex_file) \<lparr>cf_FilesCopied = 0, cf_ChunksCopied = 0, cf_ChunkIDMapping = []\<rparr> ex_rows = (Inr res, s')"
    using ex_copy by blast
  have "\<forall>xs. mset (cv_scan ex_cenv xs) = mset xs" "\<forall>n. \<not> sql_eq (env_id (cv_db ex_cenv) n) (ex_uuid 1)" "\<not> sql_eq (ex_uuid 4) (ex_uuid 3)"
    by (simp_all add: ex_cenv_def sql_eq_def ex_uuid_def)
  from copyOneFile_faithful [OF c this] obtain k olds syms oldChunks chs rest where
    r: "a_rows s' = a_rows ex_rows @ (id_file k, RFile (ex_file\<lparr>fp_ProjectID := ex_uuid 2, fp_IndexSnapshotID := ex_uuid 4\<rparr>)) # syms @ chs @ rest"
    and p: "mset olds = mset (ListSymbolsByFileID (ex_uuid 1) (a_rows ex_rows))" "symbol_copies k olds syms"
      "mset oldChunks = mset (ListChunksByFileID (ex_uuid 1) (a_rows ex_rows))" "map snd chs = map (\<lambda>e. copied_row k (linked_id olds syms) (RChunk (snd e))) oldChunks"
      "image_mset snd (mset rest) =
        image_mset (\<lambda>e. copied_row k (linked_id olds syms) (snd e)) (mset (filter (\<lambda>e. detail_of (ex_uuid 3) (ex_uuid 1) (fp_FilePath ex_file) (snd e)) (a_rows ex_rows)))"
    by blast
  have "ListSymbolsByFileID (ex_uuid 1) (a_rows ex_rows) = []" "ListChunksByFileID (ex_uuid 1) (a_rows ex_rows) = [(ex_uuid 5, ex_chunk_row)]"
    "filter (\<lambda>e. detail_of (ex_uuid 3) (ex_uuid 1) (fp_FilePath ex_file) (snd e)) (a_rows ex_rows) = []"
    by (simp_all add: list_queries rows_where_def List.map_filter_simps ex_rows_def ex_chunk_row_def detail_of_def belongs_def sql_eq_def ex_uuid_def)
  note q = this
  have o: "olds = []" "syms = []" "oldChunks = [(ex_uuid 5, ex_chunk_row)]" "rest = []"
    using p(1) [unfolded q(1)] p(2) p(3) [unfolded q(2)] p(5) [unfolded q(3)] by (simp_all add: symbol_copies_def)
  moreover obtain c where "chs = [(c, copied_row k (linked_id olds syms) (RChunk ex_chunk_row))]" using p(4) o(3) by (auto simp del: copied_row.simps)
  moreover have "linked_id ([] :: (UUID \<times> InsertSymbolParams) list) ([] :: (UUID \<times> row) list) = (\<lambda>_. null_UUID)"
    by (rule ext) (simp add: linked_id_def symbol_map_of_def)
  ultimately show ?thesis using c r by (intro exI conjI) (assumption, simp)
qed

theorem CopyForwardVectors_exact_witness:
  "\<exists>batches. snd (CopyForwardVectors ex_cenv ''c'' [(''a'', ''b''), (''x'', ''y'')] ''s'' ''g'' []) = map (Pair ''c'') batches \<and>
     mset (concat batches) = {#copy_point ''s'' ''g'' ''b'' \<lparr>pt_ID = ''a'', pt_Vector = [7], pt_Payload = []\<rparr>#}"
proof -
  let ?m = "[(''a'', ''b''), (''x'', ''y'')]" and ?store = "\<lambda>i. if i = ''a'' then Some \<lparr>pt_ID = ''a'', pt_Vector = [7 :: nat], pt_Payload = []\<rparr> else None"
  have f: "cv_keys ex_cenv = rev" "cv_get ex_cenv = (\<lambda>_ _ ids. Inr (List.map_filter ?store ids))" "cv_upsert ex_cenv = (\<lambda>_. None)"
    by (simp_all add: ex_cenv_def)
  have fin: "vector_loop ex_cenv ''c'' ?m ''s'' ''g'' (Suc 0) [] u = (Inr (), u)" for u by (simp add: vector_loop.simps)
  have "fst (CopyForwardVectors ex_cenv ''c'' ?m ''s'' ''g'' []) = Inr ()"
    unfolding CopyForwardVectors_def by (subst vector_loop.simps) (simp add: f Let_def vectorCopyBatchSize_def fin)
  then obtain ups' where u: "CopyForwardVectors ex_cenv ''c'' ?m ''s'' ''g'' [] = (Inr (), ups')"
    by (cases "CopyForwardVectors ex_cenv ''c'' ?m ''s'' ''g'' []") simp
  have "\<forall>ids. mset (cv_keys ex_cenv ids) = mset ids" "\<forall>k ids. cv_get ex_cenv k ''c'' ids = Inr (List.map_filter ?store ids)"
    by (simp_all add: ex_cenv_def)
  moreover have "\<forall>i pt. ?store i = Some pt \<longrightarrow> pt_ID pt = i" by (simp split: if_splits)
  ultimately show ?thesis using CopyForwardVectors_exact [OF u, of ?store] u by (auto simp: List.map_filter_simps)
qed

end
