(* ===== verification/Full_Index.thy ===== *)
theory Full_Index
  imports Workflow
begin

text \<open>
  The full-index workflow (\<^verbatim>\<open>src/backend-worker/internal/workflow/fullindex/handler.go\<close>): after the claim
  the whole worktree is parsed and stored in a snapshot. The properties of the handler come from the
  interface of \<open>Workflow\<close>.
\<close>

definition process_claimed :: "'f henv \<Rightarrow> UUID \<Rightarrow> exec_Context \<Rightarrow> 'f world \<Rightarrow> 'f world option" where
  "process_claimed e jobID xc w =
     (case prepare_job e xc w of
        (Inl f, w) \<Rightarrow> Some (fail_with e jobID f w)
      | (Inr (ver, ws), w) \<Rightarrow>
          (let commitResult = (case he_commits e of Some (Inr cr) \<Rightarrow> Some cr | _ \<Rightarrow> None)
           in runFullPipeline e jobID xc ver ws (commitHeadDBID commitResult) w))"

definition Handle :: "'f henv \<Rightarrow> WorkflowTask \<Rightarrow> 'f world \<Rightarrow> ((string + unit) \<times> 'f world) option" where
  "Handle e task w = run_job e ''fullindex'' (process_claimed e) task w"

lemma process_claimed_ends:
  assumes "process_claimed e i xc w = Some w'" "world_ok e w" "uuid_Valid (xc_ProjectID xc)"
  shows "ends_job e i (indexed_head e xc) (jobs_of w) (jobs_of w')"
proof -
  obtain x w1 where p: "prepare_job e xc w = (x, w1)" by fastforce
  note ok = prepare_job_ok [OF p assms(2)]
  show ?thesis
  proof (cases x)
    case (Inl f)
    then have "w' = fail_with e i f w1" using assms(1) p by (simp add: process_claimed_def)
    then show ?thesis using ok by (auto intro: ends_job_fail)
  next
    case (Inr vw)
    obtain ver ws where vw: "vw = (ver, ws)" by (cases vw)
    obtain head where "runFullPipeline e i xc ver ws head w1 = Some w'"
      using assms(1) p Inr vw by (simp add: process_claimed_def Let_def)
    from runFullPipeline_ends [OF this] have "ends_job e i (indexed xc (ws_CommitSHA ws)) (jobs_of w) (jobs_of w')"
      using ok Inr vw assms(3) by auto
    then show ?thesis by (rule ends_job_mono) (use ok Inr vw in \<open>simp add: indexed_head_def\<close>)
  qed
qed

lemma process_claimed_locks: "process_claimed e i xc w = Some w' \<Longrightarrow> w_locks w' = w_locks w"
  by (auto simp: process_claimed_def Let_def finish_locks dest!: prepare_job_locks runFullPipeline_locks split: sum.splits prod.splits)

interpretation full: claimed_body e "process_claimed e" for e
  by unfold_locales (fact process_claimed_ends, fact process_claimed_locks)

lemma process_claimed_total:
  assumes "parser_splittable e"
  shows "\<exists>w'. process_claimed e i xc w = Some w'"
  using runFullPipeline_total [OF assms] by (auto simp: process_claimed_def Let_def split: sum.split prod.split)

text \<open>C4: Whatever fails in a call of the handler for a queued job: when it returns without an error, the job is marked failed, or it is
  marked completed and the branch of its project has an active snapshot of the commit that was checked out, or it is still running
  because the statement that marks it took no effect, which the handler only logs; a completion that took no effect has the snapshot
  of that commit active all the same. When it returns an error, the job is still queued, or running because the answer of the
  claim was lost.\<close>

theorem Handle_settles_job:
  assumes "Handle e task w = Some (r, w')" "world_ok e w"
    and "he_parse_uuid e (wt_JobID task) = Inr i" "jobs_sat i (\<lambda>st. st = ''queued'') (jobs_of w)"
  shows "job_settled e i r (jobs_of w) (jobs_of w')"
  by (rule full.settles [OF assms(1) [unfolded Handle_def] assms(2-4)])

text \<open>C6: whatever fails in a run, the full-index handler changes the job and snapshot tables only through the
  job operations of the repository, in a history that the invariants of jobs and
  snapshots cover.\<close>

theorem Handle_refines_job_steps:
  assumes "Handle e task w = Some (r, w')" "world_ok e w"
  shows "job_step\<^sup>*\<^sup>* (jobs_of w) (jobs_of w')"
  by (rule full.refines [OF assms(1) [unfolded Handle_def] assms(2)])

text \<open>C8: the handler always returns, whatever its services answer: the loops over chunks and batches end. All that is asked of the parser is
  that on files of valid UTF-8 no chunk it returns has 7500 bytes in a row that continue a rune. Valid UTF-8 has at most three of them,
  and a signature cut at a byte with dots after it has no more.\<close>

theorem Handle_total:
  assumes "parser_splittable e"
  shows "\<exists>r w'. Handle e task w = Some (r, w')"
  unfolding Handle_def by (rule run_job_total) (rule process_claimed_total [OF assms])

text \<open>C9: when the session of the worker holds no lock before, the handler leaves the project locks as it found them on every path,
  an error of the release itself included, but for one: when the answer to the request for the lock is lost, it returns an error and the
  session may keep a lock that was free before.\<close>

theorem Handle_releases_lock:
  assumes "Handle e task w = Some (r, w')" "\<And>k. w_locks w k \<noteq> Some (he_session e)"
  shows "w_locks w' = w_locks w \<or>
    r \<noteq> Inr () \<and> he_ft e ''TryAdvisoryLockForProject'' = LostAnswer \<and>
    (\<exists>k. w_locks w k = None \<and> w_locks w' = (w_locks w)(k \<mapsto> he_session e))"
  by (rule full.releases_lock [OF assms(1) [unfolded Handle_def] assms(2)])

section \<open>An example\<close>

text \<open>A queued job of a project whose worktree has no files.\<close>

definition ex_henv :: "nat henv" where
  "ex_henv = \<lparr>he_now = 5, he_session = 1, he_ft = (\<lambda>_. NoFault), he_version_ft = (\<lambda>_ _. NoFault), he_fresh_version = ex_uuid 3,
     he_fresh_snapshot = ex_uuid 4, he_race = [], he_parse_uuid = (\<lambda>_. Inr (ex_uuid 1)),
     he_ssh = (\<lambda>_. Some \<lparr>sk_ID = ex_uuid 6, sk_Name = ''k'', sk_PublicKey = ''p'', sk_PrivateKeyEncrypted = ''e'', sk_KeyType = ''t'',
                          sk_Fingerprint = ''f'', sk_RepoUrl = ''u'', sk_DefaultBranch = ''main''\<rparr>),
     he_config = (\<lambda>_. Some (ex_config ''m'')), he_decrypt = Inr,
     he_prepare = (\<lambda>_. Inr \<lparr>ws_RepoDir = ''d'', ws_CommitSHA = ''c'', ws_SourceFiles = []\<rparr>), he_commits = None,
     he_read = (\<lambda>_. Inl ''not found''), he_parse = (\<lambda>_. Inr []), he_services = ex_services, he_db_text = (\<lambda>_. ''error''),
     he_job_text = (\<lambda>_. ''error''), he_version_text = (\<lambda>_. ''error'')\<rparr>"

definition ex_world :: "nat world" where
  "ex_world = \<lparr>w_ps = ex_state\<lparr>ps_jobs := \<lparr>db_jobs = [(ex_job ''queued'')\<lparr>job_EmbeddingProviderConfigID := ex_uuid 5\<rparr>], db_snaps = [], db_files = []\<rparr>\<rparr>,
     w_versions = [], w_locks = Map.empty\<rparr>"

definition ex_task :: WorkflowTask where
  "ex_task = \<lparr>wt_JobID = ''j'', wt_Workflow = ''full-index'', wt_EnqueuedAt = [], wt_ProjectID = [], wt_TraceID = [], wt_RequestedBy = [], wt_WorkerID = ''w''\<rparr>"

lemma ex_world_ok: "world_ok ex_henv ex_world" "jobs_sat (ex_uuid 1) (\<lambda>st. st = ''queued'') (jobs_of ex_world)"
  by (simp_all add: world_ok_def jobs_ok_def snaps_ok_def count_active_def new_snap_id_def ex_world_def ex_state_def ex_henv_def ex_job_def
      ex_uuid_def jobs_sat_def sql_eq_def)

lemma ex_parse: "parser_splittable ex_henv"
  by (auto simp: ex_henv_def parser_splittable_def splittable_def)

lemma ex_run_job:
  assumes "\<And>i xc v. \<exists>w'. body i xc v = Some w'"
  shows "\<exists>w'. run_job ex_henv name body ex_task ex_world = Some (Inr (), w')"
proof -
  let ?s = "jobs_of ex_world"
  obtain xc where xc: "LoadExecutionContext ex_henv (ex_uuid 1) ?s = Inr xc"
    by (simp add: LoadExecutionContext_def one_row_def query_def ex_henv_def ex_world_def GetIndexingJob_def ex_job_def context_branch_def
        sql_eq_def ex_uuid_def null_UUID_def)
  obtain L where L: "TryProjectLock (he_ft ex_henv) (he_session ex_henv) (xc_ProjectID xc) (w_locks ex_world) = (Inr (), L)"
    by (simp add: TryProjectLock_def query_def Let_def ex_henv_def ex_world_def)
  obtain j where j: "ClaimJob (he_now ex_henv) (he_ft ex_henv) (ex_uuid 1) (wt_WorkerID ex_task) ?s = (Inr (), j)"
    by (simp add: ClaimJob_def ClaimQueuedIndexingJob_def update_jobs_def exec_query_def query_def ex_henv_def ex_world_def ex_job_def sql_eq_def
        ex_uuid_def)
  obtain w2 where "body (ex_uuid 1) xc (set_jobs (ex_world\<lparr>w_locks := L\<rparr>) j) = Some w2" using assms by blast
  moreover have "he_parse_uuid ex_henv (wt_JobID ex_task) = Inr (ex_uuid 1)" by (simp add: ex_henv_def)
  ultimately show ?thesis using xc L j by (simp add: run_job_def Let_def)
qed

lemma ex_Handle: "\<exists>w'. Handle ex_henv ex_task ex_world = Some (Inr (), w')"
  unfolding Handle_def by (rule ex_run_job) (rule process_claimed_total [OF ex_parse])

theorem Handle_refines_job_steps_witness:
  "\<exists>w'. Handle ex_henv ex_task ex_world = Some (Inr (), w') \<and> job_step\<^sup>*\<^sup>* (jobs_of ex_world) (jobs_of w')"
  using ex_Handle Handle_refines_job_steps [OF _ ex_world_ok(1)] by blast

theorem Handle_settles_job_witness:
  "\<exists>w'. Handle ex_henv ex_task ex_world = Some (Inr (), w') \<and>
     jobs_sat (ex_uuid 1) (\<lambda>st. st = ''failed'' \<or> st = ''completed'') (jobs_of w')"
proof -
  obtain w' where w': "Handle ex_henv ex_task ex_world = Some (Inr (), w')" using ex_Handle by blast
  have "he_parse_uuid ex_henv (wt_JobID ex_task) = Inr (ex_uuid 1)" by (simp add: ex_henv_def)
  note settled = Handle_settles_job [OF w' ex_world_ok(1) this ex_world_ok(2)]
  have "he_ft ex_henv = (\<lambda>_. NoFault)" by (simp add: ex_henv_def)
  then show ?thesis using w' settled_no_fault [OF settled] by blast
qed

theorem Handle_total_witness: "\<exists>r w'. Handle ex_henv ex_task ex_world = Some (r, w')"
  by (rule Handle_total [OF ex_parse])

theorem Handle_releases_lock_witness:
  "\<exists>w'. Handle ex_henv ex_task ex_world = Some (Inr (), w') \<and> w_locks w' = Map.empty"
proof -
  obtain w' where w': "Handle ex_henv ex_task ex_world = Some (Inr (), w')" using ex_Handle by blast
  have "w_locks ex_world = Map.empty" by (simp add: ex_world_def)
  with Handle_releases_lock [OF w'] show ?thesis using w' by simp
qed

end
