(* ===== verification/Incremental_Index.thy ===== *)
theory Incremental_Index
  imports Copy_Forward Full_Index
begin

text \<open>
  The incremental workflow (\<^verbatim>\<open>src/backend-worker/internal/workflow/incremental/handler.go\<close>) with the
  change set it reads from git (\<^verbatim>\<open>DiffNameStatus\<close> of \<^verbatim>\<open>src/backend-worker/internal/gitclient/gitclient.go\<close>):
  changed files are parsed and stored, unchanged ones copied forward from the active snapshot; without a usable
  active snapshot the whole worktree is indexed. The output of git, the commit indexer and the table of commits
  answer through parameters. Its copies of the helper functions of the full-index handler
  (\<^verbatim>\<open>readSourceFiles\<close>, \<^verbatim>\<open>splitByParserSupport\<close>, \<^verbatim>\<open>buildFileInputs\<close>, \<^verbatim>\<open>buildRawFileResults\<close>, the chunk splitters,
  \<^verbatim>\<open>failJob\<close>, \<^verbatim>\<open>formatUUID\<close>) are the same definitions.
\<close>

section \<open>Changed files\<close>

record DiffEntry =
  de_Status :: string
  de_Path :: string

definition NUL :: char where
  "NUL = CHR 0x00"

fun diff_entries :: "string list \<Rightarrow> DiffEntry list" where
  "diff_entries (status # path # parts) =
     \<lparr>de_Status = (if status \<in> {''A'', ''M'', ''D''} then status else ''M''), de_Path = path\<rparr> # diff_entries parts"
| "diff_entries _ = []"

definition parseDiffNameStatusZ :: "string \<Rightarrow> string + DiffEntry list" where
  "parseDiffNameStatusZ raw =
     (if raw = [] then Inr []
      else let parts = Split raw NUL;
               parts = (if parts \<noteq> [] \<and> last parts = [] then butlast parts else parts)
           in if length parts mod 2 \<noteq> 0
              then Inl (''gitclient: diff output has odd number of fields ('' @ show_nat (length parts) @ '')'')
              else Inr (diff_entries parts))"

text \<open>\<open>ie_git repo base target\<close> is the output of git, or its error.\<close>

record 'f ienv =
  ie_base :: "'f henv"
  ie_copy :: "'f cenv"
  ie_git :: "string \<Rightarrow> string \<Rightarrow> string \<Rightarrow> string + string"
  ie_since :: "string \<Rightarrow> (string + commits_Result) option"
  ie_commit :: "UUID \<Rightarrow> string \<Rightarrow> UUID option"

definition DiffNameStatus :: "'f ienv \<Rightarrow> string \<Rightarrow> string \<Rightarrow> string \<Rightarrow> string + DiffEntry list" where
  "DiffNameStatus v repoDir baseCommit targetCommit =
     (case ie_git v repoDir baseCommit targetCommit of
        Inl x \<Rightarrow> Inl (''gitclient: diff: '' @ x)
      | Inr out \<Rightarrow> parseDiffNameStatusZ out)"

section \<open>The base snapshot\<close>

definition GetActiveSnapshotForBranch :: "UUID \<Rightarrow> string \<Rightarrow> jdb \<Rightarrow> IndexSnapshot option" where
  "GetActiveSnapshotForBranch p branch s = List.find (\<lambda>r. sql_eq (snap_ProjectID r) p \<and> snap_Branch r = branch \<and> snap_IsActive r) (db_snaps s)"

text \<open>\<open>None\<close>: fall back to the whole worktree.\<close>

definition resolveIncrementalBase ::
  "'f ienv \<Rightarrow> exec_Context \<Rightarrow> EmbeddingVersion \<Rightarrow> workspace_Result \<Rightarrow> 'f world \<Rightarrow> (IndexSnapshot \<times> DiffEntry list) option" where
  "resolveIncrementalBase v xc ver ws w =
     (case query (he_ft (ie_base v)) ''GetActiveSnapshotForBranch'' (Inr (GetActiveSnapshotForBranch (xc_ProjectID xc) (xc_Branch xc) (jobs_of w))) of
        Inl _ \<Rightarrow> None
      | Inr None \<Rightarrow> None
      | Inr (Some base) \<Rightarrow>
          if snap_EmbeddingVersionID base \<noteq> ev_ID ver then None
          else case DiffNameStatus v (ws_RepoDir ws) (snap_GitCommit base) (ws_CommitSHA ws) of
                 Inl _ \<Rightarrow> None
               | Inr diff \<Rightarrow> Some (base, diff))"

text \<open>The head commit of the run, looked up when the commit indexer gave none.\<close>

definition inc_head :: "'f ienv \<Rightarrow> exec_Context \<Rightarrow> workspace_Result \<Rightarrow> commits_Result option \<Rightarrow> UUID" where
  "inc_head v xc ws commitResult =
     (let headCommitDBID = commitHeadDBID commitResult
      in if uuid_Valid headCommitDBID then headCommitDBID
         else case query (he_ft (ie_base v)) ''GetCommitByHash'' (Inr (ie_commit v (xc_ProjectID xc) (ws_CommitSHA ws))) of
                Inr (Some c) \<Rightarrow> c
              | _ \<Rightarrow> null_UUID)"

definition no_error :: "(string + commits_Result) option \<Rightarrow> commits_Result option" where
  "no_error r = (case r of Some (Inr cr) \<Rightarrow> Some cr | _ \<Rightarrow> None)"

section \<open>The incremental pipeline\<close>

definition changedPaths :: "DiffEntry list \<Rightarrow> string set" where
  "changedPaths diff = set (map de_Path (filter (\<lambda>d. de_Status d \<in> {''A'', ''M''}) diff))"

definition deletedPaths :: "DiffEntry list \<Rightarrow> string set" where
  "deletedPaths diff = set (map de_Path (filter (\<lambda>d. de_Status d = ''D'') diff))"

definition changedFiles :: "DiffEntry list \<Rightarrow> string list \<Rightarrow> string list" where
  "changedFiles diff sourceFiles = filter (\<lambda>f. f \<in> changedPaths diff) sourceFiles"

definition unchangedPaths :: "DiffEntry list \<Rightarrow> (UUID \<times> InsertFileParams) list \<Rightarrow> string list" where
  "unchangedPaths diff oldFiles =
     remdups (filter (\<lambda>p. p \<notin> changedPaths diff \<and> p \<notin> deletedPaths diff) (map (\<lambda>f. fp_FilePath (snd f)) oldFiles))"

definition total_progress :: "ParsedFileResult list \<Rightarrow> CopyForwardResult \<Rightarrow> int \<times> int" where
  "total_progress parsedFiles cf =
     (i32 (i32 (int (length parsedFiles)) + i32 (cf_FilesCopied cf)),
      i32 (foldl (\<lambda>n pf. i32 (n + i32 (int (length (pf_Chunks pf))))) 0 parsedFiles + i32 (cf_ChunksCopied cf)))"

text \<open>The copy of the unchanged files and their vectors, with the report of the progress.\<close>

definition copy_forward ::
  "'f ienv \<Rightarrow> UUID \<Rightarrow> exec_Context \<Rightarrow> workspace_Result \<Rightarrow> UUID \<Rightarrow> UUID \<Rightarrow> string list \<Rightarrow> (UUID \<times> InsertFileParams) list \<Rightarrow> ParsedFileResult list \<Rightarrow>
   'f world \<Rightarrow> (string \<times> string \<times> string + unit) \<times> 'f world" where
  "copy_forward v jobID xc ws baseID newID unchanged oldFiles parsedFiles w =
     (if unchanged = [] then (Inr (), w)
      else let e = ie_base v; c = (ie_copy v)\<lparr>cv_db := sv_db (he_services e)\<rparr>
           in case CopyForwardFiles c (xc_ProjectID xc) baseID newID (set unchanged) oldFiles (ps_db (w_ps w)) of
                (Inl x, d) \<Rightarrow> (Inl (''artifact_write'', x, ''copy_forward_files''), w\<lparr>w_ps := (w_ps w)\<lparr>ps_db := d\<rparr>\<rparr>)
              | (Inr cf, d) \<Rightarrow>
                  (let w = w\<lparr>w_ps := (w_ps w)\<lparr>ps_db := d\<rparr>\<rparr>;
                       (r, ups) = (if cf_ChunksCopied cf > 0
                                   then CopyForwardVectors c (CollectionName (xc_ProjectID xc) (job_version_label xc)) (cf_ChunkIDMapping cf)
                                          (job_fmtUUID newID) (ws_CommitSHA ws) (ps_upserts (w_ps w))
                                   else (Inr (), ps_upserts (w_ps w)));
                       w = w\<lparr>w_ps := (w_ps w)\<lparr>ps_upserts := ups\<rparr>\<rparr>
                   in case r of
                        Inl x \<Rightarrow> (Inl (''vector_write'', x, ''copy_forward_vectors''), w)
                      | Inr _ \<Rightarrow>
                          (Inr (), set_jobs w (snd (exec_query (he_ft e) ''SetIndexingJobProgress''
                             (Inr (SetIndexingJobProgress jobID (fst (total_progress parsedFiles cf)) (snd (total_progress parsedFiles cf)) 0 (jobs_of w)))
                             (jobs_of w))))))"

text \<open>Storing the changed files: nothing to do when there are none.\<close>

definition store_changed ::
  "'f ienv \<Rightarrow> UUID \<Rightarrow> exec_Context \<Rightarrow> workspace_Result \<Rightarrow> UUID \<Rightarrow> (string \<rightharpoonup> string) \<Rightarrow> ParsedFileResult list \<Rightarrow> string list \<Rightarrow> 'f world \<Rightarrow>
   ((string \<times> string \<times> string + unit) \<times> 'f world) option" where
  "store_changed v jobID xc ws newID fileContents parsedFiles allPaths w =
     (if parsedFiles = [] then Some (Inr (), w)
      else case RunWithoutActivation (job_services (ie_base v) xc) (job_input (ie_base v) jobID xc ws newID fileContents parsedFiles allPaths) (w_ps w) of
             None \<Rightarrow> None
           | Some (Inl msg, p) \<Rightarrow> Some (Inl (categorizePipelineError msg, msg, ''pipeline_changed''), w\<lparr>w_ps := p\<rparr>)
           | Some (Inr _, p) \<Rightarrow> Some (Inr (), w\<lparr>w_ps := p\<rparr>))"

definition runIncrementalPipeline ::
  "'f ienv \<Rightarrow> UUID \<Rightarrow> exec_Context \<Rightarrow> EmbeddingVersion \<Rightarrow> workspace_Result \<Rightarrow> IndexSnapshot \<Rightarrow> DiffEntry list \<Rightarrow> 'f world \<Rightarrow> 'f world option" where
  "runIncrementalPipeline v jobID xc ver ws base diff w =
     (let e = ie_base v; changed = changedFiles diff (ws_SourceFiles ws)
      in case query (he_ft e) ''ListSnapshotFiles'' (Inr (ListSnapshotFiles (snap_ID base) (cv_scan (ie_copy v) (a_rows (ps_db (w_ps w)))))) of
        Inl x \<Rightarrow> Some (failJob e jobID ''context_load'' (he_db_text e (Some x)) ''list_old_files'' w)
      | Inr oldFiles \<Rightarrow>
     (let unchanged = unchangedPaths diff oldFiles; commitResult = no_error (ie_since v (snap_GitCommit base))
      in case (if changed = [] then Some (Inr (Map.empty, [])) else parse_sources e ''read_changed_files'' ''parse_changed_files'' changed) of
        None \<Rightarrow> None
      | Some (Inl f) \<Rightarrow> Some (fail_with e jobID f w)
      | Some (Inr (fileContents, parsedFiles)) \<Rightarrow>
     (case open_snapshot e xc ver ws w of
        (Inl f, w) \<Rightarrow> Some (fail_with e jobID f w)
      | (Inr snapshot, w) \<Rightarrow>
     (case store_changed v jobID xc ws (snap_ID snapshot) fileContents parsedFiles (changed @ cv_keys (ie_copy v) unchanged) w of
        None \<Rightarrow> None
      | Some (Inl f, w) \<Rightarrow> Some (fail_with e jobID f w)
      | Some (Inr _, w) \<Rightarrow>
     (case copy_forward v jobID xc ws (snap_ID base) (snap_ID snapshot) unchanged oldFiles parsedFiles w of
        (Inl f, w) \<Rightarrow> Some (fail_with e jobID f w)
      | (Inr _, w) \<Rightarrow>
     (case ActivateSnapshotTx (he_now e) (sv_activate (he_services e)) (xc_ProjectID xc) (xc_Branch xc) (snap_ID snapshot) (jobs_of w) of
        (Inl x, j) \<Rightarrow> Some (failJob e jobID ''activation'' (sv_pg_text (he_services e) x) ''activate_snapshot'' (set_jobs w j))
      | (Inr _, j) \<Rightarrow> Some (finish_job e jobID xc (snap_ID snapshot) (inc_head v xc ws commitResult) (set_jobs w j))))))))"

definition inc_process :: "'f ienv \<Rightarrow> UUID \<Rightarrow> exec_Context \<Rightarrow> 'f world \<Rightarrow> 'f world option" where
  "inc_process v jobID xc w =
     (case prepare_job (ie_base v) xc w of
        (Inl f, w) \<Rightarrow> Some (fail_with (ie_base v) jobID f w)
      | (Inr (ver, ws), w) \<Rightarrow>
          (case resolveIncrementalBase v xc ver ws w of
             None \<Rightarrow> runFullPipeline (ie_base v) jobID xc ver ws (inc_head v xc ws (no_error (he_commits (ie_base v)))) w
           | Some (base, diff) \<Rightarrow> runIncrementalPipeline v jobID xc ver ws base diff w))"

definition inc_Handle :: "'f ienv \<Rightarrow> WorkflowTask \<Rightarrow> 'f world \<Rightarrow> ((string + unit) \<times> 'f world) option" where
  "inc_Handle v task w = run_job (ie_base v) ''incremental'' (inc_process v) task w"

section \<open>Reading the change set\<close>

lemma Split_fields: "\<forall>f \<in> set fs. NUL \<notin> set f \<Longrightarrow> Split (concat (map (\<lambda>f. f @ [NUL]) fs)) NUL = fs @ [[]]"
  by (induction fs) (auto simp: Split_append)

text \<open>Reading what git prints for a list of changes gives these changes, whatever bytes but NUL their
  paths contain, with every status other than added, modified and deleted read as modified.\<close>

theorem parseDiffNameStatusZ_roundtrip:
  assumes "\<forall>d \<in> set ds. NUL \<notin> set (de_Path d) \<and> NUL \<notin> set (de_Status d)"
  shows "parseDiffNameStatusZ (concat (map (\<lambda>d. de_Status d @ [NUL] @ de_Path d @ [NUL]) ds)) =
    Inr (map (\<lambda>d. d\<lparr>de_Status := (if de_Status d \<in> {''A'', ''M'', ''D''} then de_Status d else ''M'')\<rparr>) ds)"
proof (cases "ds = []")
  case False
  let ?fs = "concat (map (\<lambda>d. [de_Status d, de_Path d]) ds)"
  have raw: "concat (map (\<lambda>d. de_Status d @ [NUL] @ de_Path d @ [NUL]) ds) = concat (map (\<lambda>f. f @ [NUL]) ?fs)"
    by (induction ds) auto
  have "Split (concat (map (\<lambda>f. f @ [NUL]) ?fs)) NUL = ?fs @ [[]]" by (rule Split_fields) (use assms in auto)
  moreover have "concat (map (\<lambda>f. f @ [NUL]) ?fs) \<noteq> []" using False by (cases ds) auto
  moreover have "length ?fs mod 2 = 0" by (induction ds) auto
  moreover have "diff_entries ?fs = map (\<lambda>d. d\<lparr>de_Status := (if de_Status d \<in> {''A'', ''M'', ''D''} then de_Status d else ''M'')\<rparr>) ds"
    by (induction ds) auto
  ultimately show ?thesis unfolding raw by (simp add: parseDiffNameStatusZ_def Let_def)
qed (simp add: parseDiffNameStatusZ_def)

theorem parseDiffNameStatusZ_roundtrip_witness:
  "parseDiffNameStatusZ (''A'' @ [NUL] @ ''a b.go'' @ [NUL] @ ''T'' @ [NUL] @ ''c'' @ [NUL]) =
     Inr [\<lparr>de_Status = ''A'', de_Path = ''a b.go''\<rparr>, \<lparr>de_Status = ''M'', de_Path = ''c''\<rparr>]"
  using parseDiffNameStatusZ_roundtrip [of "[\<lparr>de_Status = ''A'', de_Path = ''a b.go''\<rparr>, \<lparr>de_Status = ''T'', de_Path = ''c''\<rparr>]"]
  by (simp add: NUL_def)

section \<open>The contract of the handler\<close>

lemma processFiles_opened:
  assumes "processFiles sv input s = Some (r, s')" "opened xc commit sn (ps_jobs s)"
  shows "opened xc commit sn (ps_jobs s')"
  by (rule opened_snaps [OF assms(2) processFiles_snaps [OF assms(1)]])

lemma store_changed_steps:
  assumes "store_changed v i xc ws sn fc files paths w = Some (r, w1)" "opened xc commit snapshot (jobs_of w)"
  shows "quiet_step\<^sup>*\<^sup>* (jobs_of w) (jobs_of w1) \<and> opened xc commit snapshot (jobs_of w1)"
proof (cases "files = []")
  case False
  then obtain x p where "processFiles (job_services (ie_base v) xc) (job_input (ie_base v) i xc ws sn fc files paths) (w_ps w) = Some (x, p)" "w1 = w\<lparr>w_ps := p\<rparr>"
    using assms(1) by (auto simp: store_changed_def RunWithoutActivation_def split: option.splits sum.splits)
  then show ?thesis using processFiles_steps processFiles_opened [OF _ assms(2)] by fastforce
qed (use assms in \<open>simp add: store_changed_def\<close>)

lemma copy_forward_steps:
  assumes "copy_forward v i xc ws b n un olds files w = (r, w1)" "opened xc commit snapshot (jobs_of w)"
  shows "quiet_step\<^sup>*\<^sup>* (jobs_of w) (jobs_of w1) \<and> opened xc commit snapshot (jobs_of w1)"
proof -
  have "jobs_of w1 = jobs_of w \<or> (\<exists>ft a b. jobs_of w1 = snd (SetJobProgress ft i a b 0 (jobs_of w)))"
    unfolding snd_repo using assms(1)
    by (auto simp: copy_forward_def Let_def split: prod.splits sum.splits if_splits) blast+
  moreover have "db_snaps (snd (SetJobProgress ft i a b 0 s)) = db_snaps s" for ft a b s
    unfolding snd_repo by (simp add: exec_query_def SetIndexingJobProgress_def update_jobs_def)
  ultimately show ?thesis using quiet_progress assms(2) opened_snaps by (metis r_into_rtranclp rtranclp.rtrancl_refl)
qed

text \<open>From an open snapshot with its files stored: the activation and the end of the job.\<close>

lemma activate_ends:
  assumes "(case ActivateSnapshotTx now ft (xc_ProjectID xc) (xc_Branch xc) (snap_ID snapshot) (jobs_of w) of
      (Inl x, j) \<Rightarrow> Some (failJob e i c (msg x) st (set_jobs w j))
    | (Inr _, j) \<Rightarrow> Some (finish_job e i xc (snap_ID snapshot) head (set_jobs w j))) = Some w'"
    and "quiet_step\<^sup>*\<^sup>* s (jobs_of w)" "opened xc commit snapshot (jobs_of w)"
  shows "ends_job e i (indexed xc commit) s (jobs_of w')"
proof -
  obtain x j where a: "ActivateSnapshotTx now ft (xc_ProjectID xc) (xc_Branch xc) (snap_ID snapshot) (jobs_of w) = (x, j)" by fastforce
  have "quiet_step (jobs_of w) j"
    using quiet_activate [of "xc_ProjectID xc" "xc_Branch xc" "snap_ID snapshot" "jobs_of w" now ft] assms(3) a by (simp add: opened_def)
  with assms(2) have st: "quiet_step\<^sup>*\<^sup>* s (jobs_of (set_jobs w j))" by (simp add: rtranclp.rtrancl_into_rtrancl)
  show ?thesis
  proof (cases x)
    case (Inl m)
    then show ?thesis using assms(1) a st by (auto intro: ends_job_fail)
  next
    case (Inr u)
    then have "indexed xc commit j" using activate_indexed a assms(3) by blast
    then show ?thesis using finish_job_ends [OF st] assms(1) a Inr by auto
  qed
qed

lemma runIncrementalPipeline_ends:
  assumes "runIncrementalPipeline v i xc ver ws base diff w = Some w'"
    and ok: "jobs_ok (he_fresh_snapshot (ie_base v)) (jobs_of w)" and val: "uuid_Valid (xc_ProjectID xc)" "uuid_Valid (ev_ID ver)"
  shows "ends_job (ie_base v) i (indexed xc (ws_CommitSHA ws)) (jobs_of w) (jobs_of w')"
proof -
  let ?e = "ie_base v" and ?ch = "changedFiles diff (ws_SourceFiles ws)"
  let ?ps = "if ?ch = [] then Some (Inr (Map.empty, [])) else parse_sources ?e ''read_changed_files'' ''parse_changed_files'' ?ch"
  have fail: "ends_job ?e i A (jobs_of w) (jobs_of (failJob ?e i c m st w))" for A c m st by (rule ends_job_fail) simp
  show ?thesis
  proof (cases "query (he_ft ?e) ''ListSnapshotFiles'' (Inr (ListSnapshotFiles (snap_ID base) (cv_scan (ie_copy v) (a_rows (ps_db (w_ps w))))))")
    case (Inl x)
    then show ?thesis using assms(1) fail by (auto simp: runIncrementalPipeline_def Let_def)
  next
    case olds: (Inr oldFiles)
    let ?un = "unchangedPaths diff oldFiles"
    obtain pr where ps: "?ps = Some pr" using assms(1) olds by (auto simp: runIncrementalPipeline_def Let_def split: option.splits)
    show ?thesis
    proof (cases pr)
      case (Inl f)
      then have "w' = fail_with ?e i f w" using assms(1) olds ps by (simp add: runIncrementalPipeline_def Let_def)
      then show ?thesis using fail by simp
    next
      case (Inr q)
      obtain fc files where q: "q = (fc, files)" by (cases q)
      obtain x w1 where o: "open_snapshot ?e xc ver ws w = (x, w1)" by fastforce
      note op = open_snapshot_steps [OF o ok val]
      note run = assms(1) [unfolded runIncrementalPipeline_def Let_def olds sum.case ps option.case Inr q prod.case o]
      show ?thesis
      proof (cases x)
        case (Inl f)
        then show ?thesis using run op by (auto intro: ends_job_fail)
      next
        case sn: (Inr snapshot)
        have opened: "opened xc (ws_CommitSHA ws) snapshot (jobs_of w1)" using op sn by simp
        obtain y w2 where st: "store_changed v i xc ws (snap_ID snapshot) fc files (?ch @ cv_keys (ie_copy v) ?un) w1 = Some (y, w2)"
          using run sn by (auto split: option.splits)
        note s2 = store_changed_steps [OF st opened]
        have q2: "quiet_step\<^sup>*\<^sup>* (jobs_of w) (jobs_of w2)" using op s2 by (auto intro: rtranclp_trans)
        obtain z w3 where cf: "copy_forward v i xc ws (snap_ID base) (snap_ID snapshot) ?un oldFiles files w2 = (z, w3)" by fastforce
        note s3 = copy_forward_steps [OF cf s2 [THEN conjunct2]]
        have q3: "quiet_step\<^sup>*\<^sup>* (jobs_of w) (jobs_of w3)" using q2 s3 by (auto intro: rtranclp_trans)
        note run = run [unfolded sn sum.case st option.case prod.case]
        show ?thesis
        proof (cases y)
          case (Inl f)
          then show ?thesis using run q2 by (auto intro: ends_job_fail)
        next
          case y: (Inr u)
          note run = run [unfolded y sum.case cf prod.case]
          show ?thesis
          proof (cases z)
            case (Inl f)
            then show ?thesis using run q3 by (auto intro: ends_job_fail)
          next
            case z: (Inr u')
            show ?thesis by (rule activate_ends [OF run [unfolded z sum.case] q3 s3 [THEN conjunct2]])
          qed
        qed
      qed
    qed
  qed
qed

lemma inc_process_ends:
  assumes "inc_process v i xc w = Some w'" "world_ok (ie_base v) w" "uuid_Valid (xc_ProjectID xc)"
  shows "ends_job (ie_base v) i (indexed_head (ie_base v) xc) (jobs_of w) (jobs_of w')"
proof -
  obtain x w1 where p: "prepare_job (ie_base v) xc w = (x, w1)" by fastforce
  note ok = prepare_job_ok [OF p assms(2)]
  show ?thesis
  proof (cases x)
    case (Inl f)
    then have "w' = fail_with (ie_base v) i f w1" using assms(1) p by (simp add: inc_process_def)
    then show ?thesis using ok by (auto intro: ends_job_fail)
  next
    case (Inr vw)
    obtain ver ws where vw: "vw = (ver, ws)" by (cases vw)
    have ok': "jobs_ok (he_fresh_snapshot (ie_base v)) (jobs_of w1)" "uuid_Valid (ev_ID ver)" "he_prepare (ie_base v) xc = Inr ws" "jobs_of w1 = jobs_of w"
      using ok Inr vw by auto
    have "ends_job (ie_base v) i (indexed xc (ws_CommitSHA ws)) (jobs_of w1) (jobs_of w')"
    proof (cases "resolveIncrementalBase v xc ver ws w1")
      case None
      then show ?thesis using assms(1) p Inr vw runFullPipeline_ends [OF _ ok'(1) assms(3) ok'(2)] by (simp add: inc_process_def)
    next
      case (Some bd)
      then show ?thesis
        using assms(1) p Inr vw runIncrementalPipeline_ends [OF _ ok'(1) assms(3) ok'(2)] by (cases bd) (simp add: inc_process_def)
    qed
    then show ?thesis unfolding ok'(4) by (rule ends_job_mono) (simp add: indexed_head_def ok'(3))
  qed
qed

lemma store_changed_locks: "store_changed v i xc ws sn fc files paths w = Some (r, w1) \<Longrightarrow> w_locks w1 = w_locks w"
  by (auto simp: store_changed_def split: option.splits sum.splits if_splits)

lemma copy_forward_locks: "copy_forward v i xc ws b n un olds files w = (r, w1) \<Longrightarrow> w_locks w1 = w_locks w"
  by (auto simp: copy_forward_def Let_def split: prod.splits sum.splits if_splits)

lemma runIncrementalPipeline_locks: "runIncrementalPipeline v i xc ver ws base diff w = Some w' \<Longrightarrow> w_locks w' = w_locks w"
  by (auto simp: runIncrementalPipeline_def Let_def finish_locks dest!: open_snapshot_locks store_changed_locks copy_forward_locks
      split: option.splits sum.splits prod.splits)

lemma inc_process_locks: "inc_process v i xc w = Some w' \<Longrightarrow> w_locks w' = w_locks w"
  by (auto simp: inc_process_def finish_locks dest!: prepare_job_locks runFullPipeline_locks runIncrementalPipeline_locks
      split: option.splits sum.splits prod.splits)

interpretation inc: claimed_body "ie_base v" "inc_process v" for v
  by unfold_locales (fact inc_process_ends, fact inc_process_locks)

text \<open>C10: Whatever fails in a call of the incremental handler for a queued job, on both the incremental and the fallback path: when it
  returns without an error, the job is marked failed, or it is marked completed and the branch of its project has an active snapshot of
  the commit that was checked out, or it is still running because the statement that marks it took no effect, which the handler only
  logs; a completion that took no effect has the snapshot of that commit active all the same. When it returns an error, the job is still
  queued, or running because the answer of the claim was lost.\<close>

theorem inc_Handle_settles_job:
  assumes "inc_Handle v task w = Some (r, w')" "world_ok (ie_base v) w"
    and "he_parse_uuid (ie_base v) (wt_JobID task) = Inr i" "jobs_sat i (\<lambda>st. st = ''queued'') (jobs_of w)"
  shows "job_settled (ie_base v) i r (jobs_of w) (jobs_of w')"
  by (rule inc.settles [OF assms(1) [unfolded inc_Handle_def] assms(2-4)])

lemma store_changed_total: "\<exists>r w'. store_changed v i xc ws sn fc files paths w = Some (r, w')"
proof -
  let ?in = "job_input (ie_base v) i xc ws sn fc files paths"
  obtain r p where "processFiles (job_services (ie_base v) xc) ?in (w_ps w) = Some (r, p)"
    using pipeline_Run_total [OF job_services_batch, of "ie_base v" xc 0 ?in "w_ps w"] by (auto simp: pipeline_Run_def split: option.splits)
  then show ?thesis by (cases r) (simp_all add: store_changed_def RunWithoutActivation_def)
qed

lemma runIncrementalPipeline_total:
  assumes "parser_splittable (ie_base v)"
  shows "\<exists>w'. runIncrementalPipeline v i xc ver ws base diff w = Some w'"
proof -
  let ?ch = "changedFiles diff (ws_SourceFiles ws)"
  obtain pr where ps: "(if ?ch = [] then Some (Inr (Map.empty, [])) else parse_sources (ie_base v) ''read_changed_files'' ''parse_changed_files'' ?ch) = Some pr"
    using parse_sources_total [OF assms, of "''read_changed_files''" "''parse_changed_files''" ?ch] by (cases "?ch = []") auto
  show ?thesis
  proof (cases "query (he_ft (ie_base v)) ''ListSnapshotFiles'' (Inr (ListSnapshotFiles (snap_ID base) (cv_scan (ie_copy v) (a_rows (ps_db (w_ps w))))))")
    case olds: (Inr oldFiles)
    note unf = runIncrementalPipeline_def Let_def olds sum.case ps option.case prod.case
    show ?thesis
    proof (cases pr)
      case pr: (Inr q)
      obtain fc files where q: "q = (fc, files)" by (cases q)
      obtain x w1 where o: "open_snapshot (ie_base v) xc ver ws w = (x, w1)" by fastforce
      show ?thesis
      proof (cases x)
        case x: (Inl f)
        show ?thesis unfolding unf pr q o x by simp
      next
        case x: (Inr snapshot)
        obtain y w2 where st: "store_changed v i xc ws (snap_ID snapshot) fc files (?ch @ cv_keys (ie_copy v) (unchangedPaths diff oldFiles)) w1 = Some (y, w2)"
          using store_changed_total by blast
        show ?thesis unfolding unf pr q o x st by (simp split: sum.split prod.split)
      qed
    next
      case pr: (Inl f)
      show ?thesis unfolding unf pr by simp
    qed
  qed (simp add: runIncrementalPipeline_def Let_def)
qed

lemma inc_process_total:
  assumes "parser_splittable (ie_base v)"
  shows "\<exists>w'. inc_process v i xc w = Some w'"
  using runFullPipeline_total [OF assms] runIncrementalPipeline_total [OF assms]
  by (auto simp: inc_process_def split: sum.split prod.split option.split)

section \<open>A second run on the same commit\<close>

text \<open>The chunks of a snapshot: those of its files.\<close>

definition snapshot_chunks :: "UUID \<Rightarrow> (UUID \<times> row) list \<Rightarrow> (UUID \<times> InsertCodeChunkParams) list" where
  "snapshot_chunks i rows = concat (map (\<lambda>f. ListChunksByFileID (fst f) rows) (ListSnapshotFiles i rows))"

lemma in_rows_where: "(i, p) \<in> set (rows_where f rows) \<longleftrightarrow> (\<exists>r. (i, r) \<in> set rows \<and> f r = Some p)"
  by (induction rows) (auto simp: rows_where_def List.map_filter_simps split: option.splits)

lemma in_ListSnapshotFiles: "(f, p) \<in> set (ListSnapshotFiles i rows) \<longleftrightarrow> (f, RFile p) \<in> set rows \<and> sql_eq (fp_IndexSnapshotID p) i"
proof -
  have "(case r of RFile p \<Rightarrow> if sql_eq (fp_IndexSnapshotID p) i then Some p else None | _ \<Rightarrow> None) = Some p \<longleftrightarrow>
      r = RFile p \<and> sql_eq (fp_IndexSnapshotID p) i" for r by (cases r) auto
  then show ?thesis by (auto simp: ListSnapshotFiles_def in_rows_where)
qed

lemma in_ListChunksByFileID: "(c, p) \<in> set (ListChunksByFileID f rows) \<longleftrightarrow> (c, RChunk p) \<in> set rows \<and> sql_eq (cp_FileID p) f"
proof -
  have "(case r of RChunk p \<Rightarrow> if sql_eq (cp_FileID p) f then Some p else None | _ \<Rightarrow> None) = Some p \<longleftrightarrow>
      r = RChunk p \<and> sql_eq (cp_FileID p) f" for r by (cases r) auto
  then show ?thesis by (auto simp: ListChunksByFileID_def in_rows_where)
qed

text \<open>\<open>grows env s s'\<close>: rows were added, with generated ids, none of them a chunk.\<close>

definition grows :: "aenv \<Rightarrow> adb \<Rightarrow> adb \<Rightarrow> bool" where
  "grows env s s' \<longleftrightarrow> (\<exists>new. a_rows s' = a_rows s @ new \<and> (\<forall>e \<in> set new. fst e \<in> range (env_id env) \<and> (\<forall>p. snd e \<noteq> RChunk p)))"

lemma grows_refl [simp]: "a_rows s' = a_rows s \<Longrightarrow> grows env s s'"
  by (simp add: grows_def)

lemma grows_trans: "grows env s s1 \<Longrightarrow> grows env s1 s2 \<Longrightarrow> grows env s s2"
  unfolding grows_def by (elim exE conjE) (rule exI, rule conjI, simp, auto)

lemma grows_insert: "(\<And>p. r \<noteq> RChunk p) \<Longrightarrow> grows env s (snd (insert_row env r s))"
  by (auto simp: insert_row_def Let_def grows_def split: option.split)

lemma grows_read: "grows env s (snd (read_query env' r s))"
  by (auto simp: read_query_def split: option.split)

lemma grows_wrap: "grows env s (snd x) \<Longrightarrow> grows env s (snd (wrap_err pre x))"
  by (auto simp: wrap_err_def split: prod.split sum.split)

lemma grows_bind:
  assumes "grows env s (snd x)" "\<And>a s1. x = (Inr a, s1) \<Longrightarrow> grows env s s1 \<Longrightarrow> grows env s1 (snd (f a s1))"
  shows "grows env s (snd (bind_err x f))"
proof (cases x)
  case (Pair r s1)
  then show ?thesis using assms by (cases r) (auto simp: bind_err_def intro: grows_trans)
qed

lemma grows_symbols: "grows env s (snd (copy_symbols env k syms m s))"
proof (induction syms arbitrary: m s)
  case (Cons y syms)
  obtain i p where y: "y = (i, p)" by (cases y)
  obtain r s1 where r: "insert_row env (copy_symbol_row k m p) s = (r, s1)" by fastforce
  have "grows env s s1" using grows_insert [of "copy_symbol_row k m p" env s] r by (simp add: copy_symbol_row_def)
  then show ?case using Cons.IH r y by (cases r) (auto intro: grows_trans)
qed simp

lemma grows_each:
  assumes "\<And>p c. mk p \<noteq> RChunk c"
  shows "grows env s (snd (copy_each env mk what ps s))"
proof (induction ps arbitrary: s)
  case (Cons y ps)
  obtain i p where y: "y = (i, p)" by (cases y)
  obtain r s1 where r: "insert_row env (mk p) s = (r, s1)" by fastforce
  have "grows env s s1" using grows_insert [OF assms, of env s p] r by simp
  then show ?case using Cons.IH r y by (cases r) (auto intro: grows_trans)
qed simp

lemma grows_table: "(\<And>p c. mk p \<noteq> RChunk c) \<Longrightarrow> grows (cv_db v) s (snd (copy_table v q mk pl what s))"
  unfolding copy_table_def by (intro grows_bind grows_wrap grows_read grows_each)

definition chunkless :: "UUID \<Rightarrow> adb \<Rightarrow> bool" where
  "chunkless f s \<longleftrightarrow> (\<forall>e \<in> set (a_rows s). \<forall>p. snd e = RChunk p \<longrightarrow> \<not> sql_eq (cp_FileID p) f)"

lemma chunkless_grows: "chunkless f s \<Longrightarrow> grows env s s1 \<Longrightarrow> chunkless f s1"
  by (auto simp: chunkless_def grows_def)

lemma chunkless_list:
  assumes "chunkless f s" "\<forall>xs. mset (scan xs) = mset xs"
  shows "ListChunksByFileID f (scan (a_rows s)) = []"
proof -
  have "set (scan (a_rows s)) = set (a_rows s)" using assms(2) by (metis set_mset_mset)
  then have "(c, p) \<notin> set (ListChunksByFileID f (scan (a_rows s)))" for c p
    using assms(1) by (auto simp: in_ListChunksByFileID chunkless_def)
  then show ?thesis by (metis list.set_intros(1) neq_Nil_conv surj_pair)
qed

lemma grows_copyOneFile:
  assumes "chunkless old s" and perm: "\<forall>xs. mset (cv_scan v xs) = mset xs"
  shows "grows (cv_db v) s (snd (copyOneFile v pid oldS newS (old, params) res s))"
proof -
  let ?env = "cv_db v"
  have insert: "grows ?env s (snd (wrap_err pre (InsertFile ?env p s)))" for pre p
    by (rule grows_wrap) (auto simp: InsertFile_def intro: grows_insert)
  show ?thesis
    unfolding copyOneFile_def Let_def fst_conv snd_conv
  proof (rule grows_bind [OF insert], rule grows_bind [OF grows_wrap [OF grows_read]], rule grows_bind [OF grows_symbols],
      rule grows_bind [OF grows_wrap [OF grows_read]])
    fix fileID s1 syms s2 m s3 chs s4
    let ?k = "\<lparr>id_project = pid, id_snapshot = newS, id_file = fileID\<rparr>"
    assume "grows ?env s s1" "grows ?env s1 s2" "grows ?env s2 s3"
      and list: "wrap_err ''list chunks: '' (read_query ?env (ListChunksByFileID old (cv_scan v (a_rows s3))) s3) = (Inr chs, s4)"
    then have "chunkless old s3" using assms(1) by (blast intro: chunkless_grows)
    then have "chs = []" using list chunkless_list [OF _ perm] by (auto simp: wrap_err_Inr dest: read_query_Inr)
    then show "grows ?env s4 (snd (bind_err (copy_chunks ?env ?k m chs res s4) (\<lambda>result s.
        bind_err (copy_table v (ListDependenciesBySnapshotAndFile oldS (fp_FilePath params)) (copy_dependency_row ?k m) ''dependencies'' ''dependency'' s) (\<lambda>_ s.
        bind_err (copy_table v (ListExportsByFileID old) (copy_export_row ?k m) ''exports'' ''export'' s) (\<lambda>_ s.
        bind_err (copy_table v (ListSymbolReferencesByFileID old) (copy_reference_row ?k m) ''symbol references'' ''symbol reference'' s) (\<lambda>_ s.
        bind_err (copy_table v (ListJsxUsagesByFileID old) (copy_jsx_row ?k m) ''jsx usages'' ''jsx usage'' s) (\<lambda>_ s.
        bind_err (copy_table v (ListNetworkCallsByFileID old) (copy_network_row ?k m) ''network calls'' ''network call'' s) (\<lambda>_ s.
          (Inr (result\<lparr>cf_FilesCopied := cf_FilesCopied result + 1\<rparr>), s)))))))))"
      by (intro grows_bind grows_table)
         (simp_all add: copy_dependency_row_def copy_export_row_def copy_reference_row_def copy_jsx_row_def copy_network_row_def)
  qed
qed

lemma grows_copy_files:
  assumes "\<forall>f \<in> set files. chunkless (fst f) s" and perm: "\<forall>xs. mset (cv_scan v xs) = mset xs"
  shows "grows (cv_db v) s (snd (copy_files v pid oldS newS un files res s))"
  using assms(1)
proof (induction files arbitrary: s res)
  case (Cons f files)
  obtain old params where f: "f = (old, params)" by (cases f)
  obtain r s1 where r: "copyOneFile v pid oldS newS f res s = (r, s1)" by fastforce
  have g: "grows (cv_db v) s s1" using grows_copyOneFile [OF _ perm, of old s pid oldS newS params res] Cons.prems r f by simp
  then have "\<forall>f \<in> set files. chunkless (fst f) s1" using Cons.prems by (auto intro: chunkless_grows)
  then show ?case using Cons.IH [of s1] Cons.IH [of s] Cons.prems g r by (cases r) (auto intro: grows_trans)
qed simp

lemma grows_copy_forward:
  assumes "\<forall>f \<in> set olds. chunkless (fst f) (ps_db (w_ps w))" "\<forall>xs. mset (cv_scan (ie_copy v) xs) = mset xs"
    and "copy_forward v i xc ws b n un olds files w = (r, w1)"
  shows "grows (sv_db (he_services (ie_base v))) (ps_db (w_ps w)) (ps_db (w_ps w1))"
proof (cases "un = []")
  case False
  let ?c = "(ie_copy v)\<lparr>cv_db := sv_db (he_services (ie_base v))\<rparr>"
  have "grows (cv_db ?c) (ps_db (w_ps w)) (snd (CopyForwardFiles ?c (xc_ProjectID xc) b n (set un) olds (ps_db (w_ps w))))"
    unfolding CopyForwardFiles_def using assms(1,2) by (intro grows_copy_files) simp_all
  moreover have "ps_db (w_ps w1) = snd (CopyForwardFiles ?c (xc_ProjectID xc) b n (set un) olds (ps_db (w_ps w)))"
    using assms(3) False by (auto simp: copy_forward_def Let_def set_jobs_def split: prod.splits sum.splits)
  ultimately show ?thesis by simp
qed (use assms(3) in \<open>simp add: copy_forward_def\<close>)

text \<open>Deleting the files of a snapshot leaves no row of them and no chunk.\<close>

lemma unlink_con: "unlink_symbols us r = RFile p \<longleftrightarrow> r = RFile p" "unlink_symbols us r = RChunk q \<Longrightarrow> \<exists>q'. r = RChunk q' \<and> cp_FileID q = cp_FileID q'"
  by (cases r; auto)+

lemma delete_files_none:
  "(f, RFile p) \<in> set (a_rows (delete_files i s)) \<Longrightarrow> \<not> sql_eq (fp_IndexSnapshotID p) i"
  by (auto simp: delete_files_def Let_def file_of_snapshot_def dest!: sym [of "RFile p"] simp: unlink_con)

lemma delete_files_chunks:
  assumes "(c, RChunk p) \<in> set (a_rows (delete_files i s))"
  shows "\<exists>q. (c, RChunk q) \<in> set (a_rows s) \<and> cp_FileID p = cp_FileID q \<and> (\<forall>f x. (f, RFile x) \<in> set (a_rows s) \<longrightarrow> sql_eq (fp_IndexSnapshotID x) i \<longrightarrow> \<not> sql_eq (cp_FileID p) f)"
proof -
  obtain r us where r: "(c, r) \<in> set (a_rows s)" "RChunk p = unlink_symbols us r"
    "\<not> (case row_file r of Some g \<Rightarrow> one_of (map fst (filter (\<lambda>e. file_of_snapshot i (snd e)) (a_rows s))) g | None \<Rightarrow> False)"
    using assms by (auto simp: delete_files_def Let_def)
  obtain q where q: "r = RChunk q" "cp_FileID p = cp_FileID q" using unlink_con(2) [OF r(2) [symmetric]] by blast
  have "\<not> sql_eq (cp_FileID p) f" if "(f, RFile x) \<in> set (a_rows s)" "sql_eq (fp_IndexSnapshotID x) i" for f x
  proof
    assume "sql_eq (cp_FileID p) f"
    then have "sql_eq f (cp_FileID q)" using q(2) sql_eq_sym by metis
    moreover have "f \<in> set (map fst (filter (\<lambda>e. file_of_snapshot i (snd e)) (a_rows s)))"
      using that by (force simp: file_of_snapshot_def)
    ultimately show False using r(3) q(1) by (auto simp: one_of_def list_ex_iff)
  qed
  then show ?thesis using r(1) q by blast
qed

lemma finish_db: "ps_db (w_ps (failJob e i c m st w)) = ps_db (w_ps w)" "ps_db (w_ps (finish_job e i xc sn head w)) = ps_db (w_ps w)"
  by (simp_all add: failJob_def finish_job_def set_jobs_def Let_def)

text \<open>Opening the snapshot of a commit that has one takes that snapshot over and deletes its files.\<close>

lemma open_snapshot_again:
  assumes "he_ft e = (\<lambda>_. NoFault)"
    and "List.find (snap_key (xc_ProjectID xc) (xc_Branch xc) (ev_ID ver) (ws_CommitSHA ws)) (db_snaps (jobs_of w)) = Some base"
  shows "\<exists>snapshot w1. open_snapshot e xc ver ws w = (Inr snapshot, w1) \<and> snap_ID snapshot = snap_ID base \<and>
    ps_db (w_ps w1) = delete_files (snap_ID base) (ps_db (w_ps w))"
  using assms
  by (simp add: open_snapshot_def CreateSnapshot_def db_result_def exec_query_def query_def CreateIndexSnapshot_def Let_def set_jobs_def)

lemma no_change_run:
  assumes "runIncrementalPipeline v i xc ver ws base [] w = Some w'" "he_ft (ie_base v) = (\<lambda>_. NoFault)"
    and "open_snapshot (ie_base v) xc ver ws w = (Inr snapshot, w1)" "\<forall>xs. mset (cv_scan (ie_copy v) xs) = mset xs"
    and "\<forall>f \<in> set (ListSnapshotFiles (snap_ID base) (a_rows (ps_db (w_ps w)))). chunkless (fst f) (ps_db (w_ps w1))"
  shows "grows (sv_db (he_services (ie_base v))) (ps_db (w_ps w1)) (ps_db (w_ps w'))"
proof -
  let ?olds = "ListSnapshotFiles (snap_ID base) (cv_scan (ie_copy v) (a_rows (ps_db (w_ps w))))"
  have "set (cv_scan (ie_copy v) (a_rows (ps_db (w_ps w)))) = set (a_rows (ps_db (w_ps w)))" using assms(4) by (metis set_mset_mset)
  then have "\<forall>f \<in> set ?olds. chunkless (fst f) (ps_db (w_ps w1))"
    using assms(5) in_ListSnapshotFiles by (metis prod.collapse)
  note g = grows_copy_forward [OF this assms(4)]
  have c: "changedFiles [] (ws_SourceFiles ws) = []" by (simp add: changedFiles_def changedPaths_def)
  let ?cf = "copy_forward v i xc ws (snap_ID base) (snap_ID snapshot) (unchangedPaths [] ?olds) ?olds [] w1"
  obtain r w2 where cf: "?cf = (r, w2)" by fastforce
  have "ps_db (w_ps w') = ps_db (w_ps w2)"
    using assms(1-3) cf
    by (simp add: runIncrementalPipeline_def Let_def query_def c store_changed_def split: sum.splits prod.splits)
       (auto simp: finish_db set_jobs_def)
  then show ?thesis using g [OF cf] by simp
qed

text \<open>C37: A run of the incremental workflow on the commit of the active snapshot, with nothing changed, loses the index: the
  snapshot that holds the commit is taken over and its files are deleted before they are copied forward,
  so that afterwards no file of the snapshot has a chunk, whatever else fails or succeeds.\<close>

theorem incremental_same_commit_drops_chunks:
  assumes "runIncrementalPipeline v i xc ver ws base [] w = Some w'" "he_ft (ie_base v) = (\<lambda>_. NoFault)"
    and "List.find (snap_key (xc_ProjectID xc) (xc_Branch xc) (ev_ID ver) (ws_CommitSHA ws)) (db_snaps (jobs_of w)) = Some base"
    and "\<forall>xs. mset (cv_scan (ie_copy v) xs) = mset xs"
    and "\<forall>n c p. (c, RChunk p) \<in> set (a_rows (ps_db (w_ps w))) \<longrightarrow> \<not> sql_eq (cp_FileID p) (env_id (sv_db (he_services (ie_base v))) n)"
  shows "snapshot_chunks (snap_ID base) (a_rows (ps_db (w_ps w'))) = []"
proof -
  let ?s = "ps_db (w_ps w)" and ?b = "snap_ID base"
  obtain snapshot w1 where o: "open_snapshot (ie_base v) xc ver ws w = (Inr snapshot, w1)" and w1: "ps_db (w_ps w1) = delete_files ?b ?s"
    using open_snapshot_again [OF assms(2,3)] by blast
  have "chunkless f (ps_db (w_ps w1))" if "(f, p) \<in> set (ListSnapshotFiles ?b (a_rows ?s))" for f p
    unfolding chunkless_def w1 using that delete_files_chunks [of _ _ ?b ?s] by (fastforce simp: in_ListSnapshotFiles)
  then have "\<forall>f \<in> set (ListSnapshotFiles ?b (a_rows ?s)). chunkless (fst f) (ps_db (w_ps w1))" by (metis prod.collapse)
  from no_change_run [OF assms(1,2) o assms(4) this] have "grows (sv_db (he_services (ie_base v))) (delete_files ?b ?s) (ps_db (w_ps w'))"
    by (simp only: w1)
  then obtain new where new: "a_rows (ps_db (w_ps w')) = a_rows (delete_files ?b ?s) @ new"
    "\<forall>e \<in> set new. fst e \<in> range (env_id (sv_db (he_services (ie_base v)))) \<and> (\<forall>p. snd e \<noteq> RChunk p)" by (auto simp: grows_def)
  have "ListChunksByFileID f (a_rows (ps_db (w_ps w'))) = []" if "(f, x) \<in> set (ListSnapshotFiles ?b (a_rows (ps_db (w_ps w'))))" for f x
  proof -
    have "(f, RFile x) \<in> set new" using that delete_files_none [of f x ?b ?s] by (auto simp: in_ListSnapshotFiles new(1))
    then obtain n where n: "f = env_id (sv_db (he_services (ie_base v))) n" using new(2) by force
    have "(c, p) \<notin> set (ListChunksByFileID f (a_rows (ps_db (w_ps w'))))" for c p
    proof
      assume "(c, p) \<in> set (ListChunksByFileID f (a_rows (ps_db (w_ps w'))))"
      then have "(c, RChunk p) \<in> set (a_rows (delete_files ?b ?s))" "sql_eq (cp_FileID p) f"
        using new by (auto simp: in_ListChunksByFileID)
      then show False using delete_files_chunks [of c p ?b ?s] assms(5) n by metis
    qed
    then show ?thesis by (metis list.set_intros(1) neq_Nil_conv surj_pair)
  qed
  then show ?thesis by (auto simp: snapshot_chunks_def)
qed

section \<open>Examples\<close>

definition ex_ienv :: "nat ienv" where
  "ex_ienv = \<lparr>ie_base = ex_henv, ie_copy = ex_cenv, ie_git = (\<lambda>_ _ _. Inr []), ie_since = (\<lambda>_. None), ie_commit = (\<lambda>_ _. None)\<rparr>"

theorem inc_Handle_settles_job_witness:
  "\<exists>w'. inc_Handle ex_ienv ex_task ex_world = Some (Inr (), w') \<and>
     jobs_sat (ex_uuid 1) (\<lambda>st. st = ''failed'' \<or> st = ''completed'') (jobs_of w')"
proof -
  have e: "ie_base ex_ienv = ex_henv" by (simp add: ex_ienv_def)
  obtain w' where w': "inc_Handle ex_ienv ex_task ex_world = Some (Inr (), w')"
    unfolding inc_Handle_def e using ex_run_job inc_process_total [of ex_ienv, unfolded e, OF ex_parse] by blast
  have "he_parse_uuid ex_henv (wt_JobID ex_task) = Inr (ex_uuid 1)" by (simp add: ex_henv_def)
  note settled = inc_Handle_settles_job [OF w', unfolded e, OF ex_world_ok(1) this ex_world_ok(2)]
  have "he_ft ex_henv = (\<lambda>_. NoFault)" by (simp add: ex_henv_def)
  then show ?thesis using w' settled_no_fault [OF settled] by blast
qed

text \<open>A project with one file of one chunk in the active snapshot of the commit.\<close>

definition ex_same_env :: "nat ienv" where
  "ex_same_env = ex_ienv\<lparr>ie_base := ex_henv\<lparr>he_services := ex_services\<lparr>sv_db := cv_db ex_cenv\<rparr>\<rparr>\<rparr>"

definition ex_same_world :: "nat world" where
  "ex_same_world = \<lparr>w_ps = \<lparr>ps_db = ex_rows, ps_jobs = \<lparr>db_jobs = [ex_job ''running''], db_snaps = [ex_snap 3 ''active'' True], db_files = []\<rparr>, ps_upserts = []\<rparr>,
     w_versions = [], w_locks = Map.empty\<rparr>"

definition ex_same_context :: exec_Context where
  "ex_same_context = \<lparr>xc_JobID = ex_uuid 1, xc_JobType = ''incremental'', xc_ProjectID = ex_uuid 2, xc_RepoURL = [], xc_Branch = ''main'', xc_SSHKeyID = null_UUID,
     xc_SSHPrivateKey = [], xc_Embedding = ex_config ''m''\<rparr>"

theorem incremental_same_commit_drops_chunks_witness:
  "\<exists>w'. runIncrementalPipeline ex_same_env (ex_uuid 1) ex_same_context ((ex_version ''m'')\<lparr>ev_ID := ex_uuid 3\<rparr>)
        \<lparr>ws_RepoDir = ''d'', ws_CommitSHA = ''c'', ws_SourceFiles = [''a.go'']\<rparr> (ex_snap 3 ''active'' True) [] ex_same_world = Some w' \<and>
     length (snapshot_chunks (ex_uuid 3) (a_rows (ps_db (w_ps ex_same_world)))) = 1 \<and> snapshot_chunks (ex_uuid 3) (a_rows (ps_db (w_ps w'))) = []"
proof -
  let ?ver = "(ex_version ''m'')\<lparr>ev_ID := ex_uuid 3\<rparr>" and ?ws = "\<lparr>ws_RepoDir = ''d'', ws_CommitSHA = ''c'', ws_SourceFiles = [''a.go'']\<rparr>"
  have base: "snap_ID (ex_snap 3 ''active'' True) = ex_uuid 3" by (simp add: ex_snap_def)
  have e: "he_parse (ie_base ex_same_env) = he_parse ex_henv" "he_ft (ie_base ex_same_env) = (\<lambda>_. NoFault)"
    "cv_scan (ie_copy ex_same_env) = rev" "env_id (sv_db (he_services (ie_base ex_same_env))) = (\<lambda>n. ex_uuid (if n = 0 then 9 else 8))"
    by (simp_all add: ex_same_env_def ex_ienv_def ex_cenv_def) (simp add: ex_henv_def)
  have ps: "parser_splittable (ie_base ex_same_env)" using ex_parse by (simp add: parser_splittable_def e)
  obtain w' where w': "runIncrementalPipeline ex_same_env (ex_uuid 1) ex_same_context ?ver ?ws (ex_snap 3 ''active'' True) [] ex_same_world = Some w'"
    using runIncrementalPipeline_total [of ex_same_env, OF ps] by blast
  have "List.find (snap_key (xc_ProjectID ex_same_context) (xc_Branch ex_same_context) (ev_ID ?ver) (ws_CommitSHA ?ws)) (db_snaps (jobs_of ex_same_world)) = Some (ex_snap 3 ''active'' True)"
    by (simp add: ex_same_context_def ex_same_world_def ex_snap_def snap_key_def sql_eq_def ex_uuid_def)
  moreover have "\<forall>n c p. (c, RChunk p) \<in> set (a_rows (ps_db (w_ps ex_same_world))) \<longrightarrow> \<not> sql_eq (cp_FileID p) (ex_uuid (if n = (0 :: nat) then 9 else 8))"
    by (simp add: ex_same_world_def ex_rows_def ex_chunk_row_def sql_eq_def ex_uuid_def)
  ultimately have "snapshot_chunks (ex_uuid 3) (a_rows (ps_db (w_ps w'))) = []"
    using incremental_same_commit_drops_chunks [OF w', unfolded e base] by simp
  moreover have "length (snapshot_chunks (ex_uuid 3) (a_rows (ps_db (w_ps ex_same_world)))) = 1"
    by (simp add: snapshot_chunks_def ListSnapshotFiles_def ListChunksByFileID_def rows_where_def List.map_filter_simps ex_same_world_def ex_rows_def
        ex_file_def ex_chunk_row_def sql_eq_def ex_uuid_def)
  ultimately show ?thesis using w' by blast
qed

end
