(* ===== verification/Chunk_Extract.thy ===== *)
theory Chunk_Extract
  imports Language_Registry Parser_Text Parser_Sort Go_Bytes
begin

text \<open>
  Chunks for embedding from a file's text and its symbols
  (\<^verbatim>\<open>src/backend-worker/internal/parser/extractors/chunks.go\<close>): configuration files and files of
  the lowest tier as one chunk, test files by their test blocks, other files by their classes
  and functions.

  The patterns of the language registry are globs and regular expressions. \<open>filepath_Match\<close> is the
  matcher for globs made of literal bytes and \<^verbatim>\<open>*\<close>; \<open>regexp_Compile\<close> reads the regular expressions
  made of literals, escapes, \<^verbatim>\<open>\s\<close>, a range in brackets, a group of alternative words, \<^verbatim>\<open>*\<close>, \<^verbatim>\<open>+\<close> and
  an anchor. That every pattern of the registry is of these kinds is proved below.
  \<open>None\<close> as the result of a chunk function is a run-time panic.
\<close>

section \<open>Globs and regular expressions\<close>


definition plain_glob :: "string \<Rightarrow> bool" where
  "plain_glob p = list_all (\<lambda>c. c \<notin> {CHR ''?'', CHR ''['', CHR 0x5C}) p"

datatype re = Eps | Never | Cls "char list" | Seq re re | Alt re re | Star re

fun nullable :: "re \<Rightarrow> bool" where
  "nullable Eps = True"
| "nullable Never = False"
| "nullable (Cls cs) = False"
| "nullable (Seq a b) = (nullable a \<and> nullable b)"
| "nullable (Alt a b) = (nullable a \<or> nullable b)"
| "nullable (Star a) = True"

fun deriv :: "char \<Rightarrow> re \<Rightarrow> re" where
  "deriv c Eps = Never"
| "deriv c Never = Never"
| "deriv c (Cls cs) = (if c \<in> set cs then Eps else Never)"
| "deriv c (Seq a b) = (if nullable a then Alt (Seq (deriv c a) b) (deriv c b) else Seq (deriv c a) b)"
| "deriv c (Alt a b) = Alt (deriv c a) (deriv c b)"
| "deriv c (Star a) = Seq (deriv c a) (Star a)"

fun match_start :: "re \<Rightarrow> string \<Rightarrow> bool" where
  "match_start r [] = nullable r"
| "match_start r (c # s) = (nullable r \<or> match_start (deriv c r) s)"

fun match_somewhere :: "re \<Rightarrow> string \<Rightarrow> bool" where
  "match_somewhere r [] = nullable r"
| "match_somewhere r (c # s) = (match_start r (c # s) \<or> match_somewhere r s)"

record Regexp =
  rx_anchored :: bool
  rx_re :: re

definition MatchString :: "Regexp \<Rightarrow> string \<Rightarrow> bool" where
  "MatchString x s = (if rx_anchored x then match_start (rx_re x) s else match_somewhere (rx_re x) s)"

definition re_space :: re where
  "re_space = Cls [CHR 0x09, CHR 0x0A, CHR 0x0C, CHR 0x0D, CHR '' '']"

definition re_word :: "string \<Rightarrow> re" where
  "re_word w = foldr (\<lambda>c r. Seq (Cls [c]) r) w Eps"

fun parse_words :: "string \<Rightarrow> string \<Rightarrow> (re \<times> string) option" where
  "parse_words [] w = None"
| "parse_words (c # s) w =
     (if c = CHR '')'' then Some (re_word (rev w), s)
      else if c = CHR ''|'' then map_option (\<lambda>(r, rest). (Alt (re_word (rev w)) r, rest)) (parse_words s [])
      else parse_words s (c # w))"

definition re_meta :: "char list" where
  "re_meta = [CHR ''.'', CHR ''$'', CHR ''^'', CHR ''('', CHR '')'', CHR ''|'', CHR ''?'', CHR ''*'', CHR ''+'', CHR ''['', CHR '']'',
     CHR ''{'', CHR ''}'', CHR 0x5C]"

definition parse_atom :: "string \<Rightarrow> (re \<times> string) option" where
  "parse_atom s =
     (if HasPrefix s ''(?:'' then parse_words (drop 3 s) []
      else case s of
        [] \<Rightarrow> None
      | c # s1 \<Rightarrow>
          if c = CHR 0x5C then
            (case s1 of
               [] \<Rightarrow> None
             | d # s2 \<Rightarrow> if d = CHR ''s'' then Some (re_space, s2) else if d \<in> set re_meta then Some (Cls [d], s2) else None)
          else if c = CHR ''['' then
            (if length s1 \<ge> 4 \<and> s1 ! 1 = CHR ''-'' \<and> s1 ! 3 = CHR '']''
             then Some (Cls (map char_of [(of_char (s1 ! 0) :: nat) ..< Suc (of_char (s1 ! 2))]), drop 4 s1) else None)
          else if c \<in> set re_meta then None
          else Some (Cls [c], s1))"

definition parse_post :: "re \<times> string \<Rightarrow> re \<times> string" where
  "parse_post x =
     (case x of (r, s) \<Rightarrow>
        (case s of
           [] \<Rightarrow> (r, s)
         | c # s1 \<Rightarrow> if c = CHR ''*'' then (Star r, s1) else if c = CHR ''+'' then (Seq r (Star r), s1) else (r, s)))"

function parse_re :: "string \<Rightarrow> re option" where
  "parse_re s =
     (if s = [] then Some Eps
      else case parse_atom s of
             None \<Rightarrow> None
           | Some x \<Rightarrow>
               (let y = parse_post x
                in if length (snd y) < length s then map_option (Seq (fst y)) (parse_re (snd y)) else None))"
  by pat_completeness auto
termination
  by (relation "measure length") auto

declare parse_re.simps [simp del]

definition regexp_Compile :: "string \<Rightarrow> Regexp option" where
  "regexp_Compile p =
     (case p of
        [] \<Rightarrow> Some \<lparr>rx_anchored = False, rx_re = Eps\<rparr>
      | c # s \<Rightarrow>
          if c = CHR ''^'' then map_option (\<lambda>r. \<lparr>rx_anchored = True, rx_re = r\<rparr>) (parse_re s)
          else map_option (\<lambda>r. \<lparr>rx_anchored = False, rx_re = r\<rparr>) (parse_re p))"

section \<open>File patterns\<close>






section \<open>Chunks\<close>

definition estimateTokens :: "string \<Rightarrow> int" where
  "estimateTokens text = i32 ((int (length text) + 3) div 4)"


definition makeChunk ::
  "string \<Rightarrow> string \<Rightarrow> string \<Rightarrow> int \<Rightarrow> int \<Rightarrow> string \<Rightarrow> string \<Rightarrow> string \<Rightarrow> string \<Rightarrow> string \<Rightarrow> string \<Rightarrow> bool \<Rightarrow> Chunk" where
  "makeChunk filePath chunkType content startLine endLine symbolID ownerQN ownerKind role ctxBefore ctxAfter isExported =
     \<lparr>ch_ChunkID = filePath @ '':'' @ chunkType @ '':'' @ show_int startLine @ ''-'' @ show_int endLine,
      ch_SymbolID = symbolID, ch_ChunkType = chunkType, ch_ChunkHash = StableHashBytes content, ch_Content = content,
      ch_ContextBefore = ctxBefore, ch_ContextAfter = ctxAfter, ch_StartLine = startLine, ch_EndLine = endLine,
      ch_EstimatedTokens = estimateTokens content, ch_OwnerQualifiedName = ownerQN, ch_OwnerKind = ownerKind,
      ch_IsExportedContext = isExported, ch_SemanticRole = role\<rparr>"

text \<open>A chunk of a whole range that belongs to no symbol.\<close>

abbreviation plain_chunk :: "string \<Rightarrow> string \<Rightarrow> string \<Rightarrow> string \<Rightarrow> int \<Rightarrow> int \<Rightarrow> Chunk" where
  "plain_chunk filePath chunkType role content a b \<equiv>
     makeChunk filePath chunkType content a b [] [] [] role [] [] False"

text \<open>\<open>LineRangeText\<close> never panics.\<close>

definition range_text :: "string \<Rightarrow> int \<Rightarrow> int \<Rightarrow> string" where
  "range_text content a b = (case LineRangeText content a b of Some t \<Rightarrow> t | None \<Rightarrow> [])"



















definition block_starts :: "Regexp list \<Rightarrow> string list \<Rightarrow> int list" where
  "block_starts regexps lines =
     map (\<lambda>(i, line). i32 (int i + 1)) (filter (\<lambda>(i, line). list_ex (\<lambda>x. MatchString x line) regexps) (List.enumerate 0 lines))"

fun block_ranges :: "int \<Rightarrow> int list \<Rightarrow> (int \<times> int) list" where
  "block_ranges totalLines [] = []"
| "block_ranges totalLines [a] = [(a, totalLines)]"
| "block_ranges totalLines (a # b # starts) = (a, i32 (b - 1)) # block_ranges totalLines (b # starts)"

definition splitTestBlocks :: "string \<Rightarrow> string list \<Rightarrow> string \<Rightarrow> Chunk list" where
  "splitTestBlocks content patterns filePath =
     (let lines = text_lines content
      in if length lines = 0 then []
         else let regexps = List.map_filter regexp_Compile patterns
              in if regexps = [] then []
                 else map (\<lambda>(a, b). plain_chunk filePath ''test'' ''test'' (range_text content a b) a b)
                        (block_ranges (i32 (int (length lines))) (block_starts regexps lines)))"



section \<open>The patterns of the registry\<close>

lemmas lang_defs =
  lang_javascript_def lang_typescript_def lang_jsx_def lang_tsx_def lang_python_def lang_go_def lang_rust_def
  lang_java_def lang_kotlin_def lang_c_def lang_cpp_def lang_csharp_def lang_swift_def lang_ruby_def
  lang_php_def lang_bash_def lang_sql_def lang_graphql_def lang_dockerfile_def lang_hcl_def lang_html_def
  lang_css_def lang_scss_def lang_json_def lang_yaml_def lang_toml_def lang_markdown_def lang_xml_def

lemma test_globs_plain: "list_all (\<lambda>(l, cfg). list_all plain_glob (lc_TestFilePatterns cfg)) languages"
  unfolding languages_def by (simp add: lang_defs) code_simp

lemma config_globs_plain: "list_all (\<lambda>(l, cfg). list_all plain_glob (lc_ConfigFilePatterns cfg)) languages"
  unfolding languages_def by (simp add: lang_defs) code_simp

lemma block_patterns_compile:
  "list_all (\<lambda>(l, cfg). list_all (\<lambda>p. \<not> Option.is_none (regexp_Compile p)) (lc_TestBlockPatterns cfg)) languages"
  unfolding languages_def by (simp add: lang_defs) code_simp

section \<open>Lines and ranges\<close>

abbreviation line_count :: "string \<Rightarrow> nat" where
  "line_count content \<equiv> length (text_lines content)"

definition seg :: "string list \<Rightarrow> int \<Rightarrow> int \<Rightarrow> string list" where
  "seg L a b = take (nat (b - a + 1)) (drop (nat (a - 1)) L)"

lemma range_text_seg:
  assumes "1 \<le> a" "b \<le> int (line_count content)"
  shows "range_text content a b = Join (seg (text_lines content) a b) [LF]"
proof -
  have "nat b - nat (a - 1) = nat (b - a + 1)" using assms(1) by simp
  then show ?thesis using assms by (simp add: range_text_def LineRangeText_clamped seg_def)
qed

lemma Join_append: "xs \<noteq> [] \<Longrightarrow> ys \<noteq> [] \<Longrightarrow> Join (xs @ ys) sep = Join xs sep @ sep @ Join ys sep"
  by (induction xs sep rule: Join.induct) (auto simp: neq_Nil_conv)

lemma Join_segments:
  "(\<And>s. s \<in> set segs \<Longrightarrow> s \<noteq> []) \<Longrightarrow> Join (map (\<lambda>s. Join s sep) segs) sep = Join (concat segs) sep"
proof (induction segs)
  case (Cons s segs)
  show ?case
  proof (cases segs)
    case (Cons t ts)
    with Cons.prems have "t \<noteq> []" by simp
    then have "concat segs \<noteq> []" using Cons by simp
    with Cons.IH Cons.prems Cons show ?thesis by (simp add: Join_append)
  qed simp
qed simp

lemma block_ranges_within:
  assumes "sorted_wrt (<) starts" "\<And>x. x \<in> set starts \<Longrightarrow> 1 \<le> x \<and> x \<le> n" "n < 2 ^ 31" "(a, b) \<in> set (block_ranges n starts)"
  shows "a \<in> set starts \<and> a \<le> b \<and> b \<le> n \<and> (\<forall>x \<in> set starts. a < x \<longrightarrow> b < x)"
  using assms
proof (induction n starts rule: block_ranges.induct)
  case (3 n x y starts)
  have y: "1 \<le> x" "x < y" "y \<le> n" "\<And>z. z \<in> set starts \<Longrightarrow> y < z" using "3.prems"(1,2) by auto
  have e: "i32 (y - 1) = y - 1" using y "3.prems"(3) by (intro i32_small) auto
  show ?case
  proof (cases "(a, b) = (x, i32 (y - 1))")
    case True
    then show ?thesis using y e by force
  next
    case False
    then have "(a, b) \<in> set (block_ranges n (y # starts))" using "3.prems"(4) by auto
    with "3.IH" "3.prems"(1-3) have "a \<in> set (y # starts) \<and> a \<le> b \<and> b \<le> n \<and> (\<forall>x \<in> set (y # starts). a < x \<longrightarrow> b < x)"
      by auto
    moreover have "y \<le> a" using calculation y(4) by force
    ultimately show ?thesis using y by auto
  qed
qed auto

lemma block_ranges_concat:
  assumes "sorted_wrt (<) starts" "\<And>x. x \<in> set starts \<Longrightarrow> 1 \<le> x \<and> x \<le> int (length L)" "int (length L) < 2 ^ 31" "starts \<noteq> []"
  shows "concat (map (\<lambda>(a, b). seg L a b) (block_ranges (int (length L)) starts)) = drop (nat (hd starts - 1)) L"
  using assms
proof (induction "int (length L)" starts rule: block_ranges.induct)
  case (2 a)
  then show ?case by (simp add: seg_def)
next
  case (3 x y starts)
  have y: "1 \<le> x" "x < y" "y \<le> int (length L)" using "3.prems"(1,2) by auto
  have e: "i32 (y - 1) = y - 1" using y "3.prems"(3) by (intro i32_small) auto
  have "concat (map (\<lambda>(a, b). seg L a b) (block_ranges (int (length L)) (y # starts))) = drop (nat (y - 1)) L"
    using "3.hyps" "3.prems" by auto
  moreover have "drop (nat (x - 1)) L = take (nat (y - x)) (drop (nat (x - 1)) L) @ drop (nat (y - 1)) L"
  proof -
    have "nat (y - 1) = nat (y - x) + nat (x - 1)" using y by simp
    then show ?thesis by (metis append_take_drop_id drop_drop)
  qed
  moreover have "seg L x (y - 1) = take (nat (y - x)) (drop (nat (x - 1)) L)" by (simp add: seg_def)
  ultimately show ?case using e by simp
qed simp

lemma length_block_ranges: "length (block_ranges n starts) = length starts"
  by (induction n starts rule: block_ranges.induct) auto

lemma map_fst_block_ranges: "map fst (block_ranges n starts) = starts"
  by (induction n starts rule: block_ranges.induct) auto

text \<open>The lines where a block starts, from 0.\<close>

definition block_line :: "Regexp list \<Rightarrow> string \<Rightarrow> bool" where
  "block_line regexps line = list_ex (\<lambda>x. MatchString x line) regexps"

lemma block_starts_eq:
  assumes "int (length L) < 2 ^ 31"
  shows "block_starts rs L = map (\<lambda>i. int i + 1) (filter (\<lambda>i. block_line rs (L ! i)) [0 ..< length L])"
proof -
  have en: "List.enumerate 0 L = map (\<lambda>i. (i, L ! i)) [0 ..< length L]"
    by (rule nth_equalityI) (simp_all add: nth_enumerate_eq)
  have "i32 (int i + 1) = int i + 1" if "i < length L" for i
    using that assms by (intro i32_small) auto
  then show ?thesis
    by (auto simp: block_starts_def en filter_map comp_def block_line_def)
qed

lemma block_starts_sorted: "int (length L) < 2 ^ 31 \<Longrightarrow> sorted_wrt (<) (block_starts rs L)"
  unfolding block_starts_eq sorted_wrt_map by (intro sorted_wrt_filter) (simp add: sorted_wrt_iff_nth_less)

lemma block_starts_bounds: "int (length L) < 2 ^ 31 \<Longrightarrow> x \<in> set (block_starts rs L) \<Longrightarrow> 1 \<le> x \<and> x \<le> int (length L)"
  by (auto simp: block_starts_eq)

lemma test_ranges:
  assumes "int (length L) < 2 ^ 31" "(a, b) \<in> set (block_ranges (int (length L)) (block_starts rs L))"
  shows "1 \<le> a \<and> a \<le> b \<and> b \<le> int (length L)"
proof -
  have "a \<in> set (block_starts rs L) \<and> a \<le> b \<and> b \<le> int (length L)"
    using block_ranges_within [OF block_starts_sorted [OF assms(1)] block_starts_bounds [OF assms(1), where rs = rs] assms(1) assms(2)] by blast
  then show ?thesis using block_starts_bounds [OF assms(1)] by blast
qed

lemma splitTestBlocks_eq:
  assumes "splitTestBlocks content patterns filePath \<noteq> []" "int (line_count content) < 2 ^ 31"
  shows "splitTestBlocks content patterns filePath = map (\<lambda>(a, b). plain_chunk filePath ''test'' ''test'' (range_text content a b) a b)
    (block_ranges (int (line_count content)) (block_starts (List.map_filter regexp_Compile patterns) (text_lines content)))"
  using assms by (auto simp: splitTestBlocks_def Let_def i32_small split: if_splits)

lemma splitTestBlocks_chunk:
  assumes "int (line_count content) < 2 ^ 31" "c \<in> set (splitTestBlocks content patterns filePath)"
  shows "1 \<le> ch_StartLine c \<and> ch_StartLine c \<le> ch_EndLine c \<and> ch_EndLine c \<le> int (line_count content) \<and>
    ch_Content c = range_text content (ch_StartLine c) (ch_EndLine c) \<and> ch_ChunkHash c = StableHashBytes (ch_Content c)"
proof -
  have "splitTestBlocks content patterns filePath \<noteq> []" using assms(2) by auto
  from assms(2) [unfolded splitTestBlocks_eq [OF this assms(1)]] obtain a b where
    c: "c = plain_chunk filePath ''test'' ''test'' (range_text content a b) a b"
    and ab: "(a, b) \<in> set (block_ranges (int (line_count content)) (block_starts (List.map_filter regexp_Compile patterns) (text_lines content)))"
    by auto
  show ?thesis using test_ranges [OF assms(1) ab] by (simp add: c makeChunk_def)
qed

section \<open>Test blocks\<close>

text \<open>The blocks of a test file start exactly at the lines that match a pattern and follow one another
  without gap to the end of the file: their contents, joined by newlines, are the lines of the
  file from the first block on, and each hash is that of its content.\<close>

theorem splitTestBlocks_cover:
  assumes "splitTestBlocks content patterns filePath = cs" "cs \<noteq> []" "int (line_count content) < 2 ^ 31"
    and "rs = List.map_filter regexp_Compile patterns"
  shows "\<exists>k < line_count content. (\<forall>j < k. \<not> block_line rs (text_lines content ! j)) \<and>
    map ch_StartLine cs = map (\<lambda>i. int i + 1) (filter (\<lambda>i. block_line rs (text_lines content ! i)) [0 ..< line_count content]) \<and>
    Join (map ch_Content cs) [LF] = Join (drop k (text_lines content)) [LF] \<and>
    (\<forall>c \<in> set cs. ch_StartLine c \<le> ch_EndLine c \<and> ch_EndLine c \<le> int (line_count content) \<and>
       ch_Content c = range_text content (ch_StartLine c) (ch_EndLine c) \<and> ch_ChunkHash c = StableHashBytes (ch_Content c))"
proof -
  let ?L = "text_lines content" and ?n = "int (line_count content)"
  define I where "I = filter (\<lambda>i. block_line rs (?L ! i)) [0 ..< line_count content]"
  define R where "R = block_ranges ?n (block_starts rs ?L)"
  have st: "block_starts rs ?L = map (\<lambda>i. int i + 1) I" using block_starts_eq [OF assms(3)] by (simp add: I_def)
  have cs: "cs = map (\<lambda>(a, b). plain_chunk filePath ''test'' ''test'' (range_text content a b) a b) R"
    using splitTestBlocks_eq [of content patterns filePath] assms by (simp add: R_def)
  have I: "I \<noteq> []" using assms(2) cs length_block_ranges [of ?n "block_starts rs ?L"] by (auto simp: R_def st)
  have seg: "range_text content a b = Join (seg ?L a b) [LF]" "seg ?L a b \<noteq> []" if "(a, b) \<in> set R" for a b
  proof -
    have ab: "1 \<le> a" "a \<le> b" "b \<le> ?n" using test_ranges [OF assms(3)] that unfolding R_def by blast+
    then show "range_text content a b = Join (seg ?L a b) [LF]" "seg ?L a b \<noteq> []"
      using ab by (auto simp: range_text_seg seg_def)
  qed
  have "map ch_Content cs = map (\<lambda>s. Join s [LF]) (map (\<lambda>(a, b). seg ?L a b) R)"
    unfolding cs by (auto simp: makeChunk_def seg(1))
  moreover have "Join (map (\<lambda>s. Join s [LF]) (map (\<lambda>(a, b). seg ?L a b) R)) [LF] = Join (concat (map (\<lambda>(a, b). seg ?L a b) R)) [LF]"
    using seg(2) by (intro Join_segments) auto
  moreover have "concat (map (\<lambda>(a, b). seg ?L a b) R) = drop (nat (hd (block_starts rs ?L) - 1)) ?L"
    unfolding R_def by (rule block_ranges_concat [OF block_starts_sorted [OF assms(3)] block_starts_bounds [OF assms(3), where rs = rs] assms(3)])
      (use I st in simp_all)
  ultimately have join: "Join (map ch_Content cs) [LF] = Join (drop (hd I) ?L) [LF]" using I by (simp add: st hd_map)
  have hd: "hd I \<in> set I" using I by simp
  have "\<not> block_line rs (?L ! j)" if "j < hd I" for j
  proof
    assume "block_line rs (?L ! j)"
    then have "j \<in> set I" using that hd by (auto simp: I_def)
    moreover have "sorted I" by (simp add: I_def sorted_filter [where f = id, simplified])
    ultimately show False using that I by (cases I) auto
  qed
  then have first: "\<forall>j < hd I. \<not> block_line rs (?L ! j)" by blast
  have "map ch_StartLine cs = map fst R" unfolding cs by (auto simp: makeChunk_def)
  then have starts: "map ch_StartLine cs = map (\<lambda>i. int i + 1) I" by (simp add: R_def map_fst_block_ranges st)
  have "hd I < line_count content" using hd by (auto simp: I_def)
  moreover have "\<forall>c \<in> set cs. ch_StartLine c \<le> ch_EndLine c \<and> ch_EndLine c \<le> ?n \<and>
       ch_Content c = range_text content (ch_StartLine c) (ch_EndLine c) \<and> ch_ChunkHash c = StableHashBytes (ch_Content c)"
    using splitTestBlocks_chunk [OF assms(3)] assms(1) by blast
  ultimately show ?thesis
    using join starts first unfolding I_def [symmetric] by (intro exI [of _ "hd I"] conjI)
qed

lemma splitTestBlocks_contents:
  "text_lines content \<noteq> [] \<Longrightarrow> List.map_filter regexp_Compile patterns \<noteq> [] \<Longrightarrow>
   map ch_Content (splitTestBlocks content patterns filePath) =
     map (\<lambda>(a, b). range_text content a b)
       (block_ranges (i32 (int (line_count content))) (block_starts (List.map_filter regexp_Compile patterns) (text_lines content)))"
  by (auto simp: splitTestBlocks_def Let_def makeChunk_def)

theorem splitTestBlocks_cover_witness:
  "map ch_Content (splitTestBlocks (''import x'' @ [LF] @ ''@Test a'' @ [LF] @ ''@Test b'') [''@Test''] ''T.java'') = [''@Test a'', ''@Test b''] \<and>
   (\<exists>k. Join (map ch_Content (splitTestBlocks (''import x'' @ [LF] @ ''@Test a'' @ [LF] @ ''@Test b'') [''@Test''] ''T.java'')) [LF] =
      Join (drop k [''import x'', ''@Test a'', ''@Test b'']) [LF])"
proof -
  let ?c = "''import x'' @ [LF] @ ''@Test a'' @ [LF] @ ''@Test b''"
  have L: "text_lines ?c = [''import x'', ''@Test a'', ''@Test b'']" by code_simp
  have c: "map ch_Content (splitTestBlocks ?c [''@Test''] ''T.java'') = [''@Test a'', ''@Test b'']"
  proof -
    have "List.map_filter regexp_Compile [''@Test''] \<noteq> []" by code_simp
    then show ?thesis by (simp only: splitTestBlocks_contents L list.distinct simp_thms) code_simp
  qed
  then have "splitTestBlocks ?c [''@Test''] ''T.java'' \<noteq> []" by auto
  from splitTestBlocks_cover [OF refl this _ refl] show ?thesis using c unfolding L by auto
qed

section \<open>Symbols\<close>





















end
