(* ===== verification/SSE_Hub.thy ===== *)
theory SSE_Hub
  imports Go_Json
begin

text \<open>
  The hub of server-sent-event connections (\<^verbatim>\<open>src/backend-api/internal/sse/hub.go\<close>).

  Clients and their project sets are Go objects reached by pointers, and a membership refresh
  makes all clients of a user share one set, so the model has an explicit store: a client pointer
  names a \<open>Client\<close>, a client's \<^verbatim>\<open>ProjectIDs\<close> is \<open>None\<close> (the nil map) or the address of a set.
  A \<open>Hub\<close> value stands for a non-nil hub together with the store; the methods whose first test
  returns on a nil receiver are modelled past that test. \<open>hub_clients\<close> holds the keys of the
  client map in the order an iteration visits them. Each method body runs under the hub's mutex,
  except for the refresh, whose three phases are separate definitions.
\<close>

section \<open>State\<close>

record Client =
  cl_UserID :: string
  cl_ProjectIDs :: "nat option"
  cl_Ch :: "string list"
  cl_Done :: bool

record Hub =
  hub_clients :: "nat list"
  hub_maxConns :: int
  hub_hasLoader :: bool
  st_client :: "nat \<Rightarrow> Client"
  st_map :: "nat \<Rightarrow> string set"
  st_next :: nat
  st_nextMap :: nat

record SSEEvent =
  ev_Event :: string
  ev_ProjectID :: string
  ev_JobID :: string
  ev_SnapshotID :: string
  ev_Timestamp :: string
  ev_Data :: "(string \<times> string) list"
  ev_Origin :: string

definition clientBufferSize :: nat where
  "clientBufferSize = 16"

definition zero_Client :: Client where
  "zero_Client = \<lparr>cl_UserID = [], cl_ProjectIDs = None, cl_Ch = [], cl_Done = False\<rparr>"

definition NewHub :: "int \<Rightarrow> Hub" where
  "NewHub maxConns = \<lparr>hub_clients = [], hub_maxConns = maxConns, hub_hasLoader = False,
     st_client = (\<lambda>_. zero_Client), st_map = (\<lambda>_. {}), st_next = 0, st_nextMap = 0\<rparr>"

text \<open>A new client object; a given project set is a map of its own, as the callers make it.\<close>

definition NewClient :: "string \<Rightarrow> string set option \<Rightarrow> Hub \<Rightarrow> nat \<times> Hub" where
  "NewClient userID projectIDs h =
     (case projectIDs of
        None \<Rightarrow>
          (st_next h, h\<lparr>st_next := Suc (st_next h),
             st_client := (st_client h)(st_next h := \<lparr>cl_UserID = userID, cl_ProjectIDs = None, cl_Ch = [], cl_Done = False\<rparr>)\<rparr>)
      | Some ps \<Rightarrow>
          (st_next h, h\<lparr>st_next := Suc (st_next h), st_nextMap := Suc (st_nextMap h),
             st_map := (st_map h)(st_nextMap h := ps),
             st_client := (st_client h)(st_next h := \<lparr>cl_UserID = userID, cl_ProjectIDs = Some (st_nextMap h), cl_Ch = [], cl_Done = False\<rparr>)\<rparr>))"

section \<open>Operations\<close>

text \<open>\<open>None\<close>: the error that the hub is full.\<close>

definition Register :: "nat \<Rightarrow> Hub \<Rightarrow> Hub option" where
  "Register p h =
     (if hub_maxConns h \<le> int (length (hub_clients h)) then None
      else Some (if p \<in> set (hub_clients h) then h else h\<lparr>hub_clients := hub_clients h @ [p]\<rparr>))"

text \<open>\<open>None\<close>: the panic of closing a channel that is closed already.\<close>

definition Unregister :: "nat \<Rightarrow> Hub \<Rightarrow> Hub option" where
  "Unregister p h =
     (if p \<in> set (hub_clients h) then
        (if cl_Done (st_client h p) then None
         else Some (h\<lparr>hub_clients := removeAll p (hub_clients h),
                      st_client := (st_client h)(p := (st_client h p)\<lparr>cl_Done := True\<rparr>)\<rparr>))
      else Some h)"

text \<open>The non-blocking send: a message for a full buffer is dropped.\<close>

definition deliver :: "string \<Rightarrow> Client \<Rightarrow> Client" where
  "deliver data c = (if length (cl_Ch c) < clientBufferSize then c\<lparr>cl_Ch := cl_Ch c @ [data]\<rparr> else c)"

definition in_projects :: "Hub \<Rightarrow> nat \<Rightarrow> string \<Rightarrow> bool" where
  "in_projects h p projectID =
     (case cl_ProjectIDs (st_client h p) of None \<Rightarrow> False | Some m \<Rightarrow> projectID \<in> st_map h m)"

definition broadcast_one :: "string \<Rightarrow> string \<Rightarrow> nat \<Rightarrow> Hub \<Rightarrow> Hub" where
  "broadcast_one projectID data p h =
     (if \<not> in_projects h p projectID then h
      else h\<lparr>st_client := (st_client h)(p := deliver data (st_client h p))\<rparr>)"

definition Broadcast :: "string \<Rightarrow> string \<Rightarrow> Hub \<Rightarrow> Hub" where
  "Broadcast projectID data h = fold (broadcast_one projectID data) (hub_clients h) h"

definition Marshal_SSEEvent :: "SSEEvent \<Rightarrow> string" where
  "Marshal_SSEEvent e = json_object
     ([(''event'', json_string (ev_Event e)), (''project_id'', json_string (ev_ProjectID e))] @
      omitempty ''job_id'' (ev_JobID e) @ omitempty ''snapshot_id'' (ev_SnapshotID e) @
      [(''timestamp'', json_string (ev_Timestamp e))] @
      (if ev_Data e = [] then [] else [(''data'', json_map (ev_Data e))]) @
      omitempty ''origin'' (ev_Origin e))"

definition sse_frame :: "string \<Rightarrow> string \<Rightarrow> string" where
  "sse_frame event data = ''event: '' @ event @ [CHR 0x0A] @ ''data: '' @ data @ [CHR 0x0A, CHR 0x0A]"

definition hub_Publish :: "SSEEvent \<Rightarrow> Hub \<Rightarrow> Hub" where
  "hub_Publish evt h = Broadcast (ev_ProjectID evt) (sse_frame (ev_Event evt) (Marshal_SSEEvent evt)) h"

definition HasCapacity :: "Hub \<Rightarrow> bool" where
  "HasCapacity h = (int (length (hub_clients h)) < hub_maxConns h)"

definition add_one :: "string \<Rightarrow> string \<Rightarrow> nat \<Rightarrow> Hub \<Rightarrow> Hub" where
  "add_one userID projectID p h =
     (let c = st_client h p
      in if cl_UserID c = userID then
           (case cl_ProjectIDs c of
              None \<Rightarrow> h\<lparr>st_client := (st_client h)(p := c\<lparr>cl_ProjectIDs := Some (st_nextMap h)\<rparr>),
                        st_map := (st_map h)(st_nextMap h := {projectID}),
                        st_nextMap := Suc (st_nextMap h)\<rparr>
            | Some m \<Rightarrow> h\<lparr>st_map := (st_map h)(m := insert projectID (st_map h m))\<rparr>)
         else h)"

definition AddProjectForUser :: "string \<Rightarrow> string \<Rightarrow> Hub \<Rightarrow> Hub" where
  "AddProjectForUser userID projectID h = fold (add_one userID projectID) (hub_clients h) h"

definition remove_one :: "string \<Rightarrow> string \<Rightarrow> nat \<Rightarrow> Hub \<Rightarrow> Hub" where
  "remove_one userID projectID p h =
     (let c = st_client h p
      in if cl_UserID c = userID then
           (case cl_ProjectIDs c of
              None \<Rightarrow> h
            | Some m \<Rightarrow> h\<lparr>st_map := (st_map h)(m := st_map h m - {projectID})\<rparr>)
         else h)"

definition RemoveProjectForUser :: "string \<Rightarrow> string \<Rightarrow> Hub \<Rightarrow> Hub" where
  "RemoveProjectForUser userID projectID h = fold (remove_one userID projectID) (hub_clients h) h"

definition send_one :: "string \<Rightarrow> string \<Rightarrow> nat \<Rightarrow> Hub \<Rightarrow> Hub" where
  "send_one userID data p h =
     (if cl_UserID (st_client h p) \<noteq> userID then h
      else h\<lparr>st_client := (st_client h)(p := deliver data (st_client h p))\<rparr>)"

definition SendToUser :: "string \<Rightarrow> string \<Rightarrow> Hub \<Rightarrow> Hub" where
  "SendToUser userID data h = fold (send_one userID data) (hub_clients h) h"

definition PublishToUser :: "string \<Rightarrow> SSEEvent \<Rightarrow> Hub \<Rightarrow> Hub" where
  "PublishToUser userID evt h = SendToUser userID (sse_frame (ev_Event evt) (Marshal_SSEEvent evt)) h"

definition ClientCount :: "Hub \<Rightarrow> nat" where
  "ClientCount h = length (hub_clients h)"

definition SetMembershipLoader :: "bool \<Rightarrow> Hub \<Rightarrow> Hub" where
  "SetMembershipLoader isSet h = h\<lparr>hub_hasLoader := isSet\<rparr>"

text \<open>The refresh: collect the users under the read lock, load their sets with no lock held (\<open>loader\<close>
  answers with the set the database gives at that time, \<open>None\<close> for an error; each answer is a new
  map), and apply the sets under the write lock.\<close>

definition refresh_collect :: "Hub \<Rightarrow> string list" where
  "refresh_collect h =
     (if \<not> hub_hasLoader h then [] else remdups (map (\<lambda>p. cl_UserID (st_client h p)) (hub_clients h)))"

fun refresh_load :: "(string \<Rightarrow> string set option) \<Rightarrow> string list \<Rightarrow> (string \<rightharpoonup> nat) \<Rightarrow> Hub \<Rightarrow> (string \<rightharpoonup> nat) \<times> Hub" where
  "refresh_load loader [] ms h = (ms, h)"
| "refresh_load loader (uid # uids) ms h =
     (case loader uid of
        None \<Rightarrow> refresh_load loader uids ms h
      | Some pids \<Rightarrow>
          refresh_load loader uids (ms(uid \<mapsto> st_nextMap h))
            (h\<lparr>st_map := (st_map h)(st_nextMap h := pids), st_nextMap := Suc (st_nextMap h)\<rparr>))"

definition apply_one :: "(string \<rightharpoonup> nat) \<Rightarrow> nat \<Rightarrow> Hub \<Rightarrow> Hub" where
  "apply_one ms p h =
     (case ms (cl_UserID (st_client h p)) of
        None \<Rightarrow> h
      | Some m \<Rightarrow> h\<lparr>st_client := (st_client h)(p := (st_client h p)\<lparr>cl_ProjectIDs := Some m\<rparr>)\<rparr>)"

definition refresh_apply :: "(string \<rightharpoonup> nat) \<Rightarrow> Hub \<Rightarrow> Hub" where
  "refresh_apply ms h = fold (apply_one ms) (hub_clients h) h"

definition RefreshAllMemberships :: "(string \<Rightarrow> string set option) \<Rightarrow> Hub \<Rightarrow> Hub" where
  "RefreshAllMemberships loader h =
     (if refresh_collect h = [] then h
      else (let (ms, h') = refresh_load loader (refresh_collect h) Map.empty h in refresh_apply ms h'))"

text \<open>The connection handlers take the next message out of a client's buffer.\<close>

definition receive :: "nat \<Rightarrow> Hub \<Rightarrow> Hub" where
  "receive p h =
     (if p \<in> set (hub_clients h)
      then h\<lparr>st_client := (st_client h)(p := (st_client h p)\<lparr>cl_Ch := tl (cl_Ch (st_client h p))\<rparr>)\<rparr> else h)"

section \<open>The system: interleaved calls\<close>

text \<open>A refresh in flight is the list of the users still to load and the sets loaded so far. Any
  number of refreshes may run (the periodic one and one per reconnect of the subscriber).\<close>

type_synonym refresh = "string list \<times> (string \<rightharpoonup> nat)"

record hub_sys =
  sys_hub :: Hub
  sys_refreshes :: "refresh list"

inductive hub_step :: "hub_sys \<Rightarrow> hub_sys \<Rightarrow> bool" where
  connect: "NewClient u ps h = (p, h1) \<Longrightarrow> Register p h1 = Some h2 \<Longrightarrow>
     hub_step \<lparr>sys_hub = h, sys_refreshes = rs\<rparr> \<lparr>sys_hub = h2, sys_refreshes = rs\<rparr>"
| refused: "NewClient u ps h = (p, h1) \<Longrightarrow> Register p h1 = None \<Longrightarrow>
     hub_step \<lparr>sys_hub = h, sys_refreshes = rs\<rparr> \<lparr>sys_hub = h1, sys_refreshes = rs\<rparr>"
| disconnect: "Unregister p h = Some h1 \<Longrightarrow>
     hub_step \<lparr>sys_hub = h, sys_refreshes = rs\<rparr> \<lparr>sys_hub = h1, sys_refreshes = rs\<rparr>"
| broadcast: "hub_step \<lparr>sys_hub = h, sys_refreshes = rs\<rparr> \<lparr>sys_hub = Broadcast pid d h, sys_refreshes = rs\<rparr>"
| send: "hub_step \<lparr>sys_hub = h, sys_refreshes = rs\<rparr> \<lparr>sys_hub = SendToUser u d h, sys_refreshes = rs\<rparr>"
| add: "hub_step \<lparr>sys_hub = h, sys_refreshes = rs\<rparr> \<lparr>sys_hub = AddProjectForUser u pid h, sys_refreshes = rs\<rparr>"
| remove: "hub_step \<lparr>sys_hub = h, sys_refreshes = rs\<rparr> \<lparr>sys_hub = RemoveProjectForUser u pid h, sys_refreshes = rs\<rparr>"
| take_msg: "hub_step \<lparr>sys_hub = h, sys_refreshes = rs\<rparr> \<lparr>sys_hub = receive p h, sys_refreshes = rs\<rparr>"
| set_loader: "hub_step \<lparr>sys_hub = h, sys_refreshes = rs\<rparr> \<lparr>sys_hub = SetMembershipLoader b h, sys_refreshes = rs\<rparr>"
| refresh_begin: "hub_step \<lparr>sys_hub = h, sys_refreshes = rs\<rparr>
     \<lparr>sys_hub = h, sys_refreshes = rs @ [(refresh_collect h, Map.empty)]\<rparr>"
| refresh_one: "refresh_load loader [u] ms h = (ms', h') \<Longrightarrow>
     hub_step \<lparr>sys_hub = h, sys_refreshes = rs1 @ (u # us, ms) # rs2\<rparr>
              \<lparr>sys_hub = h', sys_refreshes = rs1 @ (us, ms') # rs2\<rparr>"
| refresh_end: "hub_step \<lparr>sys_hub = h, sys_refreshes = rs1 @ ([], ms) # rs2\<rparr>
     \<lparr>sys_hub = refresh_apply ms h, sys_refreshes = rs1 @ rs2\<rparr>"

definition hub_reachable :: "int \<Rightarrow> hub_sys \<Rightarrow> bool" where
  "hub_reachable n = hub_step\<^sup>*\<^sup>* \<lparr>sys_hub = NewHub n, sys_refreshes = []\<rparr>"

section \<open>Invariant\<close>

definition projects :: "Hub \<Rightarrow> nat \<Rightarrow> string set" where
  "projects h p = (case cl_ProjectIDs (st_client h p) of None \<Rightarrow> {} | Some m \<Rightarrow> st_map h m)"

definition user_of :: "Hub \<Rightarrow> nat \<Rightarrow> string" where
  "user_of h p = cl_UserID (st_client h p)"

text \<open>Connections: no client twice, never more than the limit, buffers within their size, and the
  \<^verbatim>\<open>Done\<close> channel of a registered client is open.\<close>

definition conns_ok :: "Hub \<Rightarrow> bool" where
  "conns_ok h \<longleftrightarrow> distinct (hub_clients h) \<and> int (length (hub_clients h)) \<le> max 0 (hub_maxConns h) \<and>
     (\<forall>p \<in> set (hub_clients h). p < st_next h \<and> \<not> cl_Done (st_client h p) \<and>
        length (cl_Ch (st_client h p)) \<le> clientBufferSize)"

text \<open>Project sets: every address in use belongs to one user.\<close>

definition owners :: "(nat \<Rightarrow> string) \<Rightarrow> (string \<rightharpoonup> nat) set \<Rightarrow> Hub \<Rightarrow> bool" where
  "owners ow M h \<longleftrightarrow>
     (\<forall>p \<in> set (hub_clients h). \<forall>m. cl_ProjectIDs (st_client h p) = Some m \<longrightarrow>
        m < st_nextMap h \<and> ow m = user_of h p) \<and>
     (\<forall>ms \<in> M. \<forall>u m. ms u = Some m \<longrightarrow> m < st_nextMap h \<and> ow m = u)"

definition maps_ok :: "(string \<rightharpoonup> nat) set \<Rightarrow> Hub \<Rightarrow> bool" where
  "maps_ok M h = (\<exists>ow. owners ow M h)"

definition sys_ok :: "hub_sys \<Rightarrow> bool" where
  "sys_ok s \<longleftrightarrow> conns_ok (sys_hub s) \<and> maps_ok (snd ` set (sys_refreshes s)) (sys_hub s)"

lemma in_projects_iff: "in_projects h p pid \<longleftrightarrow> pid \<in> projects h p"
  by (simp add: in_projects_def projects_def split: option.split)

lemma owners_weaken: "owners ow M h \<Longrightarrow> N \<subseteq> M \<Longrightarrow> owners ow N h"
  by (auto simp: owners_def)

subsection \<open>Loops that update each client on its own\<close>

text \<open>The loops over the client map in \<^verbatim>\<open>Broadcast\<close>, \<^verbatim>\<open>SendToUser\<close> and the last phase of the refresh
  change only the object of the client they visit, so their result does not depend on the order
  of the iteration.\<close>

locale client_loop =
  fixes visit :: "nat \<Rightarrow> Hub \<Rightarrow> Hub"
    and change :: "(nat \<Rightarrow> string set) \<Rightarrow> Client \<Rightarrow> Client"
  assumes visit: "visit p h = h\<lparr>st_client := (st_client h)(p := change (st_map h) (st_client h p))\<rparr>"
begin

definition after :: "nat list \<Rightarrow> Hub \<Rightarrow> nat \<Rightarrow> Client" where
  "after ps h p = (if p \<in> set ps then change (st_map h) (st_client h p) else st_client h p)"

lemma loop: "distinct ps \<Longrightarrow> fold visit ps h = h\<lparr>st_client := after ps h\<rparr>"
proof (induction ps arbitrary: h)
  case (Cons p ps)
  then show ?case by (auto simp: visit after_def fun_eq_iff)
qed (simp add: after_def [abs_def])

lemma loop_client: "distinct ps \<Longrightarrow> p \<in> set ps \<Longrightarrow>
    st_client (fold visit ps h) p = change (st_map h) (st_client h p)"
  by (simp add: loop after_def)

lemma loop_order: "distinct ps \<Longrightarrow> set qs = set ps \<Longrightarrow> distinct qs \<Longrightarrow> fold visit qs h = fold visit ps h"
  by (simp add: loop after_def [abs_def])

lemma loop_conns:
  assumes "\<And>mp c. cl_Done (change mp c) = cl_Done c"
    and "\<And>mp c. length (cl_Ch c) \<le> clientBufferSize \<Longrightarrow> length (cl_Ch (change mp c)) \<le> clientBufferSize"
    and "conns_ok h"
  shows "conns_ok (fold visit (hub_clients h) h)"
  using assms by (simp add: conns_ok_def loop after_def)

end

interpretation bcast: client_loop "broadcast_one pid d"
    "\<lambda>mp c. if (case cl_ProjectIDs c of None \<Rightarrow> False | Some m \<Rightarrow> pid \<in> mp m) then deliver d c else c" for pid d
  by unfold_locales (simp add: broadcast_one_def in_projects_def)

interpretation send_loop: client_loop "send_one u d" "\<lambda>mp c. if cl_UserID c = u then deliver d c else c" for u d
  by unfold_locales (simp add: send_one_def)

interpretation appl: client_loop "apply_one ms"
    "\<lambda>mp c. case ms (cl_UserID c) of None \<Rightarrow> c | Some m \<Rightarrow> c\<lparr>cl_ProjectIDs := Some m\<rparr>" for ms
  by unfold_locales (simp add: apply_one_def split: option.split)

lemma deliver_simps [simp]:
  "cl_UserID (deliver d c) = cl_UserID c" "cl_ProjectIDs (deliver d c) = cl_ProjectIDs c"
  "cl_Done (deliver d c) = cl_Done c"
  by (simp_all add: deliver_def)

lemma deliver_bound: "length (cl_Ch c) \<le> clientBufferSize \<Longrightarrow> length (cl_Ch (deliver d c)) \<le> clientBufferSize"
  by (simp add: deliver_def)

subsection \<open>Loops that change the project sets of one user\<close>

text \<open>\<^verbatim>\<open>AddProjectForUser\<close> and \<^verbatim>\<open>RemoveProjectForUser\<close> change sets through pointers that several clients may
  hold. As an address in use belongs to one user, the effect is the one on separate sets.\<close>

locale project_loop =
  fixes visit :: "nat \<Rightarrow> Hub \<Rightarrow> Hub"
    and u :: string
    and change :: "string set \<Rightarrow> string set"
  assumes idem: "change (change s) = change s"
    and frame: "hub_clients (visit p h) = hub_clients h" "hub_maxConns (visit p h) = hub_maxConns h"
      "st_next (visit p h) = st_next h" "user_of (visit p h) q = user_of h q"
      "cl_Ch (st_client (visit p h) q) = cl_Ch (st_client h q)"
      "cl_Done (st_client (visit p h) q) = cl_Done (st_client h q)"
    and keeps: "owners ow M h \<Longrightarrow> p \<in> set (hub_clients h) \<Longrightarrow> maps_ok M (visit p h)"
    and visited: "owners ow M h \<Longrightarrow> p \<in> set (hub_clients h) \<Longrightarrow> user_of h p = u \<Longrightarrow>
      projects (visit p h) p = change (projects h p)"
    and others: "owners ow M h \<Longrightarrow> p \<in> set (hub_clients h) \<Longrightarrow> q \<in> set (hub_clients h) \<Longrightarrow>
      projects (visit p h) q = projects h q \<or>
      user_of h q = u \<and> projects (visit p h) q = change (projects h q)"
begin

lemma loop_frame:
  "hub_clients (fold visit ps h) = hub_clients h \<and> hub_maxConns (fold visit ps h) = hub_maxConns h \<and>
   st_next (fold visit ps h) = st_next h \<and> user_of (fold visit ps h) q = user_of h q \<and>
   cl_Ch (st_client (fold visit ps h) q) = cl_Ch (st_client h q) \<and>
   cl_Done (st_client (fold visit ps h) q) = cl_Done (st_client h q)"
  by (induction ps arbitrary: h) (auto simp: frame)

lemma loop_conns: "conns_ok h \<Longrightarrow> conns_ok (fold visit ps h)"
  by (simp add: conns_ok_def loop_frame)

lemma loop_maps: "maps_ok M h \<Longrightarrow> set ps \<subseteq> set (hub_clients h) \<Longrightarrow> maps_ok M (fold visit ps h)"
  by (induction ps arbitrary: h) (auto simp: maps_ok_def frame dest: keeps)

lemma loop_projects:
  assumes "maps_ok M h" "set ps \<subseteq> set (hub_clients h)" "q \<in> set (hub_clients h)"
  shows "(projects (fold visit ps h) q = projects h q \<or>
          user_of h q = u \<and> projects (fold visit ps h) q = change (projects h q)) \<and>
         (q \<in> set ps \<and> user_of h q = u \<longrightarrow> projects (fold visit ps h) q = change (projects h q))"
  using assms
proof (induction ps arbitrary: h)
  case (Cons p ps)
  obtain ow where ow: "owners ow M h" using Cons.prems(1) by (auto simp: maps_ok_def)
  have p: "p \<in> set (hub_clients h)" using Cons.prems(2) by simp
  have IH: "(projects (fold visit ps (visit p h)) q = projects (visit p h) q \<or>
          user_of h q = u \<and> projects (fold visit ps (visit p h)) q = change (projects (visit p h) q)) \<and>
         (q \<in> set ps \<and> user_of h q = u \<longrightarrow> projects (fold visit ps (visit p h)) q = change (projects (visit p h) q))"
    using Cons.IH [of "visit p h"] keeps [OF ow p] Cons.prems by (simp add: frame)
  show ?case
    using IH others [OF ow p Cons.prems(3)] visited [OF ow p] idem by (cases "q = p") auto
qed simp

lemma whole_loop:
  assumes "maps_ok M h" "q \<in> set (hub_clients h)"
  shows "projects (fold visit (hub_clients h) h) q = (if user_of h q = u then change (projects h q) else projects h q)"
  using loop_projects [OF assms(1) _ assms(2), of "hub_clients h"] assms(2) by auto

end

lemma owners_client: "owners ow M h \<Longrightarrow> p \<in> set (hub_clients h) \<Longrightarrow> cl_ProjectIDs (st_client h p) = Some m \<Longrightarrow>
    m < st_nextMap h \<and> ow m = user_of h p"
  by (simp add: owners_def)

text \<open>An address not in use yet can be given to any user.\<close>

lemma owners_fresh: "owners ow M h \<Longrightarrow> owners (ow(st_nextMap h := u)) M (h\<lparr>st_nextMap := Suc (st_nextMap h)\<rparr>)"
  unfolding owners_def user_of_def by (auto simp: less_Suc_eq) (metis less_irrefl_nat)

lemma owners_cong:
  assumes "owners ow M h" "hub_clients h' = hub_clients h" "st_nextMap h' = st_nextMap h"
    and "\<And>p. p \<in> set (hub_clients h) \<Longrightarrow>
      cl_ProjectIDs (st_client h' p) = cl_ProjectIDs (st_client h p) \<and> user_of h' p = user_of h p"
  shows "owners ow M h'"
  using assms by (simp add: owners_def)

lemma owners_st_map [simp]: "owners ow M (h\<lparr>st_map := mp\<rparr>) = owners ow M h"
  by (simp add: owners_def user_of_def)

lemma owners_client_upd:
  assumes "owners ow M h" "m < st_nextMap h" "ow m = user_of h p"
  shows "owners ow M (h\<lparr>st_client := (st_client h)(p := (st_client h p)\<lparr>cl_ProjectIDs := Some m\<rparr>)\<rparr>)"
  using assms unfolding owners_def user_of_def by auto

lemma add_one_maps:
  assumes "owners ow M h" "p \<in> set (hub_clients h)"
  shows "maps_ok M (add_one u pid p h)"
proof (cases "user_of h p = u \<and> cl_ProjectIDs (st_client h p) = None")
  case True
  let ?h = "h\<lparr>st_nextMap := Suc (st_nextMap h)\<rparr>"
  have "owners (ow(st_nextMap h := u)) M (?h\<lparr>st_client := (st_client ?h)(p := (st_client ?h p)\<lparr>cl_ProjectIDs := Some (st_nextMap h)\<rparr>)\<rparr>)"
    by (rule owners_client_upd [OF owners_fresh [OF assms(1)]]) (use True in \<open>simp_all add: user_of_def\<close>)
  then have "owners (ow(st_nextMap h := u)) M (add_one u pid p h)"
    using True by (simp add: owners_def add_one_def user_of_def)
  then show ?thesis unfolding maps_ok_def by blast
next
  case False
  then have "owners ow M (add_one u pid p h)"
    using assms(1) by (auto simp: add_one_def user_of_def Let_def split: option.split)
  then show ?thesis unfolding maps_ok_def by blast
qed

interpretation add_loop: project_loop "add_one u pid" u "insert pid" for u pid
proof
  fix ow M h p q
  assume ow: "owners ow M h" and p: "p \<in> set (hub_clients h)"
  show "user_of h p = u \<Longrightarrow> projects (add_one u pid p h) p = insert pid (projects h p)"
    by (auto simp: add_one_def projects_def user_of_def Let_def split: option.splits)
  assume q: "q \<in> set (hub_clients h)"
  show "projects (add_one u pid p h) q = projects h q \<or>
      user_of h q = u \<and> projects (add_one u pid p h) q = insert pid (projects h q)"
  proof (cases "user_of h p = u")
    case False
    then show ?thesis by (simp add: add_one_def user_of_def Let_def)
  next
    case True
    show ?thesis
      using True owners_client [OF ow p] owners_client [OF ow q]
      by (cases "cl_ProjectIDs (st_client h p)"; cases "cl_ProjectIDs (st_client h q)"; cases "p = q")
         (auto simp: add_one_def projects_def user_of_def Let_def)
  qed
qed (simp_all add: add_one_maps, simp_all add: add_one_def user_of_def Let_def split: option.split)

interpretation remove_loop: project_loop "remove_one u pid" u "\<lambda>s. s - {pid}" for u pid
proof
  fix ow M h p q
  assume ow: "owners ow M h" and p: "p \<in> set (hub_clients h)"
  have "owners ow M (remove_one u pid p h)"
    using ow by (simp add: owners_def remove_one_def user_of_def Let_def split: option.split)
  then show "maps_ok M (remove_one u pid p h)" unfolding maps_ok_def by blast
  show "user_of h p = u \<Longrightarrow> projects (remove_one u pid p h) p = projects h p - {pid}"
    by (auto simp: remove_one_def projects_def user_of_def Let_def split: option.splits)
  assume q: "q \<in> set (hub_clients h)"
  have "cl_ProjectIDs (st_client h p) = Some m \<Longrightarrow> cl_ProjectIDs (st_client h q) = Some m \<Longrightarrow> user_of h q = user_of h p" for m
    using owners_client [OF ow p] owners_client [OF ow q] by simp
  then show "projects (remove_one u pid p h) q = projects h q \<or>
      user_of h q = u \<and> projects (remove_one u pid p h) q = projects h q - {pid}"
    by (auto simp: remove_one_def projects_def user_of_def Let_def split: option.splits)
qed (auto simp: remove_one_def user_of_def Let_def split: option.split)

subsection \<open>Every step keeps the invariant\<close>

lemma hub_fields [simp]:
  "hub_clients (Broadcast pid d h) = hub_clients h"
  "hub_clients (SendToUser u d h) = hub_clients h"
  "hub_clients (refresh_apply ms h) = hub_clients h" if "distinct (hub_clients h)"
  using that by (simp_all add: Broadcast_def SendToUser_def refresh_apply_def bcast.loop send_loop.loop appl.loop)

lemma Broadcast_ok: "conns_ok h \<Longrightarrow> owners ow M h \<Longrightarrow> conns_ok (Broadcast pid d h) \<and> owners ow M (Broadcast pid d h)"
  unfolding Broadcast_def
  by (intro conjI bcast.loop_conns) (auto simp: deliver_bound bcast.loop bcast.after_def conns_ok_def owners_def user_of_def)

lemma SendToUser_ok: "conns_ok h \<Longrightarrow> owners ow M h \<Longrightarrow> conns_ok (SendToUser u d h) \<and> owners ow M (SendToUser u d h)"
  unfolding SendToUser_def
  by (intro conjI send_loop.loop_conns) (auto simp: deliver_bound send_loop.loop send_loop.after_def conns_ok_def owners_def user_of_def)

lemma refresh_apply_ok:
  assumes "conns_ok h" "owners ow M h" "ms \<in> M"
  shows "conns_ok (refresh_apply ms h) \<and> owners ow M (refresh_apply ms h)"
proof
  show "conns_ok (refresh_apply ms h)"
    unfolding refresh_apply_def using assms(1)
    by (intro appl.loop_conns) (auto split: option.split)
  have "distinct (hub_clients h)" using assms(1) by (simp add: conns_ok_def)
  then show "owners ow M (refresh_apply ms h)"
    using assms(2,3)
    by (auto simp: refresh_apply_def appl.loop appl.after_def owners_def user_of_def split: option.splits)
qed

lemma NewClient_ok:
  assumes "NewClient u ps h = (p, h1)" "conns_ok h" "owners ow M h"
  shows "p = st_next h" "p < st_next h1" "p \<notin> set (hub_clients h1)" "conns_ok h1"
    "\<not> cl_Done (st_client h1 p)" "cl_Ch (st_client h1 p) = []"
    "\<exists>ow'. owners ow' M h1 \<and>
       (\<forall>m. cl_ProjectIDs (st_client h1 p) = Some m \<longrightarrow> m < st_nextMap h1 \<and> ow' m = user_of h1 p)"
proof -
  show p: "p = st_next h" using assms(1) by (auto simp: NewClient_def split: option.splits)
  have new: "st_next h \<notin> set (hub_clients h)" using assms(2) by (auto simp: conns_ok_def)
  show "p < st_next h1" "p \<notin> set (hub_clients h1)" "\<not> cl_Done (st_client h1 p)" "cl_Ch (st_client h1 p) = []"
    using assms(1) new by (auto simp: NewClient_def split: option.splits)
  show "conns_ok h1"
    using assms(1,2) new by (fastforce simp: NewClient_def conns_ok_def split: option.splits)
  show "\<exists>ow'. owners ow' M h1 \<and>
       (\<forall>m. cl_ProjectIDs (st_client h1 p) = Some m \<longrightarrow> m < st_nextMap h1 \<and> ow' m = user_of h1 p)"
  proof (cases ps)
    case None
    then have "owners ow M h1"
      using assms(1) new by (intro owners_cong [OF assms(3)]) (auto simp: NewClient_def user_of_def)
    moreover have "cl_ProjectIDs (st_client h1 p) = None" using assms(1) None by (auto simp: NewClient_def)
    ultimately show ?thesis by auto
  next
    case (Some s)
    then have "owners (ow(st_nextMap h := u)) M h1"
      using assms(1) new by (intro owners_cong [OF owners_fresh [OF assms(3)]]) (auto simp: NewClient_def user_of_def)
    then show ?thesis using assms(1) Some by (auto simp: NewClient_def user_of_def)
  qed
qed

lemma Register_ok:
  assumes "Register p h = Some h'" "conns_ok h" "owners ow M h" "p \<notin> set (hub_clients h)" "p < st_next h"
    "\<not> cl_Done (st_client h p)" "cl_Ch (st_client h p) = []"
    "\<And>m. cl_ProjectIDs (st_client h p) = Some m \<Longrightarrow> m < st_nextMap h \<and> ow m = user_of h p"
  shows "conns_ok h' \<and> owners ow M h'"
  using assms by (auto simp: Register_def conns_ok_def owners_def user_of_def split: if_splits)

lemma Unregister_ok:
  assumes "Unregister p h = Some h'" "conns_ok h" "owners ow M h"
  shows "conns_ok h' \<and> owners ow M h'"
proof -
  have "int (length (removeAll p (hub_clients h))) \<le> max 0 (hub_maxConns h)"
    using assms(2) length_removeAll_less_eq [of p "hub_clients h"] unfolding conns_ok_def by linarith
  then show ?thesis
    using assms by (auto simp: Unregister_def conns_ok_def owners_def user_of_def distinct_removeAll split: if_splits)
qed

lemma refresh_one_ok:
  assumes "refresh_load loader [u] ms h = (ms', h')" "conns_ok h" "owners ow M h" "ms \<in> M"
  shows "conns_ok h' \<and> (\<exists>ow'. owners ow' (insert ms' M) h')"
proof (cases "loader u")
  case None
  then show ?thesis using assms by (auto simp: insert_absorb)
next
  case (Some s)
  then have h: "h' = h\<lparr>st_map := (st_map h)(st_nextMap h := s), st_nextMap := Suc (st_nextMap h)\<rparr>"
    "ms' = ms(u \<mapsto> st_nextMap h)" using assms(1) by auto
  have ow: "owners (ow(st_nextMap h := u)) M (h\<lparr>st_nextMap := Suc (st_nextMap h)\<rparr>)"
    by (rule owners_fresh [OF assms(3)])
  have "owners (ow(st_nextMap h := u)) (insert ms' M) h'"
    using ow assms(4) by (auto simp: owners_def user_of_def h split: if_splits)
  moreover have "conns_ok h'" using assms(2) by (simp add: conns_ok_def h)
  ultimately show ?thesis by blast
qed

lemma receive_ok: "conns_ok h \<Longrightarrow> owners ow M h \<Longrightarrow> conns_ok (receive p h) \<and> owners ow M (receive p h)"
  by (auto simp: receive_def conns_ok_def owners_def user_of_def)

lemma hub_step_ok: "hub_step s s' \<Longrightarrow> sys_ok s \<Longrightarrow> sys_ok s'"
proof (induction rule: hub_step.induct)
  case (connect u ps h p h1 h2 rs)
  then obtain ow where h: "conns_ok h" "owners ow (snd ` set rs) h" by (auto simp: sys_ok_def maps_ok_def)
  obtain ow' where "owners ow' (snd ` set rs) h1"
    "\<forall>m. cl_ProjectIDs (st_client h1 p) = Some m \<longrightarrow> m < st_nextMap h1 \<and> ow' m = user_of h1 p"
    using NewClient_ok(7) [OF connect(1) h] by blast
  then have "conns_ok h2 \<and> owners ow' (snd ` set rs) h2"
    using Register_ok [OF connect(2)] NewClient_ok [OF connect(1) h] by simp
  then show ?case by (auto simp: sys_ok_def maps_ok_def)
next
  case (refused u ps h p h1 rs)
  then obtain ow where h: "conns_ok h" "owners ow (snd ` set rs) h" by (auto simp: sys_ok_def maps_ok_def)
  show ?case using NewClient_ok(4,7) [OF refused(1) h] by (auto simp: sys_ok_def maps_ok_def)
next
  case (disconnect p h h1 rs)
  then show ?case using Unregister_ok by (fastforce simp: sys_ok_def maps_ok_def)
next
  case (broadcast h rs pid d)
  then show ?case using Broadcast_ok by (fastforce simp: sys_ok_def maps_ok_def)
next
  case (send h rs u d)
  then show ?case using SendToUser_ok by (fastforce simp: sys_ok_def maps_ok_def)
next
  case (add h rs u pid)
  then show ?case by (simp add: sys_ok_def AddProjectForUser_def add_loop.loop_conns add_loop.loop_maps)
next
  case (remove h rs u pid)
  then show ?case by (simp add: sys_ok_def RemoveProjectForUser_def remove_loop.loop_conns remove_loop.loop_maps)
next
  case (take_msg h rs p)
  then show ?case using receive_ok by (fastforce simp: sys_ok_def maps_ok_def)
next
  case (set_loader h rs b)
  then show ?case by (simp add: sys_ok_def maps_ok_def conns_ok_def owners_def user_of_def SetMembershipLoader_def)
next
  case (refresh_begin h rs)
  then show ?case by (auto simp: sys_ok_def maps_ok_def owners_def)
next
  case (refresh_one loader u ms h ms' h' rs1 us rs2)
  then obtain ow where h: "conns_ok h" "owners ow (snd ` set (rs1 @ (u # us, ms) # rs2)) h"
    by (auto simp: sys_ok_def maps_ok_def)
  obtain ow' where "conns_ok h'" "owners ow' (insert ms' (snd ` set (rs1 @ (u # us, ms) # rs2))) h'"
    using refresh_one_ok [OF refresh_one(1) h] by auto
  then show ?case unfolding sys_ok_def maps_ok_def by (auto intro: owners_weaken)
next
  case (refresh_end h rs1 ms rs2)
  then obtain ow where h: "conns_ok h" "owners ow (snd ` set (rs1 @ ([], ms) # rs2)) h"
    by (auto simp: sys_ok_def maps_ok_def)
  then have "conns_ok (refresh_apply ms h)" "owners ow (snd ` set (rs1 @ ([], ms) # rs2)) (refresh_apply ms h)"
    using refresh_apply_ok [OF h, of ms] by auto
  then show ?case unfolding sys_ok_def maps_ok_def by (auto intro: owners_weaken)
qed

lemma hub_step_max: "hub_step s s' \<Longrightarrow> sys_ok s \<Longrightarrow> hub_maxConns (sys_hub s') = hub_maxConns (sys_hub s)"
  by (induction rule: hub_step.induct)
     (auto simp: NewClient_def Register_def Unregister_def Broadcast_def SendToUser_def refresh_apply_def
        AddProjectForUser_def RemoveProjectForUser_def receive_def SetMembershipLoader_def sys_ok_def conns_ok_def
        bcast.loop send_loop.loop appl.loop add_loop.loop_frame remove_loop.loop_frame
        split: option.splits if_splits)

lemma reachable_ok: "hub_reachable n s \<Longrightarrow> sys_ok s \<and> hub_maxConns (sys_hub s) = n"
  unfolding hub_reachable_def
proof (induction rule: rtranclp_induct)
  case base
  show ?case by (simp add: sys_ok_def conns_ok_def maps_ok_def owners_def NewHub_def)
qed (use hub_step_ok hub_step_max in metis)

section \<open>Properties\<close>

lemma refresh_load_frame:
  "refresh_load loader us ms h = (ms', h') \<Longrightarrow>
     hub_clients h' = hub_clients h \<and> st_client h' = st_client h \<and> st_nextMap h \<le> st_nextMap h' \<and>
     (\<forall>m < st_nextMap h. st_map h' m = st_map h m)"
  by (induction loader us ms h rule: refresh_load.induct) (force split: option.splits)+

lemma refresh_load_other: "refresh_load loader us ms h = (ms', h') \<Longrightarrow> u \<notin> set us \<or> loader u = None \<Longrightarrow> ms' u = ms u"
  by (induction loader us ms h rule: refresh_load.induct) (auto split: option.splits if_splits)

lemma refresh_load_user:
  "refresh_load loader us ms h = (ms', h') \<Longrightarrow> u \<in> set us \<Longrightarrow> loader u = Some s \<Longrightarrow>
     \<exists>m. ms' u = Some m \<and> st_map h' m = s \<and> st_nextMap h \<le> m"
proof (induction loader us ms h rule: refresh_load.induct)
  case (2 loader v us ms h)
  show ?case
  proof (cases "u \<in> set us")
    case True
    show ?thesis
    proof (cases "loader v")
      case (Some a)
      then show ?thesis using "2.IH"(2) [OF Some _ True] "2.prems" by (fastforce intro: Suc_leD)
    qed (use "2.IH"(1) "2.prems" True in simp)
  next
    case False
    with 2 have v: "v = u" by simp
    let ?h = "h\<lparr>st_map := (st_map h)(st_nextMap h := s), st_nextMap := Suc (st_nextMap h)\<rparr>"
    have l: "refresh_load loader us (ms(u \<mapsto> st_nextMap h)) ?h = (ms', h')" using 2 v by simp
    have "ms' u = Some (st_nextMap h)" using refresh_load_other [OF l] False by simp
    moreover have "st_map h' (st_nextMap h) = s" using refresh_load_frame [OF l] by simp
    ultimately show ?thesis by blast
  qed
qed simp

lemma refresh_collect_user:
  "hub_hasLoader h \<Longrightarrow> p \<in> set (hub_clients h) \<Longrightarrow> user_of h p \<in> set (refresh_collect h)"
  by (simp add: refresh_collect_def user_of_def)

lemma apply_projects:
  "distinct (hub_clients h) \<Longrightarrow> p \<in> set (hub_clients h) \<Longrightarrow>
     projects (refresh_apply ms h) p = (case ms (user_of h p) of None \<Rightarrow> projects h p | Some m \<Rightarrow> st_map h m)"
  by (auto simp: refresh_apply_def appl.loop appl.after_def projects_def user_of_def split: option.splits)

lemma remove_untouched:
  "\<forall>p \<in> set ps. cl_ProjectIDs (st_client h p) \<noteq> Some m \<Longrightarrow>
     st_map (fold (remove_one u pid) ps h) m = st_map h m \<and> st_client (fold (remove_one u pid) ps h) = st_client h"
  by (induction ps arbitrary: h) (auto simp: remove_one_def Let_def split: option.splits if_splits)

text \<open>C19: in every state the hub can reach, under any interleaving of connections, broadcasts,
  membership changes and refreshes: the number of clients is within the limit, no client is
  registered twice, every buffer is within its size, and unregistering any client never closes a
  closed channel (no panic).\<close>

theorem hub_safe:
  assumes "hub_reachable n s"
  shows "int (ClientCount (sys_hub s)) \<le> max 0 n \<and> distinct (hub_clients (sys_hub s)) \<and>
    (\<forall>p \<in> set (hub_clients (sys_hub s)). length (cl_Ch (st_client (sys_hub s) p)) \<le> clientBufferSize) \<and>
    (\<forall>p. Unregister p (sys_hub s) \<noteq> None)"
  using reachable_ok [OF assms] by (auto simp: sys_ok_def conns_ok_def ClientCount_def Unregister_def)

definition ex_hub :: Hub where
  "ex_hub = SetMembershipLoader True
     (case Register 0 (snd (NewClient ''u'' (Some {''p''}) (NewHub 2))) of Some h \<Rightarrow> h | None \<Rightarrow> NewHub 2)"

lemma ex_hub_reachable: "hub_reachable 2 \<lparr>sys_hub = ex_hub, sys_refreshes = []\<rparr>"
proof -
  let ?h1 = "snd (NewClient ''u'' (Some {''p''}) (NewHub 2))"
  let ?h2 = "case Register 0 ?h1 of Some h \<Rightarrow> h | None \<Rightarrow> NewHub 2"
  have "hub_step \<lparr>sys_hub = NewHub 2, sys_refreshes = []\<rparr> \<lparr>sys_hub = ?h2, sys_refreshes = []\<rparr>"
    by (rule hub_step.connect [of "''u''" "Some {''p''}" _ 0 ?h1]) (simp_all add: NewClient_def NewHub_def Register_def)
  moreover have "hub_step \<lparr>sys_hub = ?h2, sys_refreshes = []\<rparr> \<lparr>sys_hub = ex_hub, sys_refreshes = []\<rparr>"
    unfolding ex_hub_def by (rule hub_step.set_loader)
  ultimately show ?thesis unfolding hub_reachable_def by (meson converse_rtranclp_into_rtranclp rtranclp.rtrancl_refl)
qed

lemmas ex_hub_eval = ex_hub_def NewClient_def NewHub_def Register_def SetMembershipLoader_def
  projects_def user_of_def refresh_collect_def

theorem hub_safe_witness:
  "int (ClientCount ex_hub) \<le> 2 \<and> (\<forall>p. Unregister p ex_hub \<noteq> None)"
  using hub_safe [OF ex_hub_reachable] by simp

text \<open>A broadcast reaches exactly the registered clients whose project set has the project: each
  gets the message at the end of its buffer, unless the buffer is full; every other client and
  the rest of the hub are unchanged, whatever the order of the iteration.\<close>

theorem Broadcast_exact:
  assumes "hub_reachable n s" "h = sys_hub s"
  shows "Broadcast pid data h = h\<lparr>st_client := (\<lambda>p.
      if p \<in> set (hub_clients h) \<and> pid \<in> projects h p \<and> length (cl_Ch (st_client h p)) < clientBufferSize
      then (st_client h p)\<lparr>cl_Ch := cl_Ch (st_client h p) @ [data]\<rparr> else st_client h p)\<rparr> \<and>
    (distinct ps \<and> set ps = set (hub_clients h) \<longrightarrow> fold (broadcast_one pid data) ps h = Broadcast pid data h)"
proof -
  have d: "distinct (hub_clients h)" using reachable_ok [OF assms(1)] assms(2) by (simp add: sys_ok_def conns_ok_def)
  have "bcast.after pid data (hub_clients h) h = (\<lambda>p.
      if p \<in> set (hub_clients h) \<and> pid \<in> projects h p \<and> length (cl_Ch (st_client h p)) < clientBufferSize
      then (st_client h p)\<lparr>cl_Ch := cl_Ch (st_client h p) @ [data]\<rparr> else st_client h p)"
    by (auto simp: bcast.after_def fun_eq_iff projects_def deliver_def split: option.splits)
  then show ?thesis using d bcast.loop_order [OF d] by (auto simp: Broadcast_def bcast.loop)
qed

theorem Broadcast_exact_witness:
  "cl_Ch (st_client (Broadcast ''p'' ''m'' ex_hub) 0) = [''m''] \<and>
   cl_Ch (st_client (Broadcast ''q'' ''m'' ex_hub) 0) = []"
  using Broadcast_exact [OF ex_hub_reachable refl, of "''p''" "''m''" "[]"]
    Broadcast_exact [OF ex_hub_reachable refl, of "''q''" "''m''" "[]"]
  by (simp add: ex_hub_eval clientBufferSize_def)

text \<open>Although clients of a user may share one set through pointers, adding or removing a project
  for a user changes the sets of exactly the registered clients of that user, each as if it were
  its own, and delivers or loses no message.\<close>

theorem membership_change_isolated:
  assumes "hub_reachable n s" "h = sys_hub s" "q \<in> set (hub_clients h)"
  shows "projects (AddProjectForUser u pid h) q =
           (if user_of h q = u then insert pid (projects h q) else projects h q) \<and>
         projects (RemoveProjectForUser u pid h) q =
           (if user_of h q = u then projects h q - {pid} else projects h q) \<and>
         cl_Ch (st_client (AddProjectForUser u pid h) q) = cl_Ch (st_client h q) \<and>
         cl_Ch (st_client (RemoveProjectForUser u pid h) q) = cl_Ch (st_client h q)"
proof -
  have m: "maps_ok (snd ` set (sys_refreshes s)) h"
    using reachable_ok [OF assms(1)] assms(2) by (simp add: sys_ok_def)
  show ?thesis
    using add_loop.whole_loop [OF m assms(3), of u pid] remove_loop.whole_loop [OF m assms(3), of u pid]
    by (simp add: AddProjectForUser_def RemoveProjectForUser_def add_loop.loop_frame remove_loop.loop_frame)
qed

theorem membership_change_isolated_witness:
  "projects (AddProjectForUser ''u'' ''q'' ex_hub) 0 = {''p'', ''q''} \<and>
   projects (RemoveProjectForUser ''v'' ''p'' ex_hub) 0 = {''p''}"
  using membership_change_isolated [OF ex_hub_reachable refl, of 0 "''u''" "''q''"]
    membership_change_isolated [OF ex_hub_reachable refl, of 0 "''v''" "''p''"]
  by (simp add: ex_hub_eval insert_commute)

text \<open>A refresh that nothing interrupts gives every registered client the set the loader answered
  for its user and leaves the clients of users whose load failed as they were.\<close>

theorem RefreshAllMemberships_exact:
  assumes "hub_reachable n s" "h = sys_hub s" "hub_hasLoader h" "p \<in> set (hub_clients h)"
  shows "projects (RefreshAllMemberships loader h) p =
           (case loader (user_of h p) of Some pids \<Rightarrow> pids | None \<Rightarrow> projects h p)"
proof -
  obtain ow where ok: "conns_ok h" "owners ow (snd ` set (sys_refreshes s)) h"
    using reachable_ok [OF assms(1)] assms(2) by (auto simp: sys_ok_def maps_ok_def)
  have u: "user_of h p \<in> set (refresh_collect h)" by (rule refresh_collect_user [OF assms(3,4)])
  obtain ms h' where l: "refresh_load loader (refresh_collect h) Map.empty h = (ms, h')"
    by (cases "refresh_load loader (refresh_collect h) Map.empty h")
  note f = refresh_load_frame [OF l]
  have r: "RefreshAllMemberships loader h = refresh_apply ms h'"
    using u l by (auto simp: RefreshAllMemberships_def)
  have proj: "projects h' p = projects h p" "user_of h' p = user_of h p"
    using f owners_client [OF ok(2) assms(4)] by (auto simp: projects_def user_of_def split: option.split)
  have "projects (refresh_apply ms h') p = (case ms (user_of h p) of None \<Rightarrow> projects h p | Some m \<Rightarrow> st_map h' m)"
    using apply_projects [of h' p ms] ok(1) f proj assms(4) by (simp add: conns_ok_def cong: option.case_cong)
  then show ?thesis
    using refresh_load_user [OF l u] refresh_load_other [OF l, of "user_of h p"] r
    by (cases "loader (user_of h p)") auto
qed

theorem RefreshAllMemberships_exact_witness:
  "projects (RefreshAllMemberships (\<lambda>u. if u = ''u'' then Some {''x''} else None) ex_hub) 0 = {''x''}"
  using RefreshAllMemberships_exact [OF ex_hub_reachable refl, of 0 "\<lambda>u. if u = ''u'' then Some {''x''} else None"]
  by (simp add: ex_hub_eval)

text \<open>A membership removed while a refresh is between loading and applying comes back: the set that
  was loaded before the removal replaces the one the removal changed, so the removed user's
  clients receive the project's events again until the next refresh.\<close>

theorem refresh_undoes_concurrent_removal:
  assumes "hub_reachable n s" "h = sys_hub s" "hub_hasLoader h" "p \<in> set (hub_clients h)"
    and "loader (user_of h p) = Some pids" "pid \<in> pids"
    and l: "refresh_load loader (refresh_collect h) Map.empty h = (ms, h1)"
    and h2: "h2 = RemoveProjectForUser (user_of h p) pid h1"
  shows "pid \<notin> projects h2 p \<and> pid \<in> projects (refresh_apply ms h2) p"
proof -
  obtain ow where ok: "conns_ok h" "owners ow (snd ` set (sys_refreshes s)) h"
    using reachable_ok [OF assms(1)] assms(2) by (auto simp: sys_ok_def maps_ok_def)
  note f = refresh_load_frame [OF l]
  have p1: "p \<in> set (hub_clients h1)" "user_of h1 p = user_of h p" using f assms(4) by (simp_all add: user_of_def)
  obtain m where m: "ms (user_of h p) = Some m" "st_map h1 m = pids" "st_nextMap h \<le> m"
    using refresh_load_user [OF l refresh_collect_user [OF assms(3,4)] assms(5)] by blast
  have new: "\<forall>q \<in> set (hub_clients h1). cl_ProjectIDs (st_client h1 q) \<noteq> Some m"
    using f owners_client [OF ok(2)] m(3) by fastforce
  have "st_map h2 m = pids" using remove_untouched [OF new] m(2) h2 by (simp add: RemoveProjectForUser_def)
  moreover have fr: "hub_clients h2 = hub_clients h" "user_of h2 p = user_of h p"
    using f p1 by (simp_all add: h2 RemoveProjectForUser_def remove_loop.loop_frame)
  ultimately have "pid \<in> projects (refresh_apply ms h2) p"
    using apply_projects [of h2 p ms] ok(1) m(1) assms(4,6) by (simp add: conns_ok_def)
  moreover have "maps_ok {} h1"
    using ok(2) f unfolding maps_ok_def owners_def by (fastforce simp: user_of_def)
  then have "pid \<notin> projects h2 p"
    using remove_loop.whole_loop [OF _ p1(1), of "{}" "user_of h p" pid] p1(2) h2 by (simp add: RemoveProjectForUser_def)
  ultimately show ?thesis by blast
qed

theorem refresh_undoes_concurrent_removal_witness:
  "case refresh_load (\<lambda>_. Some {''p''}) (refresh_collect ex_hub) Map.empty ex_hub of
     (ms, h1) \<Rightarrow> ''p'' \<notin> projects (RemoveProjectForUser ''u'' ''p'' h1) 0 \<and>
       ''p'' \<in> projects (refresh_apply ms (RemoveProjectForUser ''u'' ''p'' h1)) 0"
proof -
  obtain ms h1 where l: "refresh_load (\<lambda>_. Some {''p''}) (refresh_collect ex_hub) Map.empty ex_hub = (ms, h1)"
    by (cases "refresh_load (\<lambda>_. Some {''p''}) (refresh_collect ex_hub) Map.empty ex_hub")
  have u: "user_of ex_hub 0 = ''u''" "hub_hasLoader ex_hub" "0 \<in> set (hub_clients ex_hub)" by (simp_all add: ex_hub_eval)
  show ?thesis
    using refresh_undoes_concurrent_removal [OF ex_hub_reachable refl, of 0 "\<lambda>_. Some {''p''}" "{''p''}" "''p''" ms h1] l u
    by simp
qed

section \<open>Event frames\<close>

lemma Marshal_printable: "printable (Marshal_SSEEvent e)"
  unfolding Marshal_SSEEvent_def by (rule json_object_printable) (simp add: omitempty_def)

text \<open>The frame of an event is one event line, one data line and the empty line that ends the
  event, whatever bytes the strings of the event contain; only the event's name must not
  contain a newline.\<close>

theorem sse_frame_lines:
  assumes "CHR 0x0A \<notin> set (ev_Event e)"
  shows "Split (sse_frame (ev_Event e) (Marshal_SSEEvent e)) (CHR 0x0A) =
           [''event: '' @ ev_Event e, ''data: '' @ Marshal_SSEEvent e, [], []]"
proof -
  have f: "sse_frame (ev_Event e) (Marshal_SSEEvent e) =
      (''event: '' @ ev_Event e) @ CHR 0x0A # (''data: '' @ Marshal_SSEEvent e) @ CHR 0x0A # [] @ CHR 0x0A # []"
    by (simp add: sse_frame_def)
  have n: "CHR 0x0A \<notin> set (''event: '' @ ev_Event e)" "CHR 0x0A \<notin> set (''data: '' @ Marshal_SSEEvent e)"
    using assms printable_no_LF [OF Marshal_printable, of e] by auto
  show ?thesis unfolding f Split_append [OF n(1)] Split_append [OF n(2)] by (simp add: Split_append)
qed

theorem sse_frame_lines_witness:
  "let e = \<lparr>ev_Event = ''job:failed'', ev_ProjectID = [CHR 0x0A], ev_JobID = [], ev_SnapshotID = [], ev_Timestamp = [],
            ev_Data = [], ev_Origin = []\<rparr>
   in Split (sse_frame (ev_Event e) (Marshal_SSEEvent e)) (CHR 0x0A) =
        [''event: job:failed'', ''data: '' @ Marshal_SSEEvent e, [], []]"
  unfolding Let_def by (subst sse_frame_lines) simp_all

end
