(* ===== verification/Access_Store.thy ===== *)
theory Access_Store
  imports Membership
begin

text \<open>
  The tables behind authentication and authorisation (\<^verbatim>\<open>sessions\<close>, \<^verbatim>\<open>api_keys\<close>,
  \<^verbatim>\<open>user_platform_roles\<close>, beside users, projects and members) with the queries of
  \<^verbatim>\<open>src/datastore/postgres/sqlc\<close> on them (\<^verbatim>\<open>api_keys.sql.go\<close>, \<^verbatim>\<open>sessions.sql.go\<close>,
  \<^verbatim>\<open>platform_roles.sql.go\<close>, \<^verbatim>\<open>admin_users.sql.go\<close>) and the view \<^verbatim>\<open>api_key_project_access\<close> of the
  migrations.

  \<open>now\<close> is the value of \<^verbatim>\<open>NOW()\<close>, \<open>fresh\<close> the generated primary key. An insertion checks the constraints
  of its table. A query for one row answers \<open>None\<close> when there is none.
\<close>

section \<open>Rows\<close>

record ApiKey =
  ak_ID :: UUID
  ak_KeyType :: string
  ak_KeyPrefix :: string
  ak_KeyHash :: string
  ak_Name :: string
  ak_Role :: string
  ak_ProjectID :: UUID
  ak_IsActive :: bool
  ak_ExpiresAt :: "timestamp option"
  ak_LastUsedAt :: "timestamp option"
  ak_CreatedBy :: UUID
  ak_CreatedAt :: "timestamp option"

record Session =
  ses_ID :: UUID
  ses_UserID :: UUID
  ses_TokenHash :: string
  ses_IpAddress :: "string option"
  ses_UserAgent :: "string option"
  ses_ExpiresAt :: timestamp
  ses_CreatedAt :: timestamp

record UserPlatformRole =
  upr_ID :: UUID
  upr_UserID :: UUID
  upr_Role :: string
  upr_GrantedBy :: UUID
  upr_CreatedAt :: timestamp

record adb =
  ad_core :: mdb
  ad_sessions :: "Session list"
  ad_keys :: "ApiKey list"
  ad_roles :: "UserPlatformRole list"

abbreviation ad_users :: "adb \<Rightarrow> UserRow list" where "ad_users s \<equiv> db_users (ad_core s)"
abbreviation ad_members :: "adb \<Rightarrow> MemberRow list" where "ad_members s \<equiv> db_members (ad_core s)"
abbreviation ad_projects :: "adb \<Rightarrow> UUID list" where "ad_projects s \<equiv> db_projects (ad_core s)"

definition set_users :: "(UserRow list \<Rightarrow> UserRow list) \<Rightarrow> adb \<Rightarrow> adb" where
  "set_users f s = s\<lparr>ad_core := (ad_core s)\<lparr>db_users := f (ad_users s)\<rparr>\<rparr>"

section \<open>API keys\<close>

definition key_live :: "timestamp \<Rightarrow> ApiKey \<Rightarrow> bool" where
  "key_live now k = (ak_IsActive k \<and> (case ak_ExpiresAt k of None \<Rightarrow> True | Some t \<Rightarrow> now < t))"

definition GetAPIKeyByHash :: "timestamp \<Rightarrow> string \<Rightarrow> adb \<Rightarrow> ApiKey option" where
  "GetAPIKeyByHash now h s = List.find (\<lambda>k. ak_KeyHash k = h \<and> key_live now k) (ad_keys s)"

definition GetAPIKeyByID :: "UUID \<Rightarrow> adb \<Rightarrow> ApiKey option" where
  "GetAPIKeyByID i s = List.find (\<lambda>k. sql_eq (ak_ID k) i) (ad_keys s)"

definition project_key :: "timestamp \<Rightarrow> UUID \<Rightarrow> ApiKey \<Rightarrow> bool" where
  "project_key now p k = (sql_eq (ak_ProjectID k) p \<and> ak_KeyType k = ''project'' \<and> key_live now k)"

definition personal_key :: "timestamp \<Rightarrow> UUID \<Rightarrow> ApiKey \<Rightarrow> bool" where
  "personal_key now u k = (sql_eq (ak_CreatedBy k) u \<and> ak_KeyType k = ''personal'' \<and> key_live now k)"

definition CountProjectKeys :: "timestamp \<Rightarrow> UUID \<Rightarrow> adb \<Rightarrow> nat" where
  "CountProjectKeys now p s = length (filter (project_key now p) (ad_keys s))"

definition CountPersonalKeys :: "timestamp \<Rightarrow> UUID \<Rightarrow> adb \<Rightarrow> nat" where
  "CountPersonalKeys now u s = length (filter (personal_key now u) (ad_keys s))"

text \<open>Rows created at the same moment come in the order of the table.\<close>

definition newest_first :: "ApiKey list \<Rightarrow> ApiKey list" where
  "newest_first ks = sort_key (\<lambda>k. - time_or_zero (ak_CreatedAt k)) ks"

definition db_ListProjectKeys :: "timestamp \<Rightarrow> UUID \<Rightarrow> adb \<Rightarrow> ApiKey list" where
  "db_ListProjectKeys now p s = newest_first (filter (project_key now p) (ad_keys s))"

definition db_ListPersonalKeys :: "timestamp \<Rightarrow> UUID \<Rightarrow> adb \<Rightarrow> ApiKey list" where
  "db_ListPersonalKeys now u s = newest_first (filter (personal_key now u) (ad_keys s))"

record CreateAPIKeyParams =
  kp_KeyType :: string
  kp_KeyPrefix :: string
  kp_KeyHash :: string
  kp_Name :: string
  kp_Role :: string
  kp_ProjectID :: UUID
  kp_CreatedBy :: UUID
  kp_ExpiresAt :: "timestamp option"

definition has_project :: "UUID \<Rightarrow> adb \<Rightarrow> bool" where
  "has_project p s = list_ex (\<lambda>q. sql_eq q p) (ad_projects s)"

definition has_user :: "UUID \<Rightarrow> adb \<Rightarrow> bool" where
  "has_user u s = list_ex (\<lambda>r. sql_eq (u_ID r) u) (ad_users s)"

text \<open>The check constraints and foreign keys of \<^verbatim>\<open>api_keys\<close>.\<close>

definition key_constraints :: "CreateAPIKeyParams \<Rightarrow> adb \<Rightarrow> bool" where
  "key_constraints a s =
     (kp_Role a \<in> {''read'', ''write''} \<and>
      (kp_KeyType a = ''project'' \<and> uuid_Valid (kp_ProjectID a) \<or>
       kp_KeyType a = ''personal'' \<and> \<not> uuid_Valid (kp_ProjectID a)) \<and>
      (uuid_Valid (kp_ProjectID a) \<longrightarrow> has_project (kp_ProjectID a) s) \<and>
      (uuid_Valid (kp_CreatedBy a) \<longrightarrow> has_user (kp_CreatedBy a) s))"

definition CreateAPIKey :: "timestamp \<Rightarrow> UUID \<Rightarrow> CreateAPIKeyParams \<Rightarrow> adb \<Rightarrow> db_error + ApiKey \<times> adb" where
  "CreateAPIKey now fresh a s =
     (if \<not> key_constraints a s then Inl Pg_Other
      else if list_ex (\<lambda>k. ak_KeyHash k = kp_KeyHash a \<or> sql_eq (ak_ID k) fresh) (ad_keys s) then Inl Pg_Unique
      else let k = \<lparr>ak_ID = fresh, ak_KeyType = kp_KeyType a, ak_KeyPrefix = kp_KeyPrefix a, ak_KeyHash = kp_KeyHash a,
                    ak_Name = kp_Name a, ak_Role = kp_Role a, ak_ProjectID = kp_ProjectID a, ak_IsActive = True,
                    ak_ExpiresAt = kp_ExpiresAt a, ak_LastUsedAt = None, ak_CreatedBy = kp_CreatedBy a,
                    ak_CreatedAt = Some now\<rparr>
           in Inr (k, s\<lparr>ad_keys := ad_keys s @ [k]\<rparr>))"

definition LockProjectRow :: "UUID \<Rightarrow> adb \<Rightarrow> UUID option" where
  "LockProjectRow p s = List.find (\<lambda>q. sql_eq q p) (ad_projects s)"

definition LockUserRow :: "UUID \<Rightarrow> adb \<Rightarrow> UserRow option" where
  "LockUserRow u s = List.find (\<lambda>r. sql_eq (u_ID r) u) (ad_users s)"

definition update_keys :: "(ApiKey \<Rightarrow> bool) \<Rightarrow> (ApiKey \<Rightarrow> ApiKey) \<Rightarrow> adb \<Rightarrow> nat \<times> adb" where
  "update_keys P f s =
     (length (filter P (ad_keys s)), s\<lparr>ad_keys := map (\<lambda>k. if P k then f k else k) (ad_keys s)\<rparr>)"

definition SoftDeleteAPIKey :: "UUID \<Rightarrow> adb \<Rightarrow> nat \<times> adb" where
  "SoftDeleteAPIKey i = update_keys (\<lambda>k. sql_eq (ak_ID k) i \<and> ak_IsActive k) (\<lambda>k. k\<lparr>ak_IsActive := False\<rparr>)"

definition UpdateAPIKeyLastUsed :: "timestamp \<Rightarrow> string \<Rightarrow> adb \<Rightarrow> adb" where
  "UpdateAPIKeyLastUsed now h s =
     snd (update_keys (\<lambda>k. ak_KeyHash k = h \<and> key_live now k) (\<lambda>k. k\<lparr>ak_LastUsedAt := Some now\<rparr>) s)"

subsection \<open>The access view\<close>

definition role_rank :: "string \<Rightarrow> nat" where
  "role_rank r = (if r = ''write'' then 2 else if r = ''read'' then 1 else 0)"

definition mapped_role :: "string \<Rightarrow> string" where
  "mapped_role r = (if r = ''owner'' \<or> r = ''admin'' then ''write'' else if r = ''member'' then ''read'' else [])"

text \<open>Rows of the view: hash of the key, effective role, project. The CASE on the smaller rank has no third
  value: rank 0 is excluded.\<close>

definition api_key_project_access :: "timestamp \<Rightarrow> adb \<Rightarrow> (string \<times> string \<times> UUID) list" where
  "api_key_project_access now s =
     [(ak_KeyHash k, ak_Role k, ak_ProjectID k).
        k \<leftarrow> ad_keys s, ak_KeyType k = ''project'' \<and> key_live now k \<and> 0 < role_rank (ak_Role k)] @
     [(ak_KeyHash k, if min (role_rank (ak_Role k)) (role_rank (mapped_role (pm_Role m))) = 2 then ''write'' else ''read'',
       pm_ProjectID m).
        k \<leftarrow> ad_keys s, m \<leftarrow> ad_members s,
        ak_KeyType k = ''personal'' \<and> sql_eq (ak_CreatedBy k) (pm_UserID m) \<and> key_live now k \<and>
        0 < role_rank (ak_Role k) \<and> 0 < role_rank (mapped_role (pm_Role m))]"

definition CheckAPIKeyProjectAccess :: "timestamp \<Rightarrow> string \<Rightarrow> UUID \<Rightarrow> adb \<Rightarrow> string option" where
  "CheckAPIKeyProjectAccess now h p s =
     map_option (\<lambda>(_, r, _). r)
       (List.find (\<lambda>(h', _, p'). h' = h \<and> sql_eq p' p) (api_key_project_access now s))"

section \<open>Sessions\<close>

definition GetSessionByTokenHash :: "timestamp \<Rightarrow> string \<Rightarrow> adb \<Rightarrow> (Session \<times> UserRow) option" where
  "GetSessionByTokenHash now h s =
     List.find (\<lambda>(t, u). sql_eq (u_ID u) (ses_UserID t) \<and> ses_TokenHash t = h \<and> now < ses_ExpiresAt t \<and> u_IsActive u)
       (List.product (ad_sessions s) (ad_users s))"

definition SessionRowToUser :: "Session \<times> UserRow \<Rightarrow> User" where
  "SessionRowToUser r =
     (case r of (t, u) \<Rightarrow>
        \<lparr>usr_ID = uuid_or_empty (ses_UserID t), usr_Username = u_Username u, usr_Email = u_Email u,
         usr_DisplayName = text_or_empty (u_DisplayName u), usr_AvatarURL = text_or_empty (u_AvatarUrl u),
         usr_IsActive = u_IsActive u, usr_CreatedAt = time_or_zero (u_CreatedAt u),
         usr_UpdatedAt = time_or_zero (u_UpdatedAt u)\<rparr>)"

definition CreateSession ::
  "timestamp \<Rightarrow> UUID \<Rightarrow> UUID \<Rightarrow> string \<Rightarrow> string option \<Rightarrow> string option \<Rightarrow> timestamp \<Rightarrow> adb \<Rightarrow> db_error + Session \<times> adb" where
  "CreateSession now fresh u h ip agent expires s =
     (if \<not> has_user u s then Inl Pg_Other
      else if list_ex (\<lambda>t. ses_TokenHash t = h \<or> sql_eq (ses_ID t) fresh) (ad_sessions s) then Inl Pg_Unique
      else let t = \<lparr>ses_ID = fresh, ses_UserID = u, ses_TokenHash = h, ses_IpAddress = ip, ses_UserAgent = agent,
                    ses_ExpiresAt = expires, ses_CreatedAt = now\<rparr>
           in Inr (t, s\<lparr>ad_sessions := ad_sessions s @ [t]\<rparr>))"

definition DeleteSession :: "string \<Rightarrow> adb \<Rightarrow> adb" where
  "DeleteSession h s = s\<lparr>ad_sessions := filter (\<lambda>t. ses_TokenHash t \<noteq> h) (ad_sessions s)\<rparr>"

definition DeleteUserSessions :: "UUID \<Rightarrow> adb \<Rightarrow> adb" where
  "DeleteUserSessions u s = s\<lparr>ad_sessions := filter (\<lambda>t. \<not> sql_eq (ses_UserID t) u) (ad_sessions s)\<rparr>"

section \<open>Platform roles and users\<close>

definition role_row :: "UUID \<Rightarrow> string \<Rightarrow> UserPlatformRole \<Rightarrow> bool" where
  "role_row u role r = (sql_eq (upr_UserID r) u \<and> upr_Role r = role)"

definition HasPlatformRole :: "UUID \<Rightarrow> string \<Rightarrow> adb \<Rightarrow> bool" where
  "HasPlatformRole u role s = list_ex (role_row u role) (ad_roles s)"

definition GetUserPlatformRoles :: "UUID \<Rightarrow> adb \<Rightarrow> string list" where
  "GetUserPlatformRoles u s = map upr_Role (filter (\<lambda>r. sql_eq (upr_UserID r) u) (ad_roles s))"

definition CountActivePlatformAdmins :: "adb \<Rightarrow> nat" where
  "CountActivePlatformAdmins s =
     length (filter (\<lambda>(r, u). sql_eq (u_ID u) (upr_UserID r) \<and> upr_Role r = ''platform_admin'' \<and> u_IsActive u)
       (List.product (ad_roles s) (ad_users s)))"

definition CountActivePlatformAdminsForUpdate :: "adb \<Rightarrow> nat" where
  "CountActivePlatformAdminsForUpdate s =
     length (map fst (filter (\<lambda>(r, u). sql_eq (u_ID u) (upr_UserID r) \<and> upr_Role r = ''platform_admin'' \<and> u_IsActive u)
       (List.product (ad_roles s) (ad_users s))))"

text \<open>\<open>INSERT ... SELECT ... ON CONFLICT DO NOTHING RETURNING\<close>: no row when the user is not active or has the role.\<close>

definition GrantPlatformRole ::
  "timestamp \<Rightarrow> UUID \<Rightarrow> UUID \<Rightarrow> string \<Rightarrow> UUID \<Rightarrow> adb \<Rightarrow> db_error + UserPlatformRole option \<times> adb" where
  "GrantPlatformRole now fresh u role grantedBy s =
     (if \<not> list_ex (\<lambda>r. sql_eq (u_ID r) u \<and> u_IsActive r) (ad_users s) then Inr (None, s)
      else if role \<noteq> ''platform_admin'' \<or> (uuid_Valid grantedBy \<and> \<not> has_user grantedBy s) then Inl Pg_Other
      else if HasPlatformRole u role s then Inr (None, s)
      else let r = \<lparr>upr_ID = fresh, upr_UserID = u, upr_Role = role, upr_GrantedBy = grantedBy, upr_CreatedAt = now\<rparr>
           in Inr (Some r, s\<lparr>ad_roles := ad_roles s @ [r]\<rparr>))"

definition RevokePlatformRole :: "UUID \<Rightarrow> string \<Rightarrow> adb \<Rightarrow> nat \<times> adb" where
  "RevokePlatformRole u role s =
     (length (filter (role_row u role) (ad_roles s)),
      s\<lparr>ad_roles := filter (\<lambda>r. \<not> role_row u role r) (ad_roles s)\<rparr>)"

definition AdminGetUserByID :: "UUID \<Rightarrow> adb \<Rightarrow> UserRow option" where
  "AdminGetUserByID u s = List.find (\<lambda>r. sql_eq (u_ID r) u) (ad_users s)"

definition GetUserByUsername :: "string \<Rightarrow> adb \<Rightarrow> UserRow option" where
  "GetUserByUsername name s = List.find (\<lambda>r. u_Username r = name \<and> u_IsActive r) (ad_users s)"

definition set_active :: "timestamp \<Rightarrow> bool \<Rightarrow> UUID \<Rightarrow> UserRow \<Rightarrow> UserRow" where
  "set_active now b u r = (if sql_eq (u_ID r) u then r\<lparr>u_IsActive := b, u_UpdatedAt := Some now\<rparr> else r)"

definition DeactivateUser :: "timestamp \<Rightarrow> UUID \<Rightarrow> adb \<Rightarrow> adb" where
  "DeactivateUser now u = set_users (map (set_active now False u))"

definition ActivateUser :: "timestamp \<Rightarrow> UUID \<Rightarrow> adb \<Rightarrow> adb" where
  "ActivateUser now u = set_users (map (set_active now True u))"

definition AdminUpdateUser ::
  "timestamp \<Rightarrow> UUID \<Rightarrow> string option \<Rightarrow> string option \<Rightarrow> adb \<Rightarrow> UserRow option \<times> adb" where
  "AdminUpdateUser now u displayName avatarUrl s =
     (let upd = (\<lambda>r. r\<lparr>u_DisplayName := (case displayName of Some d \<Rightarrow> Some d | None \<Rightarrow> u_DisplayName r),
                      u_AvatarUrl := (case avatarUrl of Some a \<Rightarrow> if a = [] then None else Some a | None \<Rightarrow> u_AvatarUrl r),
                      u_UpdatedAt := Some now\<rparr>);
          s' = set_users (map (\<lambda>r. if sql_eq (u_ID r) u then upd r else r)) s
      in (map_option upd (List.find (\<lambda>r. sql_eq (u_ID r) u) (ad_users s)), s'))"

definition GetProject :: "UUID \<Rightarrow> adb \<Rightarrow> UUID option" where
  "GetProject p s = List.find (\<lambda>q. sql_eq q p) (ad_projects s)"

definition GetProjectMember :: "UUID \<Rightarrow> UUID \<Rightarrow> adb \<Rightarrow> MemberRow option" where
  "GetProjectMember p u s = List.find (is_row p u) (ad_members s)"

end
