(* ===== verification/Validate.thy ===== *)
theory Validate
  imports Api_Domain
begin

text \<open>
  Validation of request fields (\<^verbatim>\<open>src/backend-api/internal/validate/validate.go\<close>). The errors of a request
  are a map from the field to the message; a validator returns its value and the extended map.

  \<open>uuidRE\<close> is the regular expression written as a test of the five groups of hexadecimal digits. \<open>lower\<close>
  stands for \<^verbatim>\<open>strings.ToLower\<close>, whose Unicode tables are not modelled.
\<close>

section \<open>Definitions\<close>

type_synonym Errors = "string \<rightharpoonup> string"

definition AddErr :: "string \<Rightarrow> string \<Rightarrow> Errors \<Rightarrow> Errors" where
  "AddErr fld msg errs = errs(fld \<mapsto> msg)"

definition HasErrors :: "Errors \<Rightarrow> bool" where
  "HasErrors errs = (errs \<noteq> Map.empty)"

definition ToAppError :: "Errors \<Rightarrow> AppError" where
  "ToAppError errs = ValidationError errs"

definition Required :: "string \<Rightarrow> string \<Rightarrow> Errors \<Rightarrow> string \<times> Errors" where
  "Required v fld errs =
     (let v = TrimSpace v in if v = [] then ([], AddErr fld (fld @ '' is required'') errs) else (v, errs))"

definition hex_char :: "char \<Rightarrow> bool" where
  "hex_char c = (in_range 48 57 c \<or> in_range 97 102 c \<or> in_range 65 70 c)"

text \<open>Matches the groups of lengths \<open>ns\<close>, separated by dashes, against the whole text.\<close>

fun hex_groups :: "nat list \<Rightarrow> string \<Rightarrow> bool" where
  "hex_groups [] s = (s = [])"
| "hex_groups [n] s = (length s = n \<and> list_all hex_char s)"
| "hex_groups (n # m # ns) s =
     (n < length s \<and> list_all hex_char (take n s) \<and> s ! n = CHR ''-'' \<and> hex_groups (m # ns) (drop (Suc n) s))"

definition uuidRE :: "string \<Rightarrow> bool" where
  "uuidRE s = hex_groups [8, 4, 4, 4, 12] s"

definition val_UUID :: "string \<Rightarrow> string \<Rightarrow> Errors \<Rightarrow> string \<times> Errors" where
  "val_UUID v fld errs =
     (if \<not> uuidRE v then ([], AddErr fld (fld @ '' must be a valid UUID'') errs) else (v, errs))"

definition MinMax :: "int \<Rightarrow> int \<Rightarrow> int \<Rightarrow> string \<Rightarrow> Errors \<Rightarrow> int \<times> Errors" where
  "MinMax v lo hi fld errs =
     (v, if v < lo \<or> v > hi
         then AddErr fld (fld @ '' must be between '' @ show_int lo @ '' and '' @ show_int hi) errs else errs)"

definition OneOf :: "string \<Rightarrow> string list \<Rightarrow> string \<Rightarrow> Errors \<Rightarrow> string \<times> Errors" where
  "OneOf v allowed fld errs =
     (if allowed = [] then (v, AddErr fld (fld @ '' has no allowed values'') errs)
      else if v \<in> set allowed then (v, errs)
      else (v, AddErr fld (fld @ '' must be one of: '' @ Join allowed '', '') errs))"

definition val_Email :: "(string \<Rightarrow> string) \<Rightarrow> string \<Rightarrow> string \<Rightarrow> Errors \<Rightarrow> string \<times> Errors" where
  "val_Email lower v fld errs =
     (let v = TrimSpace v; bad = ([], AddErr fld (fld @ '' must be a valid email address'') errs)
      in if v = [] then ([], AddErr fld (fld @ '' is required'') errs)
         else if list_ex (\<lambda>c. c \<in> {CHR '' '', CHR 0x09, CHR 0x0A, CHR 0x0D}) v then bad
         else if CountByte v (CHR ''@'') \<noteq> 1 then bad
         else let at = length (takeWhile (\<lambda>c. c \<noteq> CHR ''@'') v)
              in if at \<le> 0 \<or> length v - 1 \<le> at then bad else (lower v, errs))"

text \<open>\<open>url_ok\<close>: \<^verbatim>\<open>url.Parse\<close> succeeds and finds a scheme and a host.\<close>

definition val_URL :: "(string \<Rightarrow> bool) \<Rightarrow> string \<Rightarrow> string \<Rightarrow> Errors \<Rightarrow> string \<times> Errors" where
  "val_URL url_ok x fld errs =
     (if x = [] then (x, errs)
      else if \<not> url_ok x then ([], AddErr fld (fld @ '' must be a valid URL'') errs) else (x, errs))"

definition reservedUsernames :: "string list" where
  "reservedUsernames = [''admin'']"

definition ReservedUsername :: "string \<Rightarrow> string \<Rightarrow> Errors \<Rightarrow> Errors" where
  "ReservedUsername username fld errs =
     (if username \<in> set reservedUsernames then errs(fld \<mapsto> fld @ '' is reserved'') else errs)"

text \<open>\<^verbatim>\<open>utf8.RuneCountInString\<close>: a byte that starts no well-formed sequence counts as one rune.\<close>

function RuneCount :: "string \<Rightarrow> nat" where
  "RuneCount s = (if s = [] then 0 else Suc (RuneCount (drop (max 1 (rune_len s)) s)))"
  by pat_completeness auto
termination
  by (relation "measure length") auto

declare RuneCount.simps [simp del]

definition MaxLength :: "string \<Rightarrow> nat \<Rightarrow> string \<Rightarrow> Errors \<Rightarrow> string \<times> Errors" where
  "MaxLength v mx fld errs =
     (v, if mx < RuneCount v then AddErr fld (fld @ '' must not exceed '' @ show_nat mx @ '' characters'') errs else errs)"

section \<open>Lemmas\<close>

lemma HasErrors_AddErr [simp]: "HasErrors (AddErr f m e)"
  by (simp add: HasErrors_def AddErr_def)

lemma HasErrors_empty [simp]: "\<not> HasErrors Map.empty"
  by (simp add: HasErrors_def)

lemma val_UUID_ok: "val_UUID v f Map.empty = (v', e) \<Longrightarrow> \<not> HasErrors e \<longleftrightarrow> uuidRE v"
  by (auto simp: val_UUID_def split: if_splits)

lemma val_UUID_value: "val_UUID v f e = (v', e') \<Longrightarrow> uuidRE v \<Longrightarrow> v' = v \<and> e' = e"
  by (simp add: val_UUID_def)

lemma hex_digit_hex: "n < 16 \<Longrightarrow> hex_char (hex_digit n)"
  by (auto simp: hex_char_def in_range_def hex_digit_def byte_def)

lemma Encode_hex: "list_all hex_char (EncodeToString bs)"
proof -
  have "byte c div 16 < 16" "byte c mod 16 < 16" for c
    using nat_of_char_less_256 [of c] by (simp_all add: byte_def div_less_iff_less_mult)
  then show ?thesis by (induction bs) (auto simp: EncodeToString_def hex_digit_hex)
qed

lemma hex_groups_append:
  "length a = n \<Longrightarrow> list_all hex_char a \<Longrightarrow> hex_groups (m # ns) b \<Longrightarrow> hex_groups (n # m # ns) (a @ CHR ''-'' # b)"
  by (simp add: nth_append)

text \<open>The text of every identifier the services produce passes the validation of identifiers.\<close>

lemma PgUUIDToString_valid: "wf_UUID u \<Longrightarrow> uuid_Valid u \<Longrightarrow> uuidRE (PgUUIDToString u)"
  by (simp add: PgUUIDToString_def dashed_def wf_UUID_def uuidRE_def Encode_hex
      hex_groups_append [where m = 4 and ns = "[4, 4, 12]"] hex_groups_append [where m = 4 and ns = "[4, 12]"]
      hex_groups_append [where m = 4 and ns = "[12]"] hex_groups_append [where m = 12 and ns = "[]"]
      del: hex_groups.simps(3))

end
