(* ===== verification/Api_Keys.thy ===== *)
theory Api_Keys
  imports Access_Store Validate
begin

text \<open>
  API keys: their generation (\<^verbatim>\<open>src/backend-api/internal/apikey/keygen.go\<close>), the service
  (\<^verbatim>\<open>apikey/service.go\<close>) and the request handlers over it (\<^verbatim>\<open>handler/apikey.go\<close>).

  The environment \<open>kenv\<close> holds what the code gets from outside: \<open>ke_scan\<close> parses an identifier
  (\<^verbatim>\<open>pgtype.UUID.Scan\<close>), \<open>ke_draw i\<close> is the \<open>i\<close>-th random number below 62 or the failure of the source,
  \<open>ke_fresh\<close> the id the database generates, \<open>ke_fts\<close> the faults of the transaction attempts,
  \<open>ke_quote\<close> the quoted form of a text (\<^verbatim>\<open>%q\<close>), \<open>ke_parse\<close> reads an RFC 3339 time. An error that is no
  \<open>AppError\<close> and no database error is \<open>Pg_Other\<close>.
\<close>

section \<open>Keys\<close>

definition base62 :: string where
  "base62 = ''0123456789ABCDEFGHIJKLMNOPQRSTUVWXYZabcdefghijklmnopqrstuvwxyz''"

definition randomChars :: nat where "randomChars = 32"
definition storedPrefixLen :: nat where "storedPrefixLen = 12"

definition prefixForType :: "string \<Rightarrow> string option" where
  "prefixForType keyType =
     (if keyType = KeyTypeProject then Some ''mj_proj_''
      else if keyType = KeyTypePersonal then Some ''mj_pers_'' else None)"

definition HashKey :: "string \<Rightarrow> string" where
  "HashKey plaintext = EncodeToString (Sum256 plaintext)"

fun draw_chars :: "(nat \<Rightarrow> nat option) \<Rightarrow> nat \<Rightarrow> nat \<Rightarrow> string option" where
  "draw_chars draw i 0 = Some []"
| "draw_chars draw i (Suc n) =
     (case draw i of
        None \<Rightarrow> None
      | Some k \<Rightarrow> map_option (\<lambda>r. base62 ! k # r) (draw_chars draw (Suc i) n))"

definition GenerateAPIKey :: "(nat \<Rightarrow> nat option) \<Rightarrow> string \<Rightarrow> (string \<times> string \<times> string) option" where
  "GenerateAPIKey draw keyType =
     (case prefixForType keyType of
        None \<Rightarrow> None
      | Some typePrefix \<Rightarrow>
          (case draw_chars draw 0 randomChars of
             None \<Rightarrow> None
           | Some buf \<Rightarrow>
               (let plaintext = typePrefix @ buf
                in Some (plaintext, take storedPrefixLen plaintext, HashKey plaintext))))"

section \<open>The service\<close>

record kenv =
  ke_now :: timestamp
  ke_scan :: "string \<Rightarrow> UUID option"
  ke_draw :: "nat \<Rightarrow> nat option"
  ke_fresh :: UUID
  ke_fts :: "nat \<Rightarrow> faults"
  ke_quote :: "string \<Rightarrow> string"
  ke_parse :: "string \<Rightarrow> timestamp option"

definition maxProjectKeys :: nat where "maxProjectKeys = 50"
definition maxPersonalKeys :: nat where "maxPersonalKeys = 50"

record CreateKeyRequest =
  kr_Name :: string
  kr_Role :: string
  kr_ExpiresAt :: "timestamp option"

record APIKeyInfo =
  ki_ID :: string
  ki_KeyType :: string
  ki_KeyPrefix :: string
  ki_Name :: string
  ki_Role :: string
  ki_IsActive :: bool
  ki_ProjectID :: string
  ki_ExpiresAt :: "timestamp option"
  ki_LastUsedAt :: "timestamp option"
  ki_CreatedBy :: string
  ki_CreatedAt :: timestamp

definition DBAPIKeyToDomain :: "ApiKey \<Rightarrow> APIKeyInfo" where
  "DBAPIKeyToDomain k =
     \<lparr>ki_ID = uuid_or_empty (ak_ID k), ki_KeyType = ak_KeyType k, ki_KeyPrefix = ak_KeyPrefix k, ki_Name = ak_Name k,
      ki_Role = ak_Role k, ki_IsActive = ak_IsActive k, ki_ProjectID = uuid_or_empty (ak_ProjectID k),
      ki_ExpiresAt = ak_ExpiresAt k, ki_LastUsedAt = ak_LastUsedAt k, ki_CreatedBy = uuid_or_empty (ak_CreatedBy k),
      ki_CreatedAt = time_or_zero (ak_CreatedAt k)\<rparr>"

record CreateKeyResult =
  kk_Info :: APIKeyInfo
  kk_PlaintextKey :: string

definition project_key_body :: "timestamp \<Rightarrow> UUID \<Rightarrow> CreateAPIKeyParams \<Rightarrow> faults \<Rightarrow> adb \<Rightarrow> db_error + ApiKey \<times> adb" where
  "project_key_body now fresh a ft s =
     (case query ft ''LockProjectRow'' (Inr (LockProjectRow (kp_ProjectID a) s)) of
        Inl e \<Rightarrow> Inl e
      | Inr None \<Rightarrow> Inl (App (NotFound ''project not found''))
      | Inr (Some _) \<Rightarrow>
          (case query ft ''CountProjectKeys'' (Inr (CountProjectKeys now (kp_ProjectID a) s)) of
             Inl e \<Rightarrow> Inl e
           | Inr count \<Rightarrow>
               if maxProjectKeys \<le> count
               then Inl (App (BadRequest (''project key limit reached (max '' @ show_nat maxProjectKeys @ '')'')))
               else query ft ''CreateAPIKey'' (CreateAPIKey now fresh a s)))"

definition personal_key_body :: "timestamp \<Rightarrow> UUID \<Rightarrow> CreateAPIKeyParams \<Rightarrow> faults \<Rightarrow> adb \<Rightarrow> db_error + ApiKey \<times> adb" where
  "personal_key_body now fresh a ft s =
     (case query ft ''LockUserRow'' (Inr (LockUserRow (kp_CreatedBy a) s)) of
        Inl e \<Rightarrow> Inl e
      | Inr None \<Rightarrow> Inl (App (NotFound ''user not found''))
      | Inr (Some _) \<Rightarrow>
          (case query ft ''CountPersonalKeys'' (Inr (CountPersonalKeys now (kp_CreatedBy a) s)) of
             Inl e \<Rightarrow> Inl e
           | Inr count \<Rightarrow>
               if maxPersonalKeys \<le> count
               then Inl (App (BadRequest (''personal key limit reached (max '' @ show_nat maxPersonalKeys @ '')'')))
               else query ft ''CreateAPIKey'' (CreateAPIKey now fresh a s)))"

definition created :: "string \<Rightarrow> (db_error + ApiKey) \<times> adb \<Rightarrow> (db_error + CreateKeyResult) \<times> adb" where
  "created plaintext x =
     (case x of
        (Inl e, s) \<Rightarrow> (Inl e, s)
      | (Inr row, s) \<Rightarrow> (Inr \<lparr>kk_Info = DBAPIKeyToDomain row, kk_PlaintextKey = plaintext\<rparr>, s))"

definition CreateProjectKey ::
  "kenv \<Rightarrow> CreateKeyRequest \<Rightarrow> string \<Rightarrow> string \<Rightarrow> adb \<Rightarrow> (db_error + CreateKeyResult) \<times> adb" where
  "CreateProjectKey v req creatorID projectID s =
     (let role = (if kr_Role req = [] then KeyRoleRead else kr_Role req)
      in if \<not> KeyRoleValid role then (Inl (App (BadRequest (''invalid role: '' @ ke_quote v role))), s)
         else case ke_scan v creatorID of
           None \<Rightarrow> (Inl Pg_Other, s)
         | Some creatorUUID \<Rightarrow>
             (case ke_scan v projectID of
                None \<Rightarrow> (Inl Pg_Other, s)
              | Some projectUUID \<Rightarrow>
                  (case GenerateAPIKey (ke_draw v) KeyTypeProject of
                     None \<Rightarrow> (Inl Pg_Other, s)
                   | Some (plaintext, prefx, hash) \<Rightarrow>
                       created plaintext
                         (WithTx (project_key_body (ke_now v) (ke_fresh v)
                            \<lparr>kp_KeyType = KeyTypeProject, kp_KeyPrefix = prefx, kp_KeyHash = hash, kp_Name = kr_Name req,
                             kp_Role = role, kp_ProjectID = projectUUID, kp_CreatedBy = creatorUUID,
                             kp_ExpiresAt = kr_ExpiresAt req\<rparr>) (ke_fts v) s))))"

definition CreatePersonalKey ::
  "kenv \<Rightarrow> CreateKeyRequest \<Rightarrow> string \<Rightarrow> adb \<Rightarrow> (db_error + CreateKeyResult) \<times> adb" where
  "CreatePersonalKey v req userID s =
     (let role = (if kr_Role req = [] then KeyRoleRead else kr_Role req)
      in if \<not> KeyRoleValid role then (Inl (App (BadRequest (''invalid role: '' @ ke_quote v role))), s)
         else case ke_scan v userID of
           None \<Rightarrow> (Inl Pg_Other, s)
         | Some userUUID \<Rightarrow>
             (case GenerateAPIKey (ke_draw v) KeyTypePersonal of
                None \<Rightarrow> (Inl Pg_Other, s)
              | Some (plaintext, prefx, hash) \<Rightarrow>
                  created plaintext
                    (WithTx (personal_key_body (ke_now v) (ke_fresh v)
                       \<lparr>kp_KeyType = KeyTypePersonal, kp_KeyPrefix = prefx, kp_KeyHash = hash, kp_Name = kr_Name req,
                        kp_Role = role, kp_ProjectID = null_UUID, kp_CreatedBy = userUUID,
                        kp_ExpiresAt = kr_ExpiresAt req\<rparr>) (ke_fts v) s)))"

definition ListProjectKeys :: "kenv \<Rightarrow> string \<Rightarrow> adb \<Rightarrow> db_error + APIKeyInfo list" where
  "ListProjectKeys v projectID s =
     (case ke_scan v projectID of
        None \<Rightarrow> Inl Pg_Other
      | Some projectUUID \<Rightarrow>
          (case query (ke_fts v 0) ''ListProjectKeys'' (Inr (db_ListProjectKeys (ke_now v) projectUUID s)) of
             Inl e \<Rightarrow> Inl e
           | Inr rows \<Rightarrow> Inr (map DBAPIKeyToDomain rows)))"

definition ListPersonalKeys :: "kenv \<Rightarrow> string \<Rightarrow> adb \<Rightarrow> db_error + APIKeyInfo list" where
  "ListPersonalKeys v userID s =
     (case ke_scan v userID of
        None \<Rightarrow> Inl Pg_Other
      | Some userUUID \<Rightarrow>
          (case query (ke_fts v 0) ''ListPersonalKeys'' (Inr (db_ListPersonalKeys (ke_now v) userUUID s)) of
             Inl e \<Rightarrow> Inl e
           | Inr rows \<Rightarrow> Inr (map DBAPIKeyToDomain rows)))"

text \<open>\<open>mine\<close> is the test of the type and the owner of the key.\<close>

definition delete_key_body :: "(ApiKey \<Rightarrow> bool) \<Rightarrow> UUID \<Rightarrow> faults \<Rightarrow> adb \<Rightarrow> db_error + unit \<times> adb" where
  "delete_key_body mine keyUUID ft s =
     (case query ft ''GetAPIKeyByID'' (Inr (GetAPIKeyByID keyUUID s)) of
        Inl e \<Rightarrow> Inl e
      | Inr None \<Rightarrow> Inl (App (NotFound ''api key not found''))
      | Inr (Some row) \<Rightarrow>
          if \<not> mine row then Inl (App (NotFound ''api key not found''))
          else if \<not> ak_IsActive row then Inl (App (NotFound ''api key not found''))
          else case query ft ''SoftDeleteAPIKey'' (Inr (SoftDeleteAPIKey keyUUID s)) of
            Inl e \<Rightarrow> Inl e
          | Inr (affected, s') \<Rightarrow> if affected = 0 then Inl (App (NotFound ''api key not found'')) else Inr ((), s'))"

definition DeleteProjectKey :: "kenv \<Rightarrow> string \<Rightarrow> string \<Rightarrow> adb \<Rightarrow> (db_error + unit) \<times> adb" where
  "DeleteProjectKey v keyID projectID s =
     (case ke_scan v keyID of
        None \<Rightarrow> (Inl (App (NotFound ''api key not found'')), s)
      | Some keyUUID \<Rightarrow>
          WithTx (delete_key_body (\<lambda>row. ak_KeyType row = KeyTypeProject \<and> PgUUIDToString (ak_ProjectID row) = projectID)
            keyUUID) (ke_fts v) s)"

definition DeletePersonalKey :: "kenv \<Rightarrow> string \<Rightarrow> string \<Rightarrow> adb \<Rightarrow> (db_error + unit) \<times> adb" where
  "DeletePersonalKey v keyID userID s =
     (case ke_scan v keyID of
        None \<Rightarrow> (Inl (App (NotFound ''api key not found'')), s)
      | Some keyUUID \<Rightarrow>
          WithTx (delete_key_body (\<lambda>row. ak_KeyType row = KeyTypePersonal \<and> PgUUIDToString (ak_CreatedBy row) = userID)
            keyUUID) (ke_fts v) s)"

section \<open>Request handlers\<close>

text \<open>The decoded body of a request, or the error of \<^verbatim>\<open>DecodeJSON\<close>, is an argument of a handler, as are the
  user of its context and the parameters of its URL. The answer is the error or the value that is written
  as JSON.\<close>

record createKeyRequest =
  cr_Name :: string
  cr_Role :: string
  cr_ExpiresAt :: "string option"

definition validate_key_request :: "createKeyRequest \<Rightarrow> createKeyRequest \<times> Errors" where
  "validate_key_request req =
     (let errs = (if cr_Name req \<noteq> [] then snd (MaxLength (cr_Name req) 100 ''name'' Map.empty) else Map.empty);
          req = (if cr_Role req = [] then req\<lparr>cr_Role := KeyRoleRead\<rparr> else req)
      in (req, snd (OneOf (cr_Role req) [KeyRoleRead, KeyRoleWrite] ''role'' errs)))"

definition parseExpiresAt :: "kenv \<Rightarrow> string option \<Rightarrow> AppError + timestamp option" where
  "parseExpiresAt v raw =
     (case raw of
        None \<Rightarrow> Inr None
      | Some r \<Rightarrow>
          if r = [] then Inr None
          else case ke_parse v r of
            None \<Rightarrow> Inl (BadRequest ''expires_at must be a valid RFC 3339 timestamp'')
          | Some t \<Rightarrow> if \<not> ke_now v < t then Inl (BadRequest ''expires_at must be in the future'') else Inr (Some t))"

definition toAppError :: "db_error \<Rightarrow> AppError" where
  "toAppError e = (case e of App a \<Rightarrow> a | _ \<Rightarrow> ErrInternal)"

definition answer :: "(db_error + 'a) \<times> adb \<Rightarrow> (AppError + 'a) \<times> adb" where
  "answer x = (case x of (Inl e, s) \<Rightarrow> (Inl (toAppError e), s) | (Inr a, s) \<Rightarrow> (Inr a, s))"

definition checked_request :: "kenv \<Rightarrow> AppError + createKeyRequest \<Rightarrow> AppError + CreateKeyRequest" where
  "checked_request v body =
     (case body of
        Inl e \<Rightarrow> Inl e
      | Inr req \<Rightarrow>
          (case validate_key_request req of (req, errs) \<Rightarrow>
             if HasErrors errs then Inl (ToAppError errs)
             else case parseExpiresAt v (cr_ExpiresAt req) of
               Inl e \<Rightarrow> Inl e
             | Inr t \<Rightarrow> Inr \<lparr>kr_Name = cr_Name req, kr_Role = cr_Role req, kr_ExpiresAt = t\<rparr>))"

definition HandleCreateProjectKey ::
  "kenv \<Rightarrow> User option \<Rightarrow> string \<Rightarrow> AppError + createKeyRequest \<Rightarrow> adb \<Rightarrow> (AppError + CreateKeyResult) \<times> adb" where
  "HandleCreateProjectKey v user projectParam body s =
     (case user of
        None \<Rightarrow> (Inl ErrUnauthorized, s)
      | Some u \<Rightarrow>
          (case val_UUID projectParam ''project_id'' Map.empty of (projectID, errs) \<Rightarrow>
             if HasErrors errs then (Inl (ToAppError errs), s)
             else case checked_request v body of
               Inl e \<Rightarrow> (Inl e, s)
             | Inr req \<Rightarrow> answer (CreateProjectKey v req (usr_ID u) projectID s)))"

definition HandleListProjectKeys :: "kenv \<Rightarrow> string \<Rightarrow> adb \<Rightarrow> AppError + APIKeyInfo list" where
  "HandleListProjectKeys v projectParam s =
     (case val_UUID projectParam ''project_id'' Map.empty of (projectID, errs) \<Rightarrow>
        if HasErrors errs then Inl (ToAppError errs)
        else case ListProjectKeys v projectID s of Inl e \<Rightarrow> Inl (toAppError e) | Inr ks \<Rightarrow> Inr ks)"

definition HandleDeleteProjectKey :: "kenv \<Rightarrow> string \<Rightarrow> string \<Rightarrow> adb \<Rightarrow> (AppError + unit) \<times> adb" where
  "HandleDeleteProjectKey v projectParam keyParam s =
     (case val_UUID projectParam ''project_id'' Map.empty of (projectID, errs) \<Rightarrow>
      case val_UUID keyParam ''key_id'' errs of (keyID, errs) \<Rightarrow>
        if HasErrors errs then (Inl (ToAppError errs), s)
        else answer (DeleteProjectKey v keyID projectID s))"

definition HandleCreatePersonalKey ::
  "kenv \<Rightarrow> User option \<Rightarrow> AppError + createKeyRequest \<Rightarrow> adb \<Rightarrow> (AppError + CreateKeyResult) \<times> adb" where
  "HandleCreatePersonalKey v user body s =
     (case user of
        None \<Rightarrow> (Inl ErrUnauthorized, s)
      | Some u \<Rightarrow>
          (case checked_request v body of
             Inl e \<Rightarrow> (Inl e, s)
           | Inr req \<Rightarrow> answer (CreatePersonalKey v req (usr_ID u) s)))"

definition HandleListPersonalKeys :: "kenv \<Rightarrow> User option \<Rightarrow> adb \<Rightarrow> AppError + APIKeyInfo list" where
  "HandleListPersonalKeys v user s =
     (case user of
        None \<Rightarrow> Inl ErrUnauthorized
      | Some u \<Rightarrow> (case ListPersonalKeys v (usr_ID u) s of Inl e \<Rightarrow> Inl (toAppError e) | Inr ks \<Rightarrow> Inr ks))"

definition HandleDeletePersonalKey :: "kenv \<Rightarrow> User option \<Rightarrow> string \<Rightarrow> adb \<Rightarrow> (AppError + unit) \<times> adb" where
  "HandleDeletePersonalKey v user keyParam s =
     (case user of
        None \<Rightarrow> (Inl ErrUnauthorized, s)
      | Some u \<Rightarrow>
          (case val_UUID keyParam ''key_id'' Map.empty of (keyID, errs) \<Rightarrow>
             if HasErrors errs then (Inl (ToAppError errs), s)
             else answer (DeletePersonalKey v keyID (usr_ID u) s)))"

section \<open>Histories of the key table\<close>

text \<open>What every operation does to the keys: a key may be revoked or used, never changed otherwise, and new
  keys come with new hashes.\<close>

definition older :: "ApiKey \<Rightarrow> ApiKey \<Rightarrow> bool" where
  "older k k' = (k'\<lparr>ak_IsActive := ak_IsActive k, ak_LastUsedAt := ak_LastUsedAt k\<rparr> = k \<and> (ak_IsActive k' \<longrightarrow> ak_IsActive k))"

definition unique_hashes :: "adb \<Rightarrow> bool" where
  "unique_hashes s = distinct (map ak_KeyHash (ad_keys s))"

definition keys_evolve :: "adb \<Rightarrow> adb \<Rightarrow> bool" where
  "keys_evolve s s' =
     (s' = s\<lparr>ad_keys := ad_keys s'\<rparr> \<and> (unique_hashes s \<longrightarrow> unique_hashes s') \<and>
      (\<exists>ks new. ad_keys s' = ks @ new \<and> list_all2 older (ad_keys s) ks))"

lemma older_refl [simp]: "older k k"
  by (simp add: older_def)

lemma older_trans: "older a b \<Longrightarrow> older b c \<Longrightarrow> older a c"
  by (cases a; cases b; cases c) (auto simp: older_def)

lemma older_same:
  assumes "older k k'"
  shows "ak_KeyHash k' = ak_KeyHash k" "ak_ID k' = ak_ID k" "ak_KeyType k' = ak_KeyType k" "ak_Role k' = ak_Role k"
    "ak_ProjectID k' = ak_ProjectID k" "ak_CreatedBy k' = ak_CreatedBy k" "ak_ExpiresAt k' = ak_ExpiresAt k"
  using assms by (cases k; cases k'; auto simp: older_def)+

lemma older_live: "older k k' \<Longrightarrow> key_live t k' \<Longrightarrow> key_live t k"
  using older_same(7) [of k k'] by (auto simp: key_live_def older_def)

lemma evolve_refl [simp]: "keys_evolve s s"
  using list_all2_refl [of older "ad_keys s"] by (force simp: keys_evolve_def)

lemma evolve_trans:
  assumes "keys_evolve a b" "keys_evolve b c"
  shows "keys_evolve a c"
proof -
  obtain ks new where b: "ad_keys b = ks @ new" "list_all2 older (ad_keys a) ks" using assms(1) by (auto simp: keys_evolve_def)
  obtain ks' new' where c: "ad_keys c = ks' @ new'" "list_all2 older (ad_keys b) ks'" using assms(2) by (auto simp: keys_evolve_def)
  obtain k1 k2 where k: "ks' = k1 @ k2" "list_all2 older ks k1" using c(2) b(1) by (auto simp: list_all2_append1)
  have "list_all2 older (ad_keys a) k1" using list_all2_trans [OF _ b(2) k(2)] older_trans by blast
  moreover have "c = a\<lparr>ad_keys := ad_keys c\<rparr>" using assms by (simp add: keys_evolve_def) (metis adb.surjective adb.update_convs(3))
  ultimately show ?thesis using assms c(1) k(1) by (auto simp: keys_evolve_def)
qed

lemma update_keys_evolve:
  assumes "\<And>k. P k \<Longrightarrow> older k (f k)"
  shows "keys_evolve s (snd (update_keys P f s))"
proof -
  have h: "map ak_KeyHash (map (\<lambda>k. if P k then f k else k) ks) = map ak_KeyHash ks" for ks
    using assms older_same(1) by auto
  have "list_all2 older ks (map (\<lambda>k. if P k then f k else k) ks)" for ks
    using assms by (auto simp: list_all2_conv_all_nth)
  then show ?thesis using h by (auto simp: keys_evolve_def update_keys_def unique_hashes_def simp del: map_map)
qed

lemma SoftDelete_evolve: "keys_evolve s (snd (SoftDeleteAPIKey i s))"
  unfolding SoftDeleteAPIKey_def by (rule update_keys_evolve) (simp add: older_def)

lemma LastUsed_evolve: "keys_evolve s (UpdateAPIKeyLastUsed now h s)"
  unfolding UpdateAPIKeyLastUsed_def by (rule update_keys_evolve) (simp add: older_def)

text \<open>A created key: what the row holds, and that only it is added.\<close>

definition key_added :: "timestamp \<Rightarrow> CreateAPIKeyParams \<Rightarrow> ApiKey \<Rightarrow> adb \<Rightarrow> adb \<Rightarrow> bool" where
  "key_added now a k s s' =
     (s' = s\<lparr>ad_keys := ad_keys s @ [k]\<rparr> \<and> key_constraints a s \<and> kp_KeyHash a \<notin> ak_KeyHash ` set (ad_keys s) \<and>
      ak_KeyHash k = kp_KeyHash a \<and> ak_KeyType k = kp_KeyType a \<and> ak_Role k = kp_Role a \<and>
      ak_ProjectID k = kp_ProjectID a \<and> ak_CreatedBy k = kp_CreatedBy a \<and> ak_IsActive k \<and> ak_ExpiresAt k = kp_ExpiresAt a)"

lemma CreateAPIKey_added: "CreateAPIKey now fresh a s = Inr (k, s') \<Longrightarrow> key_added now a k s s'"
  by (auto simp: CreateAPIKey_def key_added_def Let_def list_ex_iff split: if_splits)

lemma added_evolve: "key_added now a k s s' \<Longrightarrow> keys_evolve s s'"
  by (auto simp: key_added_def keys_evolve_def unique_hashes_def list_all2_refl)

lemma project_body_added:
  "project_key_body now fresh a ft s = Inr (k, s') \<Longrightarrow>
     key_added now a k s s' \<and> CountProjectKeys now (kp_ProjectID a) s < maxProjectKeys"
  by (auto simp: project_key_body_def query_Inr split: sum.splits option.splits if_splits dest: CreateAPIKey_added)

lemma personal_body_added:
  "personal_key_body now fresh a ft s = Inr (k, s') \<Longrightarrow>
     key_added now a k s s' \<and> CountPersonalKeys now (kp_CreatedBy a) s < maxPersonalKeys"
  by (auto simp: personal_key_body_def query_Inr split: sum.splits option.splits if_splits dest: CreateAPIKey_added)

lemma delete_body_evolve: "delete_key_body mine i ft s = Inr (x, s') \<Longrightarrow> keys_evolve s s'"
  using SoftDelete_evolve [of s i]
  by (auto simp: delete_key_body_def query_Inr split: sum.splits option.splits if_splits prod.splits)

text \<open>The counts of live keys: at the time of an operation or later, none goes over the limit because of it.\<close>

definition within_limits :: "timestamp \<Rightarrow> adb \<Rightarrow> adb \<Rightarrow> bool" where
  "within_limits now s s' =
     (\<forall>t i. now \<le> t \<longrightarrow> CountProjectKeys t i s' \<le> max (CountProjectKeys t i s) maxProjectKeys \<and>
        CountPersonalKeys t i s' \<le> max (CountPersonalKeys t i s) maxPersonalKeys)"

lemma live_later: "now \<le> t \<Longrightarrow> key_live t k \<Longrightarrow> key_live now k"
  by (auto simp: key_live_def split: option.splits)

lemma count_later:
  assumes "now \<le> t"
  shows "CountProjectKeys t i s \<le> CountProjectKeys now i s" "CountPersonalKeys t i s \<le> CountPersonalKeys now i s"
proof -
  have m: "length (filter P xs) \<le> length (filter Q xs)" if "\<And>x. P x \<Longrightarrow> Q x" for P Q and xs :: "ApiKey list"
    using that by (induction xs) auto
  show "CountProjectKeys t i s \<le> CountProjectKeys now i s" "CountPersonalKeys t i s \<le> CountPersonalKeys now i s"
    unfolding CountProjectKeys_def CountPersonalKeys_def
    by (rule m, use live_later [OF assms] in \<open>simp add: project_key_def personal_key_def\<close>)+
qed

lemma count_older:
  assumes "list_all2 older ks ks'"
  shows "length (filter (project_key t i) ks') \<le> length (filter (project_key t i) ks)"
    "length (filter (personal_key t i) ks') \<le> length (filter (personal_key t i) ks)"
  using assms
  by (induction rule: list_all2_induct)
     (auto simp: project_key_def personal_key_def older_same dest: older_live)

lemma within_refl [simp]: "within_limits now s s"
  by (simp add: within_limits_def)

lemma update_keys_within:
  assumes "\<And>k. P k \<Longrightarrow> older k (f k)"
  shows "within_limits now s (snd (update_keys P f s))"
proof -
  have "list_all2 older (ad_keys s) (map (\<lambda>k. if P k then f k else k) (ad_keys s))"
    using assms by (auto simp: list_all2_conv_all_nth)
  from count_older [OF this] show ?thesis
    by (auto simp: within_limits_def update_keys_def CountProjectKeys_def CountPersonalKeys_def intro: max.coboundedI1)
qed

lemma sql_eq_swap: "sql_eq a b \<Longrightarrow> sql_eq a c \<Longrightarrow> sql_eq x b \<longleftrightarrow> sql_eq x c"
  by (auto simp: sql_eq_def)

lemma project_added_within:
  assumes "key_added now a k s s'" "CountProjectKeys now (kp_ProjectID a) s < maxProjectKeys" "kp_KeyType a = KeyTypeProject"
  shows "within_limits now s s'"
proof -
  have "CountProjectKeys t i s' \<le> max (CountProjectKeys t i s) maxProjectKeys" if "now \<le> t" for t i
  proof (cases "project_key t i k")
    case True
    then have "sql_eq (kp_ProjectID a) i" using assms(1) by (simp add: key_added_def project_key_def)
    moreover from this have "sql_eq (kp_ProjectID a) (kp_ProjectID a)" by (simp add: sql_eq_def)
    ultimately have "project_key t i = project_key t (kp_ProjectID a)"
      using sql_eq_swap unfolding project_key_def by blast
    then show ?thesis using assms True count_later(1) [OF that, of "kp_ProjectID a" s]
      by (simp add: key_added_def CountProjectKeys_def)
  qed (use assms in \<open>simp add: key_added_def CountProjectKeys_def\<close>)
  moreover have "CountPersonalKeys t i s' = CountPersonalKeys t i s" for t i
    using assms by (simp add: key_added_def CountPersonalKeys_def personal_key_def KeyTypeProject_def)
  ultimately show ?thesis by (simp add: within_limits_def)
qed

lemma personal_added_within:
  assumes "key_added now a k s s'" "CountPersonalKeys now (kp_CreatedBy a) s < maxPersonalKeys" "kp_KeyType a = KeyTypePersonal"
  shows "within_limits now s s'"
proof -
  have "CountPersonalKeys t i s' \<le> max (CountPersonalKeys t i s) maxPersonalKeys" if "now \<le> t" for t i
  proof (cases "personal_key t i k")
    case True
    then have "sql_eq (kp_CreatedBy a) i" using assms(1) by (simp add: key_added_def personal_key_def)
    moreover from this have "sql_eq (kp_CreatedBy a) (kp_CreatedBy a)" by (simp add: sql_eq_def)
    ultimately have "personal_key t i = personal_key t (kp_CreatedBy a)"
      using sql_eq_swap unfolding personal_key_def by blast
    then show ?thesis using assms True count_later(2) [OF that, of "kp_CreatedBy a" s]
      by (simp add: key_added_def CountPersonalKeys_def)
  qed (use assms in \<open>simp add: key_added_def CountPersonalKeys_def\<close>)
  moreover have "CountProjectKeys t i s' = CountProjectKeys t i s" for t i
    using assms by (simp add: key_added_def CountProjectKeys_def project_key_def KeyTypePersonal_def)
  ultimately show ?thesis by (simp add: within_limits_def)
qed

definition keys_ok :: "timestamp \<Rightarrow> adb \<Rightarrow> adb \<Rightarrow> bool" where
  "keys_ok now s s' = (keys_evolve s s' \<and> within_limits now s s')"

lemma keys_ok_refl [simp]: "keys_ok now s s"
  by (simp add: keys_ok_def)

lemma delete_body_ok: "delete_key_body mine i ft s = Inr (x, s') \<Longrightarrow> keys_ok now s s'"
  using SoftDelete_evolve [of s i]
    update_keys_within [where P = "\<lambda>k. sql_eq (ak_ID k) i \<and> ak_IsActive k" and f = "\<lambda>k. k\<lparr>ak_IsActive := False\<rparr>" and s = s]
  by (auto simp: keys_ok_def delete_key_body_def query_Inr SoftDeleteAPIKey_def older_def
      split: sum.splits option.splits if_splits prod.splits)

interpretation del_tx: tx_body "delete_key_body mine i" "keys_ok now" for mine i now
  by unfold_locales (auto intro: delete_body_ok)

interpretation proj_tx: tx_body "project_key_body now fresh (a\<lparr>kp_KeyType := KeyTypeProject\<rparr>)" "keys_ok now" for now fresh a
  by unfold_locales
     (auto simp: keys_ok_def dest!: project_body_added intro: added_evolve project_added_within)

interpretation pers_tx: tx_body "personal_key_body now fresh (a\<lparr>kp_KeyType := KeyTypePersonal\<rparr>)" "keys_ok now" for now fresh a
  by unfold_locales
     (auto simp: keys_ok_def dest!: personal_body_added intro: added_evolve personal_added_within)

text \<open>Histories: calls of the handlers, and the time stamps the identity check writes.\<close>

datatype key_op =
    KCreateProject kenv "User option" string "AppError + createKeyRequest"
  | KDeleteProject kenv string string
  | KCreatePersonal kenv "User option" "AppError + createKeyRequest"
  | KDeletePersonal kenv "User option" string
  | KUsed timestamp string

fun key_step :: "key_op \<Rightarrow> adb \<Rightarrow> adb" where
  "key_step (KCreateProject v u p b) s = snd (HandleCreateProjectKey v u p b s)"
| "key_step (KDeleteProject v p k) s = snd (HandleDeleteProjectKey v p k s)"
| "key_step (KCreatePersonal v u b) s = snd (HandleCreatePersonalKey v u b s)"
| "key_step (KDeletePersonal v u k) s = snd (HandleDeletePersonalKey v u k s)"
| "key_step (KUsed now h) s = UpdateAPIKeyLastUsed now h s"

fun key_time :: "key_op \<Rightarrow> timestamp" where
  "key_time (KCreateProject v u p b) = ke_now v"
| "key_time (KDeleteProject v p k) = ke_now v"
| "key_time (KCreatePersonal v u b) = ke_now v"
| "key_time (KDeletePersonal v u k) = ke_now v"
| "key_time (KUsed now h) = now"

lemma answer_snd [simp]: "snd (answer x) = snd x"
  by (auto simp: answer_def split: prod.splits sum.splits)

lemma created_snd [simp]: "snd (created p x) = snd x"
  by (auto simp: created_def split: prod.splits sum.splits)

lemma CreateProjectKey_ok: "keys_ok (ke_now v) s (snd (CreateProjectKey v req c p s))"
proof -
  have "keys_ok (ke_now v) s (snd (WithTx (project_key_body (ke_now v) (ke_fresh v)
      \<lparr>kp_KeyType = KeyTypeProject, kp_KeyPrefix = x1, kp_KeyHash = x2, kp_Name = x3, kp_Role = x4, kp_ProjectID = x5,
       kp_CreatedBy = x6, kp_ExpiresAt = x7\<rparr>) (ke_fts v) s))" for x1 x2 x3 x4 x5 x6 x7
    using proj_tx.WithTx_R_snd [of "ke_now v" s "ke_fresh v" "\<lparr>kp_KeyType = [], kp_KeyPrefix = x1, kp_KeyHash = x2,
      kp_Name = x3, kp_Role = x4, kp_ProjectID = x5, kp_CreatedBy = x6, kp_ExpiresAt = x7\<rparr>" "ke_fts v"] by simp
  then show ?thesis by (simp add: CreateProjectKey_def Let_def split: option.split)
qed

lemma CreatePersonalKey_ok: "keys_ok (ke_now v) s (snd (CreatePersonalKey v req u s))"
proof -
  have "keys_ok (ke_now v) s (snd (WithTx (personal_key_body (ke_now v) (ke_fresh v)
      \<lparr>kp_KeyType = KeyTypePersonal, kp_KeyPrefix = x1, kp_KeyHash = x2, kp_Name = x3, kp_Role = x4, kp_ProjectID = x5,
       kp_CreatedBy = x6, kp_ExpiresAt = x7\<rparr>) (ke_fts v) s))" for x1 x2 x3 x4 x5 x6 x7
    using pers_tx.WithTx_R_snd [of "ke_now v" s "ke_fresh v" "\<lparr>kp_KeyType = [], kp_KeyPrefix = x1, kp_KeyHash = x2,
      kp_Name = x3, kp_Role = x4, kp_ProjectID = x5, kp_CreatedBy = x6, kp_ExpiresAt = x7\<rparr>" "ke_fts v"] by simp
  then show ?thesis by (simp add: CreatePersonalKey_def Let_def split: option.split)
qed

lemma DeleteProjectKey_ok: "keys_ok now s (snd (DeleteProjectKey v k p s))"
  by (simp add: DeleteProjectKey_def del_tx.WithTx_R_snd split: option.split)

lemma DeletePersonalKey_ok: "keys_ok now s (snd (DeletePersonalKey v k u s))"
  by (simp add: DeletePersonalKey_def del_tx.WithTx_R_snd split: option.split)

lemma LastUsed_ok: "keys_ok now s (UpdateAPIKeyLastUsed t h s)"
  using LastUsed_evolve update_keys_within
  by (auto simp: keys_ok_def UpdateAPIKeyLastUsed_def older_def)

lemmas service_ok = CreateProjectKey_ok CreatePersonalKey_ok DeleteProjectKey_ok DeletePersonalKey_ok LastUsed_ok

lemma key_step_ok: "keys_ok (key_time op) s (key_step op s)"
  by (cases op)
     (simp_all add: HandleCreateProjectKey_def HandleDeleteProjectKey_def HandleCreatePersonalKey_def
        HandleDeletePersonalKey_def service_ok split: option.split prod.split sum.split)

lemma history_evolve: "keys_evolve s (fold key_step ops s)"
proof (induction ops arbitrary: s)
  case (Cons op ops)
  then show ?case using key_step_ok [of op s] evolve_trans by (fastforce simp: keys_ok_def)
qed simp

lemma find_None: "\<forall>x \<in> set xs. \<not> P x \<Longrightarrow> List.find P xs = None"
  by (induction xs) auto

text \<open>C24: A revoked key is refused for ever: no later operation makes a key with its hash usable again, for the
  identity check or for a project.\<close>

theorem revoked_key_stays_revoked:
  assumes "unique_hashes s" "k \<in> set (ad_keys s)" "\<not> ak_IsActive k"
  shows "GetAPIKeyByHash t (ak_KeyHash k) (fold key_step ops s) = None \<and>
    CheckAPIKeyProjectAccess t (ak_KeyHash k) p (fold key_step ops s) = None"
proof -
  let ?s = "fold key_step ops s"
  obtain ks new where k: "ad_keys ?s = ks @ new" "list_all2 older (ad_keys s) ks" and d: "distinct (map ak_KeyHash (ad_keys ?s))"
    using history_evolve [of s ops] assms(1) by (auto simp: keys_evolve_def unique_hashes_def)
  obtain k' where k': "k' \<in> set ks" "older k k'"
    using assms(2) k(2) by (metis in_set_conv_nth list_all2_conv_all_nth)
  have "x = k'" if "x \<in> set (ad_keys ?s)" "ak_KeyHash x = ak_KeyHash k" for x
  proof -
    have "k' \<in> set (ad_keys ?s)" using k'(1) k(1) by simp
    moreover have "ak_KeyHash x = ak_KeyHash k'" using that(2) older_same(1) [OF k'(2)] by simp
    ultimately show ?thesis using d that(1) by (metis distinct_map inj_onD)
  qed
  then have dead: "\<not> key_live t x" if "x \<in> set (ad_keys ?s)" "ak_KeyHash x = ak_KeyHash k" for x
    using that older_live [OF k'(2), of t] assms(3) by (auto simp: key_live_def)
  then have "GetAPIKeyByHash t (ak_KeyHash k) ?s = None"
    unfolding GetAPIKeyByHash_def by (intro find_None) blast
  moreover have "List.find (\<lambda>(h', _, p'). h' = ak_KeyHash k \<and> sql_eq p' p) (api_key_project_access t ?s) = None"
    using dead by (intro find_None) (auto simp: api_key_project_access_def)
  ultimately show ?thesis by (simp add: CheckAPIKeyProjectAccess_def)
qed

text \<open>C25: The limits hold at every moment: if no project and no user has more live keys than allowed at the start,
  then none has at any later time, in any history of operations whose times do not go back.\<close>

theorem key_limits_hold:
  assumes "sorted (t0 # map key_time ops @ [t])"
    and "\<forall>i. CountProjectKeys t0 i s \<le> maxProjectKeys \<and> CountPersonalKeys t0 i s \<le> maxPersonalKeys"
  shows "CountProjectKeys t i (fold key_step ops s) \<le> maxProjectKeys \<and>
    CountPersonalKeys t i (fold key_step ops s) \<le> maxPersonalKeys"
  using assms
proof (induction ops arbitrary: s t0)
  case Nil
  then show ?case using count_later [of t0 t] by (fastforce intro: order_trans)
next
  case (Cons op ops)
  have le: "t0 \<le> key_time op" using Cons.prems(1) by simp
  have "CountProjectKeys (key_time op) i (key_step op s) \<le> max (CountProjectKeys (key_time op) i s) maxProjectKeys \<and>
      CountPersonalKeys (key_time op) i (key_step op s) \<le> max (CountPersonalKeys (key_time op) i s) maxPersonalKeys" for i
    using key_step_ok [of op s] by (simp add: keys_ok_def within_limits_def)
  then have "\<forall>i. CountProjectKeys (key_time op) i (key_step op s) \<le> maxProjectKeys \<and>
      CountPersonalKeys (key_time op) i (key_step op s) \<le> maxPersonalKeys"
    using Cons.prems(2) count_later [OF le] by (metis max.absorb2 order_trans)
  with Cons.IH [of "key_time op" "key_step op s"] Cons.prems(1) show ?case by simp
qed

subsection \<open>Examples\<close>

text \<open>Project 1 with the active owner 1, a live personal key of the owner and a revoked project key.\<close>

definition ex_key :: "nat \<Rightarrow> string \<Rightarrow> string \<Rightarrow> bool \<Rightarrow> ApiKey" where
  "ex_key n typ h active =
     \<lparr>ak_ID = ex_uuid n, ak_KeyType = typ, ak_KeyPrefix = [], ak_KeyHash = h, ak_Name = [], ak_Role = ''write'',
      ak_ProjectID = (if typ = ''project'' then ex_uuid 1 else null_UUID), ak_IsActive = active, ak_ExpiresAt = None,
      ak_LastUsedAt = None, ak_CreatedBy = ex_uuid 1, ak_CreatedAt = Some 0\<rparr>"

definition ex_adb :: "string \<Rightarrow> adb" where
  "ex_adb h = \<lparr>ad_core = ex_db, ad_sessions = [],
     ad_keys = [ex_key 3 ''personal'' h True, ex_key 4 ''project'' ''old'' False], ad_roles = []\<rparr>"

theorem revoked_key_stays_revoked_witness:
  "GetAPIKeyByHash 9 ''old'' (fold key_step [KUsed 5 ''old'', KUsed 6 ''new''] (ex_adb ''new'')) = None"
  using revoked_key_stays_revoked [of "ex_adb ''new''" "ex_key 4 ''project'' ''old'' False" 9 "[KUsed 5 ''old'', KUsed 6 ''new'']"]
  by (simp add: ex_adb_def ex_key_def unique_hashes_def)

lemma ex_counts: "CountProjectKeys t i (ex_adb h) = 0" "CountPersonalKeys t i (ex_adb h) \<le> 1"
  by (simp_all add: ex_adb_def ex_key_def CountProjectKeys_def CountPersonalKeys_def project_key_def personal_key_def key_live_def)

theorem key_limits_hold_witness:
  "CountPersonalKeys 9 (ex_uuid 1) (fold key_step [KUsed 5 ''new''] (ex_adb ''new'')) \<le> maxPersonalKeys"
proof -
  have "sorted ((0 :: int) # map key_time [KUsed 5 ''new''] @ [9])" by simp
  moreover have "CountPersonalKeys 0 i (ex_adb ''new'') \<le> maxPersonalKeys" for i
    using ex_counts(2) [of 0 i "''new''"] by (simp add: maxPersonalKeys_def)
  ultimately show ?thesis
    using key_limits_hold [of 0 "[KUsed 5 ''new'']" 9 "ex_adb ''new''" "ex_uuid 1"] by (simp add: ex_counts(1))
qed

end
