(* ===== verification/Api_Access.thy ===== *)
theory Api_Access
  imports Api_Keys
begin

text \<open>
  Who may call what: the resolution of the caller's identity (\<^verbatim>\<open>src/backend-api/internal/middleware/identity.go\<close>),
  the guards \<^verbatim>\<open>RequireUser\<close>, \<^verbatim>\<open>RequirePlatformAdmin\<close> and \<^verbatim>\<open>RequireProjectRole\<close> (\<^verbatim>\<open>requireuser.go\<close>, \<^verbatim>\<open>platformadmin.go\<close>,
  \<^verbatim>\<open>projectrole.go\<close>), the values a request context carries (\<^verbatim>\<open>auth/session.go\<close>) and the table of routes
  with their guards (\<^verbatim>\<open>app/routes.go\<close>).

  A guard answers with an error or with the context for the next handler. \<open>ae_DB\<close> says whether the database
  handle is there (it is nil when the service runs without a database).
\<close>

section \<open>Requests and contexts\<close>

record request =
  rq_Authorization :: string
  rq_Cookie :: "string \<Rightarrow> string option"
  rq_Param :: "string \<Rightarrow> string"

record reqctx =
  cx_user :: "User option"
  cx_membership :: "ProjectMember option"
  cx_apikey :: "APIKeyIdentity option"
  cx_roles :: "string list option"

definition empty_ctx :: reqctx where
  "empty_ctx = \<lparr>cx_user = None, cx_membership = None, cx_apikey = None, cx_roles = None\<rparr>"

definition IsPlatformAdmin :: "reqctx \<Rightarrow> bool" where
  "IsPlatformAdmin c = (case cx_roles c of None \<Rightarrow> False | Some rs \<Rightarrow> list_ex (\<lambda>r. r = PlatformRoleAdmin) rs)"

record aenv =
  ae_DB :: bool
  ae_now :: timestamp
  ae_ft :: faults
  ae_scan :: "string \<Rightarrow> UUID option"
  ae_CookieName :: string

section \<open>Identity\<close>

definition apiKeyPrefix :: string where
  "apiKeyPrefix = ''mj_''"

text \<open>The third component says whether the session cookie is cleared. The update of \<^verbatim>\<open>last_used_at\<close> runs in the
  background and its failure is only logged.\<close>

definition IdentityResolver :: "aenv \<Rightarrow> request \<Rightarrow> adb \<Rightarrow> (AppError + reqctx \<times> bool) \<times> adb" where
  "IdentityResolver e r s =
     (if \<not> ae_DB e then (Inr (empty_ctx, False), s)
      else if HasBearerScheme (rq_Authorization r) then
        (let rawToken = ExtractBearerToken (rq_Authorization r)
         in if rawToken = [] then (Inl ErrUnauthorized, s)
            else if HasPrefix rawToken apiKeyPrefix then
              (let keyHash = HashToken rawToken
               in case query (ae_ft e) ''GetAPIKeyByHash'' (Inr (GetAPIKeyByHash (ae_now e) keyHash s)) of
                    Inl _ \<Rightarrow> (Inl ErrInternal, s)
                  | Inr None \<Rightarrow> (Inl ErrUnauthorized, s)
                  | Inr (Some keyRow) \<Rightarrow>
                      (Inr (empty_ctx\<lparr>cx_apikey := Some \<lparr>aki_KeyHash = keyHash, aki_KeyType = ak_KeyType keyRow,
                                                    aki_Role = ak_Role keyRow\<rparr>\<rparr>, False),
                       snd (exec_query (ae_ft e) ''UpdateAPIKeyLastUsed'' (Inr ((), UpdateAPIKeyLastUsed (ae_now e) keyHash s)) s)))
            else
              (case query (ae_ft e) ''GetSessionByTokenHash'' (Inr (GetSessionByTokenHash (ae_now e) (HashToken rawToken) s)) of
                 Inl _ \<Rightarrow> (Inl ErrInternal, s)
               | Inr None \<Rightarrow> (Inl ErrUnauthorized, s)
               | Inr (Some row) \<Rightarrow> (Inr (empty_ctx\<lparr>cx_user := Some (SessionRowToUser row)\<rparr>, False), s)))
      else case rq_Cookie r (ae_CookieName e) of
        None \<Rightarrow> (Inr (empty_ctx, False), s)
      | Some v \<Rightarrow>
          if v = [] then (Inr (empty_ctx, False), s)
          else case query (ae_ft e) ''GetSessionByTokenHash'' (Inr (GetSessionByTokenHash (ae_now e) (HashToken v) s)) of
            Inl _ \<Rightarrow> (Inl ErrInternal, s)
          | Inr None \<Rightarrow> (Inr (empty_ctx, True), s)
          | Inr (Some row) \<Rightarrow> (Inr (empty_ctx\<lparr>cx_user := Some (SessionRowToUser row)\<rparr>, False), s))"

section \<open>Guards\<close>

definition RequireUser :: "reqctx \<Rightarrow> AppError + reqctx" where
  "RequireUser c = (case cx_user c of None \<Rightarrow> Inl ErrUnauthorized | Some _ \<Rightarrow> Inr c)"

definition RequirePlatformAdmin :: "aenv \<Rightarrow> adb \<Rightarrow> reqctx \<Rightarrow> AppError + reqctx" where
  "RequirePlatformAdmin e s c =
     (case cx_user c of
        None \<Rightarrow> Inl ErrUnauthorized
      | Some user \<Rightarrow>
          if \<not> ae_DB e then Inl ErrInternal
          else case ae_scan e (usr_ID user) of
            None \<Rightarrow> Inl ErrInternal
          | Some pgUserID \<Rightarrow>
              (case query (ae_ft e) ''HasPlatformRole'' (Inr (HasPlatformRole pgUserID PlatformRoleAdmin s)) of
                 Inl _ \<Rightarrow> Inl ErrInternal
               | Inr hasRole \<Rightarrow>
                   if \<not> hasRole then Inl (Forbidden ''platform admin role required'')
                   else case query (ae_ft e) ''GetUserPlatformRoles'' (Inr (GetUserPlatformRoles pgUserID s)) of
                     Inl _ \<Rightarrow> Inl ErrInternal
                   | Inr roles \<Rightarrow> Inr (c\<lparr>cx_roles := Some roles\<rparr>)))"

definition synthetic :: "string \<Rightarrow> string \<Rightarrow> string \<Rightarrow> ProjectMember" where
  "synthetic projectID userID role =
     \<lparr>mem_ID = [], mem_ProjectID = projectID, mem_UserID = userID, mem_Role = role, mem_CreatedAt = 0, mem_UpdatedAt = 0\<rparr>"

definition existing_project :: "aenv \<Rightarrow> UUID \<Rightarrow> adb \<Rightarrow> reqctx \<Rightarrow> AppError + reqctx" where
  "existing_project e p s c =
     (case query (ae_ft e) ''GetProject'' (Inr (GetProject p s)) of
        Inl _ \<Rightarrow> Inl ErrInternal
      | Inr None \<Rightarrow> Inl (NotFound ''project not found'')
      | Inr (Some _) \<Rightarrow> Inr c)"

definition user_access :: "aenv \<Rightarrow> string \<Rightarrow> string \<Rightarrow> UUID \<Rightarrow> User \<Rightarrow> adb \<Rightarrow> reqctx \<Rightarrow> AppError + reqctx" where
  "user_access e minRole projectID pgProjectID user s c =
     (case ae_scan e (usr_ID user) of
        None \<Rightarrow> Inl ErrInternal
      | Some pgUserID \<Rightarrow>
          if IsPlatformAdmin c
          then existing_project e pgProjectID s (c\<lparr>cx_membership := Some (synthetic projectID (usr_ID user) RoleOwner)\<rparr>)
          else if cx_roles c = None \<and>
               query (ae_ft e) ''HasPlatformRole'' (Inr (HasPlatformRole pgUserID PlatformRoleAdmin s)) = Inr True
          then existing_project e pgProjectID s
                 (c\<lparr>cx_roles := Some [PlatformRoleAdmin], cx_membership := Some (synthetic projectID (usr_ID user) RoleOwner)\<rparr>)
          else case query (ae_ft e) ''GetProjectMember'' (Inr (GetProjectMember pgProjectID pgUserID s)) of
            Inl _ \<Rightarrow> Inl ErrInternal
          | Inr None \<Rightarrow> Inl (NotFound ''project not found'')
          | Inr (Some member) \<Rightarrow>
              if \<not> RoleSufficient (pm_Role member) minRole then Inl (Forbidden ''insufficient project role'')
              else Inr (c\<lparr>cx_membership := Some (DBMemberToDomain member)\<rparr>))"

definition key_access :: "aenv \<Rightarrow> string \<Rightarrow> string \<Rightarrow> UUID \<Rightarrow> APIKeyIdentity \<Rightarrow> adb \<Rightarrow> reqctx \<Rightarrow> AppError + reqctx" where
  "key_access e minRole projectID pgProjectID apiKey s c =
     (case MembershipRoleToKeyRole minRole of
        None \<Rightarrow> Inl (Forbidden ''api keys cannot access owner-level routes'')
      | Some minKeyRole \<Rightarrow>
          (case query (ae_ft e) ''CheckAPIKeyProjectAccess''
                  (Inr (CheckAPIKeyProjectAccess (ae_now e) (aki_KeyHash apiKey) pgProjectID s)) of
             Inl _ \<Rightarrow> Inl ErrInternal
           | Inr None \<Rightarrow> Inl (NotFound ''project not found'')
           | Inr (Some effectiveRole) \<Rightarrow>
               if \<not> KeyRoleSufficient effectiveRole minKeyRole then Inl (Forbidden ''insufficient api key role'')
               else Inr (c\<lparr>cx_membership := Some (synthetic projectID [] effectiveRole)\<rparr>)))"

text \<open>\<open>None\<close>: the panic, when the routes are registered, on an unknown role.\<close>

definition RequireProjectRole :: "aenv \<Rightarrow> string \<Rightarrow> (request \<Rightarrow> adb \<Rightarrow> reqctx \<Rightarrow> AppError + reqctx) option" where
  "RequireProjectRole e minRole =
     (if \<not> RoleKnown minRole then None
      else Some (\<lambda>r s c.
        if cx_user c = None \<and> cx_apikey c = None then Inl ErrUnauthorized
        else if \<not> ae_DB e then Inl ErrInternal
        else case ae_scan e (rq_Param r ''projectID'') of
          None \<Rightarrow> Inl (NotFound ''project not found'')
        | Some pgProjectID \<Rightarrow>
            (case cx_user c of
               Some user \<Rightarrow> user_access e minRole (rq_Param r ''projectID'') pgProjectID user s c
             | None \<Rightarrow>
                 (case cx_apikey c of
                    None \<Rightarrow> Inl ErrUnauthorized
                  | Some apiKey \<Rightarrow> key_access e minRole (rq_Param r ''projectID'') pgProjectID apiKey s c))))"

section \<open>Routes\<close>

datatype guard = GUser | GPlatformAdmin | GProjectRole string

record route =
  rt_Method :: string
  rt_Pattern :: string
  rt_Guards :: "guard list"
  rt_Handler :: string

definition guarded :: "string \<Rightarrow> guard list \<Rightarrow> (string \<times> string \<times> string) list \<Rightarrow> route list" where
  "guarded prefx gs rs = map (\<lambda>(m, p, h). \<lparr>rt_Method = m, rt_Pattern = prefx @ p, rt_Guards = gs, rt_Handler = h\<rparr>) rs"

definition public_routes :: "route list" where
  "public_routes =
     guarded ''/v1'' []
       [(''POST'', ''/users'', ''user.HandleRegister''),
        (''POST'', ''/auth/login'', ''auth.HandleLogin'')]"

definition user_routes :: "route list" where
  "user_routes =
     guarded ''/v1'' [GUser]
       [(''POST'', ''/auth/logout'', ''auth.HandleLogout''),
        (''GET'', ''/users/me'', ''user.HandleGetMe''),
        (''PATCH'', ''/users/me'', ''user.HandleUpdateMe''),
        (''GET'', ''/users/me/projects'', ''user.HandleMyProjects''),
        (''GET'', ''/users/lookup'', ''user.HandleLookupUser''),
        (''GET'', ''/projects'', ''project.HandleList''),
        (''POST'', ''/projects'', ''project.HandleCreate''),
        (''GET'', ''/ssh-keys'', ''sshKey.HandleList''),
        (''POST'', ''/ssh-keys'', ''sshKey.HandleCreate''),
        (''GET'', ''/ssh-keys/{keyID}/'', ''sshKey.HandleGet''),
        (''GET'', ''/ssh-keys/{keyID}/projects'', ''sshKey.HandleListProjects''),
        (''POST'', ''/ssh-keys/{keyID}/retire'', ''sshKey.HandleRetire''),
        (''GET'', ''/users/me/keys'', ''apiKey.HandleListPersonalKeys''),
        (''POST'', ''/users/me/keys'', ''apiKey.HandleCreatePersonalKey''),
        (''DELETE'', ''/users/me/keys/{keyID}'', ''apiKey.HandleDeletePersonalKey''),
        (''GET'', ''/settings/providers'', ''provider.HandleListProviders''),
        (''GET'', ''/dashboard/summary'', ''dashboard.HandleSummary''),
        (''GET'', ''/events/stream'', ''event.HandleStream'')]"

definition platform_routes :: "route list" where
  "platform_routes =
     guarded ''/v1/platform-management'' [GUser, GPlatformAdmin]
       [(''GET'', ''/users'', ''admin.HandleListUsers''),
        (''GET'', ''/users/{userId}'', ''admin.HandleGetUser''),
        (''PATCH'', ''/users/{userId}'', ''admin.HandleUpdateUser''),
        (''POST'', ''/users/{userId}/deactivate'', ''admin.HandleDeactivateUser''),
        (''POST'', ''/users/{userId}/activate'', ''admin.HandleActivateUser''),
        (''GET'', ''/platform-roles'', ''admin.HandleListPlatformRoles''),
        (''POST'', ''/platform-roles'', ''admin.HandleGrantPlatformRole''),
        (''DELETE'', ''/platform-roles/{userId}/{role}'', ''admin.HandleRevokePlatformRole''),
        (''GET'', ''/settings/embedding/'', ''embedding.HandleGlobalGet''),
        (''PUT'', ''/settings/embedding/'', ''embedding.HandleGlobalUpdate''),
        (''POST'', ''/settings/embedding/'', ''embedding.HandleCreateGlobalConfig''),
        (''POST'', ''/settings/embedding/test'', ''embedding.HandleGlobalTest''),
        (''PATCH'', ''/settings/embedding/{configId}/'', ''embedding.HandleUpdateGlobalConfigByID''),
        (''DELETE'', ''/settings/embedding/{configId}/'', ''embedding.HandleDeleteGlobalConfig''),
        (''POST'', ''/settings/embedding/{configId}/promote'', ''embedding.HandlePromoteGlobalConfigToDefault''),
        (''POST'', ''/settings/embedding/{configId}/test'', ''embedding.HandleTestGlobalConfigByID''),
        (''GET'', ''/settings/llm/'', ''llm.HandleGlobalGet''),
        (''PUT'', ''/settings/llm/'', ''llm.HandleGlobalUpdate''),
        (''POST'', ''/settings/llm/'', ''llm.HandleCreateGlobalConfig''),
        (''POST'', ''/settings/llm/test'', ''llm.HandleGlobalTest''),
        (''PATCH'', ''/settings/llm/{configId}/'', ''llm.HandleUpdateGlobalConfigByID''),
        (''DELETE'', ''/settings/llm/{configId}/'', ''llm.HandleDeleteGlobalConfig''),
        (''POST'', ''/settings/llm/{configId}/promote'', ''llm.HandlePromoteGlobalConfigToDefault''),
        (''POST'', ''/settings/llm/{configId}/test'', ''llm.HandleTestGlobalConfigByID'')]"

definition project_routes :: "route list" where
  "project_routes =
     guarded ''/v1/projects/{projectID}'' [GProjectRole RoleMember]
       [(''GET'', ''/'', ''project.HandleGet''),
        (''GET'', ''/ssh-key'', ''project.HandleGetSSHKey''),
        (''GET'', ''/members'', ''membership.HandleList''),
        (''GET'', ''/logs/stream'', ''event.HandleLogStream''),
        (''GET'', ''/jobs'', ''project.HandleListJobs''),
        (''POST'', ''/query/search'', ''project.HandleSearch''),
        (''GET'', ''/symbols'', ''project.HandleListSymbols''),
        (''GET'', ''/symbols/{symbolID}'', ''project.HandleGetSymbol''),
        (''GET'', ''/dependencies'', ''project.HandleDependencies''),
        (''GET'', ''/dependencies/graph'', ''project.HandleDependencyGraph''),
        (''GET'', ''/structure'', ''project.HandleStructure''),
        (''GET'', ''/files/context'', ''project.HandleFileContext''),
        (''GET'', ''/files/dependencies'', ''project.HandleFileDependencies''),
        (''GET'', ''/files/exports'', ''project.HandleFileExports''),
        (''GET'', ''/files/references'', ''project.HandleFileReferences''),
        (''GET'', ''/files/jsx-usages'', ''project.HandleFileJsxUsages''),
        (''GET'', ''/files/network-calls'', ''project.HandleFileNetworkCalls''),
        (''GET'', ''/files/history'', ''project.HandleFileHistory''),
        (''GET'', ''/conventions'', ''project.HandleConventions''),
        (''GET'', ''/settings/embedding/available'', ''embedding.HandleProjectAvailable''),
        (''GET'', ''/settings/embedding'', ''embedding.HandleProjectGet''),
        (''GET'', ''/settings/embedding/resolved'', ''embedding.HandleProjectResolved''),
        (''GET'', ''/settings/llm/available'', ''llm.HandleProjectAvailable''),
        (''GET'', ''/settings/llm'', ''llm.HandleProjectGet''),
        (''GET'', ''/settings/llm/resolved'', ''llm.HandleProjectResolved''),
        (''GET'', ''/commits'', ''commits.HandleList''),
        (''GET'', ''/commits/{commitHash}'', ''commits.HandleGet''),
        (''GET'', ''/commits/{commitHash}/diffs'', ''commits.HandleDiffs'')] @
     guarded ''/v1/projects/{projectID}'' [GProjectRole RoleAdmin]
       [(''POST'', ''/index'', ''project.HandleIndex'')] @
     guarded ''/v1/projects/{projectID}'' [GUser, GProjectRole RoleMember]
       [(''DELETE'', ''/members/{userID}'', ''membership.HandleRemove'')] @
     guarded ''/v1/projects/{projectID}'' [GUser, GProjectRole RoleAdmin]
       [(''PATCH'', ''/'', ''project.HandleUpdate''),
        (''PUT'', ''/ssh-key'', ''project.HandleSetSSHKey''),
        (''DELETE'', ''/ssh-key'', ''project.HandleRemoveSSHKey''),
        (''POST'', ''/members'', ''membership.HandleAdd''),
        (''PATCH'', ''/members/{userID}'', ''membership.HandleUpdate''),
        (''PUT'', ''/settings/embedding'', ''embedding.HandleProjectUpdate''),
        (''DELETE'', ''/settings/embedding'', ''embedding.HandleProjectDelete''),
        (''POST'', ''/settings/embedding/test'', ''embedding.HandleProjectTest''),
        (''PUT'', ''/settings/llm'', ''llm.HandleProjectUpdate''),
        (''DELETE'', ''/settings/llm'', ''llm.HandleProjectDelete''),
        (''POST'', ''/settings/llm/test'', ''llm.HandleProjectTest''),
        (''GET'', ''/keys'', ''apiKey.HandleListProjectKeys''),
        (''POST'', ''/keys'', ''apiKey.HandleCreateProjectKey''),
        (''DELETE'', ''/keys/{keyID}'', ''apiKey.HandleDeleteProjectKey'')] @
     guarded ''/v1/projects/{projectID}'' [GUser, GProjectRole RoleOwner]
       [(''DELETE'', ''/'', ''project.HandleDelete'')]"

text \<open>The route of the worker list exists only when the service has a Redis connection.\<close>

definition worker_routes :: "bool \<Rightarrow> route list" where
  "worker_routes hasWorker =
     (if hasWorker then guarded ''/v1/platform-management'' [GUser, GPlatformAdmin] [(''GET'', ''/workers'', ''worker.HandleListWorkers'')] else [])"

definition v1_routes :: "bool \<Rightarrow> route list" where
  "v1_routes hasWorker = public_routes @ user_routes @ platform_routes @ worker_routes hasWorker @ project_routes"

text \<open>A request passes the identity check and then the guards of its route, in order.\<close>

definition run_guard :: "aenv \<Rightarrow> request \<Rightarrow> adb \<Rightarrow> guard \<Rightarrow> reqctx \<Rightarrow> AppError + reqctx" where
  "run_guard e r s g c =
     (case g of
        GUser \<Rightarrow> RequireUser c
      | GPlatformAdmin \<Rightarrow> RequirePlatformAdmin e s c
      | GProjectRole minRole \<Rightarrow>
          (case RequireProjectRole e minRole of None \<Rightarrow> Inl ErrInternal | Some f \<Rightarrow> f r s c))"

fun chain :: "('k \<Rightarrow> 'c \<Rightarrow> AppError + 'c) \<Rightarrow> 'k list \<Rightarrow> 'c \<Rightarrow> AppError + 'c" where
  "chain g [] c = Inr c"
| "chain g (k # ks) c = (case g k c of Inl x \<Rightarrow> Inl x | Inr c' \<Rightarrow> chain g ks c')"

definition serve :: "aenv \<Rightarrow> request \<Rightarrow> route \<Rightarrow> adb \<Rightarrow> (AppError + reqctx) \<times> adb" where
  "serve e r rt s =
     (case IdentityResolver e r s of
        (Inl x, s') \<Rightarrow> (Inl x, s')
      | (Inr (c, _), s') \<Rightarrow> (chain (run_guard e r s') (rt_Guards rt) c, s'))"

section \<open>Chains of guards\<close>

text \<open>What a chain relies on: an invariant of the contexts that every guard keeps. Then the context that
  reaches the handler has it, and every guard of the chain has let a context with it pass.\<close>

locale guards =
  fixes g :: "'k \<Rightarrow> 'c \<Rightarrow> AppError + 'c" and I :: "'c \<Rightarrow> bool"
  assumes keeps: "I c \<Longrightarrow> g k c = Inr c' \<Longrightarrow> I c'"
begin

lemma chain_inv: "I c \<Longrightarrow> chain g ks c = Inr c' \<Longrightarrow> I c'"
  by (induction ks arbitrary: c) (auto split: sum.splits dest: keeps)

lemma chain_passes: "I c \<Longrightarrow> chain g ks c = Inr c' \<Longrightarrow> k \<in> set ks \<Longrightarrow> \<exists>c1 c2. I c1 \<and> g k c1 = Inr c2"
  by (induction ks arbitrary: c) (auto split: sum.splits dest: keeps)

end

text \<open>The identity is that of the first context, and platform roles in the context are those of the database.\<close>

definition sound_ctx :: "aenv \<Rightarrow> adb \<Rightarrow> reqctx \<Rightarrow> reqctx \<Rightarrow> bool" where
  "sound_ctx e s c0 c =
     (cx_user c = cx_user c0 \<and> cx_apikey c = cx_apikey c0 \<and>
      (IsPlatformAdmin c \<longrightarrow> (\<exists>u i. cx_user c = Some u \<and> ae_scan e (usr_ID u) = Some i \<and> HasPlatformRole i PlatformRoleAdmin s)))"

lemma user_access_ctx:
  "user_access e m p q u s c = Inr c' \<Longrightarrow> cx_user c' = cx_user c \<and> cx_apikey c' = cx_apikey c \<and>
     (cx_roles c' = cx_roles c \<or> cx_roles c' = Some [PlatformRoleAdmin] \<and>
       (\<exists>i. ae_scan e (usr_ID u) = Some i \<and> HasPlatformRole i PlatformRoleAdmin s))"
  by (auto simp: user_access_def existing_project_def query_Inr split: option.splits if_splits sum.splits)

lemma key_access_ctx:
  "key_access e m p q k s c = Inr c' \<Longrightarrow> cx_user c' = cx_user c \<and> cx_apikey c' = cx_apikey c \<and> cx_roles c' = cx_roles c"
  by (auto simp: key_access_def split: option.splits if_splits sum.splits)

lemma RequireProjectRole_Some:
  "RequireProjectRole e m = Some f \<Longrightarrow> f r s c = Inr c' \<Longrightarrow>
     \<exists>p. ae_scan e (rq_Param r ''projectID'') = Some p \<and> RoleKnown m \<and>
       ((\<exists>u. cx_user c = Some u \<and> user_access e m (rq_Param r ''projectID'') p u s c = Inr c') \<or>
        (\<exists>k. cx_user c = None \<and> cx_apikey c = Some k \<and> key_access e m (rq_Param r ''projectID'') p k s c = Inr c'))"
  by (auto simp: RequireProjectRole_def split: if_splits option.splits)

lemma admin_guard_ctx:
  "RequirePlatformAdmin e s c = Inr c' \<Longrightarrow> cx_user c' = cx_user c \<and> cx_apikey c' = cx_apikey c \<and>
     (\<exists>u i. cx_user c = Some u \<and> ae_scan e (usr_ID u) = Some i \<and> HasPlatformRole i PlatformRoleAdmin s)"
  by (auto simp: RequirePlatformAdmin_def query_Inr split: option.splits if_splits sum.splits)

lemma run_guard_sound: "sound_ctx e s c0 c \<Longrightarrow> run_guard e r s g c = Inr c' \<Longrightarrow> sound_ctx e s c0 c'"
proof (cases g)
  case (GProjectRole m)
  assume a: "sound_ctx e s c0 c" "run_guard e r s g c = Inr c'"
  then obtain f where "RequireProjectRole e m = Some f" "f r s c = Inr c'"
    by (auto simp: run_guard_def GProjectRole split: option.splits)
  from RequireProjectRole_Some [OF this] show ?thesis
    using a(1) by (auto simp: sound_ctx_def IsPlatformAdmin_def dest!: user_access_ctx key_access_ctx)
next
  case GPlatformAdmin
  assume "sound_ctx e s c0 c" "run_guard e r s g c = Inr c'"
  then show ?thesis using admin_guard_ctx [of e s c c'] by (auto simp: run_guard_def GPlatformAdmin sound_ctx_def)
qed (auto simp: run_guard_def RequireUser_def sound_ctx_def split: option.splits)

interpretation gd: guards "run_guard e r s" "sound_ctx e s c0" for e r s c0
  by unfold_locales (rule run_guard_sound)

section \<open>Identity\<close>

text \<open>The token a request presents, and what it has to be for an identity to come of it.\<close>

definition presented :: "aenv \<Rightarrow> request \<Rightarrow> string \<Rightarrow> bool" where
  "presented e r tok =
     (tok \<noteq> [] \<and> (if HasBearerScheme (rq_Authorization r) then tok = ExtractBearerToken (rq_Authorization r)
                  else rq_Cookie r (ae_CookieName e) = Some tok))"

definition session_of :: "timestamp \<Rightarrow> adb \<Rightarrow> string \<Rightarrow> User \<Rightarrow> bool" where
  "session_of now s tok u =
     (\<exists>t \<in> set (ad_sessions s). \<exists>row \<in> set (ad_users s).
        ses_TokenHash t = HashToken tok \<and> now < ses_ExpiresAt t \<and> sql_eq (u_ID row) (ses_UserID t) \<and> u_IsActive row \<and>
        u = SessionRowToUser (t, row))"

lemma find_SomeD: "List.find P xs = Some x \<Longrightarrow> x \<in> set xs \<and> P x"
  by (auto simp: find_Some_iff)

lemma GetSession_session: "GetSessionByTokenHash now (HashToken tok) s = Some row \<Longrightarrow> session_of now s tok (SessionRowToUser row)"
  by (cases row) (fastforce simp: GetSessionByTokenHash_def session_of_def dest!: find_SomeD)

definition same_but_used :: "adb \<Rightarrow> adb \<Rightarrow> bool" where
  "same_but_used s s' =
     (ad_core s' = ad_core s \<and> ad_sessions s' = ad_sessions s \<and> ad_roles s' = ad_roles s \<and>
      (\<exists>f. ad_keys s' = map (\<lambda>k. k\<lparr>ak_LastUsedAt := f k\<rparr>) (ad_keys s)))"

lemma same_refl [simp]: "same_but_used s s"
proof -
  have "ad_keys s = map (\<lambda>k. k\<lparr>ak_LastUsedAt := ak_LastUsedAt k\<rparr>) (ad_keys s)" by simp
  then show ?thesis unfolding same_but_used_def by blast
qed

lemma LastUsed_same: "same_but_used s (UpdateAPIKeyLastUsed now h s)"
proof -
  define f where "f k = (if ak_KeyHash k = h \<and> key_live now k then Some now else ak_LastUsedAt k)" for k
  have "ad_keys (UpdateAPIKeyLastUsed now h s) = map (\<lambda>k. k\<lparr>ak_LastUsedAt := f k\<rparr>) (ad_keys s)"
    by (simp add: UpdateAPIKeyLastUsed_def update_keys_def f_def)
  moreover have "ad_core (UpdateAPIKeyLastUsed now h s) = ad_core s" "ad_sessions (UpdateAPIKeyLastUsed now h s) = ad_sessions s"
    "ad_roles (UpdateAPIKeyLastUsed now h s) = ad_roles s" by (simp_all add: UpdateAPIKeyLastUsed_def update_keys_def)
  ultimately show ?thesis unfolding same_but_used_def by blast
qed

lemma exec_used_same: "same_but_used s (snd (exec_query ft q (Inr ((), UpdateAPIKeyLastUsed now h s)) s))"
  by (simp add: exec_query_def LastUsed_same)

lemma IdentityResolver_sound:
  assumes "IdentityResolver e r s = (Inr (c, b), s')"
  shows "same_but_used s s' \<and> cx_roles c = None \<and> cx_membership c = None \<and>
    (c = empty_ctx \<or> ae_DB e \<and> (\<exists>tok. presented e r tok \<and>
       ((\<exists>u. session_of (ae_now e) s tok u \<and> c = empty_ctx\<lparr>cx_user := Some u\<rparr>) \<or>
        (\<exists>k. HasBearerScheme (rq_Authorization r) \<and> HasPrefix tok apiKeyPrefix \<and> aki_KeyHash k = HashToken tok \<and>
           c = empty_ctx\<lparr>cx_apikey := Some k\<rparr> \<and> GetAPIKeyByHash (ae_now e) (HashToken tok) s \<noteq> None))))"
proof (cases "ae_DB e")
  case True
  note db = True
  show ?thesis
  proof (cases "HasBearerScheme (rq_Authorization r)")
    case bearer: True
    let ?tok = "ExtractBearerToken (rq_Authorization r)"
    have ne: "?tok \<noteq> []" using assms db bearer by (auto simp: IdentityResolver_def)
    then have pr: "presented e r ?tok" using bearer by (simp add: presented_def)
    show ?thesis
    proof (cases "HasPrefix ?tok apiKeyPrefix")
      case True
      then show ?thesis using assms db bearer ne pr exec_used_same
        by (fastforce simp: IdentityResolver_def Let_def empty_ctx_def query_Inr split: sum.splits option.splits)
    next
      case False
      then show ?thesis using assms db bearer ne pr
        by (fastforce simp: IdentityResolver_def Let_def empty_ctx_def query_Inr split: sum.splits option.splits dest: GetSession_session)
    qed
  next
    case False
    then show ?thesis using assms db
      by (fastforce simp: IdentityResolver_def empty_ctx_def presented_def query_Inr
          split: sum.splits option.splits if_splits dest: GetSession_session)
  qed
qed (use assms in \<open>auto simp: IdentityResolver_def empty_ctx_def\<close>)

section \<open>Access to projects\<close>

text \<open>The access matrix. A user has access as a platform admin, or as a member with a sufficient role. A key gives
  access up to the level of admins, if it is live and either a key of the project or a personal key of a member: its
  own role must suffice, and so must the role of the member.\<close>

definition user_allowed :: "aenv \<Rightarrow> adb \<Rightarrow> User \<Rightarrow> UUID \<Rightarrow> string \<Rightarrow> bool" where
  "user_allowed e s u p minRole =
     (\<exists>i. ae_scan e (usr_ID u) = Some i \<and>
        (HasPlatformRole i PlatformRoleAdmin s \<and> has_project p s \<or>
         (\<exists>m \<in> set (ad_members s). is_row p i m \<and> RoleSufficient (pm_Role m) minRole)))"

definition key_allowed :: "timestamp \<Rightarrow> adb \<Rightarrow> string \<Rightarrow> UUID \<Rightarrow> string \<Rightarrow> bool" where
  "key_allowed now s h p minRole =
     (\<exists>k \<in> set (ad_keys s). ak_KeyHash k = h \<and> key_live now k \<and>
        (minRole = RoleMember \<and> ak_Role k \<in> {''read'', ''write''} \<or> minRole = RoleAdmin \<and> ak_Role k = ''write'') \<and>
        (ak_KeyType k = ''project'' \<and> sql_eq (ak_ProjectID k) p \<or>
         ak_KeyType k = ''personal'' \<and>
           (\<exists>m \<in> set (ad_members s). sql_eq (ak_CreatedBy k) (pm_UserID m) \<and> sql_eq (pm_ProjectID m) p \<and>
              RoleSufficient (pm_Role m) minRole)))"

lemma GetProject_has: "GetProject p s \<noteq> None \<longleftrightarrow> has_project p s"
  by (auto simp: GetProject_def has_project_def find_None_iff list_ex_iff)

lemma user_access_allowed:
  assumes "sound_ctx e s c0 c" "cx_user c = Some u" "user_access e m p q u s c = Inr c'"
  shows "user_allowed e s u q m"
proof -
  obtain i where i: "ae_scan e (usr_ID u) = Some i" using assms(3) by (auto simp: user_access_def split: option.splits)
  show ?thesis
  proof (cases "HasPlatformRole i PlatformRoleAdmin s \<and> has_project q s")
    case False
    then have "\<not> HasPlatformRole i PlatformRoleAdmin s \<or> GetProject q s = None" using GetProject_has by blast
    then have "\<exists>x. GetProjectMember q i s = Some x \<and> RoleSufficient (pm_Role x) m"
      using assms i by (auto simp: user_access_def existing_project_def sound_ctx_def query_Inr
          split: option.splits if_splits sum.splits)
    then show ?thesis using i by (auto simp: user_allowed_def GetProjectMember_def dest!: find_SomeD)
  qed (use i in \<open>auto simp: user_allowed_def\<close>)
qed

lemma view_rows:
  "(h, er, p) \<in> set (api_key_project_access now s) \<longleftrightarrow>
     (\<exists>k \<in> set (ad_keys s). ak_KeyHash k = h \<and> key_live now k \<and> 0 < role_rank (ak_Role k) \<and>
        (ak_KeyType k = ''project'' \<and> er = ak_Role k \<and> p = ak_ProjectID k \<or>
         ak_KeyType k = ''personal'' \<and>
           (\<exists>m \<in> set (ad_members s). sql_eq (ak_CreatedBy k) (pm_UserID m) \<and> p = pm_ProjectID m \<and>
              0 < role_rank (mapped_role (pm_Role m)) \<and>
              er = (if min (role_rank (ak_Role k)) (role_rank (mapped_role (pm_Role m))) = 2 then ''write'' else ''read''))))"
  by (auto simp: api_key_project_access_def)

text \<open>The level an effective role reaches.\<close>

lemma role_level:
  assumes "MembershipRoleToKeyRole minRole = Some kr" "KeyRoleSufficient er kr" "0 < role_rank r" "0 < role_rank (mapped_role mr)"
    and "er = (if min (role_rank r) (role_rank (mapped_role mr)) = 2 then ''write'' else ''read'')"
  shows "(minRole = RoleMember \<and> r \<in> {''read'', ''write''} \<or> minRole = RoleAdmin \<and> r = ''write'') \<and> RoleSufficient mr minRole"
  using assms
  by (auto simp: MembershipRoleToKeyRole_def KeyRoleSufficient_def KeyRoleRank_def role_rank_def mapped_role_def
      RoleSufficient_def RoleKnown_def RoleRank_def role_defs split: if_splits)

lemma role_level_project:
  assumes "MembershipRoleToKeyRole minRole = Some kr" "KeyRoleSufficient r kr" "0 < role_rank r"
  shows "minRole = RoleMember \<and> r \<in> {''read'', ''write''} \<or> minRole = RoleAdmin \<and> r = ''write''"
  using assms
  by (auto simp: MembershipRoleToKeyRole_def KeyRoleSufficient_def KeyRoleRank_def role_rank_def role_defs split: if_splits)

lemma key_access_allowed:
  assumes "key_access e minRole p q k s c = Inr c'"
  shows "key_allowed (ae_now e) s (aki_KeyHash k) q minRole"
proof -
  obtain kr er where kr: "MembershipRoleToKeyRole minRole = Some kr" "KeyRoleSufficient er kr"
    and er: "CheckAPIKeyProjectAccess (ae_now e) (aki_KeyHash k) q s = Some er"
    using assms by (auto simp: key_access_def query_Inr split: option.splits if_splits sum.splits)
  then obtain p' where "(aki_KeyHash k, er, p') \<in> set (api_key_project_access (ae_now e) s)" and q: "sql_eq p' q"
    by (auto simp: CheckAPIKeyProjectAccess_def dest!: find_SomeD)
  then obtain x where x: "x \<in> set (ad_keys s)" "ak_KeyHash x = aki_KeyHash k" "key_live (ae_now e) x" "0 < role_rank (ak_Role x)"
    and kinds: "ak_KeyType x = ''project'' \<and> er = ak_Role x \<and> p' = ak_ProjectID x \<or>
      ak_KeyType x = ''personal'' \<and> (\<exists>m \<in> set (ad_members s). sql_eq (ak_CreatedBy x) (pm_UserID m) \<and> p' = pm_ProjectID m \<and>
        0 < role_rank (mapped_role (pm_Role m)) \<and>
        er = (if min (role_rank (ak_Role x)) (role_rank (mapped_role (pm_Role m))) = 2 then ''write'' else ''read''))"
    unfolding view_rows by blast
  from kinds show ?thesis
  proof
    assume "ak_KeyType x = ''project'' \<and> er = ak_Role x \<and> p' = ak_ProjectID x"
    then show ?thesis using x q role_level_project [OF kr(1), of "ak_Role x"] kr(2) unfolding key_allowed_def by blast
  next
    assume "ak_KeyType x = ''personal'' \<and> (\<exists>m \<in> set (ad_members s). sql_eq (ak_CreatedBy x) (pm_UserID m) \<and> p' = pm_ProjectID m \<and>
        0 < role_rank (mapped_role (pm_Role m)) \<and>
        er = (if min (role_rank (ak_Role x)) (role_rank (mapped_role (pm_Role m))) = 2 then ''write'' else ''read''))"
    then show ?thesis using x q role_level [OF kr x(4)] unfolding key_allowed_def by blast
  qed
qed

lemma same_allowed:
  assumes "same_but_used s s'"
  shows "user_allowed e s' u p m = user_allowed e s u p m" "key_allowed t s' h p m = key_allowed t s h p m"
proof -
  obtain f where f: "ad_keys s' = map (\<lambda>k. k\<lparr>ak_LastUsedAt := f k\<rparr>) (ad_keys s)" and c: "ad_core s' = ad_core s" "ad_roles s' = ad_roles s"
    using assms by (auto simp: same_but_used_def)
  show "user_allowed e s' u p m = user_allowed e s u p m"
    by (simp add: user_allowed_def HasPlatformRole_def has_project_def c)
  show "key_allowed t s' h p m = key_allowed t s h p m"
    by (simp add: key_allowed_def f c key_live_def)
qed

lemma serve_Inr:
  assumes "serve e r rt s = (Inr c, s')"
  obtains c0 b where "IdentityResolver e r s = (Inr (c0, b), s')" "chain (run_guard e r s') (rt_Guards rt) c0 = Inr c"
    "sound_ctx e s' c0 c0"
proof -
  obtain c0 b where i: "IdentityResolver e r s = (Inr (c0, b), s')" and g: "chain (run_guard e r s') (rt_Guards rt) c0 = Inr c"
    using assms by (auto simp: serve_def split: prod.splits sum.splits)
  have "sound_ctx e s' c0 c0" using IdentityResolver_sound [OF i] by (auto simp: sound_ctx_def IsPlatformAdmin_def)
  then show ?thesis using that i g by blast
qed

lemma guard_user: "sound_ctx e s c0 c1 \<Longrightarrow> run_guard e r s GUser c1 = Inr c2 \<Longrightarrow> cx_user c0 \<noteq> None"
  by (auto simp: run_guard_def RequireUser_def sound_ctx_def split: option.splits)

text \<open>C2: Whatever calls of the database fail: a request reaches the handler of a route that needs a project role only with a
  live session of an active user who is allowed that role in the project of the URL, or, if the route is not reserved
  for users, with the plaintext of a live key that is allowed it.\<close>

theorem project_route_authorised:
  assumes "serve e r rt s = (Inr c, s')" "GProjectRole minRole \<in> set (rt_Guards rt)"
  shows "\<exists>p tok. ae_scan e (rq_Param r ''projectID'') = Some p \<and> presented e r tok \<and>
    ((\<exists>u. session_of (ae_now e) s tok u \<and> user_allowed e s u p minRole) \<or>
     GUser \<notin> set (rt_Guards rt) \<and> HasPrefix tok apiKeyPrefix \<and> key_allowed (ae_now e) s (HashToken tok) p minRole)"
proof -
  obtain c0 b where i: "IdentityResolver e r s = (Inr (c0, b), s')"
    and g: "chain (run_guard e r s') (rt_Guards rt) c0 = Inr c" and c0: "sound_ctx e s' c0 c0"
    using serve_Inr [OF assms(1)] by blast
  obtain c1 c2 where c1: "sound_ctx e s' c0 c1" "run_guard e r s' (GProjectRole minRole) c1 = Inr c2"
    using gd.chain_passes [OF c0 g assms(2)] by blast
  then obtain f where "RequireProjectRole e minRole = Some f" "f r s' c1 = Inr c2"
    by (auto simp: run_guard_def split: option.splits)
  from RequireProjectRole_Some [OF this] obtain p where p: "ae_scan e (rq_Param r ''projectID'') = Some p"
    and or: "(\<exists>u. cx_user c1 = Some u \<and> user_access e minRole (rq_Param r ''projectID'') p u s' c1 = Inr c2) \<or>
      (\<exists>k. cx_user c1 = None \<and> cx_apikey c1 = Some k \<and> key_access e minRole (rq_Param r ''projectID'') p k s' c1 = Inr c2)"
    by blast
  note id = IdentityResolver_sound [OF i]
  note same = same_allowed [OF conjunct1 [OF id]]
  from or show ?thesis
  proof
    assume "\<exists>u. cx_user c1 = Some u \<and> user_access e minRole (rq_Param r ''projectID'') p u s' c1 = Inr c2"
    then obtain u where u: "cx_user c0 = Some u" "user_allowed e s u p minRole"
      using user_access_allowed [OF c1(1)] c1(1) same(1) by (auto simp: sound_ctx_def)
    then show ?thesis using id p by (auto simp: empty_ctx_def)
  next
    assume "\<exists>k. cx_user c1 = None \<and> cx_apikey c1 = Some k \<and> key_access e minRole (rq_Param r ''projectID'') p k s' c1 = Inr c2"
    then obtain k where k1: "cx_user c0 = None" "cx_apikey c0 = Some k"
      and "key_access e minRole (rq_Param r ''projectID'') p k s' c1 = Inr c2"
      using c1(1) by (auto simp: sound_ctx_def)
    then have k: "cx_user c0 = None" "cx_apikey c0 = Some k" "key_allowed (ae_now e) s (aki_KeyHash k) p minRole"
      using key_access_allowed same(2) by blast+
    moreover have "GUser \<notin> set (rt_Guards rt)"
      using gd.chain_passes [OF c0 g, of GUser] guard_user k(1) by blast
    ultimately show ?thesis using id p by (auto simp: empty_ctx_def)
  qed
qed

text \<open>The table of routes: every route of a project asks for a role in the project, every route of the platform
  management for a platform admin.\<close>

lemma project_routes_guarded: "rt \<in> set project_routes \<Longrightarrow> \<exists>m. GProjectRole m \<in> set (rt_Guards rt) \<and> RoleKnown m"
  by (auto simp: project_routes_def guarded_def RoleKnown_iff)

lemma open_routes:
  assumes "rt \<in> set (v1_routes b)" "GUser \<notin> set (rt_Guards rt)"
  shows "rt_Method rt = ''GET'' \<or>
    rt_Handler rt \<in> {''user.HandleRegister'', ''auth.HandleLogin'', ''project.HandleSearch'', ''project.HandleIndex''}"
  using assms
  by (auto simp: v1_routes_def public_routes_def user_routes_def platform_routes_def worker_routes_def project_routes_def guarded_def
      split: if_splits)

text \<open>A caller without a user session (anonymous, or with an API key) reaches no handler that changes anything,
  apart from registration, login and starting an indexing run.\<close>

theorem sessionless_caller_cannot_manage:
  assumes "rt \<in> set (v1_routes b)" "serve e r rt s = (Inr c, s')"
    and "\<forall>tok u. presented e r tok \<longrightarrow> \<not> session_of (ae_now e) s tok u"
  shows "rt_Method rt = ''GET'' \<or>
    rt_Handler rt \<in> {''user.HandleRegister'', ''auth.HandleLogin'', ''project.HandleSearch'', ''project.HandleIndex''}"
proof -
  obtain c0 d where i: "IdentityResolver e r s = (Inr (c0, d), s')"
    and g: "chain (run_guard e r s') (rt_Guards rt) c0 = Inr c" and c0: "sound_ctx e s' c0 c0"
    using serve_Inr [OF assms(2)] by blast
  have "cx_user c0 = None" using IdentityResolver_sound [OF i] assms(3) by (auto simp: empty_ctx_def)
  then have "GUser \<notin> set (rt_Guards rt)" using gd.chain_passes [OF c0 g, of GUser] guard_user by blast
  then show ?thesis by (rule open_routes [OF assms(1)])
qed

subsection \<open>The guard decides exactly the matrix\<close>

definition no_faults :: "aenv \<Rightarrow> bool" where
  "no_faults e = (ae_DB e \<and> (\<forall>q. ae_ft e q = NoFault))"

definition members_of_projects :: "adb \<Rightarrow> bool" where
  "members_of_projects s = (\<forall>m \<in> set (ad_members s). has_project (pm_ProjectID m) s)"

lemma query_NoFault: "ft q = NoFault \<Longrightarrow> query ft q x = x"
  by (simp add: query_def)

lemma filter_le1_eq:
  assumes "length (filter P xs) \<le> 1" "x \<in> set xs" "P x" "y \<in> set xs" "P y"
  shows "x = y"
  using assms by (induction xs) (auto simp: Suc_le_eq filter_empty_conv split: if_splits)

lemma find_unique:
  assumes "x \<in> set xs" "P x" "\<And>y. y \<in> set xs \<Longrightarrow> P y \<Longrightarrow> y = x"
  shows "List.find P xs = Some x"
proof (cases "List.find P xs")
  case None
  then show ?thesis using assms(1,2) by (simp add: find_None_iff)
next
  case (Some y)
  then show ?thesis using assms(3) find_SomeD [OF Some] by blast
qed

lemma member_unique:
  "unique_members (ad_core s) \<Longrightarrow> m \<in> set (ad_members s) \<Longrightarrow> is_row p u m \<Longrightarrow> GetProjectMember p u s = Some m"
  unfolding GetProjectMember_def unique_members_def by (rule find_unique) (auto intro: filter_le1_eq [of "is_row p u" "ad_members s"])

lemma user_access_complete:
  assumes "no_faults e" "unique_members (ad_core s)" "members_of_projects s" "cx_roles c = None" "user_allowed e s u p minRole"
  shows "\<exists>c'. user_access e minRole q p u s c = Inr c'"
proof -
  obtain i where i: "ae_scan e (usr_ID u) = Some i"
    and or: "HasPlatformRole i PlatformRoleAdmin s \<and> has_project p s \<or>
      (\<exists>m \<in> set (ad_members s). is_row p i m \<and> RoleSufficient (pm_Role m) minRole)"
    using assms(5) by (auto simp: user_allowed_def)
  have hp: "has_project p s" if "m \<in> set (ad_members s)" "is_row p i m" for m
    using assms(3) that by (fastforce simp: members_of_projects_def has_project_def is_row_def sql_eq_def list_ex_iff)
  show ?thesis
  proof (cases "HasPlatformRole i PlatformRoleAdmin s")
    case True
    then obtain z where "GetProject p s = Some z" using or hp GetProject_has [of p s] by blast
    then show ?thesis using assms(1,4) i True
      by (simp add: user_access_def IsPlatformAdmin_def query_NoFault no_faults_def existing_project_def)
  next
    case False
    then obtain m where "m \<in> set (ad_members s)" "is_row p i m" "RoleSufficient (pm_Role m) minRole" using or by blast
    then show ?thesis using assms(1,4) i False member_unique [OF assms(2)]
      by (simp add: user_access_def IsPlatformAdmin_def query_NoFault no_faults_def)
  qed
qed

text \<open>The rows of the view for one key and one project agree on the role.\<close>

lemma key_unique: "unique_hashes s \<Longrightarrow> k \<in> set (ad_keys s) \<Longrightarrow> k' \<in> set (ad_keys s) \<Longrightarrow> ak_KeyHash k' = ak_KeyHash k \<Longrightarrow> k' = k"
  unfolding unique_hashes_def distinct_map by (metis inj_onD)

lemma view_role_unique:
  assumes "unique_hashes s" "unique_members (ad_core s)"
    and "(h, er, p1) \<in> set (api_key_project_access now s)" "sql_eq p1 p"
    and "(h, er', p2) \<in> set (api_key_project_access now s)" "sql_eq p2 p"
  shows "er' = er"
proof -
  obtain k where k: "k \<in> set (ad_keys s)" "ak_KeyHash k = h"
    and c1: "ak_KeyType k = ''project'' \<and> er = ak_Role k \<or> ak_KeyType k = ''personal'' \<and>
      (\<exists>m \<in> set (ad_members s). sql_eq (ak_CreatedBy k) (pm_UserID m) \<and> p1 = pm_ProjectID m \<and>
        er = (if min (role_rank (ak_Role k)) (role_rank (mapped_role (pm_Role m))) = 2 then ''write'' else ''read''))"
    using assms(3) unfolding view_rows by blast
  obtain k2 where k2: "k2 \<in> set (ad_keys s)" "ak_KeyHash k2 = h"
    and c2: "ak_KeyType k2 = ''project'' \<and> er' = ak_Role k2 \<or> ak_KeyType k2 = ''personal'' \<and>
      (\<exists>m \<in> set (ad_members s). sql_eq (ak_CreatedBy k2) (pm_UserID m) \<and> p2 = pm_ProjectID m \<and>
        er' = (if min (role_rank (ak_Role k2)) (role_rank (mapped_role (pm_Role m))) = 2 then ''write'' else ''read''))"
    using assms(5) unfolding view_rows by blast
  have same: "k2 = k" using key_unique [OF assms(1) k(1) k2(1)] k(2) k2(2) by simp
  have row: "is_row p (ak_CreatedBy k) m" if "sql_eq (ak_CreatedBy k) (pm_UserID m)" "sql_eq (pm_ProjectID m) p" for m
    using that(2) that(1) [THEN sql_eq_sym [THEN iffD1]] unfolding is_row_def by blast
  have uniq: "m = m'" if "m \<in> set (ad_members s)" "m' \<in> set (ad_members s)" "is_row p (ak_CreatedBy k) m" "is_row p (ak_CreatedBy k) m'" for m m'
    using assms(2) that filter_le1_eq [of "is_row p (ak_CreatedBy k)" "ad_members s" m m'] unfolding unique_members_def by blast
  show ?thesis
  proof (cases "ak_KeyType k = ''project''")
    case True
    then show ?thesis using c1 c2 same by auto
  next
    case False
    then obtain m m' where m: "m \<in> set (ad_members s)" "sql_eq (ak_CreatedBy k) (pm_UserID m)" "p1 = pm_ProjectID m"
        "er = (if min (role_rank (ak_Role k)) (role_rank (mapped_role (pm_Role m))) = 2 then ''write'' else ''read'')"
      and m': "m' \<in> set (ad_members s)" "sql_eq (ak_CreatedBy k) (pm_UserID m')" "p2 = pm_ProjectID m'"
        "er' = (if min (role_rank (ak_Role k)) (role_rank (mapped_role (pm_Role m'))) = 2 then ''write'' else ''read'')"
      using c1 c2 same by blast
    have "m = m'" using uniq [OF m(1) m'(1)] row m(2,3) m'(2,3) assms(4,6) by blast
    then show ?thesis using m(4) m'(4) by simp
  qed
qed

lemma key_row_in_view:
  assumes "key_allowed now s h p minRole"
  shows "\<exists>er p' kr. (h, er, p') \<in> set (api_key_project_access now s) \<and> sql_eq p' p \<and>
    MembershipRoleToKeyRole minRole = Some kr \<and> KeyRoleSufficient er kr"
proof -
  obtain k where k: "k \<in> set (ad_keys s)" "ak_KeyHash k = h" "key_live now k"
    and lvl: "minRole = RoleMember \<and> ak_Role k \<in> {''read'', ''write''} \<or> minRole = RoleAdmin \<and> ak_Role k = ''write''"
    and kind: "ak_KeyType k = ''project'' \<and> sql_eq (ak_ProjectID k) p \<or> ak_KeyType k = ''personal'' \<and>
      (\<exists>m \<in> set (ad_members s). sql_eq (ak_CreatedBy k) (pm_UserID m) \<and> sql_eq (pm_ProjectID m) p \<and> RoleSufficient (pm_Role m) minRole)"
    using assms by (auto simp: key_allowed_def)
  define kr where "kr = (if minRole = RoleMember then KeyRoleRead else KeyRoleWrite)"
  have kr: "MembershipRoleToKeyRole minRole = Some kr" using lvl by (auto simp: MembershipRoleToKeyRole_def kr_def)
  have rank: "0 < role_rank (ak_Role k)" using lvl by (auto simp: role_rank_def)
  have self: "KeyRoleSufficient (ak_Role k) kr"
    using lvl by (auto simp: kr_def KeyRoleSufficient_def KeyRoleRank_def role_defs)
  from kind show ?thesis
  proof
    assume "ak_KeyType k = ''project'' \<and> sql_eq (ak_ProjectID k) p"
    moreover from this have "(h, ak_Role k, ak_ProjectID k) \<in> set (api_key_project_access now s)"
      unfolding view_rows using k rank by blast
    ultimately show ?thesis using kr self by blast
  next
    assume "ak_KeyType k = ''personal'' \<and>
      (\<exists>m \<in> set (ad_members s). sql_eq (ak_CreatedBy k) (pm_UserID m) \<and> sql_eq (pm_ProjectID m) p \<and> RoleSufficient (pm_Role m) minRole)"
    then obtain m where t: "ak_KeyType k = ''personal''" and m: "m \<in> set (ad_members s)" "sql_eq (ak_CreatedBy k) (pm_UserID m)"
      "sql_eq (pm_ProjectID m) p" "RoleSufficient (pm_Role m) minRole" by blast
    let ?er = "if min (role_rank (ak_Role k)) (role_rank (mapped_role (pm_Role m))) = 2 then ''write'' else ''read''"
    have "0 < role_rank (mapped_role (pm_Role m)) \<and> KeyRoleSufficient ?er kr"
      using lvl m(4) by (auto simp: kr_def KeyRoleSufficient_def KeyRoleRank_def role_rank_def mapped_role_def
          RoleSufficient_def RoleKnown_def RoleRank_def role_defs split: if_splits)
    moreover from this have "(h, ?er, pm_ProjectID m) \<in> set (api_key_project_access now s)"
      unfolding view_rows using k rank t m by blast
    ultimately show ?thesis using kr m(3) by blast
  qed
qed

lemma key_access_complete:
  assumes "no_faults e" "unique_hashes s" "unique_members (ad_core s)" "key_allowed (ae_now e) s (aki_KeyHash k) p minRole"
  shows "\<exists>c'. key_access e minRole q p k s c = Inr c'"
proof -
  obtain er p' kr where row: "(aki_KeyHash k, er, p') \<in> set (api_key_project_access (ae_now e) s)" "sql_eq p' p"
    and kr: "MembershipRoleToKeyRole minRole = Some kr" "KeyRoleSufficient er kr"
    using key_row_in_view [OF assms(4)] by blast
  let ?P = "\<lambda>(h', _, p'). h' = aki_KeyHash k \<and> sql_eq p' p"
  have "List.find ?P (api_key_project_access (ae_now e) s) \<noteq> None" using row by (auto simp: find_None_iff)
  then obtain h' er' p2 where f: "List.find ?P (api_key_project_access (ae_now e) s) = Some (h', er', p2)" by auto
  then have "er' = er" using find_SomeD [OF f] view_role_unique [OF assms(2,3) row] by auto
  then show ?thesis using f kr assms(1)
    by (simp add: key_access_def CheckAPIKeyProjectAccess_def query_NoFault no_faults_def)
qed

text \<open>C7: With a working database the guard of a project route lets a caller pass exactly when the matrix allows it.\<close>

theorem RequireProjectRole_exact:
  assumes "no_faults e" "unique_hashes s" "unique_members (ad_core s)" "members_of_projects s"
    and "RequireProjectRole e minRole = Some f" "ae_scan e (rq_Param r ''projectID'') = Some p" "cx_roles c = None"
  shows "(\<exists>c'. f r s c = Inr c') \<longleftrightarrow>
    (case cx_user c of
       Some u \<Rightarrow> user_allowed e s u p minRole
     | None \<Rightarrow> (case cx_apikey c of Some k \<Rightarrow> key_allowed (ae_now e) s (aki_KeyHash k) p minRole | None \<Rightarrow> False))"
proof -
  have f: "f = (\<lambda>r s c.
        if cx_user c = None \<and> cx_apikey c = None then Inl ErrUnauthorized
        else if \<not> ae_DB e then Inl ErrInternal
        else case ae_scan e (rq_Param r ''projectID'') of
          None \<Rightarrow> Inl (NotFound ''project not found'')
        | Some pgProjectID \<Rightarrow>
            (case cx_user c of
               Some user \<Rightarrow> user_access e minRole (rq_Param r ''projectID'') pgProjectID user s c
             | None \<Rightarrow>
                 (case cx_apikey c of
                    None \<Rightarrow> Inl ErrUnauthorized
                  | Some apiKey \<Rightarrow> key_access e minRole (rq_Param r ''projectID'') pgProjectID apiKey s c)))"
    using assms(5) by (simp add: RequireProjectRole_def split: if_splits)
  have db: "ae_DB e" using assms(1) by (simp add: no_faults_def)
  have sound: "sound_ctx e s c c" using assms(7) by (simp add: sound_ctx_def IsPlatformAdmin_def)
  show ?thesis
  proof (cases "cx_user c")
    case (Some u)
    then show ?thesis
      using user_access_allowed [OF sound Some] user_access_complete [OF assms(1,3,4,7)] assms(6) db by (auto simp: f)
  next
    case None
    then show ?thesis
      using key_access_allowed key_access_complete [OF assms(1-3)] assms(6) db by (auto simp: f split: option.splits)
  qed
qed

section \<open>A created key is accepted\<close>

lemma trim_lead_id:
  assumes "s \<noteq> []" "\<forall>r \<in> set rs. r \<noteq> [] \<and> hd r \<noteq> hd s"
  shows "trim_lead rs s = s"
proof -
  have "take (length r) s \<noteq> r" if "r \<in> set rs" for r
    using assms that by (metis hd_take length_greater_0_conv)
  then have "lead_len rs s = 0" using find_None [of rs "\<lambda>r. take (length r) s = r"] by (simp add: lead_len_def)
  then show ?thesis by (simp add: trim_lead.simps)
qed

lemma TrimSpace_id:
  assumes "s \<noteq> []" "\<forall>r \<in> set space_runes. hd r \<noteq> hd s \<and> last r \<noteq> last s"
  shows "TrimSpace s = s"
proof -
  have ne: "\<forall>r \<in> set space_runes. r \<noteq> []" by (simp add: space_runes_def)
  have "trim_lead space_runes s = s" using assms ne by (intro trim_lead_id) auto
  moreover have "trim_lead (map rev space_runes) (rev s) = rev s"
    using assms ne by (intro trim_lead_id) (auto simp: hd_rev)
  ultimately show ?thesis by (simp add: TrimSpace_def)
qed

lemma draw_chars_base62:
  "draw_chars draw i n = Some b \<Longrightarrow> \<forall>j k. draw j = Some k \<longrightarrow> k < length base62 \<Longrightarrow> set b \<subseteq> set base62 \<and> length b = n"
proof (induction n arbitrary: i b)
  case (Suc n)
  obtain k r where "draw i = Some k" "draw_chars draw (Suc i) n = Some r" "b = base62 ! k # r"
    using Suc.prems(1) by (auto split: option.splits)
  then show ?case using Suc.IH [of "Suc i" r] Suc.prems(2) nth_mem [of k base62] by auto
qed simp

lemma base62_no_space: "\<forall>c \<in> set base62. \<forall>r \<in> set space_runes. last r \<noteq> c"
  by code_simp

lemma prefix_no_space: "\<forall>r \<in> set space_runes. hd r \<noteq> CHR ''m''"
  by code_simp

text \<open>The plaintext of a generated key, sent as a bearer token, is what the identity check hashes.\<close>

lemma generated_token:
  assumes "GenerateAPIKey draw t = Some (plaintext, prefx, hash)" "\<forall>j k. draw j = Some k \<longrightarrow> k < length base62"
  shows "HasBearerScheme (''Bearer '' @ plaintext)" "ExtractBearerToken (''Bearer '' @ plaintext) = plaintext"
    "HasPrefix plaintext apiKeyPrefix" "hash = HashToken plaintext" "plaintext \<noteq> []"
proof -
  obtain tp buf where tp: "prefixForType t = Some tp" and buf: "draw_chars draw 0 randomChars = Some buf"
    and pl: "plaintext = tp @ buf" "hash = HashKey plaintext"
    using assms(1) by (auto simp: GenerateAPIKey_def Let_def split: option.splits)
  have tp: "tp = ''mj_proj_'' \<or> tp = ''mj_pers_''" using tp by (auto simp: prefixForType_def split: if_splits)
  have b: "set buf \<subseteq> set base62" "length buf = 32"
    using draw_chars_base62 [OF buf assms(2)] by (simp_all add: randomChars_def)
  then have "buf \<noteq> []" by auto
  then have "last plaintext \<in> set base62" "hd plaintext = CHR ''m''" using b(1) tp pl(1) by auto
  then have "TrimSpace plaintext = plaintext"
    using base62_no_space prefix_no_space pl(1) \<open>buf \<noteq> []\<close> by (intro TrimSpace_id) auto
  moreover have low: "ToLower ''Bearer '' = ''bearer ''" by code_simp
  ultimately show "ExtractBearerToken (''Bearer '' @ plaintext) = plaintext"
    using pl(1) \<open>buf \<noteq> []\<close> by (simp add: ExtractBearerToken_def)
  show "HasBearerScheme (''Bearer '' @ plaintext)" using low by (simp add: HasBearerScheme_def)
  show "HasPrefix plaintext apiKeyPrefix" using tp pl(1) by (auto simp: HasPrefix_def apiKeyPrefix_def)
  show "hash = HashToken plaintext" using pl(2) by (simp add: HashKey_def HashToken_def)
  show "plaintext \<noteq> []" using pl(1) \<open>buf \<noteq> []\<close> by simp
qed

lemma created_project_key:
  assumes "HandleCreateProjectKey v user q body s = (Inr res, s')" "\<forall>j k. ke_draw v j = Some k \<longrightarrow> k < length base62"
  obtains p k prefx where "ke_scan v q = Some p" "s' = s\<lparr>ad_keys := ad_keys s @ [k]\<rparr>"
    "ak_KeyHash k = HashToken (kk_PlaintextKey res)" "ak_KeyHash k \<notin> ak_KeyHash ` set (ad_keys s)" "ak_KeyType k = ''project''"
    "ak_ProjectID k = p" "ak_IsActive k" "ak_Role k \<in> {''read'', ''write''}" "kk_Info res = DBAPIKeyToDomain k" "uuid_Valid p"
    "GenerateAPIKey (ke_draw v) KeyTypeProject = Some (kk_PlaintextKey res, prefx, HashToken (kk_PlaintextKey res))"
proof -
  have "\<exists>(u :: User) req. CreateProjectKey v req (usr_ID u) q s = (Inr res, s')"
    using assms(1)
    by (auto simp: HandleCreateProjectKey_def val_UUID_def answer_def
        split: option.splits prod.splits if_splits sum.splits)
  then obtain u :: User and req where c: "CreateProjectKey v req (usr_ID u) q s = (Inr res, s')" by blast
  let ?role = "if kr_Role req = [] then KeyRoleRead else kr_Role req"
  obtain creator p plaintext prefx hash where valid: "KeyRoleValid ?role" and cr: "ke_scan v (usr_ID u) = Some creator"
    and p: "ke_scan v q = Some p" and g: "GenerateAPIKey (ke_draw v) KeyTypeProject = Some (plaintext, prefx, hash)"
    using c unfolding CreateProjectKey_def Let_def by (auto split: option.splits if_splits)
  define a where "a = \<lparr>kp_KeyType = KeyTypeProject, kp_KeyPrefix = prefx, kp_KeyHash = hash, kp_Name = kr_Name req,
    kp_Role = ?role, kp_ProjectID = p, kp_CreatedBy = creator, kp_ExpiresAt = kr_ExpiresAt req\<rparr>"
  have a: "kp_KeyHash a = hash" "kp_KeyType a = KeyTypeProject" "kp_ProjectID a = p" by (simp_all add: a_def)
  have w: "created plaintext (WithTx (project_key_body (ke_now v) (ke_fresh v) a) (ke_fts v) s) = (Inr res, s')"
    using c valid cr p g unfolding CreateProjectKey_def Let_def a_def by (simp del: if_split)
  from w obtain k where k: "WithTx (project_key_body (ke_now v) (ke_fresh v) a) (ke_fts v) s = (Inr k, s')"
    and res: "res = \<lparr>kk_Info = DBAPIKeyToDomain k, kk_PlaintextKey = plaintext\<rparr>"
    by (auto simp: created_def split: prod.splits sum.splits)
  have "a\<lparr>kp_KeyType := KeyTypeProject\<rparr> = a" using a(2) by simp
  then have "key_added (ke_now v) a k s s'"
    using proj_tx.WithTx_Inr [of "ke_now v" "ke_fresh v" a "ke_fts v" s k s'] k project_body_added by fastforce
  then show ?thesis
    using that [of p k prefx] a p g res generated_token(4) [OF g assms(2)]
    by (auto simp: key_added_def key_constraints_def KeyTypeProject_def)
qed

lemma created_key_authenticates:
  assumes "HandleCreateProjectKey v user q body s = (Inr res, s')" "unique_hashes s"
    and "\<forall>j k. ke_draw v j = Some k \<longrightarrow> k < length base62"
    and "no_faults e" "rq_Authorization r = ''Bearer '' @ kk_PlaintextKey res"
    and "case ki_ExpiresAt (kk_Info res) of None \<Rightarrow> True | Some t \<Rightarrow> ae_now e < t"
  obtains k where "GetAPIKeyByHash (ae_now e) (HashToken (kk_PlaintextKey res)) s' = Some k"
    "IdentityResolver e r s' =
      (Inr (empty_ctx\<lparr>cx_apikey := Some \<lparr>aki_KeyHash = HashToken (kk_PlaintextKey res), aki_KeyType = ak_KeyType k, aki_Role = ak_Role k\<rparr>\<rparr>, False),
       UpdateAPIKeyLastUsed (ae_now e) (HashToken (kk_PlaintextKey res)) s')"
    "unique_hashes s'" "s' = s\<lparr>ad_keys := ad_keys s @ [k]\<rparr>" "ak_KeyType k = ''project''" "ke_scan v q = Some (ak_ProjectID k)"
    "uuid_Valid (ak_ProjectID k)" "ak_Role k = ki_Role (kk_Info res)" "ak_Role k \<in> {''read'', ''write''}"
    "key_live (ae_now e) k" "ak_KeyHash k = HashToken (kk_PlaintextKey res)"
proof -
  obtain p k prefx where p: "ke_scan v q = Some p" and s': "s' = s\<lparr>ad_keys := ad_keys s @ [k]\<rparr>"
    and k: "ak_KeyHash k = HashToken (kk_PlaintextKey res)" "ak_KeyHash k \<notin> ak_KeyHash ` set (ad_keys s)" "ak_KeyType k = ''project''"
      "ak_ProjectID k = p" "ak_IsActive k" "ak_Role k \<in> {''read'', ''write''}" "kk_Info res = DBAPIKeyToDomain k" "uuid_Valid p"
    and g: "GenerateAPIKey (ke_draw v) KeyTypeProject = Some (kk_PlaintextKey res, prefx, HashToken (kk_PlaintextKey res))"
    using created_project_key [OF assms(1,3)] by blast
  note tok = generated_token [OF g assms(3)]
  have live: "key_live (ae_now e) k" using assms(6) k(5,7) by (simp add: key_live_def DBAPIKeyToDomain_def)
  have u: "unique_hashes s'" using assms(2) k(2) by (auto simp: unique_hashes_def s')
  have found: "GetAPIKeyByHash (ae_now e) (HashToken (kk_PlaintextKey res)) s' = Some k"
    unfolding GetAPIKeyByHash_def using live k(1) key_unique [OF u, of k] by (intro find_unique) (auto simp: s')
  have idr: "IdentityResolver e r s' =
      (Inr (empty_ctx\<lparr>cx_apikey := Some \<lparr>aki_KeyHash = HashToken (kk_PlaintextKey res), aki_KeyType = ak_KeyType k, aki_Role = ak_Role k\<rparr>\<rparr>, False),
       UpdateAPIKeyLastUsed (ae_now e) (HashToken (kk_PlaintextKey res)) s')"
    using assms(4,5) tok(1,2,3,5) found by (simp add: IdentityResolver_def no_faults_def query_NoFault exec_query_def Let_def)
  have role: "ak_Role k = ki_Role (kk_Info res)" unfolding k(7) by (simp add: DBAPIKeyToDomain_def)
  have "ke_scan v q = Some (ak_ProjectID k)" "uuid_Valid (ak_ProjectID k)" using p k(4,8) by simp_all
  then show ?thesis using that [OF found idr u s' k(3) _ _ role k(6) live k(1)] by blast
qed

text \<open>C23: From creation to use: the plaintext returned for a new project key, sent as a bearer token before it expires and while no
  query fails, opens the routes of its project that only ask for a role: those for members always, and the one for admins, which starts an
  indexing job, exactly when it is a key for writing. The other routes for admins also ask for a user and refuse every key. Key
  hashes and members are unique, as the schema demands, and random digits are below 62.\<close>

theorem created_key_opens_project:
  assumes "HandleCreateProjectKey v user q body s = (Inr res, s')" "unique_hashes s" "unique_members (ad_core s)"
    and "\<forall>j k. ke_draw v j = Some k \<longrightarrow> k < length base62"
    and "no_faults e" "rq_Authorization r = ''Bearer '' @ kk_PlaintextKey res" "rq_Param r ''projectID'' = q" "ae_scan e = ke_scan v"
    and "case ki_ExpiresAt (kk_Info res) of None \<Rightarrow> True | Some t \<Rightarrow> ae_now e < t"
    and "rt_Guards rt = [GProjectRole minRole]" "RoleKnown minRole"
  shows "(\<exists>c. fst (serve e r rt s') = Inr c) \<longleftrightarrow>
    minRole = RoleMember \<or> minRole = RoleAdmin \<and> ki_Role (kk_Info res) = ''write''"
proof -
  let ?h = "HashToken (kk_PlaintextKey res)" let ?s = "UpdateAPIKeyLastUsed (ae_now e) ?h s'"
  obtain k where idr: "IdentityResolver e r s' =
      (Inr (empty_ctx\<lparr>cx_apikey := Some \<lparr>aki_KeyHash = ?h, aki_KeyType = ak_KeyType k, aki_Role = ak_Role k\<rparr>\<rparr>, False), ?s)"
    and u: "unique_hashes s'" and s': "s' = s\<lparr>ad_keys := ad_keys s @ [k]\<rparr>"
    and k: "ak_KeyType k = ''project''" "ke_scan v q = Some (ak_ProjectID k)" "uuid_Valid (ak_ProjectID k)"
      "ak_Role k = ki_Role (kk_Info res)" "ak_Role k \<in> {''read'', ''write''}" "key_live (ae_now e) k" "ak_KeyHash k = ?h"
    using created_key_authenticates [OF assms(1,2,4,5,6,9)] by blast
  have uk: "x = k" if "x \<in> set (ad_keys s')" "ak_KeyHash x = ?h" for x
    using key_unique [OF u, of k x] that k(7) by (simp add: s')
  have allowed: "key_allowed (ae_now e) s' ?h (ak_ProjectID k) minRole \<longleftrightarrow>
      minRole = RoleMember \<or> minRole = RoleAdmin \<and> ki_Role (kk_Info res) = ''write''"
  proof -
    have "key_allowed (ae_now e) s' ?h (ak_ProjectID k) minRole \<longleftrightarrow>
        minRole = RoleMember \<and> ak_Role k \<in> {''read'', ''write''} \<or> minRole = RoleAdmin \<and> ak_Role k = ''write''"
      (is "_ \<longleftrightarrow> ?lvl k")
    proof
      assume "key_allowed (ae_now e) s' ?h (ak_ProjectID k) minRole"
      then obtain x where "x \<in> set (ad_keys s')" "ak_KeyHash x = ?h" "?lvl x" unfolding key_allowed_def by blast
      then show "?lvl k" using uk by blast
    next
      assume l: "?lvl k"
      have "k \<in> set (ad_keys s')" "sql_eq (ak_ProjectID k) (ak_ProjectID k)" using k(3) by (simp_all add: s' sql_eq_def)
      then show "key_allowed (ae_now e) s' ?h (ak_ProjectID k) minRole" unfolding key_allowed_def using l k(1,6,7) by blast
    qed
    then show ?thesis using k(4,5) by auto
  qed
  have us: "unique_hashes ?s" using u LastUsed_evolve by (simp add: keys_evolve_def)
  have core: "ad_core ?s = ad_core s" using LastUsed_same [of s' "ae_now e" ?h] by (simp add: same_but_used_def s')
  define c where "c = empty_ctx\<lparr>cx_apikey := Some \<lparr>aki_KeyHash = ?h, aki_KeyType = ak_KeyType k, aki_Role = ak_Role k\<rparr>\<rparr>"
  have "run_guard e r ?s (GProjectRole minRole) c =
      key_access e minRole q (ak_ProjectID k) \<lparr>aki_KeyHash = ?h, aki_KeyType = ak_KeyType k, aki_Role = ak_Role k\<rparr> ?s c"
    using assms(5,7,8,11) k(2) by (simp add: run_guard_def RequireProjectRole_def c_def empty_ctx_def no_faults_def)
  then have run: "fst (serve e r rt s') =
      key_access e minRole q (ak_ProjectID k) \<lparr>aki_KeyHash = ?h, aki_KeyType = ak_KeyType k, aki_Role = ak_Role k\<rparr> ?s c"
    unfolding serve_def idr c_def [symmetric] assms(10) by (simp split: sum.split)
  have "(\<exists>c'. fst (serve e r rt s') = Inr c') \<longleftrightarrow> key_allowed (ae_now e) ?s ?h (ak_ProjectID k) minRole"
    using key_access_allowed [of e minRole q "ak_ProjectID k" "\<lparr>aki_KeyHash = ?h, aki_KeyType = ak_KeyType k, aki_Role = ak_Role k\<rparr>" ?s c]
      key_access_complete [OF assms(5) us, of "\<lparr>aki_KeyHash = ?h, aki_KeyType = ak_KeyType k, aki_Role = ak_Role k\<rparr>" "ak_ProjectID k" minRole q c]
    unfolding run core APIKeyIdentity.simps using assms(3) by blast
  then show ?thesis using allowed same_allowed(2) [OF LastUsed_same] by simp
qed

section \<open>Examples\<close>

definition ex_id :: string where
  "ex_id = PgUUIDToString (ex_uuid 1)"

definition ex_scan :: "string \<Rightarrow> UUID option" where
  "ex_scan t = (if t = ex_id then Some (ex_uuid 1) else None)"

definition ex_aenv :: aenv where
  "ex_aenv = \<lparr>ae_DB = True, ae_now = 5, ae_ft = (\<lambda>_. NoFault), ae_scan = ex_scan, ae_CookieName = ''sid''\<rparr>"

definition ex_request :: "string \<Rightarrow> request" where
  "ex_request token = \<lparr>rq_Authorization = ''Bearer '' @ token, rq_Cookie = (\<lambda>_. None), rq_Param = (\<lambda>_. ex_id)\<rparr>"

definition ex_route :: "string \<Rightarrow> route" where
  "ex_route role = \<lparr>rt_Method = ''GET'', rt_Pattern = ''/v1/projects/{projectID}/'', rt_Guards = [GProjectRole role], rt_Handler = ''project.HandleGet''\<rparr>"

lemma ex_no_faults: "no_faults ex_aenv"
  by (simp add: no_faults_def ex_aenv_def)

lemma ex_bearer: "HasBearerScheme ''Bearer mj_x''" "ExtractBearerToken ''Bearer mj_x'' = ''mj_x''" "HasPrefix ''mj_x'' apiKeyPrefix"
  by code_simp+

lemmas ex_access_simps = ex_adb_def ex_key_def ex_defs key_live_def sql_eq_def null_UUID_def

lemma ex_view: "api_key_project_access t (ex_adb h) = [(h, ''write'', ex_uuid 1)]"
  by (simp add: api_key_project_access_def ex_access_simps role_rank_def mapped_role_def)

lemma ex_identity:
  "\<exists>s'. IdentityResolver ex_aenv (ex_request ''mj_x'') (ex_adb (HashToken ''mj_x'')) =
    (Inr (empty_ctx\<lparr>cx_apikey := Some \<lparr>aki_KeyHash = HashToken ''mj_x'', aki_KeyType = ''personal'', aki_Role = ''write''\<rparr>\<rparr>, False), s') \<and>
    api_key_project_access 5 s' = [(HashToken ''mj_x'', ''write'', ex_uuid 1)]"
proof -
  let ?h = "HashToken ''mj_x''" let ?s = "UpdateAPIKeyLastUsed 5 ?h (ex_adb ?h)"
  have g: "GetAPIKeyByHash 5 ?h (ex_adb ?h) = Some (ex_key 3 ''personal'' ?h True)"
    by (simp add: GetAPIKeyByHash_def ex_adb_def ex_key_def key_live_def)
  have "IdentityResolver ex_aenv (ex_request ''mj_x'') (ex_adb ?h) =
      (Inr (empty_ctx\<lparr>cx_apikey := Some \<lparr>aki_KeyHash = ?h, aki_KeyType = ''personal'', aki_Role = ''write''\<rparr>\<rparr>, False), ?s)"
    using ex_bearer g by (simp add: IdentityResolver_def ex_aenv_def ex_request_def query_NoFault exec_query_def Let_def ex_key_def)
  moreover have "api_key_project_access 5 ?s = [(?h, ''write'', ex_uuid 1)]"
    by (simp add: UpdateAPIKeyLastUsed_def update_keys_def api_key_project_access_def ex_access_simps role_rank_def mapped_role_def)
  ultimately show ?thesis by blast
qed

lemma ex_serve: "\<exists>c s'. serve ex_aenv (ex_request ''mj_x'') (ex_route RoleMember) (ex_adb (HashToken ''mj_x'')) = (Inr c, s')"
proof -
  let ?c = "empty_ctx\<lparr>cx_apikey := Some \<lparr>aki_KeyHash = HashToken ''mj_x'', aki_KeyType = ''personal'', aki_Role = ''write''\<rparr>\<rparr>"
  obtain s' where i: "IdentityResolver ex_aenv (ex_request ''mj_x'') (ex_adb (HashToken ''mj_x'')) = (Inr (?c, False), s')"
    and v: "api_key_project_access 5 s' = [(HashToken ''mj_x'', ''write'', ex_uuid 1)]" using ex_identity by blast
  have "\<exists>c. run_guard ex_aenv (ex_request ''mj_x'') s' (GProjectRole RoleMember) ?c = Inr c"
    by (simp add: run_guard_def RequireProjectRole_def RoleKnown_iff ex_aenv_def ex_scan_def ex_request_def empty_ctx_def key_access_def
        CheckAPIKeyProjectAccess_def v query_NoFault MembershipRoleToKeyRole_def KeyRoleSufficient_def KeyRoleRank_def role_defs
        sql_eq_def ex_uuid_def)
  then show ?thesis unfolding serve_def i by (auto simp: ex_route_def)
qed

theorem project_route_authorised_witness:
  "\<exists>p tok. presented ex_aenv (ex_request ''mj_x'') tok \<and>
    key_allowed 5 (ex_adb (HashToken ''mj_x'')) (HashToken tok) p RoleMember"
proof -
  obtain c s' where "serve ex_aenv (ex_request ''mj_x'') (ex_route RoleMember) (ex_adb (HashToken ''mj_x'')) = (Inr c, s')"
    using ex_serve by blast
  from project_route_authorised [OF this, of RoleMember] show ?thesis
    by (auto simp: ex_route_def session_of_def ex_adb_def ex_aenv_def)
qed

theorem sessionless_caller_cannot_manage_witness:
  "\<exists>c s'. serve ex_aenv (ex_request ''mj_x'') (ex_route RoleMember) (ex_adb (HashToken ''mj_x'')) = (Inr c, s') \<and>
     (rt_Method (ex_route RoleMember) = ''GET'' \<or> rt_Handler (ex_route RoleMember) = ''project.HandleIndex'')"
proof -
  obtain c s' where sv: "serve ex_aenv (ex_request ''mj_x'') (ex_route RoleMember) (ex_adb (HashToken ''mj_x'')) = (Inr c, s')"
    using ex_serve by blast
  have "ex_route RoleMember \<in> set (v1_routes False)"
    by (simp add: v1_routes_def project_routes_def guarded_def ex_route_def)
  moreover have "\<forall>tok u. presented ex_aenv (ex_request ''mj_x'') tok \<longrightarrow>
      \<not> session_of (ae_now ex_aenv) (ex_adb (HashToken ''mj_x'')) tok u" by (simp add: session_of_def ex_adb_def)
  ultimately show ?thesis using sessionless_caller_cannot_manage [OF _ sv, of False] sv by (auto simp: ex_route_def)
qed

theorem RequireProjectRole_exact_witness:
  "let c = empty_ctx\<lparr>cx_apikey := Some \<lparr>aki_KeyHash = ''new'', aki_KeyType = ''personal'', aki_Role = ''write''\<rparr>\<rparr>;
       f = the (RequireProjectRole ex_aenv RoleAdmin)
   in (\<exists>c'. f (ex_request ''mj_x'') (ex_adb ''new'') c = Inr c') \<longleftrightarrow> key_allowed 5 (ex_adb ''new'') ''new'' (ex_uuid 1) RoleAdmin"
proof -
  have "unique_hashes (ex_adb ''new'')" by (simp add: unique_hashes_def ex_adb_def ex_key_def)
  moreover have "unique_members (ad_core (ex_adb ''new''))" using ex_db_ok(1) by (simp add: ex_adb_def)
  moreover have "members_of_projects (ex_adb ''new'')"
    by (simp add: members_of_projects_def has_project_def ex_access_simps)
  moreover have "RequireProjectRole ex_aenv RoleAdmin = Some (the (RequireProjectRole ex_aenv RoleAdmin))"
    by (simp add: RequireProjectRole_def RoleKnown_iff)
  ultimately show ?thesis
    using RequireProjectRole_exact [OF ex_no_faults, of "ex_adb ''new''" RoleAdmin _ "ex_request ''mj_x''" "ex_uuid 1"
        "empty_ctx\<lparr>cx_apikey := Some \<lparr>aki_KeyHash = ''new'', aki_KeyType = ''personal'', aki_Role = ''write''\<rparr>\<rparr>"]
    by (simp add: ex_aenv_def ex_scan_def ex_request_def empty_ctx_def)
qed

definition ex_kenv :: kenv where
  "ex_kenv = \<lparr>ke_now = 1, ke_scan = ex_scan, ke_draw = (\<lambda>_. Some 0), ke_fresh = ex_uuid 2, ke_fts = (\<lambda>_ _. NoFault),
     ke_quote = (\<lambda>t. t), ke_parse = (\<lambda>_. None)\<rparr>"

definition ex_caller :: User where
  "ex_caller = \<lparr>usr_ID = ex_id, usr_Username = [], usr_Email = [], usr_DisplayName = [], usr_AvatarURL = [], usr_IsActive = True,
     usr_CreatedAt = 0, usr_UpdatedAt = 0\<rparr>"

definition ex_body :: "AppError + createKeyRequest" where
  "ex_body = Inr \<lparr>cr_Name = [], cr_Role = ''write'', cr_ExpiresAt = None\<rparr>"

definition ex_no_keys :: adb where
  "ex_no_keys = \<lparr>ad_core = ex_db, ad_sessions = [], ad_keys = [], ad_roles = []\<rparr>"

lemma ex_created:
  "\<exists>res s'. HandleCreateProjectKey ex_kenv (Some ex_caller) ex_id ex_body ex_no_keys = (Inr res, s') \<and>
     ki_ExpiresAt (kk_Info res) = None \<and> ki_Role (kk_Info res) = ''write''"
proof -
  have v: "uuidRE ex_id" unfolding ex_id_def by (rule PgUUIDToString_valid) (simp_all add: wf_UUID_def ex_uuid_def)
  have d: "draw_chars (\<lambda>_. Some 0) i n = Some (replicate n (base62 ! 0))" for i n by (induction n arbitrary: i) auto
  show ?thesis
    by (simp add: HandleCreateProjectKey_def val_UUID_def v checked_request_def ex_body_def validate_key_request_def OneOf_def
        parseExpiresAt_def CreateProjectKey_def KeyRoleValid_def role_defs ex_kenv_def ex_scan_def ex_caller_def GenerateAPIKey_def
        prefixForType_def d Let_def WithTx_no_fault project_key_body_def query_NoFault LockProjectRow_def CountProjectKeys_def
        maxProjectKeys_def CreateAPIKey_def key_constraints_def KeyTypeProject_def has_project_def has_user_def ex_no_keys_def
        ex_defs sql_eq_def created_def answer_def DBAPIKeyToDomain_def)
qed

theorem created_key_opens_project_witness:
  "\<exists>res s' c. HandleCreateProjectKey ex_kenv (Some ex_caller) ex_id ex_body ex_no_keys = (Inr res, s') \<and>
     fst (serve ex_aenv (ex_request (kk_PlaintextKey res)) (ex_route RoleAdmin) s') = Inr c"
proof -
  obtain res s' where c: "HandleCreateProjectKey ex_kenv (Some ex_caller) ex_id ex_body ex_no_keys = (Inr res, s')"
    and x: "ki_ExpiresAt (kk_Info res) = None" "ki_Role (kk_Info res) = ''write''" using ex_created by blast
  have "unique_hashes ex_no_keys" "unique_members (ad_core ex_no_keys)"
    using ex_db_ok(1) by (simp_all add: unique_hashes_def ex_no_keys_def)
  moreover have "\<forall>j k. ke_draw ex_kenv j = Some k \<longrightarrow> k < length base62" by (simp add: ex_kenv_def base62_def)
  ultimately show ?thesis
    using created_key_opens_project [OF c _ _ _ ex_no_faults, of "ex_request (kk_PlaintextKey res)" "ex_route RoleAdmin" RoleAdmin] c x
    by (auto simp: ex_request_def ex_aenv_def ex_kenv_def ex_route_def RoleKnown_iff)
qed

end
