(* ===== verification/Accounts.thy ===== *)
theory Accounts
  imports Api_Access
begin

text \<open>
  Accounts and their administration: registration and profile (\<^verbatim>\<open>src/backend-api/internal/handler/user.go\<close>), login and
  logout (\<^verbatim>\<open>handler/auth.go\<close>, \<^verbatim>\<open>auth/token.go\<close>), and the operations of platform admins on users and platform roles
  (\<^verbatim>\<open>handler/admin.go\<close>).

  A handler takes the decoded body (or the error of \<^verbatim>\<open>DecodeJSON\<close>) and the URL parameters; it answers with an error or
  the value it writes. The environment \<open>penv\<close> adds to that of the guards: the faults of transaction attempts, the id the
  database generates, the random bytes of a session token, \<open>pe_lower\<close> for \<^verbatim>\<open>strings.ToLower\<close> and \<open>pe_url\<close> for whether
  \<^verbatim>\<open>url.Parse\<close> finds a scheme and a host.
\<close>

section \<open>Definitions\<close>

record penv =
  pe_access :: aenv
  pe_fts :: "nat \<Rightarrow> faults"
  pe_fresh :: UUID
  pe_random :: "string option"
  pe_lower :: "string \<Rightarrow> string"
  pe_url :: "string \<Rightarrow> bool"
  pe_TTL :: int
  pe_RemoteAddr :: string
  pe_UserAgent :: string

abbreviation pe_now :: "penv \<Rightarrow> timestamp" where "pe_now v \<equiv> ae_now (pe_access v)"
abbreviation pe_ft :: "penv \<Rightarrow> faults" where "pe_ft v \<equiv> ae_ft (pe_access v)"
abbreviation pe_scan :: "penv \<Rightarrow> string \<Rightarrow> UUID option" where "pe_scan v \<equiv> ae_scan (pe_access v)"
abbreviation pe_DB :: "penv \<Rightarrow> bool" where "pe_DB v \<equiv> ae_DB (pe_access v)"

subsection \<open>Users\<close>

definition username_taken :: "string \<Rightarrow> adb \<Rightarrow> bool" where
  "username_taken name s = list_ex (\<lambda>r. u_Username r = name) (ad_users s)"

definition email_taken :: "string \<Rightarrow> adb \<Rightarrow> bool" where
  "email_taken email s = list_ex (\<lambda>r. u_Email r = email) (ad_users s)"

text \<open>The constraint a failed insertion names: the index on the user name is checked first.\<close>

definition UniqueViolationConstraint :: "string \<Rightarrow> adb \<Rightarrow> string" where
  "UniqueViolationConstraint username s = (if username_taken username s then ''users_username_key'' else ''idx_users_email'')"

definition CreateUser :: "timestamp \<Rightarrow> UUID \<Rightarrow> string \<Rightarrow> string \<Rightarrow> string option \<Rightarrow> adb \<Rightarrow> db_error + UserRow \<times> adb" where
  "CreateUser now fresh username email displayName s =
     (if has_user fresh s \<or> username_taken username s \<or> email_taken email s then Inl Pg_Unique
      else let r = \<lparr>u_ID = fresh, u_Username = username, u_Email = email, u_DisplayName = displayName, u_AvatarUrl = None,
                    u_IsActive = True, u_CreatedAt = Some now, u_UpdatedAt = Some now\<rparr>
           in Inr (r, set_users (\<lambda>us. us @ [r]) s))"

definition GetUserByEmail :: "string \<Rightarrow> adb \<Rightarrow> UserRow option" where
  "GetUserByEmail email s = List.find (\<lambda>r. u_Email r = email \<and> u_IsActive r) (ad_users s)"

definition profile_update :: "timestamp \<Rightarrow> string option \<Rightarrow> string option \<Rightarrow> string option \<Rightarrow> UserRow \<Rightarrow> UserRow" where
  "profile_update now displayName avatarUrl email r =
     r\<lparr>u_DisplayName := (case displayName of Some d \<Rightarrow> Some d | None \<Rightarrow> u_DisplayName r),
       u_AvatarUrl := (case avatarUrl of Some a \<Rightarrow> if a = [] then None else Some a | None \<Rightarrow> u_AvatarUrl r),
       u_Email := (case email of Some m \<Rightarrow> m | None \<Rightarrow> u_Email r),
       u_UpdatedAt := Some now\<rparr>"

definition UpdateUserProfile ::
  "timestamp \<Rightarrow> UUID \<Rightarrow> string option \<Rightarrow> string option \<Rightarrow> string option \<Rightarrow> adb \<Rightarrow> db_error + UserRow option \<times> adb" where
  "UpdateUserProfile now u displayName avatarUrl email s =
     (case email of
        Some m \<Rightarrow>
          if list_ex (\<lambda>r. u_Email r = m \<and> \<not> sql_eq (u_ID r) u) (ad_users s) \<and> has_user u s then Inl Pg_Unique
          else Inr (map_option (profile_update now displayName avatarUrl email) (List.find (\<lambda>r. sql_eq (u_ID r) u) (ad_users s)),
                    set_users (map (\<lambda>r. if sql_eq (u_ID r) u then profile_update now displayName avatarUrl email r else r)) s)
      | None \<Rightarrow>
          Inr (map_option (profile_update now displayName avatarUrl email) (List.find (\<lambda>r. sql_eq (u_ID r) u) (ad_users s)),
               set_users (map (\<lambda>r. if sql_eq (u_ID r) u then profile_update now displayName avatarUrl email r else r)) s))"

definition normalizeUsername :: "(string \<Rightarrow> string) \<Rightarrow> string \<Rightarrow> string" where
  "normalizeUsername lower name = lower (TrimSpace name)"

record registerBody =
  rb_Username :: string
  rb_Email :: string
  rb_DisplayName :: string

definition HandleRegister :: "penv \<Rightarrow> AppError + registerBody \<Rightarrow> adb \<Rightarrow> (AppError + User) \<times> adb" where
  "HandleRegister v body s =
     (case body of
        Inl x \<Rightarrow> (Inl x, s)
      | Inr b \<Rightarrow>
          (let username = normalizeUsername (pe_lower v) (rb_Username b);
               errs = snd (Required username ''username'' Map.empty);
               errs = ReservedUsername username ''username'' errs;
               (email, errs) = val_Email (pe_lower v) (rb_Email b) ''email'' errs
           in if HasErrors errs then (Inl (ToAppError errs), s)
              else let displayName = (if TrimSpace (rb_DisplayName b) = [] then username else TrimSpace (rb_DisplayName b))
                   in if \<not> pe_DB v then (Inl ErrInternal, s)
                      else case exec_query (pe_ft v) ''CreateUser''
                                  (CreateUser (pe_now v) (pe_fresh v) username email (Some displayName) s) s of
                        (Inl x, s') \<Rightarrow>
                          (Inl (if IsUniqueViolation x
                                then (if UniqueViolationConstraint username s = ''idx_users_email''
                                      then Conflict ''email already taken'' else Conflict ''username already taken'')
                                else ErrInternal), s')
                      | (Inr row, s') \<Rightarrow> (Inr (DBUserToDomain row), s')))"

record profileBody =
  pb_DisplayName :: "string option"
  pb_AvatarURL :: "string option"
  pb_Email :: "string option"

definition HandleUpdateMe :: "penv \<Rightarrow> User option \<Rightarrow> AppError + profileBody \<Rightarrow> adb \<Rightarrow> (AppError + User) \<times> adb" where
  "HandleUpdateMe v user body s =
     (case user of
        None \<Rightarrow> (Inl ErrUnauthorized, s)
      | Some u \<Rightarrow>
     (case body of
        Inl x \<Rightarrow> (Inl x, s)
      | Inr b \<Rightarrow>
          if pb_DisplayName b = None \<and> pb_AvatarURL b = None \<and> pb_Email b = None
          then (Inl (ValidationError [''body'' \<mapsto> ''at least one field must be provided'']), s)
          else if \<not> pe_DB v then (Inl ErrInternal, s)
          else case pe_scan v (usr_ID u) of
            None \<Rightarrow> (Inl ErrInternal, s)
          | Some pgID \<Rightarrow>
              let displayName = map_option TrimSpace (pb_DisplayName b);
                  (avatar, avErrs) = (case pb_AvatarURL b of None \<Rightarrow> (None, Map.empty)
                     | Some a \<Rightarrow> (case val_URL (pe_url v) a ''avatar_url'' Map.empty of (x, errs) \<Rightarrow> (Some x, errs)));
                  (email, emErrs) = (case pb_Email b of None \<Rightarrow> (None, Map.empty)
                     | Some m \<Rightarrow> (case val_Email (pe_lower v) m ''email'' Map.empty of (x, errs) \<Rightarrow> (Some x, errs)))
              in if displayName = Some [] then (Inl (ValidationError [''display_name'' \<mapsto> ''display_name cannot be blank'']), s)
                 else if HasErrors avErrs then (Inl (ToAppError avErrs), s)
                 else if HasErrors emErrs then (Inl (ToAppError emErrs), s)
                 else case exec_query (pe_ft v) ''UpdateUserProfile'' (UpdateUserProfile (pe_now v) pgID displayName avatar email s) s of
                   (Inl x, s') \<Rightarrow> (Inl (if IsUniqueViolation x then Conflict ''email already taken'' else ErrInternal), s')
                 | (Inr None, s') \<Rightarrow> (Inl (NotFound ''user not found''), s')
                 | (Inr (Some row), s') \<Rightarrow> (Inr (DBUserToDomain row), s')))"

definition HandleLookupUser :: "penv \<Rightarrow> string \<Rightarrow> adb \<Rightarrow> AppError + User" where
  "HandleLookupUser v param s =
     (if \<not> pe_DB v then Inl ErrInternal
      else let q = TrimSpace param
           in if q = [] then Inl (BadRequest ''q query parameter is required'')
              else case query (pe_ft v) ''GetUserByUsername'' (Inr (GetUserByUsername (pe_lower v q) s)) of
                Inl _ \<Rightarrow> Inl ErrInternal
              | Inr (Some row) \<Rightarrow> Inr (DBUserToDomain row)
              | Inr None \<Rightarrow>
                  (case query (pe_ft v) ''GetUserByEmail'' (Inr (GetUserByEmail (pe_lower v q) s)) of
                     Inl _ \<Rightarrow> Inl ErrInternal
                   | Inr None \<Rightarrow> Inl (NotFound ''user not found'')
                   | Inr (Some row) \<Rightarrow> Inr (DBUserToDomain row)))"

subsection \<open>Sessions\<close>

definition tokenBytes :: nat where "tokenBytes = 32"

definition GenerateSessionToken :: "string option \<Rightarrow> (string \<times> string) option" where
  "GenerateSessionToken b = (case b of None \<Rightarrow> None | Some bytes \<Rightarrow> Some (EncodeToString bytes, HashToken (EncodeToString bytes)))"

definition nonempty_text :: "string \<Rightarrow> string option" where
  "nonempty_text t = (if t = [] then None else Some t)"

text \<open>The answer of a login is the raw token, which is also the new value of the cookie.\<close>

definition HandleLogin :: "penv \<Rightarrow> AppError + string \<Rightarrow> adb \<Rightarrow> (AppError + string \<times> timestamp \<times> User) \<times> adb" where
  "HandleLogin v body s =
     (case body of
        Inl x \<Rightarrow> (Inl x, s)
      | Inr name \<Rightarrow>
          (let username = normalizeUsername (pe_lower v) name; errs = snd (Required username ''username'' Map.empty)
           in if HasErrors errs then (Inl (ToAppError errs), s)
              else if \<not> pe_DB v then (Inl ErrInternal, s)
              else case query (pe_ft v) ''GetUserByUsername'' (Inr (GetUserByUsername username s)) of
                Inl _ \<Rightarrow> (Inl ErrInternal, s)
              | Inr None \<Rightarrow> (Inl (Unauthorized ''invalid credentials''), s)
              | Inr (Some dbUser) \<Rightarrow>
                  if \<not> u_IsActive dbUser then (Inl (Unauthorized ''invalid credentials''), s)
                  else case GenerateSessionToken (pe_random v) of
                    None \<Rightarrow> (Inl ErrInternal, s)
                  | Some (rawToken, tokenHash) \<Rightarrow>
                      (let expiresAt = pe_now v + pe_TTL v
                       in case exec_query (pe_ft v) ''CreateSession''
                                 (CreateSession (pe_now v) (pe_fresh v) (u_ID dbUser) tokenHash (nonempty_text (pe_RemoteAddr v))
                                    (nonempty_text (pe_UserAgent v)) expiresAt s) s of
                            (Inl _, s') \<Rightarrow> (Inl ErrInternal, s')
                          | (Inr _, s') \<Rightarrow> (Inr (rawToken, expiresAt, DBUserToDomain dbUser), s'))))"

definition HandleLogout :: "penv \<Rightarrow> request \<Rightarrow> adb \<Rightarrow> (AppError + unit) \<times> adb" where
  "HandleLogout v r s =
     (if \<not> pe_DB v then (Inl ErrInternal, s)
      else let bearer = ExtractBearerToken (rq_Authorization r);
               rawToken = (if bearer = [] then (case rq_Cookie r (ae_CookieName (pe_access v)) of None \<Rightarrow> [] | Some c \<Rightarrow> c) else bearer)
           in if rawToken = [] then (Inr (), s)
              else case exec_query (pe_ft v) ''DeleteSession'' (Inr ((), DeleteSession (HashToken rawToken) s)) s of
                (Inl _, s') \<Rightarrow> (Inl ErrInternal, s')
              | (Inr _, s') \<Rightarrow> (Inr (), s'))"

subsection \<open>Administration\<close>

definition parseUserID :: "penv \<Rightarrow> string \<Rightarrow> AppError + UUID" where
  "parseUserID v param =
     (case val_UUID param ''userId'' Map.empty of (idStr, errs) \<Rightarrow>
        if HasErrors errs then Inl (ToAppError errs)
        else case pe_scan v idStr of None \<Rightarrow> Inl ErrInternal | Some i \<Rightarrow> Inr i)"

definition deactivate_body :: "timestamp \<Rightarrow> UUID \<Rightarrow> faults \<Rightarrow> adb \<Rightarrow> db_error + unit \<times> adb" where
  "deactivate_body now u ft s =
     (case query ft ''CountActivePlatformAdminsForUpdate'' (Inr (CountActivePlatformAdminsForUpdate s)) of
        Inl x \<Rightarrow> Inl x
      | Inr _ \<Rightarrow>
          (case query ft ''DeactivateUser'' (Inr (DeactivateUser now u s)) of
             Inl x \<Rightarrow> Inl x
           | Inr s' \<Rightarrow>
               (case query ft ''CountActivePlatformAdmins'' (Inr (CountActivePlatformAdmins s')) of
                  Inl x \<Rightarrow> Inl x
                | Inr remaining \<Rightarrow>
                    if remaining < 1 then Inl (App (Conflict ''cannot deactivate the last active platform admin''))
                    else Inr ((), s'))))"

definition target_user :: "penv \<Rightarrow> UUID \<Rightarrow> adb \<Rightarrow> AppError + UserRow" where
  "target_user v u s =
     (case query (pe_ft v) ''AdminGetUserByID'' (Inr (AdminGetUserByID u s)) of
        Inl _ \<Rightarrow> Inl ErrInternal
      | Inr None \<Rightarrow> Inl (NotFound ''user not found'')
      | Inr (Some row) \<Rightarrow> Inr row)"

definition HandleDeactivateUser :: "penv \<Rightarrow> User \<Rightarrow> string \<Rightarrow> adb \<Rightarrow> (AppError + string) \<times> adb" where
  "HandleDeactivateUser v actingUser param s =
     (if \<not> pe_DB v then (Inl ErrInternal, s)
      else case parseUserID v param of
        Inl x \<Rightarrow> (Inl x, s)
      | Inr pgUserID \<Rightarrow>
          (let userIDStr = ToLower param
           in if usr_ID actingUser = userIDStr then (Inl (BadRequest ''cannot deactivate yourself''), s)
              else case target_user v pgUserID s of
                Inl x \<Rightarrow> (Inl x, s)
              | Inr target \<Rightarrow>
                  if \<not> u_IsActive target then (Inl (BadRequest ''user is already deactivated''), s)
                  else case answer (WithTx (deactivate_body (pe_now v) pgUserID) (pe_fts v) s) of
                    (Inl x, s') \<Rightarrow> (Inl x, s')
                  | (Inr _, s') \<Rightarrow>
                      (Inr userIDStr,
                       snd (exec_query (pe_ft v) ''DeleteUserSessions'' (Inr ((), DeleteUserSessions pgUserID s')) s'))))"

definition HandleActivateUser :: "penv \<Rightarrow> string \<Rightarrow> adb \<Rightarrow> (AppError + string) \<times> adb" where
  "HandleActivateUser v param s =
     (if \<not> pe_DB v then (Inl ErrInternal, s)
      else case parseUserID v param of
        Inl x \<Rightarrow> (Inl x, s)
      | Inr pgUserID \<Rightarrow>
          (case target_user v pgUserID s of
             Inl x \<Rightarrow> (Inl x, s)
           | Inr target \<Rightarrow>
               if u_IsActive target then (Inl (BadRequest ''user is already active''), s)
               else case exec_query (pe_ft v) ''ActivateUser'' (Inr ((), ActivateUser (pe_now v) pgUserID s)) s of
                 (Inl _, s') \<Rightarrow> (Inl ErrInternal, s')
               | (Inr _, s') \<Rightarrow> (Inr (ToLower param), s')))"

definition HandleUpdateUser :: "penv \<Rightarrow> string \<Rightarrow> AppError + profileBody \<Rightarrow> adb \<Rightarrow> (AppError + User) \<times> adb" where
  "HandleUpdateUser v param body s =
     (if \<not> pe_DB v then (Inl ErrInternal, s)
      else case parseUserID v param of
        Inl x \<Rightarrow> (Inl x, s)
      | Inr pgUserID \<Rightarrow>
     (case body of
        Inl x \<Rightarrow> (Inl x, s)
      | Inr b \<Rightarrow>
          if pb_DisplayName b = None \<and> pb_AvatarURL b = None
          then (Inl (BadRequest ''at least one field must be provided''), s)
          else let displayName = map_option TrimSpace (pb_DisplayName b);
                   errs = (if displayName = Some [] then AddErr ''display_name'' ''display_name cannot be blank'' Map.empty else Map.empty);
                   errs = (case pb_AvatarURL b of None \<Rightarrow> errs | Some a \<Rightarrow> if a = [] then errs else snd (val_URL (pe_url v) a ''avatar_url'' errs))
               in if HasErrors errs then (Inl (ToAppError errs), s)
                  else case exec_query (pe_ft v) ''AdminUpdateUser'' (Inr (AdminUpdateUser (pe_now v) pgUserID displayName (pb_AvatarURL b) s)) s of
                    (Inl _, s') \<Rightarrow> (Inl ErrInternal, s')
                  | (Inr None, s') \<Rightarrow> (Inl (NotFound ''user not found''), s')
                  | (Inr (Some row), s') \<Rightarrow> (Inr (DBUserToDomain row), s')))"

datatype grant_answer = Granted UserPlatformRole | AlreadyGranted string string

definition HandleGrantPlatformRole :: "penv \<Rightarrow> User \<Rightarrow> AppError + string \<times> string \<Rightarrow> adb \<Rightarrow> (AppError + grant_answer) \<times> adb" where
  "HandleGrantPlatformRole v actingUser body s =
     (if \<not> pe_DB v then (Inl ErrInternal, s)
      else case body of
        Inl x \<Rightarrow> (Inl x, s)
      | Inr (userID, role) \<Rightarrow>
          (let (userIDStr, errs) = val_UUID userID ''user_id'' Map.empty; errs = snd (Required role ''role'' errs)
           in if HasErrors errs then (Inl (ToAppError errs), s)
              else if \<not> PlatformRoleKnown role then (Inl (BadRequest ''unknown platform role''), s)
              else let pgUserID = (case pe_scan v userIDStr of None \<Rightarrow> null_UUID | Some i \<Rightarrow> i)
                   in case target_user v pgUserID s of
                     Inl x \<Rightarrow> (Inl x, s)
                   | Inr target \<Rightarrow>
                       if \<not> u_IsActive target then (Inl (BadRequest ''user is not active''), s)
                       else let pgGrantedBy = (case pe_scan v (usr_ID actingUser) of None \<Rightarrow> null_UUID | Some i \<Rightarrow> i)
                            in case exec_query (pe_ft v) ''GrantPlatformRole''
                                      (GrantPlatformRole (pe_now v) (pe_fresh v) pgUserID role pgGrantedBy s) s of
                                 (Inl _, s') \<Rightarrow> (Inl ErrInternal, s')
                               | (Inr (Some r), s') \<Rightarrow> (Inr (Granted r), s')
                               | (Inr None, s') \<Rightarrow>
                                   (case query (pe_ft v) ''HasPlatformRole'' (Inr (HasPlatformRole pgUserID role s')) of
                                      Inl _ \<Rightarrow> (Inl ErrInternal, s')
                                    | Inr hasRole \<Rightarrow>
                                        if hasRole then (Inr (AlreadyGranted userIDStr role), s')
                                        else (Inl (BadRequest ''user is not active''), s'))))"

definition revoke_body :: "UUID \<Rightarrow> string \<Rightarrow> faults \<Rightarrow> adb \<Rightarrow> db_error + unit \<times> adb" where
  "revoke_body u role ft s =
     (case query ft ''CountActivePlatformAdminsForUpdate'' (Inr (CountActivePlatformAdminsForUpdate s)) of
        Inl x \<Rightarrow> Inl x
      | Inr _ \<Rightarrow>
          (case query ft ''RevokePlatformRole'' (Inr (RevokePlatformRole u role s)) of
             Inl x \<Rightarrow> Inl x
           | Inr (rows, s') \<Rightarrow>
               if rows = 0 then Inl (App (NotFound ''platform role assignment not found''))
               else case query ft ''CountActivePlatformAdmins'' (Inr (CountActivePlatformAdmins s')) of
                 Inl x \<Rightarrow> Inl x
               | Inr remaining \<Rightarrow>
                   if remaining < 1 then Inl (App (Conflict ''cannot revoke the last platform_admin'')) else Inr ((), s')))"

definition HandleRevokePlatformRole :: "penv \<Rightarrow> User \<Rightarrow> string \<Rightarrow> string \<Rightarrow> adb \<Rightarrow> (AppError + unit) \<times> adb" where
  "HandleRevokePlatformRole v actingUser userParam role s =
     (if \<not> pe_DB v then (Inl ErrInternal, s)
      else let (userIDStr, errs) = val_UUID (ToLower userParam) ''userId'' Map.empty
           in if HasErrors errs then (Inl (ToAppError errs), s)
              else if \<not> PlatformRoleKnown role then (Inl (BadRequest ''unknown platform role''), s)
              else let pgUserID = (case pe_scan v userIDStr of None \<Rightarrow> null_UUID | Some i \<Rightarrow> i)
                   in if usr_ID actingUser = userIDStr \<and> role = PlatformRoleAdmin
                      then (Inl (BadRequest ''cannot revoke your own platform_admin role''), s)
                      else if role = PlatformRoleAdmin
                      then answer (WithTx (revoke_body pgUserID role) (pe_fts v) s)
                      else case exec_query (pe_ft v) ''RevokePlatformRole'' (Inr (RevokePlatformRole pgUserID role s)) s of
                        (Inl _, s') \<Rightarrow> (Inl ErrInternal, s')
                      | (Inr rows, s') \<Rightarrow>
                          if rows = 0 then (Inl (NotFound ''platform role assignment not found''), s') else (Inr (), s'))"

section \<open>The last platform admin\<close>

definition has_admin :: "adb \<Rightarrow> bool" where
  "has_admin s = (\<exists>r \<in> set (ad_roles s). \<exists>u \<in> set (ad_users s).
     sql_eq (u_ID u) (upr_UserID r) \<and> upr_Role r = ''platform_admin'' \<and> u_IsActive u)"

definition keeps_admin :: "adb \<Rightarrow> adb \<Rightarrow> bool" where
  "keeps_admin s s' = (has_admin s \<longrightarrow> has_admin s')"

lemma count_has_admin: "0 < CountActivePlatformAdmins s \<longleftrightarrow> has_admin s"
  by (auto simp: CountActivePlatformAdmins_def has_admin_def filter_empty_conv)

lemma keeps_admin_refl [simp]: "keeps_admin s s"
  by (simp add: keeps_admin_def)

lemma keeps_adminI:
  assumes "set (ad_roles s) \<subseteq> set (ad_roles s')"
    and "\<And>u. u \<in> set (ad_users s) \<Longrightarrow> u_IsActive u \<Longrightarrow> \<exists>u' \<in> set (ad_users s'). u_ID u' = u_ID u \<and> u_IsActive u'"
  shows "keeps_admin s s'"
  unfolding keeps_admin_def has_admin_def using assms by (metis subsetD)

lemma ad_users_set_users [simp]: "ad_users (set_users f s) = f (ad_users s)"
  by (simp add: set_users_def)

lemma set_users_other [simp]:
  "ad_roles (set_users f s) = ad_roles s" "ad_keys (set_users f s) = ad_keys s" "ad_sessions (set_users f s) = ad_sessions s"
  "ad_members (set_users f s) = ad_members s" "ad_projects (set_users f s) = ad_projects s"
  by (simp_all add: set_users_def)

lemma keeps_map_users:
  "(\<And>r. u_ID (f r) = u_ID r \<and> (u_IsActive r \<longrightarrow> u_IsActive (f r))) \<Longrightarrow> keeps_admin s (set_users (map f) s)"
  by (rule keeps_adminI) auto

lemma CreateUser_keeps: "CreateUser now fresh n m d s = Inr (r, s') \<Longrightarrow> keeps_admin s s'"
  by (auto simp: CreateUser_def Let_def split: if_splits intro!: keeps_adminI)

lemma UpdateUserProfile_keeps: "UpdateUserProfile now u d a m s = Inr (r, s') \<Longrightarrow> keeps_admin s s'"
  by (auto simp: UpdateUserProfile_def profile_update_def split: option.splits if_splits intro!: keeps_map_users)

lemma AdminUpdateUser_keeps: "keeps_admin s (snd (AdminUpdateUser now u d a s))"
  by (auto simp: AdminUpdateUser_def Let_def intro!: keeps_map_users)

lemma ActivateUser_keeps: "keeps_admin s (ActivateUser now u s)"
  unfolding ActivateUser_def by (rule keeps_map_users) (simp add: set_active_def)

lemma GrantPlatformRole_keeps: "GrantPlatformRole now fresh u r g s = Inr (x, s') \<Longrightarrow> keeps_admin s s'"
  by (auto simp: GrantPlatformRole_def Let_def split: if_splits intro!: keeps_adminI)

lemma session_keeps: "keeps_admin s (s\<lparr>ad_sessions := x\<rparr>)"
  by (rule keeps_adminI) auto

lemma CreateSession_keeps: "CreateSession now f u h i g x s = Inr (t, s') \<Longrightarrow> keeps_admin s s'"
  by (auto simp: CreateSession_def Let_def session_keeps split: if_splits)

interpretation deact_tx: tx_body "deactivate_body now u" keeps_admin for now u
  by unfold_locales
     (auto simp: deactivate_body_def query_Inr keeps_admin_def count_has_admin [symmetric] split: sum.splits if_splits)

interpretation revoke_tx: tx_body "revoke_body u role" keeps_admin for u role
  by unfold_locales
     (auto simp: revoke_body_def query_Inr keeps_admin_def count_has_admin [symmetric] split: sum.splits if_splits prod.splits)

datatype account_op =
    ARegister penv "AppError + registerBody"
  | AUpdateMe penv "User option" "AppError + profileBody"
  | ALogin penv "AppError + string"
  | ALogout penv request
  | ADeactivate penv User string
  | AActivate penv string
  | AUpdateUser penv string "AppError + profileBody"
  | AGrant penv User "AppError + string \<times> string"
  | ARevoke penv User string string
  | AKey key_op

fun account_step :: "account_op \<Rightarrow> adb \<Rightarrow> adb" where
  "account_step (ARegister v b) s = snd (HandleRegister v b s)"
| "account_step (AUpdateMe v u b) s = snd (HandleUpdateMe v u b s)"
| "account_step (ALogin v b) s = snd (HandleLogin v b s)"
| "account_step (ALogout v r) s = snd (HandleLogout v r s)"
| "account_step (ADeactivate v a p) s = snd (HandleDeactivateUser v a p s)"
| "account_step (AActivate v p) s = snd (HandleActivateUser v p s)"
| "account_step (AUpdateUser v p b) s = snd (HandleUpdateUser v p b s)"
| "account_step (AGrant v a b) s = snd (HandleGrantPlatformRole v a b s)"
| "account_step (ARevoke v a p r) s = snd (HandleRevokePlatformRole v a p r s)"
| "account_step (AKey op) s = key_step op s"

lemma HandleRegister_keeps: "keeps_admin s (snd (HandleRegister v b s))"
  by (auto simp: HandleRegister_def Let_def split: sum.splits prod.splits if_splits dest!: exec_query_snd intro: CreateUser_keeps)

lemma HandleUpdateMe_keeps: "keeps_admin s (snd (HandleUpdateMe v u b s))"
  by (auto simp: HandleUpdateMe_def Let_def split: sum.splits prod.splits option.splits if_splits
      dest!: exec_query_snd intro: UpdateUserProfile_keeps)

lemma HandleLogin_keeps: "keeps_admin s (snd (HandleLogin v b s))"
  by (auto simp: HandleLogin_def Let_def split: sum.splits prod.splits option.splits if_splits
      dest!: exec_query_snd intro: CreateSession_keeps)

lemma HandleLogout_keeps: "keeps_admin s (snd (HandleLogout v r s))"
  by (auto simp: HandleLogout_def Let_def DeleteSession_def session_keeps split: sum.splits prod.splits dest!: exec_query_snd)

lemma keeps_admin_trans: "keeps_admin a b \<Longrightarrow> keeps_admin b c \<Longrightarrow> keeps_admin a c"
  by (simp add: keeps_admin_def)

lemma HandleDeactivateUser_cases:
  assumes "HandleDeactivateUser v a p s = (x, s')"
  shows "(\<exists>e. x = Inl e \<and> s' = s) \<or>
    (\<exists>i s1 y. pe_scan v p = Some i \<and> uuidRE p \<and> WithTx (deactivate_body (pe_now v) i) (pe_fts v) s = (y, s1) \<and>
       ((\<exists>e e'. y = Inl e \<and> x = Inl e' \<and> s' = s1) \<or>
        (y = Inr () \<and> x = Inr (ToLower p) \<and> (s' = s1 \<or> s' = DeleteUserSessions i s1))))"
proof (cases "pe_DB v")
  case True
  show ?thesis
  proof (cases "parseUserID v p")
    case (Inr i)
    then have i: "pe_scan v p = Some i" "uuidRE p"
      by (auto simp: parseUserID_def val_UUID_def split: if_splits option.splits)
    obtain y s1 where w: "WithTx (deactivate_body (pe_now v) i) (pe_fts v) s = (y, s1)" by fastforce
    have ds: "snd (exec_query (pe_ft v) ''DeleteUserSessions'' (Inr ((), DeleteUserSessions i s1)) s1) \<in> {s1, DeleteUserSessions i s1}"
      by (simp add: exec_query_def)
    show ?thesis using assms True Inr i w ds
      by (cases y) (auto simp: HandleDeactivateUser_def Let_def answer_def split: sum.splits if_splits)
  qed (use assms True in \<open>auto simp: HandleDeactivateUser_def\<close>)
qed (use assms in \<open>auto simp: HandleDeactivateUser_def\<close>)

lemma HandleDeactivateUser_keeps: "keeps_admin s (snd (HandleDeactivateUser v a p s))"
proof -
  obtain x s' where h: "HandleDeactivateUser v a p s = (x, s')" by fastforce
  have "keeps_admin s1 (DeleteUserSessions i s1)" for i s1 by (simp add: DeleteUserSessions_def session_keeps)
  then show ?thesis using HandleDeactivateUser_cases [OF h] deact_tx.WithTx_R h keeps_admin_trans
    by (metis keeps_admin_refl snd_conv)
qed

lemma HandleActivateUser_keeps: "keeps_admin s (snd (HandleActivateUser v p s))"
  by (auto simp: HandleActivateUser_def ActivateUser_keeps split: sum.splits prod.splits dest!: exec_query_snd)

lemma HandleUpdateUser_keeps: "keeps_admin s (snd (HandleUpdateUser v p b s))"
proof -
  have "AdminUpdateUser t i d m s = (y, s') \<Longrightarrow> keeps_admin s s'" for t i d m y s'
    using AdminUpdateUser_keeps [of s t i d m] by simp
  then show ?thesis
    by (auto simp: HandleUpdateUser_def Let_def split: sum.splits prod.splits option.splits dest!: exec_query_snd)
qed

lemma HandleGrantPlatformRole_keeps: "keeps_admin s (snd (HandleGrantPlatformRole v a b s))"
  by (auto simp: HandleGrantPlatformRole_def Let_def split: sum.splits prod.splits option.splits if_splits
      dest!: exec_query_snd intro: GrantPlatformRole_keeps)

lemma HandleRevokePlatformRole_keeps: "keeps_admin s (snd (HandleRevokePlatformRole v a p r s))"
  by (simp add: HandleRevokePlatformRole_def Let_def revoke_tx.WithTx_R_snd PlatformRoleKnown_def split: prod.split)

lemma key_step_keeps: "keeps_admin s (key_step op s)"
proof -
  have "key_step op s = s\<lparr>ad_keys := ad_keys (key_step op s)\<rparr>" using key_step_ok [of op s] by (simp add: keys_ok_def keys_evolve_def)
  then obtain ks where "key_step op s = s\<lparr>ad_keys := ks\<rparr>" by blast
  then show ?thesis by (simp add: keeps_admin_def has_admin_def)
qed

lemmas account_keeps = HandleRegister_keeps HandleUpdateMe_keeps HandleLogin_keeps HandleLogout_keeps HandleDeactivateUser_keeps
  HandleActivateUser_keeps HandleUpdateUser_keeps HandleGrantPlatformRole_keeps HandleRevokePlatformRole_keeps key_step_keeps

text \<open>C22: Once the platform has an active admin it keeps one, through every history of registrations, logins, key
  operations and admin calls, by any actors and whatever calls of the database fail.\<close>

theorem platform_keeps_an_admin:
  assumes "has_admin s"
  shows "has_admin (fold account_step ops s)"
proof -
  have "keeps_admin s (account_step op s)" for op s by (cases op) (simp_all add: account_keeps)
  then show ?thesis using assms by (induction ops arbitrary: s) (auto simp: keeps_admin_def)
qed

section \<open>What a deactivation does\<close>

lemma deactivated_state:
  assumes "HandleDeactivateUser v a p s = (Inr x, s')"
  obtains i where "pe_scan v p = Some i" "uuidRE p" "ad_users s' = map (set_active (pe_now v) False i) (ad_users s)"
    "ad_members s' = ad_members s" "ad_keys s' = ad_keys s" "ad_projects s' = ad_projects s" "ad_roles s' = ad_roles s"
    "set (ad_sessions s') \<subseteq> set (ad_sessions s)"
proof -
  obtain i s1 where i: "pe_scan v p = Some i" "uuidRE p" and w: "WithTx (deactivate_body (pe_now v) i) (pe_fts v) s = (Inr (), s1)"
    and s': "s' = s1 \<or> s' = DeleteUserSessions i s1" using HandleDeactivateUser_cases [OF assms] by auto
  obtain k where "deactivate_body (pe_now v) i (pe_fts v k) s = Inr ((), s1)" using deact_tx.WithTx_Inr [OF w] by blast
  then have s1: "s1 = DeactivateUser (pe_now v) i s"
    by (auto simp: deactivate_body_def query_Inr split: sum.splits if_splits)
  show ?thesis using s' by (intro that [OF i]) (auto simp: s1 DeactivateUser_def DeleteUserSessions_def)
qed

lemma set_active_id [simp]: "u_ID (set_active now b i r) = u_ID r"
  by (simp add: set_active_def)

lemma set_active_inactive: "sql_eq (u_ID r) i \<Longrightarrow> \<not> u_IsActive (set_active now False i r)"
  by (simp add: set_active_def)

text \<open>After a successful deactivation no session of the user identifies anyone, at any later time and also when the
  deletion of the sessions failed, and the user cannot log in.\<close>

theorem deactivated_user_is_out:
  assumes "HandleDeactivateUser v a p s = (Inr x, s')" "pe_scan v p = Some i"
  shows "(\<forall>t h ses row. GetSessionByTokenHash t h s' = Some (ses, row) \<longrightarrow> \<not> sql_eq (ses_UserID ses) i) \<and>
    (\<forall>v' name ans s''. HandleLogin v' (Inr name) s' = (Inr ans, s'') \<longrightarrow>
       (\<exists>row. GetUserByUsername (normalizeUsername (pe_lower v') name) s' = Some row \<and> \<not> sql_eq (u_ID row) i))"
proof -
  have users: "ad_users s' = map (set_active (pe_now v) False i) (ad_users s)"
    using deactivated_state [OF assms(1)] assms(2) by (metis option.inject)
  have off: "\<not> u_IsActive r" if "r \<in> set (ad_users s')" "sql_eq (u_ID r) i" for r
    using that set_active_inactive by (auto simp: users)
  have "\<not> sql_eq (ses_UserID ses) i" if "GetSessionByTokenHash t h s' = Some (ses, row)" for t h ses row
    using find_SomeD [OF that [unfolded GetSessionByTokenHash_def]] off sql_eq_trans by auto
  moreover have "\<not> sql_eq (u_ID row) i" if "GetUserByUsername n s' = Some row" for n row
    using find_SomeD [OF that [unfolded GetUserByUsername_def]] off by blast
  ultimately show ?thesis
    by (auto simp: HandleLogin_def Let_def query_Inr split: if_splits sum.splits option.splits prod.splits)
qed

text \<open>But the keys stay: every API key, also a personal one of the deactivated user, keeps exactly the access it had.\<close>

theorem deactivation_leaves_keys_working:
  assumes "HandleDeactivateUser v a p s = (Inr x, s')"
  shows "key_allowed t s' h q m = key_allowed t s h q m \<and> GetAPIKeyByHash t h s' = GetAPIKeyByHash t h s"
proof -
  have "ad_members s' = ad_members s" "ad_keys s' = ad_keys s" using deactivated_state [OF assms] by metis+
  then show ?thesis by (simp add: key_allowed_def GetAPIKeyByHash_def)
qed

lemma deactivation_leaves_owners:
  assumes "HandleDeactivateUser v a p s = (Inr x, s')" "pe_scan v p = Some i"
    and "\<forall>m \<in> set (ad_members s). owner_row q (ad_core s) m \<longrightarrow> sql_eq (pm_UserID m) i"
  shows "\<not> has_owner q (ad_core s')"
proof -
  have users: "ad_users s' = map (set_active (pe_now v) False i) (ad_users s)" and mem: "ad_members s' = ad_members s"
    using deactivated_state [OF assms(1)] assms(2) by (metis option.inject)+
  have act: "user_active (ad_core s') u \<Longrightarrow> user_active (ad_core s) u \<and> \<not> sql_eq u i" for u
    unfolding user_active_def users list_ex_iff
    using sql_eq_trans by (auto simp: set_active_def split: if_splits)
  have "\<not> owner_row q (ad_core s') m" if "m \<in> set (ad_members s')" for m
    using assms(3) that mem act unfolding owner_row_def by metis
  then show ?thesis by (simp add: has_owner_def CountProjectOwnersForUpdate_def filter_empty_conv)
qed

text \<open>The deactivation asks for nothing but a target that is active and not the caller, and another active admin.\<close>

definition other_admin :: "UUID \<Rightarrow> adb \<Rightarrow> bool" where
  "other_admin i s = (\<exists>r \<in> set (ad_roles s). \<exists>u \<in> set (ad_users s).
     sql_eq (u_ID u) (upr_UserID r) \<and> upr_Role r = ''platform_admin'' \<and> u_IsActive u \<and> \<not> sql_eq (u_ID u) i)"

lemma deactivation_succeeds:
  assumes "pe_DB v" "uuidRE p" "pe_scan v p = Some i" "usr_ID a \<noteq> ToLower p" "pe_fts v = (\<lambda>_ _. NoFault)"
    and "pe_ft v ''AdminGetUserByID'' = NoFault" "AdminGetUserByID i s = Some target" "u_IsActive target" "other_admin i s"
  shows "\<exists>s'. HandleDeactivateUser v a p s = (Inr (ToLower p), s')"
proof -
  have "has_admin (DeactivateUser (pe_now v) i s)"
    using assms(9) by (force simp: has_admin_def other_admin_def DeactivateUser_def set_users_def set_active_def)
  then have "deactivate_body (pe_now v) i (\<lambda>_. NoFault) s = Inr ((), DeactivateUser (pe_now v) i s)"
    by (simp add: deactivate_body_def query_NoFault count_has_admin [symmetric])
  then show ?thesis
    using assms(1-8) by (simp add: HandleDeactivateUser_def parseUserID_def val_UUID_def target_user_def query_def answer_def WithTx_no_fault Let_def HasErrors_def)
qed

text \<open>C38: And the last-owner rule of the membership service is passed by: an admin who deactivates an active user other than himself,
  while another platform admin is active, is answered with success also when this user is the only active owner of a
  project, which is left without an active owner.\<close>

theorem deactivation_orphans_project:
  assumes "pe_DB v" "uuidRE p" "pe_scan v p = Some i" "usr_ID a \<noteq> ToLower p" "pe_fts v = (\<lambda>_ _. NoFault)"
    and "pe_ft v ''AdminGetUserByID'' = NoFault" "AdminGetUserByID i s = Some target" "u_IsActive target" "other_admin i s"
    and "has_owner q (ad_core s)" "\<forall>m \<in> set (ad_members s). owner_row q (ad_core s) m \<longrightarrow> sql_eq (pm_UserID m) i"
  shows "\<exists>s'. HandleDeactivateUser v a p s = (Inr (ToLower p), s') \<and> \<not> has_owner q (ad_core s')"
  using deactivation_succeeds [OF assms(1-9)] deactivation_leaves_owners [OF _ assms(3,11)] by blast

section \<open>From registration to identity\<close>

lemma hex_no_space: "\<forall>c. hex_char c \<longrightarrow> (\<forall>r \<in> set space_runes. hd r \<noteq> c \<and> last r \<noteq> c)"
proof -
  have "\<forall>r \<in> set space_runes. \<not> hex_char (hd r) \<and> \<not> hex_char (last r)" by code_simp
  then show ?thesis by metis
qed

lemma hex_token:
  assumes "tok = EncodeToString bytes" "bytes \<noteq> []"
  shows "HasBearerScheme (''Bearer '' @ tok)" "ExtractBearerToken (''Bearer '' @ tok) = tok" "\<not> HasPrefix tok apiKeyPrefix" "tok \<noteq> []"
proof -
  have ne: "tok \<noteq> []" using assms by (cases bytes) (auto simp: EncodeToString_def)
  have hex: "\<forall>c \<in> set tok. hex_char c" using Encode_hex [of bytes] assms(1) by (simp add: list_all_iff)
  then have "hex_char (hd tok)" "hex_char (last tok)" using ne by simp_all
  then have "TrimSpace tok = tok" using hex_no_space ne by (intro TrimSpace_id) auto
  moreover have low: "ToLower ''Bearer '' = ''bearer ''" by code_simp
  ultimately show "ExtractBearerToken (''Bearer '' @ tok) = tok" using ne by (simp add: ExtractBearerToken_def)
  show "HasBearerScheme (''Bearer '' @ tok)" using low by (simp add: HasBearerScheme_def)
  have "\<not> hex_char (CHR ''m'')" by code_simp
  then have "hd tok \<noteq> CHR ''m''" using \<open>hex_char (hd tok)\<close> by metis
  then show "\<not> HasPrefix tok apiKeyPrefix" using ne by (cases tok) (auto simp: HasPrefix_def apiKeyPrefix_def)
  show "tok \<noteq> []" by (rule ne)
qed

lemma HandleLogin_Inr:
  assumes "HandleLogin v (Inr name) s = (Inr (tok, expires, u), s')"
  obtains row bytes t where "GetUserByUsername (normalizeUsername (pe_lower v) name) s = Some row" "u = DBUserToDomain row"
    "pe_random v = Some bytes" "tok = EncodeToString bytes" "expires = pe_now v + pe_TTL v"
    "s' = s\<lparr>ad_sessions := ad_sessions s @ [t]\<rparr>" "ses_UserID t = u_ID row" "ses_TokenHash t = HashToken tok" "ses_ExpiresAt t = expires"
    "\<forall>t' \<in> set (ad_sessions s). ses_TokenHash t' \<noteq> HashToken tok"
proof -
  have "\<exists>row bytes t. GetUserByUsername (normalizeUsername (pe_lower v) name) s = Some row \<and> u = DBUserToDomain row \<and>
      pe_random v = Some bytes \<and> tok = EncodeToString bytes \<and> expires = pe_now v + pe_TTL v \<and>
      s' = s\<lparr>ad_sessions := ad_sessions s @ [t]\<rparr> \<and> ses_UserID t = u_ID row \<and> ses_TokenHash t = HashToken tok \<and> ses_ExpiresAt t = expires \<and>
      (\<forall>t' \<in> set (ad_sessions s). ses_TokenHash t' \<noteq> HashToken tok)"
    using assms
    by (auto simp: HandleLogin_def Let_def query_Inr exec_query_Inr GenerateSessionToken_def CreateSession_def list_ex_iff
        split: if_splits sum.splits option.splits prod.splits)
  then show ?thesis using that by blast
qed

text \<open>A login gives a token that, sent before it expires, identifies the user who logged in.\<close>

lemma login_identifies:
  assumes "HandleLogin v (Inr name) s = (Inr (tok, expires, u), s')" "pe_random v \<noteq> Some []"
    and "GetUserByUsername (normalizeUsername (pe_lower v) name) s = Some row" "uuid_Valid (u_ID row)"
    and "no_faults e" "rq_Authorization r = ''Bearer '' @ tok" "ae_now e < expires"
  shows "\<exists>c u'. IdentityResolver e r s' = (Inr (c, False), s') \<and> cx_user c = Some u' \<and> usr_ID u' = usr_ID u \<and> cx_apikey c = None"
proof -
  obtain bytes t where b: "pe_random v = Some bytes" "tok = EncodeToString bytes" and u: "u = DBUserToDomain row"
    and s': "s' = s\<lparr>ad_sessions := ad_sessions s @ [t]\<rparr>"
    and t: "ses_UserID t = u_ID row" "ses_TokenHash t = HashToken tok" "ses_ExpiresAt t = expires"
    and new: "\<forall>t' \<in> set (ad_sessions s). ses_TokenHash t' \<noteq> HashToken tok"
    using HandleLogin_Inr [OF assms(1)] assms(3) by (metis option.inject)
  have row: "row \<in> set (ad_users s)" "u_IsActive row"
    using find_SomeD [OF assms(3) [unfolded GetUserByUsername_def]] by auto
  let ?P = "\<lambda>(t, u). sql_eq (u_ID u) (ses_UserID t) \<and> ses_TokenHash t = HashToken tok \<and> ae_now e < ses_ExpiresAt t \<and> u_IsActive u"
  have "?P (t, row)" using t row assms(4,7) by (simp add: sql_eq_def)
  moreover have "(t, row) \<in> set (List.product (ad_sessions s') (ad_users s'))" using row s' by simp
  ultimately have "GetSessionByTokenHash (ae_now e) (HashToken tok) s' \<noteq> None"
    unfolding GetSessionByTokenHash_def find_None_iff by blast
  then obtain t' row' where g: "GetSessionByTokenHash (ae_now e) (HashToken tok) s' = Some (t', row')" by auto
  then have "t' \<in> set (ad_sessions s')" "ses_TokenHash t' = HashToken tok"
    using find_SomeD [OF g [unfolded GetSessionByTokenHash_def]] by auto
  then have t': "t' = t" using new s' by auto
  note tk = hex_token [OF b(2)]
  have "bytes \<noteq> []" using assms(2) b(1) by auto
  then have "IdentityResolver e r s' = (Inr (empty_ctx\<lparr>cx_user := Some (SessionRowToUser (t', row'))\<rparr>, False), s')"
    using tk assms(5,6) g by (simp add: IdentityResolver_def no_faults_def query_NoFault Let_def)
  moreover have "usr_ID (SessionRowToUser (t', row')) = usr_ID u" using t(1) by (simp add: t' SessionRowToUser_def u DBUserToDomain_def)
  ultimately show ?thesis by (simp add: empty_ctx_def)
qed

lemma registered_row:
  assumes "HandleRegister v (Inr b) s = (Inr u, s')"
  shows "\<exists>row. GetUserByUsername (normalizeUsername (pe_lower v) (rb_Username b)) s' = Some row \<and> u = DBUserToDomain row \<and> u_ID row = pe_fresh v"
proof -
  obtain row email d where c: "CreateUser (pe_now v) (pe_fresh v) (normalizeUsername (pe_lower v) (rb_Username b)) email d s = Inr (row, s')"
    and u: "u = DBUserToDomain row"
    using assms by (auto simp: HandleRegister_def Let_def exec_query_Inr split: sum.splits prod.splits if_splits)
  let ?n = "normalizeUsername (pe_lower v) (rb_Username b)"
  have r: "ad_users s' = ad_users s @ [row]" "u_Username row = ?n" "u_IsActive row" "u_ID row = pe_fresh v" "\<not> username_taken ?n s"
    using c by (auto simp: CreateUser_def Let_def split: if_splits)
  then have "GetUserByUsername ?n s' = Some row"
    unfolding GetUserByUsername_def by (intro find_unique) (auto simp: username_taken_def list_ex_iff)
  then show ?thesis using u r(4) by blast
qed

text \<open>A user who registers and then logs in under the same name, however it is written, gets a token that identifies
  exactly the registered account.\<close>

theorem registered_user_is_identified:
  assumes "HandleRegister v (Inr b) s = (Inr u, s1)" "uuid_Valid (pe_fresh v)"
    and "HandleLogin w (Inr name) s1 = (Inr (tok, expires, u2), s2)" "pe_random w \<noteq> Some []"
    and "normalizeUsername (pe_lower w) name = normalizeUsername (pe_lower v) (rb_Username b)"
    and "no_faults e" "rq_Authorization r = ''Bearer '' @ tok" "ae_now e < expires"
  shows "\<exists>c u'. IdentityResolver e r s2 = (Inr (c, False), s2) \<and> cx_user c = Some u' \<and> usr_ID u' = usr_ID u \<and> cx_apikey c = None"
proof -
  obtain row where row: "GetUserByUsername (normalizeUsername (pe_lower w) name) s1 = Some row" "u = DBUserToDomain row" "u_ID row = pe_fresh v"
    using registered_row [OF assms(1)] assms(5) by auto
  then have "u2 = u" using HandleLogin_Inr [OF assms(3)] by (metis option.inject)
  then show ?thesis using login_identifies [OF assms(3,4) row(1) _ assms(6-8)] row(3) assms(2) by auto
qed

text \<open>A logout that succeeds ends the session of the token it presents: from then on the token identifies no one.\<close>

theorem logout_ends_session:
  assumes "HandleLogout v r s = (Inr x, s')" "presented (pe_access v) r tok"
  shows "\<not> session_of t s' tok u"
proof -
  have "s' = DeleteSession (HashToken tok) s"
  proof (cases "ExtractBearerToken (rq_Authorization r) = []")
    case True
    then show ?thesis using assms
      by (auto simp: HandleLogout_def presented_def Let_def exec_query_Inr split: if_splits sum.splits prod.splits)
  next
    case False
    then have "HasBearerScheme (rq_Authorization r)"
      by (auto simp: ExtractBearerToken_def HasBearerScheme_def split: if_splits)
    then show ?thesis using assms False
      by (auto simp: HandleLogout_def presented_def Let_def exec_query_Inr split: if_splits sum.splits prod.splits)
  qed
  then show ?thesis by (auto simp: session_of_def DeleteSession_def)
qed

section \<open>Examples\<close>

definition ex_penv :: penv where
  "ex_penv = \<lparr>pe_access = ex_aenv, pe_fts = (\<lambda>_ _. NoFault), pe_fresh = ex_uuid 3, pe_random = Some ''r'', pe_lower = ToLower,
     pe_url = (\<lambda>_. True), pe_TTL = 10, pe_RemoteAddr = [], pe_UserAgent = []\<rparr>"

text \<open>The owner 1 of project 1 is a user like any other; user 9 is the platform admin.\<close>

definition ex_platform :: adb where
  "ex_platform = (ex_adb ''new'')\<lparr>ad_core := ex_db\<lparr>db_users := [ex_user 1 True, ex_user 2 False, ex_user 9 True]\<rparr>,
     ad_roles := [\<lparr>upr_ID = ex_uuid 7, upr_UserID = ex_uuid 9, upr_Role = ''platform_admin'', upr_GrantedBy = null_UUID, upr_CreatedAt = 0\<rparr>]\<rparr>"

definition ex_admin :: User where
  "ex_admin = ex_caller\<lparr>usr_ID := ''admin''\<rparr>"

lemma ex_chars9: "char_of (9 :: nat) = CHR 0x09" by code_simp

lemma ex_has_admin: "has_admin ex_platform"
  by (simp add: has_admin_def ex_platform_def ex_adb_def ex_defs sql_eq_def)

theorem platform_keeps_an_admin_witness:
  "has_admin (fold account_step [ADeactivate ex_penv ex_admin ex_id, ALogin ex_penv (Inr ''x'')] ex_platform)"
  by (rule platform_keeps_an_admin [OF ex_has_admin])

lemma ex_id_valid: "uuidRE ex_id"
  unfolding ex_id_def by (rule PgUUIDToString_valid) (simp_all add: wf_UUID_def ex_uuid_def)

lemma ex_id_admin: "ToLower ex_id \<noteq> ''admin''"
proof -
  have "length (ToLower ex_id) = 36" by (simp add: ToLower_def ex_id_def PgUUIDToString_def ex_uuid_def length_dashed)
  then show ?thesis by auto
qed

lemma ex_scan_id: "pe_scan ex_penv ex_id = Some (ex_uuid 1)"
  by (simp add: ex_penv_def ex_aenv_def ex_scan_def)

lemma ex_deactivate: "\<exists>x s'. HandleDeactivateUser ex_penv ex_admin ex_id ex_platform = (Inr x, s')"
proof -
  have "\<exists>s'. deactivate_body 5 (ex_uuid 1) (\<lambda>_. NoFault) ex_platform = Inr ((), s')"
    by (simp add: deactivate_body_def query_NoFault CountActivePlatformAdmins_def DeactivateUser_def set_users_def set_active_def
        ex_platform_def ex_adb_def ex_defs ex_chars9 sql_eq_def)
  then obtain s' where "deactivate_body 5 (ex_uuid 1) (\<lambda>_. NoFault) ex_platform = Inr ((), s')" by blast
  then show ?thesis
    using ex_id_valid ex_id_admin ex_scan_id
    by (simp add: HandleDeactivateUser_def parseUserID_def val_UUID_def target_user_def AdminGetUserByID_def ex_penv_def ex_aenv_def
        query_NoFault answer_def WithTx_no_fault ex_admin_def Let_def ex_platform_def ex_adb_def ex_defs sql_eq_def)
qed

theorem deactivated_user_is_out_witness:
  "\<exists>x s'. HandleDeactivateUser ex_penv ex_admin ex_id ex_platform = (Inr x, s') \<and>
     (\<forall>t h ses row. GetSessionByTokenHash t h s' = Some (ses, row) \<longrightarrow> \<not> sql_eq (ses_UserID ses) (ex_uuid 1))"
  using ex_deactivate deactivated_user_is_out [OF _ ex_scan_id] by blast

theorem deactivation_leaves_keys_working_witness:
  "\<exists>x s'. HandleDeactivateUser ex_penv ex_admin ex_id ex_platform = (Inr x, s') \<and>
     key_allowed 9 s' ''new'' (ex_uuid 1) RoleAdmin"
proof -
  obtain x s' where d: "HandleDeactivateUser ex_penv ex_admin ex_id ex_platform = (Inr x, s')" using ex_deactivate by blast
  have "key_allowed 9 ex_platform ''new'' (ex_uuid 1) RoleAdmin"
    by (simp add: key_allowed_def ex_platform_def ex_adb_def ex_key_def ex_defs key_live_def sql_eq_def null_UUID_def
        RoleSufficient_def RoleKnown_def role_defs)
  then show ?thesis using deactivation_leaves_keys_working [OF d] d by blast
qed

theorem deactivation_orphans_project_witness:
  "has_owner (ex_uuid 1) (ad_core ex_platform) \<and>
   (\<exists>s'. HandleDeactivateUser ex_penv ex_admin ex_id ex_platform = (Inr (ToLower ex_id), s') \<and> \<not> has_owner (ex_uuid 1) (ad_core s'))"
proof -
  have owners: "\<forall>m \<in> set (ad_members ex_platform). owner_row (ex_uuid 1) (ad_core ex_platform) m \<longrightarrow> sql_eq (pm_UserID m) (ex_uuid 1)"
    by (simp add: ex_platform_def ex_adb_def ex_defs ex_chars9 owner_row_def user_active_def sql_eq_def)
  have owned: "has_owner (ex_uuid 1) (ad_core ex_platform)"
    by (simp add: has_owner_def CountProjectOwnersForUpdate_def ex_platform_def ex_adb_def ex_defs owner_row_def user_active_def sql_eq_def)
  have target: "\<exists>row. AdminGetUserByID (ex_uuid 1) ex_platform = Some row \<and> u_IsActive row"
    by (simp add: AdminGetUserByID_def ex_platform_def ex_adb_def ex_defs sql_eq_def)
  have other: "other_admin (ex_uuid 1) ex_platform"
    by (simp add: other_admin_def ex_platform_def ex_adb_def ex_defs ex_chars9 sql_eq_def)
  have env: "pe_DB ex_penv" "usr_ID ex_admin \<noteq> ToLower ex_id" "pe_fts ex_penv = (\<lambda>_ _. NoFault)" "pe_ft ex_penv ''AdminGetUserByID'' = NoFault"
    using ex_id_admin by (simp_all add: ex_penv_def ex_aenv_def ex_admin_def)
  from target obtain row where row: "AdminGetUserByID (ex_uuid 1) ex_platform = Some row" "u_IsActive row" by blast
  show ?thesis
    using deactivation_orphans_project [OF env(1) ex_id_valid ex_scan_id env(2-4) row other owned owners] owned by blast
qed

definition ex_register :: registerBody where
  "ex_register = \<lparr>rb_Username = ''Ann'', rb_Email = ''ann@x.org'', rb_DisplayName = []\<rparr>"

lemma ex_registered:
  "\<exists>u s1. HandleRegister ex_penv (Inr ex_register) ex_no_keys = (Inr u, s1) \<and> ad_sessions s1 = [] \<and>
     GetUserByUsername ''ann'' s1 \<noteq> None \<and> has_user (ex_uuid 3) s1 \<and> (\<forall>row. GetUserByUsername ''ann'' s1 = Some row \<longrightarrow> u_ID row = ex_uuid 3 \<and> u_IsActive row)"
proof -
  have n: "normalizeUsername ToLower ''Ann'' = ''ann''" by code_simp
  have e: "val_Email ToLower ''ann@x.org'' f m = (''ann@x.org'', m)" for f m
  proof -
    have "TrimSpace ''ann@x.org'' = ''ann@x.org''" "CountByte ''ann@x.org'' (CHR ''@'') = 1" "ToLower ''ann@x.org'' = ''ann@x.org''"
      by code_simp+
    then show ?thesis by (simp add: val_Email_def)
  qed
  have r: "Required ''ann'' f m = (''ann'', m)" for f m
  proof -
    have "TrimSpace ''ann'' = ''ann''" by code_simp
    then show ?thesis by (simp add: Required_def)
  qed
  have c3: "char_of (3 :: nat) = CHR 0x03" by code_simp
  have t: "TrimSpace [] = []" by code_simp
  show ?thesis
    by (simp add: HandleRegister_def ex_register_def ex_penv_def ex_aenv_def n e r t ReservedUsername_def reservedUsernames_def
        exec_query_def query_NoFault CreateUser_def has_user_def username_taken_def email_taken_def GetUserByUsername_def ex_no_keys_def
        ex_defs c3 sql_eq_def set_users_def Let_def)
qed

lemma ex_logged_in:
  "\<exists>u s1 tok u2 s2. HandleRegister ex_penv (Inr ex_register) ex_no_keys = (Inr u, s1) \<and>
     HandleLogin ex_penv (Inr '' ANN '') s1 = (Inr (tok, 15, u2), s2)"
proof -
  obtain u s1 row where h: "HandleRegister ex_penv (Inr ex_register) ex_no_keys = (Inr u, s1)" "ad_sessions s1 = []"
    "has_user (ex_uuid 3) s1" and row: "GetUserByUsername ''ann'' s1 = Some row" "u_ID row = ex_uuid 3" "u_IsActive row"
    using ex_registered by (metis option.exhaust)
  have n: "normalizeUsername ToLower '' ANN '' = ''ann''" by code_simp
  have "TrimSpace ''ann'' = ''ann''" by code_simp
  then have "\<exists>tok u2 s2. HandleLogin ex_penv (Inr '' ANN '') s1 = (Inr (tok, 15, u2), s2)"
    using h(2,3) row
    by (simp add: HandleLogin_def ex_penv_def ex_aenv_def n Required_def query_NoFault GenerateSessionToken_def exec_query_def CreateSession_def Let_def)
  then show ?thesis using h(1) by blast
qed

theorem registered_user_is_identified_witness:
  "\<exists>u s1 tok u2 s2 c u'. HandleRegister ex_penv (Inr ex_register) ex_no_keys = (Inr u, s1) \<and>
     HandleLogin ex_penv (Inr '' ANN '') s1 = (Inr (tok, 15, u2), s2) \<and>
     IdentityResolver ex_aenv (ex_request tok) s2 = (Inr (c, False), s2) \<and> cx_user c = Some u' \<and> usr_ID u' = usr_ID u"
proof -
  obtain u s1 tok u2 s2 where h: "HandleRegister ex_penv (Inr ex_register) ex_no_keys = (Inr u, s1)"
    "HandleLogin ex_penv (Inr '' ANN '') s1 = (Inr (tok, 15, u2), s2)" using ex_logged_in by blast
  have "normalizeUsername (pe_lower ex_penv) '' ANN '' = normalizeUsername (pe_lower ex_penv) (rb_Username ex_register)"
    unfolding ex_penv_def ex_register_def by code_simp
  then show ?thesis
    using registered_user_is_identified [OF h(1) _ h(2) _ _ ex_no_faults, of "ex_request tok"] h
    by (auto simp: ex_penv_def ex_uuid_def ex_request_def ex_aenv_def)
qed

theorem logout_ends_session_witness:
  "\<exists>x s'. HandleLogout ex_penv (ex_request ''mj_x'') ex_platform = (Inr x, s') \<and> \<not> session_of 5 s' ''mj_x'' ex_admin"
proof -
  have p: "presented ex_aenv (ex_request ''mj_x'') ''mj_x''" using ex_bearer by (simp add: presented_def ex_request_def)
  have "\<exists>x s'. HandleLogout ex_penv (ex_request ''mj_x'') ex_platform = (Inr x, s')"
    using ex_bearer by (simp add: HandleLogout_def ex_request_def ex_penv_def ex_aenv_def exec_query_def query_NoFault)
  then show ?thesis using logout_ends_session [of ex_penv "ex_request ''mj_x''" ex_platform _ _ "''mj_x''"] p
    by (fastforce simp: ex_penv_def)
qed

end
