(* ===== verification/Git_Log.thy ===== *)
theory Git_Log
  imports Api_Domain "HOL-Library.AList" "HOL-Library.Multiset"
begin

text \<open>
  Reading the history of a repository from the output of git
  (\<^verbatim>\<open>LogCommits\<close>, \<^verbatim>\<open>DiffStatLog\<close>, \<^verbatim>\<open>ListTrackedFiles\<close> and their parsers in
  \<^verbatim>\<open>src/backend-worker/internal/gitclient/gitclient.go\<close>).

  \<open>gr_run args\<close> is the output of git for the arguments, or the error; \<open>gr_time\<close> reads an RFC 3339 time (\<^verbatim>\<open>time.Parse\<close>);
  \<open>gr_quote\<close> is the quoted form of a text in an error message (\<^verbatim>\<open>%q\<close>). A Go map is an association list with
  distinct keys; \<open>gr_keys\<close> is the order in which its keys are visited.
\<close>

section \<open>Definitions\<close>

abbreviation RS :: char where "RS \<equiv> CHR 0x1E"
abbreviation US :: char where "US \<equiv> CHR 0x1F"

record gitrunner =
  gr_run :: "string list \<Rightarrow> string + string"
  gr_time :: "string \<Rightarrow> timestamp option"
  gr_quote :: "string \<Rightarrow> string"
  gr_keys :: "string list \<Rightarrow> string list"

text \<open>\<^verbatim>\<open>strings.SplitN(s, sep, n)\<close> for a one-byte separator and \<open>n > 0\<close>.\<close>

fun SplitN :: "nat \<Rightarrow> string \<Rightarrow> char \<Rightarrow> string list" where
  "SplitN n [] sep = [[]]"
| "SplitN n (c # s) sep =
     (if n \<le> 1 then [c # s]
      else if c = sep then [] # SplitN (n - 1) s sep
      else (case SplitN n s sep of [] \<Rightarrow> [[c]] | p # ps \<Rightarrow> (c # p) # ps))"

record CommitLog =
  cl_Hash :: string
  cl_ParentHashes :: "string list"
  cl_AuthorName :: string
  cl_AuthorEmail :: string
  cl_AuthorDate :: timestamp
  cl_CommitterName :: string
  cl_CommitterEmail :: string
  cl_CommitterDate :: timestamp
  cl_Message :: string

record FileDiffEntry =
  fd_Status :: string
  fd_Path :: string
  fd_Additions :: int
  fd_Deletions :: int
  fd_Patch :: string

definition logArgs :: "string \<Rightarrow> int \<Rightarrow> string list \<Rightarrow> string list" where
  "logArgs sinceCommit maxCount extra =
     [''log''] @ (if sinceCommit = [] then [''--first-parent''] else []) @
     (if maxCount > 0 then [''--max-count='' @ show_int maxCount] else []) @ extra @
     (if sinceCommit \<noteq> [] then [sinceCommit @ ''..HEAD''] else [])"

subsection \<open>Commits\<close>

definition parse_record :: "gitrunner \<Rightarrow> string \<Rightarrow> string + CommitLog" where
  "parse_record g rec =
     (let fs = SplitN 9 rec US
      in if length fs < 9 then Inl (''gitclient: log parse: expected 9 fields, got '' @ show_nat (length fs))
         else case gr_time g (TrimSpace (fs ! 4)) of
           None \<Rightarrow> Inl (''gitclient: log parse author date '' @ gr_quote g (fs ! 4))
         | Some authorDate \<Rightarrow>
             (case gr_time g (TrimSpace (fs ! 7)) of
                None \<Rightarrow> Inl (''gitclient: log parse committer date '' @ gr_quote g (fs ! 7))
              | Some committerDate \<Rightarrow>
                  Inr \<lparr>cl_Hash = TrimSpace (fs ! 0), cl_ParentHashes = Fields (TrimSpace (fs ! 1)),
                       cl_AuthorName = TrimSpace (fs ! 2), cl_AuthorEmail = TrimSpace (fs ! 3), cl_AuthorDate = authorDate,
                       cl_CommitterName = TrimSpace (fs ! 5), cl_CommitterEmail = TrimSpace (fs ! 6),
                       cl_CommitterDate = committerDate, cl_Message = TrimSpace (fs ! 8)\<rparr>))"

fun parse_records :: "gitrunner \<Rightarrow> string list \<Rightarrow> string + CommitLog list" where
  "parse_records g [] = Inr []"
| "parse_records g (rec # recs) =
     (let rec = TrimSpace rec
      in if rec = [] then parse_records g recs
         else case parse_record g rec of
           Inl e \<Rightarrow> Inl e
         | Inr c \<Rightarrow> (case parse_records g recs of Inl e \<Rightarrow> Inl e | Inr cs \<Rightarrow> Inr (c # cs)))"

definition parseLogCommits :: "gitrunner \<Rightarrow> string \<Rightarrow> string + CommitLog list" where
  "parseLogCommits g data =
     (let raw = TrimSpace data in if raw = [] then Inr [] else parse_records g (Split raw RS))"

definition commitFormat :: string where
  "commitFormat = ''--format=%H'' @ [US] @ ''%P'' @ [US] @ ''%an'' @ [US] @ ''%ae'' @ [US] @ ''%aI'' @ [US] @ ''%cn'' @ [US] @ ''%ce'' @
     [US] @ ''%cI'' @ [US] @ ''%B'' @ [RS]"

definition LogCommits :: "gitrunner \<Rightarrow> string \<Rightarrow> int \<Rightarrow> string + CommitLog list" where
  "LogCommits g sinceCommit maxCount =
     (case gr_run g (logArgs sinceCommit maxCount [commitFormat]) of
        Inl e \<Rightarrow> Inl (''gitclient: log commits: '' @ e)
      | Inr out \<Rightarrow> parseLogCommits g out)"

definition ListTrackedFiles :: "gitrunner \<Rightarrow> string + string list" where
  "ListTrackedFiles g =
     (case gr_run g [''ls-files'', ''-z''] of
        Inl e \<Rightarrow> Inl (''gitclient: ls-files: '' @ e)
      | Inr raw \<Rightarrow>
          if raw = [] then Inr []
          else let files = Split raw (CHR 0x00)
               in Inr (if files \<noteq> [] \<and> last files = [] then butlast files else files))"

subsection \<open>Changed files\<close>

type_synonym file_map = "(string \<times> FileDiffEntry) list"
type_synonym diff_map = "(string \<times> file_map) list"

definition commit_mark :: string where
  "commit_mark = ''COMMIT:''"

definition trim_eol :: "string \<Rightarrow> string" where
  "trim_eol s = dropWhile (\<lambda>c. c = CHR 0x0A \<or> c = CHR 0x0D) s"

definition with_commit :: "string \<Rightarrow> diff_map \<Rightarrow> diff_map" where
  "with_commit h m = (if map_of m h = None then AList.update h [] m else m)"

definition files_of :: "diff_map \<Rightarrow> string \<Rightarrow> file_map" where
  "files_of m h = (case map_of m h of None \<Rightarrow> [] | Some fm \<Rightarrow> fm)"

definition put_entry :: "string \<Rightarrow> FileDiffEntry \<Rightarrow> diff_map \<Rightarrow> diff_map" where
  "put_entry h d m = AList.update h (AList.update (fd_Path d) d (files_of m h)) m"

definition new_entry :: "string \<Rightarrow> string \<Rightarrow> FileDiffEntry" where
  "new_entry status path = \<lparr>fd_Status = status, fd_Path = path, fd_Additions = 0, fd_Deletions = 0, fd_Patch = []\<rparr>"

text \<open>The state of the loop: the map, the current commit and the pending status, empty for none.\<close>

definition name_status_field :: "diff_map \<times> string \<times> string \<Rightarrow> string \<Rightarrow> diff_map \<times> string \<times> string" where
  "name_status_field st fld =
     (case st of (result, currentHash, pendingStatus) \<Rightarrow>
        let fld = trim_eol fld
        in if fld = [] then (result, currentHash, pendingStatus)
           else if HasPrefix fld commit_mark
           then (with_commit (TrimPrefix fld commit_mark) result, TrimPrefix fld commit_mark, [])
           else if currentHash = [] then (result, currentHash, pendingStatus)
           else if pendingStatus = [] then (result, currentHash, fld)
           else (put_entry currentHash (new_entry pendingStatus fld) result, currentHash, []))"

definition parseNameStatusLogZ :: "string \<Rightarrow> diff_map" where
  "parseNameStatusLogZ data = fst (foldl name_status_field ([], [], []) (Split data (CHR 0x00)))"

text \<open>\<^verbatim>\<open>strconv.Atoi\<close> with its error ignored: 0 for no number, the nearest 64-bit value for one out of range.\<close>

definition is_digit :: "char \<Rightarrow> bool" where
  "is_digit c = (48 \<le> (of_char c :: nat) \<and> (of_char c :: nat) \<le> 57)"

definition digits_value :: "string \<Rightarrow> nat" where
  "digits_value s = foldl (\<lambda>n c. 10 * n + (of_char c - 48)) 0 s"

definition Atoi :: "string \<Rightarrow> int" where
  "Atoi s =
     (let neg = (s \<noteq> [] \<and> hd s = CHR ''-''); d = (if s \<noteq> [] \<and> (hd s = CHR ''-'' \<or> hd s = CHR ''+'') then tl s else s)
      in if d = [] \<or> \<not> list_all is_digit d then 0
         else if neg then max (- int (digits_value d)) (- (2 ^ 63)) else min (int (digits_value d)) (2 ^ 63 - 1))"

definition numstat_field :: "diff_map \<times> string \<Rightarrow> string \<Rightarrow> diff_map \<times> string" where
  "numstat_field st fld =
     (case st of (entries, currentHash) \<Rightarrow>
        let fld = trim_eol fld
        in if fld = [] then (entries, currentHash)
           else if HasPrefix fld commit_mark
           then (with_commit (TrimPrefix fld commit_mark) entries, TrimPrefix fld commit_mark)
           else if currentHash = [] then (entries, currentHash)
           else case SplitN 3 fld (CHR 0x09) of
             [a, d, path] \<Rightarrow>
               (case map_of (files_of entries currentHash) path of
                  Some entry \<Rightarrow> (put_entry currentHash (entry\<lparr>fd_Additions := Atoi a, fd_Deletions := Atoi d\<rparr>) entries, currentHash)
                | None \<Rightarrow> (put_entry currentHash ((new_entry ''M'' path)\<lparr>fd_Additions := Atoi a, fd_Deletions := Atoi d\<rparr>) entries, currentHash))
           | _ \<Rightarrow> (entries, currentHash))"

definition mergeNumstatLogZ :: "string \<Rightarrow> diff_map \<Rightarrow> diff_map" where
  "mergeNumstatLogZ data entries = fst (foldl numstat_field (entries, []) (Split data (CHR 0x00)))"

subsection \<open>Patches\<close>

definition octal :: "char \<Rightarrow> bool" where
  "octal c = (48 \<le> (of_char c :: nat) \<and> (of_char c :: nat) \<le> 55)"

definition octal_byte :: "char \<Rightarrow> char \<Rightarrow> char \<Rightarrow> char" where
  "octal_byte a b c = char_of (((of_char a - 48) * 64 + (of_char b - 48) * 8 + (of_char c - 48)) mod 256 :: nat)"

definition simple_escape :: "char \<Rightarrow> char option" where
  "simple_escape c =
     map_of [(CHR ''n'', CHR 0x0A), (CHR ''t'', CHR 0x09), (CHR ''r'', CHR 0x0D), (CHR ''a'', CHR 0x07), (CHR ''b'', CHR 0x08),
             (CHR ''f'', CHR 0x0C), (CHR ''v'', CHR 0x0B), (CHR 0x5C, CHR 0x5C), (CHR 0x22, CHR 0x22)] c"

fun unquoteGitPath :: "string \<Rightarrow> string" where
  "unquoteGitPath [] = []"
| "unquoteGitPath [c] = [c]"
| "unquoteGitPath (c # next # rest) =
     (if c \<noteq> CHR 0x5C then c # unquoteGitPath (next # rest)
      else case simple_escape next of
        Some b \<Rightarrow> b # unquoteGitPath rest
      | None \<Rightarrow>
          (case rest of
             d2 # d3 # rest' \<Rightarrow>
               if octal next \<and> octal d2 \<and> octal d3 then octal_byte next d2 d3 # unquoteGitPath rest'
               else c # unquoteGitPath (next # rest)
           | _ \<Rightarrow> c # unquoteGitPath (next # rest)))"

definition diff_prefix :: string where
  "diff_prefix = ''diff --git ''"

definition parseDiffGitPath :: "string \<Rightarrow> string" where
  "parseDiffGitPath line =
     (let rest = TrimPrefix line diff_prefix
      in if HasPrefix rest (CHR 0x22 # ''a/'') then
           (if length rest < 8 then []
            else let escapedLen = (length rest - 8) div 2
                 in if escapedLen = 0 then [] else unquoteGitPath (take escapedLen (drop 3 rest)))
         else if length rest < 5 \<or> \<not> HasPrefix rest ''a/'' then []
         else let pathLen = (length rest - 5) div 2 in if pathLen = 0 then [] else take pathLen (drop 2 rest))"

definition maxPatchBytes :: nat where
  "maxPatchBytes = 5 * 1024 * 1024"

record patch_state =
  pt_entries :: diff_map
  pt_Hash :: string
  pt_Path :: string
  pt_Lines :: "string list"
  pt_Size :: nat
  pt_Oversized :: bool

definition flush_patch :: "patch_state \<Rightarrow> patch_state" where
  "flush_patch st =
     (if pt_Hash st = [] \<or> pt_Path st = [] then st
      else if pt_Oversized st \<or> pt_Size st = 0 then st
      else case map_of (pt_entries st) (pt_Hash st) of
        None \<Rightarrow> st
      | Some fileMap \<Rightarrow>
          (case map_of fileMap (pt_Path st) of
             None \<Rightarrow> st
           | Some entry \<Rightarrow>
               st\<lparr>pt_entries := AList.update (pt_Hash st)
                    (AList.update (pt_Path st) (entry\<lparr>fd_Patch := Join (pt_Lines st) [CHR 0x0A]\<rparr>) fileMap) (pt_entries st)\<rparr>))"

definition header_prefixes :: "string list" where
  "header_prefixes = [''index '', ''old mode '', ''new mode '', ''new file mode '', ''deleted file mode '', ''similarity index '',
     ''copy from '', ''copy to '', ''rename from '', ''rename to '']"

definition patch_line :: "patch_state \<Rightarrow> string \<Rightarrow> patch_state" where
  "patch_line st line =
     (if HasPrefix line commit_mark then
        (let st = flush_patch st; h = TrimPrefix line commit_mark
         in st\<lparr>pt_entries := with_commit h (pt_entries st), pt_Hash := h, pt_Path := [], pt_Lines := [], pt_Size := 0, pt_Oversized := False\<rparr>)
      else if pt_Hash st = [] then st
      else if HasPrefix line diff_prefix then
        (flush_patch st)\<lparr>pt_Path := parseDiffGitPath line, pt_Lines := [], pt_Size := 0, pt_Oversized := False\<rparr>
      else if pt_Path st = [] then st
      else if HasPrefix line ''Binary files '' then st\<lparr>pt_Path := [], pt_Lines := [], pt_Size := 0\<rparr>
      else if list_ex (HasPrefix line) header_prefixes then st
      else if pt_Oversized st then st
      else if pt_Size st + length line + 1 > maxPatchBytes
      then st\<lparr>pt_Size := pt_Size st + length line + 1, pt_Oversized := True, pt_Lines := []\<rparr>
      else st\<lparr>pt_Size := pt_Size st + length line + 1, pt_Lines := pt_Lines st @ [line]\<rparr>)"

definition mergePatchLog :: "string \<Rightarrow> diff_map \<Rightarrow> diff_map" where
  "mergePatchLog data entries =
     pt_entries (flush_patch (foldl patch_line
       \<lparr>pt_entries = entries, pt_Hash = [], pt_Path = [], pt_Lines = [], pt_Size = 0, pt_Oversized = False\<rparr> (Split data (CHR 0x0A))))"

definition commonFlags :: "string list" where
  "commonFlags = [''--no-renames'', ''--diff-filter=ACDMT'']"

definition diff_list :: "gitrunner \<Rightarrow> file_map \<Rightarrow> FileDiffEntry list" where
  "diff_list g fm = map (\<lambda>p. the (map_of fm p)) (gr_keys g (map fst fm))"

definition DiffStatLog :: "gitrunner \<Rightarrow> string \<Rightarrow> int \<Rightarrow> string + (string \<rightharpoonup> FileDiffEntry list)" where
  "DiffStatLog g sinceCommit maxCount =
     (case gr_run g (logArgs sinceCommit maxCount ([''--name-status'', ''-z'', ''--format=COMMIT:%H''] @ commonFlags)) of
        Inl e \<Rightarrow> Inl (''gitclient: diff stat log (name-status): '' @ e)
      | Inr nsOut \<Rightarrow>
     (case gr_run g (logArgs sinceCommit maxCount ([''--numstat'', ''-z'', ''--format=COMMIT:%H''] @ commonFlags)) of
        Inl e \<Rightarrow> Inl (''gitclient: diff stat log (numstat): '' @ e)
      | Inr numOut \<Rightarrow>
          (let entries = mergeNumstatLogZ numOut (parseNameStatusLogZ nsOut)
           in case gr_run g (logArgs sinceCommit maxCount ([''-p'', ''--format=COMMIT:%H''] @ commonFlags)) of
                Inl e \<Rightarrow> Inl (''gitclient: diff stat log (patch): '' @ e)
              | Inr patchOut \<Rightarrow>
                  Inr (\<lambda>h. map_option (diff_list g) (map_of (mergePatchLog patchOut entries) h)))))"

section \<open>Paths in diff headers\<close>

text \<open>Git quotes a path with special bytes in the style of C; a path without is written as it is.\<close>

definition octal_digit :: "nat \<Rightarrow> char" where
  "octal_digit n = char_of (48 + n)"

definition c_quote_char :: "char \<Rightarrow> string" where
  "c_quote_char c =
     (case map_of [(CHR 0x0A, CHR ''n''), (CHR 0x09, CHR ''t''), (CHR 0x0D, CHR ''r''), (CHR 0x07, CHR ''a''), (CHR 0x08, CHR ''b''),
                   (CHR 0x0C, CHR ''f''), (CHR 0x0B, CHR ''v''), (CHR 0x5C, CHR 0x5C), (CHR 0x22, CHR 0x22)] c of
        Some e \<Rightarrow> [CHR 0x5C, e]
      | None \<Rightarrow>
          (let b = (of_char c :: nat)
           in if b < 32 \<or> 127 \<le> b
              then [CHR 0x5C, octal_digit (b div 64), octal_digit (b div 8 mod 8), octal_digit (b mod 8)] else [c]))"

definition git_diff_line :: "string \<Rightarrow> string" where
  "git_diff_line path =
     (let q = concat (map c_quote_char path)
      in if q = path then diff_prefix @ ''a/'' @ path @ '' b/'' @ path
         else diff_prefix @ [CHR 0x22] @ ''a/'' @ q @ [CHR 0x22] @ '' '' @ [CHR 0x22] @ ''b/'' @ q @ [CHR 0x22])"

lemma octal_digit_nat: "n < 8 \<Longrightarrow> of_char (octal_digit n) = (48 + n :: nat)"
  by (simp add: octal_digit_def)

lemma octal_digit_octal: "n < 8 \<Longrightarrow> octal (octal_digit n)"
  by (simp add: octal_def octal_digit_nat)

lemma octal_not_escape: "octal c \<Longrightarrow> simple_escape c = None"
proof (rule ccontr)
  assume o: "octal c" and "simple_escape c \<noteq> None"
  then obtain e where "simple_escape c = Some e" by blast
  then have "c \<in> {CHR ''n'', CHR ''t'', CHR ''r'', CHR ''a'', CHR ''b'', CHR ''f'', CHR ''v'', CHR 0x5C, CHR 0x22}"
    unfolding simple_escape_def by (drule_tac map_of_SomeD) auto
  then show False using o by (auto simp: octal_def)
qed

lemma div64: "(n :: nat) < 256 \<Longrightarrow> n div 64 < 8"
  by (simp add: div_less_iff_less_mult)

lemma octal_byte_digits:
  assumes "b < 256"
  shows "octal_byte (octal_digit (b div 64)) (octal_digit (b div 8 mod 8)) (octal_digit (b mod 8)) = char_of b"
proof -
  have "b div 64 < 8" using assms by (simp add: div_less_iff_less_mult)
  moreover have "b div 64 * 64 + b div 8 mod 8 * 8 + b mod 8 = b"
  proof -
    have "b div 8 = b div 64 * 8 + b div 8 mod 8" using div_mult_mod_eq [of "b div 8" 8] by (simp add: div_mult2_eq [symmetric])
    moreover have "b = b div 8 * 8 + b mod 8" by (simp only: div_mult_mod_eq)
    ultimately show ?thesis by linarith
  qed
  ultimately show ?thesis using assms by (simp add: octal_byte_def octal_digit_nat)
qed

lemma unquote_char: "unquoteGitPath (c_quote_char c @ r) = c # unquoteGitPath r"
proof (cases "map_of [(CHR 0x0A, CHR ''n''), (CHR 0x09, CHR ''t''), (CHR 0x0D, CHR ''r''), (CHR 0x07, CHR ''a''), (CHR 0x08, CHR ''b''),
                   (CHR 0x0C, CHR ''f''), (CHR 0x0B, CHR ''v''), (CHR 0x5C, CHR 0x5C), (CHR 0x22, CHR 0x22)] c")
  case None
  let ?b = "of_char c :: nat"
  have b: "?b < 256" by (rule nat_of_char_less_256)
  show ?thesis
  proof (cases "?b < 32 \<or> 127 \<le> ?b")
    case True
    have d: "?b div 64 < 8" by (rule div64 [OF b])
    then show ?thesis using True None octal_byte_digits [OF b] octal_not_escape octal_digit_octal
      by (simp add: c_quote_char_def Let_def)
  next
    case False
    have "c \<noteq> CHR 0x5C" using None by auto
    then show ?thesis using False None by (cases r) (simp_all add: c_quote_char_def Let_def)
  qed
next
  case (Some e)
  then show ?thesis by (auto simp: c_quote_char_def simple_escape_def split: if_splits)
qed

lemma unquote_quote: "unquoteGitPath (concat (map c_quote_char p)) = p"
  by (induction p) (simp_all add: unquote_char)

text \<open>Reading the header git writes for a file gives back its path, whatever bytes it has, also when it contains
  the text that separates the two paths.\<close>

theorem parseDiffGitPath_roundtrip:
  assumes "path \<noteq> []"
  shows "parseDiffGitPath (git_diff_line path) = path"
proof -
  let ?q = "concat (map c_quote_char path)"
  show ?thesis
  proof (cases "?q = path")
    case True
    then show ?thesis using assms
      by (simp add: git_diff_line_def parseDiffGitPath_def TrimPrefix_def HasPrefix_def diff_prefix_def)
  next
    case False
    have ne: "?q \<noteq> []" using assms unquote_quote [of path] by (metis unquoteGitPath.simps(1))
    have "parseDiffGitPath (diff_prefix @ [CHR 0x22] @ ''a/'' @ q @ [CHR 0x22] @ '' '' @ [CHR 0x22] @ ''b/'' @ q @ [CHR 0x22]) = unquoteGitPath q"
      if "q \<noteq> []" for q
      using that by (simp add: parseDiffGitPath_def TrimPrefix_def HasPrefix_def diff_prefix_def Let_def del: unquoteGitPath.simps)
    then have "parseDiffGitPath (git_diff_line path) = unquoteGitPath ?q" using False ne
      by (simp add: git_diff_line_def Let_def)
    then show ?thesis by (simp add: unquote_quote)
  qed
qed

theorem parseDiffGitPath_roundtrip_witness:
  "parseDiffGitPath (git_diff_line ''x b/y'') = ''x b/y'' \<and> parseDiffGitPath (git_diff_line [CHR ''x'', CHR 0xC3, CHR 0x22]) = [CHR ''x'', CHR 0xC3, CHR 0x22]"
  using parseDiffGitPath_roundtrip [of "''x b/y''"] parseDiffGitPath_roundtrip [of "[CHR ''x'', CHR 0xC3, CHR 0x22]"] by simp

section \<open>Status and statistics\<close>

text \<open>What git prints for a history: for every commit the mark with its hash, then its changes, each field ended by a NUL;
  line ends may precede the first change. A change has its status, its path and the numbers of lines added and deleted, for which git
  prints a dash when the file is binary.\<close>

type_synonym change = "string \<times> string \<times> nat option \<times> nat option"

definition show_count :: "nat option \<Rightarrow> string" where
  "show_count n = (case n of None \<Rightarrow> ''-'' | Some k \<Rightarrow> show_nat k)"

definition count_of :: "nat option \<Rightarrow> int" where
  "count_of n = (case n of None \<Rightarrow> 0 | Some k \<Rightarrow> int k)"

definition with_sep :: "string \<Rightarrow> string list \<Rightarrow> string list" where
  "with_sep sep xs = (case xs of [] \<Rightarrow> [] | x # r \<Rightarrow> (sep @ x) # r)"

definition terminated :: "string list \<Rightarrow> string" where
  "terminated fs = concat (map (\<lambda>f. f @ [CHR 0x00]) fs)"

definition log_output :: "(change \<Rightarrow> string list) \<Rightarrow> string \<Rightarrow> (string \<times> change list) list \<Rightarrow> string" where
  "log_output f sep log = terminated (concat (map (\<lambda>(h, cs). (commit_mark @ h) # with_sep sep (concat (map f cs))) log))"

definition status_fields :: "change \<Rightarrow> string list" where
  "status_fields c = (case c of (st, p, a, d) \<Rightarrow> [st, p])"

definition numstat_fields :: "change \<Rightarrow> string list" where
  "numstat_fields c = (case c of (st, p, a, d) \<Rightarrow> [show_count a @ [CHR 0x09] @ show_count d @ [CHR 0x09] @ p])"

definition change_entry :: "change \<Rightarrow> FileDiffEntry" where
  "change_entry c = (case c of (st, p, a, d) \<Rightarrow> \<lparr>fd_Status = st, fd_Path = p, fd_Additions = count_of a, fd_Deletions = count_of d, fd_Patch = []\<rparr>)"

definition change_path :: "change \<Rightarrow> string" where
  "change_path c = fst (snd c)"

definition eol_free :: "string \<Rightarrow> bool" where
  "eol_free s = (s \<noteq> [] \<and> CHR 0x00 \<notin> set s \<and> hd s \<noteq> CHR 0x0A \<and> hd s \<noteq> CHR 0x0D)"

definition change_ok :: "change \<Rightarrow> bool" where
  "change_ok c = (case c of (st, p, a, d) \<Rightarrow> st \<in> {''A'', ''C'', ''D'', ''M'', ''T''} \<and> eol_free p \<and> \<not> HasPrefix p commit_mark \<and>
     (\<forall>n \<in> set_option a \<union> set_option d. n < 2 ^ 63))"

definition log_ok :: "(string \<times> change list) list \<Rightarrow> bool" where
  "log_ok log =
     (distinct (map fst log) \<and>
      (\<forall>(h, cs) \<in> set log. h \<noteq> [] \<and> CHR 0x00 \<notin> set h \<and> distinct (map change_path cs) \<and> list_all change_ok cs))"

lemma Split_terminated: "\<forall>f \<in> set fs. CHR 0x00 \<notin> set f \<Longrightarrow> Split (terminated fs) (CHR 0x00) = fs @ [[]]"
  by (induction fs) (simp_all add: terminated_def Split_append)

lemma update_fresh: "k \<notin> fst ` set xs \<Longrightarrow> AList.update k v xs = xs @ [(k, v)]"
  by (induction xs) auto

lemma update_mid: "k \<notin> fst ` set xs \<Longrightarrow> AList.update k v (xs @ (k, w) # ys) = xs @ (k, v) # ys"
  by (induction xs) auto

lemma map_of_mid: "k \<notin> fst ` set xs \<Longrightarrow> map_of (xs @ (k, w) # ys) k = Some w"
  by (simp add: map_add_def map_of_eq_None_iff [THEN iffD2])

lemma trim_eol_sep: "set sep \<subseteq> {CHR 0x0A, CHR 0x0D} \<Longrightarrow> trim_eol (sep @ x) = trim_eol x"
  unfolding trim_eol_def by (intro dropWhile_append2) auto

lemma trim_eol_free: "eol_free x \<Longrightarrow> trim_eol x = x"
  by (cases x) (simp_all add: trim_eol_def eol_free_def)

lemma foldl_with_sep:
  assumes "\<And>st x. f st (sep @ x) = f st x"
  shows "foldl f st (with_sep sep xs) = foldl f st xs"
  using assms by (cases xs) (simp_all add: with_sep_def)

lemma status_trim: "set sep \<subseteq> {CHR 0x0A, CHR 0x0D} \<Longrightarrow> name_status_field st (sep @ x) = name_status_field st x"
  by (simp add: name_status_field_def trim_eol_sep)

lemma numstat_trim: "set sep \<subseteq> {CHR 0x0A, CHR 0x0D} \<Longrightarrow> numstat_field st (sep @ x) = numstat_field st x"
  by (simp add: numstat_field_def trim_eol_sep)

lemma trim_mark [simp]: "trim_eol (commit_mark @ h) = commit_mark @ h"
  by (simp add: trim_eol_def commit_mark_def)

lemma mark_prefix [simp]: "HasPrefix (commit_mark @ h) commit_mark" "TrimPrefix (commit_mark @ h) commit_mark = h"
  by (simp_all add: HasPrefix_def TrimPrefix_def)

lemma mark_not_Nil [simp]: "commit_mark \<noteq> []"
  by (simp add: commit_mark_def)

subsection \<open>The status of the files\<close>

definition blank_entry :: "change \<Rightarrow> string \<times> FileDiffEntry" where
  "blank_entry c = (case c of (st, p, a, d) \<Rightarrow> (p, new_entry st p))"

lemma status_change:
  assumes "change_ok c" "h \<noteq> []" "h \<notin> fst ` set m" "change_path c \<notin> fst ` set fm"
  shows "foldl name_status_field (m @ [(h, fm)], h, []) (status_fields c) = (m @ [(h, fm @ [blank_entry c])], h, [])"
proof -
  obtain st p a d where c: "c = (st, p, a, d)" by (cases c)
  have st: "trim_eol st = st" "st \<noteq> []" "\<not> HasPrefix st commit_mark"
    using assms(1) by (auto simp: c change_ok_def trim_eol_def HasPrefix_def commit_mark_def)
  have p: "trim_eol p = p" "p \<noteq> []" "\<not> HasPrefix p commit_mark"
    using assms(1) trim_eol_free by (auto simp: c change_ok_def eol_free_def)
  have "files_of (m @ [(h, fm)]) h = fm" using map_of_mid [OF assms(3), of fm "[]"] by (simp add: files_of_def)
  then show ?thesis using st p assms(2-4)
    by (simp add: status_fields_def c name_status_field_def put_entry_def update_mid [where ys = "[]"]
        update_fresh blank_entry_def new_entry_def change_path_def)
qed

lemma status_changes:
  assumes "list_all change_ok cs" "h \<noteq> []" "h \<notin> fst ` set m" "distinct (map fst fm @ map change_path cs)"
  shows "foldl name_status_field (m @ [(h, fm)], h, []) (concat (map status_fields cs)) = (m @ [(h, fm @ map blank_entry cs)], h, [])"
  using assms
proof (induction cs arbitrary: fm)
  case (Cons c cs)
  have "change_path c \<notin> fst ` set fm" using Cons.prems(4) by auto
  moreover have "fst (blank_entry c) = change_path c" by (cases c) (simp add: blank_entry_def change_path_def)
  ultimately show ?case using Cons status_change [of c h m fm] by auto
qed simp

lemma status_commits:
  assumes "log_ok log" "set sep \<subseteq> {CHR 0x0A, CHR 0x0D}" "fst ` set m \<inter> fst ` set log = {}"
  shows "\<exists>h. foldl name_status_field (m, h0, []) (concat (map (\<lambda>(h, cs). (commit_mark @ h) # with_sep sep (concat (map status_fields cs))) log)) =
    (m @ map (\<lambda>(h, cs). (h, map blank_entry cs)) log, h, [])"
  using assms
proof (induction log arbitrary: m h0)
  case (Cons x log)
  obtain h cs where x: "x = (h, cs)" by (cases x)
  have h: "h \<noteq> []" "h \<notin> fst ` set m" "list_all change_ok cs" "distinct (map change_path cs)"
    using Cons.prems by (auto simp: x log_ok_def)
  have "name_status_field (m, h0, []) (commit_mark @ h) = (m @ [(h, [])], h, [])"
    using h(2) by (simp add: name_status_field_def with_commit_def update_fresh map_of_eq_None_iff Let_def)
  moreover have "foldl name_status_field (m @ [(h, [])], h, []) (with_sep sep (concat (map status_fields cs))) = (m @ [(h, map blank_entry cs)], h, [])"
    using status_changes [OF h(3,1,2), of "[]"] h(4) by (simp add: foldl_with_sep status_trim [OF Cons.prems(2)])
  moreover have "log_ok log" "fst ` set (m @ [(h, map blank_entry cs)]) \<inter> fst ` set log = {}"
    using Cons.prems by (auto simp: x log_ok_def)
  ultimately show ?case using Cons.IH [of "m @ [(h, map blank_entry cs)]" h] Cons.prems(2) by (simp add: x)
qed simp

lemma log_fields_free:
  assumes "log_ok log" "set sep \<subseteq> {CHR 0x0A, CHR 0x0D}" "\<And>c. change_ok c \<Longrightarrow> \<forall>x \<in> set (f c). CHR 0x00 \<notin> set x"
  shows "\<forall>x \<in> set (concat (map (\<lambda>(h, cs). (commit_mark @ h) # with_sep sep (concat (map f cs))) log)). CHR 0x00 \<notin> set x"
proof -
  have w: "CHR 0x00 \<notin> set x" if "x \<in> set (with_sep sep xs)" "\<forall>y \<in> set xs. CHR 0x00 \<notin> set y" for x xs
    using that assms(2) by (cases xs) (auto simp: with_sep_def)
  have "CHR 0x00 \<notin> set x" if "(h, cs) \<in> set log" "x = commit_mark @ h \<or> x \<in> set (with_sep sep (concat (map f cs)))" for x h cs
  proof -
    have "CHR 0x00 \<notin> set h" "list_all change_ok cs" using assms(1) that(1) by (auto simp: log_ok_def)
    moreover from this have "\<forall>y \<in> set (concat (map f cs)). CHR 0x00 \<notin> set y" using assms(3) by (auto simp: list_all_iff)
    ultimately show ?thesis using that(2) w by (auto simp: commit_mark_def)
  qed
  then show ?thesis by fastforce
qed

lemma parse_status:
  assumes "log_ok log" "set sep \<subseteq> {CHR 0x0A, CHR 0x0D}"
  shows "parseNameStatusLogZ (log_output status_fields sep log) = map (\<lambda>(h, cs). (h, map blank_entry cs)) log"
proof -
  have free: "change_ok c \<Longrightarrow> \<forall>x \<in> set (status_fields c). CHR 0x00 \<notin> set x" for c
    by (auto simp: change_ok_def status_fields_def eol_free_def split: prod.splits)
  have last: "name_status_field st [] = st" for st by (auto simp: name_status_field_def trim_eol_def split: prod.split)
  show ?thesis
    using status_commits [OF assms, of "[]" "[]"]
    by (auto simp: parseNameStatusLogZ_def log_output_def Split_terminated [OF log_fields_free [OF assms free]] last)
qed

subsection \<open>The numbers of lines\<close>

lemma digits_value_append: "digits_value (s @ [c]) = 10 * digits_value s + (of_char c - 48)"
  by (simp add: digits_value_def)

lemma digit_char: "n < 10 \<Longrightarrow> of_char (digit n) = (48 + n :: nat)"
  by (simp add: digit_def)

lemma show_nat_digits: "list_all is_digit (show_nat n) \<and> digits_value (show_nat n) = n \<and> show_nat n \<noteq> []"
proof (induction n rule: less_induct)
  case (less n)
  show ?case
  proof (cases "n < 10")
    case True
    then show ?thesis by (simp add: show_nat.simps [of n] is_digit_def digit_char digits_value_def)
  next
    case False
    then have "n div 10 < n" by simp
    from less.IH [OF this] False show ?thesis
      by (simp add: show_nat.simps [of n] is_digit_def digit_char digits_value_append)
  qed
qed

lemma Atoi_show_nat:
  assumes "n < 2 ^ 63"
  shows "Atoi (show_nat n) = int n"
proof -
  have "is_digit (hd (show_nat n))" using show_nat_digits [of n] by (cases "show_nat n") auto
  then have "hd (show_nat n) \<noteq> CHR ''-''" "hd (show_nat n) \<noteq> CHR ''+''" by (auto simp: is_digit_def)
  moreover have "int n \<le> 2 ^ 63 - 1" using assms by simp
  ultimately show ?thesis using show_nat_digits [of n] by (simp add: Atoi_def Let_def)
qed

lemma show_nat_no: "c \<in> set (show_nat n) \<Longrightarrow> c \<noteq> CHR 0x09 \<and> c \<noteq> CHR 0x00 \<and> c \<noteq> CHR 0x0A \<and> c \<noteq> CHR 0x0D \<and> c \<noteq> CHR ''C''"
  using show_nat_digits [of n] by (auto simp: list_all_iff is_digit_def)

lemma SplitN_append: "1 < n \<Longrightarrow> c \<notin> set a \<Longrightarrow> SplitN n (a @ c # b) c = a # SplitN (n - 1) b c"
  by (induction a) auto

lemma SplitN_one: "SplitN (Suc 0) s c = [s]"
  by (cases s) auto

definition full_entry :: "change \<Rightarrow> string \<times> FileDiffEntry" where
  "full_entry c = (change_path c, change_entry c)"

lemma show_count_no: "c \<in> set (show_count n) \<Longrightarrow> c \<noteq> CHR 0x09 \<and> c \<noteq> CHR 0x00 \<and> c \<noteq> CHR 0x0A \<and> c \<noteq> CHR 0x0D \<and> c \<noteq> CHR ''C''"
  using show_nat_no by (cases n) (auto simp: show_count_def)

lemma show_count_ne: "show_count n \<noteq> []"
  using show_nat_digits by (auto simp: show_count_def split: option.split)

lemma Atoi_show_count: "(\<And>k. k \<in> set_option n \<Longrightarrow> k < 2 ^ 63) \<Longrightarrow> Atoi (show_count n) = count_of n"
  using Atoi_show_nat by (cases n) (auto simp: show_count_def count_of_def Atoi_def)

lemma numstat_change:
  assumes "change_ok c" "h \<noteq> []" "h \<notin> fst ` set pre" "change_path c \<notin> fst ` set xs"
  shows "foldl numstat_field (pre @ (h, xs @ blank_entry c # ys) # post, h) (numstat_fields c) =
    (pre @ (h, xs @ full_entry c # ys) # post, h)"
proof -
  obtain st p a d where c: "c = (st, p, a, d)" by (cases c)
  let ?f = "show_count a @ [CHR 0x09] @ show_count d @ [CHR 0x09] @ p"
  have ne: "show_count a \<noteq> []" by (rule show_count_ne)
  then have hd: "hd ?f \<in> set (show_count a)" by simp
  have t: "trim_eol ?f = ?f" using show_count_no [OF hd] ne by (cases "show_count a") (auto simp: trim_eol_def)
  have m: "\<not> HasPrefix ?f commit_mark"
    using show_count_no [OF hd] ne by (cases "show_count a") (auto simp: HasPrefix_def commit_mark_def)
  have tab: "CHR 0x09 \<notin> set (show_count i)" for i using show_count_no by blast
  have sp: "SplitN 3 ?f (CHR 0x09) = [show_count a, show_count d, p]"
    using SplitN_append [of 3 "CHR 0x09" "show_count a" "show_count d @ [CHR 0x09] @ p"] SplitN_append [of 2 "CHR 0x09" "show_count d" p]
      tab by (simp add: SplitN_one)
  have n: "Atoi (show_count a) = count_of a" "Atoi (show_count d) = count_of d"
    using assms(1) Atoi_show_count by (simp_all add: c change_ok_def)
  have fo: "files_of (pre @ (h, xs @ (p, new_entry st p) # ys) # post) h = xs @ (p, new_entry st p) # ys"
    using map_of_mid [OF assms(3)] by (simp add: files_of_def)
  have mp: "map_of (xs @ (p, new_entry st p) # ys) p = Some (new_entry st p)"
    using assms(4) by (intro map_of_mid) (simp add: c change_path_def)
  have step: "numstat_field (pre @ (h, xs @ (p, new_entry st p) # ys) # post, h) ?f =
      (put_entry h ((new_entry st p)\<lparr>fd_Additions := count_of a, fd_Deletions := count_of d\<rparr>) (pre @ (h, xs @ (p, new_entry st p) # ys) # post), h)"
    unfolding numstat_field_def prod.case Let_def t using ne m assms(2) by (simp add: sp [simplified] n fo mp [simplified])
  have "put_entry h ((new_entry st p)\<lparr>fd_Additions := count_of a, fd_Deletions := count_of d\<rparr>) (pre @ (h, xs @ (p, new_entry st p) # ys) # post) =
      pre @ (h, xs @ full_entry c # ys) # post"
    using assms(3,4) unfolding put_entry_def fo
    by (simp add: update_mid new_entry_def full_entry_def change_entry_def change_path_def c)
  then show ?thesis using step by (simp add: numstat_fields_def blank_entry_def c)
qed

lemma numstat_changes:
  assumes "list_all change_ok cs" "h \<noteq> []" "h \<notin> fst ` set pre" "distinct (map fst xs @ map change_path cs)"
  shows "foldl numstat_field (pre @ (h, xs @ map blank_entry cs) # post, h) (concat (map numstat_fields cs)) =
    (pre @ (h, xs @ map full_entry cs) # post, h)"
  using assms
proof (induction cs arbitrary: xs)
  case (Cons c cs)
  have "change_path c \<notin> fst ` set xs" using Cons.prems(4) by auto
  then show ?case
    using Cons numstat_change [of c h pre xs "map blank_entry cs" post] Cons.IH [of "xs @ [full_entry c]"]
    by (auto simp: full_entry_def)
qed simp

lemma numstat_commits:
  assumes "log_ok log" "set sep \<subseteq> {CHR 0x0A, CHR 0x0D}" "fst ` set pre \<inter> fst ` set log = {}"
  shows "\<exists>h. foldl numstat_field (pre @ map (\<lambda>(h, cs). (h, map blank_entry cs)) log, h0)
      (concat (map (\<lambda>(h, cs). (commit_mark @ h) # with_sep sep (concat (map numstat_fields cs))) log)) =
    (pre @ map (\<lambda>(h, cs). (h, map full_entry cs)) log, h)"
  using assms
proof (induction log arbitrary: pre h0)
  case (Cons x log)
  obtain h cs where x: "x = (h, cs)" by (cases x)
  have h: "h \<noteq> []" "h \<notin> fst ` set pre" "list_all change_ok cs" "distinct (map change_path cs)"
    using Cons.prems by (auto simp: x log_ok_def)
  let ?post = "map (\<lambda>(h, cs). (h, map blank_entry cs)) log"
  have "numstat_field (pre @ (h, map blank_entry cs) # ?post, h0) (commit_mark @ h) = (pre @ (h, map blank_entry cs) # ?post, h)"
    using map_of_mid [OF h(2)] by (simp add: numstat_field_def with_commit_def Let_def)
  moreover have "foldl numstat_field (pre @ (h, map blank_entry cs) # ?post, h) (with_sep sep (concat (map numstat_fields cs))) =
      ((pre @ [(h, map full_entry cs)]) @ ?post, h)"
    using numstat_changes [OF h(3,1,2), of "[]" ?post] h(4) by (simp add: foldl_with_sep numstat_trim [OF Cons.prems(2)])
  moreover have "log_ok log" "fst ` set (pre @ [(h, map full_entry cs)]) \<inter> fst ` set log = {}"
    using Cons.prems by (auto simp: x log_ok_def)
  ultimately show ?case using Cons.IH [of "pre @ [(h, map full_entry cs)]" h] Cons.prems(2) by (simp add: x)
qed simp

lemma merge_numstat:
  assumes "log_ok log" "set sep \<subseteq> {CHR 0x0A, CHR 0x0D}"
  shows "mergeNumstatLogZ (log_output numstat_fields sep log) (map (\<lambda>(h, cs). (h, map blank_entry cs)) log) =
    map (\<lambda>(h, cs). (h, map full_entry cs)) log"
proof -
  have free: "change_ok c \<Longrightarrow> \<forall>x \<in> set (numstat_fields c). CHR 0x00 \<notin> set x" for c
    using show_count_no by (fastforce simp: change_ok_def numstat_fields_def eol_free_def split: prod.splits)
  have last: "numstat_field st [] = st" for st by (auto simp: numstat_field_def trim_eol_def split: prod.split)
  show ?thesis
    using numstat_commits [OF assms, of "[]" "[]"]
    by (auto simp: mergeNumstatLogZ_def log_output_def Split_terminated [OF log_fields_free [OF assms free]] last)
qed

subsection \<open>Merging the patches\<close>

text \<open>Whatever the output with the patches is: the merge touches nothing but the patches.\<close>

definition same_but_patch :: "FileDiffEntry \<Rightarrow> FileDiffEntry \<Rightarrow> bool" where
  "same_but_patch d d' = (d'\<lparr>fd_Patch := fd_Patch d\<rparr> = d)"

definition patches_only :: "diff_map \<Rightarrow> diff_map \<Rightarrow> bool" where
  "patches_only m m' =
     (\<forall>h fm. map_of m h = Some fm \<longrightarrow>
        (\<exists>fm'. map_of m' h = Some fm' \<and> list_all2 (\<lambda>x y. fst y = fst x \<and> same_but_patch (snd x) (snd y)) fm fm'))"

lemma same_but_patch_refl [simp]: "same_but_patch d d"
  by (simp add: same_but_patch_def)

lemma same_but_patch_trans: "same_but_patch a b \<Longrightarrow> same_but_patch b c \<Longrightarrow> same_but_patch a c"
  by (cases a; cases b; cases c) (simp add: same_but_patch_def)

lemma patches_only_refl [simp]: "patches_only m m"
  by (auto simp: patches_only_def intro: list_all2_refl)

lemma patches_only_trans:
  assumes "patches_only a b" "patches_only b c"
  shows "patches_only a c"
  unfolding patches_only_def
proof (intro allI impI)
  fix h fm assume "map_of a h = Some fm"
  then obtain fm1 where f1: "map_of b h = Some fm1" "list_all2 (\<lambda>x y. fst y = fst x \<and> same_but_patch (snd x) (snd y)) fm fm1"
    using assms(1) unfolding patches_only_def by blast
  then obtain fm2 where f2: "map_of c h = Some fm2" "list_all2 (\<lambda>x y. fst y = fst x \<and> same_but_patch (snd x) (snd y)) fm1 fm2"
    using assms(2) unfolding patches_only_def by blast
  have "list_all2 (\<lambda>x y. fst y = fst x \<and> same_but_patch (snd x) (snd y)) fm fm2"
    by (rule list_all2_trans [OF _ f1(2) f2(2)]) (auto intro: same_but_patch_trans)
  then show "\<exists>fm'. map_of c h = Some fm' \<and> list_all2 (\<lambda>x y. fst y = fst x \<and> same_but_patch (snd x) (snd y)) fm fm'"
    using f2(1) by blast
qed

lemma with_commit_patches: "patches_only m (with_commit h m)"
  by (auto simp: patches_only_def with_commit_def update_conv' intro: list_all2_refl)

lemma update_entry_patches:
  assumes "map_of fm p = Some d"
  shows "list_all2 (\<lambda>x y. fst y = fst x \<and> same_but_patch (snd x) (snd y)) fm (AList.update p (d\<lparr>fd_Patch := t\<rparr>) fm)"
  using assms by (induction fm) (auto simp: same_but_patch_def intro: list_all2_refl split: if_splits)

lemma flush_patches: "patches_only (pt_entries st) (pt_entries (flush_patch st))"
proof (cases "\<exists>fm d. map_of (pt_entries st) (pt_Hash st) = Some fm \<and> map_of fm (pt_Path st) = Some d")
  case True
  then obtain fm d where fm: "map_of (pt_entries st) (pt_Hash st) = Some fm" "map_of fm (pt_Path st) = Some d" by blast
  have "patches_only (pt_entries st) (AList.update (pt_Hash st) (AList.update (pt_Path st) (d\<lparr>fd_Patch := t\<rparr>) fm) (pt_entries st))" for t
    using fm(1) update_entry_patches [OF fm(2)] by (auto simp: patches_only_def update_conv' intro: list_all2_refl)
  then show ?thesis using fm by (simp add: flush_patch_def)
next
  case False
  then show ?thesis by (auto simp: flush_patch_def split: option.split)
qed

lemma patch_line_patches: "patches_only (pt_entries st) (pt_entries (patch_line st line))"
  using flush_patches [of st] with_commit_patches patches_only_trans
  by (auto simp: patch_line_def Let_def)

lemma merge_patches: "patches_only entries (mergePatchLog data entries)"
proof -
  have "patches_only (pt_entries st) (pt_entries (foldl patch_line st ls))" for st ls
    using patch_line_patches patches_only_trans by (induction ls arbitrary: st) (auto, blast)
  from patches_only_trans [OF this flush_patches] show ?thesis
    unfolding mergePatchLog_def by (metis patch_state.select_convs(1))
qed

text \<open>C30: For a history git prints, binary files included, whose commits have distinct hashes and each of whose commits names a path once,
  the merged map holds for each commit exactly its changed files, each once, with the status and the counts git printed, 0 for a binary
  file. White space, quotes and line ends inside a file name do no harm, but a name must not start with a line end nor with the
  commit mark \<^verbatim>\<open>COMMIT:\<close>, which the parser would take for a commit.\<close>

theorem DiffStatLog_roundtrip:
  assumes "log_ok log" "set sep \<subseteq> {CHR 0x0A, CHR 0x0D}" "set sep' \<subseteq> {CHR 0x0A, CHR 0x0D}" "\<forall>ks. mset (gr_keys g ks) = mset ks"
    and "gr_run g (logArgs since n ([''--name-status'', ''-z'', ''--format=COMMIT:%H''] @ commonFlags)) = Inr (log_output status_fields sep log)"
    and "gr_run g (logArgs since n ([''--numstat'', ''-z'', ''--format=COMMIT:%H''] @ commonFlags)) = Inr (log_output numstat_fields sep' log)"
    and "gr_run g (logArgs since n ([''-p'', ''--format=COMMIT:%H''] @ commonFlags)) = Inr patches"
    and "(h, cs) \<in> set log"
  shows "\<exists>r ds. DiffStatLog g since n = Inr r \<and> r h = Some ds \<and> mset (map (\<lambda>d. d\<lparr>fd_Patch := []\<rparr>) ds) = mset (map change_entry cs)"
proof -
  let ?m = "map (\<lambda>(h, cs). (h, map full_entry cs)) log"
  have dist: "distinct (map fst ?m)" using assms(1) by (simp add: log_ok_def case_prod_unfold comp_def)
  have run: "DiffStatLog g since n = Inr (\<lambda>h. map_option (diff_list g) (map_of (mergePatchLog patches ?m) h))"
    using assms(5-7) by (simp add: DiffStatLog_def parse_status [OF assms(1,2)] merge_numstat [OF assms(1,3)] Let_def)
  have "(h, map full_entry cs) \<in> set ?m" using assms(8) by force
  then have "map_of ?m h = Some (map full_entry cs)" using map_of_is_SomeI [OF dist] by blast
  then obtain fm where fm: "map_of (mergePatchLog patches ?m) h = Some fm"
    and rel: "list_all2 (\<lambda>x y. fst y = fst x \<and> same_but_patch (snd x) (snd y)) (map full_entry cs) fm"
    using merge_patches [of ?m patches] unfolding patches_only_def by blast
  have keys: "map fst fm = map change_path cs"
    using rel by (simp add: list_all2_conv_all_nth full_entry_def list_eq_iff_nth_eq)
  have "map (\<lambda>d. d\<lparr>fd_Patch := []\<rparr>) (map snd fm) = map change_entry cs"
  proof (rule nth_equalityI)
    fix i assume "i < length (map (\<lambda>d. d\<lparr>fd_Patch := []\<rparr>) (map snd fm))"
    then have "same_but_patch (change_entry (cs ! i)) (snd (fm ! i))" "i < length cs" "i < length fm"
      using rel by (auto simp: list_all2_conv_all_nth full_entry_def)
    then show "map (\<lambda>d. d\<lparr>fd_Patch := []\<rparr>) (map snd fm) ! i = map change_entry cs ! i"
      by (cases "snd (fm ! i)"; cases "cs ! i") (auto simp: same_but_patch_def change_entry_def)
  qed (use list_all2_lengthD [OF rel] in simp)
  moreover have "mset (diff_list g fm) = mset (map snd fm)"
  proof -
    have d: "distinct (map fst fm)" using assms(1,8) keys by (auto simp: log_ok_def)
    have "mset (diff_list g fm) = image_mset (\<lambda>p. the (map_of fm p)) (mset (map fst fm))"
      unfolding diff_list_def using assms(4) by simp
    also have "\<dots> = mset (map snd fm)"
      using d by (auto simp: multiset.map_comp comp_def intro!: image_mset_cong)
    finally show ?thesis .
  qed
  ultimately have "mset (map (\<lambda>d. d\<lparr>fd_Patch := []\<rparr>) (diff_list g fm)) = mset (map change_entry cs)" by (metis mset_map)
  then show ?thesis using run fm by simp
qed

definition example_log :: "(string \<times> change list) list" where
  "example_log = [(''h2'', [(''M'', ''a b.go'', Some 3, Some 1), (''A'', ''b.png'', None, None)]), (''h1'', [(''A'', ''a b.go'', Some 7, Some 0)])]"

definition example_git :: gitrunner where
  "example_git = \<lparr>gr_run = (\<lambda>args. Inr (if args ! 2 = ''--name-status'' then log_output status_fields [CHR 0x0A] example_log
       else if args ! 2 = ''--numstat'' then log_output numstat_fields [CHR 0x0A] example_log else [])),
     gr_time = (\<lambda>_. Some 0), gr_quote = id, gr_keys = rev\<rparr>"

theorem DiffStatLog_roundtrip_witness:
  "\<exists>r ds. DiffStatLog example_git [] 0 = Inr r \<and> r ''h2'' = Some ds \<and>
     mset (map (\<lambda>d. d\<lparr>fd_Patch := []\<rparr>) ds) = mset (map change_entry [(''M'', ''a b.go'', Some 3, Some 1), (''A'', ''b.png'', None, None)])"
proof -
  have ok: "log_ok example_log"
    by (simp add: example_log_def log_ok_def change_ok_def change_path_def eol_free_def HasPrefix_def commit_mark_def)
  show ?thesis
    by (rule DiffStatLog_roundtrip [OF ok, of "[CHR 0x0A]" "[CHR 0x0A]" _ _ _ "[]"])
      (simp_all add: example_git_def logArgs_def example_log_def)
qed

end
