(* ===== verification/Commit_Index.thy ===== *)
theory Commit_Index
  imports Git_Log Workflow
begin

text \<open>
  Persisting the commit history
  (\<^verbatim>\<open>src/backend-worker/internal/workflow/commits/indexer.go\<close>) in the tables \<^verbatim>\<open>commits\<close>,
  \<^verbatim>\<open>commit_parents\<close> and \<^verbatim>\<open>commit_file_diffs\<close> (queries of \<^verbatim>\<open>src/datastore/postgres/sqlc/commits.sql.go\<close>,
  constraints of the first migration).

  The indexer runs outside a transaction: each statement takes effect at once, so a run that fails leaves what it has
  written. \<open>cx_ft ph i j\<close> are the faults of the queries of phase \<open>ph\<close> for the \<open>i\<close>-th commit and its \<open>j\<close>-th parent or
  file. Generated keys are functions of what they are generated for.
\<close>

section \<open>Tables and queries\<close>

record Commit =
  cm_ID :: UUID
  cm_ProjectID :: UUID
  cm_CommitHash :: string
  cm_AuthorName :: string
  cm_AuthorEmail :: string
  cm_AuthorDate :: timestamp
  cm_CommitterName :: string
  cm_CommitterEmail :: string
  cm_CommitterDate :: timestamp
  cm_Message :: string
  cm_CreatedAt :: timestamp

record CommitParent =
  cpa_ProjectID :: UUID
  cpa_CommitID :: UUID
  cpa_ParentCommitID :: UUID
  cpa_Ordinal :: int

record CommitFileDiff =
  cfd_ID :: UUID
  cfd_ProjectID :: UUID
  cfd_CommitID :: UUID
  cfd_ParentCommitID :: UUID
  cfd_OldFilePath :: "string option"
  cfd_NewFilePath :: "string option"
  cfd_ChangeType :: string
  cfd_Patch :: "string option"
  cfd_Additions :: int
  cfd_Deletions :: int
  cfd_CreatedAt :: timestamp

record cdb =
  cd_projects :: "UUID list"
  cd_commits :: "Commit list"
  cd_parents :: "CommitParent list"
  cd_diffs :: "CommitFileDiff list"

text \<open>A TEXT column of a UTF-8 database takes neither invalid UTF-8 nor a NUL.\<close>

definition text_ok :: "string \<Rightarrow> bool" where
  "text_ok s = (utf8_Valid s \<and> CHR 0x00 \<notin> set s)"

definition opt_text_ok :: "string option \<Rightarrow> bool" where
  "opt_text_ok t = (case t of None \<Rightarrow> True | Some s \<Rightarrow> text_ok s)"

definition coalesce_text :: "string option \<Rightarrow> string" where
  "coalesce_text t = (case t of None \<Rightarrow> [] | Some s \<Rightarrow> s)"

definition same_commit :: "Commit \<Rightarrow> Commit \<Rightarrow> bool" where
  "same_commit r c = (sql_eq (cm_ProjectID c) (cm_ProjectID r) \<and> cm_CommitHash c = cm_CommitHash r)"

definition same_parent :: "CommitParent \<Rightarrow> CommitParent \<Rightarrow> bool" where
  "same_parent r c = (sql_eq (cpa_ProjectID c) (cpa_ProjectID r) \<and> sql_eq (cpa_CommitID c) (cpa_CommitID r) \<and>
     sql_eq (cpa_ParentCommitID c) (cpa_ParentCommitID r))"

definition same_ordinal :: "CommitParent \<Rightarrow> CommitParent \<Rightarrow> bool" where
  "same_ordinal r c = (sql_eq (cpa_ProjectID c) (cpa_ProjectID r) \<and> sql_eq (cpa_CommitID c) (cpa_CommitID r) \<and>
     cpa_Ordinal c = cpa_Ordinal r)"

definition same_diff :: "CommitFileDiff \<Rightarrow> CommitFileDiff \<Rightarrow> bool" where
  "same_diff r c = (sql_eq (cfd_ProjectID c) (cfd_ProjectID r) \<and> sql_eq (cfd_CommitID c) (cfd_CommitID r) \<and>
     coalesce_text (cfd_OldFilePath c) = coalesce_text (cfd_OldFilePath r) \<and>
     coalesce_text (cfd_NewFilePath c) = coalesce_text (cfd_NewFilePath r))"

definition commit_exists :: "UUID \<Rightarrow> UUID \<Rightarrow> cdb \<Rightarrow> bool" where
  "commit_exists p c s = list_ex (\<lambda>r. sql_eq (cm_ProjectID r) p \<and> sql_eq (cm_ID r) c) (cd_commits s)"

definition GetCommitByHash :: "UUID \<Rightarrow> string \<Rightarrow> cdb \<Rightarrow> Commit option" where
  "GetCommitByHash p h s = List.find (\<lambda>r. sql_eq (cm_ProjectID r) p \<and> cm_CommitHash r = h) (cd_commits s)"

text \<open>On a conflict the insertions of commits and of diffs write the row's own project back and return the row as it is.\<close>

definition InsertCommit :: "Commit \<Rightarrow> cdb \<Rightarrow> db_error + Commit \<times> cdb" where
  "InsertCommit r s =
     (if \<not> (text_ok (cm_CommitHash r) \<and> text_ok (cm_AuthorName r) \<and> text_ok (cm_AuthorEmail r) \<and> text_ok (cm_CommitterName r) \<and>
            text_ok (cm_CommitterEmail r) \<and> text_ok (cm_Message r)) then Inl Pg_Other
      else case List.find (same_commit r) (cd_commits s) of
        Some c \<Rightarrow> Inr (c, s)
      | None \<Rightarrow>
          if \<not> list_ex (sql_eq (cm_ProjectID r)) (cd_projects s) then Inl Pg_Other
          else Inr (r, s\<lparr>cd_commits := cd_commits s @ [r]\<rparr>))"

definition InsertCommitParent :: "CommitParent \<Rightarrow> cdb \<Rightarrow> db_error + unit \<times> cdb" where
  "InsertCommitParent r s =
     (if cpa_Ordinal r < 0 then Inl Pg_Other
      else if list_ex (same_parent r) (cd_parents s) then Inr ((), s)
      else if list_ex (same_ordinal r) (cd_parents s) then Inl Pg_Unique
      else if \<not> commit_exists (cpa_ProjectID r) (cpa_CommitID r) s \<or> \<not> commit_exists (cpa_ProjectID r) (cpa_ParentCommitID r) s
      then Inl Pg_Other
      else Inr ((), s\<lparr>cd_parents := cd_parents s @ [r]\<rparr>))"

definition InsertCommitFileDiff :: "CommitFileDiff \<Rightarrow> cdb \<Rightarrow> db_error + CommitFileDiff \<times> cdb" where
  "InsertCommitFileDiff r s =
     (if \<not> (opt_text_ok (cfd_OldFilePath r) \<and> opt_text_ok (cfd_NewFilePath r) \<and> opt_text_ok (cfd_Patch r)) \<or>
         cfd_ChangeType r \<notin> {''added'', ''modified'', ''deleted'', ''renamed'', ''copied''} \<or>
         (cfd_OldFilePath r = None \<and> cfd_NewFilePath r = None) \<or> cfd_Additions r < 0 \<or> cfd_Deletions r < 0
      then Inl Pg_Other
      else case List.find (same_diff r) (cd_diffs s) of
        Some c \<Rightarrow> Inr (c, s)
      | None \<Rightarrow>
          if \<not> commit_exists (cfd_ProjectID r) (cfd_CommitID r) s \<or>
             (uuid_Valid (cfd_ParentCommitID r) \<and> \<not> commit_exists (cfd_ProjectID r) (cfd_ParentCommitID r) s)
          then Inl Pg_Other
          else Inr (r, s\<lparr>cd_diffs := cd_diffs s @ [r]\<rparr>))"

section \<open>The indexer\<close>

record cenv =
  cx_ft :: "nat \<Rightarrow> nat \<Rightarrow> nat \<Rightarrow> faults"
  cx_now :: timestamp
  cx_id :: "string \<Rightarrow> UUID"
  cx_diff_id :: "string \<Rightarrow> string \<Rightarrow> UUID"
  cx_err :: "db_error \<Rightarrow> string"

definition toPgText :: "string \<Rightarrow> string option" where
  "toPgText s = (if s = [] then None else Some s)"

definition mapChangeType :: "string \<Rightarrow> string" where
  "mapChangeType status =
     (if status = ''A'' then ''added'' else if status = ''M'' then ''modified'' else if status = ''D'' then ''deleted''
      else ''modified'')"

definition commit_row :: "cenv \<Rightarrow> UUID \<Rightarrow> CommitLog \<Rightarrow> Commit" where
  "commit_row x p cm =
     \<lparr>cm_ID = cx_id x (cl_Hash cm), cm_ProjectID = p, cm_CommitHash = cl_Hash cm, cm_AuthorName = cl_AuthorName cm,
      cm_AuthorEmail = cl_AuthorEmail cm, cm_AuthorDate = cl_AuthorDate cm, cm_CommitterName = cl_CommitterName cm,
      cm_CommitterEmail = cl_CommitterEmail cm, cm_CommitterDate = cl_CommitterDate cm, cm_Message = cl_Message cm,
      cm_CreatedAt = cx_now x\<rparr>"

fun insert_commits ::
  "cenv \<Rightarrow> UUID \<Rightarrow> nat \<Rightarrow> CommitLog list \<Rightarrow> (string \<rightharpoonup> UUID) \<times> commits_Result \<Rightarrow> cdb \<Rightarrow>
   (string + (string \<rightharpoonup> UUID) \<times> commits_Result) \<times> cdb" where
  "insert_commits x p i [] mr s = (Inr mr, s)"
| "insert_commits x p i (cm # cms) mr s =
     (case exec_query (cx_ft x 1 i 0) ''InsertCommit'' (InsertCommit (commit_row x p cm) s) s of
        (Inl e, s') \<Rightarrow> (Inl (''commits: insert commit '' @ cl_Hash cm @ '': '' @ cx_err x e), s')
      | (Inr row, s') \<Rightarrow>
          insert_commits x p (Suc i) cms
            ((fst mr)(cl_Hash cm \<mapsto> cm_ID row), (snd mr)\<lparr>cr_CommitsIndexed := cr_CommitsIndexed (snd mr) + 1\<rparr>) s')"

definition id_in :: "(string \<rightharpoonup> UUID) \<Rightarrow> string \<Rightarrow> UUID" where
  "id_in m h = (case m h of None \<Rightarrow> null_UUID | Some u \<Rightarrow> u)"

text \<open>The id of a parent: of this batch, else of the database, else none.\<close>

definition parent_id :: "faults \<Rightarrow> UUID \<Rightarrow> (string \<rightharpoonup> UUID) \<Rightarrow> string \<Rightarrow> cdb \<Rightarrow> db_error + UUID option" where
  "parent_id ft p m h s =
     (case m h of
        Some u \<Rightarrow> Inr (Some u)
      | None \<Rightarrow>
          (case query ft ''GetCommitByHash'' (Inr (GetCommitByHash p h s)) of
             Inl e \<Rightarrow> Inl e
           | Inr c \<Rightarrow> Inr (map_option cm_ID c)))"

definition parent_row :: "UUID \<Rightarrow> UUID \<Rightarrow> nat \<Rightarrow> UUID \<Rightarrow> CommitParent" where
  "parent_row p c j u = \<lparr>cpa_ProjectID = p, cpa_CommitID = c, cpa_ParentCommitID = u, cpa_Ordinal = i32 (int j)\<rparr>"

fun insert_parents_of ::
  "cenv \<Rightarrow> UUID \<Rightarrow> nat \<Rightarrow> string \<Rightarrow> (string \<rightharpoonup> UUID) \<Rightarrow> nat \<Rightarrow> string list \<Rightarrow> cdb \<Rightarrow> (string + unit) \<times> cdb" where
  "insert_parents_of x p i h m j [] s = (Inr (), s)"
| "insert_parents_of x p i h m j (q # qs) s =
     (case parent_id (cx_ft x 2 i j) p m q s of
        Inl e \<Rightarrow> (Inl (''commits: lookup parent '' @ q @ '': '' @ cx_err x e), s)
      | Inr None \<Rightarrow> insert_parents_of x p i h m (Suc j) qs s
      | Inr (Some u) \<Rightarrow>
          (case exec_query (cx_ft x 2 i j) ''InsertCommitParent'' (InsertCommitParent (parent_row p (id_in m h) j u) s) s of
             (Inl e, s') \<Rightarrow> (Inl (''commits: insert parent '' @ h @ [CHR 0xE2, CHR 0x86, CHR 0x92] @ q @ '': '' @ cx_err x e), s')
           | (Inr _, s') \<Rightarrow> insert_parents_of x p i h m (Suc j) qs s'))"

fun insert_parents ::
  "cenv \<Rightarrow> UUID \<Rightarrow> (string \<rightharpoonup> UUID) \<Rightarrow> nat \<Rightarrow> CommitLog list \<Rightarrow> cdb \<Rightarrow> (string + unit) \<times> cdb" where
  "insert_parents x p m i [] s = (Inr (), s)"
| "insert_parents x p m i (cm # cms) s =
     (case insert_parents_of x p i (cl_Hash cm) m 0 (cl_ParentHashes cm) s of
        (Inl e, s') \<Rightarrow> (Inl e, s')
      | (Inr _, s') \<Rightarrow> insert_parents x p m (Suc i) cms s')"

definition diff_row :: "cenv \<Rightarrow> UUID \<Rightarrow> string \<Rightarrow> UUID \<Rightarrow> UUID \<Rightarrow> FileDiffEntry \<Rightarrow> CommitFileDiff" where
  "diff_row x p h c u d =
     \<lparr>cfd_ID = cx_diff_id x h (fd_Path d), cfd_ProjectID = p, cfd_CommitID = c, cfd_ParentCommitID = u,
      cfd_OldFilePath = (if fd_Status d \<noteq> ''A'' then Some (fd_Path d) else None),
      cfd_NewFilePath = (if fd_Status d \<noteq> ''D'' then Some (fd_Path d) else None),
      cfd_ChangeType = mapChangeType (fd_Status d), cfd_Patch = toPgText (fd_Patch d),
      cfd_Additions = i32 (fd_Additions d), cfd_Deletions = i32 (fd_Deletions d), cfd_CreatedAt = cx_now x\<rparr>"

fun insert_diffs_of ::
  "cenv \<Rightarrow> UUID \<Rightarrow> nat \<Rightarrow> string \<Rightarrow> UUID \<Rightarrow> UUID \<Rightarrow> nat \<Rightarrow> FileDiffEntry list \<Rightarrow> commits_Result \<Rightarrow> cdb \<Rightarrow>
   (string + commits_Result) \<times> cdb" where
  "insert_diffs_of x p i h c u k [] r s = (Inr r, s)"
| "insert_diffs_of x p i h c u k (d # ds) r s =
     (case exec_query (cx_ft x 3 i k) ''InsertCommitFileDiff'' (InsertCommitFileDiff (diff_row x p h c u d) s) s of
        (Inl e, s') \<Rightarrow> (Inl (''commits: insert file diff '' @ h @ ''/'' @ fd_Path d @ '': '' @ cx_err x e), s')
      | (Inr _, s') \<Rightarrow> insert_diffs_of x p i h c u (Suc k) ds (r\<lparr>cr_DiffsIndexed := cr_DiffsIndexed r + 1\<rparr>) s')"

definition diffs_of :: "(string \<rightharpoonup> FileDiffEntry list) \<Rightarrow> string \<Rightarrow> FileDiffEntry list" where
  "diffs_of dm h = (case dm h of None \<Rightarrow> [] | Some ds \<Rightarrow> ds)"

definition diff_parent :: "cenv \<Rightarrow> UUID \<Rightarrow> (string \<rightharpoonup> UUID) \<Rightarrow> nat \<Rightarrow> CommitLog \<Rightarrow> cdb \<Rightarrow> string + UUID" where
  "diff_parent x p m i cm s =
     (case cl_ParentHashes cm of
        [] \<Rightarrow> Inr null_UUID
      | q # _ \<Rightarrow>
          (case parent_id (cx_ft x 3 i 0) p m q s of
             Inl e \<Rightarrow> Inl (''commits: lookup file-diff parent '' @ q @ '': '' @ cx_err x e)
           | Inr None \<Rightarrow> Inr null_UUID
           | Inr (Some u) \<Rightarrow> Inr u))"

fun insert_diffs ::
  "cenv \<Rightarrow> UUID \<Rightarrow> (string \<rightharpoonup> UUID) \<Rightarrow> (string \<rightharpoonup> FileDiffEntry list) \<Rightarrow> nat \<Rightarrow> CommitLog list \<Rightarrow> commits_Result \<Rightarrow> cdb \<Rightarrow>
   (string + commits_Result) \<times> cdb" where
  "insert_diffs x p m dm i [] r s = (Inr r, s)"
| "insert_diffs x p m dm i (cm # cms) r s =
     (case diff_parent x p m i cm s of
        Inl e \<Rightarrow> (Inl e, s)
      | Inr u \<Rightarrow>
          (case insert_diffs_of x p i (cl_Hash cm) (id_in m (cl_Hash cm)) u 0 (diffs_of dm (cl_Hash cm)) r s of
             (Inl e, s') \<Rightarrow> (Inl e, s')
           | (Inr r', s') \<Rightarrow> insert_diffs x p m dm (Suc i) cms r' s'))"

definition no_commits :: commits_Result where
  "no_commits = \<lparr>cr_CommitsIndexed = 0, cr_DiffsIndexed = 0, cr_HeadCommitDBID = null_UUID\<rparr>"

definition indexCommits ::
  "cenv \<Rightarrow> UUID \<Rightarrow> CommitLog list \<Rightarrow> (string \<rightharpoonup> FileDiffEntry list) \<Rightarrow> cdb \<Rightarrow> (string + commits_Result) \<times> cdb" where
  "indexCommits x p commits dm s =
     (if commits = [] then (Inr no_commits, s)
      else case insert_commits x p 0 commits (Map.empty, no_commits) s of
        (Inl e, s1) \<Rightarrow> (Inl e, s1)
      | (Inr (m, r), s1) \<Rightarrow>
     (case insert_parents x p m 0 commits s1 of
        (Inl e, s2) \<Rightarrow> (Inl e, s2)
      | (Inr _, s2) \<Rightarrow>
     (case insert_diffs x p m dm 0 commits r s2 of
        (Inl e, s3) \<Rightarrow> (Inl e, s3)
      | (Inr r', s3) \<Rightarrow> (Inr (r'\<lparr>cr_HeadCommitDBID := id_in m (cl_Hash (hd commits))\<rparr>), s3))))"

definition IndexAll :: "cenv \<Rightarrow> gitrunner \<Rightarrow> UUID \<Rightarrow> int \<Rightarrow> cdb \<Rightarrow> (string + commits_Result) \<times> cdb" where
  "IndexAll x g p maxCommits s =
     (case LogCommits g [] maxCommits of
        Inl e \<Rightarrow> (Inl (''commits: log commits: '' @ e), s)
      | Inr commits \<Rightarrow>
          (case DiffStatLog g [] maxCommits of
             Inl e \<Rightarrow> (Inl (''commits: diff stat log: '' @ e), s)
           | Inr dm \<Rightarrow> indexCommits x p commits dm s))"

definition IndexSince :: "cenv \<Rightarrow> gitrunner \<Rightarrow> UUID \<Rightarrow> string \<Rightarrow> cdb \<Rightarrow> (string + commits_Result) \<times> cdb" where
  "IndexSince x g p sinceCommit s =
     (case LogCommits g sinceCommit 0 of
        Inl e \<Rightarrow> (Inl (''commits: log commits (since '' @ sinceCommit @ ''): '' @ e), s)
      | Inr commits \<Rightarrow>
          (case DiffStatLog g sinceCommit 0 of
             Inl e \<Rightarrow> (Inl (''commits: diff stat log (since '' @ sinceCommit @ ''): '' @ e), s)
           | Inr dm \<Rightarrow> indexCommits x p commits dm s))"

section \<open>The statements of a run\<close>

text \<open>What a run that meets no error does: a list of insertions, each of a row whose key is new.\<close>

datatype cop = CommitOp Commit | ParentOp CommitParent | DiffOp CommitFileDiff

definition put_new :: "('r \<Rightarrow> bool) \<Rightarrow> 'r \<Rightarrow> 'r list \<Rightarrow> 'r list" where
  "put_new same r rows = (if list_ex same rows then rows else rows @ [r])"

fun apply_op :: "cdb \<Rightarrow> cop \<Rightarrow> cdb" where
  "apply_op s (CommitOp r) = s\<lparr>cd_commits := put_new (same_commit r) r (cd_commits s)\<rparr>"
| "apply_op s (ParentOp r) = s\<lparr>cd_parents := put_new (same_parent r) r (cd_parents s)\<rparr>"
| "apply_op s (DiffOp r) = s\<lparr>cd_diffs := put_new (same_diff r) r (cd_diffs s)\<rparr>"

fun present :: "cdb \<Rightarrow> cop \<Rightarrow> bool" where
  "present s (CommitOp r) = list_ex (same_commit r) (cd_commits s)"
| "present s (ParentOp r) = list_ex (same_parent r) (cd_parents s)"
| "present s (DiffOp r) = list_ex (same_diff r) (cd_diffs s)"

definition resolve :: "UUID \<Rightarrow> (string \<rightharpoonup> UUID) \<Rightarrow> cdb \<Rightarrow> string \<Rightarrow> UUID option" where
  "resolve p m s h = (case m h of Some u \<Rightarrow> Some u | None \<Rightarrow> map_option cm_ID (GetCommitByHash p h s))"

definition key_id :: "cenv \<Rightarrow> UUID \<Rightarrow> cdb \<Rightarrow> string \<Rightarrow> UUID" where
  "key_id x p s h = (case GetCommitByHash p h s of Some c \<Rightarrow> cm_ID c | None \<Rightarrow> cx_id x h)"

definition batch_ids :: "cenv \<Rightarrow> UUID \<Rightarrow> cdb \<Rightarrow> CommitLog list \<Rightarrow> (string \<rightharpoonup> UUID)" where
  "batch_ids x p s cms h = (if h \<in> cl_Hash ` set cms then Some (key_id x p s h) else None)"

fun parent_ops_of :: "UUID \<Rightarrow> (string \<rightharpoonup> UUID) \<Rightarrow> cdb \<Rightarrow> UUID \<Rightarrow> nat \<Rightarrow> string list \<Rightarrow> cop list" where
  "parent_ops_of p m s c j [] = []"
| "parent_ops_of p m s c j (q # qs) =
     (case resolve p m s q of None \<Rightarrow> [] | Some u \<Rightarrow> [ParentOp (parent_row p c j u)]) @ parent_ops_of p m s c (Suc j) qs"

definition parent_ops :: "UUID \<Rightarrow> (string \<rightharpoonup> UUID) \<Rightarrow> cdb \<Rightarrow> CommitLog \<Rightarrow> cop list" where
  "parent_ops p m s cm = parent_ops_of p m s (id_in m (cl_Hash cm)) 0 (cl_ParentHashes cm)"

definition first_parent :: "UUID \<Rightarrow> (string \<rightharpoonup> UUID) \<Rightarrow> cdb \<Rightarrow> CommitLog \<Rightarrow> UUID" where
  "first_parent p m s cm =
     (case cl_ParentHashes cm of [] \<Rightarrow> null_UUID | q # _ \<Rightarrow> (case resolve p m s q of None \<Rightarrow> null_UUID | Some u \<Rightarrow> u))"

definition diff_ops ::
  "cenv \<Rightarrow> UUID \<Rightarrow> (string \<rightharpoonup> UUID) \<Rightarrow> cdb \<Rightarrow> (string \<rightharpoonup> FileDiffEntry list) \<Rightarrow> CommitLog \<Rightarrow> cop list" where
  "diff_ops x p m s dm cm =
     map (\<lambda>d. DiffOp (diff_row x p (cl_Hash cm) (id_in m (cl_Hash cm)) (first_parent p m s cm) d)) (diffs_of dm (cl_Hash cm))"

definition commit_ops :: "cenv \<Rightarrow> UUID \<Rightarrow> CommitLog list \<Rightarrow> cop list" where
  "commit_ops x p cms = map (\<lambda>cm. CommitOp (commit_row x p cm)) cms"

definition index_ops ::
  "cenv \<Rightarrow> UUID \<Rightarrow> CommitLog list \<Rightarrow> (string \<rightharpoonup> FileDiffEntry list) \<Rightarrow> cdb \<Rightarrow> cop list" where
  "index_ops x p cms dm s =
     (let m = batch_ids x p s cms
      in commit_ops x p cms @ concat (map (parent_ops p m s) cms) @ concat (map (diff_ops x p m s dm) cms))"

text \<open>A run performs a prefix of the insertions, all of them when it meets no error.\<close>

definition ran :: "cop list \<Rightarrow> cdb \<Rightarrow> bool \<Rightarrow> cdb \<Rightarrow> bool" where
  "ran ops s ok s' =
     (\<exists>n \<le> length ops. s' = foldl apply_op s (take n ops) \<and> list_all (present s') (take n ops) \<and> (ok \<longrightarrow> n = length ops))"

lemma ran_none [simp]: "ran ops s False s"
  unfolding ran_def by (rule exI [of _ 0]) simp

lemma ran_Nil [simp]: "ran [] s ok s"
  by (simp add: ran_def)

lemma present_mono: "present s op \<Longrightarrow> present (apply_op s op') op"
  by (cases op; cases op') (auto simp: put_new_def)

lemma present_foldl: "present s op \<Longrightarrow> present (foldl apply_op s ops) op"
  by (induction ops arbitrary: s) (auto intro: present_mono)

lemma present_apply: "present s op \<Longrightarrow> apply_op s op = s"
  by (cases op) (auto simp: put_new_def)

lemma present_skip: "list_all (present s) ops \<Longrightarrow> foldl apply_op s ops = s"
  by (induction ops) (auto simp: present_apply)

lemma ran_append:
  assumes "ran ops s True s1" "ran ops' s1 ok s2"
  shows "ran (ops @ ops') s ok s2"
proof -
  have 1: "s1 = foldl apply_op s ops" "list_all (present s1) ops" using assms(1) by (auto simp: ran_def)
  obtain n where n: "n \<le> length ops'" "s2 = foldl apply_op s1 (take n ops')" "list_all (present s2) (take n ops')" "ok \<longrightarrow> n = length ops'"
    using assms(2) by (auto simp: ran_def)
  have "list_all (present s2) ops" using 1(2) n(2) by (auto simp: list_all_iff present_foldl)
  then show ?thesis unfolding ran_def using n 1 by (intro exI [of _ "length ops + n"]) simp
qed

lemma ran_fail: "ran ops s False s1 \<Longrightarrow> ran (ops @ ops') s False s1"
proof -
  assume "ran ops s False s1"
  then obtain n where n: "n \<le> length ops" "s1 = foldl apply_op s (take n ops)" "list_all (present s1) (take n ops)"
    by (auto simp: ran_def)
  then show ?thesis unfolding ran_def by (intro exI [of _ n]) simp
qed

lemma ran_one:
  assumes "s' = s \<and> \<not> ok \<or> s' = apply_op s op \<and> present s' op"
  shows "ran [op] s ok s'"
  using assms
proof
  assume "s' = apply_op s op \<and> present s' op"
  then have "s' = apply_op s op" "present s' op" by blast+
  then show ?thesis unfolding ran_def by (intro exI [of _ 1]) auto
qed simp

text \<open>Performing the list again, after any part of it, gives what performing it once gives.\<close>

lemma ran_again:
  assumes "ran ops s ok s1"
  shows "foldl apply_op s1 ops = foldl apply_op s ops"
proof -
  obtain n where n: "s1 = foldl apply_op s (take n ops)" "list_all (present s1) (take n ops)"
    using assms by (auto simp: ran_def)
  have "foldl apply_op s1 (take n ops @ drop n ops) = foldl apply_op s (take n ops @ drop n ops)"
    unfolding foldl_append using present_skip [OF n(2)] n(1) by simp
  then show ?thesis by simp
qed

lemma same_commit_get: "List.find (same_commit r) (cd_commits s) = GetCommitByHash (cm_ProjectID r) (cm_CommitHash r) s"
  unfolding GetCommitByHash_def same_commit_def by (rule arg_cong [of _ _ "\<lambda>f. List.find f (cd_commits s)"]) auto

lemma find_list_ex: "List.find P xs = None \<longleftrightarrow> \<not> list_ex P xs"
  by (auto simp: find_None_iff list_ex_iff)

lemma exec_step:
  assumes "exec_query ft n r s = (res, s')" "\<And>a t. r = Inr (a, t) \<Longrightarrow> t = apply_op s op \<and> present t op"
  shows "ran [op] s (\<not> isl res) s'"
  using assms by (intro ran_one) (auto simp: exec_query_def query_def split: sum.splits if_splits fault.splits)

lemma find_same_present: "List.find P xs = Some c \<Longrightarrow> list_ex P xs"
  by (auto simp: find_Some_iff list_ex_iff)

lemma InsertCommit_op:
  assumes "InsertCommit r s = Inr (c, t)"
  shows "t = apply_op s (CommitOp r) \<and> present t (CommitOp r) \<and>
    c = (case GetCommitByHash (cm_ProjectID r) (cm_CommitHash r) s of None \<Rightarrow> r | Some c' \<Rightarrow> c')"
proof (cases "List.find (same_commit r) (cd_commits s)")
  case None
  then have "list_ex (sql_eq (cm_ProjectID r)) (cd_projects s)" "t = s\<lparr>cd_commits := cd_commits s @ [r]\<rparr>" "c = r"
    using assms by (auto simp: InsertCommit_def split: if_splits)
  moreover have "same_commit r r" using calculation(1) by (auto simp: same_commit_def sql_eq_def list_ex_iff)
  ultimately show ?thesis using None by (auto simp: put_new_def find_list_ex [symmetric] same_commit_get [symmetric])
next
  case (Some c')
  then show ?thesis using assms find_same_present [OF Some]
    by (auto simp: InsertCommit_def put_new_def same_commit_get [symmetric] split: if_splits)
qed

lemma commit_exists_valid: "commit_exists p c s \<Longrightarrow> sql_eq p p \<and> sql_eq c c"
  by (auto simp: commit_exists_def list_ex_iff sql_eq_def)

lemma InsertCommitParent_op:
  assumes "InsertCommitParent r s = Inr (u, t)"
  shows "t = apply_op s (ParentOp r) \<and> present t (ParentOp r)"
  using assms commit_exists_valid [of "cpa_ProjectID r" _ s]
  by (auto simp: InsertCommitParent_def put_new_def same_parent_def split: if_splits)

lemma InsertCommitFileDiff_op:
  assumes "InsertCommitFileDiff r s = Inr (c, t)"
  shows "t = apply_op s (DiffOp r) \<and> present t (DiffOp r)"
proof (cases "List.find (same_diff r) (cd_diffs s)")
  case None
  then have "commit_exists (cfd_ProjectID r) (cfd_CommitID r) s" "t = s\<lparr>cd_diffs := cd_diffs s @ [r]\<rparr>"
    using assms by (auto simp: InsertCommitFileDiff_def split: if_splits)
  moreover have "\<not> list_ex (same_diff r) (cd_diffs s)" using None by (simp add: find_list_ex)
  ultimately show ?thesis using commit_exists_valid [of "cfd_ProjectID r" "cfd_CommitID r" s]
    by (simp add: put_new_def same_diff_def)
next
  case (Some c')
  then show ?thesis using assms find_same_present [OF Some]
    by (auto simp: InsertCommitFileDiff_def put_new_def split: if_splits)
qed

lemma GetCommitByHash_append:
  "GetCommitByHash p h (s\<lparr>cd_commits := cd_commits s @ [r]\<rparr>) =
     (case GetCommitByHash p h s of Some c \<Rightarrow> Some c
      | None \<Rightarrow> if sql_eq (cm_ProjectID r) p \<and> cm_CommitHash r = h then Some r else None)"
proof -
  have "List.find P (xs @ [r]) = (case List.find P xs of Some c \<Rightarrow> Some c | None \<Rightarrow> if P r then Some r else None)" for P xs
    by (induction xs) auto
  then show ?thesis by (simp add: GetCommitByHash_def)
qed

lemma get_put_commit:
  "GetCommitByHash p h (apply_op s (CommitOp r)) =
     (case GetCommitByHash p h s of Some c \<Rightarrow> Some c
      | None \<Rightarrow> if sql_eq (cm_ProjectID r) p \<and> cm_CommitHash r = h then Some r else None)"
proof (cases "list_ex (same_commit r) (cd_commits s)")
  case True
  have "\<not> (sql_eq (cm_ProjectID r) p \<and> cm_CommitHash r = h)" if "GetCommitByHash p h s = None"
    using that True unfolding GetCommitByHash_def find_list_ex
    by (auto simp: list_ex_iff same_commit_def) (meson sql_eq_trans)
  then show ?thesis using True by (auto simp: put_new_def split: option.split)
next
  case False
  then show ?thesis by (simp add: put_new_def GetCommitByHash_append)
qed

lemma key_id_commit: "key_id x p (apply_op s (CommitOp (commit_row x p cm))) h = key_id x p s h"
  unfolding key_id_def get_put_commit by (auto simp: commit_row_def split: option.split)

lemma get_other:
  "GetCommitByHash p h (apply_op s (ParentOp r)) = GetCommitByHash p h s"
  "GetCommitByHash p h (apply_op s (DiffOp d)) = GetCommitByHash p h s"
  by (simp_all add: GetCommitByHash_def)

lemma get_commit_other:
  "h \<noteq> cl_Hash cm \<Longrightarrow> GetCommitByHash p h (apply_op s (CommitOp (commit_row x p cm))) = GetCommitByHash p h s"
  unfolding get_put_commit by (auto simp: commit_row_def split: option.split)

section \<open>A run performs a prefix of its list\<close>

lemmas exec_query_answer = exec_query_Inr [THEN iffD1, THEN conjunct2]

lemma ran_ok: "ran ops s True s' \<Longrightarrow> s' = foldl apply_op s ops"
  by (auto simp: ran_def)

lemma insert_commits_ran:
  assumes "insert_commits x p i cms mr s = (res, s')"
  shows "ran (commit_ops x p cms) s (\<not> isl res) s' \<and>
    (\<forall>m r. res = Inr (m, r) \<longrightarrow>
       m = (\<lambda>h. if h \<in> cl_Hash ` set cms then Some (key_id x p s h) else fst mr h) \<and>
       r = (snd mr)\<lparr>cr_CommitsIndexed := cr_CommitsIndexed (snd mr) + int (length cms)\<rparr>)"
  using assms
proof (induction cms arbitrary: i mr s)
  case Nil
  then show ?case by (auto simp: commit_ops_def)
next
  case (Cons cm cms)
  let ?op = "CommitOp (commit_row x p cm)"
  obtain q s1 where q: "exec_query (cx_ft x 1 i 0) ''InsertCommit'' (InsertCommit (commit_row x p cm) s) s = (q, s1)"
    by (cases "exec_query (cx_ft x 1 i 0) ''InsertCommit'' (InsertCommit (commit_row x p cm) s) s")
  have one: "ran [?op] s (\<not> isl q) s1"
    using q by (rule exec_step) (use InsertCommit_op in blast)
  show ?case
  proof (cases q)
    case (Inl e)
    then show ?thesis using Cons.prems q one ran_fail [of "[?op]" s s1 "commit_ops x p cms"] by (auto simp: commit_ops_def)
  next
    case (Inr row)
    have s1: "s1 = apply_op s ?op" using one Inr ran_ok [of "[?op]" s s1] by simp
    have id: "cm_ID row = key_id x p s (cl_Hash cm)"
      using InsertCommit_op [OF exec_query_answer [OF q [unfolded Inr]]]
      by (auto simp: key_id_def commit_row_def split: option.splits)
    have keys: "key_id x p s1 h = key_id x p s h" for h unfolding s1 by (rule key_id_commit)
    let ?mr = "((fst mr)(cl_Hash cm \<mapsto> cm_ID row), (snd mr)\<lparr>cr_CommitsIndexed := cr_CommitsIndexed (snd mr) + 1\<rparr>)"
    have "insert_commits x p (Suc i) cms ?mr s1 = (res, s')" using Cons.prems q Inr by simp
    note IH = Cons.IH [OF this, unfolded keys]
    have "ran (commit_ops x p (cm # cms)) s (\<not> isl res) s'"
      using ran_append [of "[?op]" s s1 "commit_ops x p cms" "\<not> isl res" s'] one Inr IH by (simp add: commit_ops_def)
    moreover have "m = (\<lambda>h. if h \<in> cl_Hash ` set (cm # cms) then Some (key_id x p s h) else fst mr h) \<and>
        r = (snd mr)\<lparr>cr_CommitsIndexed := cr_CommitsIndexed (snd mr) + int (length (cm # cms))\<rparr>" if "res = Inr (m, r)" for m r
      using IH that id by (auto simp: fun_eq_iff add.assoc)
    ultimately show ?thesis by blast
  qed
qed

definition same_view :: "UUID \<Rightarrow> (string \<rightharpoonup> UUID) \<Rightarrow> cdb \<Rightarrow> cdb \<Rightarrow> bool" where
  "same_view p m s t = (\<forall>h. resolve p m s h = resolve p m t h)"

lemma same_view_other:
  "same_view p m s t \<Longrightarrow> same_view p m (apply_op s (ParentOp r)) t"
  "same_view p m s t \<Longrightarrow> same_view p m (apply_op s (DiffOp d)) t"
  unfolding same_view_def resolve_def get_other by assumption+

lemma parent_id_resolve: "parent_id ft p m h s = Inr v \<Longrightarrow> v = resolve p m s h"
  by (auto simp: parent_id_def resolve_def query_Inr split: option.splits sum.splits)

lemma insert_parents_of_ran:
  assumes "insert_parents_of x p i h m j qs s = (res, s')" "same_view p m s t"
  shows "ran (parent_ops_of p m t (id_in m h) j qs) s (\<not> isl res) s' \<and> same_view p m s' t"
  using assms
proof (induction qs arbitrary: j s)
  case (Cons q qs)
  let ?rest = "parent_ops_of p m t (id_in m h) (Suc j) qs"
  show ?case
  proof (cases "parent_id (cx_ft x 2 i j) p m q s")
    case (Inl e)
    then show ?thesis using Cons.prems by auto
  next
    case (Inr v)
    have v: "v = resolve p m t q" using parent_id_resolve [OF Inr] Cons.prems(2) by (simp add: same_view_def)
    show ?thesis
    proof (cases v)
      case None
      then show ?thesis using Cons Inr v by simp
    next
      case (Some u)
      let ?op = "ParentOp (parent_row p (id_in m h) j u)"
      obtain z s1 where z: "exec_query (cx_ft x 2 i j) ''InsertCommitParent'' (InsertCommitParent (parent_row p (id_in m h) j u) s) s = (z, s1)"
        by (cases "exec_query (cx_ft x 2 i j) ''InsertCommitParent'' (InsertCommitParent (parent_row p (id_in m h) j u) s) s")
      have one: "ran [?op] s (\<not> isl z) s1" using z by (rule exec_step) (use InsertCommitParent_op in blast)
      then have view: "same_view p m s1 t" using same_view_other(1) [OF Cons.prems(2)] Cons.prems(2)
        by (cases s1) (auto simp: ran_def take_Cons' split: if_splits)
      show ?thesis
      proof (cases z)
        case (Inl e)
        then show ?thesis using Cons.prems Inr Some v z one view ran_fail [of "[?op]" s s1 ?rest] by auto
      next
        case (Inr a)
        then have "insert_parents_of x p i h m (Suc j) qs s1 = (res, s')"
          using Cons.prems \<open>parent_id (cx_ft x 2 i j) p m q s = Inr v\<close> Some z by simp
        from Cons.IH [OF this view] have "ran ?rest s1 (\<not> isl res) s' \<and> same_view p m s' t" .
        then show ?thesis using one Inr Some v ran_append [of "[?op]" s s1 ?rest "\<not> isl res" s'] by auto
      qed
    qed
  qed
qed simp

lemma insert_parents_ran:
  assumes "insert_parents x p m i cms s = (res, s')" "same_view p m s t"
  shows "ran (concat (map (parent_ops p m t) cms)) s (\<not> isl res) s' \<and> same_view p m s' t"
  using assms
proof (induction cms arbitrary: i s)
  case (Cons cm cms)
  obtain z s1 where z: "insert_parents_of x p i (cl_Hash cm) m 0 (cl_ParentHashes cm) s = (z, s1)"
    by (cases "insert_parents_of x p i (cl_Hash cm) m 0 (cl_ParentHashes cm) s")
  from insert_parents_of_ran [OF z Cons.prems(2)]
  have one: "ran (parent_ops p m t cm) s (\<not> isl z) s1" "same_view p m s1 t" by (simp_all add: parent_ops_def)
  show ?case
  proof (cases z)
    case (Inl e)
    then show ?thesis using Cons.prems z one ran_fail by auto
  next
    case (Inr a)
    then have "insert_parents x p m (Suc i) cms s1 = (res, s')" using Cons.prems z by simp
    from Cons.IH [OF this one(2)] show ?thesis using one Inr ran_append by simp
  qed
qed simp

lemma insert_diffs_of_ran:
  assumes "insert_diffs_of x p i h c u k ds r s = (res, s')" "same_view p m s t"
  shows "ran (map (\<lambda>d. DiffOp (diff_row x p h c u d)) ds) s (\<not> isl res) s' \<and> same_view p m s' t \<and>
    (\<forall>r'. res = Inr r' \<longrightarrow> r' = r\<lparr>cr_DiffsIndexed := cr_DiffsIndexed r + int (length ds)\<rparr>)"
  using assms
proof (induction ds arbitrary: k r s)
  case (Cons d ds)
  let ?op = "DiffOp (diff_row x p h c u d)"
  obtain z s1 where z: "exec_query (cx_ft x 3 i k) ''InsertCommitFileDiff'' (InsertCommitFileDiff (diff_row x p h c u d) s) s = (z, s1)"
    by (cases "exec_query (cx_ft x 3 i k) ''InsertCommitFileDiff'' (InsertCommitFileDiff (diff_row x p h c u d) s) s")
  have one: "ran [?op] s (\<not> isl z) s1" using z by (rule exec_step) (use InsertCommitFileDiff_op in blast)
  then have view: "same_view p m s1 t" using same_view_other(2) [OF Cons.prems(2)] Cons.prems(2)
    by (cases s1) (auto simp: ran_def take_Cons' split: if_splits)
  show ?case
  proof (cases z)
    case (Inl e)
    then show ?thesis using Cons.prems z one view ran_fail [of "[?op]" s s1 "map (\<lambda>d. DiffOp (diff_row x p h c u d)) ds"] by auto
  next
    case (Inr a)
    then have "insert_diffs_of x p i h c u (Suc k) ds (r\<lparr>cr_DiffsIndexed := cr_DiffsIndexed r + 1\<rparr>) s1 = (res, s')"
      using Cons.prems z by simp
    from Cons.IH [OF this view] show ?thesis
      using one Inr ran_append [of "[?op]" s s1 "map (\<lambda>d. DiffOp (diff_row x p h c u d)) ds" "\<not> isl res" s'] by auto
  qed
qed auto

lemma diff_parent_first:
  assumes "diff_parent x p m i cm s = Inr u" "same_view p m s t"
  shows "u = first_parent p m t cm"
  using assms parent_id_resolve [of "cx_ft x 3 i 0" p m "hd (cl_ParentHashes cm)" s]
  by (auto simp: diff_parent_def first_parent_def same_view_def split: list.splits sum.splits option.splits)

definition number_of_diffs :: "(string \<rightharpoonup> FileDiffEntry list) \<Rightarrow> CommitLog list \<Rightarrow> int" where
  "number_of_diffs dm cms = int (length (concat (map (\<lambda>cm. diffs_of dm (cl_Hash cm)) cms)))"

lemma insert_diffs_ran:
  assumes "insert_diffs x p m dm i cms r s = (res, s')" "same_view p m s t"
  shows "ran (concat (map (diff_ops x p m t dm) cms)) s (\<not> isl res) s' \<and>
    (\<forall>r'. res = Inr r' \<longrightarrow> r' = r\<lparr>cr_DiffsIndexed := cr_DiffsIndexed r + number_of_diffs dm cms\<rparr>)"
  using assms
proof (induction cms arbitrary: i r s)
  case (Cons cm cms)
  show ?case
  proof (cases "diff_parent x p m i cm s")
    case (Inl e)
    then show ?thesis using Cons.prems by auto
  next
    case (Inr u)
    let ?h = "cl_Hash cm"
    have u: "u = first_parent p m t cm" by (rule diff_parent_first [OF Inr Cons.prems(2)])
    obtain z s1 where z: "insert_diffs_of x p i ?h (id_in m ?h) u 0 (diffs_of dm ?h) r s = (z, s1)"
      by (cases "insert_diffs_of x p i ?h (id_in m ?h) u 0 (diffs_of dm ?h) r s")
    have one: "ran (diff_ops x p m t dm cm) s (\<not> isl z) s1" "same_view p m s1 t"
      "\<forall>r'. z = Inr r' \<longrightarrow> r' = r\<lparr>cr_DiffsIndexed := cr_DiffsIndexed r + int (length (diffs_of dm ?h))\<rparr>"
      using insert_diffs_of_ran [OF z Cons.prems(2)] by (simp_all add: diff_ops_def u)
    show ?thesis
    proof (cases z)
      case (Inl e)
      then show ?thesis using Cons.prems Inr z one ran_fail by auto
    next
      case (Inr r1)
      then have "insert_diffs x p m dm (Suc i) cms r1 s1 = (res, s')"
        using Cons.prems \<open>diff_parent x p m i cm s = Inr u\<close> z by simp
      from Cons.IH [OF this one(2)] show ?thesis
        using one Inr ran_append by (auto simp: number_of_diffs_def add.assoc)
    qed
  qed
qed (auto simp: number_of_diffs_def)

definition index_result :: "cenv \<Rightarrow> UUID \<Rightarrow> CommitLog list \<Rightarrow> (string \<rightharpoonup> FileDiffEntry list) \<Rightarrow> cdb \<Rightarrow> commits_Result" where
  "index_result x p cms dm s =
     (if cms = [] then no_commits
      else \<lparr>cr_CommitsIndexed = int (length cms), cr_DiffsIndexed = number_of_diffs dm cms,
            cr_HeadCommitDBID = key_id x p s (cl_Hash (hd cms))\<rparr>)"

text \<open>The ids that the insertions of a batch use are not changed by them.\<close>

definition same_keys :: "cenv \<Rightarrow> UUID \<Rightarrow> CommitLog list \<Rightarrow> cdb \<Rightarrow> cdb \<Rightarrow> bool" where
  "same_keys x p cms s t =
     ((\<forall>h. key_id x p s h = key_id x p t h) \<and> (\<forall>h. h \<notin> cl_Hash ` set cms \<longrightarrow> GetCommitByHash p h s = GetCommitByHash p h t))"

fun batch_op :: "cenv \<Rightarrow> UUID \<Rightarrow> CommitLog list \<Rightarrow> cop \<Rightarrow> bool" where
  "batch_op x p cms (CommitOp r) = (\<exists>cm \<in> set cms. r = commit_row x p cm)"
| "batch_op x p cms (ParentOp r) = True"
| "batch_op x p cms (DiffOp r) = True"

lemma same_keys_op:
  assumes "batch_op x p cms op"
  shows "same_keys x p cms (apply_op s op) s"
proof (cases op)
  case (CommitOp r)
  then obtain cm where "cm \<in> set cms" "r = commit_row x p cm" using assms by auto
  then show ?thesis unfolding CommitOp same_keys_def using key_id_commit get_commit_other by blast
next
  case (ParentOp r)
  show ?thesis unfolding ParentOp same_keys_def key_id_def get_other by simp
next
  case (DiffOp r)
  show ?thesis unfolding DiffOp same_keys_def key_id_def get_other by simp
qed

lemma same_keys_foldl:
  assumes "list_all (batch_op x p cms) ops"
  shows "same_keys x p cms (foldl apply_op s ops) s"
  using assms
proof (induction ops arbitrary: s)
  case (Cons op ops)
  then have "same_keys x p cms (foldl apply_op (apply_op s op) ops) (apply_op s op)" by simp
  moreover have "same_keys x p cms (apply_op s op) s" using Cons.prems by (intro same_keys_op) simp
  ultimately show ?case by (simp add: same_keys_def)
qed (simp add: same_keys_def)

lemma batch_ids_keys: "same_keys x p cms s t \<Longrightarrow> batch_ids x p s cms = batch_ids x p t cms"
  by (auto simp: same_keys_def batch_ids_def fun_eq_iff)

lemma same_keys_view:
  assumes "same_keys x p cms s t"
  shows "same_view p (batch_ids x p t cms) s t"
  using assms by (auto simp: same_view_def resolve_def batch_ids_def same_keys_def)

lemma parent_ops_of_view:
  "same_view p m s t \<Longrightarrow> parent_ops_of p m s c j qs = parent_ops_of p m t c j qs"
  by (induction qs arbitrary: j) (simp_all add: same_view_def)

lemma index_ops_keys:
  assumes "same_keys x p cms s t"
  shows "index_ops x p cms dm s = index_ops x p cms dm t"
proof -
  let ?m = "batch_ids x p t cms"
  have v: "same_view p ?m s t" by (rule same_keys_view [OF assms])
  have "parent_ops p ?m s = parent_ops p ?m t"
    using parent_ops_of_view [OF v] by (simp add: parent_ops_def fun_eq_iff)
  moreover have "first_parent p ?m s cm = first_parent p ?m t cm" for cm
    using v by (cases "cl_ParentHashes cm") (simp_all add: first_parent_def same_view_def)
  then have "diff_ops x p ?m s dm = diff_ops x p ?m t dm" by (simp add: diff_ops_def fun_eq_iff)
  ultimately show ?thesis unfolding index_ops_def batch_ids_keys [OF assms] by (simp add: Let_def)
qed

lemma batch_commit_ops: "list_all (batch_op x p cms) (commit_ops x p cms)"
  by (auto simp: list_all_iff commit_ops_def)

lemma parent_ops_of_parents: "op \<in> set (parent_ops_of p m s c j qs) \<Longrightarrow> \<exists>r. op = ParentOp r"
  by (induction qs arbitrary: j) (auto split: option.splits)

lemma batch_index_ops: "list_all (batch_op x p cms) (index_ops x p cms dm s)"
  using batch_commit_ops [of x p cms] parent_ops_of_parents
  by (fastforce simp: list_all_iff index_ops_def Let_def parent_ops_def diff_ops_def)

lemma ran_keys:
  assumes "ran (index_ops x p cms dm s) s ok s'"
  shows "same_keys x p cms s' s"
proof -
  obtain n where "s' = foldl apply_op s (take n (index_ops x p cms dm s))" using assms by (auto simp: ran_def)
  moreover have "list_all (batch_op x p cms) (take n (index_ops x p cms dm s))"
    using batch_index_ops [of x p cms dm s] by (auto simp: list_all_iff dest: in_set_takeD)
  ultimately show ?thesis using same_keys_foldl by simp
qed

lemma indexCommits_ran:
  assumes "indexCommits x p cms dm s = (res, s')"
  shows "ran (index_ops x p cms dm s) s (\<not> isl res) s' \<and> (\<forall>r. res = Inr r \<longrightarrow> r = index_result x p cms dm s)"
proof (cases "cms = []")
  case True
  then show ?thesis using assms by (auto simp: indexCommits_def index_ops_def commit_ops_def index_result_def Let_def)
next
  case False
  let ?m = "batch_ids x p s cms"
  let ?p = "concat (map (parent_ops p ?m s) cms)" and ?d = "concat (map (diff_ops x p ?m s dm) cms)"
  have ops: "index_ops x p cms dm s = commit_ops x p cms @ ?p @ ?d" by (simp add: index_ops_def Let_def)
  obtain z1 s1 where z1: "insert_commits x p 0 cms (Map.empty, no_commits) s = (z1, s1)"
    by (cases "insert_commits x p 0 cms (Map.empty, no_commits) s")
  note one = insert_commits_ran [OF z1]
  show ?thesis
  proof (cases z1)
    case (Inl e)
    then show ?thesis using assms False z1 one ran_fail by (auto simp: ops indexCommits_def)
  next
    case (Inr mr)
    obtain m r1 where mr: "mr = (m, r1)" by (cases mr)
    have "m = (\<lambda>h. if h \<in> cl_Hash ` set cms then Some (key_id x p s h) else fst (Map.empty, no_commits) h)"
      using one Inr mr by blast
    then have m: "m = ?m" by (simp add: fun_eq_iff batch_ids_def)
    have r1: "r1 = no_commits\<lparr>cr_CommitsIndexed := int (length cms)\<rparr>" using one Inr mr by (simp add: no_commits_def)
    have ran1: "ran (commit_ops x p cms) s True s1" using one Inr by simp
    have "same_keys x p cms s1 s" unfolding ran_ok [OF ran1] by (rule same_keys_foldl [OF batch_commit_ops])
    note view = same_keys_view [OF this]
    obtain z2 s2 where z2: "insert_parents x p ?m 0 cms s1 = (z2, s2)" by (cases "insert_parents x p ?m 0 cms s1")
    note two = insert_parents_ran [OF z2 view]
    have ran2: "ran (commit_ops x p cms @ ?p) s (\<not> isl z2) s2" by (rule ran_append [OF ran1]) (use two in simp)
    show ?thesis
    proof (cases z2)
      case (Inl e)
      then show ?thesis using assms False z1 \<open>z1 = Inr mr\<close> z2 ran2 ran_fail [of "commit_ops x p cms @ ?p" s s2 ?d]
        by (auto simp: ops indexCommits_def mr m)
    next
      case (Inr u)
      obtain z3 s3 where z3: "insert_diffs x p ?m dm 0 cms r1 s2 = (z3, s3)" by (cases "insert_diffs x p ?m dm 0 cms r1 s2")
      have "same_view p ?m s2 s" using two by simp
      note three = insert_diffs_ran [OF z3 this]
      have "ran ((commit_ops x p cms @ ?p) @ ?d) s (\<not> isl z3) s3"
        by (rule ran_append [OF _ conjunct1 [OF three]]) (use ran2 Inr in simp)
      moreover have "id_in ?m (cl_Hash (hd cms)) = key_id x p s (cl_Hash (hd cms))" using False by (simp add: id_in_def batch_ids_def)
      ultimately show ?thesis
        using assms False z1 \<open>z1 = Inr mr\<close> z2 Inr z3 three
        by (cases z3) (auto simp: ops indexCommits_def mr m r1 index_result_def no_commits_def)
    qed
  qed
qed

section \<open>Running again\<close>

lemma ran_rerun:
  assumes "ran ops s ok t" "ran ops t ok' u"
  shows "ran ops s ok' u"
proof -
  obtain n where n: "n \<le> length ops" "t = foldl apply_op s (take n ops)" "list_all (present t) (take n ops)"
    using assms(1) by (auto simp: ran_def)
  obtain k where k: "k \<le> length ops" "u = foldl apply_op t (take k ops)" "list_all (present u) (take k ops)" "ok' \<longrightarrow> k = length ops"
    using assms(2) by (auto simp: ran_def)
  show ?thesis
  proof (cases "k \<le> n")
    case True
    then have "list_all (present t) (take k ops)" using n(3) by (auto simp: list_all_iff dest: set_take_subset_set_take [THEN subsetD])
    then have "u = t" using k(2) present_skip by simp
    then show ?thesis unfolding ran_def using n k True by (intro exI [of _ n]) auto
  next
    case False
    then have "take k ops = take n ops @ take (k - n) (drop n ops)" by (metis le_add_diff_inverse nat_le_linear take_add)
    then have "u = foldl apply_op s (take k ops)" using k(2) n(2) present_skip [OF n(3)] by simp
    then show ?thesis unfolding ran_def using k by (intro exI [of _ k]) auto
  qed
qed

lemma rows_ft [simp]:
  "commit_row (x\<lparr>cx_ft := ft\<rparr>) = commit_row x" "diff_row (x\<lparr>cx_ft := ft\<rparr>) = diff_row x"
  "key_id (x\<lparr>cx_ft := ft\<rparr>) = key_id x" "batch_ids (x\<lparr>cx_ft := ft\<rparr>) = batch_ids x" "diff_ops (x\<lparr>cx_ft := ft\<rparr>) = diff_ops x"
proof -
  have k: "key_id (x\<lparr>cx_ft := ft\<rparr>) = key_id x" by (auto simp: fun_eq_iff key_id_def split: option.split)
  have d: "diff_row (x\<lparr>cx_ft := ft\<rparr>) = diff_row x" by (simp add: fun_eq_iff diff_row_def)
  show "commit_row (x\<lparr>cx_ft := ft\<rparr>) = commit_row x" by (simp add: fun_eq_iff commit_row_def)
  show "diff_row (x\<lparr>cx_ft := ft\<rparr>) = diff_row x" "key_id (x\<lparr>cx_ft := ft\<rparr>) = key_id x" by (fact d k)+
  show "batch_ids (x\<lparr>cx_ft := ft\<rparr>) = batch_ids x" by (simp add: fun_eq_iff batch_ids_def k)
  show "diff_ops (x\<lparr>cx_ft := ft\<rparr>) = diff_ops x" by (simp add: fun_eq_iff diff_ops_def d)
qed

lemma index_ft:
  "index_ops (x\<lparr>cx_ft := ft\<rparr>) = index_ops x" "index_result (x\<lparr>cx_ft := ft\<rparr>) = index_result x"
  by (simp_all add: fun_eq_iff index_ops_def index_result_def commit_ops_def)

lemma index_result_keys: "same_keys x p cms s t \<Longrightarrow> index_result x p cms dm s = index_result x p cms dm t"
  by (simp add: index_result_def same_keys_def)

lemma indexCommits_again:
  assumes "ran (index_ops x p cms dm s) s ok t" "indexCommits (x\<lparr>cx_ft := ft\<rparr>) p cms dm t = (res, u)"
  shows "ran (index_ops x p cms dm s) t (\<not> isl res) u \<and> (\<forall>r. res = Inr r \<longrightarrow> r = index_result x p cms dm s)"
  using indexCommits_ran [OF assms(2)] ran_keys [OF assms(1)] by (simp add: index_ft index_ops_keys index_result_keys)

text \<open>Indexing the same history again, with whatever faults, changes nothing, and when it succeeds it reports the same.\<close>

theorem index_rerun_changes_nothing:
  assumes "indexCommits x p cms dm s = (Inr r, s1)" "indexCommits (x\<lparr>cx_ft := ft\<rparr>) p cms dm s1 = (res, s2)"
  shows "s2 = s1 \<and> (\<forall>r'. res = Inr r' \<longrightarrow> r' = r)"
proof -
  let ?ops = "index_ops x p cms dm s"
  have one: "ran ?ops s True s1" "r = index_result x p cms dm s" using indexCommits_ran [OF assms(1)] by simp_all
  have two: "ran ?ops s1 (\<not> isl res) s2" "\<forall>r'. res = Inr r' \<longrightarrow> r' = index_result x p cms dm s"
    using indexCommits_again [OF one(1) assms(2)] by simp_all
  have "list_all (present s1) ?ops" using one(1) by (auto simp: ran_def)
  then have "foldl apply_op s1 (take n ?ops) = s1" for n
    by (intro present_skip) (auto simp: list_all_iff dest: in_set_takeD)
  then have "s2 = s1" using two(1) by (auto simp: ran_def)
  then show ?thesis using one(2) two(2) by simp
qed

definition index_attempts ::
  "cenv \<Rightarrow> UUID \<Rightarrow> CommitLog list \<Rightarrow> (string \<rightharpoonup> FileDiffEntry list) \<Rightarrow> (nat \<Rightarrow> nat \<Rightarrow> nat \<Rightarrow> faults) list \<Rightarrow> cdb \<Rightarrow> cdb" where
  "index_attempts x p cms dm fts s = foldl (\<lambda>s ft. snd (indexCommits (x\<lparr>cx_ft := ft\<rparr>) p cms dm s)) s fts"

lemma index_attempts_ran: "\<exists>ok. ran (index_ops x p cms dm s) s ok (index_attempts x p cms dm fts s)"
proof (induction fts rule: rev_induct)
  case Nil
  show ?case by (auto simp: index_attempts_def intro: exI [of _ False])
next
  case (snoc ft fts)
  then obtain ok where "ran (index_ops x p cms dm s) s ok (index_attempts x p cms dm fts s)" by blast
  note a = this
  obtain res u where u: "indexCommits (x\<lparr>cx_ft := ft\<rparr>) p cms dm (index_attempts x p cms dm fts s) = (res, u)"
    by (cases "indexCommits (x\<lparr>cx_ft := ft\<rparr>) p cms dm (index_attempts x p cms dm fts s)")
  have "ran (index_ops x p cms dm s) s (\<not> isl res) u"
    by (rule ran_rerun [OF a]) (use indexCommits_again [OF a u] in simp)
  then show ?case using u by (auto simp: index_attempts_def)
qed

text \<open>C17: Runs that failed anywhere, however many, leave nothing a later run trips over: the run that then succeeds leaves the
  database in the state, down to the order of the rows, that a first run without error would have left.\<close>

theorem index_recovers:
  assumes "index_attempts x p cms dm fts s = s1"
    and "indexCommits (x\<lparr>cx_ft := ft1\<rparr>) p cms dm s1 = (Inr r2, s2)"
    and "indexCommits (x\<lparr>cx_ft := ft2\<rparr>) p cms dm s = (Inr r3, s3)"
  shows "s2 = s3 \<and> r2 = r3"
proof -
  let ?ops = "index_ops x p cms dm s"
  obtain ok where a: "ran ?ops s ok s1" using index_attempts_ran assms(1) by blast
  have b: "ran ?ops s1 True s2" "r2 = index_result x p cms dm s" using indexCommits_again [OF a assms(2)] by simp_all
  have "ran ?ops s True s3" "r3 = index_result x p cms dm s" using indexCommits_again [OF ran_none assms(3)] by simp_all
  then show ?thesis using b ran_ok [OF ran_rerun [OF a b(1)]] ran_ok by simp
qed

section \<open>What the tables hold\<close>

fun in_db :: "cdb \<Rightarrow> cop \<Rightarrow> bool" where
  "in_db s (CommitOp r) = (r \<in> set (cd_commits s))"
| "in_db s (ParentOp r) = (r \<in> set (cd_parents s))"
| "in_db s (DiffOp r) = (r \<in> set (cd_diffs s))"

fun clash :: "cop \<Rightarrow> cop \<Rightarrow> bool" where
  "clash (CommitOp r) (CommitOp r') = same_commit r r'"
| "clash (ParentOp r) (ParentOp r') = same_parent r r'"
| "clash (DiffOp r) (DiffOp r') = same_diff r r'"
| "clash _ _ = False"

definition conflict_free :: "cop set \<Rightarrow> bool" where
  "conflict_free A = (\<forall>op \<in> A. \<forall>op' \<in> A. clash op op' \<longrightarrow> op = op')"

lemma present_apply_iff: "present (apply_op s op') op \<longleftrightarrow> present s op \<or> \<not> present s op' \<and> clash op op'"
  by (cases op; cases op') (auto simp: put_new_def)

lemma in_db_apply_iff: "in_db (apply_op s op') op \<longleftrightarrow> in_db s op \<or> op = op' \<and> \<not> present s op'"
  by (cases op; cases op') (auto simp: put_new_def)

lemma in_db_foldl:
  assumes "conflict_free (set ops)"
  shows "in_db (foldl apply_op s ops) op \<longleftrightarrow> in_db s op \<or> op \<in> set ops \<and> \<not> present s op"
  using assms
proof (induction ops arbitrary: s)
  case (Cons op' ops)
  then have "conflict_free (set ops)" by (simp add: conflict_free_def)
  have step: "in_db (foldl apply_op (apply_op s op') ops) op \<longleftrightarrow>
      (in_db s op \<or> op = op' \<and> \<not> present s op') \<or> op \<in> set ops \<and> \<not> (present s op \<or> \<not> present s op' \<and> clash op op')"
    unfolding Cons.IH [OF \<open>conflict_free (set ops)\<close>] present_apply_iff in_db_apply_iff ..
  show ?case using Cons.prems unfolding foldl_Cons step conflict_free_def by auto
qed simp

definition known :: "UUID \<Rightarrow> CommitLog list \<Rightarrow> cdb \<Rightarrow> string \<Rightarrow> bool" where
  "known p cms s q = (q \<in> cl_Hash ` set cms \<or> GetCommitByHash p q s \<noteq> None)"

lemma resolve_batch: "resolve p (batch_ids x p s cms) s q = (if known p cms s q then Some (key_id x p s q) else None)"
  by (auto simp: resolve_def batch_ids_def known_def key_id_def)

lemma set_parent_ops_of:
  "op \<in> set (parent_ops_of p m s c j qs) \<longleftrightarrow>
   (\<exists>i u. i < length qs \<and> resolve p m s (qs ! i) = Some u \<and> op = ParentOp (parent_row p c (j + i) u))"
proof (induction qs arbitrary: j)
  case (Cons q qs)
  have "(\<exists>i < Suc (length qs). P i) \<longleftrightarrow> P 0 \<or> (\<exists>i < length qs. P (Suc i))" for P by (rule Ex_less_Suc2)
  note this [of "\<lambda>i. \<exists>u. resolve p m s ((q # qs) ! i) = Some u \<and> op = ParentOp (parent_row p c (j + i) u)"]
  then show ?case unfolding parent_ops_of.simps set_append Un_iff Cons.IH
    by (cases "resolve p m s q") simp_all
qed simp

definition linked_parent :: "cenv \<Rightarrow> UUID \<Rightarrow> CommitLog list \<Rightarrow> cdb \<Rightarrow> CommitLog \<Rightarrow> UUID" where
  "linked_parent x p cms s cm =
     (if cl_ParentHashes cm \<noteq> [] \<and> known p cms s (hd (cl_ParentHashes cm)) then key_id x p s (hd (cl_ParentHashes cm)) else null_UUID)"

text \<open>The rows of a history: one for every commit, one for every parent that is known, one for every changed file.\<close>

definition history_row ::
  "cenv \<Rightarrow> UUID \<Rightarrow> CommitLog list \<Rightarrow> (string \<rightharpoonup> FileDiffEntry list) \<Rightarrow> cdb \<Rightarrow> CommitLog \<Rightarrow> cop \<Rightarrow> bool" where
  "history_row x p cms dm s cm op =
     (let h = cl_Hash cm; id = key_id x p s
      in op = CommitOp (commit_row x p cm) \<or>
         (\<exists>i < length (cl_ParentHashes cm). known p cms s (cl_ParentHashes cm ! i) \<and>
            op = ParentOp (parent_row p (id h) i (id (cl_ParentHashes cm ! i)))) \<or>
         (\<exists>d \<in> set (diffs_of dm h). op = DiffOp (diff_row x p h (id h) (linked_parent x p cms s cm) d)))"

lemma set_index_ops: "op \<in> set (index_ops x p cms dm s) \<longleftrightarrow> (\<exists>cm \<in> set cms. history_row x p cms dm s cm op)"
proof -
  let ?m = "batch_ids x p s cms"
  have id: "cm \<in> set cms \<Longrightarrow> id_in ?m (cl_Hash cm) = key_id x p s (cl_Hash cm)" for cm by (auto simp: id_in_def batch_ids_def)
  have "first_parent p ?m s cm = linked_parent x p cms s cm" for cm
    by (cases "cl_ParentHashes cm") (auto simp: first_parent_def linked_parent_def resolve_batch)
  then show ?thesis
    using id by (auto simp: index_ops_def Let_def commit_ops_def parent_ops_def diff_ops_def set_parent_ops_of resolve_batch
        history_row_def split: if_splits)
qed

text \<open>The commits have different hashes and ids, and none has a parent or a changed file twice.\<close>

definition history_ok :: "cenv \<Rightarrow> UUID \<Rightarrow> CommitLog list \<Rightarrow> (string \<rightharpoonup> FileDiffEntry list) \<Rightarrow> cdb \<Rightarrow> bool" where
  "history_ok x p cms dm s =
     (distinct (map cl_Hash cms) \<and> inj (key_id x p s) \<and>
      (\<forall>cm \<in> set cms. distinct (cl_ParentHashes cm) \<and> distinct (map fd_Path (diffs_of dm (cl_Hash cm)))))"

lemma same_diff_path:
  assumes "same_diff (diff_row x p h c u d) (diff_row x p h' c' u' d')"
  shows "fd_Path d = fd_Path d'"
  using assms by (auto simp: same_diff_def diff_row_def coalesce_text_def split: if_splits)

lemma distinct_map_eq: "distinct (map f xs) \<Longrightarrow> a \<in> set xs \<Longrightarrow> b \<in> set xs \<Longrightarrow> f a = f b \<Longrightarrow> a = b"
  by (auto simp: distinct_map inj_on_def)

lemma history_conflict_free:
  assumes ok: "history_ok x p cms dm s"
  shows "conflict_free (set (index_ops x p cms dm s))"
  unfolding conflict_free_def set_index_ops
proof (intro ballI impI)
  fix op op'
  assume "op \<in> set (index_ops x p cms dm s)" "op' \<in> set (index_ops x p cms dm s)" and cl: "clash op op'"
  then obtain cm cm' where cm: "cm \<in> set cms" "history_row x p cms dm s cm op" and cm': "cm' \<in> set cms" "history_row x p cms dm s cm' op'"
    by (auto simp: set_index_ops)
  have same: "cl_Hash cm = cl_Hash cm' \<Longrightarrow> cm = cm'"
    using ok cm(1) cm'(1) distinct_map_eq [of cl_Hash cms cm cm'] by (simp add: history_ok_def)
  have inj: "key_id x p s a = key_id x p s b \<Longrightarrow> a = b" for a b using ok by (auto simp: history_ok_def dest: injD)
  have uuid: "sql_eq (key_id x p s a) (key_id x p s b) \<Longrightarrow> a = b" for a b
    by (rule inj) (auto simp: sql_eq_def intro: UUID.equality)
  show "op = op'"
  proof (cases op)
    case (CommitOp r)
    then obtain r' where r': "op' = CommitOp r'" using cl by (cases op') auto
    have rows: "r = commit_row x p cm" "r' = commit_row x p cm'"
      using cm(2) cm'(2) CommitOp r' by (auto simp: history_row_def Let_def)
    have "same_commit r r'" using cl CommitOp r' by simp
    then have "cm = cm'" by (intro same) (simp add: rows same_commit_def commit_row_def)
    then show ?thesis using rows CommitOp r' by simp
  next
    case (ParentOp r)
    then obtain r' where r': "op' = ParentOp r'" using cl by (cases op') auto
    obtain i j where i: "i < length (cl_ParentHashes cm)" "r = parent_row p (key_id x p s (cl_Hash cm)) i (key_id x p s (cl_ParentHashes cm ! i))"
      and j: "j < length (cl_ParentHashes cm')" "r' = parent_row p (key_id x p s (cl_Hash cm')) j (key_id x p s (cl_ParentHashes cm' ! j))"
      using cm(2) cm'(2) ParentOp r' by (auto simp: history_row_def Let_def)
    have sp: "same_parent r r'" using cl ParentOp r' by simp
    then have "sql_eq (key_id x p s (cl_Hash cm')) (key_id x p s (cl_Hash cm))" by (simp add: i(2) j(2) same_parent_def parent_row_def)
    then have eq: "cm = cm'" using uuid same by metis
    have "cl_ParentHashes cm ! i = cl_ParentHashes cm ! j"
      using sp by (intro uuid) (simp add: i(2) j(2) same_parent_def parent_row_def eq sql_eq_sym)
    then have "i = j" using ok cm(1) i(1) j(1) unfolding eq history_ok_def by (simp add: nth_eq_iff_index_eq)
    then show ?thesis using i j eq ParentOp r' by simp
  next
    case (DiffOp r)
    then obtain r' where r': "op' = DiffOp r'" using cl by (cases op') auto
    let ?row = "\<lambda>cm. diff_row x p (cl_Hash cm) (key_id x p s (cl_Hash cm)) (linked_parent x p cms s cm)"
    obtain d d' where d: "d \<in> set (diffs_of dm (cl_Hash cm))" "r = ?row cm d"
      and d': "d' \<in> set (diffs_of dm (cl_Hash cm'))" "r' = ?row cm' d'"
      using cm(2) cm'(2) DiffOp r' by (auto simp: history_row_def Let_def)
    have sd: "same_diff (?row cm d) (?row cm' d')" using cl DiffOp r' d d' by simp
    then have "sql_eq (key_id x p s (cl_Hash cm')) (key_id x p s (cl_Hash cm))" by (simp add: same_diff_def diff_row_def)
    then have eq: "cm = cm'" using uuid same by metis
    have "distinct (map fd_Path (diffs_of dm (cl_Hash cm)))" using ok cm(1) unfolding history_ok_def by blast
    from distinct_map_eq [OF this d(1) d'(1) [folded eq] same_diff_path [OF sd]] have "d = d'" .
    then show ?thesis using d d' eq DiffOp r' by simp
  qed
qed

lemma indexed_rows:
  assumes "history_ok x p cms dm s" "indexCommits x p cms dm s = (Inr r, s')"
  shows "in_db s' op \<longleftrightarrow> in_db s op \<or> (\<exists>cm \<in> set cms. history_row x p cms dm s cm op) \<and> \<not> present s op"
proof -
  have "ran (index_ops x p cms dm s) s True s'" using indexCommits_ran [OF assms(2)] by simp
  from ran_ok [OF this] show ?thesis
    using in_db_foldl [OF history_conflict_free [OF assms(1)], of s op] by (simp add: set_index_ops)
qed

lemma get_none_fresh: "list_all (\<lambda>c. \<not> sql_eq (cm_ProjectID c) p) (cd_commits s) \<Longrightarrow> GetCommitByHash p h s = None"
  by (auto simp: GetCommitByHash_def find_None_iff list_all_iff)

text \<open>C18: The first history of a project is stored exactly: one row for every commit, one for every parent inside the history with
  its position, one for every changed file with the first parent; nothing else is added. The head is the newest commit.\<close>

theorem indexed_history_exact:
  assumes "distinct (map cl_Hash cms)" "inj (cx_id x)" "cms \<noteq> []"
    and "\<forall>cm \<in> set cms. distinct (cl_ParentHashes cm) \<and> distinct (map fd_Path (diffs_of dm (cl_Hash cm)))"
    and "list_all (\<lambda>c. \<not> sql_eq (cm_ProjectID c) p) (cd_commits s)" "list_all (\<lambda>c. \<not> sql_eq (cpa_ProjectID c) p) (cd_parents s)"
    and "list_all (\<lambda>c. \<not> sql_eq (cfd_ProjectID c) p) (cd_diffs s)"
    and "indexCommits x p cms dm s = (Inr r, s')"
  shows "set (cd_commits s') = set (cd_commits s) \<union> commit_row x p ` set cms \<and>
    set (cd_parents s') = set (cd_parents s) \<union>
      {parent_row p (cx_id x (cl_Hash cm)) i (cx_id x (cl_ParentHashes cm ! i)) | cm i.
         cm \<in> set cms \<and> i < length (cl_ParentHashes cm) \<and> cl_ParentHashes cm ! i \<in> cl_Hash ` set cms} \<and>
    set (cd_diffs s') = set (cd_diffs s) \<union>
      {diff_row x p (cl_Hash cm) (cx_id x (cl_Hash cm))
         (if cl_ParentHashes cm \<noteq> [] \<and> hd (cl_ParentHashes cm) \<in> cl_Hash ` set cms then cx_id x (hd (cl_ParentHashes cm)) else null_UUID) d | cm d.
         cm \<in> set cms \<and> d \<in> set (diffs_of dm (cl_Hash cm))} \<and>
    r = \<lparr>cr_CommitsIndexed = int (length cms), cr_DiffsIndexed = number_of_diffs dm cms, cr_HeadCommitDBID = cx_id x (cl_Hash (hd cms))\<rparr>"
proof -
  note none = get_none_fresh [OF assms(5)]
  have key: "key_id x p s = cx_id x" by (simp add: fun_eq_iff key_id_def none)
  have kn: "known p cms s q \<longleftrightarrow> q \<in> cl_Hash ` set cms" for q by (simp add: known_def none)
  have ok: "history_ok x p cms dm s" using assms(1,2,4) by (simp add: history_ok_def key)
  have new: "history_row x p cms dm s cm op \<Longrightarrow> \<not> present s op" for cm op
    using assms(5-7) by (auto simp: history_row_def Let_def list_all_iff list_ex_iff same_commit_def same_parent_def same_diff_def
        commit_row_def parent_row_def diff_row_def)
  note rows = indexed_rows [OF ok assms(8)]
  have row: "in_db s' op \<longleftrightarrow> in_db s op \<or> (\<exists>cm \<in> set cms. history_row x p cms dm s cm op)" for op
    using rows [of op] new by blast
  have "set (cd_commits s') = set (cd_commits s) \<union> commit_row x p ` set cms"
    using row [of "CommitOp _"] by (auto simp: history_row_def Let_def)
  moreover have "set (cd_parents s') = set (cd_parents s) \<union>
      {parent_row p (cx_id x (cl_Hash cm)) i (cx_id x (cl_ParentHashes cm ! i)) | cm i.
         cm \<in> set cms \<and> i < length (cl_ParentHashes cm) \<and> cl_ParentHashes cm ! i \<in> cl_Hash ` set cms}"
  proof -
    have "u \<in> set (cd_parents s') \<longleftrightarrow> u \<in> set (cd_parents s) \<or> (\<exists>cm \<in> set cms. \<exists>i < length (cl_ParentHashes cm).
        cl_ParentHashes cm ! i \<in> cl_Hash ` set cms \<and>
        u = parent_row p (cx_id x (cl_Hash cm)) i (cx_id x (cl_ParentHashes cm ! i)))" for u
      using row [of "ParentOp u"] by (simp add: history_row_def Let_def key kn)
    then show ?thesis by blast
  qed
  moreover have "set (cd_diffs s') = set (cd_diffs s) \<union>
      {diff_row x p (cl_Hash cm) (cx_id x (cl_Hash cm))
         (if cl_ParentHashes cm \<noteq> [] \<and> hd (cl_ParentHashes cm) \<in> cl_Hash ` set cms then cx_id x (hd (cl_ParentHashes cm)) else null_UUID) d | cm d.
         cm \<in> set cms \<and> d \<in> set (diffs_of dm (cl_Hash cm))}"
  proof -
    have lp: "linked_parent x p cms s = (\<lambda>cm. if cl_ParentHashes cm \<noteq> [] \<and> hd (cl_ParentHashes cm) \<in> cl_Hash ` set cms
        then cx_id x (hd (cl_ParentHashes cm)) else null_UUID)"
      by (simp add: fun_eq_iff linked_parent_def kn key)
    have "u \<in> set (cd_diffs s') \<longleftrightarrow> u \<in> set (cd_diffs s) \<or> (\<exists>cm \<in> set cms. \<exists>d \<in> set (diffs_of dm (cl_Hash cm)).
        u = diff_row x p (cl_Hash cm) (cx_id x (cl_Hash cm)) (linked_parent x p cms s cm) d)" for u
      using row [of "DiffOp u"] by (simp add: history_row_def Let_def key)
    then show ?thesis unfolding lp by blast
  qed
  ultimately show ?thesis using indexCommits_ran [OF assms(8)] assms(3) by (simp add: index_result_def key)
qed

section \<open>Indexing in parts\<close>

definition same_rows :: "cdb \<Rightarrow> cdb \<Rightarrow> bool" where
  "same_rows s t =
     (set (cd_commits s) = set (cd_commits t) \<and> set (cd_parents s) = set (cd_parents t) \<and> set (cd_diffs s) = set (cd_diffs t))"

lemma same_rows_iff: "same_rows s t \<longleftrightarrow> (\<forall>op. in_db s op = in_db t op)"
proof
  show "same_rows s t \<Longrightarrow> \<forall>op. in_db s op = in_db t op"
    by (intro allI, case_tac op) (auto simp: same_rows_def)
  assume a: "\<forall>op. in_db s op = in_db t op"
  have "r \<in> set (cd_commits s) \<longleftrightarrow> r \<in> set (cd_commits t)" for r using a [rule_format, of "CommitOp r"] by simp
  moreover have "r \<in> set (cd_parents s) \<longleftrightarrow> r \<in> set (cd_parents t)" for r using a [rule_format, of "ParentOp r"] by simp
  moreover have "r \<in> set (cd_diffs s) \<longleftrightarrow> r \<in> set (cd_diffs t)" for r using a [rule_format, of "DiffOp r"] by simp
  ultimately show "same_rows s t" by (auto simp: same_rows_def)
qed

lemma present_foldl_clash:
  "present (foldl apply_op s ops) op \<Longrightarrow> present s op \<or> (\<exists>op' \<in> set ops. clash op op')"
proof (induction ops arbitrary: s)
  case (Cons op' ops)
  then have "present (apply_op s op') op \<or> (\<exists>op'' \<in> set ops. clash op op'')" by simp
  then show ?case unfolding present_apply_iff by auto
qed simp

lemma indexed_known:
  assumes "indexCommits x p cms dm s = (Inr r, s')"
  shows "GetCommitByHash p q s' \<noteq> None \<longleftrightarrow> known p cms s q"
proof -
  have run: "ran (index_ops x p cms dm s) s True s'" using indexCommits_ran [OF assms] by simp
  have keys: "same_keys x p cms s' s" by (rule ran_keys [OF run])
  show ?thesis
  proof (cases "q \<in> cl_Hash ` set cms")
    case True
    then obtain cm where cm: "cm \<in> set cms" "q = cl_Hash cm" by blast
    have "CommitOp (commit_row x p cm) \<in> set (index_ops x p cms dm s)"
      using cm(1) by (auto simp: set_index_ops history_row_def Let_def)
    then have "present s' (CommitOp (commit_row x p cm))" using run by (auto simp: ran_def list_all_iff)
    then have "List.find (same_commit (commit_row x p cm)) (cd_commits s') \<noteq> None" by (simp add: find_list_ex)
    then show ?thesis unfolding same_commit_get using True cm(2) by (simp add: known_def commit_row_def)
  next
    case False
    then show ?thesis using keys by (simp add: known_def same_keys_def)
  qed
qed

lemma history_row_cong:
  assumes "\<And>q. key_id x p s q = key_id x p t q" "\<And>q. q \<in> set (cl_ParentHashes cm) \<Longrightarrow> known p cms s q = known p cms' t q"
    and "diffs_of dm (cl_Hash cm) = diffs_of dm' (cl_Hash cm)"
  shows "history_row x p cms dm s cm op = history_row x p cms' dm' t cm op"
proof -
  have "linked_parent x p cms s cm = linked_parent x p cms' t cm"
    using assms(2) [of "hd (cl_ParentHashes cm)"] by (auto simp: linked_parent_def assms(1))
  then show ?thesis using assms(2) by (auto simp: history_row_def Let_def assms(1,3))
qed

text \<open>C16: Indexing the older part of a history first and the newer commits later, as the incremental workflow does, stores the
  rows that indexing the whole history at once stores, links across the border included.\<close>

theorem history_in_parts:
  assumes ok: "history_ok x p (newer @ older) dm s"
    and order: "\<forall>cm \<in> set older. set (cl_ParentHashes cm) \<inter> cl_Hash ` set newer = {}"
    and maps: "\<forall>cm \<in> set older. dm1 (cl_Hash cm) = dm (cl_Hash cm)" "\<forall>cm \<in> set newer. dm2 (cl_Hash cm) = dm (cl_Hash cm)"
    and r1: "indexCommits (x\<lparr>cx_ft := ft1\<rparr>) p older dm1 s = (Inr r1, s1)"
    and r2: "indexCommits (x\<lparr>cx_ft := ft2\<rparr>) p newer dm2 s1 = (Inr r2, s2)"
    and r3: "indexCommits (x\<lparr>cx_ft := ft3\<rparr>) p (newer @ older) dm s = (Inr r3, s3)"
  shows "same_rows s2 s3 \<and> (newer \<noteq> [] \<longrightarrow> cr_HeadCommitDBID r2 = cr_HeadCommitDBID r3)"
proof -
  have hr: "history_row (x\<lparr>cx_ft := ft\<rparr>) = history_row x" for ft
    by (simp add: fun_eq_iff history_row_def linked_parent_def)
  have okft: "history_ok (x\<lparr>cx_ft := ft\<rparr>) = history_ok x" for ft by (simp add: fun_eq_iff history_ok_def)
  have run1: "ran (index_ops x p older dm1 s) s True s1" using indexCommits_ran [OF r1] by (simp add: index_ft)
  have key: "key_id x p s1 q = key_id x p s q" for q using ran_keys [OF run1] by (simp add: same_keys_def)
  have d1: "cm \<in> set older \<Longrightarrow> diffs_of dm1 (cl_Hash cm) = diffs_of dm (cl_Hash cm)" for cm using maps(1) by (simp add: diffs_of_def)
  have d2: "cm \<in> set newer \<Longrightarrow> diffs_of dm2 (cl_Hash cm) = diffs_of dm (cl_Hash cm)" for cm using maps(2) by (simp add: diffs_of_def)
  have ok1: "history_ok x p older dm1 s" using ok d1 by (auto simp: history_ok_def)
  have inj1: "inj (key_id x p s1)" using ok key by (simp add: history_ok_def inj_def)
  have ok2: "history_ok x p newer dm2 s1" using ok d2 inj1 by (auto simp: history_ok_def)
  have kn: "known p newer s1 q = known p (newer @ older) s q" for q
    using indexed_known [OF r1] by (auto simp: known_def)
  have hr1: "cm \<in> set older \<Longrightarrow> history_row x p older dm1 s cm op = history_row x p (newer @ older) dm s cm op" for cm op
    by (rule history_row_cong) (use order d1 in \<open>auto simp: known_def\<close>)
  have hr2: "cm \<in> set newer \<Longrightarrow> history_row x p newer dm2 s1 cm op = history_row x p (newer @ older) dm s cm op" for cm op
    by (rule history_row_cong) (use d2 in \<open>auto simp: key kn\<close>)
  let ?H = "\<lambda>cms op. \<exists>cm \<in> set cms. history_row x p (newer @ older) dm s cm op"
  have row1: "in_db s1 op \<longleftrightarrow> in_db s op \<or> ?H older op \<and> \<not> present s op" for op
    using indexed_rows [OF _ r1, of op] ok1 hr1 by (simp add: hr okft)
  have row2: "in_db s2 op \<longleftrightarrow> in_db s1 op \<or> ?H newer op \<and> \<not> present s1 op" for op
    using indexed_rows [OF _ r2, of op] ok2 hr2 by (simp add: hr okft)
  have row3: "in_db s3 op \<longleftrightarrow> in_db s op \<or> ?H (newer @ older) op \<and> \<not> present s op" for op
    using indexed_rows [OF _ r3, of op] ok by (simp add: hr okft)
  have old: "?H older op" if new: "?H newer op" and pre: "present s1 op" "\<not> present s op" for op
  proof -
    obtain op' where op': "?H older op'" "clash op op'"
      using present_foldl_clash [of s "index_ops x p older dm1 s" op] ran_ok [OF run1] pre hr1 by (auto simp: set_index_ops)
    have "op \<in> set (index_ops x p (newer @ older) dm s)" "op' \<in> set (index_ops x p (newer @ older) dm s)"
      using new op'(1) by (auto simp: set_index_ops)
    then have "op = op'" using history_conflict_free [OF ok] op'(2) unfolding conflict_free_def by blast
    then show ?thesis using op' by simp
  qed
  have mono: "present s op \<Longrightarrow> present s1 op" for op using ran_ok [OF run1] by (simp add: present_foldl)
  have "in_db s2 op = in_db s3 op" for op unfolding row2 row1 row3 using old [of op] mono [of op] by auto
  moreover have "newer \<noteq> [] \<longrightarrow> cr_HeadCommitDBID r2 = cr_HeadCommitDBID r3"
    using indexCommits_ran [OF r2] indexCommits_ran [OF r3] by (simp add: index_ft index_result_def key)
  ultimately show ?thesis by (simp add: same_rows_iff)
qed

section \<open>Patches that are not UTF-8\<close>

lemma insert_diffs_of_text:
  "insert_diffs_of x p i h c u k ds r s = (Inr r', s') \<Longrightarrow> d \<in> set ds \<Longrightarrow> text_ok (fd_Patch d)"
proof (induction ds arbitrary: k r s)
  case (Cons d' ds)
  then obtain a s1 where q: "exec_query (cx_ft x 3 i k) ''InsertCommitFileDiff'' (InsertCommitFileDiff (diff_row x p h c u d') s) s = (Inr a, s1)"
    by (auto split: prod.splits sum.splits)
  have "opt_text_ok (toPgText (fd_Patch d'))"
    using exec_query_answer [OF q] by (auto simp: InsertCommitFileDiff_def diff_row_def split: if_splits)
  then have "text_ok (fd_Patch d')" by (auto simp: opt_text_ok_def toPgText_def text_ok_def split: if_splits)
  then show ?case using Cons q by auto
qed simp

lemma insert_diffs_text:
  "insert_diffs x p m dm i cms r s = (Inr r', s') \<Longrightarrow> cm \<in> set cms \<Longrightarrow> d \<in> set (diffs_of dm (cl_Hash cm)) \<Longrightarrow> text_ok (fd_Patch d)"
  by (induction cms arbitrary: i r s) (auto split: sum.splits prod.splits dest: insert_diffs_of_text)

text \<open>C36: A history with one patch that is not UTF-8, such as the change of a source file in Latin-1, is never indexed: every run
  fails, whatever the database answers, although the full index skips such files on purpose.\<close>

theorem invalid_patch_fails_every_run:
  assumes "cm \<in> set cms" "d \<in> set (diffs_of dm (cl_Hash cm))" "\<not> text_ok (fd_Patch d)"
  shows "\<exists>e. fst (indexCommits x p cms dm s) = Inl e"
  using assms insert_diffs_text [of x p _ dm 0 cms]
  by (fastforce simp: indexCommits_def split: prod.splits sum.splits)

section \<open>Witnesses\<close>

definition ex_cenv :: cenv where
  "ex_cenv = \<lparr>cx_ft = (\<lambda>_ _ _ _. NoFault), cx_now = 7, cx_id = (\<lambda>h. \<lparr>uuid_Bytes = h, uuid_Valid = True\<rparr>),
     cx_diff_id = (\<lambda>h f. \<lparr>uuid_Bytes = h @ f, uuid_Valid = True\<rparr>), cx_err = (\<lambda>_. ''db'')\<rparr>"

definition ex_commit :: "string \<Rightarrow> string list \<Rightarrow> CommitLog" where
  "ex_commit h ps = \<lparr>cl_Hash = h, cl_ParentHashes = ps, cl_AuthorName = ''a'', cl_AuthorEmail = ''e'', cl_AuthorDate = 1,
     cl_CommitterName = ''a'', cl_CommitterEmail = ''e'', cl_CommitterDate = 1, cl_Message = ''m''\<rparr>"

definition ex_pid :: UUID where
  "ex_pid = \<lparr>uuid_Bytes = ''p'', uuid_Valid = True\<rparr>"

definition ex_cdb :: cdb where
  "ex_cdb = \<lparr>cd_projects = [ex_pid], cd_commits = [], cd_parents = [], cd_diffs = []\<rparr>"

definition ex_new :: "CommitLog list" where "ex_new = [ex_commit ''h2'' [''h1'', ''h0'']]"
definition ex_old :: "CommitLog list" where "ex_old = [ex_commit ''h1'' [''x'']]"

definition ex_diffs :: "string \<rightharpoonup> FileDiffEntry list" where
  "ex_diffs = [''h2'' \<mapsto> [(new_entry ''M'' ''f.go'')\<lparr>fd_Additions := 2\<rparr>], ''h1'' \<mapsto> [new_entry ''A'' ''f.go'', new_entry ''A'' ''g.go'']]"

definition ex_broken :: "nat \<Rightarrow> nat \<Rightarrow> nat \<Rightarrow> faults" where
  "ex_broken ph i j = (\<lambda>_. if ph = 3 \<and> i = 1 \<and> j = 1 then LostAnswer else NoFault)"

definition ex_fine :: "nat \<Rightarrow> nat \<Rightarrow> nat \<Rightarrow> faults" where
  "ex_fine ph i j = (\<lambda>_. NoFault)"

lemma ex_runs:
  "\<not> isl (fst (indexCommits (ex_cenv\<lparr>cx_ft := ex_fine\<rparr>) ex_pid (ex_new @ ex_old) ex_diffs ex_cdb))"
  "isl (fst (indexCommits (ex_cenv\<lparr>cx_ft := ex_broken\<rparr>) ex_pid (ex_new @ ex_old) ex_diffs ex_cdb))"
  "\<not> isl (fst (indexCommits (ex_cenv\<lparr>cx_ft := ex_fine\<rparr>) ex_pid (ex_new @ ex_old) ex_diffs
     (index_attempts ex_cenv ex_pid (ex_new @ ex_old) ex_diffs [ex_broken, ex_broken] ex_cdb)))"
  "\<not> isl (fst (indexCommits (ex_cenv\<lparr>cx_ft := ex_fine\<rparr>) ex_pid ex_old ex_diffs ex_cdb))"
  "\<not> isl (fst (indexCommits (ex_cenv\<lparr>cx_ft := ex_fine\<rparr>) ex_pid ex_new ex_diffs
     (snd (indexCommits (ex_cenv\<lparr>cx_ft := ex_fine\<rparr>) ex_pid ex_old ex_diffs ex_cdb))))"
  by code_simp+

lemma not_isl_pair: "\<not> isl (fst z) \<Longrightarrow> \<exists>r. z = (Inr r, snd z)"
  by (cases z; cases "fst z") auto

theorem index_rerun_changes_nothing_witness:
  "snd (indexCommits (ex_cenv\<lparr>cx_ft := ex_broken\<rparr>) ex_pid (ex_new @ ex_old) ex_diffs
      (snd (indexCommits (ex_cenv\<lparr>cx_ft := ex_fine\<rparr>) ex_pid (ex_new @ ex_old) ex_diffs ex_cdb))) =
    snd (indexCommits (ex_cenv\<lparr>cx_ft := ex_fine\<rparr>) ex_pid (ex_new @ ex_old) ex_diffs ex_cdb)"
proof -
  let ?z = "indexCommits (ex_cenv\<lparr>cx_ft := ex_fine\<rparr>) ex_pid (ex_new @ ex_old) ex_diffs ex_cdb"
  obtain r where r: "?z = (Inr r, snd ?z)" using not_isl_pair [OF ex_runs(1)] by blast
  let ?w = "indexCommits (ex_cenv\<lparr>cx_ft := ex_fine, cx_ft := ex_broken\<rparr>) ex_pid (ex_new @ ex_old) ex_diffs (snd ?z)"
  have "snd ?w = snd ?z" using index_rerun_changes_nothing [OF r, of ex_broken "fst ?w" "snd ?w"] by simp
  then show ?thesis by simp
qed

theorem index_recovers_witness:
  "snd (indexCommits (ex_cenv\<lparr>cx_ft := ex_fine\<rparr>) ex_pid (ex_new @ ex_old) ex_diffs
      (index_attempts ex_cenv ex_pid (ex_new @ ex_old) ex_diffs [ex_broken, ex_broken] ex_cdb)) =
    snd (indexCommits (ex_cenv\<lparr>cx_ft := ex_fine\<rparr>) ex_pid (ex_new @ ex_old) ex_diffs ex_cdb)"
proof -
  obtain r r' where "indexCommits (ex_cenv\<lparr>cx_ft := ex_fine\<rparr>) ex_pid (ex_new @ ex_old) ex_diffs
      (index_attempts ex_cenv ex_pid (ex_new @ ex_old) ex_diffs [ex_broken, ex_broken] ex_cdb) =
      (Inr r, snd (indexCommits (ex_cenv\<lparr>cx_ft := ex_fine\<rparr>) ex_pid (ex_new @ ex_old) ex_diffs
      (index_attempts ex_cenv ex_pid (ex_new @ ex_old) ex_diffs [ex_broken, ex_broken] ex_cdb)))"
    "indexCommits (ex_cenv\<lparr>cx_ft := ex_fine\<rparr>) ex_pid (ex_new @ ex_old) ex_diffs ex_cdb =
      (Inr r', snd (indexCommits (ex_cenv\<lparr>cx_ft := ex_fine\<rparr>) ex_pid (ex_new @ ex_old) ex_diffs ex_cdb))"
    using not_isl_pair [OF ex_runs(3)] not_isl_pair [OF ex_runs(1)] by blast
  from index_recovers [OF refl this] show ?thesis by (rule conjunct1)
qed

lemma ex_inj: "inj (cx_id ex_cenv)"
  by (simp add: inj_def ex_cenv_def)

lemma ex_none: "GetCommitByHash p h ex_cdb = None"
  by (simp add: GetCommitByHash_def ex_cdb_def)

lemma ex_history:
  "distinct (map cl_Hash (ex_new @ ex_old))"
  "\<forall>cm \<in> set (ex_new @ ex_old). distinct (cl_ParentHashes cm) \<and> distinct (map fd_Path (diffs_of ex_diffs (cl_Hash cm)))"
  by (simp_all add: ex_new_def ex_old_def ex_commit_def ex_diffs_def diffs_of_def new_entry_def)

theorem indexed_history_exact_witness:
  "set (cd_commits (snd (indexCommits (ex_cenv\<lparr>cx_ft := ex_fine\<rparr>) ex_pid (ex_new @ ex_old) ex_diffs ex_cdb))) =
    commit_row ex_cenv ex_pid ` set (ex_new @ ex_old)"
proof -
  obtain r where r: "indexCommits (ex_cenv\<lparr>cx_ft := ex_fine\<rparr>) ex_pid (ex_new @ ex_old) ex_diffs ex_cdb =
      (Inr r, snd (indexCommits (ex_cenv\<lparr>cx_ft := ex_fine\<rparr>) ex_pid (ex_new @ ex_old) ex_diffs ex_cdb))"
    using not_isl_pair [OF ex_runs(1)] by blast
  have i: "inj (cx_id (ex_cenv\<lparr>cx_ft := ex_fine\<rparr>))" using ex_inj by simp
  have n: "ex_new @ ex_old \<noteq> []" by (simp add: ex_new_def)
  from indexed_history_exact [OF ex_history(1) i n ex_history(2) _ _ _ r] show ?thesis by (simp add: ex_cdb_def)
qed

theorem history_in_parts_witness:
  "same_rows
    (snd (indexCommits (ex_cenv\<lparr>cx_ft := ex_fine\<rparr>) ex_pid ex_new ex_diffs
       (snd (indexCommits (ex_cenv\<lparr>cx_ft := ex_fine\<rparr>) ex_pid ex_old ex_diffs ex_cdb))))
    (snd (indexCommits (ex_cenv\<lparr>cx_ft := ex_fine\<rparr>) ex_pid (ex_new @ ex_old) ex_diffs ex_cdb))"
proof -
  have k: "key_id ex_cenv ex_pid ex_cdb = cx_id ex_cenv" by (simp add: fun_eq_iff key_id_def ex_none)
  have ok: "history_ok ex_cenv ex_pid (ex_new @ ex_old) ex_diffs ex_cdb"
    using ex_history ex_inj by (simp add: history_ok_def k)
  have o: "\<forall>cm \<in> set ex_old. set (cl_ParentHashes cm) \<inter> cl_Hash ` set ex_new = {}"
    by (simp add: ex_new_def ex_old_def ex_commit_def)
  obtain r1 r2 r3 where r:
    "indexCommits (ex_cenv\<lparr>cx_ft := ex_fine\<rparr>) ex_pid ex_old ex_diffs ex_cdb =
      (Inr r1, snd (indexCommits (ex_cenv\<lparr>cx_ft := ex_fine\<rparr>) ex_pid ex_old ex_diffs ex_cdb))"
    "indexCommits (ex_cenv\<lparr>cx_ft := ex_fine\<rparr>) ex_pid ex_new ex_diffs (snd (indexCommits (ex_cenv\<lparr>cx_ft := ex_fine\<rparr>) ex_pid ex_old ex_diffs ex_cdb)) =
      (Inr r2, snd (indexCommits (ex_cenv\<lparr>cx_ft := ex_fine\<rparr>) ex_pid ex_new ex_diffs
        (snd (indexCommits (ex_cenv\<lparr>cx_ft := ex_fine\<rparr>) ex_pid ex_old ex_diffs ex_cdb))))"
    "indexCommits (ex_cenv\<lparr>cx_ft := ex_fine\<rparr>) ex_pid (ex_new @ ex_old) ex_diffs ex_cdb =
      (Inr r3, snd (indexCommits (ex_cenv\<lparr>cx_ft := ex_fine\<rparr>) ex_pid (ex_new @ ex_old) ex_diffs ex_cdb))"
    using not_isl_pair [OF ex_runs(4)] not_isl_pair [OF ex_runs(5)] not_isl_pair [OF ex_runs(1)] by blast
  from history_in_parts [OF ok o _ _ r] show ?thesis by simp
qed

theorem invalid_patch_fails_every_run_witness:
  "\<exists>e. fst (indexCommits ex_cenv ex_pid ex_old [''h1'' \<mapsto> [(new_entry ''M'' ''f.go'')\<lparr>fd_Patch := [CHR 0xE9, CHR ''x'']\<rparr>]] ex_cdb) = Inl e"
proof -
  have "\<not> text_ok [CHR 0xE9, CHR ''x'']" by code_simp
  then show ?thesis
    using invalid_patch_fails_every_run [of "ex_commit ''h1'' [''x'']" ex_old "(new_entry ''M'' ''f.go'')\<lparr>fd_Patch := [CHR 0xE9, CHR ''x'']\<rparr>"
        "[''h1'' \<mapsto> [(new_entry ''M'' ''f.go'')\<lparr>fd_Patch := [CHR 0xE9, CHR ''x'']\<rparr>]]" ex_cenv ex_pid ex_cdb]
    by (simp add: ex_old_def diffs_of_def ex_commit_def)
qed

end
