(* ===== verification/Provider_Settings.thy ===== *)
theory Provider_Settings
  imports Index_Pipeline
begin

text \<open>
  The embedding providers of the platform and of its projects
  (\<^verbatim>\<open>src/backend-api/internal/embedding/service.go\<close> with \<^verbatim>\<open>providersetting/common.go\<close>,
  \<^verbatim>\<open>providers/registry.go\<close> and \<^verbatim>\<open>providers/endpoint.go\<close>) over the tables \<^verbatim>\<open>embedding_provider_configs\<close>,
  \<^verbatim>\<open>embedding_versions\<close> and the selections in \<^verbatim>\<open>projects\<close>, with the queries of
  \<^verbatim>\<open>src/datastore/postgres/sqlc/keys_and_settings.sql.go\<close> and the constraints and triggers of the first migration.

  The environment \<open>senv\<close>: \<open>pv_now\<close> the clock, \<open>pv_fts\<close> the faults of the attempts of a transaction, \<open>pv_ft\<close> those of queries
  outside, \<open>pv_fresh\<close> and \<open>pv_fresh_version\<close> generated keys, \<open>pv_scan\<close> the parser of identifiers, \<open>pv_url\<close> is
  \<^verbatim>\<open>url.Parse\<close>, \<open>pv_lower\<close> \<^verbatim>\<open>strings.ToLower\<close>, \<open>pv_marshal\<close> and \<open>pv_unmarshal\<close> write and read JSON objects (a map is
  the list of its entries), \<open>pv_encrypt\<close> encrypts with the key of the service and a fresh nonce, \<open>pv_random\<close> the
  8 random bytes of a version label or the failure of the source, \<open>pv_quote\<close> is \<^verbatim>\<open>%q\<close>. An error that is no
  \<open>AppError\<close> and no database error is \<open>Pg_Other\<close>.
\<close>

section \<open>Tables\<close>

type_synonym json_object = "(string \<times> string) list"

record EmbeddingProviderConfig =
  epc_ID :: UUID
  epc_Name :: string
  epc_Provider :: string
  epc_EndpointUrl :: string
  epc_Model :: string
  epc_Dimensions :: int
  epc_MaxTokens :: int
  epc_SettingsJson :: string
  epc_CredentialsEncrypted :: "string option"
  epc_IsActive :: bool
  epc_IsDefault :: bool
  epc_IsAvailableToProjects :: bool
  epc_ProjectID :: UUID
  epc_CreatedAt :: timestamp
  epc_UpdatedAt :: timestamp

record ProjectSelections =
  sel_ProjectID :: UUID
  sel_SelectedEmbeddingGlobalConfigID :: UUID
  sel_UpdatedAt :: timestamp

record pdb =
  pd_projects :: "ProjectSelections list"
  pd_configs :: "EmbeddingProviderConfig list"
  pd_versions :: "EmbeddingVersion list"

definition is_global :: "EmbeddingProviderConfig \<Rightarrow> bool" where
  "is_global c = (\<not> uuid_Valid (epc_ProjectID c))"

definition global_default :: "EmbeddingProviderConfig \<Rightarrow> bool" where
  "global_default c = (is_global c \<and> epc_IsDefault c)"

definition active_of :: "UUID \<Rightarrow> EmbeddingProviderConfig \<Rightarrow> bool" where
  "active_of p c = (sql_eq (epc_ProjectID c) p \<and> epc_IsActive c)"

definition selects :: "UUID \<Rightarrow> ProjectSelections \<Rightarrow> bool" where
  "selects i r = sql_eq (sel_SelectedEmbeddingGlobalConfigID r) i"

definition update_configs ::
  "(EmbeddingProviderConfig \<Rightarrow> bool) \<Rightarrow> (EmbeddingProviderConfig \<Rightarrow> EmbeddingProviderConfig) \<Rightarrow> pdb \<Rightarrow> nat \<times> pdb" where
  "update_configs P f s =
     (length (filter P (pd_configs s)), s\<lparr>pd_configs := map (\<lambda>c. if P c then f c else c) (pd_configs s)\<rparr>)"

text \<open>The constraints a new row meets: the key, the ranges, the flags of a project's row, the project it refers to, one default, and one
  active row for a project.\<close>

definition config_constraints :: "EmbeddingProviderConfig \<Rightarrow> pdb \<Rightarrow> db_error option" where
  "config_constraints c s =
     (if \<not> (0 < epc_Dimensions c \<and> epc_Dimensions c \<le> 65536 \<and> 1 \<le> epc_MaxTokens c \<and> epc_MaxTokens c \<le> 131072) then Some Pg_Other
      else if \<not> is_global c \<and> (epc_IsDefault c \<or> epc_IsAvailableToProjects c) then Some Pg_Other
      else if \<not> uuid_Valid (epc_ID c) then Some Pg_Other
      else if list_ex (\<lambda>d. sql_eq (epc_ID d) (epc_ID c)) (pd_configs s) then Some Pg_Unique
      else if global_default c \<and> list_ex global_default (pd_configs s) then Some Pg_Unique
      else if \<not> is_global c \<and> epc_IsActive c \<and> list_ex (active_of (epc_ProjectID c)) (pd_configs s) then Some Pg_Unique
      else if \<not> is_global c \<and> \<not> list_ex (\<lambda>r. sql_eq (sel_ProjectID r) (epc_ProjectID c)) (pd_projects s) then Some Pg_Other
      else None)"

definition insert_config :: "EmbeddingProviderConfig \<Rightarrow> pdb \<Rightarrow> db_error + EmbeddingProviderConfig \<times> pdb" where
  "insert_config c s = (case config_constraints c s of Some e \<Rightarrow> Inl e | None \<Rightarrow> Inr (c, s\<lparr>pd_configs := pd_configs s @ [c]\<rparr>))"

section \<open>Queries\<close>

definition LockProject :: "UUID \<Rightarrow> pdb \<Rightarrow> ProjectSelections option" where
  "LockProject p s = List.find (\<lambda>r. sql_eq (sel_ProjectID r) p) (pd_projects s)"

definition GetProjectProviderSelections :: "UUID \<Rightarrow> pdb \<Rightarrow> ProjectSelections option" where
  "GetProjectProviderSelections p s = List.find (\<lambda>r. sql_eq (sel_ProjectID r) p) (pd_projects s)"

definition select_config :: "timestamp \<Rightarrow> UUID \<Rightarrow> UUID \<Rightarrow> pdb \<Rightarrow> pdb" where
  "select_config now p i s =
     s\<lparr>pd_projects := map (\<lambda>r. if sql_eq (sel_ProjectID r) p
          then r\<lparr>sel_SelectedEmbeddingGlobalConfigID := i, sel_UpdatedAt := now\<rparr> else r) (pd_projects s)\<rparr>"

definition ClearSelectedEmbeddingGlobalConfig :: "timestamp \<Rightarrow> UUID \<Rightarrow> pdb \<Rightarrow> pdb" where
  "ClearSelectedEmbeddingGlobalConfig now p s = select_config now p null_UUID s"

text \<open>The trigger refuses a selection of a project's own or of an unshared configuration, the foreign key one of none.\<close>

definition SetSelectedEmbeddingGlobalConfig :: "timestamp \<Rightarrow> UUID \<Rightarrow> UUID \<Rightarrow> pdb \<Rightarrow> db_error + pdb" where
  "SetSelectedEmbeddingGlobalConfig now p i s =
     (if list_ex (\<lambda>r. sql_eq (sel_ProjectID r) p) (pd_projects s) \<and> uuid_Valid i \<and>
         (case List.find (\<lambda>c. sql_eq (epc_ID c) i) (pd_configs s) of
            None \<Rightarrow> True | Some c \<Rightarrow> \<not> is_global c \<or> \<not> epc_IsAvailableToProjects c)
      then Inl Pg_Other else Inr (select_config now p i s))"

definition CountProjectsUsingEmbeddingConfig :: "UUID \<Rightarrow> pdb \<Rightarrow> nat" where
  "CountProjectsUsingEmbeddingConfig i s = length (filter (selects i) (pd_projects s))"

definition GetEmbeddingProviderConfigByID :: "UUID \<Rightarrow> pdb \<Rightarrow> EmbeddingProviderConfig option" where
  "GetEmbeddingProviderConfigByID i s = List.find (\<lambda>c. sql_eq (epc_ID c) i) (pd_configs s)"

definition GetGlobalEmbeddingProviderConfigByID :: "UUID \<Rightarrow> pdb \<Rightarrow> EmbeddingProviderConfig option" where
  "GetGlobalEmbeddingProviderConfigByID i s = List.find (\<lambda>c. sql_eq (epc_ID c) i \<and> is_global c) (pd_configs s)"

definition GetDefaultGlobalEmbeddingProviderConfig :: "pdb \<Rightarrow> EmbeddingProviderConfig option" where
  "GetDefaultGlobalEmbeddingProviderConfig s = List.find (\<lambda>c. is_global c \<and> epc_IsActive c \<and> epc_IsDefault c) (pd_configs s)"

definition newer :: "EmbeddingProviderConfig \<Rightarrow> EmbeddingProviderConfig \<Rightarrow> bool" where
  "newer c d = (epc_CreatedAt d < epc_CreatedAt c \<or>
     epc_CreatedAt d = epc_CreatedAt c \<and> uuid_Bytes (epc_ID d) < uuid_Bytes (epc_ID c))"

fun newest :: "EmbeddingProviderConfig list \<Rightarrow> EmbeddingProviderConfig option" where
  "newest [] = None"
| "newest (c # cs) = (case newest cs of None \<Rightarrow> Some c | Some d \<Rightarrow> if newer d c then Some d else Some c)"

definition GetActiveProjectEmbeddingProviderConfig :: "UUID \<Rightarrow> pdb \<Rightarrow> EmbeddingProviderConfig option" where
  "GetActiveProjectEmbeddingProviderConfig p s = newest (filter (active_of p) (pd_configs s))"

definition ListGlobalEmbeddingProviderConfigs :: "pdb \<Rightarrow> EmbeddingProviderConfig list" where
  "ListGlobalEmbeddingProviderConfigs s =
     sort_key (\<lambda>c. \<not> epc_IsDefault c) (sort_key (\<lambda>c. \<not> epc_IsActive c) (sort_key (\<lambda>c. - epc_CreatedAt c) (filter is_global (pd_configs s))))"

definition ListAvailableGlobalEmbeddingProviderConfigs :: "pdb \<Rightarrow> (EmbeddingProviderConfig \<times> bool) list" where
  "ListAvailableGlobalEmbeddingProviderConfigs s =
     map (\<lambda>c. (c, case epc_CredentialsEncrypted c of None \<Rightarrow> False | Some k \<Rightarrow> 0 < length k)) (sort_key (\<lambda>c. \<not> epc_IsDefault c) (sort_key epc_CreatedAt (sort_key (\<lambda>c. uuid_Bytes (epc_ID c))
       (filter (\<lambda>c. is_global c \<and> epc_IsActive c \<and> epc_IsAvailableToProjects c) (pd_configs s)))))"

definition DeactivateProjectEmbeddingProviderConfigs :: "timestamp \<Rightarrow> UUID \<Rightarrow> pdb \<Rightarrow> pdb" where
  "DeactivateProjectEmbeddingProviderConfigs now p s =
     snd (update_configs (active_of p) (\<lambda>c. c\<lparr>epc_IsActive := False, epc_CredentialsEncrypted := None, epc_UpdatedAt := now\<rparr>) s)"

definition DeactivateDefaultGlobalEmbeddingProviderConfig :: "timestamp \<Rightarrow> pdb \<Rightarrow> pdb" where
  "DeactivateDefaultGlobalEmbeddingProviderConfig now s =
     snd (update_configs (\<lambda>c. is_global c \<and> epc_IsDefault c \<and> epc_IsActive c)
       (\<lambda>c. c\<lparr>epc_IsActive := False, epc_IsDefault := False, epc_UpdatedAt := now\<rparr>) s)"

definition DeactivateGlobalEmbeddingProviderConfigByID :: "timestamp \<Rightarrow> UUID \<Rightarrow> pdb \<Rightarrow> nat \<times> pdb" where
  "DeactivateGlobalEmbeddingProviderConfigByID now i s =
     update_configs (\<lambda>c. sql_eq (epc_ID c) i \<and> is_global c \<and> epc_IsActive c \<and> \<not> epc_IsDefault c)
       (\<lambda>c. c\<lparr>epc_IsActive := False, epc_IsDefault := False, epc_CredentialsEncrypted := None, epc_UpdatedAt := now\<rparr>) s"

definition DemoteGlobalEmbeddingProviderConfigDefault :: "timestamp \<Rightarrow> pdb \<Rightarrow> pdb" where
  "DemoteGlobalEmbeddingProviderConfigDefault now s =
     snd (update_configs global_default (\<lambda>c. c\<lparr>epc_IsDefault := False, epc_UpdatedAt := now\<rparr>) s)"

definition PromoteGlobalEmbeddingProviderConfigToDefault :: "timestamp \<Rightarrow> UUID \<Rightarrow> pdb \<Rightarrow> db_error + nat \<times> pdb" where
  "PromoteGlobalEmbeddingProviderConfigToDefault now i s =
     (let r = update_configs (\<lambda>c. sql_eq (epc_ID c) i \<and> is_global c \<and> epc_IsActive c)
                (\<lambda>c. c\<lparr>epc_IsDefault := True, epc_UpdatedAt := now\<rparr>) s
      in if 1 < length (filter global_default (pd_configs (snd r))) then Inl Pg_Unique else Inr r)"

record UpdateGlobalParams =
  ug_ID :: UUID
  ug_Name :: "string option"
  ug_Provider :: "string option"
  ug_EndpointUrl :: "string option"
  ug_Model :: "string option"
  ug_Dimensions :: "int option"
  ug_MaxTokens :: "int option"
  ug_SettingsJson :: "string option"
  ug_ClearCredentials :: bool
  ug_CredentialsEncrypted :: "string option"
  ug_IsAvailableToProjects :: "bool option"

definition coalesce :: "'a option \<Rightarrow> 'a \<Rightarrow> 'a" where
  "coalesce x y = (case x of None \<Rightarrow> y | Some v \<Rightarrow> v)"

definition patched :: "timestamp \<Rightarrow> UpdateGlobalParams \<Rightarrow> EmbeddingProviderConfig \<Rightarrow> EmbeddingProviderConfig" where
  "patched now a c =
     c\<lparr>epc_Name := coalesce (ug_Name a) (epc_Name c), epc_Provider := coalesce (ug_Provider a) (epc_Provider c),
       epc_EndpointUrl := coalesce (ug_EndpointUrl a) (epc_EndpointUrl c), epc_Model := coalesce (ug_Model a) (epc_Model c),
       epc_Dimensions := coalesce (ug_Dimensions a) (epc_Dimensions c), epc_MaxTokens := coalesce (ug_MaxTokens a) (epc_MaxTokens c),
       epc_SettingsJson := coalesce (ug_SettingsJson a) (epc_SettingsJson c),
       epc_CredentialsEncrypted :=
         (if ug_ClearCredentials a then None
          else if ug_CredentialsEncrypted a \<noteq> None then ug_CredentialsEncrypted a else epc_CredentialsEncrypted c),
       epc_IsAvailableToProjects := coalesce (ug_IsAvailableToProjects a) (epc_IsAvailableToProjects c), epc_UpdatedAt := now\<rparr>"

text \<open>The trigger refuses to withdraw a configuration that a project selects.\<close>

definition UpdateGlobalEmbeddingProviderConfig :: "timestamp \<Rightarrow> UpdateGlobalParams \<Rightarrow> pdb \<Rightarrow> db_error + EmbeddingProviderConfig option \<times> pdb" where
  "UpdateGlobalEmbeddingProviderConfig now a s =
     (let P = (\<lambda>c. sql_eq (epc_ID c) (ug_ID a) \<and> is_global c \<and> epc_IsActive c)
      in case List.find P (pd_configs s) of
           None \<Rightarrow> Inr (None, s)
         | Some c \<Rightarrow>
             (let d = patched now a c
              in if (\<not> epc_IsAvailableToProjects d \<and> list_ex (selects (epc_ID c)) (pd_projects s)) \<or>
                    \<not> (0 < epc_Dimensions d \<and> epc_Dimensions d \<le> 65536 \<and> 1 \<le> epc_MaxTokens d \<and> epc_MaxTokens d \<le> 131072)
                 then Inl Pg_Other
                 else Inr (Some d, snd (update_configs P (patched now a) s))))"

record CreateConfigParams =
  cc_Name :: string
  cc_Provider :: string
  cc_EndpointUrl :: string
  cc_Model :: string
  cc_Dimensions :: int
  cc_MaxTokens :: int
  cc_SettingsJson :: string
  cc_CredentialsEncrypted :: "string option"

definition new_config :: "timestamp \<Rightarrow> UUID \<Rightarrow> CreateConfigParams \<Rightarrow> bool \<Rightarrow> bool \<Rightarrow> UUID \<Rightarrow> EmbeddingProviderConfig" where
  "new_config now fresh a isDefault isAvailable projectID =
     \<lparr>epc_ID = fresh, epc_Name = cc_Name a, epc_Provider = cc_Provider a, epc_EndpointUrl = cc_EndpointUrl a, epc_Model = cc_Model a,
      epc_Dimensions = cc_Dimensions a, epc_MaxTokens = cc_MaxTokens a, epc_SettingsJson = cc_SettingsJson a,
      epc_CredentialsEncrypted = cc_CredentialsEncrypted a, epc_IsActive = True, epc_IsDefault = isDefault,
      epc_IsAvailableToProjects = isAvailable, epc_ProjectID = projectID, epc_CreatedAt = now, epc_UpdatedAt = now\<rparr>"

definition CreateEmbeddingProviderConfig ::
  "timestamp \<Rightarrow> UUID \<Rightarrow> CreateConfigParams \<Rightarrow> UUID \<Rightarrow> pdb \<Rightarrow> db_error + EmbeddingProviderConfig \<times> pdb" where
  "CreateEmbeddingProviderConfig now fresh a projectID s = insert_config (new_config now fresh a False False projectID) s"

definition CreateGlobalEmbeddingProviderConfig ::
  "timestamp \<Rightarrow> UUID \<Rightarrow> CreateConfigParams \<Rightarrow> bool \<Rightarrow> pdb \<Rightarrow> db_error + EmbeddingProviderConfig \<times> pdb" where
  "CreateGlobalEmbeddingProviderConfig now fresh a isAvailable s = insert_config (new_config now fresh a True isAvailable null_UUID) s"

definition CreateGlobalEmbeddingProviderConfigNonDefault ::
  "timestamp \<Rightarrow> UUID \<Rightarrow> CreateConfigParams \<Rightarrow> bool \<Rightarrow> pdb \<Rightarrow> db_error + EmbeddingProviderConfig \<times> pdb" where
  "CreateGlobalEmbeddingProviderConfigNonDefault now fresh a isAvailable s =
     insert_config (new_config now fresh a False isAvailable null_UUID) s"

text \<open>The arbiter of the conflict is the index of the one default.\<close>

definition CreateEmbeddingDefaultProviderConfigIfMissing ::
  "timestamp \<Rightarrow> UUID \<Rightarrow> CreateConfigParams \<Rightarrow> pdb \<Rightarrow> db_error + unit \<times> pdb" where
  "CreateEmbeddingDefaultProviderConfigIfMissing now fresh a s =
     (case insert_config (new_config now fresh a True True null_UUID) s of
        Inr (_, s') \<Rightarrow> Inr ((), s')
      | Inl e \<Rightarrow> if e = Pg_Unique \<and> list_ex global_default (pd_configs s) then Inr ((), s) else Inl e)"

section \<open>Requests\<close>

record CredentialsUpdate =
  cu_Set :: bool
  cu_Clear :: bool
  cu_Data :: json_object

record UpdateRequest =
  ur_Mode :: string
  ur_GlobalConfigID :: string
  ur_Name :: string
  ur_Provider :: string
  ur_EndpointURL :: string
  ur_Model :: string
  ur_Dimensions :: int
  ur_MaxTokens :: int
  ur_Settings :: "json_object option"
  ur_Credentials :: CredentialsUpdate

text \<open>\<open>ur_Settings\<close> is \<open>None\<close> for a nil map. A request for the global default has the fields of an update request, without
  mode and selection, and the flag of its availability.\<close>

record GlobalUpdateRequest =
  gr_Name :: string
  gr_Provider :: string
  gr_EndpointURL :: string
  gr_Model :: string
  gr_Dimensions :: int
  gr_MaxTokens :: int
  gr_Settings :: "json_object option"
  gr_Credentials :: CredentialsUpdate
  gr_IsAvailableToProjects :: "bool option"

record GlobalPatchRequest =
  gp_Name :: "string option"
  gp_Provider :: "string option"
  gp_EndpointURL :: "string option"
  gp_Model :: "string option"
  gp_Dimensions :: "int option"
  gp_MaxTokens :: "int option"
  gp_Settings :: "json_object option"
  gp_Credentials :: CredentialsUpdate
  gp_IsAvailableToProjects :: "bool option"

record go_url =
  go_Scheme :: string
  go_Hostname :: string
  go_User :: bool
  go_RawQuery :: string
  go_Fragment :: string
  go_Port :: string
  go_Host :: string

record senv =
  pv_now :: timestamp
  pv_fts :: "nat \<Rightarrow> faults"
  pv_ft :: faults
  pv_fresh :: UUID
  pv_fresh_version :: UUID
  pv_scan :: "string \<Rightarrow> UUID option"
  pv_url :: "string \<Rightarrow> go_url option"
  pv_lower :: "string \<Rightarrow> string"
  pv_marshal :: "json_object \<Rightarrow> string option"
  pv_unmarshal :: "string \<Rightarrow> json_object option"
  pv_encrypt :: "string \<Rightarrow> string option"
  pv_random :: "string option"
  pv_quote :: "string \<Rightarrow> string"

text \<open>A call and what follows it: the error of the call ends the operation.\<close>

definition andThen :: "'e + 'a \<Rightarrow> ('a \<Rightarrow> 'e + 'b) \<Rightarrow> 'e + 'b" where
  "andThen r k = (case r of Inl e \<Rightarrow> Inl e | Inr a \<Rightarrow> k a)"

lemma andThen_Inr: "andThen r k = Inr b \<longleftrightarrow> (\<exists>a. r = Inr a \<and> k a = Inr b)"
  by (cases r) (simp_all add: andThen_def)

lemma andThen_simps [simp]: "andThen (Inr a) k = k a" "andThen (Inl e) k = Inl e"
  by (simp_all add: andThen_def)

definition bad :: "string \<Rightarrow> db_error + 'a" where
  "bad msg = Inl (App (BadRequest msg))"

definition missing :: "string \<Rightarrow> db_error + 'a" where
  "missing msg = Inl (App (NotFound msg))"

subsection \<open>Providers and endpoints\<close>

definition CapabilityEmbedding :: string where "CapabilityEmbedding = ''embedding''"
definition CapabilityLLM :: string where "CapabilityLLM = ''llm''"

definition supportedProviders :: "(string \<times> string list) list" where
  "supportedProviders = [(''ollama'', [CapabilityEmbedding, CapabilityLLM])]"

definition SupportedProviderIDs :: "string \<Rightarrow> string list" where
  "SupportedProviderIDs capability = sort (map fst (filter (\<lambda>(_, caps). capability \<in> set caps) supportedProviders))"

definition NormalizeProviderID :: "(string \<Rightarrow> string) \<Rightarrow> string \<Rightarrow> string" where
  "NormalizeProviderID lower provider = lower (TrimSpace provider)"

text \<open>\<open>None\<close>: supported; else the message.\<close>

definition ValidateProvider :: "senv \<Rightarrow> string \<Rightarrow> string \<Rightarrow> string option" where
  "ValidateProvider v capability provider =
     (let provider = NormalizeProviderID (pv_lower v) provider; ids = SupportedProviderIDs capability
      in if provider \<in> set ids then None
         else Some (''unsupported '' @ capability @ '' provider '' @ pv_quote v provider @ ''; supported: '' @ Join ids '', ''))"

definition port_ok :: "string \<Rightarrow> bool" where
  "port_ok s = (s \<noteq> [] \<and>
     (let d = (if hd s = CHR ''-'' \<or> hd s = CHR ''+'' then tl s else s); n = foldl (\<lambda>n c. 10 * n + (of_char c - 48)) 0 d
      in d \<noteq> [] \<and> list_all (\<lambda>c. 48 \<le> (of_char c :: nat) \<and> (of_char c :: nat) \<le> 57) d \<and> hd s \<noteq> CHR ''-'' \<and> 1 \<le> n \<and> n \<le> (65535 :: nat)))"

definition ValidateEndpointURL :: "senv \<Rightarrow> string \<Rightarrow> string + string" where
  "ValidateEndpointURL v endpointURL =
     (let endpointURL = TrimSpace endpointURL
      in if endpointURL = [] then Inl ''endpoint_url is required''
         else case pv_url v endpointURL of
           None \<Rightarrow> Inl ''endpoint_url must be a valid URL''
         | Some u \<Rightarrow>
             if go_Scheme u = [] then Inl ''endpoint_url must be a valid URL''
             else if go_Hostname u = [] then Inl ''endpoint_url must include a host''
             else if go_Scheme u \<noteq> ''http'' \<and> go_Scheme u \<noteq> ''https'' then Inl ''endpoint_url must use http or https scheme''
             else if go_User u then Inl ''endpoint_url must not contain user credentials''
             else if go_RawQuery u \<noteq> [] \<or> go_Fragment u \<noteq> [] then Inl ''endpoint_url must not contain query or fragment''
             else if go_Port u \<noteq> [] \<and> \<not> port_ok (go_Port u) then Inl ''endpoint_url must include a valid port (1-65535)''
             else if go_Port u = [] \<and> HasSuffix (go_Host u) '':'' then Inl ''endpoint_url must include a valid port (1-65535)''
             else Inr endpointURL)"

subsection \<open>Shared steps\<close>

definition MarshalJSONObject :: "senv \<Rightarrow> json_object option \<Rightarrow> string option" where
  "MarshalJSONObject v m = (case m of None \<Rightarrow> Some ''{}'' | Some ob \<Rightarrow> pv_marshal v ob)"

definition ResolveCredentials :: "senv \<Rightarrow> CredentialsUpdate \<Rightarrow> string option \<Rightarrow> bool \<Rightarrow> db_error + string option" where
  "ResolveCredentials v u currentEncrypted hasCurrent =
     (if \<not> cu_Set u then Inr (if hasCurrent then currentEncrypted else None)
      else if cu_Clear u then Inr None
      else if cu_Data u = [] then Inr None
      else case MarshalJSONObject v (Some (cu_Data u)) of
        None \<Rightarrow> bad ''credentials must be a valid JSON object''
      | Some payload \<Rightarrow> (case pv_encrypt v payload of None \<Rightarrow> Inl Pg_Other | Some c \<Rightarrow> Inr (Some c)))"

text \<open>The fields the function normalises in place are in the request it returns.\<close>

definition ValidateBaseFields :: "senv \<Rightarrow> string \<Rightarrow> UpdateRequest \<Rightarrow> db_error + UpdateRequest" where
  "ValidateBaseFields v capability req =
     (let nm = TrimSpace (ur_Name req); provider = NormalizeProviderID (pv_lower v) (ur_Provider req); endpoint = TrimSpace (ur_EndpointURL req)
      in if nm = [] then bad ''name is required''
         else case ValidateProvider v capability provider of
           Some msg \<Rightarrow> bad msg
         | None \<Rightarrow>
             if endpoint = [] then bad ''endpoint_url is required''
             else case ValidateEndpointURL v endpoint of
               Inl msg \<Rightarrow> bad msg
             | Inr url \<Rightarrow>
                 Inr (req\<lparr>ur_Name := nm, ur_Provider := provider, ur_EndpointURL := url,
                          ur_Settings := Some (case ur_Settings req of None \<Rightarrow> [] | Some m \<Rightarrow> m)\<rparr>))"

definition validateCustomUpdateRequest :: "senv \<Rightarrow> UpdateRequest \<Rightarrow> db_error + UpdateRequest" where
  "validateCustomUpdateRequest v req =
     andThen (ValidateBaseFields v CapabilityEmbedding req) (\<lambda>req.
       let req = req\<lparr>ur_Model := TrimSpace (ur_Model req)\<rparr>
       in if ur_Model req = [] then bad ''model is required''
          else if ur_Dimensions req < 1 \<or> 65536 < ur_Dimensions req then bad ''dimensions must be between 1 and 65536''
          else if ur_MaxTokens req < 1 \<or> 131072 < ur_MaxTokens req then bad ''max_tokens must be between 1 and 131072''
          else Inr req)"

definition embedding_versionLabel :: "senv \<Rightarrow> string \<Rightarrow> string \<Rightarrow> db_error + string" where
  "embedding_versionLabel v provider model =
     (case pv_random v of None \<Rightarrow> Inl Pg_Other | Some b \<Rightarrow> Inr (provider @ ''-'' @ model @ ''-'' @ EncodeToString b))"

record DomainEmbeddingConfig =
  dec_ID :: string
  dec_Name :: string
  dec_Provider :: string
  dec_EndpointURL :: string
  dec_Model :: string
  dec_Dimensions :: int
  dec_MaxTokens :: int
  dec_Settings :: json_object
  dec_HasCredentials :: bool
  dec_IsActive :: bool
  dec_IsDefault :: bool
  dec_IsAvailableToProjects :: bool
  dec_ProjectID :: string
  dec_CreatedAt :: timestamp
  dec_UpdatedAt :: timestamp

definition jsonBytesToMap :: "senv \<Rightarrow> string \<Rightarrow> json_object option" where
  "jsonBytesToMap v b = (if b = [] then Some [] else pv_unmarshal v b)"

definition has_credentials :: "string option \<Rightarrow> bool" where
  "has_credentials c = (case c of None \<Rightarrow> False | Some x \<Rightarrow> x \<noteq> [])"

definition DBEmbeddingProviderConfigToDomain :: "senv \<Rightarrow> EmbeddingProviderConfig \<Rightarrow> db_error + DomainEmbeddingConfig" where
  "DBEmbeddingProviderConfigToDomain v c =
     (case jsonBytesToMap v (epc_SettingsJson c) of
        None \<Rightarrow> Inl Pg_Other
      | Some settings \<Rightarrow>
          Inr \<lparr>dec_ID = uuid_or_empty (epc_ID c), dec_Name = epc_Name c, dec_Provider = epc_Provider c, dec_EndpointURL = epc_EndpointUrl c,
               dec_Model = epc_Model c, dec_Dimensions = epc_Dimensions c, dec_MaxTokens = epc_MaxTokens c, dec_Settings = settings,
               dec_HasCredentials = has_credentials (epc_CredentialsEncrypted c), dec_IsActive = epc_IsActive c, dec_IsDefault = epc_IsDefault c,
               dec_IsAvailableToProjects = epc_IsAvailableToProjects c, dec_ProjectID = uuid_or_empty (epc_ProjectID c),
               dec_CreatedAt = epc_CreatedAt c, dec_UpdatedAt = epc_UpdatedAt c\<rparr>)"

text \<open>The row of the list of available configurations has, in place of the ciphertext, the flag the query computes.\<close>

definition DBAvailableEmbeddingProviderConfigToDomain :: "senv \<Rightarrow> EmbeddingProviderConfig \<times> bool \<Rightarrow> db_error + DomainEmbeddingConfig" where
  "DBAvailableEmbeddingProviderConfigToDomain v = (\<lambda>(c, HasCredentials).
     (case jsonBytesToMap v (epc_SettingsJson c) of
        None \<Rightarrow> Inl Pg_Other
      | Some settings \<Rightarrow>
          Inr \<lparr>dec_ID = uuid_or_empty (epc_ID c), dec_Name = epc_Name c, dec_Provider = epc_Provider c, dec_EndpointURL = epc_EndpointUrl c,
               dec_Model = epc_Model c, dec_Dimensions = epc_Dimensions c, dec_MaxTokens = epc_MaxTokens c, dec_Settings = settings,
               dec_HasCredentials = HasCredentials, dec_IsActive = epc_IsActive c, dec_IsDefault = epc_IsDefault c,
               dec_IsAvailableToProjects = epc_IsAvailableToProjects c, dec_ProjectID = uuid_or_empty (epc_ProjectID c),
               dec_CreatedAt = epc_CreatedAt c, dec_UpdatedAt = epc_UpdatedAt c\<rparr>))"

section \<open>The service\<close>

record ProjectProviderSetting =
  pps_Mode :: string
  pps_GlobalConfigID :: string
  pps_Config :: DomainEmbeddingConfig

record resolvedState =
  rst_Mode :: string
  rst_Source :: string
  rst_GlobalConfigID :: string
  rst_Config :: DomainEmbeddingConfig

text \<open>A query inside a transaction, by its name, with the changed state.\<close>

definition existing :: "UUID \<Rightarrow> faults \<Rightarrow> pdb \<Rightarrow> db_error + unit" where
  "existing p ft s =
     andThen (query ft ''LockProjectRow'' (Inr (LockProject p s))) (\<lambda>r. case r of None \<Rightarrow> missing ''project not found'' | Some _ \<Rightarrow> Inr ())"

definition create_version ::
  "senv \<Rightarrow> faults \<Rightarrow> EmbeddingProviderConfig \<Rightarrow> string \<Rightarrow> string \<Rightarrow> int \<Rightarrow> pdb \<Rightarrow> db_error + pdb" where
  "create_version v ft row provider model dims s =
     andThen (embedding_versionLabel v provider model) (\<lambda>lbl.
     andThen (query ft ''CreateEmbeddingVersion''
        (CreateEmbeddingVersion (pv_fresh_version v) (pv_now v)
           \<lparr>ec_ID = epc_ID row, ec_Provider = provider, ec_EndpointURL = epc_EndpointUrl row, ec_Model = model, ec_Dimensions = dims,
            ec_MaxTokens = epc_MaxTokens row\<rparr> lbl (pd_versions s))) (\<lambda>r.
     Inr (s\<lparr>pd_versions := snd r\<rparr>)))"

definition create_params :: "UpdateRequest \<Rightarrow> string \<Rightarrow> string option \<Rightarrow> CreateConfigParams" where
  "create_params req settingsJSON creds =
     \<lparr>cc_Name = ur_Name req, cc_Provider = ur_Provider req, cc_EndpointUrl = ur_EndpointURL req, cc_Model = ur_Model req,
      cc_Dimensions = i32 (ur_Dimensions req), cc_MaxTokens = i32 (ur_MaxTokens req), cc_SettingsJson = settingsJSON,
      cc_CredentialsEncrypted = creds\<rparr>"

definition marshal_settings :: "senv \<Rightarrow> json_object option \<Rightarrow> db_error + string" where
  "marshal_settings v m = (case MarshalJSONObject v m of None \<Rightarrow> bad ''settings must be a valid JSON object'' | Some j \<Rightarrow> Inr j)"

subsection \<open>Reading\<close>

definition default_state :: "senv \<Rightarrow> pdb \<Rightarrow> db_error + resolvedState" where
  "default_state v s =
     andThen (query (pv_ft v) ''GetDefaultGlobalEmbeddingProviderConfig'' (Inr (GetDefaultGlobalEmbeddingProviderConfig s))) (\<lambda>r.
       case r of
         None \<Rightarrow> missing ''no embedding configuration found for this project''
       | Some row \<Rightarrow>
           andThen (DBEmbeddingProviderConfigToDomain v row) (\<lambda>cfg.
           Inr \<lparr>rst_Mode = ''default'', rst_Source = ''default'', rst_GlobalConfigID = [], rst_Config = cfg\<rparr>))"

definition resolveState :: "senv \<Rightarrow> UUID \<Rightarrow> pdb \<Rightarrow> db_error + resolvedState" where
  "resolveState v p s =
     andThen (query (pv_ft v) ''GetActiveProjectEmbeddingProviderConfig'' (Inr (GetActiveProjectEmbeddingProviderConfig p s))) (\<lambda>custom.
       case custom of
         Some row \<Rightarrow>
           andThen (DBEmbeddingProviderConfigToDomain v row) (\<lambda>cfg.
           Inr \<lparr>rst_Mode = ''custom'', rst_Source = ''custom'', rst_GlobalConfigID = [], rst_Config = cfg\<rparr>)
       | None \<Rightarrow>
           andThen (query (pv_ft v) ''GetProjectProviderSelections'' (Inr (GetProjectProviderSelections p s))) (\<lambda>selections.
             case selections of
               None \<Rightarrow> missing ''project not found''
             | Some sel \<Rightarrow>
                 let g = sel_SelectedEmbeddingGlobalConfigID sel
                 in if \<not> uuid_Valid g then default_state v s
                    else andThen (query (pv_ft v) ''GetEmbeddingProviderConfigByID'' (Inr (GetEmbeddingProviderConfigByID g s))) (\<lambda>r.
                      case r of
                        None \<Rightarrow> default_state v s
                      | Some row \<Rightarrow>
                          if is_global row \<and> epc_IsActive row
                          then andThen (DBEmbeddingProviderConfigToDomain v row) (\<lambda>cfg.
                                 Inr \<lparr>rst_Mode = ''global'', rst_Source = ''global'', rst_GlobalConfigID = PgUUIDToString g, rst_Config = cfg\<rparr>)
                          else default_state v s)))"

definition GetProjectSetting :: "senv \<Rightarrow> string \<Rightarrow> pdb \<Rightarrow> db_error + ProjectProviderSetting" where
  "GetProjectSetting v projectID s =
     (case pv_scan v projectID of
        None \<Rightarrow> bad ''invalid project ID''
      | Some p \<Rightarrow> andThen (resolveState v p s) (\<lambda>st.
          Inr \<lparr>pps_Mode = rst_Mode st, pps_GlobalConfigID = rst_GlobalConfigID st, pps_Config = rst_Config st\<rparr>))"

definition GetResolvedConfig :: "senv \<Rightarrow> string \<Rightarrow> pdb \<Rightarrow> db_error + string \<times> DomainEmbeddingConfig" where
  "GetResolvedConfig v projectID s =
     (case pv_scan v projectID of
        None \<Rightarrow> bad ''invalid project ID''
      | Some p \<Rightarrow> andThen (resolveState v p s) (\<lambda>st. Inr (rst_Source st, rst_Config st)))"

fun all_decoded :: "('a \<Rightarrow> db_error + 'b) \<Rightarrow> 'a list \<Rightarrow> db_error + 'b list" where
  "all_decoded f [] = Inr []"
| "all_decoded f (r # rs) = andThen (f r) (\<lambda>x. andThen (all_decoded f rs) (\<lambda>xs. Inr (x # xs)))"

definition ListGlobalConfigs :: "senv \<Rightarrow> pdb \<Rightarrow> db_error + DomainEmbeddingConfig list" where
  "ListGlobalConfigs v s =
     andThen (query (pv_ft v) ''ListGlobalEmbeddingProviderConfigs'' (Inr (ListGlobalEmbeddingProviderConfigs s)))
       (all_decoded (DBEmbeddingProviderConfigToDomain v))"

definition ListAvailableGlobalConfigs :: "senv \<Rightarrow> pdb \<Rightarrow> db_error + DomainEmbeddingConfig list" where
  "ListAvailableGlobalConfigs v s =
     andThen (query (pv_ft v) ''ListAvailableGlobalEmbeddingProviderConfigs'' (Inr (ListAvailableGlobalEmbeddingProviderConfigs s)))
       (all_decoded (DBAvailableEmbeddingProviderConfigToDomain v))"

definition GetGlobalDefaultConfig :: "senv \<Rightarrow> pdb \<Rightarrow> db_error + DomainEmbeddingConfig option" where
  "GetGlobalDefaultConfig v s =
     andThen (query (pv_ft v) ''GetDefaultGlobalEmbeddingProviderConfig'' (Inr (GetDefaultGlobalEmbeddingProviderConfig s))) (\<lambda>r.
       case r of None \<Rightarrow> Inr None | Some row \<Rightarrow> andThen (DBEmbeddingProviderConfigToDomain v row) (\<lambda>cfg. Inr (Some cfg)))"

subsection \<open>Project settings\<close>

definition select_body :: "senv \<Rightarrow> UUID \<Rightarrow> UUID \<Rightarrow> faults \<Rightarrow> pdb \<Rightarrow> db_error + ProjectProviderSetting \<times> pdb" where
  "select_body v p g ft s =
     andThen (existing p ft s) (\<lambda>_.
     andThen (query ft ''GetEmbeddingProviderConfigByID'' (Inr (GetEmbeddingProviderConfigByID g s))) (\<lambda>r.
       case r of
         None \<Rightarrow> missing ''embedding global config not found''
       | Some row \<Rightarrow>
           if \<not> is_global row then bad ''global_config_id must reference a platform-managed config''
           else if \<not> epc_IsActive row then bad ''selected embedding global config is not active''
           else if \<not> epc_IsAvailableToProjects row then bad ''selected embedding global config is not available to projects''
           else
             andThen (query ft ''DeactivateProjectEmbeddingProviderConfigs'' (Inr (DeactivateProjectEmbeddingProviderConfigs (pv_now v) p s))) (\<lambda>s.
             andThen (query ft ''SetSelectedEmbeddingGlobalConfig'' (SetSelectedEmbeddingGlobalConfig (pv_now v) p g s)) (\<lambda>s.
             andThen (DBEmbeddingProviderConfigToDomain v row) (\<lambda>cfg.
             Inr (\<lparr>pps_Mode = ''global'', pps_GlobalConfigID = PgUUIDToString g, pps_Config = cfg\<rparr>, s))))))"

definition selectGlobalConfig :: "senv \<Rightarrow> UUID \<Rightarrow> string \<Rightarrow> pdb \<Rightarrow> (db_error + ProjectProviderSetting) \<times> pdb" where
  "selectGlobalConfig v p globalConfigID s =
     (case pv_scan v globalConfigID of
        None \<Rightarrow> (bad ''invalid global_config_id'', s)
      | Some g \<Rightarrow> WithTx (select_body v p g) (pv_fts v) s)"

definition custom_body :: "senv \<Rightarrow> UUID \<Rightarrow> UpdateRequest \<Rightarrow> faults \<Rightarrow> pdb \<Rightarrow> db_error + DomainEmbeddingConfig \<times> pdb" where
  "custom_body v p req ft s =
     andThen (existing p ft s) (\<lambda>_.
     andThen (query ft ''GetActiveProjectEmbeddingProviderConfig'' (Inr (GetActiveProjectEmbeddingProviderConfig p s))) (\<lambda>current.
     andThen (marshal_settings v (ur_Settings req)) (\<lambda>settingsJSON.
       if (case current of None \<Rightarrow> False | Some c \<Rightarrow> has_credentials (epc_CredentialsEncrypted c) \<and> \<not> cu_Set (ur_Credentials req) \<and>
             (ur_Provider req \<noteq> NormalizeProviderID (pv_lower v) (epc_Provider c) \<or> ur_EndpointURL req \<noteq> TrimSpace (epc_EndpointUrl c)))
       then bad ''credentials must be re-entered when provider or endpoint_url changes''
       else
         andThen (ResolveCredentials v (ur_Credentials req) (case current of None \<Rightarrow> None | Some c \<Rightarrow> epc_CredentialsEncrypted c) (current \<noteq> None)) (\<lambda>creds.
         andThen (query ft ''ClearSelectedEmbeddingGlobalConfig'' (Inr (ClearSelectedEmbeddingGlobalConfig (pv_now v) p s))) (\<lambda>s.
         andThen (query ft ''DeactivateProjectEmbeddingProviderConfigs'' (Inr (DeactivateProjectEmbeddingProviderConfigs (pv_now v) p s))) (\<lambda>s.
         case query ft ''CreateEmbeddingProviderConfig''
                (CreateEmbeddingProviderConfig (pv_now v) (pv_fresh v) (create_params req settingsJSON creds) p s) of
           Inl e \<Rightarrow> Inl (if IsUniqueViolation e then App (Conflict ''an active embedding configuration already exists; retry the request'') else e)
         | Inr (row, s) \<Rightarrow>
             andThen (create_version v ft row (ur_Provider req) (ur_Model req) (i32 (ur_Dimensions req)) s) (\<lambda>s.
             andThen (DBEmbeddingProviderConfigToDomain v row) (\<lambda>cfg. Inr (cfg, s)))))))))"

definition upsertCustomConfig :: "senv \<Rightarrow> UUID \<Rightarrow> UpdateRequest \<Rightarrow> pdb \<Rightarrow> (db_error + DomainEmbeddingConfig) \<times> pdb" where
  "upsertCustomConfig v p req s =
     (case validateCustomUpdateRequest v req of
        Inl e \<Rightarrow> (Inl e, s)
      | Inr req \<Rightarrow> WithTx (custom_body v p req) (pv_fts v) s)"

definition UpdateProjectSetting :: "senv \<Rightarrow> string \<Rightarrow> UpdateRequest \<Rightarrow> pdb \<Rightarrow> (db_error + ProjectProviderSetting) \<times> pdb" where
  "UpdateProjectSetting v projectID req s =
     (case pv_scan v projectID of
        None \<Rightarrow> (bad ''invalid project ID'', s)
      | Some p \<Rightarrow>
          let req = req\<lparr>ur_Mode := pv_lower v (TrimSpace (ur_Mode req))\<rparr>
          in if ur_Mode req = ''global'' then selectGlobalConfig v p (ur_GlobalConfigID req) s
             else if ur_Mode req = ''custom'' then
               (case upsertCustomConfig v p req s of
                  (Inl e, s') \<Rightarrow> (Inl e, s')
                | (Inr cfg, s') \<Rightarrow> (Inr \<lparr>pps_Mode = ''custom'', pps_GlobalConfigID = [], pps_Config = cfg\<rparr>, s'))
             else (bad ''mode must be one of: global, custom'', s))"

definition reset_body :: "senv \<Rightarrow> UUID \<Rightarrow> faults \<Rightarrow> pdb \<Rightarrow> db_error + unit \<times> pdb" where
  "reset_body v p ft s =
     andThen (existing p ft s) (\<lambda>_.
     andThen (query ft ''GetProjectProviderSelections'' (Inr (GetProjectProviderSelections p s))) (\<lambda>r.
       case r of
         None \<Rightarrow> missing ''project not found''
       | Some _ \<Rightarrow>
           andThen (query ft ''ClearSelectedEmbeddingGlobalConfig'' (Inr (ClearSelectedEmbeddingGlobalConfig (pv_now v) p s))) (\<lambda>s.
           andThen (query ft ''DeactivateProjectEmbeddingProviderConfigs'' (Inr (DeactivateProjectEmbeddingProviderConfigs (pv_now v) p s))) (\<lambda>s.
           Inr ((), s)))))"

definition ResetProjectSetting :: "senv \<Rightarrow> string \<Rightarrow> pdb \<Rightarrow> (db_error + unit) \<times> pdb" where
  "ResetProjectSetting v projectID s =
     (case pv_scan v projectID of
        None \<Rightarrow> (bad ''invalid project ID'', s)
      | Some p \<Rightarrow> WithTx (reset_body v p) (pv_fts v) s)"

subsection \<open>Global configurations\<close>

definition no_credentials_update :: CredentialsUpdate where
  "no_credentials_update = \<lparr>cu_Set = False, cu_Clear = False, cu_Data = []\<rparr>"

definition update_req :: "GlobalUpdateRequest \<Rightarrow> UpdateRequest" where
  "update_req req =
     \<lparr>ur_Mode = [], ur_GlobalConfigID = [], ur_Name = gr_Name req, ur_Provider = gr_Provider req, ur_EndpointURL = gr_EndpointURL req,
      ur_Model = gr_Model req, ur_Dimensions = gr_Dimensions req, ur_MaxTokens = gr_MaxTokens req, ur_Settings = gr_Settings req,
      ur_Credentials = no_credentials_update\<rparr>"

definition BootstrapDefaultConfig :: "senv \<Rightarrow> UpdateRequest \<Rightarrow> pdb \<Rightarrow> (db_error + unit) \<times> pdb" where
  "BootstrapDefaultConfig v defaults s =
     (case validateCustomUpdateRequest v (defaults\<lparr>ur_Settings := Some []\<rparr>) of
        Inl e \<Rightarrow> (Inl e, s)
      | Inr req \<Rightarrow>
          (case exec_query (pv_ft v) ''CreateEmbeddingDefaultProviderConfigIfMissing''
                  (CreateEmbeddingDefaultProviderConfigIfMissing (pv_now v) (pv_fresh v) (create_params req ''{}'' None) s) s of
             (Inl e, s') \<Rightarrow> (if IsUniqueViolation e then Inr () else Inl e, s')
           | (Inr _, s') \<Rightarrow> (Inr (), s')))"

text \<open>Inserting a global configuration with its version; \<open>insert\<close> is the query, by its name.\<close>

definition replace_default_body ::
  "senv \<Rightarrow> UpdateRequest \<Rightarrow> string \<Rightarrow> string option \<Rightarrow> bool \<Rightarrow> faults \<Rightarrow> pdb \<Rightarrow> db_error + DomainEmbeddingConfig \<times> pdb" where
  "replace_default_body v req settingsJSON creds isAvailable ft s =
     andThen (query ft ''DeactivateDefaultGlobalEmbeddingProviderConfig'' (Inr (DeactivateDefaultGlobalEmbeddingProviderConfig (pv_now v) s))) (\<lambda>s.
     andThen (query ft ''CreateGlobalEmbeddingProviderConfig''
        (CreateGlobalEmbeddingProviderConfig (pv_now v) (pv_fresh v) (create_params req settingsJSON creds) isAvailable s)) (\<lambda>(row, s).
     andThen (create_version v ft row (ur_Provider req) (ur_Model req) (i32 (ur_Dimensions req)) s) (\<lambda>s.
     andThen (DBEmbeddingProviderConfigToDomain v row) (\<lambda>cfg. Inr (cfg, s)))))"

definition UpdateGlobalConfig :: "senv \<Rightarrow> GlobalUpdateRequest \<Rightarrow> pdb \<Rightarrow> (db_error + DomainEmbeddingConfig) \<times> pdb" where
  "UpdateGlobalConfig v req s =
     (case andThen (validateCustomUpdateRequest v (update_req req)) (\<lambda>u.
           andThen (marshal_settings v (gr_Settings req)) (\<lambda>settingsJSON.
           andThen (query (pv_ft v) ''GetDefaultGlobalEmbeddingProviderConfig'' (Inr (GetDefaultGlobalEmbeddingProviderConfig s))) (\<lambda>current.
             if (case current of None \<Rightarrow> False | Some c \<Rightarrow> has_credentials (epc_CredentialsEncrypted c) \<and> \<not> cu_Set (gr_Credentials req) \<and>
                   (ur_Provider u \<noteq> epc_Provider c \<or> ur_EndpointURL u \<noteq> epc_EndpointUrl c))
             then bad ''credentials must be re-entered when provider or endpoint_url changes''
             else andThen (ResolveCredentials v (gr_Credentials req) (case current of None \<Rightarrow> None | Some c \<Rightarrow> epc_CredentialsEncrypted c) (current \<noteq> None)) (\<lambda>creds.
                  Inr (u, settingsJSON, creds))))) of
        Inl e \<Rightarrow> (Inl e, s)
      | Inr (u, settingsJSON, creds) \<Rightarrow>
          WithTx (replace_default_body v u settingsJSON creds (coalesce (gr_IsAvailableToProjects req) True)) (pv_fts v) s)"

definition additional_body ::
  "senv \<Rightarrow> UpdateRequest \<Rightarrow> string \<Rightarrow> string option \<Rightarrow> bool \<Rightarrow> faults \<Rightarrow> pdb \<Rightarrow> db_error + DomainEmbeddingConfig \<times> pdb" where
  "additional_body v req settingsJSON creds isAvailable ft s =
     andThen (query ft ''CreateGlobalEmbeddingProviderConfigNonDefault''
        (CreateGlobalEmbeddingProviderConfigNonDefault (pv_now v) (pv_fresh v) (create_params req settingsJSON creds) isAvailable s)) (\<lambda>(row, s).
     andThen (create_version v ft row (ur_Provider req) (ur_Model req) (i32 (ur_Dimensions req)) s) (\<lambda>s.
     andThen (DBEmbeddingProviderConfigToDomain v row) (\<lambda>cfg. Inr (cfg, s))))"

definition CreateAdditionalGlobalConfig :: "senv \<Rightarrow> GlobalUpdateRequest \<Rightarrow> pdb \<Rightarrow> (db_error + DomainEmbeddingConfig) \<times> pdb" where
  "CreateAdditionalGlobalConfig v req s =
     (case andThen (validateCustomUpdateRequest v (update_req req)) (\<lambda>u.
           andThen (marshal_settings v (gr_Settings req)) (\<lambda>settingsJSON.
           andThen (ResolveCredentials v (gr_Credentials req) None False) (\<lambda>creds. Inr (u, settingsJSON, creds)))) of
        Inl e \<Rightarrow> (Inl e, s)
      | Inr (u, settingsJSON, creds) \<Rightarrow>
          WithTx (additional_body v u settingsJSON creds (coalesce (gr_IsAvailableToProjects req) True)) (pv_fts v) s)"

text \<open>A given text field is trimmed and may not be blank.\<close>

definition patch_text :: "string option \<Rightarrow> string \<Rightarrow> (string \<Rightarrow> string) \<Rightarrow> db_error + string option" where
  "patch_text x msg f =
     (case x of None \<Rightarrow> Inr None | Some t \<Rightarrow> if f t = [] then bad (msg @ '' must not be empty'') else Inr (Some (f t)))"

definition patch_range :: "int option \<Rightarrow> int \<Rightarrow> string \<Rightarrow> db_error + int option" where
  "patch_range x hi msg =
     (case x of None \<Rightarrow> Inr None | Some n \<Rightarrow> if n < 1 \<or> hi < n then bad msg else Inr (Some (i32 n)))"

text \<open>The part before the transaction: the configuration as it is read, and the parameters of the update.\<close>

definition patch_params :: "senv \<Rightarrow> string \<Rightarrow> GlobalPatchRequest \<Rightarrow> pdb \<Rightarrow> db_error + EmbeddingProviderConfig \<times> UpdateGlobalParams" where
  "patch_params v configID req s =
     (case pv_scan v configID of
        None \<Rightarrow> bad ''invalid config ID''
      | Some i \<Rightarrow>
          andThen (query (pv_ft v) ''GetGlobalEmbeddingProviderConfigByID'' (Inr (GetGlobalEmbeddingProviderConfigByID i s))) (\<lambda>r.
            case r of
              None \<Rightarrow> missing ''provider config not found''
            | Some current \<Rightarrow>
                if \<not> epc_IsActive current then missing ''provider config not found''
                else
                  let effectiveProvider = (case gp_Provider req of None \<Rightarrow> epc_Provider current | Some x \<Rightarrow> NormalizeProviderID (pv_lower v) x);
                      effectiveEndpoint = (case gp_EndpointURL req of None \<Rightarrow> epc_EndpointUrl current | Some x \<Rightarrow> TrimSpace x);
                      cu = gp_Credentials req
                  in if has_credentials (epc_CredentialsEncrypted current) \<and> \<not> cu_Set cu \<and>
                        (effectiveProvider \<noteq> epc_Provider current \<or> effectiveEndpoint \<noteq> epc_EndpointUrl current)
                     then bad ''credentials must be re-entered when provider or endpoint_url changes''
                     else
                       andThen (ResolveCredentials v cu (epc_CredentialsEncrypted current) True) (\<lambda>creds.
                       andThen (patch_text (gp_Name req) ''name'' TrimSpace) (\<lambda>nm.
                       andThen (patch_text (gp_Provider req) ''provider'' (NormalizeProviderID (pv_lower v))) (\<lambda>provider.
                       andThen (case provider of None \<Rightarrow> Inr ()
                                | Some x \<Rightarrow> (case ValidateProvider v CapabilityEmbedding x of None \<Rightarrow> Inr () | Some _ \<Rightarrow> Inl Pg_Other)) (\<lambda>_.
                       andThen (patch_text (gp_EndpointURL req) ''endpoint_url'' TrimSpace) (\<lambda>endpoint.
                       andThen (patch_text (gp_Model req) ''model'' TrimSpace) (\<lambda>model.
                       andThen (patch_range (gp_Dimensions req) 65536 ''dimensions must be between 1 and 65536'') (\<lambda>dims.
                       andThen (patch_range (gp_MaxTokens req) 131072 ''max_tokens must be between 1 and 131072'') (\<lambda>toks.
                       andThen (case gp_Settings req of None \<Rightarrow> Inr None | Some m \<Rightarrow> andThen (marshal_settings v (Some m)) (\<lambda>j. Inr (Some j))) (\<lambda>settings.
                       let clear = (cu_Set cu \<and> cu_Clear cu)
                       in Inr (current,
                            \<lparr>ug_ID = i, ug_Name = nm, ug_Provider = provider, ug_EndpointUrl = endpoint, ug_Model = model, ug_Dimensions = dims,
                             ug_MaxTokens = toks, ug_SettingsJson = settings, ug_ClearCredentials = clear,
                             ug_CredentialsEncrypted = (if clear then None else creds), ug_IsAvailableToProjects = gp_IsAvailableToProjects req\<rparr>))))))))))))"

definition patch_body ::
  "senv \<Rightarrow> EmbeddingProviderConfig \<Rightarrow> UpdateGlobalParams \<Rightarrow> faults \<Rightarrow> pdb \<Rightarrow> db_error + DomainEmbeddingConfig \<times> pdb" where
  "patch_body v current a ft s =
     andThen (query ft ''UpdateGlobalEmbeddingProviderConfig'' (UpdateGlobalEmbeddingProviderConfig (pv_now v) a s)) (\<lambda>(r, s).
       case r of
         None \<Rightarrow> missing ''provider config not found''
       | Some row \<Rightarrow>
           andThen (if epc_Provider row \<noteq> epc_Provider current \<or> epc_Model row \<noteq> epc_Model current \<or> epc_Dimensions row \<noteq> epc_Dimensions current
                    then create_version v ft row (epc_Provider row) (epc_Model row) (epc_Dimensions row) s else Inr s) (\<lambda>s.
           andThen (DBEmbeddingProviderConfigToDomain v row) (\<lambda>cfg. Inr (cfg, s))))"

definition UpdateGlobalConfigByID :: "senv \<Rightarrow> string \<Rightarrow> GlobalPatchRequest \<Rightarrow> pdb \<Rightarrow> (db_error + DomainEmbeddingConfig) \<times> pdb" where
  "UpdateGlobalConfigByID v configID req s =
     (case patch_params v configID req s of
        Inl e \<Rightarrow> (Inl e, s)
      | Inr (current, a) \<Rightarrow> WithTx (patch_body v current a) (pv_fts v) s)"

definition DeleteGlobalConfig :: "senv \<Rightarrow> string \<Rightarrow> pdb \<Rightarrow> (db_error + unit) \<times> pdb" where
  "DeleteGlobalConfig v configID s =
     (case pv_scan v configID of
        None \<Rightarrow> (bad ''invalid config ID'', s)
      | Some i \<Rightarrow>
     (case andThen (query (pv_ft v) ''GetGlobalEmbeddingProviderConfigByID'' (Inr (GetGlobalEmbeddingProviderConfigByID i s))) (\<lambda>r.
             case r of
               None \<Rightarrow> missing ''provider config not found''
             | Some row \<Rightarrow>
                 if \<not> epc_IsActive row then missing ''provider config not found''
                 else if epc_IsDefault row then bad ''cannot delete the default provider; promote another provider first''
                 else andThen (query (pv_ft v) ''CountProjectsUsingEmbeddingConfig'' (Inr (CountProjectsUsingEmbeddingConfig i s))) (\<lambda>count.
                   if 0 < count
                   then Inl (App (Conflict (''cannot delete provider: '' @ show_nat count @ '' project(s) are using it'')))
                   else Inr ())) of
        Inl e \<Rightarrow> (Inl e, s)
      | Inr _ \<Rightarrow>
     (case exec_query (pv_ft v) ''DeactivateGlobalEmbeddingProviderConfigByID'' (Inr (DeactivateGlobalEmbeddingProviderConfigByID (pv_now v) i s)) s of
        (Inl e, s') \<Rightarrow> (Inl e, s')
      | (Inr affected, s') \<Rightarrow>
          if 0 < affected then (Inr (), s')
          else (case query (pv_ft v) ''GetGlobalEmbeddingProviderConfigByID again'' (Inr (GetGlobalEmbeddingProviderConfigByID i s')) of
                  Inl e \<Rightarrow> (Inl e, s')
                | Inr cur \<Rightarrow>
                    (if (case cur of None \<Rightarrow> False | Some c \<Rightarrow> epc_IsActive c \<and> epc_IsDefault c)
                     then bad ''cannot delete the default provider; promote another provider first''
                     else missing ''provider config not found'', s')))))"

definition promote_body :: "senv \<Rightarrow> UUID \<Rightarrow> faults \<Rightarrow> pdb \<Rightarrow> db_error + DomainEmbeddingConfig \<times> pdb" where
  "promote_body v i ft s =
     andThen (query ft ''GetGlobalEmbeddingProviderConfigByID'' (Inr (GetGlobalEmbeddingProviderConfigByID i s))) (\<lambda>r.
       case r of
         None \<Rightarrow> missing ''provider config not found''
       | Some row \<Rightarrow>
           if \<not> epc_IsActive row then bad ''cannot promote inactive provider''
           else if epc_IsDefault row then andThen (DBEmbeddingProviderConfigToDomain v row) (\<lambda>cfg. Inr (cfg, s))
           else
             andThen (query ft ''DemoteGlobalEmbeddingProviderConfigDefault'' (Inr (DemoteGlobalEmbeddingProviderConfigDefault (pv_now v) s))) (\<lambda>s.
             andThen (query ft ''PromoteGlobalEmbeddingProviderConfigToDefault'' (PromoteGlobalEmbeddingProviderConfigToDefault (pv_now v) i s)) (\<lambda>(affected, s).
               if affected = 0 then bad ''cannot promote: config was deactivated or not found''
               else
                 andThen (query ft ''GetGlobalEmbeddingProviderConfigByID again'' (Inr (GetGlobalEmbeddingProviderConfigByID i s))) (\<lambda>updated.
                   case updated of
                     None \<Rightarrow> Inl Pg_Other
                   | Some u \<Rightarrow> andThen (DBEmbeddingProviderConfigToDomain v u) (\<lambda>cfg. Inr (cfg, s))))))"

definition PromoteToDefault :: "senv \<Rightarrow> string \<Rightarrow> pdb \<Rightarrow> (db_error + DomainEmbeddingConfig) \<times> pdb" where
  "PromoteToDefault v configID s =
     (case pv_scan v configID of
        None \<Rightarrow> (bad ''invalid config ID'', s)
      | Some i \<Rightarrow> WithTx (promote_body v i) (pv_fts v) s)"

section \<open>Histories\<close>

datatype setting_op =
    SetProject senv string UpdateRequest
  | ResetProject senv string
  | Bootstrap senv UpdateRequest
  | ReplaceDefault senv GlobalUpdateRequest
  | AddGlobal senv GlobalUpdateRequest
  | PatchGlobal senv string GlobalPatchRequest
  | DeleteGlobal senv string
  | PromoteGlobal senv string

fun setting_step :: "setting_op \<Rightarrow> pdb \<Rightarrow> pdb" where
  "setting_step (SetProject v p r) s = snd (UpdateProjectSetting v p r s)"
| "setting_step (ResetProject v p) s = snd (ResetProjectSetting v p s)"
| "setting_step (Bootstrap v r) s = snd (BootstrapDefaultConfig v r s)"
| "setting_step (ReplaceDefault v r) s = snd (UpdateGlobalConfig v r s)"
| "setting_step (AddGlobal v r) s = snd (CreateAdditionalGlobalConfig v r s)"
| "setting_step (PatchGlobal v i r) s = snd (UpdateGlobalConfigByID v i r s)"
| "setting_step (DeleteGlobal v i) s = snd (DeleteGlobalConfig v i s)"
| "setting_step (PromoteGlobal v i) s = snd (PromoteToDefault v i s)"

interpretation any_tx: tx_body fn "\<lambda>s s'. s' = s \<or> (\<exists>ft a. fn ft s = Inr (a, s'))" for fn :: "faults \<Rightarrow> pdb \<Rightarrow> db_error + 'a \<times> pdb"
  by unfold_locales auto

lemma WithTx_state:
  fixes fn :: "faults \<Rightarrow> pdb \<Rightarrow> db_error + 'a \<times> pdb"
  shows "snd (WithTx fn fts s) = s \<or> (\<exists>ft a. fn ft s = Inr (a, snd (WithTx fn fts s)))"
  by (rule any_tx.WithTx_R_snd)

subsection \<open>What each operation does to the tables\<close>

text \<open>A row keeps its identity; what changes is one of these, or a new row is appended.\<close>

definition add_row :: "EmbeddingProviderConfig \<Rightarrow> EmbeddingVersion list \<Rightarrow> pdb \<Rightarrow> pdb" where
  "add_row c vs s = s\<lparr>pd_configs := pd_configs s @ [c], pd_versions := vs\<rparr>"

lemma insert_config_Inr: "insert_config c s = Inr (d, s') \<longleftrightarrow> config_constraints c s = None \<and> d = c \<and> s' = s\<lparr>pd_configs := pd_configs s @ [c]\<rparr>"
  by (auto simp: insert_config_def split: option.splits)

lemma create_version_Inr: "create_version v ft row p m d s = Inr s' \<Longrightarrow> \<exists>vs. s' = s\<lparr>pd_versions := vs\<rparr>"
  by (auto simp: create_version_def andThen_Inr)

lemma existing_Inr: "existing p ft s = Inr () \<Longrightarrow> LockProject p s \<noteq> None"
  by (auto simp: existing_def andThen_Inr query_Inr missing_def split: option.splits)

lemma select_body_Inr:
  assumes "select_body v p g ft s = Inr (x, s')"
  obtains row s1 cfg where "LockProject p s \<noteq> None" "GetEmbeddingProviderConfigByID g s = Some row" "is_global row" "epc_IsActive row" "epc_IsAvailableToProjects row"
    "s1 = DeactivateProjectEmbeddingProviderConfigs (pv_now v) p s" "s' = select_config (pv_now v) p g s1"
    "DBEmbeddingProviderConfigToDomain v row = Inr cfg" "x = \<lparr>pps_Mode = ''global'', pps_GlobalConfigID = PgUUIDToString g, pps_Config = cfg\<rparr>"
  using assms
  by (auto simp: select_body_def andThen_Inr query_Inr missing_def bad_def SetSelectedEmbeddingGlobalConfig_def
      dest!: existing_Inr split: option.splits if_splits)

lemma custom_body_Inr:
  assumes "custom_body v p req ft s = Inr (cfg, s')"
  obtains creds j vs c s1 where "LockProject p s \<noteq> None"
    "s1 = DeactivateProjectEmbeddingProviderConfigs (pv_now v) p (select_config (pv_now v) p null_UUID s)"
    "c = new_config (pv_now v) (pv_fresh v) (create_params req j creds) False False p"
    "config_constraints c s1 = None" "s' = add_row c vs s1" "DBEmbeddingProviderConfigToDomain v c = Inr cfg"
    "case GetActiveProjectEmbeddingProviderConfig p s of
       None \<Rightarrow> ResolveCredentials v (ur_Credentials req) None False = Inr creds
     | Some d \<Rightarrow> ResolveCredentials v (ur_Credentials req) (epc_CredentialsEncrypted d) True = Inr creds \<and>
         (has_credentials (epc_CredentialsEncrypted d) \<and> \<not> cu_Set (ur_Credentials req) \<longrightarrow>
            ur_Provider req = NormalizeProviderID (pv_lower v) (epc_Provider d) \<and> ur_EndpointURL req = TrimSpace (epc_EndpointUrl d))"
proof -
  let ?cur = "GetActiveProjectEmbeddingProviderConfig p s"
  let ?s1 = "DeactivateProjectEmbeddingProviderConfigs (pv_now v) p (select_config (pv_now v) p null_UUID s)"
  let ?create = "\<lambda>j creds. query ft ''CreateEmbeddingProviderConfig'' (CreateEmbeddingProviderConfig (pv_now v) (pv_fresh v) (create_params req j creds) p ?s1)"
  obtain j creds where e: "existing p ft s = Inr ()"
    and cond: "\<not> (case ?cur of None \<Rightarrow> False | Some c \<Rightarrow> has_credentials (epc_CredentialsEncrypted c) \<and> \<not> cu_Set (ur_Credentials req) \<and>
             (ur_Provider req \<noteq> NormalizeProviderID (pv_lower v) (epc_Provider c) \<or> ur_EndpointURL req \<noteq> TrimSpace (epc_EndpointUrl c)))"
    and r: "ResolveCredentials v (ur_Credentials req) (case ?cur of None \<Rightarrow> None | Some c \<Rightarrow> epc_CredentialsEncrypted c) (?cur \<noteq> None) = Inr creds"
    and ins: "(case ?create j creds of
         Inl e \<Rightarrow> Inl (if IsUniqueViolation e then App (Conflict ''an active embedding configuration already exists; retry the request'') else e)
       | Inr (row, s) \<Rightarrow>
           andThen (create_version v ft row (ur_Provider req) (ur_Model req) (i32 (ur_Dimensions req)) s) (\<lambda>s.
           andThen (DBEmbeddingProviderConfigToDomain v row) (\<lambda>cfg. Inr (cfg, s)))) = Inr (cfg, s')"
    using assms
    by (auto simp: custom_body_def andThen_Inr query_Inr bad_def ClearSelectedEmbeddingGlobalConfig_def split: if_splits)
  obtain row s2 where "?create j creds = Inr (row, s2)" using ins by (cases "?create j creds") auto
  then have i: "CreateEmbeddingProviderConfig (pv_now v) (pv_fresh v) (create_params req j creds) p ?s1 = Inr (row, s2)"
    by (simp add: query_Inr)
  have "andThen (create_version v ft row (ur_Provider req) (ur_Model req) (i32 (ur_Dimensions req)) s2) (\<lambda>s.
      andThen (DBEmbeddingProviderConfigToDomain v row) (\<lambda>cfg. Inr (cfg, s))) = Inr (cfg, s')"
    using ins \<open>?create j creds = Inr (row, s2)\<close> by simp
  then obtain s3 where vv: "create_version v ft row (ur_Provider req) (ur_Model req) (i32 (ur_Dimensions req)) s2 = Inr s3" and s': "s' = s3"
    and d: "DBEmbeddingProviderConfigToDomain v row = Inr cfg"
    by (auto simp: andThen_Inr)
  from i have i: "config_constraints (new_config (pv_now v) (pv_fresh v) (create_params req j creds) False False p) ?s1 = None"
    "row = new_config (pv_now v) (pv_fresh v) (create_params req j creds) False False p" "s2 = ?s1\<lparr>pd_configs := pd_configs ?s1 @ [row]\<rparr>"
    by (simp_all add: CreateEmbeddingProviderConfig_def insert_config_Inr)
  from create_version_Inr [OF vv] obtain vs where "s3 = s2\<lparr>pd_versions := vs\<rparr>" by blast
  then have "s' = add_row row vs ?s1" by (simp add: s' i(3) add_row_def)
  then show ?thesis
    using that [of ?s1 row j creds vs] existing_Inr [OF e] i d r cond by (cases ?cur) auto
qed

lemma reset_body_Inr:
  assumes "reset_body v p ft s = Inr (x, s')"
  shows "LockProject p s \<noteq> None \<and> s' = DeactivateProjectEmbeddingProviderConfigs (pv_now v) p (select_config (pv_now v) p null_UUID s)"
  using assms
  by (auto simp: reset_body_def andThen_Inr query_Inr missing_def ClearSelectedEmbeddingGlobalConfig_def dest!: existing_Inr split: option.splits)

lemma replace_default_body_Inr:
  assumes "replace_default_body v req j creds av ft s = Inr (cfg, s')"
  obtains vs c where "c = new_config (pv_now v) (pv_fresh v) (create_params req j creds) True av null_UUID"
    "config_constraints c (DeactivateDefaultGlobalEmbeddingProviderConfig (pv_now v) s) = None"
    "s' = add_row c vs (DeactivateDefaultGlobalEmbeddingProviderConfig (pv_now v) s)"
proof -
  let ?s1 = "DeactivateDefaultGlobalEmbeddingProviderConfig (pv_now v) s"
  obtain row s2 s3 where i: "CreateGlobalEmbeddingProviderConfig (pv_now v) (pv_fresh v) (create_params req j creds) av ?s1 = Inr (row, s2)"
    and vv: "create_version v ft row (ur_Provider req) (ur_Model req) (i32 (ur_Dimensions req)) s2 = Inr s3" and s': "s' = s3"
    using assms by (auto simp: replace_default_body_def andThen_Inr query_Inr)
  then show ?thesis using that create_version_Inr [OF vv]
    by (auto simp: CreateGlobalEmbeddingProviderConfig_def insert_config_Inr add_row_def)
qed

lemma additional_body_Inr:
  assumes "additional_body v req j creds av ft s = Inr (cfg, s')"
  obtains vs c where "c = new_config (pv_now v) (pv_fresh v) (create_params req j creds) False av null_UUID"
    "config_constraints c s = None" "s' = add_row c vs s"
proof -
  obtain row s2 s3 where i: "CreateGlobalEmbeddingProviderConfigNonDefault (pv_now v) (pv_fresh v) (create_params req j creds) av s = Inr (row, s2)"
    and vv: "create_version v ft row (ur_Provider req) (ur_Model req) (i32 (ur_Dimensions req)) s2 = Inr s3" and s': "s' = s3"
    using assms by (auto simp: additional_body_def andThen_Inr query_Inr)
  then show ?thesis using that create_version_Inr [OF vv]
    by (auto simp: CreateGlobalEmbeddingProviderConfigNonDefault_def insert_config_Inr add_row_def)
qed

definition patch_hits :: "UpdateGlobalParams \<Rightarrow> EmbeddingProviderConfig \<Rightarrow> bool" where
  "patch_hits a c = (sql_eq (epc_ID c) (ug_ID a) \<and> is_global c \<and> epc_IsActive c)"

lemma patch_body_Inr:
  assumes "patch_body v current a ft s = Inr (cfg, s')"
  obtains c vs where "List.find (patch_hits a) (pd_configs s) = Some c" "DBEmbeddingProviderConfigToDomain v (patched (pv_now v) a c) = Inr cfg"
    "s' = (snd (update_configs (patch_hits a) (patched (pv_now v) a) s))\<lparr>pd_versions := vs\<rparr>"
proof -
  have P: "(\<lambda>c. sql_eq (epc_ID c) (ug_ID a) \<and> is_global c \<and> epc_IsActive c) = patch_hits a" by (simp add: fun_eq_iff patch_hits_def)
  obtain r s1 where u: "UpdateGlobalEmbeddingProviderConfig (pv_now v) a s = Inr (Some r, s1)"
    and rest: "andThen (if epc_Provider r \<noteq> epc_Provider current \<or> epc_Model r \<noteq> epc_Model current \<or> epc_Dimensions r \<noteq> epc_Dimensions current
                    then create_version v ft r (epc_Provider r) (epc_Model r) (epc_Dimensions r) s1 else Inr s1) (\<lambda>s.
           andThen (DBEmbeddingProviderConfigToDomain v r) (\<lambda>cfg. Inr (cfg, s))) = Inr (cfg, s')"
    using assms by (auto simp: patch_body_def andThen_Inr query_Inr missing_def split: option.splits)
  obtain c where c: "List.find (patch_hits a) (pd_configs s) = Some c" "r = patched (pv_now v) a c"
    "s1 = snd (update_configs (patch_hits a) (patched (pv_now v) a) s)"
    using u unfolding UpdateGlobalEmbeddingProviderConfig_def P Let_def by (auto split: option.splits if_splits)
  obtain s2 where s2: "s' = s2" "(if epc_Provider r \<noteq> epc_Provider current \<or> epc_Model r \<noteq> epc_Model current \<or> epc_Dimensions r \<noteq> epc_Dimensions current
                    then create_version v ft r (epc_Provider r) (epc_Model r) (epc_Dimensions r) s1 else Inr s1) = Inr s2"
    "DBEmbeddingProviderConfigToDomain v r = Inr cfg"
    using rest unfolding andThen_Inr by auto
  have "\<exists>vs. s2 = s1\<lparr>pd_versions := vs\<rparr>"
  proof (cases "epc_Provider r \<noteq> epc_Provider current \<or> epc_Model r \<noteq> epc_Model current \<or> epc_Dimensions r \<noteq> epc_Dimensions current")
    case True
    then have "create_version v ft r (epc_Provider r) (epc_Model r) (epc_Dimensions r) s1 = Inr s2" using s2(2) by (simp only: if_True)
    then show ?thesis by (rule create_version_Inr)
  next
    case False
    then have "s2 = s1\<lparr>pd_versions := pd_versions s1\<rparr>" using s2(2) by simp
    then show ?thesis by blast
  qed
  then show ?thesis using that c s2 by auto
qed

lemma promote_body_Inr:
  assumes "promote_body v i ft s = Inr (cfg, s')"
  shows "s' = s \<or> (\<exists>n > 0. PromoteGlobalEmbeddingProviderConfigToDefault (pv_now v) i (DemoteGlobalEmbeddingProviderConfigDefault (pv_now v) s) = Inr (n, s'))"
  using assms
  by (auto simp: promote_body_def andThen_Inr query_Inr missing_def bad_def split: option.splits if_splits)

lemma DeleteGlobalConfig_state:
  "snd (DeleteGlobalConfig v i s) = s \<or> (\<exists>j. snd (DeleteGlobalConfig v i s) = snd (DeactivateGlobalEmbeddingProviderConfigByID (pv_now v) j s))"
proof (cases "pv_scan v i")
  case None
  then show ?thesis by (simp add: DeleteGlobalConfig_def)
next
  case (Some j)
  let ?q = "exec_query (pv_ft v) ''DeactivateGlobalEmbeddingProviderConfigByID'' (Inr (DeactivateGlobalEmbeddingProviderConfigByID (pv_now v) j s)) s"
  have "snd (DeleteGlobalConfig v i s) = s \<or> snd (DeleteGlobalConfig v i s) = snd ?q"
    unfolding DeleteGlobalConfig_def Some option.case by (simp split: sum.split prod.split)
  moreover have "snd ?q = s \<or> snd ?q = snd (DeactivateGlobalEmbeddingProviderConfigByID (pv_now v) j s)"
    by (cases "DeactivateGlobalEmbeddingProviderConfigByID (pv_now v) j s") (simp add: exec_query_def)
  ultimately show ?thesis by auto
qed

lemma Bootstrap_state:
  "snd (BootstrapDefaultConfig v r s) = s \<or>
   (\<exists>c. global_default c \<and> epc_IsActive c \<and> config_constraints c s = None \<and> epc_CredentialsEncrypted c = None \<and>
     (\<exists>req. validateCustomUpdateRequest v (r\<lparr>ur_Settings := Some []\<rparr>) = Inr req \<and> epc_Provider c = ur_Provider req \<and> epc_EndpointUrl c = ur_EndpointURL req) \<and>
     snd (BootstrapDefaultConfig v r s) = s\<lparr>pd_configs := pd_configs s @ [c]\<rparr>)"
proof (cases "validateCustomUpdateRequest v (r\<lparr>ur_Settings := Some []\<rparr>)")
  case (Inl e)
  then show ?thesis by (simp add: BootstrapDefaultConfig_def)
next
  case (Inr req)
  let ?c = "new_config (pv_now v) (pv_fresh v) (create_params req ''{}'' None) True True null_UUID"
  let ?i = "CreateEmbeddingDefaultProviderConfigIfMissing (pv_now v) (pv_fresh v) (create_params req ''{}'' None) s"
  have "snd (BootstrapDefaultConfig v r s) = snd (exec_query (pv_ft v) ''CreateEmbeddingDefaultProviderConfigIfMissing'' ?i s)"
    by (simp add: BootstrapDefaultConfig_def Inr split: sum.split prod.split)
  moreover have "snd (exec_query (pv_ft v) ''CreateEmbeddingDefaultProviderConfigIfMissing'' ?i s) = s \<or>
      config_constraints ?c s = None \<and> snd (exec_query (pv_ft v) ''CreateEmbeddingDefaultProviderConfigIfMissing'' ?i s) = s\<lparr>pd_configs := pd_configs s @ [?c]\<rparr>"
    by (auto simp: exec_query_def CreateEmbeddingDefaultProviderConfigIfMissing_def insert_config_def split: option.split)
  moreover have "global_default ?c \<and> epc_IsActive ?c \<and> epc_CredentialsEncrypted ?c = None \<and> epc_Provider ?c = ur_Provider req \<and> epc_EndpointUrl ?c = ur_EndpointURL req"
    by (simp add: new_config_def global_default_def is_global_def null_UUID_def create_params_def)
  ultimately show ?thesis using Inr by metis
qed

section \<open>The platform keeps a default\<close>

definition has_default :: "pdb \<Rightarrow> bool" where
  "has_default s = list_ex (\<lambda>c. is_global c \<and> epc_IsActive c \<and> epc_IsDefault c) (pd_configs s)"

lemma active_of_not_global: "active_of p c \<Longrightarrow> \<not> is_global c"
  by (simp add: active_of_def is_global_def sql_eq_def)

lemma has_default_update:
  assumes "\<And>c. P c \<Longrightarrow> is_global c \<Longrightarrow> epc_IsActive c \<Longrightarrow> epc_IsDefault c \<Longrightarrow> is_global (f c) \<and> epc_IsActive (f c) \<and> epc_IsDefault (f c)"
    and "has_default s"
  shows "has_default (snd (update_configs P f s))"
proof -
  obtain c where c: "c \<in> set (pd_configs s)" "is_global c" "epc_IsActive c" "epc_IsDefault c"
    using assms(2) by (auto simp: has_default_def list_ex_iff)
  let ?c = "if P c then f c else c"
  have "?c \<in> set (pd_configs (snd (update_configs P f s)))" using c(1) by (auto simp: update_configs_def)
  moreover have "is_global ?c \<and> epc_IsActive ?c \<and> epc_IsDefault ?c" using assms(1) [of c] c by simp
  ultimately show ?thesis unfolding has_default_def list_ex_iff by blast
qed

lemma has_default_deactivate: "has_default s \<Longrightarrow> has_default (DeactivateProjectEmbeddingProviderConfigs now p s)"
  unfolding DeactivateProjectEmbeddingProviderConfigs_def by (rule has_default_update) (auto dest: active_of_not_global)

lemma has_default_select [simp]: "has_default (select_config now p g s) = has_default s"
  by (simp add: has_default_def select_config_def)

lemma has_default_add: "has_default (add_row c vs s) \<longleftrightarrow> has_default s \<or> is_global c \<and> epc_IsActive c \<and> epc_IsDefault c"
  by (auto simp: has_default_def add_row_def)

lemma has_default_patch: "has_default s \<Longrightarrow> has_default (snd (update_configs (patch_hits a) (patched now a) s))"
  by (rule has_default_update) (simp_all add: patched_def is_global_def)

lemma has_default_promote:
  assumes "PromoteGlobalEmbeddingProviderConfigToDefault now i s = Inr (n, s')" "0 < n"
  shows "has_default s'"
proof -
  let ?P = "\<lambda>c. sql_eq (epc_ID c) i \<and> is_global c \<and> epc_IsActive c"
  let ?f = "\<lambda>c. c\<lparr>epc_IsDefault := True, epc_UpdatedAt := now\<rparr>"
  have u: "(n, s') = update_configs ?P ?f s"
    using assms(1) by (auto simp: PromoteGlobalEmbeddingProviderConfigToDefault_def Let_def split: if_splits)
  then have "filter ?P (pd_configs s) \<noteq> []" using assms(2) by (auto simp: update_configs_def)
  then obtain c where c: "c \<in> set (pd_configs s)" "?P c" by (auto simp: filter_empty_conv)
  have "?f c \<in> set (pd_configs s')" using u c by (force simp: update_configs_def)
  moreover have "is_global (?f c) \<and> epc_IsActive (?f c) \<and> epc_IsDefault (?f c)" using c(2) by (simp add: is_global_def)
  ultimately show ?thesis unfolding has_default_def list_ex_iff by blast
qed

lemma UpdateProjectSetting_state:
  "snd (UpdateProjectSetting v p r s) = s \<or>
   (\<exists>i g ft x. select_body v i g ft s = Inr (x, snd (UpdateProjectSetting v p r s))) \<or>
   (\<exists>i req ft x. validateCustomUpdateRequest v (r\<lparr>ur_Mode := pv_lower v (TrimSpace (ur_Mode r))\<rparr>) = Inr req \<and>
      custom_body v i req ft s = Inr (x, snd (UpdateProjectSetting v p r s)))"
proof (cases "pv_scan v p")
  case None
  then show ?thesis by (simp add: UpdateProjectSetting_def)
next
  case (Some i)
  let ?r = "r\<lparr>ur_Mode := pv_lower v (TrimSpace (ur_Mode r))\<rparr>"
  have "snd (selectGlobalConfig v i g s) = s \<or> (\<exists>j ft x. select_body v i j ft s = Inr (x, snd (selectGlobalConfig v i g s)))" for g
    using WithTx_state [of "select_body v i _" "pv_fts v" s] by (auto simp: selectGlobalConfig_def split: option.split)
  moreover have "snd (upsertCustomConfig v i ?r s) = s \<or>
      (\<exists>req ft x. validateCustomUpdateRequest v ?r = Inr req \<and> custom_body v i req ft s = Inr (x, snd (upsertCustomConfig v i ?r s)))"
    using WithTx_state [of "custom_body v i _" "pv_fts v" s] by (auto simp: upsertCustomConfig_def split: sum.split)
  moreover have "snd (UpdateProjectSetting v p r s) \<in> {s, snd (selectGlobalConfig v i (ur_GlobalConfigID ?r) s), snd (upsertCustomConfig v i ?r s)}"
    by (auto simp: UpdateProjectSetting_def Some Let_def split: prod.split sum.split)
  ultimately show ?thesis by (metis empty_iff insert_iff)
qed

lemma has_default_project_steps:
  assumes "has_default s"
  shows "has_default (snd (UpdateProjectSetting v p r s))" "has_default (snd (ResetProjectSetting v p s))"
proof -
  have "has_default s'" if "select_body v i g ft s = Inr (x, s')" for i g ft x s'
    using that by (rule select_body_Inr) (simp add: assms has_default_deactivate)
  moreover have "has_default s'" if "custom_body v i req ft s = Inr (x, s')" for i req ft x s'
    using that by (rule custom_body_Inr) (simp add: assms has_default_deactivate has_default_add)
  ultimately show "has_default (snd (UpdateProjectSetting v p r s))" using UpdateProjectSetting_state [of v p r s] assms by metis
  have "has_default s'" if "reset_body v i ft s = Inr (x, s')" for i ft x s'
    using reset_body_Inr [OF that] assms by (simp add: has_default_deactivate)
  then show "has_default (snd (ResetProjectSetting v p s))"
    using WithTx_state [of "reset_body v _" "pv_fts v" s] assms by (force simp: ResetProjectSetting_def split: option.split)
qed

lemma UpdateGlobalConfig_state:
  "snd (UpdateGlobalConfig v r s) = s \<or>
   (\<exists>u j creds av ft x. validateCustomUpdateRequest v (update_req r) = Inr u \<and>
      (case GetDefaultGlobalEmbeddingProviderConfig s of
         None \<Rightarrow> ResolveCredentials v (gr_Credentials r) None False = Inr creds
       | Some d \<Rightarrow> ResolveCredentials v (gr_Credentials r) (epc_CredentialsEncrypted d) True = Inr creds \<and>
           (has_credentials (epc_CredentialsEncrypted d) \<and> \<not> cu_Set (gr_Credentials r) \<longrightarrow>
              ur_Provider u = epc_Provider d \<and> ur_EndpointURL u = epc_EndpointUrl d)) \<and>
      replace_default_body v u j creds av ft s = Inr (x, snd (UpdateGlobalConfig v r s)))"
proof -
  let ?d = "GetDefaultGlobalEmbeddingProviderConfig s"
  let ?pre = "andThen (validateCustomUpdateRequest v (update_req r)) (\<lambda>u.
           andThen (marshal_settings v (gr_Settings r)) (\<lambda>settingsJSON.
           andThen (query (pv_ft v) ''GetDefaultGlobalEmbeddingProviderConfig'' (Inr ?d)) (\<lambda>current.
             if (case current of None \<Rightarrow> False | Some c \<Rightarrow> has_credentials (epc_CredentialsEncrypted c) \<and> \<not> cu_Set (gr_Credentials r) \<and>
                   (ur_Provider u \<noteq> epc_Provider c \<or> ur_EndpointURL u \<noteq> epc_EndpointUrl c))
             then bad ''credentials must be re-entered when provider or endpoint_url changes''
             else andThen (ResolveCredentials v (gr_Credentials r) (case current of None \<Rightarrow> None | Some c \<Rightarrow> epc_CredentialsEncrypted c) (current \<noteq> None)) (\<lambda>creds.
                  Inr (u, settingsJSON, creds)))))"
  show ?thesis
  proof (cases ?pre)
    case (Inl e)
    then show ?thesis by (simp add: UpdateGlobalConfig_def)
  next
    case (Inr z)
    obtain u j creds where z: "z = (u, j, creds)" by (cases z)
    have w: "UpdateGlobalConfig v r s = WithTx (replace_default_body v u j creds (coalesce (gr_IsAvailableToProjects r) True)) (pv_fts v) s"
      unfolding UpdateGlobalConfig_def Inr z by simp
    have "validateCustomUpdateRequest v (update_req r) = Inr u"
      "case ?d of
         None \<Rightarrow> ResolveCredentials v (gr_Credentials r) None False = Inr creds
       | Some d \<Rightarrow> ResolveCredentials v (gr_Credentials r) (epc_CredentialsEncrypted d) True = Inr creds \<and>
           (has_credentials (epc_CredentialsEncrypted d) \<and> \<not> cu_Set (gr_Credentials r) \<longrightarrow>
              ur_Provider u = epc_Provider d \<and> ur_EndpointURL u = epc_EndpointUrl d)"
      using Inr by (auto simp: z andThen_Inr query_Inr bad_def split: option.splits if_splits)
    then show ?thesis using WithTx_state [of "replace_default_body v u j creds (coalesce (gr_IsAvailableToProjects r) True)" "pv_fts v" s]
      unfolding w by blast
  qed
qed

lemma CreateAdditional_state:
  "snd (CreateAdditionalGlobalConfig v r s) = s \<or>
   (\<exists>u j creds av ft x. validateCustomUpdateRequest v (update_req r) = Inr u \<and> ResolveCredentials v (gr_Credentials r) None False = Inr creds \<and>
      additional_body v u j creds av ft s = Inr (x, snd (CreateAdditionalGlobalConfig v r s)))"
proof -
  let ?pre = "andThen (validateCustomUpdateRequest v (update_req r)) (\<lambda>u.
           andThen (marshal_settings v (gr_Settings r)) (\<lambda>settingsJSON.
           andThen (ResolveCredentials v (gr_Credentials r) None False) (\<lambda>creds. Inr (u, settingsJSON, creds))))"
  show ?thesis
  proof (cases ?pre)
    case (Inl e)
    then show ?thesis by (simp add: CreateAdditionalGlobalConfig_def)
  next
    case (Inr z)
    obtain u j creds where z: "z = (u, j, creds)" by (cases z)
    have w: "CreateAdditionalGlobalConfig v r s = WithTx (additional_body v u j creds (coalesce (gr_IsAvailableToProjects r) True)) (pv_fts v) s"
      unfolding CreateAdditionalGlobalConfig_def Inr z by simp
    have "validateCustomUpdateRequest v (update_req r) = Inr u" "ResolveCredentials v (gr_Credentials r) None False = Inr creds"
      using Inr by (auto simp: z andThen_Inr)
    then show ?thesis using WithTx_state [of "additional_body v u j creds (coalesce (gr_IsAvailableToProjects r) True)" "pv_fts v" s]
      unfolding w by blast
  qed
qed

lemma UpdateGlobalConfigByID_state:
  "snd (UpdateGlobalConfigByID v i r s) = s \<or>
   (\<exists>current a ft x. patch_params v i r s = Inr (current, a) \<and> patch_body v current a ft s = Inr (x, snd (UpdateGlobalConfigByID v i r s)))"
  using WithTx_state [of "patch_body v _ _" "pv_fts v" s] by (auto simp: UpdateGlobalConfigByID_def split: sum.split)

lemma Promote_state:
  "snd (PromoteToDefault v i s) = s \<or> (\<exists>j ft x. promote_body v j ft s = Inr (x, snd (PromoteToDefault v i s)))"
  using WithTx_state [of "promote_body v _" "pv_fts v" s] by (auto simp: PromoteToDefault_def split: option.split)

lemma has_default_step:
  assumes "has_default s"
  shows "has_default (setting_step op s)"
proof (cases op)
  case (SetProject v p r)
  then show ?thesis using has_default_project_steps(1) [OF assms] by simp
next
  case (ResetProject v p)
  then show ?thesis using has_default_project_steps(2) [OF assms] by simp
next
  case (Bootstrap v r)
  then show ?thesis using Bootstrap_state [of v r s] assms by (auto simp: has_default_def)
next
  case (ReplaceDefault v r)
  have "has_default s'" if "replace_default_body v u j creds av ft s = Inr (x, s')" for u j creds av ft x s'
    using that by (rule replace_default_body_Inr) (simp add: has_default_add new_config_def is_global_def null_UUID_def)
  then show ?thesis using ReplaceDefault UpdateGlobalConfig_state [of v r s] assms by (metis setting_step.simps(4))
next
  case (AddGlobal v r)
  have "has_default s'" if "additional_body v u j creds av ft s = Inr (x, s')" for u j creds av ft x s'
    using that by (rule additional_body_Inr) (simp add: has_default_add assms)
  then show ?thesis using AddGlobal CreateAdditional_state [of v r s] assms by (metis setting_step.simps(5))
next
  case (PatchGlobal v i r)
  have "has_default s'" if "patch_body v c a ft s = Inr (x, s')" for c a ft x s'
    using that by (rule patch_body_Inr) (use has_default_patch [OF assms] in \<open>simp add: has_default_def\<close>)
  then show ?thesis using PatchGlobal UpdateGlobalConfigByID_state [of v i r s] assms by (metis setting_step.simps(6))
next
  case (DeleteGlobal v i)
  have "has_default (snd (DeactivateGlobalEmbeddingProviderConfigByID now j s))" for now j
    unfolding DeactivateGlobalEmbeddingProviderConfigByID_def by (rule has_default_update [OF _ assms]) simp
  then show ?thesis using DeleteGlobal DeleteGlobalConfig_state [of v i s] assms by (metis setting_step.simps(7))
next
  case (PromoteGlobal v i)
  have "has_default s'" if "promote_body v j ft s = Inr (x, s')" for j ft x s'
    using promote_body_Inr [OF that] has_default_promote assms by blast
  then show ?thesis using PromoteGlobal Promote_state [of v i s] assms by (metis setting_step.simps(8))
qed

text \<open>C28: Once the platform has an active default configuration it keeps one, through every history of changes to the settings of
  projects and of the platform, whatever queries fail.\<close>

theorem platform_keeps_default_provider:
  assumes "has_default s"
  shows "has_default (fold setting_step ops s)"
  using assms by (induction ops arbitrary: s) (simp_all add: has_default_step)

section \<open>Every project resolves to an active configuration\<close>

lemma newest_in: "newest cs = Some c \<Longrightarrow> c \<in> set cs"
  by (induction cs) (auto split: option.splits if_splits)

lemma newest_None [simp]: "newest cs = None \<longleftrightarrow> cs = []"
  by (cases cs) (auto split: option.split)

lemma decode_Inr:
  assumes "jsonBytesToMap v (epc_SettingsJson c) \<noteq> None"
  obtains cfg where "DBEmbeddingProviderConfigToDomain v c = Inr cfg" "dec_IsActive cfg = epc_IsActive c"
  using assms by (auto simp: DBEmbeddingProviderConfigToDomain_def)

lemma find_in: "List.find P xs = Some x \<Longrightarrow> x \<in> set xs \<and> P x"
  by (auto simp: find_Some_iff)

definition project_ids :: "pdb \<Rightarrow> UUID list" where
  "project_ids s = map sel_ProjectID (pd_projects s)"

lemma project_ids_simps [simp]:
  "project_ids (select_config now p g s) = project_ids s" "project_ids (snd (update_configs P f s)) = project_ids s"
  "project_ids (add_row c vs s) = project_ids s" "project_ids (s\<lparr>pd_versions := vs\<rparr>) = project_ids s"
  "project_ids (s\<lparr>pd_configs := cs\<rparr>) = project_ids s"
  "project_ids (DeactivateProjectEmbeddingProviderConfigs now p s) = project_ids s"
  "project_ids (DeactivateDefaultGlobalEmbeddingProviderConfig now s) = project_ids s"
  by (auto simp: project_ids_def select_config_def update_configs_def add_row_def DeactivateProjectEmbeddingProviderConfigs_def
      DeactivateDefaultGlobalEmbeddingProviderConfig_def)

lemma project_ids_promote:
  assumes "promote_body v j ft s = Inr (x, s')"
  shows "project_ids s' = project_ids s"
proof -
  have "project_ids t' = project_ids t" if "PromoteGlobalEmbeddingProviderConfigToDefault now i t = Inr (n, t')" for now i n t t'
    using that by (auto simp: PromoteGlobalEmbeddingProviderConfigToDefault_def Let_def split: if_splits) (metis project_ids_simps(2) snd_conv)
  then show ?thesis using promote_body_Inr [OF assms] by (auto simp: DemoteGlobalEmbeddingProviderConfigDefault_def)
qed

lemma project_ids_step: "project_ids (setting_step op s) = project_ids s"
proof (cases op)
  case (SetProject v p r)
  have "project_ids s' = project_ids s" if "select_body v i g ft s = Inr (x, s')" for i g ft x s' using that by (rule select_body_Inr) simp
  moreover have "project_ids s' = project_ids s" if "custom_body v i req ft s = Inr (x, s')" for i req ft x s' using that by (rule custom_body_Inr) simp
  ultimately show ?thesis using SetProject UpdateProjectSetting_state [of v p r s] by (metis setting_step.simps(1))
next
  case (ResetProject v p)
  have "project_ids s' = project_ids s" if "reset_body v i ft s = Inr (x, s')" for i ft x s' using reset_body_Inr [OF that] by simp
  then show ?thesis using ResetProject WithTx_state [of "reset_body v _" "pv_fts v" s] by (force simp: ResetProjectSetting_def split: option.split)
next
  case (Bootstrap v r)
  then show ?thesis using Bootstrap_state [of v r s] by auto
next
  case (ReplaceDefault v r)
  have "project_ids s' = project_ids s" if "replace_default_body v u j creds av ft s = Inr (x, s')" for u j creds av ft x s'
    using that by (rule replace_default_body_Inr) simp
  then show ?thesis using ReplaceDefault UpdateGlobalConfig_state [of v r s] by (metis setting_step.simps(4))
next
  case (AddGlobal v r)
  have "project_ids s' = project_ids s" if "additional_body v u j creds av ft s = Inr (x, s')" for u j creds av ft x s'
    using that by (rule additional_body_Inr) simp
  then show ?thesis using AddGlobal CreateAdditional_state [of v r s] by (metis setting_step.simps(5))
next
  case (PatchGlobal v i r)
  have "project_ids s' = project_ids s" if "patch_body v c a ft s = Inr (x, s')" for c a ft x s' using that by (rule patch_body_Inr) simp
  then show ?thesis using PatchGlobal UpdateGlobalConfigByID_state [of v i r s] by (metis setting_step.simps(6))
next
  case (DeleteGlobal v i)
  then show ?thesis using DeleteGlobalConfig_state [of v i s]
    by (auto simp: DeactivateGlobalEmbeddingProviderConfigByID_def)
next
  case (PromoteGlobal v i)
  then show ?thesis using Promote_state [of v i s] project_ids_promote by (metis setting_step.simps(8))
qed

lemma resolveState_total:
  assumes "has_default s" "\<exists>i \<in> set (project_ids s). sql_eq i p" "\<forall>n. pv_ft v n = NoFault"
    and dec: "\<forall>c \<in> set (pd_configs s). jsonBytesToMap v (epc_SettingsJson c) \<noteq> None"
  shows "\<exists>st. resolveState v p s = Inr st \<and> dec_IsActive (rst_Config st)"
proof -
  have q: "query (pv_ft v) n r = r" for n and r :: "db_error + 'z" using assms(3) by (simp add: query_def)
  have decodes: "\<exists>cfg. DBEmbeddingProviderConfigToDomain v row = Inr cfg \<and> dec_IsActive cfg = epc_IsActive row"
    if "row \<in> set (pd_configs s)" for row
    using decode_Inr [of v row] dec that by metis
  have default: "\<exists>st. default_state v s = Inr st \<and> dec_IsActive (rst_Config st)"
  proof -
    obtain row where row: "GetDefaultGlobalEmbeddingProviderConfig s = Some row"
      using assms(1) by (cases "GetDefaultGlobalEmbeddingProviderConfig s")
        (auto simp: has_default_def list_ex_iff GetDefaultGlobalEmbeddingProviderConfig_def find_None_iff)
    then have "row \<in> set (pd_configs s)" "epc_IsActive row"
      unfolding GetDefaultGlobalEmbeddingProviderConfig_def by (auto dest: find_in)
    then show ?thesis using decodes [of row] dec row by (auto simp: default_state_def query_def assms(3))
  qed
  obtain sel where sel: "GetProjectProviderSelections p s = Some sel"
    using assms(2) by (cases "GetProjectProviderSelections p s") (auto simp: project_ids_def GetProjectProviderSelections_def find_None_iff)
  show ?thesis
  proof (cases "GetActiveProjectEmbeddingProviderConfig p s")
    case (Some row)
    then have "row \<in> set (pd_configs s)" "epc_IsActive row"
      unfolding GetActiveProjectEmbeddingProviderConfig_def by (auto dest!: newest_in simp: active_of_def)
    then show ?thesis using decodes [of row] dec Some by (auto simp: resolveState_def query_def assms(3))
  next
    case None
    show ?thesis
    proof (cases "GetEmbeddingProviderConfigByID (sel_SelectedEmbeddingGlobalConfigID sel) s")
      case (Some row)
      then have "row \<in> set (pd_configs s)" unfolding GetEmbeddingProviderConfigByID_def by (auto dest: find_in)
      then show ?thesis using decodes [of row] dec Some None sel default by (auto simp: resolveState_def query_def assms(3) Let_def)
    next
      case none: None
      then show ?thesis using None sel default by (auto simp: resolveState_def query_def assms(3) Let_def)
    qed
  qed
qed

text \<open>C29: So on a platform that has a default, every project has a working configuration at every moment, after any history:
  reading it never fails and what is read is active.\<close>

theorem every_project_resolves:
  assumes "has_default s" "\<exists>i \<in> set (project_ids s). sql_eq i p" "s' = fold setting_step ops s"
    and "\<forall>n. pv_ft v n = NoFault" "\<forall>c \<in> set (pd_configs s'). jsonBytesToMap v (epc_SettingsJson c) \<noteq> None"
  shows "\<exists>st. resolveState v p s' = Inr st \<and> dec_IsActive (rst_Config st)"
proof -
  have "has_default s' \<and> project_ids s' = project_ids s"
    using assms(1) unfolding assms(3) by (induction ops arbitrary: s) (simp_all add: has_default_step project_ids_step)
  then show ?thesis using resolveState_total assms by simp
qed

section \<open>A setting takes effect\<close>

lemma find_map: "(\<And>x. P (f x) = P x) \<Longrightarrow> List.find P (map f xs) = map_option f (List.find P xs)"
  by (induction xs) auto

lemma LockProject_sql_eq: "LockProject p s \<noteq> None \<Longrightarrow> sql_eq p p"
  by (auto simp: LockProject_def sql_eq_def dest: find_in)

lemma no_active_after_deactivate: "filter (active_of p) (pd_configs (DeactivateProjectEmbeddingProviderConfigs now p s)) = []"
  by (auto simp: DeactivateProjectEmbeddingProviderConfigs_def update_configs_def filter_empty_conv active_of_def)

lemma select_config_configs [simp]:
  "pd_configs (select_config now p g s) = pd_configs s"
  "GetActiveProjectEmbeddingProviderConfig q (select_config now p g s) = GetActiveProjectEmbeddingProviderConfig q s"
  by (simp_all add: select_config_def GetActiveProjectEmbeddingProviderConfig_def)

lemma GetActive_after_deactivate [simp]:
  "GetActiveProjectEmbeddingProviderConfig p (DeactivateProjectEmbeddingProviderConfigs now p s) = None"
  by (simp add: GetActiveProjectEmbeddingProviderConfig_def no_active_after_deactivate)

lemma deactivate_projects [simp]: "pd_projects (DeactivateProjectEmbeddingProviderConfigs now p s) = pd_projects s"
  by (simp add: DeactivateProjectEmbeddingProviderConfigs_def update_configs_def)

lemma GetProjectProviderSelections_deactivate:
  "GetProjectProviderSelections p (DeactivateProjectEmbeddingProviderConfigs now q s) = GetProjectProviderSelections p s"
  by (simp add: GetProjectProviderSelections_def)

lemma selections_after_select:
  "GetProjectProviderSelections p (select_config now p g s) =
     map_option (\<lambda>r. if sql_eq (sel_ProjectID r) p then r\<lparr>sel_SelectedEmbeddingGlobalConfigID := g, sel_UpdatedAt := now\<rparr> else r)
       (GetProjectProviderSelections p s)"
  by (simp add: GetProjectProviderSelections_def select_config_def find_map)

lemma deactivate_keeps_global:
  assumes "GetEmbeddingProviderConfigByID g s = Some row" "is_global row"
  shows "GetEmbeddingProviderConfigByID g (DeactivateProjectEmbeddingProviderConfigs now p s) = Some row"
  using assms
  by (auto simp: GetEmbeddingProviderConfigByID_def DeactivateProjectEmbeddingProviderConfigs_def update_configs_def find_map
      dest: active_of_not_global)

lemma DBEmbeddingProviderConfigToDomain_cong:
  "pv_unmarshal w = pv_unmarshal v \<Longrightarrow> DBEmbeddingProviderConfigToDomain w c = DBEmbeddingProviderConfigToDomain v c"
  by (simp add: DBEmbeddingProviderConfigToDomain_def jsonBytesToMap_def)

lemma select_then_resolve:
  assumes "select_body v p g ft s = Inr (x, s')" "\<forall>n. pv_ft w n = NoFault" "pv_unmarshal w = pv_unmarshal v"
  shows "\<exists>st. resolveState w p s' = Inr st \<and> x = \<lparr>pps_Mode = rst_Mode st, pps_GlobalConfigID = rst_GlobalConfigID st, pps_Config = rst_Config st\<rparr>"
  using assms(1)
proof (rule select_body_Inr)
  fix row s1 cfg
  assume a: "LockProject p s \<noteq> None" "GetEmbeddingProviderConfigByID g s = Some row" "is_global row" "epc_IsActive row"
    "s1 = DeactivateProjectEmbeddingProviderConfigs (pv_now v) p s" "s' = select_config (pv_now v) p g s1"
    "DBEmbeddingProviderConfigToDomain v row = Inr cfg" "x = \<lparr>pps_Mode = ''global'', pps_GlobalConfigID = PgUUIDToString g, pps_Config = cfg\<rparr>"
  obtain r where r: "LockProject p s = Some r" "sql_eq (sel_ProjectID r) p" "GetProjectProviderSelections p s = Some r"
    using a(1) by (auto simp: LockProject_def GetProjectProviderSelections_def dest: find_in)
  have sel: "GetProjectProviderSelections p s' = Some (r\<lparr>sel_SelectedEmbeddingGlobalConfigID := g, sel_UpdatedAt := pv_now v\<rparr>)"
    using r(1) by (simp add: a(5,6) selections_after_select GetProjectProviderSelections_deactivate r(3,2))
  have row: "GetEmbeddingProviderConfigByID g s' = Some row"
    using deactivate_keeps_global [OF a(2,3), of "pv_now v" p] by (simp add: a(5,6) GetEmbeddingProviderConfigByID_def)
  have "uuid_Valid g" using a(2) by (auto simp: GetEmbeddingProviderConfigByID_def sql_eq_def dest: find_in)
  moreover have "DBEmbeddingProviderConfigToDomain w row = Inr cfg" using a(7) DBEmbeddingProviderConfigToDomain_cong [OF assms(3)] by simp
  moreover have "GetActiveProjectEmbeddingProviderConfig p s' = None" by (simp add: a(5,6))
  ultimately show ?thesis using sel row a(3,4,8) by (simp add: resolveState_def query_def assms(2) Let_def)
qed

lemma custom_then_resolve:
  assumes "custom_body v p req ft s = Inr (cfg, s')" "\<forall>n. pv_ft w n = NoFault" "pv_unmarshal w = pv_unmarshal v"
  shows "resolveState w p s' = Inr \<lparr>rst_Mode = ''custom'', rst_Source = ''custom'', rst_GlobalConfigID = [], rst_Config = cfg\<rparr>"
  using assms(1)
proof (rule custom_body_Inr)
  fix creds j vs c s1
  assume a: "LockProject p s \<noteq> None" "s1 = DeactivateProjectEmbeddingProviderConfigs (pv_now v) p (select_config (pv_now v) p null_UUID s)"
    "c = new_config (pv_now v) (pv_fresh v) (create_params req j creds) False False p" "s' = add_row c vs s1"
    "DBEmbeddingProviderConfigToDomain v c = Inr cfg"
  have "active_of p c" using LockProject_sql_eq [OF a(1)] by (simp add: a(3) active_of_def new_config_def)
  then have "GetActiveProjectEmbeddingProviderConfig p s' = Some c"
    by (simp add: GetActiveProjectEmbeddingProviderConfig_def a(4) add_row_def a(2) no_active_after_deactivate)
  moreover have "DBEmbeddingProviderConfigToDomain w c = Inr cfg" using a(5) DBEmbeddingProviderConfigToDomain_cong [OF assms(3)] by simp
  ultimately show ?thesis by (simp add: resolveState_def query_def assms(2))
qed

text \<open>C27: What \<^verbatim>\<open>UpdateProjectSetting\<close> answers is what \<^verbatim>\<open>GetProjectSetting\<close> then reads, whatever the project's setting was before and
  whichever attempt of the transaction committed.\<close>

theorem setting_takes_effect:
  assumes "UpdateProjectSetting v projectID req s = (Inr setting, s')"
    and "\<forall>n. pv_ft w n = NoFault" "pv_scan w = pv_scan v" "pv_unmarshal w = pv_unmarshal v"
  shows "GetProjectSetting w projectID s' = Inr setting"
proof -
  let ?req = "req\<lparr>ur_Mode := pv_lower v (TrimSpace (ur_Mode req))\<rparr>"
  obtain p where p: "pv_scan v projectID = Some p" using assms(1) by (cases "pv_scan v projectID") (auto simp: UpdateProjectSetting_def bad_def)
  consider (global) "selectGlobalConfig v p (ur_GlobalConfigID ?req) s = (Inr setting, s')"
    | (custom) cfg where "upsertCustomConfig v p ?req s = (Inr cfg, s')" "setting = \<lparr>pps_Mode = ''custom'', pps_GlobalConfigID = [], pps_Config = cfg\<rparr>"
    using assms(1) by (auto simp: UpdateProjectSetting_def p Let_def bad_def split: if_splits prod.splits sum.splits)
  then show ?thesis
  proof cases
    case global
    then obtain g where g: "WithTx (select_body v p g) (pv_fts v) s = (Inr setting, s')" by (auto simp: selectGlobalConfig_def bad_def split: option.splits)
    then obtain i where "select_body v p g (pv_fts v i) s = Inr (setting, s')" using any_tx.WithTx_Inr [OF g] by auto
    from select_then_resolve [OF this assms(2,4)] show ?thesis by (auto simp: GetProjectSetting_def assms(3) p)
  next
    case custom
    then obtain u where u: "WithTx (custom_body v p u) (pv_fts v) s = (Inr cfg, s')" by (auto simp: upsertCustomConfig_def split: sum.splits)
    then obtain i where "custom_body v p u (pv_fts v i) s = Inr (cfg, s')" using any_tx.WithTx_Inr [OF u] by auto
    from custom_then_resolve [OF this assms(2,4)] show ?thesis by (simp add: GetProjectSetting_def assms(3) p custom(2))
  qed
qed

end
