(* ===== verification/Provider_Secrets.thy ===== *)
theory Provider_Secrets
  imports Provider_Settings
begin

text \<open>
  Where the stored credentials of the embedding providers go: over the operations of \<open>Provider_Settings\<close>, a ciphertext stays
  with the provider and the endpoint it was entered for, also when configurations are replaced, patched or taken over by a new
  row; and what happens when a patch and its transaction are separated by another patch.
\<close>

section \<open>Trimming\<close>

lemma trim_lead_end: "trim_lead rs s = [] \<or> lead_len rs (trim_lead rs s) = 0"
proof (induction rs s rule: trim_lead.induct)
  case (1 rs s)
  then show ?case by (cases "s = [] \<or> lead_len rs s = 0") (simp_all add: trim_lead.simps [of rs s])
qed

lemma trim_lead_drop: "\<exists>n. trim_lead rs s = drop n s"
proof (induction rs s rule: trim_lead.induct)
  case (1 rs s)
  show ?case
  proof (cases "s = [] \<or> lead_len rs s = 0")
    case True
    then have "trim_lead rs s = drop 0 s" by (simp add: trim_lead.simps [of rs s])
    then show ?thesis ..
  next
    case False
    then obtain n where "trim_lead rs s = drop n (drop (lead_len rs s) s)" using 1 by (auto simp: trim_lead.simps [of rs s])
    then have "trim_lead rs s = drop (n + lead_len rs s) s" by simp
    then show ?thesis ..
  qed
qed

lemma lead_len_0:
  assumes "[] \<notin> set rs"
  shows "lead_len rs s = 0 \<longleftrightarrow> (\<forall>r \<in> set rs. take (length r) s \<noteq> r)"
proof (cases "List.find (\<lambda>r. take (length r) s = r) rs")
  case None
  then have "\<forall>r \<in> set rs. take (length r) s \<noteq> r" by (simp add: find_None_iff)
  then show ?thesis by (simp add: lead_len_def None)
next
  case (Some r)
  then have "r \<in> set rs \<and> take (length r) s = r" using find_in by fastforce
  moreover from this have "r \<noteq> []" using assms by auto
  ultimately show ?thesis using Some by (auto simp: lead_len_def)
qed

lemma lead_len_take:
  assumes "lead_len rs s = 0" "[] \<notin> set rs"
  shows "lead_len rs (take n s) = 0"
proof -
  have "take (length r) (take n s) \<noteq> r" if r: "r \<in> set rs" for r
  proof
    assume e: "take (length r) (take n s) = r"
    then have "length r \<le> n" by (metis length_take min.bounded_iff nat_le_linear take_all_iff)
    then have "take (length r) s = r" using e by (simp add: min_absorb1)
    then show False using assms r by (simp add: lead_len_0)
  qed
  then show ?thesis using assms(2) by (simp add: lead_len_0)
qed

lemma TrimSpace_idem: "TrimSpace (TrimSpace s) = TrimSpace s"
proof -
  define a where "a = trim_lead space_runes s"
  define b where "b = trim_lead (map rev space_runes) (rev a)"
  have ne: "[] \<notin> set space_runes" by (simp add: space_runes_def)
  obtain n where "b = drop n (rev a)" using trim_lead_drop b_def by blast
  then have r: "rev b = take (length a - n) a" by (simp add: rev_drop)
  have "a = [] \<or> lead_len space_runes a = 0" unfolding a_def by (rule trim_lead_end)
  then have "rev b = [] \<or> lead_len space_runes (rev b) = 0" using r lead_len_take [OF _ ne] by auto
  then have "trim_lead space_runes (rev b) = rev b" by (simp add: trim_lead.simps [of space_runes "rev b"])
  moreover have "trim_lead (map rev space_runes) b = b"
    using trim_lead_end [of "map rev space_runes" "rev a"] unfolding b_def by (simp add: trim_lead.simps [of _ "trim_lead _ _"])
  ultimately show ?thesis by (simp add: TrimSpace_def flip: a_def b_def)
qed

section \<open>Where a ciphertext is\<close>

text \<open>The stored ciphertexts, each with its provider and endpoint, as the service compares them; \<open>cred_update\<close> is the
  credentials part of a request, and \<open>entered\<close> the ciphertext it stores.\<close>

definition held :: "(string \<Rightarrow> string) \<Rightarrow> pdb \<Rightarrow> (string \<times> string \<times> string) set" where
  "held lower s =
     {(k, NormalizeProviderID lower (epc_Provider c), TrimSpace (epc_EndpointUrl c)) | c k.
        c \<in> set (pd_configs s) \<and> epc_CredentialsEncrypted c = Some k \<and> k \<noteq> []}"

fun cred_update :: "setting_op \<Rightarrow> CredentialsUpdate" where
  "cred_update (SetProject v p r) = ur_Credentials r"
| "cred_update (ReplaceDefault v r) = gr_Credentials r"
| "cred_update (AddGlobal v r) = gr_Credentials r"
| "cred_update (PatchGlobal v i r) = gp_Credentials r"
| "cred_update _ = no_credentials_update"

fun op_env :: "setting_op \<Rightarrow> senv" where
  "op_env (SetProject v p r) = v"
| "op_env (ResetProject v p) = v"
| "op_env (Bootstrap v r) = v"
| "op_env (ReplaceDefault v r) = v"
| "op_env (AddGlobal v r) = v"
| "op_env (PatchGlobal v i r) = v"
| "op_env (DeleteGlobal v i) = v"
| "op_env (PromoteGlobal v i) = v"

definition entered :: "setting_op \<Rightarrow> string \<Rightarrow> bool" where
  "entered op k = (cu_Set (cred_update op) \<and> ResolveCredentials (op_env op) (cred_update op) None False = Inr (Some k))"

text \<open>What the handler's parser of a request makes of credentials: absent, null, or an object; an empty object clears.\<close>

definition parsed_update :: "CredentialsUpdate \<Rightarrow> bool" where
  "parsed_update u = (cu_Set u \<longrightarrow> cu_Clear u \<or> cu_Data u \<noteq> [])"

definition keys_ok :: "pdb \<Rightarrow> bool" where
  "keys_ok s = distinct (map epc_ID (pd_configs s))"

lemma ResolveCredentials_cases:
  assumes "ResolveCredentials v u cur h = Inr creds"
  shows "\<not> cu_Set u \<and> creds = (if h then cur else None) \<or> cu_Set u \<and> ResolveCredentials v u None False = Inr creds"
  using assms by (simp add: ResolveCredentials_def split: if_splits)

lemma held_update:
  assumes "\<And>c k. c \<in> set (pd_configs s) \<Longrightarrow> P c \<Longrightarrow> epc_CredentialsEncrypted (f c) = Some k \<Longrightarrow> k \<noteq> [] \<Longrightarrow>
      (k, NormalizeProviderID lower (epc_Provider (f c)), TrimSpace (epc_EndpointUrl (f c))) \<in> held lower s \<union> X"
  shows "held lower (snd (update_configs P f s)) \<subseteq> held lower s \<union> X"
proof
  fix x assume "x \<in> held lower (snd (update_configs P f s))"
  then obtain c k where c: "c \<in> set (pd_configs s)" "epc_CredentialsEncrypted (if P c then f c else c) = Some k" "k \<noteq> []"
    "x = (k, NormalizeProviderID lower (epc_Provider (if P c then f c else c)), TrimSpace (epc_EndpointUrl (if P c then f c else c)))"
    by (auto simp: held_def update_configs_def)
  show "x \<in> held lower s \<union> X"
  proof (cases "P c")
    case True
    then show ?thesis using assms [of c k] c by simp
  next
    case False
    then show ?thesis using c by (auto simp: held_def)
  qed
qed

lemma held_intro: "c \<in> set (pd_configs s) \<Longrightarrow> epc_CredentialsEncrypted c = Some k \<Longrightarrow> k \<noteq> [] \<Longrightarrow>
    (k, NormalizeProviderID lower (epc_Provider c), TrimSpace (epc_EndpointUrl c)) \<in> held lower s"
  by (auto simp: held_def)

lemma held_add:
  "held lower (add_row c vs s) =
     held lower s \<union> {(k, NormalizeProviderID lower (epc_Provider c), TrimSpace (epc_EndpointUrl c)) | k. epc_CredentialsEncrypted c = Some k \<and> k \<noteq> []}"
  by (auto simp: held_def add_row_def)

lemma held_flags:
  assumes "\<And>c k. epc_CredentialsEncrypted (f c) = Some k \<Longrightarrow>
      epc_CredentialsEncrypted c = Some k \<and> epc_Provider (f c) = epc_Provider c \<and> epc_EndpointUrl (f c) = epc_EndpointUrl c"
  shows "held lower (snd (update_configs P f s)) \<subseteq> held lower s"
  using held_update [of s P f lower "{}"] assms held_intro by (metis Un_empty_right)

lemma held_deactivations:
  shows "held lower (DeactivateProjectEmbeddingProviderConfigs now p s) \<subseteq> held lower s"
    and "held lower (DeactivateDefaultGlobalEmbeddingProviderConfig now s) \<subseteq> held lower s"
    and "held lower (snd (DeactivateGlobalEmbeddingProviderConfigByID now i s)) \<subseteq> held lower s"
    and "held lower (DemoteGlobalEmbeddingProviderConfigDefault now s) \<subseteq> held lower s"
  unfolding DeactivateProjectEmbeddingProviderConfigs_def DeactivateDefaultGlobalEmbeddingProviderConfig_def
    DeactivateGlobalEmbeddingProviderConfigByID_def DemoteGlobalEmbeddingProviderConfigDefault_def
  by ((rule held_flags, simp)+)

lemma held_select [simp]: "held lower (select_config now p g s) = held lower s"
  by (simp add: held_def)

lemma held_versions [simp]: "held lower (s\<lparr>pd_versions := vs\<rparr>) = held lower s"
  by (simp add: held_def)

lemma held_promote:
  assumes "PromoteGlobalEmbeddingProviderConfigToDefault now i s = Inr (n, s')"
  shows "held lower s' \<subseteq> held lower s"
proof -
  have "s' = snd (update_configs (\<lambda>c. sql_eq (epc_ID c) i \<and> is_global c \<and> epc_IsActive c) (\<lambda>c. c\<lparr>epc_IsDefault := True, epc_UpdatedAt := now\<rparr>) s)"
    using assms by (auto simp: PromoteGlobalEmbeddingProviderConfigToDefault_def Let_def split: if_splits)
  moreover have "held lower (snd (update_configs (\<lambda>c. sql_eq (epc_ID c) i \<and> is_global c \<and> epc_IsActive c) (\<lambda>c. c\<lparr>epc_IsDefault := True, epc_UpdatedAt := now\<rparr>) s)) \<subseteq> held lower s"
    by (rule held_flags) simp
  ultimately show ?thesis by simp
qed


section \<open>A ciphertext stays with its endpoint\<close>

lemma validate_credentials: "validateCustomUpdateRequest v r = Inr u \<Longrightarrow> ur_Credentials u = ur_Credentials r"
  by (auto simp: validateCustomUpdateRequest_def ValidateBaseFields_def Let_def bad_def andThen_Inr split: if_splits option.splits sum.splits)

lemma held_custom:
  assumes "custom_body v p req ft s = Inr (cfg, s')" "\<forall>x. NormalizeProviderID (pv_lower v) (NormalizeProviderID (pv_lower v) x) = NormalizeProviderID (pv_lower v) x"
  shows "held (pv_lower v) s' \<subseteq> held (pv_lower v) s \<union>
    {k. cu_Set (ur_Credentials req) \<and> ResolveCredentials v (ur_Credentials req) None False = Inr (Some k)} \<times> UNIV"
  using assms(1)
proof (rule custom_body_Inr)
  fix creds j vs c s1
  assume s1: "s1 = DeactivateProjectEmbeddingProviderConfigs (pv_now v) p (select_config (pv_now v) p null_UUID s)"
    and c: "c = new_config (pv_now v) (pv_fresh v) (create_params req j creds) False False p" and s': "s' = add_row c vs s1"
    and cr: "case GetActiveProjectEmbeddingProviderConfig p s of
       None \<Rightarrow> ResolveCredentials v (ur_Credentials req) None False = Inr creds
     | Some d \<Rightarrow> ResolveCredentials v (ur_Credentials req) (epc_CredentialsEncrypted d) True = Inr creds \<and>
         (has_credentials (epc_CredentialsEncrypted d) \<and> \<not> cu_Set (ur_Credentials req) \<longrightarrow>
            ur_Provider req = NormalizeProviderID (pv_lower v) (epc_Provider d) \<and> ur_EndpointURL req = TrimSpace (epc_EndpointUrl d))"
  let ?pair = "\<lambda>k. (k, NormalizeProviderID (pv_lower v) (epc_Provider c), TrimSpace (epc_EndpointUrl c))"
  have row: "epc_CredentialsEncrypted c = creds" "epc_Provider c = ur_Provider req" "epc_EndpointUrl c = ur_EndpointURL req"
    by (simp_all add: c new_config_def create_params_def)
  have "?pair k \<in> held (pv_lower v) s" if k: "creds = Some k" "k \<noteq> []" and keep: "\<not> cu_Set (ur_Credentials req)" for k
  proof -
    obtain d where d: "GetActiveProjectEmbeddingProviderConfig p s = Some d"
      using cr k keep by (cases "GetActiveProjectEmbeddingProviderConfig p s") (auto simp: ResolveCredentials_def)
    then have "epc_CredentialsEncrypted d = Some k" using cr k keep by (simp add: ResolveCredentials_def)
    moreover have "d \<in> set (pd_configs s)" using d unfolding GetActiveProjectEmbeddingProviderConfig_def by (auto dest: newest_in)
    moreover have "ur_Provider req = NormalizeProviderID (pv_lower v) (epc_Provider d)" "ur_EndpointURL req = TrimSpace (epc_EndpointUrl d)"
      using cr d k keep \<open>epc_CredentialsEncrypted d = Some k\<close> by (auto simp: has_credentials_def)
    ultimately show ?thesis using held_intro [of d s k "pv_lower v"] k assms(2) by (simp add: row TrimSpace_idem)
  qed
  moreover have "ResolveCredentials v (ur_Credentials req) None False = Inr (Some k)" if "creds = Some k" "cu_Set (ur_Credentials req)" for k
    using cr that by (auto split: option.splits dest: ResolveCredentials_cases)
  moreover have "held (pv_lower v) s1 \<subseteq> held (pv_lower v) s" using held_deactivations(1) [of "pv_lower v" "pv_now v" p "select_config (pv_now v) p null_UUID s"] by (simp add: s1)
  ultimately show ?thesis by (auto simp: s' held_add row(1))
qed

lemma held_replace:
  assumes "replace_default_body v u j creds av ft s = Inr (cfg, s')" "validateCustomUpdateRequest v r = Inr u"
    and cr: "case GetDefaultGlobalEmbeddingProviderConfig s of
         None \<Rightarrow> ResolveCredentials v cu None False = Inr creds
       | Some d \<Rightarrow> ResolveCredentials v cu (epc_CredentialsEncrypted d) True = Inr creds \<and>
           (has_credentials (epc_CredentialsEncrypted d) \<and> \<not> cu_Set cu \<longrightarrow> ur_Provider u = epc_Provider d \<and> ur_EndpointURL u = epc_EndpointUrl d)"
  shows "held lower s' \<subseteq> held lower s \<union> {k. cu_Set cu \<and> ResolveCredentials v cu None False = Inr (Some k)} \<times> UNIV"
  using assms(1)
proof (rule replace_default_body_Inr)
  fix vs c
  assume c: "c = new_config (pv_now v) (pv_fresh v) (create_params u j creds) True av null_UUID"
    and s': "s' = add_row c vs (DeactivateDefaultGlobalEmbeddingProviderConfig (pv_now v) s)"
  let ?pair = "\<lambda>k. (k, NormalizeProviderID lower (epc_Provider c), TrimSpace (epc_EndpointUrl c))"
  have row: "epc_CredentialsEncrypted c = creds" "epc_Provider c = ur_Provider u" "epc_EndpointUrl c = ur_EndpointURL u"
    by (simp_all add: c new_config_def create_params_def)
  have "?pair k \<in> held lower s" if k: "creds = Some k" "k \<noteq> []" and keep: "\<not> cu_Set cu" for k
  proof -
    obtain d where d: "GetDefaultGlobalEmbeddingProviderConfig s = Some d"
      using cr k keep by (cases "GetDefaultGlobalEmbeddingProviderConfig s") (auto simp: ResolveCredentials_def)
    then have "epc_CredentialsEncrypted d = Some k" using cr k keep by (simp add: ResolveCredentials_def)
    moreover have "d \<in> set (pd_configs s)" using d unfolding GetDefaultGlobalEmbeddingProviderConfig_def by (auto dest: find_in)
    moreover have "ur_Provider u = epc_Provider d" "ur_EndpointURL u = epc_EndpointUrl d"
      using cr d k keep \<open>epc_CredentialsEncrypted d = Some k\<close> by (auto simp: has_credentials_def)
    ultimately show ?thesis using held_intro [of d s k lower] k by (simp add: row)
  qed
  moreover have "ResolveCredentials v cu None False = Inr (Some k)" if "creds = Some k" "cu_Set cu" for k
    using cr that by (auto split: option.splits dest: ResolveCredentials_cases)
  ultimately show ?thesis using held_deactivations(2) [of lower "pv_now v" s] by (auto simp: s' held_add row(1))
qed

lemma held_additional:
  assumes "additional_body v u j creds av ft s = Inr (cfg, s')" "ResolveCredentials v cu None False = Inr creds"
  shows "held lower s' \<subseteq> held lower s \<union> {k. cu_Set cu \<and> ResolveCredentials v cu None False = Inr (Some k)} \<times> UNIV"
  using assms(1)
proof (rule additional_body_Inr)
  fix vs c
  assume c: "c = new_config (pv_now v) (pv_fresh v) (create_params u j creds) False av null_UUID" and s': "s' = add_row c vs s"
  have "epc_CredentialsEncrypted c = creds" by (simp add: c new_config_def create_params_def)
  moreover have "cu_Set cu" if "creds = Some k" for k using assms(2) that by (auto simp: ResolveCredentials_def split: if_splits)
  ultimately show ?thesis using assms(2) by (auto simp: s' held_add)
qed

text \<open>What the checks before the transaction of a patch establish.\<close>

lemma andThenE: "andThen r k = Inr b \<Longrightarrow> (\<And>a. r = Inr a \<Longrightarrow> k a = Inr b \<Longrightarrow> P) \<Longrightarrow> P"
  by (auto simp: andThen_Inr)

lemma patch_params_Inr:
  assumes "patch_params v i r s = Inr (current, a)"
  obtains creds where "GetGlobalEmbeddingProviderConfigByID (ug_ID a) s = Some current" "epc_IsActive current"
    "ug_ClearCredentials a = (cu_Set (gp_Credentials r) \<and> cu_Clear (gp_Credentials r))"
    "ResolveCredentials v (gp_Credentials r) (epc_CredentialsEncrypted current) True = Inr creds"
    "ug_CredentialsEncrypted a = (if ug_ClearCredentials a then None else creds)"
    "has_credentials (epc_CredentialsEncrypted current) \<Longrightarrow> \<not> cu_Set (gp_Credentials r) \<Longrightarrow>
       coalesce (ug_Provider a) (epc_Provider current) = epc_Provider current \<and>
       coalesce (ug_EndpointUrl a) (epc_EndpointUrl current) = epc_EndpointUrl current"
    "patch_text (gp_EndpointURL r) ''endpoint_url'' TrimSpace = Inr (ug_EndpointUrl a)"
proof -
  have pt: "patch_text x m f = Inr y \<Longrightarrow> coalesce y d = (case x of None \<Rightarrow> d | Some z \<Rightarrow> f z)" for x m f y d
    by (auto simp: patch_text_def coalesce_def bad_def split: option.splits if_splits)
  obtain k where k: "pv_scan v i = Some k" using assms by (cases "pv_scan v i") (simp_all add: patch_params_def bad_def)
  obtain c where c: "GetGlobalEmbeddingProviderConfigByID k s = Some c"
    using assms by (cases "GetGlobalEmbeddingProviderConfigByID k s") (simp_all add: patch_params_def k missing_def andThen_Inr query_Inr)
  have q: "query (pv_ft v) ''GetGlobalEmbeddingProviderConfigByID'' (Inr (GetGlobalEmbeddingProviderConfigByID k s)) = Inr (Some c)"
    using assms by (auto simp: patch_params_def k c andThen_Inr query_Inr)
  have act: "\<not> \<not> epc_IsActive c" using assms by (cases "epc_IsActive c") (simp_all add: patch_params_def k c missing_def andThen_Inr query_Inr)
  let ?prov = "case gp_Provider r of None \<Rightarrow> epc_Provider c | Some x \<Rightarrow> NormalizeProviderID (pv_lower v) x"
  let ?url = "case gp_EndpointURL r of None \<Rightarrow> epc_EndpointUrl c | Some x \<Rightarrow> TrimSpace x"
  have reenter: "\<not> (has_credentials (epc_CredentialsEncrypted c) \<and> \<not> cu_Set (gp_Credentials r) \<and> (?prov \<noteq> epc_Provider c \<or> ?url \<noteq> epc_EndpointUrl c))"
    using assms by (simp add: patch_params_def k c act andThen_Inr query_Inr bad_def Let_def split: if_splits)
  obtain creds where cr: "ResolveCredentials v (gp_Credentials r) (epc_CredentialsEncrypted c) True = Inr creds"
      "current = c" "ug_ID a = k" "ug_ClearCredentials a = (cu_Set (gp_Credentials r) \<and> cu_Clear (gp_Credentials r))"
      "ug_CredentialsEncrypted a = (if cu_Set (gp_Credentials r) \<and> cu_Clear (gp_Credentials r) then None else creds)"
      "patch_text (gp_Provider r) ''provider'' (NormalizeProviderID (pv_lower v)) = Inr (ug_Provider a)"
      "patch_text (gp_EndpointURL r) ''endpoint_url'' TrimSpace = Inr (ug_EndpointUrl a)"
    using assms unfolding patch_params_def k option.case q andThen_simps Let_def if_not_P [OF reenter] if_not_P [OF act]
    by (elim andThenE) auto
  then show ?thesis
    using that [of creds] c act reenter pt [OF cr(6), of "epc_Provider c"] pt [OF cr(7), of "epc_EndpointUrl c"] by auto
qed

lemma keys_unique: "keys_ok s \<Longrightarrow> c \<in> set (pd_configs s) \<Longrightarrow> d \<in> set (pd_configs s) \<Longrightarrow> sql_eq (epc_ID c) i \<Longrightarrow> sql_eq (epc_ID d) i \<Longrightarrow> c = d"
  by (rule inj_onD [of epc_ID "set (pd_configs s)"]) (auto simp: keys_ok_def distinct_map sql_eq_def)

lemma held_patch:
  assumes "patch_params v i r s = Inr (current, a)" "patch_body v current a ft s = Inr (cfg, s')" "keys_ok s" "parsed_update (gp_Credentials r)"
  shows "held lower s' \<subseteq> held lower s \<union>
    {k. cu_Set (gp_Credentials r) \<and> ResolveCredentials v (gp_Credentials r) None False = Inr (Some k)} \<times> UNIV"
  using assms(1)
proof (rule patch_params_Inr)
  fix creds
  let ?u = "gp_Credentials r"
  let ?X = "{k. cu_Set ?u \<and> ResolveCredentials v ?u None False = Inr (Some k)} \<times> UNIV"
  assume cur: "GetGlobalEmbeddingProviderConfigByID (ug_ID a) s = Some current"
    and cr: "ug_ClearCredentials a = (cu_Set ?u \<and> cu_Clear ?u)" "ResolveCredentials v ?u (epc_CredentialsEncrypted current) True = Inr creds"
      "ug_CredentialsEncrypted a = (if ug_ClearCredentials a then None else creds)"
    and kept: "has_credentials (epc_CredentialsEncrypted current) \<Longrightarrow> \<not> cu_Set ?u \<Longrightarrow>
       coalesce (ug_Provider a) (epc_Provider current) = epc_Provider current \<and>
       coalesce (ug_EndpointUrl a) (epc_EndpointUrl current) = epc_EndpointUrl current"
  have in_s: "current \<in> set (pd_configs s)" "sql_eq (epc_ID current) (ug_ID a)"
    using cur unfolding GetGlobalEmbeddingProviderConfigByID_def by (auto dest: find_in)
  have "held lower (snd (update_configs (patch_hits a) (patched (pv_now v) a) s)) \<subseteq> held lower s \<union> ?X"
  proof (rule held_update)
    fix c k assume c: "c \<in> set (pd_configs s)" "patch_hits a c" and k: "epc_CredentialsEncrypted (patched (pv_now v) a c) = Some k" "k \<noteq> []"
    have [simp]: "c = current" using keys_unique [OF assms(3) c(1) in_s(1)] c(2) in_s(2) unfolding patch_hits_def by blast
    show "(k, NormalizeProviderID lower (epc_Provider (patched (pv_now v) a c)), TrimSpace (epc_EndpointUrl (patched (pv_now v) a c))) \<in> held lower s \<union> ?X"
    proof (cases "cu_Set ?u")
      case True
      then have "ResolveCredentials v ?u None False = Inr creds" using ResolveCredentials_cases [OF cr(2)] by simp
      moreover from this have "creds = Some k"
        using k True cr(1,3) assms(4)
        by (auto simp: patched_def parsed_update_def ResolveCredentials_def bad_def split: if_splits option.splits)
      ultimately show ?thesis using True by simp
    next
      case False
      then have "epc_CredentialsEncrypted current = Some k"
        using k cr ResolveCredentials_cases [OF cr(2)] by (auto simp: patched_def split: if_splits)
      then show ?thesis using kept False k(2) held_intro [OF in_s(1)] by (auto simp: patched_def has_credentials_def)
    qed
  qed
  moreover obtain vs where "s' = (snd (update_configs (patch_hits a) (patched (pv_now v) a) s))\<lparr>pd_versions := vs\<rparr>"
    using assms(2) by (rule patch_body_Inr)
  ultimately show ?thesis by simp
qed

section \<open>The keys of the configurations\<close>

lemma keys_ok_update:
  assumes "\<And>c. epc_ID (f c) = epc_ID c"
  shows "keys_ok (snd (update_configs P f s)) = keys_ok s"
proof -
  have "map epc_ID (map (\<lambda>c. if P c then f c else c) xs) = map epc_ID xs" for xs using assms by (induction xs) auto
  then show ?thesis by (simp add: keys_ok_def update_configs_def del: map_map)
qed

lemma keys_ok_updates [simp]:
  "keys_ok (select_config now p g s) = keys_ok s" "keys_ok (s\<lparr>pd_versions := vs\<rparr>) = keys_ok s"
  "keys_ok (DeactivateProjectEmbeddingProviderConfigs now p s) = keys_ok s"
  "keys_ok (DeactivateDefaultGlobalEmbeddingProviderConfig now s) = keys_ok s"
  "keys_ok (snd (DeactivateGlobalEmbeddingProviderConfigByID now i s)) = keys_ok s"
  "keys_ok (DemoteGlobalEmbeddingProviderConfigDefault now s) = keys_ok s"
  "keys_ok (snd (update_configs P (patched now a) s)) = keys_ok s"
  by (simp_all add: DeactivateProjectEmbeddingProviderConfigs_def DeactivateDefaultGlobalEmbeddingProviderConfig_def
      DeactivateGlobalEmbeddingProviderConfigByID_def DemoteGlobalEmbeddingProviderConfigDefault_def keys_ok_update patched_def)
    (simp_all add: keys_ok_def)

lemma keys_ok_add:
  assumes "keys_ok s" "config_constraints c s = None"
  shows "keys_ok (add_row c vs s)"
proof -
  have "uuid_Valid (epc_ID c)" "\<not> list_ex (\<lambda>d. sql_eq (epc_ID d) (epc_ID c)) (pd_configs s)"
    using assms(2) by (auto simp: config_constraints_def split: if_splits)
  then have "epc_ID c \<notin> epc_ID ` set (pd_configs s)" by (force simp: list_ex_iff sql_eq_def)
  then show ?thesis using assms(1) by (auto simp: keys_ok_def add_row_def)
qed

lemma keys_ok_promote:
  assumes "PromoteGlobalEmbeddingProviderConfigToDefault now i s = Inr (n, s')"
  shows "keys_ok s' = keys_ok s"
  using assms by (auto simp: PromoteGlobalEmbeddingProviderConfigToDefault_def Let_def keys_ok_update split: if_splits dest!: arg_cong [of _ _ snd])

section \<open>Histories\<close>

text \<open>The keys stay unique and no ciphertext moves, in one step.\<close>

definition stays :: "(string \<Rightarrow> string) \<Rightarrow> setting_op \<Rightarrow> pdb \<Rightarrow> pdb \<Rightarrow> bool" where
  "stays lower op s s' = (keys_ok s' \<and> held lower s' \<subseteq> held lower s \<union> {k. entered op k} \<times> UNIV)"

lemma stays_refl: "keys_ok s \<Longrightarrow> stays lower op s s"
  by (auto simp: stays_def)

lemma stays_step:
  assumes "keys_ok s" "pv_lower (op_env op) = lower" "parsed_update (cred_update op)"
    and idem: "\<forall>x. NormalizeProviderID lower (NormalizeProviderID lower x) = NormalizeProviderID lower x"
  shows "stays lower op s (setting_step op s)"
proof (cases op)
  case (SetProject v p r)
  have "stays lower op s s'" if "select_body v i g ft s = Inr (x, s')" for i g ft x s'
    using that by (rule select_body_Inr) (use held_deactivations(1) [of lower] assms(1) in \<open>auto simp: stays_def\<close>)
  moreover have "stays lower op s s'" if "validateCustomUpdateRequest v (r\<lparr>ur_Mode := m\<rparr>) = Inr u" "custom_body v i u ft s = Inr (x, s')" for i u m ft x s'
  proof -
    have "keys_ok s'" using that(2) by (rule custom_body_Inr) (use assms(1) in \<open>simp add: keys_ok_add\<close>)
    then show ?thesis using held_custom [OF that(2)] idem assms(2) validate_credentials [OF that(1)]
      by (auto simp: stays_def entered_def SetProject)
  qed
  ultimately show ?thesis using SetProject UpdateProjectSetting_state [of v p r s] stays_refl [OF assms(1)] by (metis setting_step.simps(1))
next
  case (ResetProject v p)
  have "stays lower op s s'" if "reset_body v i ft s = Inr (x, s')" for i ft x s'
    using reset_body_Inr [OF that] held_deactivations(1) [of lower "pv_now v" i "select_config (pv_now v) i null_UUID s"] assms(1)
    by (auto simp: stays_def)
  then show ?thesis using ResetProject WithTx_state [of "reset_body v _" "pv_fts v" s] stays_refl [OF assms(1)]
    by (force simp: ResetProjectSetting_def split: option.split)
next
  case (Bootstrap v r)
  show ?thesis
  proof (cases "snd (BootstrapDefaultConfig v r s) = s")
    case False
    then obtain c where c: "config_constraints c s = None" "epc_CredentialsEncrypted c = None"
      "snd (BootstrapDefaultConfig v r s) = add_row c (pd_versions s) s"
      using Bootstrap_state [of v r s] by (auto simp: add_row_def)
    show ?thesis unfolding Bootstrap setting_step.simps c(3) stays_def held_add using keys_ok_add [OF assms(1) c(1)] c(2) by simp
  qed (use Bootstrap stays_refl [OF assms(1)] in simp)
next
  case (ReplaceDefault v r)
  have step: "stays lower op s s'"
    if "validateCustomUpdateRequest v (update_req r) = Inr u" "replace_default_body v u j creds av ft s = Inr (x, s')"
      "case GetDefaultGlobalEmbeddingProviderConfig s of
         None \<Rightarrow> ResolveCredentials v (gr_Credentials r) None False = Inr creds
       | Some d \<Rightarrow> ResolveCredentials v (gr_Credentials r) (epc_CredentialsEncrypted d) True = Inr creds \<and>
           (has_credentials (epc_CredentialsEncrypted d) \<and> \<not> cu_Set (gr_Credentials r) \<longrightarrow>
              ur_Provider u = epc_Provider d \<and> ur_EndpointURL u = epc_EndpointUrl d)" for u j creds av ft x s'
  proof -
    have "keys_ok s'" using that(2) by (rule replace_default_body_Inr) (use assms(1) in \<open>simp add: keys_ok_add\<close>)
    then show ?thesis using held_replace [OF that(2,1,3)] by (auto simp: stays_def entered_def ReplaceDefault)
  qed
  have e: "setting_step op s = snd (UpdateGlobalConfig v r s)" by (simp add: ReplaceDefault)
  show ?thesis unfolding e using UpdateGlobalConfig_state [of v r s]
    by (elim disjE exE conjE) (simp_all only: stays_refl [OF assms(1)] step)
next
  case (AddGlobal v r)
  have "stays lower op s s'"
    if "additional_body v u j creds av ft s = Inr (x, s')" "ResolveCredentials v (gr_Credentials r) None False = Inr creds" for u j creds av ft x s'
  proof -
    have "keys_ok s'" using that(1) by (rule additional_body_Inr) (use assms(1) in \<open>simp add: keys_ok_add\<close>)
    then show ?thesis using held_additional [OF that] by (auto simp: stays_def entered_def AddGlobal)
  qed
  then show ?thesis using AddGlobal CreateAdditional_state [of v r s] stays_refl [OF assms(1)] by (metis setting_step.simps(5))
next
  case (PatchGlobal v i r)
  have "stays lower op s s'" if "patch_params v i r s = Inr (c, a)" "patch_body v c a ft s = Inr (x, s')" for c a ft x s'
  proof -
    have "keys_ok s'" using that(2) by (rule patch_body_Inr) (use assms(1) in simp)
    then show ?thesis using held_patch [OF that assms(1)] assms(3) by (auto simp: stays_def entered_def PatchGlobal)
  qed
  then show ?thesis using PatchGlobal UpdateGlobalConfigByID_state [of v i r s] stays_refl [OF assms(1)] by (metis setting_step.simps(6))
next
  case (DeleteGlobal v i)
  have "stays lower op s (snd (DeactivateGlobalEmbeddingProviderConfigByID now j s))" for now j
    using held_deactivations(3) [of lower now j s] assms(1) by (auto simp: stays_def)
  then show ?thesis using DeleteGlobal DeleteGlobalConfig_state [of v i s] stays_refl [OF assms(1)] by (metis setting_step.simps(7))
next
  case (PromoteGlobal v i)
  have "stays lower op s s'" if "promote_body v j ft s = Inr (x, s')" for j ft x s'
    using promote_body_Inr [OF that]
  proof
    assume "\<exists>n > 0. PromoteGlobalEmbeddingProviderConfigToDefault (pv_now v) j (DemoteGlobalEmbeddingProviderConfigDefault (pv_now v) s) = Inr (n, s')"
    then obtain n where n: "PromoteGlobalEmbeddingProviderConfigToDefault (pv_now v) j (DemoteGlobalEmbeddingProviderConfigDefault (pv_now v) s) = Inr (n, s')" by blast
    show ?thesis using held_promote [OF n, of lower] held_deactivations(4) [of lower "pv_now v" s] keys_ok_promote [OF n] assms(1)
      by (auto simp: stays_def)
  qed (simp add: stays_refl [OF assms(1)])
  then show ?thesis using PromoteGlobal Promote_state [of v i s] stays_refl [OF assms(1)] by (metis setting_step.simps(8))
qed

text \<open>C26: In every history in which each request runs as one step, a stored ciphertext is with a provider and an endpoint it was
  already with, or some request of the history has entered it: credentials are not carried to another endpoint on their own. The
  identifiers of the configurations are distinct, credentials come as the request parser gives them, and the lower-casing of
  a provider's name is the same in all requests and changes nothing when repeated. C40 is what overlapping requests do.\<close>

theorem credentials_stay_with_endpoint:
  assumes "keys_ok s" "\<forall>op \<in> set ops. pv_lower (op_env op) = lower \<and> parsed_update (cred_update op)"
    and "\<forall>x. NormalizeProviderID lower (NormalizeProviderID lower x) = NormalizeProviderID lower x"
    and "(k, provider, endpoint) \<in> held lower (fold setting_step ops s)"
  shows "(k, provider, endpoint) \<in> held lower s \<or> (\<exists>op \<in> set ops. entered op k)"
  using assms
proof (induction ops arbitrary: s)
  case (Cons op ops)
  then show ?case using stays_step [of s op lower] by (auto simp: stays_def)
qed simp

text \<open>C40: That holds when a patch is one step. The ciphertext a patch without credentials carries is the one it read before its
  transaction, and its statement writes it back: if the row has been given another endpoint in between, the old credentials are with
  the new endpoint.\<close>

theorem stale_patch_moves_credentials:
  assumes "patch_params v i r s = Inr (current, a)" "\<not> cu_Set (gp_Credentials r)" "gp_EndpointURL r = None"
    and "epc_CredentialsEncrypted current = Some k"
    and "patch_body v current a ft s' = Inr (cfg, s'')" "c \<in> set (pd_configs s')" "patch_hits a c"
  shows "\<exists>d \<in> set (pd_configs s''). epc_ID d = epc_ID c \<and> epc_EndpointUrl d = epc_EndpointUrl c \<and> epc_CredentialsEncrypted d = Some k"
  using assms(1)
proof (rule patch_params_Inr)
  fix creds
  assume p: "ug_ClearCredentials a = (cu_Set (gp_Credentials r) \<and> cu_Clear (gp_Credentials r))"
    "ResolveCredentials v (gp_Credentials r) (epc_CredentialsEncrypted current) True = Inr creds"
    "ug_CredentialsEncrypted a = (if ug_ClearCredentials a then None else creds)" "patch_text (gp_EndpointURL r) ''endpoint_url'' TrimSpace = Inr (ug_EndpointUrl a)"
  then have "ug_CredentialsEncrypted a = Some k" using assms(2,4) by (simp add: ResolveCredentials_def)
  moreover have "patched (pv_now v) a c \<in> set (pd_configs s'')"
    using assms(5) by (rule patch_body_Inr) (use assms(6,7) in \<open>auto simp: update_configs_def\<close>)
  ultimately show ?thesis using p(1,4) assms(2,3) by (intro bexI [of _ "patched (pv_now v) a c"]) (simp_all add: patched_def coalesce_def patch_text_def)
qed

text \<open>The address of a patch is only trimmed: the checks a new configuration passes are not made, and any text is stored.\<close>

lemma patch_stores_any_endpoint:
  assumes "patch_params v i r s = Inr (current, a)" "gp_EndpointURL r = Some url"
  shows "ug_EndpointUrl a = Some (TrimSpace url)"
  using assms(1) by (rule patch_params_Inr) (simp add: assms(2) patch_text_def bad_def split: if_splits)

section \<open>Examples\<close>

text \<open>A platform with a default with credentials and a shared second provider, and two projects. Identifiers are their own
  text, a JSON object is the list of its keys joined, and every address has a scheme and a host.\<close>

definition sx_id :: "string \<Rightarrow> UUID" where
  "sx_id s = \<lparr>uuid_Bytes = s, uuid_Valid = True\<rparr>"

definition sx_env :: senv where
  "sx_env = \<lparr>pv_now = 7, pv_fts = (\<lambda>_ _. NoFault), pv_ft = (\<lambda>_. NoFault), pv_fresh = sx_id ''new'', pv_fresh_version = sx_id ''ver'',
     pv_scan = (\<lambda>s. Some (sx_id s)),
     pv_url = (\<lambda>s. if s = ''nowhere'' then None
        else Some \<lparr>go_Scheme = ''http'', go_Hostname = s, go_User = False, go_RawQuery = [], go_Fragment = [], go_Port = [], go_Host = s\<rparr>),
     pv_lower = (\<lambda>s. s), pv_marshal = (\<lambda>ob. Some (concat (map fst ob))), pv_unmarshal = (\<lambda>_. Some []),
     pv_encrypt = (\<lambda>s. Some (CHR ''#'' # s)), pv_random = Some [], pv_quote = (\<lambda>s. s)\<rparr>"

definition sx_config :: "string \<Rightarrow> string option \<Rightarrow> bool \<Rightarrow> EmbeddingProviderConfig" where
  "sx_config i k d = \<lparr>epc_ID = sx_id i, epc_Name = i, epc_Provider = ''ollama'', epc_EndpointUrl = ''http://a'', epc_Model = ''m'', epc_Dimensions = 8,
     epc_MaxTokens = 100, epc_SettingsJson = ''{}'', epc_CredentialsEncrypted = k, epc_IsActive = True, epc_IsDefault = d,
     epc_IsAvailableToProjects = True, epc_ProjectID = null_UUID, epc_CreatedAt = 1, epc_UpdatedAt = 1\<rparr>"

definition sx_db :: pdb where
  "sx_db = \<lparr>pd_projects = [\<lparr>sel_ProjectID = sx_id ''p'', sel_SelectedEmbeddingGlobalConfigID = null_UUID, sel_UpdatedAt = 1\<rparr>,
       \<lparr>sel_ProjectID = sx_id ''q'', sel_SelectedEmbeddingGlobalConfigID = null_UUID, sel_UpdatedAt = 1\<rparr>],
     pd_configs = [sx_config ''a'' (Some ''#key'') True, sx_config ''b'' None False], pd_versions = []\<rparr>"

definition sx_select :: UpdateRequest where
  "sx_select = \<lparr>ur_Mode = ''global'', ur_GlobalConfigID = ''b'', ur_Name = [], ur_Provider = [], ur_EndpointURL = [], ur_Model = [], ur_Dimensions = 0,
     ur_MaxTokens = 0, ur_Settings = None, ur_Credentials = no_credentials_update\<rparr>"

definition sx_patch :: GlobalPatchRequest where
  "sx_patch = \<lparr>gp_Name = Some ''first'', gp_Provider = None, gp_EndpointURL = None, gp_Model = None, gp_Dimensions = None, gp_MaxTokens = None,
     gp_Settings = None, gp_Credentials = no_credentials_update, gp_IsAvailableToProjects = None\<rparr>"

lemma sx_default: "has_default sx_db"
  by code_simp

lemma sx_fields: "pv_fts sx_env = (\<lambda>_ _. NoFault)" "pv_scan sx_env = (\<lambda>s. Some (sx_id s))" "pv_ft sx_env = (\<lambda>_. NoFault)"
  "pv_lower sx_env = (\<lambda>s. s)" "pv_unmarshal sx_env = (\<lambda>_. Some [])"
  by (simp_all add: sx_env_def)

lemma sx_select_body: "\<not> isl (select_body sx_env (sx_id ''p'') (sx_id ''b'') (\<lambda>_. NoFault) sx_db)"
  by code_simp

lemma sx_mode: "TrimSpace (ur_Mode sx_select) = ''global''" "ur_GlobalConfigID sx_select = ''b''"
  by code_simp+

lemma sx_selects: "\<not> isl (fst (UpdateProjectSetting sx_env ''p'' sx_select sx_db))"
  using sx_select_body
  by (auto simp: UpdateProjectSetting_def selectGlobalConfig_def sx_fields sx_mode WithTx_no_fault split: sum.splits prod.splits)

lemma sx_patched:
  "case patch_params sx_env ''a'' sx_patch sx_db of
     Inl _ \<Rightarrow> False
   | Inr (current, a) \<Rightarrow>
       (case patch_body sx_env current a (\<lambda>_. NoFault) sx_db of
          Inl _ \<Rightarrow> False
        | Inr (_, s) \<Rightarrow> list_ex (\<lambda>c. epc_CredentialsEncrypted c = Some ''#key'' \<and> NormalizeProviderID (\<lambda>s. s) (epc_Provider c) = ''ollama'' \<and>
            TrimSpace (epc_EndpointUrl c) = ''http://a'' \<and> epc_Name c = ''first'') (pd_configs s))"
  by code_simp

lemma sx_held: "(''#key'', ''ollama'', ''http://a'') \<in> held (\<lambda>s. s) (setting_step (PatchGlobal sx_env ''a'' sx_patch) sx_db)"
proof -
  have "list_ex (\<lambda>c. epc_CredentialsEncrypted c = Some ''#key'' \<and> NormalizeProviderID (\<lambda>s. s) (epc_Provider c) = ''ollama'' \<and>
      TrimSpace (epc_EndpointUrl c) = ''http://a'' \<and> epc_Name c = ''first'') (pd_configs (setting_step (PatchGlobal sx_env ''a'' sx_patch) sx_db))"
    using sx_patched by (auto simp: UpdateGlobalConfigByID_def sx_fields WithTx_no_fault split: sum.splits)
  then show ?thesis by (force simp: list_ex_iff held_def)
qed

theorem credentials_stay_with_endpoint_witness:
  "(''#key'', ''ollama'', ''http://a'') \<in> held (\<lambda>s. s) sx_db \<or> (\<exists>op \<in> set [PatchGlobal sx_env ''a'' sx_patch]. entered op ''#key'')"
proof (rule credentials_stay_with_endpoint [of sx_db])
  show "keys_ok sx_db" by (simp add: keys_ok_def sx_db_def sx_config_def sx_id_def)
  show "\<forall>op \<in> set [PatchGlobal sx_env ''a'' sx_patch]. pv_lower (op_env op) = (\<lambda>s. s) \<and> parsed_update (cred_update op)"
    by (simp add: sx_fields sx_patch_def parsed_update_def no_credentials_update_def)
  show "(''#key'', ''ollama'', ''http://a'') \<in> held (\<lambda>s. s) (fold setting_step [PatchGlobal sx_env ''a'' sx_patch] sx_db)"
    using sx_held by simp
qed (simp add: NormalizeProviderID_def TrimSpace_idem)

theorem platform_keeps_default_provider_witness:
  "has_default (fold setting_step [DeleteGlobal sx_env ''a'', PatchGlobal sx_env ''a'' sx_patch, PromoteGlobal sx_env ''b''] sx_db)"
  by (rule platform_keeps_default_provider [OF sx_default])

theorem every_project_resolves_witness:
  "\<exists>st. resolveState sx_env (sx_id ''q'') (fold setting_step [SetProject sx_env ''p'' sx_select] sx_db) = Inr st \<and> dec_IsActive (rst_Config st)"
  by (rule every_project_resolves [OF sx_default _ refl])
    (simp_all add: project_ids_def sx_db_def sql_eq_def sx_id_def sx_fields jsonBytesToMap_def)

theorem setting_takes_effect_witness:
  "\<exists>setting s'. UpdateProjectSetting sx_env ''p'' sx_select sx_db = (Inr setting, s') \<and> GetProjectSetting sx_env ''p'' s' = Inr setting"
proof -
  obtain setting s' where u: "UpdateProjectSetting sx_env ''p'' sx_select sx_db = (Inr setting, s')"
    using sx_selects by (cases "UpdateProjectSetting sx_env ''p'' sx_select sx_db"; cases "fst (UpdateProjectSetting sx_env ''p'' sx_select sx_db)") auto
  from setting_takes_effect [OF u, of sx_env] u show ?thesis by (auto simp: sx_fields)
qed

text \<open>A request that moves the first configuration to another endpoint and clears its credentials.\<close>

definition sx_move :: GlobalPatchRequest where
  "sx_move = sx_patch\<lparr>gp_EndpointURL := Some ''http://b'', gp_Credentials := \<lparr>cu_Set = True, cu_Clear = True, cu_Data = []\<rparr>\<rparr>"

lemma sx_stale:
  "case patch_params sx_env ''a'' sx_patch sx_db of
     Inl _ \<Rightarrow> False
   | Inr (current, a) \<Rightarrow> epc_CredentialsEncrypted current = Some ''#key'' \<and>
       (case patch_params sx_env ''a'' sx_move sx_db of
          Inl _ \<Rightarrow> False
        | Inr (current', a') \<Rightarrow>
            (case patch_body sx_env current' a' (\<lambda>_. NoFault) sx_db of
               Inl _ \<Rightarrow> False
             | Inr (_, s') \<Rightarrow> list_ex (\<lambda>c. patch_hits a c \<and> epc_EndpointUrl c = ''http://b'' \<and> epc_CredentialsEncrypted c = None) (pd_configs s') \<and>
                 \<not> isl (patch_body sx_env current a (\<lambda>_. NoFault) s')))"
  by code_simp

theorem stale_patch_moves_credentials_witness:
  "\<exists>current a moved s' cfg s''. patch_params sx_env ''a'' sx_patch sx_db = Inr (current, a) \<and>
     patch_params sx_env ''a'' sx_move sx_db = Inr moved \<and> patch_body sx_env (fst moved) (snd moved) (\<lambda>_. NoFault) sx_db = Inr (cfg, s') \<and>
     (\<exists>cfg. patch_body sx_env current a (\<lambda>_. NoFault) s' = Inr (cfg, s'')) \<and>
     (\<exists>d \<in> set (pd_configs s''). epc_EndpointUrl d = ''http://b'' \<and> epc_CredentialsEncrypted d = Some ''#key'')"
proof -
  obtain current a where p: "patch_params sx_env ''a'' sx_patch sx_db = Inr (current, a)" "epc_CredentialsEncrypted current = Some ''#key''"
    using sx_stale by (cases "patch_params sx_env ''a'' sx_patch sx_db") auto
  obtain current' a' where p': "patch_params sx_env ''a'' sx_move sx_db = Inr (current', a')"
    using sx_stale p by (cases "patch_params sx_env ''a'' sx_move sx_db") auto
  obtain cfg s' where b': "patch_body sx_env current' a' (\<lambda>_. NoFault) sx_db = Inr (cfg, s')"
    using sx_stale p p' by (cases "patch_body sx_env current' a' (\<lambda>_. NoFault) sx_db") auto
  obtain c where c: "c \<in> set (pd_configs s')" "patch_hits a c" "epc_EndpointUrl c = ''http://b''"
    using sx_stale p p' b' by (auto simp: list_ex_iff)
  obtain cfg' s'' where b: "patch_body sx_env current a (\<lambda>_. NoFault) s' = Inr (cfg', s'')"
    using sx_stale p p' b' by (cases "patch_body sx_env current a (\<lambda>_. NoFault) s'") auto
  have "\<not> cu_Set (gp_Credentials sx_patch)" "gp_EndpointURL sx_patch = None" by (simp_all add: sx_patch_def no_credentials_update_def)
  from stale_patch_moves_credentials [OF p(1) this p(2) b c(1,2)] c(3) p(1) p' b' b show ?thesis by fastforce
qed

end
