(* ===== verification/Job_Request.thy ===== *)
theory Job_Request
  imports Incremental_Index Provider_Secrets Validate Job_Reaper
begin

text \<open>
  The way of an indexing job: the request (\<^verbatim>\<open>HandleIndex\<close> of \<^verbatim>\<open>src/backend-api/internal/handler/project.go\<close>), the task in the
  queue (\<^verbatim>\<open>src/backend-api/internal/queue/publisher.go\<close>), and the worker that takes it
  (\<^verbatim>\<open>src/backend-worker/internal/queue/consumer.go\<close>, \<^verbatim>\<open>workflow/dispatcher.go\<close>) and gives it to the handlers of \<open>Full_Index\<close>
  and \<open>Incremental_Index\<close>.

  Parameters: what the JSON decoders make of a body and of a payload, the language-model configuration (only read), and whether
  the queue takes a task: \<open>rq_enqueue\<close> is its error, if any, and whether the task is in the queue all the same.
\<close>

section \<open>The queue\<close>

record taskPayload =
  tp_JobID :: string
  tp_Workflow :: string
  tp_EnqueuedAt :: string
  tp_ProjectID :: string
  tp_RequestedBy :: string

record queue_task =
  qt_type :: string
  qt_payload :: string
  qt_timeout :: int
  qt_maxRetry :: int

record PublisherConfig =
  pc_IndexFullTimeout :: int
  pc_IndexIncrementalTimeout :: int
  pc_MaxRetries :: int

definition payload_json :: "taskPayload \<Rightarrow> string" where
  "payload_json p = json_object ([(''job_id'', json_string (tp_JobID p)), (''workflow'', json_string (tp_Workflow p)),
     (''enqueued_at'', json_string (tp_EnqueuedAt p))] @ omitempty ''project_id'' (tp_ProjectID p) @ omitempty ''requested_by'' (tp_RequestedBy p))"

definition MapJobTypeToWorkflow :: "string \<Rightarrow> string option" where
  "MapJobTypeToWorkflow jobType =
     (if jobType = ''full'' then Some ''full-index''
      else if jobType = ''incremental'' then Some ''incremental-index''
      else None)"

text \<open>A nil publisher or client is \<open>None\<close>: nothing is queued and nothing fails.\<close>

definition EnqueueIndexJob ::
  "PublisherConfig option \<Rightarrow> (string \<times> bool) option \<Rightarrow> string \<Rightarrow> string \<Rightarrow> string \<Rightarrow> string \<Rightarrow> string \<Rightarrow> queue_task list \<Rightarrow> string option \<times> queue_task list" where
  "EnqueueIndexJob publisher fault now jobID workflow projectID requestedBy queue =
     (case publisher of
        None \<Rightarrow> (None, queue)
      | Some cfg \<Rightarrow>
          (let data = payload_json \<lparr>tp_JobID = jobID, tp_Workflow = workflow, tp_EnqueuedAt = now, tp_ProjectID = projectID,
                                    tp_RequestedBy = requestedBy\<rparr>;
               timeout = (if workflow = ''incremental-index'' then pc_IndexIncrementalTimeout cfg else pc_IndexFullTimeout cfg);
               queued = queue @ [\<lparr>qt_type = workflow, qt_payload = data, qt_timeout = timeout, qt_maxRetry = pc_MaxRetries cfg\<rparr>]
           in case fault of
                None \<Rightarrow> (None, queued)
              | Some (msg, taken) \<Rightarrow> (Some (''queue: enqueue '' @ workflow @ '': '' @ msg), if taken then queued else queue)))"

section \<open>The request\<close>

datatype index_body = No_body | Empty_body | Body_too_large | Bad_body | Job_type string

record ssh_assignment =
  psa_ProjectID :: UUID
  psa_SshKeyID :: UUID
  psa_IsActive :: bool

record api_world =
  aw_settings :: pdb
  aw_jobs :: jdb
  aw_assignments :: "ssh_assignment list"
  aw_queue :: "queue_task list"

record index_req =
  rq_projectID :: string
  rq_body :: index_body
  rq_user :: "string option"
  rq_keyType :: "string option"
  rq_env :: senv
  rq_fresh :: UUID
  rq_llm :: "db_error + string"
  rq_publisher :: "PublisherConfig option"
  rq_enqueue :: "(string \<times> bool) option"
  rq_stamp :: string

definition GetProjectSSHKeyAssignment :: "UUID \<Rightarrow> ssh_assignment list \<Rightarrow> ssh_assignment option" where
  "GetProjectSSHKeyAssignment p rows = List.find (\<lambda>r. sql_eq (psa_ProjectID r) p \<and> psa_IsActive r) rows"

definition active_job :: "UUID \<Rightarrow> string \<Rightarrow> IndexingJob \<Rightarrow> bool" where
  "active_job p jobType j = (sql_eq (job_ProjectID j) p \<and> job_JobType j = jobType \<and> job_Status j \<in> {''queued'', ''running''})"

definition later_job :: "IndexingJob \<Rightarrow> IndexingJob \<Rightarrow> bool" where
  "later_job a b = (let t = (\<lambda>j. case job_CreatedAt j of None \<Rightarrow> 0 | Some t \<Rightarrow> t)
     in t b < t a \<or> t b = t a \<and> uuid_Bytes (job_ID b) < uuid_Bytes (job_ID a))"

fun latest_job :: "IndexingJob list \<Rightarrow> IndexingJob option" where
  "latest_job [] = None"
| "latest_job (j # js) = (case latest_job js of None \<Rightarrow> Some j | Some k \<Rightarrow> if later_job k j then Some k else Some j)"

definition FindActiveIndexingJobForProjectAndType :: "UUID \<Rightarrow> string \<Rightarrow> jdb \<Rightarrow> IndexingJob option" where
  "FindActiveIndexingJobForProjectAndType p jobType s = latest_job (filter (active_job p jobType) (db_jobs s))"

definition parseProjectID :: "(string \<Rightarrow> UUID option) \<Rightarrow> string \<Rightarrow> AppError + UUID" where
  "parseProjectID scan idStr =
     (let errs = snd (val_UUID idStr ''project_id'' Map.empty)
      in if HasErrors errs then Inl (ToAppError errs)
         else case scan idStr of None \<Rightarrow> Inl ErrInternal | Some i \<Rightarrow> Inr i)"

definition resolveRequestedBy :: "index_req \<Rightarrow> string" where
  "resolveRequestedBy q =
     (case rq_user q of
        Some u \<Rightarrow> ''user:'' @ u
      | None \<Rightarrow> (case rq_keyType q of Some k \<Rightarrow> ''api-key:'' @ k | None \<Rightarrow> []))"

definition body_job_type :: "index_body \<Rightarrow> AppError + string" where
  "body_job_type b =
     (case b of
        No_body \<Rightarrow> Inr ''full''
      | Empty_body \<Rightarrow> Inr ''full''
      | Body_too_large \<Rightarrow> Inl ErrPayloadTooLarge
      | Bad_body \<Rightarrow> Inl (BadRequest ''invalid JSON body'')
      | Job_type t \<Rightarrow> Inr (if t \<noteq> [] then t else ''full''))"

definition is_not_found :: "db_error \<Rightarrow> bool" where
  "is_not_found e = (case e of App a \<Rightarrow> err_Status a = 404 | _ \<Rightarrow> False)"

text \<open>What a request asks for once it is checked: project, job type, workflow and the two configurations.\<close>

record index_order =
  io_ProjectID :: UUID
  io_JobType :: string
  io_Workflow :: string
  io_EmbeddingConfigID :: UUID
  io_LlmConfigID :: UUID

definition index_checks :: "index_req \<Rightarrow> api_world \<Rightarrow> AppError + index_order" where
  "index_checks q s =
     (let v = rq_env q
      in andThen (parseProjectID (pv_scan v) (rq_projectID q)) (\<lambda>projectID.
         andThen (body_job_type (rq_body q)) (\<lambda>jobType.
           case MapJobTypeToWorkflow jobType of
             None \<Rightarrow> Inl (ValidationError [''job_type'' \<mapsto> ''must be \"full\" or \"incremental\"''])
           | Some workflow \<Rightarrow>
               (case query (pv_ft v) ''GetProjectSSHKeyAssignment'' (Inr (GetProjectSSHKeyAssignment projectID (aw_assignments s))) of
                  Inl _ \<Rightarrow> Inl ErrInternal
                | Inr None \<Rightarrow> Inl (Conflict ''project has no active SSH key assignment'')
                | Inr (Some _) \<Rightarrow>
                    (case GetResolvedConfig v (rq_projectID q) (aw_settings s) of
                       Inl e \<Rightarrow> Inl (if is_not_found e then Conflict ''project has no embedding provider configured'' else ErrInternal)
                     | Inr (_, cfg) \<Rightarrow>
                         (case pv_scan v (dec_ID cfg) of
                            None \<Rightarrow> Inl ErrInternal
                          | Some emb \<Rightarrow>
                              Inr \<lparr>io_ProjectID = projectID, io_JobType = jobType, io_Workflow = workflow, io_EmbeddingConfigID = emb,
                                   io_LlmConfigID = (case rq_llm q of Inl _ \<Rightarrow> null_UUID
                                                     | Inr i \<Rightarrow> (case pv_scan v i of None \<Rightarrow> null_UUID | Some l \<Rightarrow> l))\<rparr>))))))"

definition find_active :: "index_req \<Rightarrow> index_order \<Rightarrow> api_world \<Rightarrow> AppError + IndexingJob option" where
  "find_active q d s =
     (case query (pv_ft (rq_env q)) ''FindActiveIndexingJobForProjectAndType''
             (Inr (FindActiveIndexingJobForProjectAndType (io_ProjectID d) (io_JobType d) (aw_jobs s))) of
        Inl _ \<Rightarrow> Inl ErrInternal
      | Inr r \<Rightarrow> Inr r)"

definition enqueue_details :: "string \<Rightarrow> string \<Rightarrow> string" where
  "enqueue_details stamp msg =
     ''['' @ json_map [(''stage'', ''enqueue''), (''message'', ''failed to enqueue to Redis: '' @ msg), (''timestamp'', stamp)] @ '']''"

definition create_and_enqueue :: "index_req \<Rightarrow> index_order \<Rightarrow> api_world \<Rightarrow> (AppError + IndexingJob) \<times> api_world" where
  "create_and_enqueue q d s =
     (let v = rq_env q
      in case exec_query (pv_ft v) ''CreateIndexingJob''
                (Inr (CreateIndexingJob (pv_now v) (rq_fresh q) (io_ProjectID d) null_UUID (io_JobType d) (io_EmbeddingConfigID d) (io_LlmConfigID d)
                   (aw_jobs s))) (aw_jobs s) of
           (Inl _, j) \<Rightarrow> (Inl ErrInternal, s\<lparr>aw_jobs := j\<rparr>)
         | (Inr job, j) \<Rightarrow>
             (case EnqueueIndexJob (rq_publisher q) (rq_enqueue q) (rq_stamp q) (PgUUIDToString (job_ID job)) (io_Workflow d) (rq_projectID q)
                     (resolveRequestedBy q) (aw_queue s) of
                (None, qu) \<Rightarrow> (Inr job, s\<lparr>aw_jobs := j, aw_queue := qu\<rparr>)
              | (Some msg, qu) \<Rightarrow>
                  (let j' = snd (exec_query (pv_ft v) ''SetIndexingJobFailed''
                             (Inr (SetIndexingJobFailed (pv_now v) (job_ID job) (enqueue_details (rq_stamp q) (take 256 msg)) j)) j)
                   in (Inl ErrInternal, s\<lparr>aw_jobs := j', aw_queue := qu\<rparr>))))"

definition HandleIndex :: "index_req \<Rightarrow> api_world \<Rightarrow> (AppError + IndexingJob) \<times> api_world" where
  "HandleIndex q s =
     (case index_checks q s of
        Inl e \<Rightarrow> (Inl e, s)
      | Inr d \<Rightarrow>
          (case find_active q d s of
             Inl e \<Rightarrow> (Inl e, s)
           | Inr (Some job) \<Rightarrow> (Inr job, s)
           | Inr None \<Rightarrow> create_and_enqueue q d s))"

section \<open>The worker\<close>

definition DecodeWorkflowTask :: "(string \<Rightarrow> string + WorkflowTask) \<Rightarrow> string \<Rightarrow> string + WorkflowTask" where
  "DecodeWorkflowTask unmarshal payload =
     (if payload = [] then Inl ''consumer: empty payload''
      else case unmarshal payload of
        Inl x \<Rightarrow> Inl (''consumer: decode payload: '' @ x)
      | Inr task \<Rightarrow>
          if wt_JobID task = [] then Inl ''consumer: missing required field job_id''
          else if wt_Workflow task = [] then Inl ''consumer: missing required field workflow''
          else if wt_EnqueuedAt task = [] then Inl ''consumer: missing required field enqueued_at''
          else Inr task)"

text \<open>\<open>reg\<close> is the registry of the worker, if it has one; the deferred \<^verbatim>\<open>ClearJob\<close> runs after the handler.\<close>

definition wrapHandler ::
  "(string \<Rightarrow> string + WorkflowTask) \<Rightarrow> string \<Rightarrow> (WorkflowTask \<Rightarrow> 'w \<Rightarrow> ((string + unit) \<times> 'w) option) \<Rightarrow> Registry option \<Rightarrow> string \<Rightarrow> 'w \<Rightarrow>
   ((string + unit) \<times> 'w \<times> Registry option) option" where
  "wrapHandler unmarshal name h reg payload w =
     (case DecodeWorkflowTask unmarshal payload of
        Inl x \<Rightarrow> Some (Inl (''consumer: '' @ name @ '': '' @ x), w, reg)
      | Inr task \<Rightarrow>
          if wt_Workflow task \<noteq> name then Some (Inl (''consumer: '' @ name @ '': workflow mismatch: payload='' @ wt_Workflow task), w, reg)
          else
            (case reg of
               None \<Rightarrow> map_option (\<lambda>(r, w'). (r, w', None)) (h task w)
             | Some rg \<Rightarrow>
                 map_option (\<lambda>(r, w'). (r, w', Some (ClearJob (wt_JobID task) (SetBusy (wt_JobID task) (wt_ProjectID task) rg))))
                   (h (task\<lparr>wt_WorkerID := reg_workerID rg\<rparr>) w)))"

definition Dispatcher_Register :: "string \<Rightarrow> 'h \<Rightarrow> (string \<rightharpoonup> 'h) \<Rightarrow> string \<rightharpoonup> 'h" where
  "Dispatcher_Register workflow h handlers = handlers(workflow \<mapsto> h)"

definition worker_handlers :: "'f henv \<Rightarrow> 'f ienv \<Rightarrow> string \<rightharpoonup> (WorkflowTask \<Rightarrow> 'f world \<Rightarrow> ((string + unit) \<times> 'f world) option)" where
  "worker_handlers e v =
     Dispatcher_Register ''incremental-index'' (inc_Handle v) (Dispatcher_Register ''full-index'' (Handle e) Map.empty)"

text \<open>The mux gives a task to the handler registered under its type.\<close>

definition BuildServeMux ::
  "(string \<Rightarrow> string + WorkflowTask) \<Rightarrow> (string \<rightharpoonup> (WorkflowTask \<Rightarrow> 'w \<Rightarrow> ((string + unit) \<times> 'w) option)) \<Rightarrow> Registry option \<Rightarrow> queue_task \<Rightarrow> 'w \<Rightarrow>
   ((string + unit) \<times> 'w \<times> Registry option) option" where
  "BuildServeMux unmarshal handlers reg t w =
     (case handlers (qt_type t) of
        None \<Rightarrow> Some (Inl (''handler not found for task '' @ qt_type t), w, reg)
      | Some h \<Rightarrow> wrapHandler unmarshal (qt_type t) h reg (qt_payload t) w)"

section \<open>What a request does\<close>

lemma latest_in: "latest_job js = Some j \<Longrightarrow> j \<in> set js"
  by (induction js arbitrary: j) (auto split: option.splits if_splits)

lemma latest_None [simp]: "latest_job js = None \<longleftrightarrow> js = []"
  by (cases js) (auto split: option.split)

lemma find_active_Some:
  "find_active q d s = Inr (Some j) \<Longrightarrow> j \<in> set (db_jobs (aw_jobs s)) \<and> active_job (io_ProjectID d) (io_JobType d) j"
  by (auto simp: find_active_def FindActiveIndexingJobForProjectAndType_def query_Inr dest!: latest_in split: sum.splits)

lemma find_active_None:
  "find_active q d s = Inr None \<Longrightarrow> filter (active_job (io_ProjectID d) (io_JobType d)) (db_jobs (aw_jobs s)) = []"
  by (auto simp: find_active_def FindActiveIndexingJobForProjectAndType_def query_Inr split: sum.splits)

text \<open>The job an order creates, and its task.\<close>

definition ordered_job :: "index_req \<Rightarrow> index_order \<Rightarrow> IndexingJob" where
  "ordered_job q d =
     fst (CreateIndexingJob (pv_now (rq_env q)) (rq_fresh q) (io_ProjectID d) null_UUID (io_JobType d) (io_EmbeddingConfigID d) (io_LlmConfigID d)
       \<lparr>db_jobs = [], db_snaps = [], db_files = []\<rparr>)"

definition index_payload :: "index_req \<Rightarrow> string \<Rightarrow> taskPayload" where
  "index_payload q workflow = \<lparr>tp_JobID = PgUUIDToString (rq_fresh q), tp_Workflow = workflow, tp_EnqueuedAt = rq_stamp q,
     tp_ProjectID = rq_projectID q, tp_RequestedBy = resolveRequestedBy q\<rparr>"

lemma CreateIndexingJob_ordered:
  "CreateIndexingJob (pv_now (rq_env q)) (rq_fresh q) (io_ProjectID d) null_UUID (io_JobType d) (io_EmbeddingConfigID d) (io_LlmConfigID d) j =
     (ordered_job q d, j\<lparr>db_jobs := db_jobs j @ [ordered_job q d]\<rparr>)"
  by (simp add: ordered_job_def CreateIndexingJob_def Let_def)

lemma ordered_job_simps [simp]:
  "job_ID (ordered_job q d) = rq_fresh q" "job_ProjectID (ordered_job q d) = io_ProjectID d" "job_JobType (ordered_job q d) = io_JobType d"
  "job_Status (ordered_job q d) = ''queued''" "job_EmbeddingProviderConfigID (ordered_job q d) = io_EmbeddingConfigID d"
  by (simp_all add: ordered_job_def CreateIndexingJob_def Let_def)

definition fail_created :: "index_req \<Rightarrow> string \<Rightarrow> IndexingJob \<Rightarrow> IndexingJob" where
  "fail_created q msg j = j\<lparr>job_Status := ''failed'', job_ErrorDetails := enqueue_details (rq_stamp q) (take 256 msg), job_FinishedAt := Some (pv_now (rq_env q))\<rparr>"

lemma SetIndexingJobFailed_new:
  assumes "new_job_id i s" "sql_eq i i" "job_ID j = i"
  shows "snd (SetIndexingJobFailed now i det (s\<lparr>db_jobs := db_jobs s @ [j]\<rparr>)) =
    s\<lparr>db_jobs := db_jobs s @ [j\<lparr>job_Status := ''failed'', job_ErrorDetails := det, job_FinishedAt := Some now\<rparr>]\<rparr>"
proof -
  have "update_rows (\<lambda>k. sql_eq (job_ID k) i) f (db_jobs s) = db_jobs s" for f
    using assms(1) by (simp add: update_rows_def new_job_id_def map_idI)
  then show ?thesis using assms(2,3) by (simp add: SetIndexingJobFailed_def update_jobs_def update_rows_def)
qed

text \<open>The three ways of an order: nothing was created, the job is queued, or it was created and the queue refused its task.\<close>

lemma create_and_enqueue_cases:
  assumes "create_and_enqueue q d s = (r, s')" "new_job_id (rq_fresh q) (aw_jobs s)" "uuid_Valid (rq_fresh q)"
  obtains (none) "r = Inl ErrInternal" "s' = s" "pv_ft (rq_env q) ''CreateIndexingJob'' \<notin> {NoFault, LostAnswer}"
  | (lost) "r = Inl ErrInternal" "s' = s\<lparr>aw_jobs := (aw_jobs s)\<lparr>db_jobs := db_jobs (aw_jobs s) @ [ordered_job q d]\<rparr>\<rparr>" "pv_ft (rq_env q) ''CreateIndexingJob'' = LostAnswer"
  | (queued) qu where "r = Inr (ordered_job q d)"
      "s' = s\<lparr>aw_jobs := (aw_jobs s)\<lparr>db_jobs := db_jobs (aw_jobs s) @ [ordered_job q d]\<rparr>, aw_queue := qu\<rparr>"
      "case rq_publisher q of None \<Rightarrow> qu = aw_queue s
       | Some cfg \<Rightarrow> \<exists>to. qu = aw_queue s @ [\<lparr>qt_type = io_Workflow d, qt_payload = payload_json (index_payload q (io_Workflow d)), qt_timeout = to, qt_maxRetry = pc_MaxRetries cfg\<rparr>]"
  | (refused) j qu msg where "r = Inl ErrInternal" "s' = s\<lparr>aw_jobs := (aw_jobs s)\<lparr>db_jobs := db_jobs (aw_jobs s) @ [j]\<rparr>, aw_queue := qu\<rparr>"
      "j = fail_created q msg (ordered_job q d) \<or> j = ordered_job q d \<and> pv_ft (rq_env q) ''SetIndexingJobFailed'' \<notin> {NoFault, LostAnswer}"
proof -
  let ?v = "rq_env q" and ?j = "(aw_jobs s)\<lparr>db_jobs := db_jobs (aw_jobs s) @ [ordered_job q d]\<rparr>"
  let ?E = "EnqueueIndexJob (rq_publisher q) (rq_enqueue q) (rq_stamp q) (PgUUIDToString (rq_fresh q)) (io_Workflow d) (rq_projectID q) (resolveRequestedBy q) (aw_queue s)"
  have eq: "sql_eq (rq_fresh q) (rq_fresh q)" using assms(3) by (simp add: sql_eq_def)
  consider (a) "pv_ft ?v ''CreateIndexingJob'' \<notin> {NoFault, LostAnswer}" | (b) "pv_ft ?v ''CreateIndexingJob'' = LostAnswer"
    | (c) "pv_ft ?v ''CreateIndexingJob'' = NoFault" by blast
  then show ?thesis
  proof cases
    case a
    then show ?thesis using assms(1) none
      by (cases "pv_ft ?v ''CreateIndexingJob''") (auto simp: create_and_enqueue_def CreateIndexingJob_ordered exec_query_def query_def)
  next
    case b
    then show ?thesis using assms(1) lost by (auto simp: create_and_enqueue_def CreateIndexingJob_ordered exec_query_def query_def)
  next
    case c
    obtain x qu where x: "?E = (x, qu)" by (cases ?E)
    show ?thesis
    proof (cases x)
      case None
      have "case rq_publisher q of None \<Rightarrow> qu = aw_queue s
       | Some cfg \<Rightarrow> \<exists>to. qu = aw_queue s @ [\<lparr>qt_type = io_Workflow d, qt_payload = payload_json (index_payload q (io_Workflow d)), qt_timeout = to, qt_maxRetry = pc_MaxRetries cfg\<rparr>]"
        using x None by (auto simp: EnqueueIndexJob_def index_payload_def Let_def split: option.splits)
      moreover have "r = Inr (ordered_job q d)" "s' = s\<lparr>aw_jobs := ?j, aw_queue := qu\<rparr>"
        using assms(1) c x None by (simp_all add: create_and_enqueue_def CreateIndexingJob_ordered exec_query_def query_def)
      ultimately show ?thesis using queued by blast
    next
      case (Some msg)
      have "SetIndexingJobFailed (pv_now ?v) (rq_fresh q) (enqueue_details (rq_stamp q) (take 256 msg)) ?j =
          (fst (SetIndexingJobFailed (pv_now ?v) (rq_fresh q) (enqueue_details (rq_stamp q) (take 256 msg)) ?j),
           (aw_jobs s)\<lparr>db_jobs := db_jobs (aw_jobs s) @ [fail_created q msg (ordered_job q d)]\<rparr>)"
        using SetIndexingJobFailed_new [OF assms(2) eq, of "ordered_job q d"] by (simp add: prod_eq_iff fail_created_def)
      then obtain n where n: "SetIndexingJobFailed (pv_now ?v) (rq_fresh q) (enqueue_details (rq_stamp q) (take 256 msg)) ?j =
          (n, (aw_jobs s)\<lparr>db_jobs := db_jobs (aw_jobs s) @ [fail_created q msg (ordered_job q d)]\<rparr>)" by blast
      have "r = Inl ErrInternal \<and> s' = s\<lparr>aw_jobs := (if pv_ft ?v ''SetIndexingJobFailed'' \<in> {NoFault, LostAnswer}
          then (aw_jobs s)\<lparr>db_jobs := db_jobs (aw_jobs s) @ [fail_created q msg (ordered_job q d)]\<rparr> else ?j), aw_queue := qu\<rparr>"
        using assms(1) c x Some by (auto simp: create_and_enqueue_def CreateIndexingJob_ordered exec_query_def query_def n)
      then show ?thesis using refused [where qu = qu and msg = msg and j = "if pv_ft ?v ''SetIndexingJobFailed'' \<in> {NoFault, LostAnswer} then fail_created q msg (ordered_job q d) else ordered_job q d"]
        by (simp split: if_splits)
    qed
  qed
qed

lemma index_checks_Inr:
  assumes "index_checks q s = Inr d"
  obtains src cfg where "pv_scan (rq_env q) (rq_projectID q) = Some (io_ProjectID d)" "MapJobTypeToWorkflow (io_JobType d) = Some (io_Workflow d)"
    "GetResolvedConfig (rq_env q) (rq_projectID q) (aw_settings s) = Inr (src, cfg)" "pv_scan (rq_env q) (dec_ID cfg) = Some (io_EmbeddingConfigID d)"
    "GetProjectSSHKeyAssignment (io_ProjectID d) (aw_assignments s) \<noteq> None"
proof -
  let ?v = "rq_env q"
  obtain p jt where p: "parseProjectID (pv_scan ?v) (rq_projectID q) = Inr p" and jt: "body_job_type (rq_body q) = Inr jt"
    using assms unfolding index_checks_def Let_def andThen_Inr by blast
  obtain wf where wf: "MapJobTypeToWorkflow jt = Some wf"
    using assms by (cases "MapJobTypeToWorkflow jt") (simp_all add: index_checks_def Let_def p jt)
  let ?q = "query (pv_ft ?v) ''GetProjectSSHKeyAssignment'' (Inr (GetProjectSSHKeyAssignment p (aw_assignments s)))"
  obtain k where k: "?q = Inr (Some k)"
  proof (cases ?q)
    case (Inl e)
    then show ?thesis using assms by (simp add: index_checks_def Let_def p jt wf)
  next
    case (Inr x)
    then show ?thesis using assms that by (cases x) (simp_all add: index_checks_def Let_def p jt wf)
  qed
  obtain src cfg where g: "GetResolvedConfig ?v (rq_projectID q) (aw_settings s) = Inr (src, cfg)"
    using assms by (cases "GetResolvedConfig ?v (rq_projectID q) (aw_settings s)") (auto simp: index_checks_def Let_def p jt wf k)
  obtain emb where e: "pv_scan ?v (dec_ID cfg) = Some emb"
    using assms by (cases "pv_scan ?v (dec_ID cfg)") (simp_all add: index_checks_def Let_def p jt wf k g)
  have "pv_scan ?v (rq_projectID q) = Some p" using p by (auto simp: parseProjectID_def Let_def split: if_splits option.splits)
  moreover have "io_ProjectID d = p" "io_JobType d = jt" "io_Workflow d = wf" "io_EmbeddingConfigID d = emb"
    using assms by (auto simp: index_checks_def Let_def p jt wf k g e)
  moreover have "GetProjectSSHKeyAssignment p (aw_assignments s) = Some k" using k by (simp add: query_Inr)
  ultimately show ?thesis using that [OF _ _ g] wf e by simp
qed


section \<open>One active job\<close>

text \<open>What a step of a worker, which creates no job, does to the jobs.\<close>

definition ages :: "(IndexingJob \<Rightarrow> IndexingJob) \<Rightarrow> bool" where
  "ages g = (\<forall>j. job_ID (g j) = job_ID j \<and> job_ProjectID (g j) = job_ProjectID j \<and> job_JobType (g j) = job_JobType j \<and>
     (job_Status (g j) \<in> {''queued'', ''running''} \<longrightarrow> job_Status j \<in> {''queued'', ''running''}))"

definition aged :: "jdb \<Rightarrow> jdb \<Rightarrow> bool" where
  "aged s s' = (\<exists>g. ages g \<and> db_jobs s' = map g (db_jobs s))"

lemma aged_same: "db_jobs s' = db_jobs s \<Longrightarrow> aged s s'"
  unfolding aged_def by (rule exI [of _ "\<lambda>j. j"]) (simp add: ages_def)

lemma aged_update:
  assumes "\<And>j. p j \<Longrightarrow> job_ID (f j) = job_ID j \<and> job_ProjectID (f j) = job_ProjectID j \<and> job_JobType (f j) = job_JobType j \<and>
     (job_Status (f j) \<in> {''queued'', ''running''} \<longrightarrow> job_Status j \<in> {''queued'', ''running''})"
  shows "aged s (snd (exec_query ft n (Inr (update_jobs p f s)) s))"
proof -
  have "ages (\<lambda>j. if p j then f j else j)" unfolding ages_def using assms by simp
  moreover have "db_jobs (snd (update_jobs p f s)) = map (\<lambda>j. if p j then f j else j) (db_jobs s)"
    by (simp add: update_jobs_def update_rows_def)
  ultimately have "aged s (snd (update_jobs p f s))" unfolding aged_def by blast
  from exec_query_keeps [of "aged s" s, OF aged_same [OF refl] this, of ft n "fst (update_jobs p f s)"] show ?thesis by simp
qed

lemma aged_jobs: "aged s t \<Longrightarrow> db_jobs u = db_jobs t \<Longrightarrow> aged s u"
  by (simp add: aged_def)

lemma aged_orphan: "aged s (DeleteOrphanedBuildingSnapshot i s)"
proof (cases "db_jobs (DeleteOrphanedBuildingSnapshot i s) = db_jobs s")
  case False
  then have "db_jobs (DeleteOrphanedBuildingSnapshot i s) =
      db_jobs (snd (exec_query (\<lambda>_. NoFault) [] (Inr (update_jobs (\<lambda>j. sql_eq (job_IndexSnapshotID j) i) (\<lambda>j. j\<lparr>job_IndexSnapshotID := null_UUID\<rparr>) s)) s))"
    by (auto simp: DeleteOrphanedBuildingSnapshot_def update_jobs_def exec_query_def Let_def split: if_splits)
  moreover have "aged s (snd (exec_query (\<lambda>_. NoFault) [] (Inr (update_jobs (\<lambda>j. sql_eq (job_IndexSnapshotID j) i) (\<lambda>j. j\<lparr>job_IndexSnapshotID := null_UUID\<rparr>) s)) s))"
    by (rule aged_update) simp
  ultimately show ?thesis using aged_jobs by blast
qed (rule aged_same)

lemma job_step_aged: "job_step s s' \<Longrightarrow> length (db_jobs s') = length (db_jobs s) \<Longrightarrow> aged s s'"
proof (induction rule: job_step.induct)
  case (create fresh s now p sn jt emb llm)
  then show ?case by (simp add: CreateIndexingJob_def Let_def)
next
  case (snapshot fresh s now ft p branch ev commit)
  show ?case by (rule aged_same) (auto simp: snd_repo exec_query_def CreateIndexSnapshot_def Let_def split: option.splits)
next
  case (activate p branch i s now ft)
  then show ?case using activate_result [of now ft p branch i s] by (auto intro!: aged_same simp: snap_queries_jobs)
next
  case (clean s i)
  then show ?case by (intro aged_same snap_queries_jobs)
next
  case (link s ft p i commit)
  then show ?case by (intro aged_same link_frame)
next
  case (orphan s i)
  then show ?case by (intro aged_orphan)
qed (unfold snd_repo ClaimQueuedIndexingJob_def SetIndexingJobProgress_def SetIndexingJobCompletedFromRunning_def
    SetIndexingJobFailedFromRunning_def FailStaleJob_def; rule aged_update; simp)+

text \<open>One step of the platform as the jobs see it: a request, a change of the settings, a step of a worker or of the reaper, a task taken
  from the queue.\<close>

inductive api_step :: "api_world \<Rightarrow> api_world \<Rightarrow> bool" where
  request: "new_job_id (rq_fresh q) (aw_jobs s) \<Longrightarrow> uuid_Valid (rq_fresh q) \<Longrightarrow> api_step s (snd (HandleIndex q s))"
| settings: "api_step s (s\<lparr>aw_settings := setting_step op (aw_settings s)\<rparr>)"
| work: "job_step (aw_jobs s) j \<Longrightarrow> length (db_jobs j) = length (db_jobs (aw_jobs s)) \<Longrightarrow> api_step s (s\<lparr>aw_jobs := j\<rparr>)"
| taken: "aw_queue s = t # ts \<Longrightarrow> api_step s (s\<lparr>aw_queue := ts\<rparr>)"

definition one_active :: "api_world \<Rightarrow> bool" where
  "one_active s = (\<forall>p jt. length (filter (active_job p jt) (db_jobs (aw_jobs s))) \<le> 1)"

lemma filter_map_le: "(\<And>x. P (g x) \<Longrightarrow> P x) \<Longrightarrow> length (filter P (map g xs)) \<le> length (filter P xs)"
  by (induction xs) auto

lemma aged_active:
  assumes "aged s s'"
  shows "length (filter (active_job p jt) (db_jobs s')) \<le> length (filter (active_job p jt) (db_jobs s))"
proof -
  obtain g where g: "ages g" "db_jobs s' = map g (db_jobs s)" using assms unfolding aged_def by blast
  then have "active_job p jt j" if "active_job p jt (g j)" for j
    using that unfolding ages_def active_job_def by metis
  then show ?thesis unfolding g(2) by (rule filter_map_le)
qed

lemma active_same_project:
  assumes "sql_eq i p"
  shows "active_job p jt = active_job i jt"
proof -
  have "sql_eq k p \<longleftrightarrow> sql_eq k i" for k using assms by (auto simp: sql_eq_def)
  then show ?thesis by (simp add: active_job_def fun_eq_iff)
qed

lemma one_active_request:
  assumes "one_active s" "new_job_id (rq_fresh q) (aw_jobs s)" "uuid_Valid (rq_fresh q)"
  shows "one_active (snd (HandleIndex q s))"
proof -
  have added: "one_active t" if "db_jobs (aw_jobs t) = db_jobs (aw_jobs s) @ [j]" "job_ProjectID j = io_ProjectID d" "job_JobType j = io_JobType d"
    "filter (active_job (io_ProjectID d) (io_JobType d)) (db_jobs (aw_jobs s)) = []" for t j d
    unfolding one_active_def
  proof (intro allI)
    fix p jt
    show "length (filter (active_job p jt) (db_jobs (aw_jobs t))) \<le> 1"
    proof (cases "active_job p jt j")
      case True
      then have "active_job p jt = active_job (io_ProjectID d) (io_JobType d)"
        using that(2,3) active_same_project by (auto simp: active_job_def)
      then show ?thesis by (simp add: that(1,4))
    next
      case False
      then show ?thesis using assms(1) by (simp add: that(1) one_active_def)
    qed
  qed
  have created: "one_active s'" if new: "find_active q d s = Inr None" and c: "create_and_enqueue q d s = (r, s')" for d r s'
    using c assms(2,3)
  proof (cases rule: create_and_enqueue_cases)
    case none
    then show ?thesis using assms(1) by simp
  next
    case lost
    have "db_jobs (aw_jobs s') = db_jobs (aw_jobs s) @ [ordered_job q d]" using lost(2) by simp
    then show ?thesis by (rule added) (rule ordered_job_simps find_active_None [OF new])+
  next
    case (queued qu)
    have "db_jobs (aw_jobs s') = db_jobs (aw_jobs s) @ [ordered_job q d]" using queued(2) by simp
    then show ?thesis by (rule added) (rule ordered_job_simps find_active_None [OF new])+
  next
    case (refused j qu msg)
    then have "job_ProjectID j = io_ProjectID d" "job_JobType j = io_JobType d" by (auto simp: fail_created_def)
    moreover have "db_jobs (aw_jobs s') = db_jobs (aw_jobs s) @ [j]" using refused(2) by simp
    ultimately show ?thesis using added find_active_None [OF new] by blast
  qed
  show ?thesis using assms(1) created
    by (auto simp: HandleIndex_def split: sum.split option.split) (metis prod.collapse)
qed

text \<open>C15: Requests one after the other, whatever workers, reapers and settings do in between and whatever fails, leave at most one queued or
  running job for a project and a job type.\<close>

theorem one_active_job:
  assumes "api_step\<^sup>*\<^sup>* s s'" "one_active s"
  shows "one_active s'"
  using assms
proof (induction rule: rtranclp_induct)
  case (step t u)
  from step.hyps(2) show ?case
  proof (cases rule: api_step.cases)
    case (work j)
    have "length (filter (active_job p jt) (db_jobs j)) \<le> 1" for p jt
      using aged_active [OF job_step_aged [OF work(2,3)], of p jt] step.IH [OF step.prems] unfolding one_active_def by (meson le_trans)
    then show ?thesis by (simp add: work(1) one_active_def)
  next
    case (request q)
    then show ?thesis using step.IH [OF step.prems] one_active_request by simp
  qed (use step.IH [OF step.prems] in \<open>simp_all add: one_active_def\<close>)
qed simp

text \<open>The check and the insertion are two statements, and no index of the table forbids a second active job: two requests that both
  look before either inserts create two.\<close>

lemma interleaved_requests_duplicate:
  assumes "find_active q d s = Inr None" "find_active q' d s = Inr None" "sql_eq (io_ProjectID d) (io_ProjectID d)"
    and "create_and_enqueue q d s = (Inr j, t)" "create_and_enqueue q' d t = (Inr j', u)"
    and "new_job_id (rq_fresh q) (aw_jobs s)" "new_job_id (rq_fresh q') (aw_jobs t)" "uuid_Valid (rq_fresh q)" "uuid_Valid (rq_fresh q')"
  shows "length (filter (active_job (io_ProjectID d) (io_JobType d)) (db_jobs (aw_jobs u))) = 2"
proof -
  have "db_jobs (aw_jobs t) = db_jobs (aw_jobs s) @ [ordered_job q d]"
    using assms(4,6,8) by (cases rule: create_and_enqueue_cases) simp_all
  moreover have "db_jobs (aw_jobs u) = db_jobs (aw_jobs t) @ [ordered_job q' d]"
    using assms(5,7,9) by (cases rule: create_and_enqueue_cases) simp_all
  moreover have "active_job (io_ProjectID d) (io_JobType d) (ordered_job k d)" for k using assms(3) by (simp add: active_job_def)
  ultimately show ?thesis using find_active_None [OF assms(1)] by simp
qed

section \<open>From the request to the end of the job\<close>

text \<open>What a payload decodes to.\<close>

definition task_of :: "taskPayload \<Rightarrow> WorkflowTask" where
  "task_of p = \<lparr>wt_JobID = tp_JobID p, wt_Workflow = tp_Workflow p, wt_EnqueuedAt = tp_EnqueuedAt p, wt_ProjectID = tp_ProjectID p,
     wt_TraceID = [], wt_RequestedBy = tp_RequestedBy p, wt_WorkerID = []\<rparr>"

lemma payload_nonempty: "payload_json p \<noteq> []"
  by (simp add: payload_json_def json_object_def)

text \<open>A task whose required fields are there is decoded, and the handler it names runs.\<close>

lemma wrapHandler_runs:
  assumes "wrapHandler unmarshal name h reg (payload_json p) w = Some (r, w', reg')" "unmarshal (payload_json p) = Inr (task_of p)"
    and "tp_JobID p \<noteq> []" "tp_EnqueuedAt p \<noteq> []" "tp_Workflow p = name" "name \<noteq> []"
  obtains wid where "h (task_of p\<lparr>wt_WorkerID := wid\<rparr>) w = Some (r, w')" "\<forall>k. reg' = Some k \<longrightarrow> tp_JobID p \<notin> fst ` set (reg_activeJobs k)"
proof -
  have fields: "wt_JobID (task_of p) = tp_JobID p" "wt_Workflow (task_of p) = name" "wt_EnqueuedAt (task_of p) = tp_EnqueuedAt p"
    using assms(5) by (simp_all add: task_of_def)
  have dec: "DecodeWorkflowTask unmarshal (payload_json p) = Inr (task_of p)"
    using assms(2-4,6) payload_nonempty [of p] by (simp add: DecodeWorkflowTask_def fields)
  show ?thesis
  proof (cases reg)
    case None
    have "task_of p\<lparr>wt_WorkerID := wt_WorkerID (task_of p)\<rparr> = task_of p" by simp
    then show ?thesis using assms(1) that [of "wt_WorkerID (task_of p)"] by (auto simp: wrapHandler_def dec fields None)
  next
    case (Some rg)
    then show ?thesis using assms(1) that [of "reg_workerID rg"] by (auto simp: wrapHandler_def dec fields ClearJob_keys)
  qed
qed

lemma created_is_queued:
  assumes "create_and_enqueue q d s = (Inr j, s')" "new_job_id (rq_fresh q) (aw_jobs s)" "uuid_Valid (rq_fresh q)"
  shows "j = ordered_job q d" "jobs_sat (rq_fresh q) (\<lambda>st. st = ''queued'') (aw_jobs s')"
proof -
  have j: "j = ordered_job q d \<and> db_jobs (aw_jobs s') = db_jobs (aw_jobs s) @ [ordered_job q d]"
    using assms by (cases rule: create_and_enqueue_cases) simp_all
  then show "j = ordered_job q d" by simp
  show "jobs_sat (rq_fresh q) (\<lambda>st. st = ''queued'') (aw_jobs s')"
    using j assms(2,3) by (auto simp: jobs_sat_def new_job_id_def sql_eq_def)
qed

lemma new_request:
  assumes "HandleIndex q s = (Inr job, s')" "job \<notin> set (db_jobs (aw_jobs s))"
  obtains d where "index_checks q s = Inr d" "create_and_enqueue q d s = (Inr job, s')"
proof -
  obtain d where d: "index_checks q s = Inr d" using assms(1) by (cases "index_checks q s") (auto simp: HandleIndex_def)
  have "find_active q d s = Inr None"
    using assms find_active_Some [of q d s] by (auto simp: HandleIndex_def d split: sum.splits option.splits)
  then show ?thesis using that [OF d] assms(1) by (simp add: HandleIndex_def d)
qed

text \<open>C5: From the request to the end: when a request answers with a new job and a worker takes its task on those tables,
  then the handler of the job's type runs on that job, whatever it is and whatever fails there, and settles it:
  after an answer without an error it is failed, or completed and the branch of its project has an active snapshot of the commit that
  was checked out, or still running because the statement that ends it took no effect; after an error it is still queued, or running
  because the answer of the claim was lost. The worker no longer reports it as running. The server has a publisher and a time stamp that
  is not empty, the decoder reads back the fields of the payload, and the handlers read the text of the job's identifier.\<close>

theorem requested_job_is_settled:
  assumes "HandleIndex q s = (Inr job, s')" "job \<notin> set (db_jobs (aw_jobs s))"
    and "new_job_id (rq_fresh q) (aw_jobs s)" "uuid_Valid (rq_fresh q)" "rq_publisher q = Some cfg" "rq_stamp q \<noteq> []"
    and decode: "\<forall>wf \<in> {''full-index'', ''incremental-index''}. unmarshal (payload_json (index_payload q wf)) = Inr (task_of (index_payload q wf))"
    and run: "BuildServeMux unmarshal (worker_handlers e v) reg (last (aw_queue s')) w = Some (r, w', reg')"
    and "jobs_of w = aw_jobs s'"
    and envs: "\<forall>h \<in> {e, ie_base v}. world_ok h w \<and> he_parse_uuid h (PgUUIDToString (job_ID job)) = Inr (job_ID job)"
  shows "(\<exists>task. wt_JobID task = PgUUIDToString (job_ID job) \<and>
           (if job_JobType job = ''full'' then Handle e else inc_Handle v) task w = Some (r, w')) \<and>
         job_settled (if job_JobType job = ''full'' then e else ie_base v) (job_ID job) r (aw_jobs s') (jobs_of w') \<and>
         (\<forall>k. reg' = Some k \<longrightarrow> PgUUIDToString (job_ID job) \<notin> fst ` set (reg_activeJobs k))"
proof -
  obtain d where d: "index_checks q s = Inr d" "create_and_enqueue q d s = (Inr job, s')" by (rule new_request [OF assms(1,2)])
  note created = created_is_queued [OF d(2) assms(3,4)]
  have job: "job_ID job = rq_fresh q" "job_JobType job = io_JobType d" by (simp_all add: created(1))
  have mapped: "MapJobTypeToWorkflow (io_JobType d) = Some (io_Workflow d)" using d(1) by (rule index_checks_Inr)
  let ?p = "index_payload q (io_Workflow d)"
  from d(2) assms(3,4) obtain to where t: "last (aw_queue s') =
      \<lparr>qt_type = io_Workflow d, qt_payload = payload_json ?p, qt_timeout = to, qt_maxRetry = pc_MaxRetries cfg\<rparr>"
    by (cases rule: create_and_enqueue_cases) (auto simp: assms(5))
  let ?h = "if job_JobType job = ''full'' then Handle e else inc_Handle v"
  let ?e = "if job_JobType job = ''full'' then e else ie_base v"
  have id: "tp_JobID ?p = PgUUIDToString (job_ID job)" "wt_JobID (task_of ?p\<lparr>wt_WorkerID := wid\<rparr>) = PgUUIDToString (job_ID job)" for wid
    by (simp_all add: task_of_def index_payload_def job)
  have sat: "jobs_sat (job_ID job) (\<lambda>st. st = ''queued'') (jobs_of w)" using created(2) by (simp add: assms(9) job)
  consider (full) "io_JobType d = ''full''" "io_Workflow d = ''full-index''" | (incremental) "io_JobType d \<noteq> ''full''" "io_Workflow d = ''incremental-index''"
    using mapped by (auto simp: MapJobTypeToWorkflow_def split: if_splits)
  then have wrapped: "wrapHandler unmarshal (io_Workflow d) ?h reg (payload_json ?p) w = Some (r, w', reg')"
    and dec: "unmarshal (payload_json ?p) = Inr (task_of ?p)" and named: "io_Workflow d \<noteq> []"
    using run decode by (cases; simp add: t job BuildServeMux_def worker_handlers_def Dispatcher_Register_def)+
  have fields: "tp_JobID ?p \<noteq> []" "tp_EnqueuedAt ?p \<noteq> []" "tp_Workflow ?p = io_Workflow d"
    using assms(4,6) by (simp_all add: index_payload_def PgUUIDToString_def dashed_def)
  obtain wid where ran: "?h (task_of ?p\<lparr>wt_WorkerID := wid\<rparr>) w = Some (r, w')"
    and gone: "\<forall>k. reg' = Some k \<longrightarrow> tp_JobID ?p \<notin> fst ` set (reg_activeJobs k)"
    by (rule wrapHandler_runs [OF wrapped dec fields named])
  have "job_settled ?e (job_ID job) r (jobs_of w) (jobs_of w')"
  proof (cases "job_JobType job = ''full''")
    case True
    with ran have "Handle e (task_of ?p\<lparr>wt_WorkerID := wid\<rparr>) w = Some (r, w')" by simp
    from full.settles [OF this [unfolded Handle_def] _ _ sat, unfolded id] show ?thesis using envs True by simp
  next
    case False
    with ran have "inc_Handle v (task_of ?p\<lparr>wt_WorkerID := wid\<rparr>) w = Some (r, w')" by simp
    from inc.settles [OF this [unfolded inc_Handle_def] _ _ sat, unfolded id] show ?thesis using envs False by simp
  qed
  moreover have "\<exists>task. wt_JobID task = PgUUIDToString (job_ID job) \<and> ?h task w = Some (r, w')" using ran id(2) by blast
  ultimately show ?thesis using gone unfolding id(1) assms(9) by blast
qed

section \<open>Examples\<close>

definition rx_id :: string where
  "rx_id = ''00000000-0000-0000-0000-000000000001''"

definition rx_req :: index_req where
  "rx_req = \<lparr>rq_projectID = rx_id, rq_body = No_body, rq_user = Some ''u'', rq_keyType = None, rq_env = sx_env, rq_fresh = ex_uuid 1,
     rq_llm = Inl Pg_Other, rq_publisher = Some \<lparr>pc_IndexFullTimeout = 60, pc_IndexIncrementalTimeout = 30, pc_MaxRetries = 3\<rparr>,
     rq_enqueue = None, rq_stamp = ''now''\<rparr>"

definition rx_world :: api_world where
  "rx_world = \<lparr>aw_settings = sx_db\<lparr>pd_projects := [\<lparr>sel_ProjectID = sx_id rx_id, sel_SelectedEmbeddingGlobalConfigID = null_UUID, sel_UpdatedAt = 1\<rparr>]\<rparr>,
     aw_jobs = \<lparr>db_jobs = [], db_snaps = [], db_files = []\<rparr>,
     aw_assignments = [\<lparr>psa_ProjectID = sx_id rx_id, psa_SshKeyID = ex_uuid 6, psa_IsActive = True\<rparr>], aw_queue = []\<rparr>"

lemma rx_uuidRE: "uuidRE rx_id"
  by code_simp

lemma rx_resolved: "\<not> isl (GetResolvedConfig sx_env rx_id (aw_settings rx_world))"
  by code_simp

lemma rx_fields [simp]: "rq_env rx_req = sx_env" "rq_fresh rx_req = ex_uuid 1" "rq_projectID rx_req = rx_id" "aw_jobs rx_world = \<lparr>db_jobs = [], db_snaps = [], db_files = []\<rparr>"
  "rq_body rx_req = No_body" "rq_llm rx_req = Inl Pg_Other"
  by (simp_all add: rx_req_def rx_world_def)

lemma rx_new: "new_job_id (rq_fresh rx_req) (aw_jobs rx_world)" "uuid_Valid (rq_fresh rx_req)"
  by (simp_all add: new_job_id_def ex_uuid_def)

lemma rx_checks: "\<exists>d. index_checks rx_req rx_world = Inr d \<and> io_ProjectID d = sx_id rx_id \<and> io_JobType d = ''full'' \<and> uuid_Valid (io_EmbeddingConfigID d)"
proof -
  have p: "parseProjectID (pv_scan sx_env) rx_id = Inr (sx_id rx_id)"
    by (simp add: parseProjectID_def val_UUID_def rx_uuidRE HasErrors_def sx_fields)
  have a: "query (pv_ft sx_env) ''GetProjectSSHKeyAssignment'' (Inr (GetProjectSSHKeyAssignment (sx_id rx_id) (aw_assignments rx_world))) =
      Inr (Some \<lparr>psa_ProjectID = sx_id rx_id, psa_SshKeyID = ex_uuid 6, psa_IsActive = True\<rparr>)"
    by (simp add: GetProjectSSHKeyAssignment_def rx_world_def sql_eq_def sx_id_def sx_fields query_def)
  obtain src cfg where g: "GetResolvedConfig sx_env rx_id (aw_settings rx_world) = Inr (src, cfg)"
    using rx_resolved by (cases "GetResolvedConfig sx_env rx_id (aw_settings rx_world)") auto
  show ?thesis
    by (simp add: index_checks_def Let_def p body_job_type_def MapJobTypeToWorkflow_def a g) (simp add: sx_id_def sx_fields)
qed

lemma rx_accepted:
  obtains job s' where "HandleIndex rx_req rx_world = (Inr job, s')" "db_jobs (aw_jobs s') = [job]" "db_snaps (aw_jobs s') = []"
    "job_ID job = ex_uuid 1" "job_Status job = ''queued''" "uuid_Valid (job_ProjectID job)" "uuid_Valid (job_EmbeddingProviderConfigID job)"
    "job_IndexSnapshotID job = null_UUID"
proof -
  obtain d where d: "index_checks rx_req rx_world = Inr d" "io_ProjectID d = sx_id rx_id" "io_JobType d = ''full''" "uuid_Valid (io_EmbeddingConfigID d)"
    using rx_checks by blast
  have "find_active rx_req d rx_world = Inr None"
    by (simp add: find_active_def FindActiveIndexingJobForProjectAndType_def sx_fields query_def)
  then have "HandleIndex rx_req rx_world = create_and_enqueue rx_req d rx_world" by (simp add: HandleIndex_def d)
  moreover obtain s' where "create_and_enqueue rx_req d rx_world = (Inr (ordered_job rx_req d), s')" "db_jobs (aw_jobs s') = [ordered_job rx_req d]"
      "db_snaps (aw_jobs s') = []"
    by (simp add: create_and_enqueue_def CreateIndexingJob_ordered [of rx_req, simplified] exec_query_def query_def sx_fields EnqueueIndexJob_def Let_def)
      (simp add: rx_req_def)
  moreover have "job_IndexSnapshotID (ordered_job rx_req d) = null_UUID" by (simp add: ordered_job_def CreateIndexingJob_def Let_def)
  ultimately show ?thesis using that [of "ordered_job rx_req d" s'] d by (simp add: sx_id_def)
qed


lemma rx_one_active: "one_active rx_world"
  by (simp add: one_active_def)

theorem one_active_job_witness: "one_active (snd (HandleIndex rx_req rx_world))"
proof -
  have "api_step\<^sup>*\<^sup>* rx_world (snd (HandleIndex rx_req rx_world))" using api_step.request [OF rx_new] by (rule r_into_rtranclp)
  then show ?thesis using rx_one_active by (rule one_active_job)
qed

definition rx_unmarshal :: "string \<Rightarrow> string + WorkflowTask" where
  "rx_unmarshal s = Inr (task_of (index_payload rx_req
     (if s = payload_json (index_payload rx_req ''full-index'') then ''full-index'' else ''incremental-index'')))"

lemma rx_payloads: "payload_json (index_payload rx_req ''incremental-index'') \<noteq> payload_json (index_payload rx_req ''full-index'')"
  by code_simp

lemma rx_decoded:
  "DecodeWorkflowTask rx_unmarshal (payload_json (index_payload rx_req ''full-index'')) = Inr (task_of (index_payload rx_req ''full-index''))"
proof -
  let ?t = "task_of (index_payload rx_req ''full-index'')"
  have ne: "wt_JobID ?t \<noteq> []" "wt_Workflow ?t \<noteq> []" "wt_EnqueuedAt ?t \<noteq> []" by code_simp+
  have "payload_json p \<noteq> []" for p by (simp add: payload_json_def json_object_def)
  moreover have "rx_unmarshal (payload_json (index_payload rx_req ''full-index'')) = Inr ?t" unfolding rx_unmarshal_def by simp
  ultimately show ?thesis using ne by (simp only: DecodeWorkflowTask_def if_False sum.case)
qed

lemma rx_run:
  assumes "db_jobs j = [job]" "job_ID job = ex_uuid 1" "job_Status job = ''queued''" "uuid_Valid (job_EmbeddingProviderConfigID job)"
    "job_IndexSnapshotID job = null_UUID" "\<And>i xc v. \<exists>w'. body i xc v = Some w'"
  shows "\<exists>w'. run_job ex_henv name body task (set_jobs ex_world j) = Some (Inr (), w')"
proof -
  let ?w = "set_jobs ex_world j"
  obtain xc where xc: "LoadExecutionContext ex_henv (ex_uuid 1) (jobs_of ?w) = Inr xc"
    using assms(1-5) by (simp add: LoadExecutionContext_def one_row_def query_def ex_henv_def GetIndexingJob_def context_branch_def
        sql_eq_def ex_uuid_def null_UUID_def)
  obtain L where L: "TryProjectLock (he_ft ex_henv) (he_session ex_henv) (xc_ProjectID xc) (w_locks ?w) = (Inr (), L)"
    by (simp add: TryProjectLock_def query_def Let_def ex_henv_def ex_world_def)
  obtain k where k: "ClaimJob (he_now ex_henv) (he_ft ex_henv) (ex_uuid 1) (wt_WorkerID task) (jobs_of ?w) = (Inr (), k)"
    using assms(1-3) by (simp add: ClaimJob_def ClaimQueuedIndexingJob_def update_jobs_def exec_query_def query_def ex_henv_def sql_eq_def ex_uuid_def)
  obtain w2 where "body (ex_uuid 1) xc (set_jobs (?w\<lparr>w_locks := L\<rparr>) k) = Some w2" using assms(6) by blast
  moreover have "he_parse_uuid ex_henv (wt_JobID task) = Inr (ex_uuid 1)" by (simp add: ex_henv_def)
  moreover have "jobs_of (?w\<lparr>w_locks := L\<rparr>) = jobs_of ?w" by simp
  ultimately show ?thesis using xc L k by (simp add: run_job_def Let_def)
qed

theorem requested_job_is_settled_witness:
  "\<exists>job s' w w' reg'. HandleIndex rx_req rx_world = (Inr job, s') \<and> jobs_of w = aw_jobs s' \<and>
     BuildServeMux rx_unmarshal (worker_handlers ex_henv ex_ienv) None (last (aw_queue s')) w = Some (Inr (), w', reg') \<and>
     jobs_sat (job_ID job) (\<lambda>st. st = ''failed'' \<or> st = ''completed'') (jobs_of w')"
proof -
  obtain job s' where h: "HandleIndex rx_req rx_world = (Inr job, s')" "db_jobs (aw_jobs s') = [job]" "db_snaps (aw_jobs s') = []"
    "job_ID job = ex_uuid 1" "job_Status job = ''queued''" "uuid_Valid (job_ProjectID job)" "uuid_Valid (job_EmbeddingProviderConfigID job)"
    "job_IndexSnapshotID job = null_UUID" by (rule rx_accepted)
  have pub: "rq_publisher rx_req = Some \<lparr>pc_IndexFullTimeout = 60, pc_IndexIncrementalTimeout = 30, pc_MaxRetries = 3\<rparr>" by (simp add: rx_req_def)
  have stamp: "rq_stamp rx_req \<noteq> []" by (simp add: rx_req_def)
  have new: "job \<notin> set (db_jobs (aw_jobs rx_world))" by simp
  let ?w = "set_jobs ex_world (aw_jobs s')"
  have e: "ie_base ex_ienv = ex_henv" by (simp add: ex_ienv_def)
  have decode: "\<forall>wf \<in> {''full-index'', ''incremental-index''}. rx_unmarshal (payload_json (index_payload rx_req wf)) = Inr (task_of (index_payload rx_req wf))"
    by (simp add: rx_unmarshal_def rx_payloads)
  have "world_ok ex_henv ?w"
    using h(2,3,6) ex_world_ok(1) by (simp add: world_ok_def jobs_ok_def snaps_ok_def count_active_def new_snap_id_def)
  then have envs: "\<forall>k \<in> {ex_henv, ie_base ex_ienv}. world_ok k ?w \<and> he_parse_uuid k (PgUUIDToString (job_ID job)) = Inr (job_ID job)"
    using h(4) by (simp add: e) (simp add: ex_henv_def)
  obtain d where d: "index_checks rx_req rx_world = Inr d" "io_ProjectID d = sx_id rx_id" "io_JobType d = ''full''"
    using rx_checks by blast
  obtain d' where "index_checks rx_req rx_world = Inr d'" "create_and_enqueue rx_req d' rx_world = (Inr job, s')" by (rule new_request [OF h(1) new])
  with d have "create_and_enqueue rx_req d rx_world = (Inr job, s')" by simp
  from this rx_new obtain to where t: "last (aw_queue s') = \<lparr>qt_type = io_Workflow d, qt_payload = payload_json (index_payload rx_req (io_Workflow d)), qt_timeout = to, qt_maxRetry = 3\<rparr>"
    by (cases rule: create_and_enqueue_cases) (auto simp: pub)
  have "MapJobTypeToWorkflow (io_JobType d) = Some (io_Workflow d)" using d(1) by (rule index_checks_Inr)
  then have wf: "io_Workflow d = ''full-index''" by (simp add: d(3) MapJobTypeToWorkflow_def)
  let ?t = "task_of (index_payload rx_req ''full-index'')"
  obtain w' where hd: "Handle ex_henv ?t ?w = Some (Inr (), w')"
    unfolding Handle_def using rx_run [OF h(2,4,5,7,8), of "process_claimed ex_henv", OF process_claimed_total [OF ex_parse]] by blast
  have nm: "wt_Workflow ?t = ''full-index''" by (simp add: task_of_def index_payload_def)
  have "wrapHandler rx_unmarshal ''full-index'' (Handle ex_henv) None (payload_json (index_payload rx_req ''full-index'')) ?w = Some (Inr (), w', None)"
    unfolding wrapHandler_def rx_decoded sum.case nm by (simp only: hd option.case option.map prod.case simp_thms if_False)
  then have run: "BuildServeMux rx_unmarshal (worker_handlers ex_henv ex_ienv) None (last (aw_queue s')) ?w = Some (Inr (), w', None)"
    by (simp add: t wf BuildServeMux_def worker_handlers_def Dispatcher_Register_def)
  have "jobs_of ?w = aw_jobs s'" by simp
  note settled = requested_job_is_settled [OF h(1) new rx_new pub stamp decode run this envs, unfolded e if_cancel]
  have "he_ft ex_henv = (\<lambda>_. NoFault)" by (simp add: ex_henv_def)
  with settled have "jobs_sat (job_ID job) (\<lambda>st. st = ''failed'' \<or> st = ''completed'') (jobs_of w')" by (blast intro: settled_no_fault)
  with h(1) run \<open>jobs_of ?w = aw_jobs s'\<close> show ?thesis by blast
qed

end
