(* ===== verification/Spec2Isabelle.thy ===== *)
theory Spec2Isabelle
  imports Parser_Sort Parser_Text Incremental_Index Chunk_Extract SSE_Hub Accounts Commit_Index Job_Request
begin

text \<open>
  A verification of the code-intelligence platform: a service with an HTTP interface for users, projects, members, keys and
  indexing jobs (\<^verbatim>\<open>src/backend-api\<close>), a worker that indexes repositories (\<^verbatim>\<open>src/backend-worker\<close>), and the database
  layer both share (\<^verbatim>\<open>src/datastore/postgres\<close>). The paths below abbreviate \<^verbatim>\<open>src/backend-api/internal\<close> to \<^verbatim>\<open>A\<close>,
  \<^verbatim>\<open>src/backend-worker/internal\<close> to \<^verbatim>\<open>K\<close> and \<^verbatim>\<open>src/datastore/postgres/sqlc\<close> to \<^verbatim>\<open>D\<close>.

  \<^bold>\<open>How the parts interact.\<close> The API creates jobs in the table \<^verbatim>\<open>indexing_jobs\<close> and queues a task for them. A worker takes a
  task, loads the context of the job, takes a lock on the project, claims the job (queued to running), prepares a
  worktree, indexes the commits of the branch, parses the files into symbols, imports and chunks, writes these artifacts under a
  snapshot, embeds the chunks, stores the vectors, and activates the snapshot: the one of its branch that searches read.
  Workers publish heartbeats, from which a reaper, and the API when it shows a job, decide which running jobs are dead. The API
  tells the browsers about jobs and members through the hub of server-sent events.

  \<^bold>\<open>Conventions.\<close> A Go string is the list of its bytes; an integer type of 32 bits is an integer that goes through the
  wrap-around \<open>i32\<close>; the words of SHA-256 are \<open>32 word\<close>. A struct is a record, an error the left of a sum, a panic or a missing row
  \<open>None\<close>. A table is a list of rows, and a query a function on it that checks the constraints of the schema. SQL comparison
  with NULL is \<open>sql_eq\<close>. What the environment decides is an argument: the clock, generated keys, and which query fails and
  how (\<open>faults\<close>: no fault, a deadlock, another error, or an answer that is lost although the statement took effect), so
  that a theorem quantifies over all of it. A history of a component is a list of its operations, each with its own environment, or
  a step relation where operations interleave at a finer grain.

  \<^bold>\<open>Foundations.\<close>
  \<open>Go_Prelude\<close>: the string functions of Go. \<open>Go_Bytes\<close>: UTF-8 validity, SHA-256 (checked on the published vectors), hexadecimal text.
  \<open>Go_Json\<close>: writing JSON. \<open>Api_Domain\<close>: \<^verbatim>\<open>A/domain\<close>, \<^verbatim>\<open>A/dbconv\<close>, \<^verbatim>\<open>A/auth/token.go\<close>; roles, errors, identifiers
  and their text. \<open>Pg_Tx\<close>: \<^verbatim>\<open>A/storage/postgres/tx.go\<close>, transactions that retry on deadlock; the locale \<open>tx_body\<close> lifts a relation that a
  body keeps to the retried transaction, and is interpreted on the bodies of the services.

  \<^bold>\<open>The API.\<close>
  \<open>Membership\<close>: \<^verbatim>\<open>A/membership/service.go\<close> with the queries of \<^verbatim>\<open>D/auth.sql.go\<close>; no history of calls loses the last active owner of a
  project. \<open>Access_Store\<close>: sessions, keys and platform roles with their queries and the SQL view that computes what a key may do.
  \<open>Validate\<close>: \<^verbatim>\<open>A/validate\<close>. \<open>Api_Keys\<close>: \<^verbatim>\<open>A/apikey\<close> and \<^verbatim>\<open>A/handler/apikey.go\<close>; the limits of keys hold and revoked keys stay
  revoked in every history. \<open>Api_Access\<close>: \<^verbatim>\<open>A/middleware\<close> and the routes of \<^verbatim>\<open>A/app/routes.go\<close> with their guards; the locale \<open>guards\<close>
  states what a guard promises, \<open>RequireProjectRole_exact\<close> that the project guard implements the permission matrix.
  \<open>Accounts\<close>: \<^verbatim>\<open>A/handler/user.go\<close>, \<^verbatim>\<open>auth.go\<close>, \<^verbatim>\<open>admin.go\<close>; the platform keeps an admin, and what a deactivation does and does
  not do. \<open>SSE_Hub\<close>: \<^verbatim>\<open>A/sse/hub.go\<close> over an explicit store of clients and shared project sets, with a step relation for the
  interleavings of its calls; \<open>hub_safe\<close> is its invariant.
  \<open>Provider_Settings\<close> and \<open>Provider_Secrets\<close>: \<^verbatim>\<open>A/embedding/service.go\<close> with \<^verbatim>\<open>A/providersetting\<close> and \<^verbatim>\<open>A/providers\<close>, which embedding
  provider a project uses; the platform keeps its default, every project resolves to an active configuration, a setting takes effect,
  and stored credentials stay with the endpoint they were entered for, unless two patches of one configuration overlap.

  \<^bold>\<open>Jobs.\<close>
  \<open>Job_Store\<close>: the queries of \<^verbatim>\<open>D/indexing.sql.go\<close> and \<^verbatim>\<open>K/repository/job.go\<close>; claims, progress, the two final states, snapshots
  and their activation, project locks. A job is claimed once, a finished job stays finished (the setting
  to running, which nothing calls, aside), a branch has at most one active snapshot.
  \<open>Job_Reaper\<close>: \<^verbatim>\<open>K/registry\<close>, \<^verbatim>\<open>K/reaper\<close>, \<^verbatim>\<open>A/jobhealth\<close>; what a reap cycle touches. The scan of heartbeats is bounded by the
  1000 iterations of the source.

  \<^bold>\<open>Parsing.\<close>
  \<open>Parser_Domain\<close>, \<open>Parser_Sort\<close>, \<open>Parser_Text\<close>: the types, orders, line arithmetic and batches of \<^verbatim>\<open>K/parser\<close>; the locale \<open>three_way\<close> states
  the laws of a comparison function and is interpreted on the seven of the source. \<open>Language_Registry\<close>: \<^verbatim>\<open>K/parser/registry\<close>, all 28
  configurations and the lookups. \<open>Chunk_Extract\<close>: \<^verbatim>\<open>K/parser/extractors/chunks.go\<close>; the chunks of symbols, classes, tests and modules lie
  in the file, carry the text of their range, and every top-level symbol has exactly one. Regular expressions and file
  patterns are interpreted in the subset the registry uses. \<open>Chunk_Split\<close>: splitting of texts that are too long for an embedding, with
  the loop as a \<open>partial_function\<close> that is proved to return on every text without a whole chunk's length of continuation bytes, valid
  UTF-8 in particular. \<open>Import_Resolve\<close>: \<^verbatim>\<open>K/indexing/resolve.go\<close>.

  \<^bold>\<open>Indexing.\<close>
  \<open>Artifact_Writer\<close>: \<^verbatim>\<open>K/artifact/writer.go\<close>. \<open>Index_Pipeline\<close>: \<^verbatim>\<open>K/indexing/pipeline.go\<close>, \<^verbatim>\<open>K/embedding\<close>, the collections of
  \<^verbatim>\<open>K/vectorstore\<close>; a snapshot is activated only when every chunk has its row and its vector. \<open>Workflow\<close> and \<open>Full_Index\<close>:
  \<^verbatim>\<open>K/workflow/fullindex/handler.go\<close>; the locale \<open>claimed_body\<close> states what the part of a handler after the claim promises, and both
  handlers interpret it. A handler settles its job or, as \<open>job_settled\<close> says, leaves it running when the statement that ends it fails, which
  it only logs; it gives back the lock unless the answer to the request for it was lost; it returns, and acts on jobs only through the operations of
  \<open>Job_Store\<close>, so that their invariants cover it. \<open>Copy_Forward\<close> and \<open>Incremental_Index\<close>: \<^verbatim>\<open>K/workflow/incremental\<close>; the copy of an
  unchanged file is stated row by row, and the incremental handler settles its job as the full one does.
  \<open>Git_Log\<close>: the parsers of \<^verbatim>\<open>K/gitclient/gitclient.go\<close>, whose round trips are stated against what git prints. \<open>Commit_Index\<close>:
  \<^verbatim>\<open>K/workflow/commits/indexer.go\<close>; a run is a prefix of a list of insertions that depends on the history alone, from which
  follow that a history is stored exactly, in one run, in parts, or after failures.

  \<open>Job_Request\<close>: \<^verbatim>\<open>HandleIndex\<close> of \<^verbatim>\<open>A/handler/project.go\<close>, \<^verbatim>\<open>A/queue/publisher.go\<close>, \<^verbatim>\<open>K/queue/consumer.go\<close>, \<^verbatim>\<open>K/workflow/dispatcher.go\<close>;
  the composition of settings, jobs, queue and handlers. What a request leaves behind is stated for every failure, sequential requests keep one active job per project
  and type, and \<open>requested_job_is_settled\<close> follows a job from the request through the queue and the worker to its end.

  \<^bold>\<open>Parameters and hypotheses.\<close> The parser engine (tree-sitter), git, the file system, the embedding service, the vector database,
  the random source, encryption and decryption, lower-casing, parsers of times, URLs and identifiers are functions in the environment records. The
  hypotheses on them are stated in each theorem: that the parser returns no chunk with 7500 bytes in a row that continue a rune, that the decoder of a task reads back its payload, that generated
  keys are new or distinct, that a projection of identifiers is injective.

  \<^bold>\<open>Not modelled.\<close> The extractors that walk syntax trees (\<^verbatim>\<open>K/parser/extractors\<close> but for chunks, \<^verbatim>\<open>K/parser/engine\<close>): their input is the tree of a
  library outside the sources. The plumbing of HTTP, JSON decoding, Redis, asynq and Qdrant, configuration from environment variables, SSH key
  generation and child processes, application set-up: they only call libraries. The language-model settings (\<^verbatim>\<open>A/llm/service.go\<close>), which
  repeat those of embeddings without dimensions and versions. Read-only listings of the API, and the
  TypeScript and MCP front ends. The manifest lists these parts with their files.
\<close>

end
